(* ===== verification/Prelude.thy ===== *)
theory Prelude
  imports Complex_Main
begin

text \<open>
  Shared vocabulary of the development: the collections of simplification rules that the
  component theories fill, the numeric types of the Go sources, and the generic lemmas on
  lists and maps that several components use.

  \<^item> \<open>float64\<close> stands for Go's \<^verbatim>\<open>float64\<close> as exact rationals: rounding, NaN and the
    infinities are not modelled.
  \<^item> \<open>wrap64\<close> is the reduction of an integer to the two's complement range of
    \<^verbatim>\<open>int64\<close>; it is written wherever the sources add or multiply \<^verbatim>\<open>int64\<close> values.
\<close>

named_theorems map_laws \<open>lookup after insert, delete and filter on maps\<close>
named_theorems go_str \<open>rules about the Go string functions\<close>
named_theorems limit_defs \<open>the operations of the budget and rate-limit store\<close>
named_theorems check_defs \<open>the level checks of the governance store\<close>
named_theorems hook_rules \<open>rules about running plugin hooks\<close>

type_synonym float64 = rat

subsection \<open>Machine integers\<close>

definition int64_min :: int where
  "int64_min = - (2 ^ 63)"

definition int64_max :: int where
  "int64_max = 2 ^ 63 - 1"

definition wrap64 :: "int \<Rightarrow> int" where
  "wrap64 x = (x + 2 ^ 63) mod 2 ^ 64 - 2 ^ 63"

definition in_int64 :: "int \<Rightarrow> bool" where
  "in_int64 x \<longleftrightarrow> int64_min \<le> x \<and> x \<le> int64_max"

lemma wrap64_in_range: "in_int64 (wrap64 x)"
  by (simp add: in_int64_def wrap64_def int64_min_def int64_max_def)

lemma wrap64_id: "in_int64 x \<Longrightarrow> wrap64 x = x"
  by (simp add: in_int64_def wrap64_def int64_min_def int64_max_def)

lemma wrap64_wrap64_add [simp]: "wrap64 (wrap64 x + y) = wrap64 (x + y)"
proof -
  have "wrap64 (wrap64 x + y) = ((x + 2 ^ 63) mod 2 ^ 64 + y) mod 2 ^ 64 - 2 ^ 63"
    by (simp add: wrap64_def)
  also have "\<dots> = (x + 2 ^ 63 + y) mod 2 ^ 64 - 2 ^ 63"
    by (simp add: mod_add_left_eq)
  finally show ?thesis by (simp add: wrap64_def algebra_simps)
qed

lemma wrap64_zero [simp]: "wrap64 0 = 0"
  by (simp add: wrap64_def)

lemma wrap64_wrap64 [simp]: "wrap64 (wrap64 x) = wrap64 x"
  using wrap64_wrap64_add [of x 0] by simp

subsection \<open>Maps\<close>

text \<open>
  Go's \<^verbatim>\<open>map\<close> and \<^verbatim>\<open>sync.Map\<close> are finite maps. Deleting the entries that satisfy a
  predicate while ranging over a map is \<open>map_drop\<close>.
\<close>

definition map_drop :: "('k \<Rightarrow> 'v \<Rightarrow> bool) \<Rightarrow> ('k \<rightharpoonup> 'v) \<Rightarrow> ('k \<rightharpoonup> 'v)" where
  "map_drop p m = (\<lambda>k. case m k of None \<Rightarrow> None | Some v \<Rightarrow> if p k v then None else Some v)"

lemma map_drop_Some [map_laws]: "map_drop p m k = Some v \<longleftrightarrow> m k = Some v \<and> \<not> p k v"
  by (auto simp: map_drop_def split: option.splits if_splits)

lemma map_drop_None [map_laws]: "map_drop p m k = None \<longleftrightarrow> (\<forall>v. m k = Some v \<longrightarrow> p k v)"
  by (auto simp: map_drop_def split: option.splits if_splits)

lemma dom_map_drop: "dom (map_drop p m) \<subseteq> dom m"
  by (auto simp: dom_def map_laws)

lemma map_drop_idem: "map_drop p (map_drop p m) = map_drop p m"
  by (rule ext) (auto simp: map_drop_def split: option.splits)

subsection \<open>Lists\<close>

lemma find_None_iff': "find p xs = None \<longleftrightarrow> (\<forall>x\<in>set xs. \<not> p x)"
  by (auto simp: find_None_iff)

lemma find_SomeD: "find p xs = Some x \<Longrightarrow> x \<in> set xs \<and> p x"
  by (auto simp: find_Some_iff)

text \<open>The first element of a list on which a partial function is defined.\<close>

fun first_some :: "('a \<Rightarrow> 'b option) \<Rightarrow> 'a list \<Rightarrow> 'b option" where
  "first_some f [] = None"
| "first_some f (x # xs) = (case f x of Some y \<Rightarrow> Some y | None \<Rightarrow> first_some f xs)"

lemma first_some_None: "first_some f xs = None \<longleftrightarrow> (\<forall>x\<in>set xs. f x = None)"
  by (induction xs) (auto split: option.splits)

lemma first_some_SomeD: "first_some f xs = Some y \<Longrightarrow> \<exists>x\<in>set xs. f x = Some y"
  by (induction xs) (auto split: option.splits)

lemma first_some_append:
  "first_some f (xs @ ys) = (case first_some f xs of Some y \<Rightarrow> Some y | None \<Rightarrow> first_some f ys)"
  by (induction xs) (auto split: option.splits)

text \<open>Duplicate-free append: the order of first occurrences, as the sources' \<^verbatim>\<open>seen\<close> sets keep it.\<close>

fun add_new :: "'a list \<Rightarrow> 'a list \<Rightarrow> 'a list" where
  "add_new acc [] = acc"
| "add_new acc (x # xs) = add_new (if x \<in> set acc then acc else acc @ [x]) xs"

lemma set_add_new [simp]: "set (add_new acc xs) = set acc \<union> set xs"
  by (induction acc xs rule: add_new.induct) auto

lemma distinct_add_new: "distinct acc \<Longrightarrow> distinct (add_new acc xs)"
  by (induction acc xs rule: add_new.induct) auto

end
