(* ===== verification/GoTime.thy ===== *)
theory GoTime
  imports GoStrings
begin

text \<open>
  The parts of Go's package \<^verbatim>\<open>time\<close> that the sources use. An instant is the number of
  nanoseconds since the Unix epoch in UTC (an unbounded integer; Go's \<^verbatim>\<open>time.Time\<close> covers
  a range of billions of years); a duration is an \<^verbatim>\<open>int64\<close> number of nanoseconds, so
  subtracting instants saturates and multiplying durations wraps around.
\<close>

type_synonym instant = int
type_synonym duration = int

definition nanosecond :: int where "nanosecond = 1"
definition second :: int where "second = 1000000000"
definition minute :: int where "minute = 60 * second"
definition hour :: int where "hour = 60 * minute"
definition day :: int where "day = 24 * hour"

lemmas time_units = nanosecond_def second_def minute_def hour_def day_def

text \<open>\<^verbatim>\<open>t.Sub(u)\<close>: the difference, saturated at the ends of \<^verbatim>\<open>int64\<close>.\<close>

definition time_sub :: "instant \<Rightarrow> instant \<Rightarrow> duration" where
  "time_sub t u = max int64_min (min int64_max (t - u))"

lemma time_sub_exact: "in_int64 (t - u) \<Longrightarrow> time_sub t u = t - u"
  by (auto simp: time_sub_def in_int64_def)

lemma time_sub_ge_iff:
  "in_int64 d \<Longrightarrow> d \<noteq> int64_min \<Longrightarrow> d \<le> time_sub t u \<longleftrightarrow> d \<le> t - u"
  by (auto simp: time_sub_def in_int64_def int64_min_def int64_max_def)

lemma time_sub_self [simp]: "time_sub t t = 0"
  by (simp add: time_sub_def int64_min_def int64_max_def)

lemma time_sub_mono: "t \<le> t' \<Longrightarrow> time_sub t u \<le> time_sub t' u"
  by (auto simp: time_sub_def)

subsection \<open>time.ParseDuration\<close>

text \<open>The bound \<open>1 << 63\<close> of the unsigned accumulators.\<close>

definition two63 :: int where
  "two63 = 9223372036854775808"

text \<open>
  \<^verbatim>\<open>leadingInt\<close>: the digits at the front; \<open>None\<close> when the value does not fit.
  \<^verbatim>\<open>leadingFraction\<close>: digits after the point, with the power of ten they are scaled by;
  digits that would overflow are dropped.
\<close>

fun leading_int :: "int \<Rightarrow> string \<Rightarrow> (int \<times> string) option" where
  "leading_int x [] = Some (x, [])"
| "leading_int x (c # s) =
     (if \<not> is_digit c then Some (x, c # s)
      else if two63 div 10 < x then None
      else let y = 10 * x + digit_val c in
        if two63 < y then None else leading_int y s)"

fun leading_fraction :: "int \<Rightarrow> int \<Rightarrow> bool \<Rightarrow> string \<Rightarrow> int \<times> int \<times> string" where
  "leading_fraction x scale overflow [] = (x, scale, [])"
| "leading_fraction x scale overflow (c # s) =
     (if \<not> is_digit c then (x, scale, c # s)
      else if overflow then leading_fraction x scale True s
      else if (two63 - 1) div 10 < x then leading_fraction x scale True s
      else let y = 10 * x + digit_val c in
        if two63 < y then leading_fraction x scale True s
        else leading_fraction y (10 * scale) False s)"

lemma leading_int_length: "leading_int x s = Some (v, r) \<Longrightarrow> length r \<le> length s"
  by (induction x s rule: leading_int.induct)
    (auto simp: Let_def split: if_splits intro: le_SucI)

lemma leading_fraction_length: "leading_fraction x sc ov s = (f, sc', r) \<Longrightarrow> length r \<le> length s"
  by (induction x sc ov s rule: leading_fraction.induct)
    (auto simp: Let_def split: if_splits intro: le_SucI)

definition unit_map :: "string \<Rightarrow> int option" where
  "unit_map u =
     (if u = ''ns'' then Some 1
      else if u = ''us'' then Some 1000
      else if u = [CHR 0xC2, CHR 0xB5, CHR ''s''] then Some 1000
      else if u = [CHR 0xCE, CHR 0xBC, CHR ''s''] then Some 1000
      else if u = ''ms'' then Some 1000000
      else if u = ''s'' then Some 1000000000
      else if u = ''m'' then Some 60000000000
      else if u = ''h'' then Some 3600000000000
      else None)"

definition not_unit_end :: "char \<Rightarrow> bool" where
  "not_unit_end c \<longleftrightarrow> c \<noteq> CHR ''.'' \<and> \<not> is_digit c"

text \<open>One number with its unit; the rest of the string. The fraction is scaled exactly
  (Go multiplies in \<^verbatim>\<open>float64\<close>), then truncated.\<close>

definition parse_fraction :: "string \<Rightarrow> int \<times> int \<times> string \<times> bool" where
  "parse_fraction s =
     (case s of
        [] \<Rightarrow> (0, 1, s, False)
      | c # s' \<Rightarrow>
          if c = CHR ''.'' then
            (let (f, scale, r) = leading_fraction 0 1 False s' in (f, scale, r, length r \<noteq> length s'))
          else (0, 1, s, False))"

definition parse_term :: "string \<Rightarrow> (int \<times> string) option" where
  "parse_term s =
     (case s of
        [] \<Rightarrow> None
      | c # _ \<Rightarrow>
          if \<not> (c = CHR ''.'' \<or> is_digit c) then None
          else (case leading_int 0 s of
              None \<Rightarrow> None
            | Some (v, s1) \<Rightarrow>
                (case parse_fraction s1 of (f, scale, s2, post) \<Rightarrow>
                  if length s1 = length s \<and> \<not> post then None
                  else let u = takeWhile not_unit_end s2; rest = dropWhile not_unit_end s2 in
                    if u = [] then None
                    else (case unit_map u of
                        None \<Rightarrow> None
                      | Some unit \<Rightarrow>
                          if two63 div unit < v then None
                          else let w = v * unit + (if 0 < f then f * unit div scale else 0) in
                            if two63 < w then None else Some (w, rest)))))"

lemma parse_fraction_length: "parse_fraction s = (f, sc, r, post) \<Longrightarrow> length r \<le> length s"
  by (auto simp: parse_fraction_def split: list.splits if_splits prod.splits
      dest: leading_fraction_length)

lemma parse_term_length:
  assumes "parse_term s = Some (w, r)"
  shows "length r < length s"
proof -
  from assms obtain v s1 f sc s2 post
    where i: "leading_int 0 s = Some (v, s1)" and f: "parse_fraction s1 = (f, sc, s2, post)"
      and u: "takeWhile not_unit_end s2 \<noteq> []" and r: "r = dropWhile not_unit_end s2"
    by (auto simp: parse_term_def Let_def split: list.splits if_splits option.splits prod.splits)
  from u have "length r < length s2" unfolding r
    by (metis append_self_conv2 length_dropWhile_le linorder_le_less_linear
        le_antisym length_append length_greater_0_conv less_add_same_cancel2 takeWhile_dropWhile_id)
  with leading_int_length [OF i] parse_fraction_length [OF f] show ?thesis by simp
qed

function parse_terms :: "int \<Rightarrow> string \<Rightarrow> int option" where
  "parse_terms d s =
     (if s = [] then Some d
      else case parse_term s of
          None \<Rightarrow> None
        | Some (w, r) \<Rightarrow>
            (let d' = (d + w) mod (2 * two63) in if two63 < d' then None else parse_terms d' r))"
  by pat_completeness auto
termination
  by (relation "measure (\<lambda>(d, s). length s)") (auto dest: parse_term_length)

declare parse_terms.simps [simp del]

lemma parse_terms_nonneg: "parse_terms d s = Some e \<Longrightarrow> 0 \<le> d \<Longrightarrow> 0 \<le> e"
proof (induction d s rule: parse_terms.induct)
  case (1 d s)
  show ?case
  proof (cases "s = []")
    case True
    with "1.prems" parse_terms.simps [of d s] show ?thesis by simp
  next
    case False
    with "1.prems"(1) obtain w r where w: "parse_term s = Some (w, r)"
      and le: "\<not> two63 < (d + w) mod (2 * two63)"
      and e: "parse_terms ((d + w) mod (2 * two63)) r = Some e"
      by (auto simp: parse_terms.simps [of d s] Let_def split: option.splits if_splits)
    have "0 \<le> (d + w) mod (2 * two63)" by (simp add: two63_def)
    from "1.IH" [OF False w refl refl le e this] show ?thesis .
  qed
qed

definition ParseDuration_std :: "string \<Rightarrow> duration option" where
  "ParseDuration_std orig =
     (let neg = (case orig of [] \<Rightarrow> False | c # _ \<Rightarrow> c = CHR ''-'');
          s = (case orig of [] \<Rightarrow> [] | c # r \<Rightarrow> if c = CHR ''-'' \<or> c = CHR ''+'' then r else orig)
      in if s = ''0'' then Some 0
         else if s = [] then None
         else case parse_terms 0 s of
             None \<Rightarrow> None
           | Some d \<Rightarrow>
               if neg then Some (wrap64 (- d))
               else if two63 - 1 < d then None
               else Some d)"

lemma ParseDuration_std_range: "ParseDuration_std s = Some d \<Longrightarrow> in_int64 d"
  by (auto simp: ParseDuration_std_def Let_def wrap64_in_range split: option.splits if_splits
      dest!: parse_terms_nonneg)
    (auto simp: in_int64_def int64_min_def int64_max_def two63_def)

lemma ParseDuration_std_30s: "ParseDuration_std ''30s'' = Some (30 * second)"
  by code_simp

lemma ParseDuration_std_mixed: "ParseDuration_std ''1h30m0.5s'' = Some (hour + 30 * minute + 500000000)"
  by code_simp

lemma ParseDuration_std_bad: "ParseDuration_std ''5'' = None" "ParseDuration_std ''1d'' = None"
  by code_simp+

subsection \<open>The civil calendar\<close>

text \<open>
  Year, month and day of a day number (days since 1970-01-01) in the proleptic Gregorian
  calendar, and back, by the usual era arithmetic: eras of 400 years (146097 days) that
  start on a first of March. \<open>civil_of_day\<close> gives \<^verbatim>\<open>t.Year()\<close>, \<^verbatim>\<open>t.Month()\<close> and
  \<^verbatim>\<open>t.Day()\<close>; \<open>day_of_civil\<close> is what \<^verbatim>\<open>time.Date\<close> computes for a valid date.
\<close>

definition year_of_era :: "int \<Rightarrow> int" where
  "year_of_era doe = (doe - doe div 1460 + doe div 36524 - doe div 146096) div 365"

definition day_of_year :: "int \<Rightarrow> int" where
  "day_of_year doe = (let yoe = year_of_era doe in doe - (365 * yoe + yoe div 4 - yoe div 100))"

definition civil_of_day :: "int \<Rightarrow> int \<times> int \<times> int" where
  "civil_of_day z =
     (let z' = z + 719468; era = z' div 146097; doe = z' mod 146097;
          yoe = year_of_era doe; doy = day_of_year doe;
          mp = (5 * doy + 2) div 153;
          d = doy - (153 * mp + 2) div 5 + 1;
          m = (if mp < 10 then mp + 3 else mp - 9);
          y = yoe + era * 400
      in (if m \<le> 2 then y + 1 else y, m, d))"

definition day_of_civil :: "int \<Rightarrow> int \<Rightarrow> int \<Rightarrow> int" where
  "day_of_civil y m d =
     (let y' = (if m \<le> 2 then y - 1 else y); era = y' div 400; yoe = y' mod 400;
          mp = (if 2 < m then m - 3 else m + 9);
          doy = (153 * mp + 2) div 5 + d - 1;
          doe = yoe * 365 + yoe div 4 - yoe div 100 + doy
      in era * 146097 + doe - 719468)"

lemma era_quotient_bounds:
  fixes doe q1 q2 q3 :: int
  assumes "0 \<le> doe" "doe < 146097" "1460 * q1 \<le> doe" "doe < 1460 * q1 + 1460"
    "36524 * q2 \<le> doe" "0 \<le> q2" "q3 = (if doe = 146096 then 1 else 0)"
  shows "0 \<le> doe - q1 + q2 - q3 \<and> doe - q1 + q2 - q3 < 146000"
  using assms by (cases "doe = 146096") simp_all

lemma div_365_bounds:
  fixes n :: int
  assumes "0 \<le> n \<and> n < 146000"
  shows "0 \<le> n div 365" and "n div 365 < 400"
  using assms by arith+

lemma year_of_era_bounds:
  assumes "0 \<le> doe" and "doe < 146097"
  shows "0 \<le> year_of_era doe" and "year_of_era doe < 400"
proof -
  have "0 \<le> doe - doe div 1460 + doe div 36524 - doe div 146096 \<and>
      doe - doe div 1460 + doe div 36524 - doe div 146096 < 146000"
  proof (rule era_quotient_bounds [OF assms])
    show "1460 * (doe div 1460) \<le> doe" by arith
    show "doe < 1460 * (doe div 1460) + 1460" by arith
    show "36524 * (doe div 36524) \<le> doe" by arith
    show "0 \<le> doe div 36524" using assms by arith
    show "doe div 146096 = (if doe = 146096 then 1 else 0)"
      using assms by (auto intro!: div_pos_pos_trivial)
  qed
  then show "0 \<le> year_of_era doe" "year_of_era doe < 400"
    unfolding year_of_era_def by (fact div_365_bounds)+
qed

text \<open>
  The day of the year is in range. The divisions that give the year of the era are monotone
  in the day of the era, so it is enough to look at the days around each first of March of
  the 400 years of an era, which the kernel evaluates.
\<close>

definition era_numerator :: "int \<Rightarrow> int" where
  "era_numerator doe = doe - doe div 1460 + doe div 36524 - doe div 146096"

definition year_start :: "int \<Rightarrow> int" where
  "year_start y = 365 * y + y div 4 - y div 100"

lemma sub_div_mono: "a \<le> b \<Longrightarrow> a - a div k \<le> b - b div k" if "1 < k" for a b k :: int
proof (induction b rule: int_ge_induct)
  case base
  show ?case by simp
next
  case (step b)
  have "(b + 1) div k \<le> (b + k) div k" using that by (intro zdiv_mono1) auto
  also have "\<dots> = b div k + 1" using that by simp
  finally show ?case using step by simp
qed

lemma era_numerator_mono: "a \<le> b \<Longrightarrow> era_numerator a \<le> era_numerator b"
proof -
  assume le: "a \<le> b"
  have q: "x div 146096 = x div 36524 div 4" for x :: int
    using zdiv_zmult2_eq [of 4 x 36524] by simp
  have "a div 36524 \<le> b div 36524" using le by (intro zdiv_mono1) auto
  from sub_div_mono [OF _ this, of 4] sub_div_mono [OF _ le, of 1460]
  show ?thesis unfolding era_numerator_def q by simp
qed

lemma era_year_table:
  "list_all (\<lambda>y. (y = 0 \<or> era_numerator (year_start y - 1) < 365 * y) \<and>
       365 * (y + 1) \<le> era_numerator (year_start y + 367)) (map int [0..<400])"
  by code_simp

lemma list_all_int_range:
  assumes "list_all P (map int [0..<n])" "0 \<le> y" "y < int n"
  shows "P y"
proof -
  have "nat y \<in> set [0..<n]" using assms(2,3) by auto
  then have "int (nat y) \<in> set (map int [0..<n])" unfolding set_map by (rule imageI)
  then have "P (int (nat y))" using assms(1) unfolding list_all_iff by blast
  then show ?thesis using assms(2) by simp
qed

lemma day_of_year_bounds:
  assumes "0 \<le> doe" and "doe < 146097"
  shows "0 \<le> day_of_year doe" and "day_of_year doe \<le> 366"
proof -
  let ?y = "year_of_era doe"
  have y: "0 \<le> ?y" "?y < 400" using year_of_era_bounds [OF assms] by auto
  from list_all_int_range [OF era_year_table y(1)] y(2)
  have lo: "?y = 0 \<or> era_numerator (year_start ?y - 1) < 365 * ?y"
    and hi: "365 * (?y + 1) \<le> era_numerator (year_start ?y + 367)"
    by simp_all
  have yd: "?y = era_numerator doe div 365" by (simp add: year_of_era_def era_numerator_def)
  have n: "365 * ?y \<le> era_numerator doe" "era_numerator doe < 365 * (?y + 1)"
    unfolding yd by arith+
  have "\<not> doe \<le> year_start ?y - 1"
  proof (cases "?y = 0")
    case True
    then show ?thesis using assms by (simp add: year_start_def)
  next
    case False
    then show ?thesis using era_numerator_mono [of doe "year_start ?y - 1"] lo n by linarith
  qed
  moreover have "\<not> year_start ?y + 367 \<le> doe"
    using era_numerator_mono [of "year_start ?y + 367" doe] hi n by linarith
  ultimately show "0 \<le> day_of_year doe" "day_of_year doe \<le> 366"
    by (auto simp: day_of_year_def Let_def year_start_def)
qed

text \<open>The two conversions agree: every day number has its own civil date.\<close>

lemma day_of_civil_era:
  fixes era yoe doy mp :: int
  assumes "0 \<le> yoe" "yoe < 400" "0 \<le> mp" "mp \<le> 11"
    and m: "m = (if mp < 10 then mp + 3 else mp - 9)"
    and y: "y = yoe + era * 400"
  shows "day_of_civil (if m \<le> 2 then y + 1 else y) m (doy - (153 * mp + 2) div 5 + 1) =
    era * 146097 + (yoe * 365 + yoe div 4 - yoe div 100 + doy) - 719468"
proof -
  have e: "(yoe + era * 400) div 400 = era" "(yoe + era * 400) mod 400 = yoe"
    using assms(1,2) by simp_all
  show ?thesis
    by (cases "mp < 10") (use assms(3,4) e in \<open>simp_all add: m y day_of_civil_def Let_def\<close>)
qed

lemma month_start_le: "mp = (5 * doy + 2) div 153 \<Longrightarrow> (153 * mp + 2) div 5 \<le> (doy :: int)"
  by arith

lemma month_index_bounds:
  assumes "mp = (5 * doy + 2) div 153" "0 \<le> doy" "doy \<le> (366 :: int)"
  shows "0 \<le> mp" "mp \<le> 11"
  using assms by arith+

lemma day_of_civil_of_day:
  "(case civil_of_day z of (y, m, d) \<Rightarrow> day_of_civil y m d) = z"
proof -
  have doe: "0 \<le> (z + 719468) mod 146097" "(z + 719468) mod 146097 < 146097" by simp_all
  note yoe = year_of_era_bounds [OF doe]
    and mp = month_index_bounds [OF refl day_of_year_bounds [OF doe]]
  have eq: "year_of_era e * 365 + year_of_era e div 4 - year_of_era e div 100 + day_of_year e = e" for e
    by (simp add: day_of_year_def Let_def)
  show ?thesis
    unfolding civil_of_day_def Let_def prod.case
    by (subst day_of_civil_era [OF yoe mp refl refl]) (simp only: eq, simp add: div_mult_mod_eq)
qed

lemma civil_of_day_dom:
  assumes "civil_of_day z = (y, m, d)"
  shows "1 \<le> d"
proof -
  let ?doy = "day_of_year ((z + 719468) mod 146097)"
  from assms have "d = ?doy - (153 * ((5 * ?doy + 2) div 153) + 2) div 5 + 1"
    by (simp only: civil_of_day_def Let_def prod.inject)
  with month_start_le [OF refl, of ?doy] show ?thesis by linarith
qed

text \<open>
  And back: a date whose day lies within its month, counted from March so that only the
  29th of February is left out, is the date of its own day number.
\<close>

lemma era_year_table_lo:
  "list_all (\<lambda>y. 365 * y \<le> era_numerator (year_start y) \<and>
       era_numerator (year_start y + 364) < 365 * (y + 1)) (map int [0..<400])"
  by code_simp

lemma div_unique_between:
  fixes y n k :: int
  assumes "k * y \<le> n" "n < k * (y + 1)"
  shows "n div k = y"
  by (rule int_div_pos_eq [where r = "n - k * y"]) (use assms in \<open>auto simp: algebra_simps\<close>)

lemma year_of_era_start:
  assumes "0 \<le> y" "y < 400" "0 \<le> doy" "doy < 365"
  shows "year_of_era (year_start y + doy) = y"
proof -
  from list_all_int_range [OF era_year_table_lo assms(1)] assms(2)
  have lo: "365 * y \<le> era_numerator (year_start y)"
    and hi: "era_numerator (year_start y + 364) < 365 * (y + 1)"
    by simp_all
  have "era_numerator (year_start y) \<le> era_numerator (year_start y + doy)"
    "era_numerator (year_start y + doy) \<le> era_numerator (year_start y + 364)"
    using assms by (auto intro!: era_numerator_mono)
  with lo hi have "era_numerator (year_start y + doy) div 365 = y"
    by (intro div_unique_between) linarith+
  then show ?thesis by (simp add: year_of_era_def era_numerator_def)
qed

lemma year_start_bounds:
  assumes "0 \<le> y" "y < 400"
  shows "0 \<le> year_start y" "year_start y + 365 \<le> 146097"
proof -
  have "list_all (\<lambda>y. 0 \<le> year_start y \<and> year_start y + 365 \<le> 146097) (map int [0..<400])"
    by code_simp
  from list_all_int_range [OF this assms(1)] assms(2)
  show "0 \<le> year_start y" "year_start y + 365 \<le> 146097" by simp_all
qed

lemma month_of_doy_aux:
  fixes q1 q2 mp d :: int
  assumes "153 * mp + 2 < 5 * q1 + 5" "5 * q2 \<le> 153 * (mp + 1) + 2" "1 \<le> d" "q1 + d - 1 < q2"
  shows "(5 * (q1 + d - 1) + 2) div 153 = mp"
  by (rule div_unique_between) (use assms in simp_all)

lemma month_of_doy:
  assumes "1 \<le> d" "(153 * mp + 2) div 5 + d - 1 < (153 * (mp + 1) + 2) div (5::int)"
  shows "(5 * ((153 * mp + 2) div 5 + d - 1) + 2) div 153 = mp"
  by (rule month_of_doy_aux [OF _ _ assms]) arith+

definition march_month :: "int \<Rightarrow> int" where
  "march_month m = (if 2 < m then m - 3 else m + 9)"

definition valid_civil :: "int \<Rightarrow> int \<Rightarrow> bool" where
  "valid_civil m d \<longleftrightarrow> 1 \<le> m \<and> m \<le> 12 \<and> 1 \<le> d \<and>
     (153 * march_month m + 2) div 5 + d - 1 < (153 * (march_month m + 1) + 2) div 5 \<and>
     (153 * march_month m + 2) div 5 + d - 1 < 365"

lemma civil_of_day_of_civil:
  assumes v: "valid_civil m d"
  shows "civil_of_day (day_of_civil y m d) = (y, m, d)"
proof -
  let ?mp = "march_month m" and ?y = "if m \<le> 2 then y - 1 else y"
  let ?doy = "(153 * ?mp + 2) div 5 + d - 1"
  let ?yoe = "?y mod 400" and ?era = "?y div 400"
  let ?doe = "year_start ?yoe + ?doy"
  have mp: "0 \<le> ?mp" "?mp \<le> 11" using v by (auto simp: valid_civil_def march_month_def)
  have d: "1 \<le> d" using v by (simp add: valid_civil_def)
  have "0 \<le> (153 * ?mp + 2) div 5" using mp by simp
  then have doy: "0 \<le> ?doy" "?doy < 365" using v d by (auto simp: valid_civil_def)
  have yoe: "0 \<le> ?yoe" "?yoe < 400" by simp_all
  note yb = year_start_bounds [OF yoe]
  have doe: "0 \<le> ?doe" "?doe < 146097" using yb doy by linarith+
  have z: "day_of_civil y m d + 719468 = ?era * 146097 + ?doe"
    by (simp add: day_of_civil_def Let_def year_start_def march_month_def)
  have era: "(day_of_civil y m d + 719468) div 146097 = ?era"
    "(day_of_civil y m d + 719468) mod 146097 = ?doe"
    unfolding z using doe by simp_all
  have yr: "year_of_era ?doe = ?yoe" by (rule year_of_era_start [OF yoe doy])
  have dy: "day_of_year ?doe = ?doy"
    unfolding day_of_year_def Let_def yr by (simp add: year_start_def)
  have mm: "(5 * ?doy + 2) div 153 = ?mp"
    using v by (intro month_of_doy) (auto simp: valid_civil_def)
  have m: "(if ?mp < 10 then ?mp + 3 else ?mp - 9) = m"
    using v by (auto simp: march_month_def valid_civil_def)
  have "?yoe + ?era * 400 = ?y" by simp
  then have "(if m \<le> 2 then ?yoe + ?era * 400 + 1 else ?yoe + ?era * 400) = y" by auto
  then show ?thesis
    unfolding civil_of_day_def Let_def era yr dy mm m by simp
qed

lemma valid_civil_first: "1 \<le> m \<Longrightarrow> m \<le> 12 \<Longrightarrow> valid_civil m 1"
  by (auto simp: valid_civil_def march_month_def)

lemma civil_of_day_month:
  assumes "civil_of_day z = (y, m, d)"
  shows "1 \<le> m" "m \<le> 12"
proof -
  have doe: "0 \<le> (z + 719468) mod 146097" "(z + 719468) mod 146097 < 146097" by simp_all
  note b = month_index_bounds [OF refl day_of_year_bounds [OF doe]]
  from assms have "m = (let mp = (5 * day_of_year ((z + 719468) mod 146097) + 2) div 153
      in if mp < 10 then mp + 3 else mp - 9)"
    by (simp only: civil_of_day_def Let_def prod.inject)
  with b show "1 \<le> m" "m \<le> 12" by (auto simp: Let_def split: if_splits)
qed

text \<open>Years in one formula, without eras; the first of January is not after any day of its year.\<close>

lemma day_of_civil_flat:
  "day_of_civil y m d =
     (let y' = (if m \<le> 2 then y - 1 else y)
      in 365 * y' + y' div 4 - y' div 100 + y' div 400 + (153 * march_month m + 2) div 5 + d - 1 - 719468)"
proof -
  have *: "w div 400 * 146097 + (w mod 400 * 365 + w mod 400 div 4 - w mod 400 div 100) =
      365 * w + w div 4 - w div 100 + w div 400" for w :: int
  proof -
    have w: "w = 400 * (w div 400) + w mod 400" by simp
    have "(400 * q + r) div 4 = 100 * q + r div 4" "(400 * q + r) div 100 = 4 * q + r div 100"
      for q r :: int by arith+
    from this [of "w div 400" "w mod 400"] w
    have "w div 4 = 100 * (w div 400) + w mod 400 div 4" "w div 100 = 4 * (w div 400) + w mod 400 div 100"
      by simp_all
    then show ?thesis using w by linarith
  qed
  show ?thesis
    using * [of "if m \<le> 2 then y - 1 else y"]
    by (simp only: day_of_civil_def march_month_def Let_def)
qed

lemma leap_days_mono: "(y - 1) div 4 - (y - 1) div 100 + (y - 1) div 400 \<le> y div 4 - y div 100 + y div (400 :: int)"
proof -
  have q: "x div 100 = x div 4 div 25" for x :: int using zdiv_zmult2_eq [of 25 x 4] by simp
  have "(y - 1) div 4 \<le> y div 4" by (intro zdiv_mono1) auto
  from sub_div_mono [OF _ this, of 25] have "(y - 1) div 4 - (y - 1) div 100 \<le> y div 4 - y div 100"
    unfolding q by simp
  moreover have "(y - 1) div 400 \<le> y div (400::int)" by (intro zdiv_mono1) auto
  ultimately show ?thesis by linarith
qed

lemma january_first_aux:
  fixes a b c a' b' c' q d y :: int
  assumes "a' - b' + c' \<le> a - b + c" "1 \<le> d" "0 \<le> q"
  shows "365 * (y - 1) + a' - b' + c' + 306 + 1 - 1 - 719468 \<le> 365 * y + a - b + c + q + d - 1 - 719468"
  using assms by (simp add: right_diff_distrib)

lemma january_first_le:
  assumes "1 \<le> m" "m \<le> 12" "1 \<le> d"
  shows "day_of_civil y 1 1 \<le> day_of_civil y m d"
proof -
  have j: "(153 * march_month 1 + 2) div 5 = 306" by (simp add: march_month_def)
  have l: "day_of_civil y 1 1 = 365 * (y - 1) + (y - 1) div 4 - (y - 1) div 100 + (y - 1) div 400 + 306 + 1 - 1 - 719468"
    unfolding day_of_civil_flat Let_def j by (simp only: if_True one_le_numeral)
  show ?thesis
  proof (cases "m \<le> 2")
    case True
    have "march_month 1 \<le> march_month m" using True assms by (simp add: march_month_def)
    then have "306 \<le> (153 * march_month m + 2) div 5" unfolding j [symmetric] by (intro zdiv_mono1) auto
    then have "306 + 1 \<le> (153 * march_month m + 2) div 5 + d" using assms(3) by (rule add_mono)
    then show ?thesis unfolding l day_of_civil_flat [of y m d] Let_def
      by (simp add: True)
  next
    case False
    have "0 \<le> 153 * march_month m + 2" using assms by (auto simp: march_month_def)
    then have "0 \<le> (153 * march_month m + 2) div 5" by simp
    from january_first_aux [OF leap_days_mono [of y] assms(3) this]
    show ?thesis unfolding l day_of_civil_flat [of y m d] Let_def
      by (simp only: False if_False)
  qed
qed

lemma day_of_civil_first: "day_of_civil y m d = day_of_civil y m 1 + (d - 1)"
  by (simp add: day_of_civil_def Let_def)

definition day_number :: "instant \<Rightarrow> int" where
  "day_number t = t div day"

definition date_utc :: "int \<Rightarrow> int \<Rightarrow> int \<Rightarrow> instant" where
  "date_utc y m d = day_of_civil y m d * day"

text \<open>\<^verbatim>\<open>t.Weekday()\<close>: 1970-01-01 was a Thursday (Sunday is 0).\<close>

definition weekday :: "instant \<Rightarrow> int" where
  "weekday t = (day_number t + 4) mod 7"

end
