(* ===== verification/GovTables.thy ===== *)
theory GovTables
  imports GoTime
begin

text \<open>
  The rows of the governance tables (framework/configstore/tables: budget.go, ratelimit.go,
  virtualkey.go, modelconfig.go, team.go, customer.go, provider.go, utils.go) and the allow
  and deny lists of core/schemas/account.go, with their validation hooks and the reset
  duration arithmetic. A field of a Go struct is a record field with the prefix of its
  table; a pointer is an \<open>option\<close>; fields that no modelled function reads (audit stamps,
  JSON blobs, encryption columns) are left out.
\<close>

subsection \<open>Allow and deny lists\<close>

type_synonym WhiteList = "string list"
type_synonym BlackList = "string list"

definition list_contains :: "string list \<Rightarrow> string \<Rightarrow> bool" where
  "list_contains wl value \<longleftrightarrow> list_ex (\<lambda>s. equal_fold s value) wl"

definition wl_IsUnrestricted :: "WhiteList \<Rightarrow> bool" where
  "wl_IsUnrestricted wl \<longleftrightarrow> wl = [''*'']"

definition wl_IsAllowed :: "WhiteList \<Rightarrow> string \<Rightarrow> bool" where
  "wl_IsAllowed wl value \<longleftrightarrow> wl_IsUnrestricted wl \<or> list_contains wl value"

definition bl_IsBlockAll :: "BlackList \<Rightarrow> bool" where
  "bl_IsBlockAll bl \<longleftrightarrow> bl = [''*'']"

definition bl_IsBlocked :: "BlackList \<Rightarrow> string \<Rightarrow> bool" where
  "bl_IsBlocked bl value \<longleftrightarrow> bl_IsBlockAll bl \<or> list_contains bl value"

fun no_fold_duplicates :: "string list \<Rightarrow> string list \<Rightarrow> bool" where
  "no_fold_duplicates seen [] = True"
| "no_fold_duplicates seen (v # vs) =
     (if str_lower v \<in> set seen then False else no_fold_duplicates (str_lower v # seen) vs)"

text \<open>\<^verbatim>\<open>Validate\<close> of both list types: \<open>True\<close> when it returns no error.\<close>

definition wl_IsEmpty :: "WhiteList \<Rightarrow> bool" where
  "wl_IsEmpty wl \<longleftrightarrow> wl = []"

definition wl_Validate :: "WhiteList \<Rightarrow> bool" where
  "wl_Validate wl \<longleftrightarrow> \<not> (list_contains wl ''*'' \<and> 1 < length wl) \<and> no_fold_duplicates [] wl"

definition bl_Validate :: "BlackList \<Rightarrow> bool" where
  "bl_Validate bl \<longleftrightarrow> \<not> (list_contains bl ''*'' \<and> 1 < length bl) \<and> no_fold_duplicates [] bl"

lemma list_contains_iff: "list_contains l v \<longleftrightarrow> (\<exists>s\<in>set l. equal_fold s v)"
  by (auto simp: list_contains_def list_ex_iff)

lemma no_fold_duplicates_iff:
  "no_fold_duplicates seen vs \<longleftrightarrow>
     distinct (map str_lower vs) \<and> set (map str_lower vs) \<inter> set seen = {}"
  by (induction seen vs rule: no_fold_duplicates.induct) auto

subsection \<open>Rows\<close>

record budget =
  bg_ID :: string
  bg_MaxLimit :: float64
  bg_ResetDuration :: string
  bg_LastReset :: instant
  bg_CurrentUsage :: float64
  bg_TeamID :: "string option"
  bg_VirtualKeyID :: "string option"
  bg_ProviderConfigID :: "nat option"
  bg_ModelConfigID :: "string option"
  bg_CustomerID :: "string option"
  bg_UserID :: "string option"
  bg_IsCalendarAligned :: bool

record rate_limit =
  rl_ID :: string
  rl_TokenMaxLimit :: "int option"
  rl_TokenResetDuration :: "string option"
  rl_TokenCurrentUsage :: int
  rl_TokenLastReset :: instant
  rl_RequestMaxLimit :: "int option"
  rl_RequestResetDuration :: "string option"
  rl_RequestCurrentUsage :: int
  rl_RequestLastReset :: instant
  rl_IsCalendarAligned :: bool

record customer =
  cu_ID :: string
  cu_Name :: string
  cu_RateLimitID :: "string option"
  cu_Budgets :: "budget list"
  cu_RateLimit :: "rate_limit option"
  cu_CalendarAligned :: bool

record team =
  tm_ID :: string
  tm_Name :: string
  tm_CustomerID :: "string option"
  tm_RateLimitID :: "string option"
  tm_Customer :: "customer option"
  tm_Budgets :: "budget list"
  tm_RateLimit :: "rate_limit option"
  tm_CalendarAligned :: bool

record provider_config =
  pc_ID :: nat
  pc_Provider :: string
  pc_AllowedModels :: WhiteList
  pc_BlacklistedModels :: BlackList
  pc_AllowAllKeys :: bool
  pc_RateLimitID :: "string option"
  pc_RateLimit :: "rate_limit option"
  pc_Budgets :: "budget list"
  pc_Keys :: "string list"
  pc_Weight :: "float64 option"

text \<open>\<open>mcp_ClientID\<close> and \<open>mcp_ClientName\<close> are the identifier and the name of the
  preloaded \<^verbatim>\<open>MCPClient\<close> row.\<close>

record mcp_config =
  mcp_ClientID :: string
  mcp_ClientName :: string
  mcp_ToolsToExecute :: WhiteList

record virtual_key =
  vk_ID :: string
  vk_Name :: string
  vk_Value :: string
  vk_IsActive :: "bool option"
  vk_ExpiresAt :: "instant option"
  vk_ProviderConfigs :: "provider_config list"
  vk_MCPConfigs :: "mcp_config list"
  vk_TeamID :: "string option"
  vk_CustomerID :: "string option"
  vk_RateLimitID :: "string option"
  vk_CalendarAligned :: bool
  vk_Team :: "team option"
  vk_Customer :: "customer option"
  vk_RateLimit :: "rate_limit option"
  vk_Budgets :: "budget list"

record model_config =
  mc_ID :: string
  mc_ModelName :: string
  mc_Provider :: "string option"
  mc_Scope :: string
  mc_ScopeID :: "string option"
  mc_CalendarAligned :: bool
  mc_BudgetID :: "string option"
  mc_RateLimitID :: "string option"
  mc_Budgets :: "budget list"
  mc_RateLimit :: "rate_limit option"

record provider_row =
  pr_Name :: string
  pr_BudgetID :: "string option"
  pr_RateLimitID :: "string option"
  pr_Budget :: "budget option"
  pr_RateLimit :: "rate_limit option"

record user_governance =
  ug_BudgetID :: "string option"
  ug_RateLimitID :: "string option"

text \<open>Routing rules with their weighted targets, and the business units of a team.\<close>

record routing_target =
  rt_Provider :: "string option"
  rt_Model :: "string option"
  rt_KeyID :: "string option"
  rt_Weight :: float64

record routing_rule =
  rr_ID :: string
  rr_Name :: string
  rr_Enabled :: "bool option"
  rr_CelExpression :: string
  rr_Targets :: "routing_target list"
  rr_ParsedFallbacks :: "string list"
  rr_Scope :: string
  rr_ScopeID :: "string option"
  rr_ChainRule :: bool
  rr_Priority :: int
  rr_CreatedAt :: instant

record bu_stamp =
  bu_ID :: string
  bu_Name :: string

definition EnabledValue :: "routing_rule option \<Rightarrow> bool" where
  "EnabledValue r = (case r of None \<Rightarrow> False | Some x \<Rightarrow> (case rr_Enabled x of None \<Rightarrow> True | Some b \<Rightarrow> b))"

definition ModelConfigScopeGlobal :: string where "ModelConfigScopeGlobal = ''global''"
definition ModelConfigScopeVirtualKey :: string where "ModelConfigScopeVirtualKey = ''virtual_key''"
definition ModelConfigScopeUser :: string where "ModelConfigScopeUser = ''user''"
definition ModelConfigAllModels :: string where "ModelConfigAllModels = ''*''"

lemmas scope_consts = ModelConfigScopeGlobal_def ModelConfigScopeVirtualKey_def
  ModelConfigScopeUser_def ModelConfigAllModels_def

subsection \<open>Reset durations\<close>

definition IsCalendarAlignableDuration :: "string \<Rightarrow> bool" where
  "IsCalendarAlignableDuration d =
     (if d = [] then False else last d \<in> {CHR ''d'', CHR ''w'', CHR ''M'', CHR ''Y''})"

definition ParseDuration :: "string \<Rightarrow> duration option" where
  "ParseDuration d =
     (if d = [] then None
      else if last d = CHR ''d'' then
        map_option (\<lambda>h. wrap64 (h * 24)) (ParseDuration_std (butlast d @ ''h''))
      else if last d = CHR ''w'' then
        map_option (\<lambda>h. wrap64 (wrap64 (h * 24) * 7)) (ParseDuration_std (butlast d @ ''h''))
      else if last d = CHR ''M'' then
        map_option (\<lambda>h. wrap64 (wrap64 (h * 24) * 30)) (ParseDuration_std (butlast d @ ''h''))
      else if last d = CHR ''Y'' then
        map_option (\<lambda>h. wrap64 (wrap64 (h * 24) * 365)) (ParseDuration_std (butlast d @ ''h''))
      else ParseDuration_std d)"

definition GetCalendarPeriodStart :: "string \<Rightarrow> instant \<Rightarrow> instant" where
  "GetCalendarPeriodStart d t =
     (if d = [] then t
      else case civil_of_day (day_number t) of (y, m, d0) \<Rightarrow>
        if last d = CHR ''d'' then date_utc y m d0
        else if last d = CHR ''w'' then
          (let daysFromMonday = (weekday t + 6) mod 7;
               monday = t - daysFromMonday * day
           in case civil_of_day (day_number monday) of (y', m', d') \<Rightarrow> date_utc y' m' d')
        else if last d = CHR ''M'' then date_utc y m 1
        else if last d = CHR ''Y'' then date_utc y 1 1
        else t)"

subsection \<open>Hooks and predicates of the rows\<close>

definition count_some :: "bool list \<Rightarrow> nat" where
  "count_some bs = length (filter id bs)"

datatype save_error = TooManyOwners | BadResetDuration string | NonPositiveDuration string
  | NegativeMaxLimit | MissingResetDuration | NonPositiveLimit int
  | TeamAndCustomer | BadScope string | MissingScopeID string | EmptyField string

text \<open>\<^verbatim>\<open>TableBudget.BeforeSave\<close>: the error it returns, if any.\<close>

definition budget_BeforeSave :: "budget \<Rightarrow> save_error option" where
  "budget_BeforeSave b =
     (let owners = count_some [bg_TeamID b \<noteq> None, bg_VirtualKeyID b \<noteq> None,
          bg_ProviderConfigID b \<noteq> None, bg_ModelConfigID b \<noteq> None,
          bg_CustomerID b \<noteq> None, bg_UserID b \<noteq> None]
      in if 1 < owners then Some TooManyOwners
         else case ParseDuration (bg_ResetDuration b) of
             None \<Rightarrow> Some (BadResetDuration (bg_ResetDuration b))
           | Some d \<Rightarrow>
               if d \<le> 0 then Some (NonPositiveDuration (bg_ResetDuration b))
               else if bg_MaxLimit b < 0 then Some NegativeMaxLimit
               else None)"

definition check_positive_duration :: "string option \<Rightarrow> save_error option" where
  "check_positive_duration dur =
     (case dur of
        None \<Rightarrow> None
      | Some s \<Rightarrow>
          (case ParseDuration s of
             None \<Rightarrow> Some (BadResetDuration s)
           | Some d \<Rightarrow> if d \<le> 0 then Some (NonPositiveDuration s) else None))"

definition check_positive_limit :: "int option \<Rightarrow> save_error option" where
  "check_positive_limit l =
     (case l of None \<Rightarrow> None | Some n \<Rightarrow> if n \<le> 0 then Some (NonPositiveLimit n) else None)"

definition rate_limit_BeforeSave :: "rate_limit \<Rightarrow> save_error option" where
  "rate_limit_BeforeSave rl =
     first_some id
       [check_positive_duration (rl_TokenResetDuration rl),
        check_positive_duration (rl_RequestResetDuration rl),
        if rl_TokenMaxLimit rl \<noteq> None \<and> rl_TokenResetDuration rl = None
          then Some MissingResetDuration else None,
        if rl_RequestMaxLimit rl \<noteq> None \<and> rl_RequestResetDuration rl = None
          then Some MissingResetDuration else None,
        check_positive_limit (rl_TokenMaxLimit rl),
        check_positive_limit (rl_RequestMaxLimit rl)]"

definition IsActiveValue :: "virtual_key \<Rightarrow> bool" where
  "IsActiveValue vk = (case vk_IsActive vk of None \<Rightarrow> True | Some b \<Rightarrow> b)"

definition IsExpiredAt :: "virtual_key \<Rightarrow> instant \<Rightarrow> bool" where
  "IsExpiredAt vk now = (case vk_ExpiresAt vk of None \<Rightarrow> False | Some e \<Rightarrow> \<not> now < e)"

text \<open>\<^verbatim>\<open>AfterFind\<close> stamps the owner's alignment on the owned budgets and rate limits.\<close>

definition stamp_budget :: "bool \<Rightarrow> budget \<Rightarrow> budget" where
  "stamp_budget ca b = b\<lparr>bg_IsCalendarAligned := ca\<rparr>"

definition stamp_rate_limit :: "bool \<Rightarrow> rate_limit \<Rightarrow> rate_limit" where
  "stamp_rate_limit ca r = r\<lparr>rl_IsCalendarAligned := ca\<rparr>"

definition virtual_key_AfterFind :: "virtual_key \<Rightarrow> virtual_key" where
  "virtual_key_AfterFind vk =
     (let ca = vk_CalendarAligned vk in
      vk\<lparr>vk_Budgets := map (stamp_budget ca) (vk_Budgets vk),
         vk_RateLimit := map_option (stamp_rate_limit ca) (vk_RateLimit vk),
         vk_ProviderConfigs := map (\<lambda>pc. pc\<lparr>pc_Budgets := map (stamp_budget ca) (pc_Budgets pc),
             pc_RateLimit := map_option (stamp_rate_limit ca) (pc_RateLimit pc)\<rparr>) (vk_ProviderConfigs vk)\<rparr>)"

definition team_AfterFind :: "team \<Rightarrow> team" where
  "team_AfterFind t =
     t\<lparr>tm_Budgets := map (stamp_budget (tm_CalendarAligned t)) (tm_Budgets t),
       tm_RateLimit := map_option (stamp_rate_limit (tm_CalendarAligned t)) (tm_RateLimit t)\<rparr>"

definition customer_AfterFind :: "customer \<Rightarrow> customer" where
  "customer_AfterFind c =
     c\<lparr>cu_Budgets := map (stamp_budget (cu_CalendarAligned c)) (cu_Budgets c),
       cu_RateLimit := map_option (stamp_rate_limit (cu_CalendarAligned c)) (cu_RateLimit c)\<rparr>"

definition model_config_AfterFind :: "model_config \<Rightarrow> model_config" where
  "model_config_AfterFind mc =
     mc\<lparr>mc_Budgets := map (stamp_budget (mc_CalendarAligned mc)) (mc_Budgets mc)\<rparr>"

text \<open>\<^verbatim>\<open>TableVirtualKeyProviderConfig.BeforeSave\<close>: \<open>True\<close> when it returns no error.\<close>

definition provider_config_BeforeSave :: "provider_config \<Rightarrow> bool" where
  "provider_config_BeforeSave pc \<longleftrightarrow> wl_Validate (pc_AllowedModels pc) \<and> bl_Validate (pc_BlacklistedModels pc)"

text \<open>\<^verbatim>\<open>TableModelConfig.BeforeSave\<close> under a registry of valid scopes: the row with its
  defaults filled in, or the error.\<close>

definition model_config_BeforeSave ::
  "(string \<Rightarrow> bool) \<Rightarrow> model_config \<Rightarrow> save_error + model_config" where
  "model_config_BeforeSave valid mc0 =
     (let mc = (if str_trim (mc_Scope mc0) = [] then mc0\<lparr>mc_Scope := ModelConfigScopeGlobal\<rparr> else mc0);
          blank = (\<lambda>x. case x of None \<Rightarrow> False | Some s \<Rightarrow> str_trim s = [])
      in if \<not> valid (mc_Scope mc) then Inl (BadScope (mc_Scope mc))
         else if mc_Scope mc \<noteq> ModelConfigScopeGlobal \<and>
              (mc_ScopeID mc = None \<or> blank (mc_ScopeID mc)) then Inl (MissingScopeID (mc_Scope mc))
         else let mc' = (if mc_Scope mc = ModelConfigScopeGlobal then mc\<lparr>mc_ScopeID := None\<rparr> else mc) in
           if str_trim (mc_ModelName mc') = [] then Inl (EmptyField ''model_name'')
           else if blank (mc_BudgetID mc') then Inl (EmptyField ''budget_id'')
           else if blank (mc_RateLimitID mc') then Inl (EmptyField ''rate_limit_id'')
           else if blank (mc_Provider mc') then Inl (EmptyField ''provider'')
           else Inr mc')"

subsection \<open>Laws of the lists\<close>

lemma wl_Validate_iff:
  "wl_Validate wl \<longleftrightarrow> distinct (map str_lower wl) \<and> (''*'' \<in> set (map str_lower wl) \<longrightarrow> length wl = 1)"
proof -
  have star: "str_lower ''*'' = ''*''" by code_simp
  have "list_contains wl ''*'' \<longleftrightarrow> ''*'' \<in> set (map str_lower wl)"
    by (force simp: list_contains_iff equal_fold_def star)
  then show ?thesis
    by (cases wl) (auto simp: wl_Validate_def no_fold_duplicates_iff)
qed

lemma bl_Validate_eq: "bl_Validate bl = wl_Validate bl"
  by (simp add: wl_Validate_def bl_Validate_def)

lemma wl_IsAllowed_fold: "equal_fold v w \<Longrightarrow> wl_IsAllowed wl v = wl_IsAllowed wl w"
  by (simp add: wl_IsAllowed_def list_contains_def equal_fold_def)

lemma wl_IsAllowed_Nil [simp]: "\<not> wl_IsAllowed [] v"
  by (simp add: wl_IsAllowed_def wl_IsUnrestricted_def list_contains_def)

lemma bl_IsBlocked_Nil [simp]: "\<not> bl_IsBlocked [] v"
  by (simp add: bl_IsBlocked_def bl_IsBlockAll_def list_contains_def)

subsection \<open>Laws of the calendar periods\<close>

lemma day_pos [simp]: "0 < day"
  by (simp add: time_units)

lemma day_number_date_utc [simp]: "day_number (date_utc y m d) = day_of_civil y m d"
  by (simp add: day_number_def date_utc_def time_units)

lemma date_utc_day_number:
  "civil_of_day (day_number t) = (y, m, d) \<Longrightarrow> date_utc y m d = day_number t * day"
  using day_of_civil_of_day [of "day_number t"] by (simp add: date_utc_def)

lemma day_number_le: "day_number t * day \<le> t"
  by (simp add: day_number_def time_units)

lemma days_le: "n \<le> day_number t \<Longrightarrow> n * day \<le> t"
  using day_number_le [of t] mult_right_mono [of n "day_number t" day]
  by (meson day_pos less_imp_le order_trans)

lemma date_utc_mono: "day_of_civil y m d \<le> day_number t \<Longrightarrow> date_utc y m d \<le> t"
  by (simp add: date_utc_def days_le)

lemma day_number_minus: "day_number (t - k * day) = day_number t - k"
  by (simp add: day_number_def diff_divide_distrib time_units)

definition days_since_monday :: "instant \<Rightarrow> int" where
  "days_since_monday t = (weekday t + 6) mod 7"

lemma period_start_week:
  "d \<noteq> [] \<Longrightarrow> last d = CHR ''w'' \<Longrightarrow>
     GetCalendarPeriodStart d t = (day_number t - days_since_monday t) * day"
proof -
  assume d: "d \<noteq> []" "last d = CHR ''w''"
  obtain y m d0 where c: "civil_of_day (day_number (t - days_since_monday t * day)) = (y, m, d0)"
    by (cases "civil_of_day (day_number (t - days_since_monday t * day))") auto
  from date_utc_day_number [OF c] show ?thesis
    using d c by (simp add: GetCalendarPeriodStart_def days_since_monday_def [symmetric] day_number_minus
        split: prod.splits)
qed

lemma period_start_day:
  "d \<noteq> [] \<Longrightarrow> last d = CHR ''d'' \<Longrightarrow> GetCalendarPeriodStart d t = day_number t * day"
  by (auto simp: GetCalendarPeriodStart_def date_utc_day_number split: prod.splits)

lemma period_start_other:
  "\<not> IsCalendarAlignableDuration d \<Longrightarrow> GetCalendarPeriodStart d t = t"
  by (auto simp: GetCalendarPeriodStart_def IsCalendarAlignableDuration_def split: prod.splits if_splits)

lemma alignable_cases:
  assumes "IsCalendarAlignableDuration d"
  obtains "d \<noteq> []" "last d = CHR ''d''" | "d \<noteq> []" "last d = CHR ''w''"
    | "d \<noteq> []" "last d = CHR ''M''" | "d \<noteq> []" "last d = CHR ''Y''"
  using assms by (auto simp: IsCalendarAlignableDuration_def split: if_splits)

lemma day_number_mult [simp]: "day_number (n * day) = n"
  by (simp add: day_number_def time_units)

lemma weekday_monday:
  "days_since_monday ((day_number t - days_since_monday t) * day) = 0"
proof -
  have "((n - ((n + 4) mod 7 + 6) mod 7 + 4) mod 7 + 6) mod 7 = (0::int)" for n by presburger
  then show ?thesis
    by (simp add: days_since_monday_def weekday_def)
qed

lemma days_since_monday_bounds: "0 \<le> days_since_monday t" "days_since_monday t < 7"
  by (simp_all add: days_since_monday_def)

lemma month_first_le:
  assumes "civil_of_day (day_number t) = (y, m, d0)"
  shows "day_of_civil y m 1 \<le> day_number t" "day_of_civil y 1 1 \<le> day_number t"
proof -
  have z: "day_of_civil y m d0 = day_number t"
    using day_of_civil_of_day [of "day_number t"] assms by simp
  note b = civil_of_day_dom [OF assms] civil_of_day_month [OF assms]
  show "day_of_civil y m 1 \<le> day_number t"
    using z b(1) by (simp add: day_of_civil_first [of y m d0])
  show "day_of_civil y 1 1 \<le> day_number t"
    using january_first_le [OF b(2,3,1), of y] z by simp
qed

lemma period_start_le: "GetCalendarPeriodStart d t \<le> t"
proof (cases "IsCalendarAlignableDuration d")
  case False
  then show ?thesis by (simp add: period_start_other)
next
  case True
  obtain y m d0 where c: "civil_of_day (day_number t) = (y, m, d0)"
    by (cases "civil_of_day (day_number t)") auto
  note le = month_first_le [OF c]
  from True show ?thesis
  proof (cases rule: alignable_cases)
    case 1
    then show ?thesis by (simp add: period_start_day day_number_le)
  next
    case 2
    with days_since_monday_bounds(1) show ?thesis by (simp add: period_start_week days_le)
  next
    case 3
    with c le(1) show ?thesis by (simp add: GetCalendarPeriodStart_def date_utc_mono)
  next
    case 4
    with c le(2) show ?thesis by (simp add: GetCalendarPeriodStart_def date_utc_mono)
  qed
qed

lemma period_start_idem:
  "GetCalendarPeriodStart d (GetCalendarPeriodStart d t) = GetCalendarPeriodStart d t"
proof (cases "IsCalendarAlignableDuration d")
  case False
  then show ?thesis by (simp add: period_start_other)
next
  case True
  obtain y m d0 where c: "civil_of_day (day_number t) = (y, m, d0)"
    by (cases "civil_of_day (day_number t)") auto
  note m = civil_of_day_month [OF c]
  from True show ?thesis
  proof (cases rule: alignable_cases)
    case 1
    then show ?thesis by (simp add: period_start_day)
  next
    case 2
    then show ?thesis by (simp add: period_start_week weekday_monday)
  next
    case 3
    with c civil_of_day_of_civil [OF valid_civil_first [OF m], of y]
    show ?thesis by (simp add: GetCalendarPeriodStart_def)
  next
    case 4
    with c civil_of_day_of_civil [OF valid_civil_first [of 1], of y]
    show ?thesis by (simp add: GetCalendarPeriodStart_def)
  qed
qed

subsection \<open>Validation\<close>

lemma budget_BeforeSave_accepts:
  "budget_BeforeSave b = None \<longleftrightarrow>
     count_some [bg_TeamID b \<noteq> None, bg_VirtualKeyID b \<noteq> None, bg_ProviderConfigID b \<noteq> None,
       bg_ModelConfigID b \<noteq> None, bg_CustomerID b \<noteq> None, bg_UserID b \<noteq> None] \<le> 1 \<and>
     (\<exists>d. ParseDuration (bg_ResetDuration b) = Some d \<and> 0 < d) \<and> 0 \<le> bg_MaxLimit b"
  by (auto simp: budget_BeforeSave_def Let_def split: option.splits)

lemma check_positive_duration_None:
  "check_positive_duration dur = None \<longleftrightarrow>
     (\<forall>s. dur = Some s \<longrightarrow> (\<exists>d. ParseDuration s = Some d \<and> 0 < d))"
  by (auto simp: check_positive_duration_def split: option.splits)

lemma check_positive_limit_None: "check_positive_limit l = None \<longleftrightarrow> (\<forall>n. l = Some n \<longrightarrow> 0 < n)"
  by (auto simp: check_positive_limit_def split: option.splits)

lemma rate_limit_BeforeSave_accepts:
  "rate_limit_BeforeSave r = None \<longleftrightarrow>
     (\<forall>s. rl_TokenResetDuration r = Some s \<longrightarrow> (\<exists>d. ParseDuration s = Some d \<and> 0 < d)) \<and>
     (\<forall>s. rl_RequestResetDuration r = Some s \<longrightarrow> (\<exists>d. ParseDuration s = Some d \<and> 0 < d)) \<and>
     (\<forall>n. rl_TokenMaxLimit r = Some n \<longrightarrow> 0 < n \<and> rl_TokenResetDuration r \<noteq> None) \<and>
     (\<forall>n. rl_RequestMaxLimit r = Some n \<longrightarrow> 0 < n \<and> rl_RequestResetDuration r \<noteq> None)"
  unfolding rate_limit_BeforeSave_def first_some_None
  by (auto simp: check_positive_duration_None check_positive_limit_None)

lemma model_config_BeforeSave_scope:
  "model_config_BeforeSave valid mc = Inr mc' \<Longrightarrow>
     valid (mc_Scope mc') \<and> (mc_ScopeID mc' = None \<longleftrightarrow> mc_Scope mc' = ModelConfigScopeGlobal) \<and>
     str_trim (mc_ModelName mc') \<noteq> []"
  by (auto simp: model_config_BeforeSave_def Let_def split: if_splits)

subsection \<open>Properties\<close>

text \<open>
  The start of the current calendar period (UTC midnight, Monday, first of the month,
  first of January) is never after the given instant, and is its own period start: taking
  the period start twice changes nothing. For a suffix without a calendar period the instant
  itself is returned.
\<close>

lemma period_start_laws:
  "GetCalendarPeriodStart d t \<le> t \<and>
   GetCalendarPeriodStart d (GetCalendarPeriodStart d t) = GetCalendarPeriodStart d t"
  by (simp add: period_start_le period_start_idem)

text \<open>
  The reset duration is computed with wrapping \<^verbatim>\<open>int64\<close> arithmetic: six hundred years
  give a positive duration of less than sixteen years, and the save hook of a budget accepts it.
\<close>

definition budget_600Y :: budget where
  "budget_600Y = \<lparr>bg_ID = ''b'', bg_MaxLimit = 10, bg_ResetDuration = ''600Y'', bg_LastReset = 0,
     bg_CurrentUsage = 0, bg_TeamID = None, bg_VirtualKeyID = None, bg_ProviderConfigID = None,
     bg_ModelConfigID = None, bg_CustomerID = None, bg_UserID = None, bg_IsCalendarAligned = False\<rparr>"

lemma parse_600Y: "ParseDuration ''600Y'' = Some 474855926290448384"
  by code_simp

lemma parse_duration_wraps:
  "\<exists>d. ParseDuration (bg_ResetDuration budget_600Y) = Some d \<and> 0 < d \<and> d < 16 * 365 * day \<and>
     d < 600 * 365 * day \<and> budget_BeforeSave budget_600Y = None"
proof -
  have "budget_BeforeSave budget_600Y = None"
    unfolding budget_BeforeSave_accepts by (simp add: budget_600Y_def parse_600Y count_some_def)
  then show ?thesis by (simp add: budget_600Y_def parse_600Y time_units)
qed

end
