(* ===== verification/GovStore.thy ===== *)
theory GovStore
  imports GovTables "HOL-Library.AList"
begin

text \<open>
  The in-memory governance store (plugins/governance/store.go): its state, the hot maps of
  budgets and rate limits with their load, upsert, delete, bump and reset operations, and
  the expiry scan.

  A \<^verbatim>\<open>sync.Map\<close> is an association list with distinct keys whose order is the order
  in which \<^verbatim>\<open>Range\<close> visits the entries; every result holds for any such order. Each
  operation here is one call that no other call interrupts, so a compare-and-swap succeeds
  at its first attempt, and the readings of
  the clock during one call are the single instant \<open>now\<close>. Loggers, mutexes and the
  optional reset hooks, which only observe, are left out.
\<close>

subsection \<open>Concurrent maps\<close>

type_synonym 'v smap = "(string \<times> 'v) list"

definition sm_load :: "'v smap \<Rightarrow> string \<Rightarrow> 'v option" where
  "sm_load m k = map_of m k"

definition sm_store :: "string \<Rightarrow> 'v \<Rightarrow> 'v smap \<Rightarrow> 'v smap" where
  "sm_store k v m = AList.update k v m"

definition sm_delete :: "string \<Rightarrow> 'v smap \<Rightarrow> 'v smap" where
  "sm_delete k m = AList.delete k m"

definition sm_wf :: "'v smap \<Rightarrow> bool" where
  "sm_wf m \<longleftrightarrow> distinct (map fst m)"

lemma sm_load_store [simp, map_laws]:
  "sm_load (sm_store k v m) k' = (if k' = k then Some v else sm_load m k')"
  by (simp add: sm_load_def sm_store_def update_conv')

lemma sm_load_delete [simp, map_laws]:
  "sm_load (sm_delete k m) k' = (if k' = k then None else sm_load m k')"
  by (simp add: sm_load_def sm_delete_def delete_conv')

lemma sm_load_Nil [simp]: "sm_load [] k = None"
  by (simp add: sm_load_def)

lemma sm_wf_store [simp]: "sm_wf m \<Longrightarrow> sm_wf (sm_store k v m)"
  by (simp add: sm_wf_def sm_store_def distinct_update)

lemma sm_wf_delete [simp]: "sm_wf m \<Longrightarrow> sm_wf (sm_delete k m)"
  by (simp add: sm_wf_def sm_delete_def distinct_delete)

lemma sm_wf_Nil [simp]: "sm_wf []"
  by (simp add: sm_wf_def)

lemma sm_load_mem: "sm_wf m \<Longrightarrow> (k, v) \<in> set m \<longleftrightarrow> sm_load m k = Some v"
  by (auto simp: sm_wf_def sm_load_def map_of_eq_Some_iff)

lemma sm_load_SomeD: "sm_load m k = Some v \<Longrightarrow> (k, v) \<in> set m"
  by (simp add: sm_load_def map_of_SomeD)

subsection \<open>State\<close>

record gov_store =
  st_budgets :: "budget smap"
  st_rateLimits :: "rate_limit smap"
  st_lastDBBudgets :: "float64 smap"
  st_lastDBTokens :: "int smap"
  st_lastDBRequests :: "int smap"
  st_virtualKeys :: "virtual_key smap"
  st_virtualKeysByID :: "virtual_key smap"
  st_teams :: "team smap"
  st_customers :: "customer smap"
  st_modelConfigs :: "model_config smap"
  st_providers :: "provider_row smap"
  st_users :: "user_governance smap"
  st_routingRules :: "routing_rule list smap"
  st_businessUnitsByTeam :: "bu_stamp list smap"
  st_modelCatalog :: "(string \<Rightarrow> string) option"

definition LoadBudget :: "gov_store \<Rightarrow> string \<Rightarrow> budget option" where
  "LoadBudget st budgetID = sm_load (st_budgets st) budgetID"

definition LoadRateLimit :: "gov_store \<Rightarrow> string \<Rightarrow> rate_limit option" where
  "LoadRateLimit st rateLimitID = sm_load (st_rateLimits st) rateLimitID"

definition put_budget :: "string \<Rightarrow> budget \<Rightarrow> gov_store \<Rightarrow> gov_store" where
  "put_budget k b st = st\<lparr>st_budgets := sm_store k b (st_budgets st)\<rparr>"

definition put_rate_limit :: "string \<Rightarrow> rate_limit \<Rightarrow> gov_store \<Rightarrow> gov_store" where
  "put_rate_limit k r st = st\<lparr>st_rateLimits := sm_store k r (st_rateLimits st)\<rparr>"

definition keep_budget_usage :: "budget \<Rightarrow> budget \<Rightarrow> budget" where
  "keep_budget_usage old b = b\<lparr>bg_CurrentUsage := bg_CurrentUsage old, bg_LastReset := bg_LastReset old\<rparr>"

definition keep_rate_limit_usage :: "rate_limit \<Rightarrow> rate_limit \<Rightarrow> rate_limit" where
  "keep_rate_limit_usage old r =
     r\<lparr>rl_TokenCurrentUsage := rl_TokenCurrentUsage old, rl_TokenLastReset := rl_TokenLastReset old,
       rl_RequestCurrentUsage := rl_RequestCurrentUsage old, rl_RequestLastReset := rl_RequestLastReset old\<rparr>"

definition UpsertBudgetConfig :: "gov_store \<Rightarrow> string \<Rightarrow> budget option \<Rightarrow> gov_store" where
  "UpsertBudgetConfig st budgetID config =
     (case config of
        None \<Rightarrow> st
      | Some c \<Rightarrow>
          (case LoadBudget st budgetID of
             None \<Rightarrow> put_budget budgetID c st
           | Some old \<Rightarrow> put_budget budgetID (keep_budget_usage old c) st))"

definition DeleteBudget :: "gov_store \<Rightarrow> string \<Rightarrow> gov_store" where
  "DeleteBudget st budgetID =
     st\<lparr>st_budgets := sm_delete budgetID (st_budgets st),
        st_lastDBBudgets := sm_delete budgetID (st_lastDBBudgets st)\<rparr>"

definition SetBudgetDBBaseline :: "gov_store \<Rightarrow> string \<Rightarrow> float64 \<Rightarrow> gov_store" where
  "SetBudgetDBBaseline st budgetID currentUsage =
     st\<lparr>st_lastDBBudgets := sm_store budgetID currentUsage (st_lastDBBudgets st)\<rparr>"

definition UpsertRateLimitConfig :: "gov_store \<Rightarrow> string \<Rightarrow> rate_limit option \<Rightarrow> gov_store" where
  "UpsertRateLimitConfig st rateLimitID config =
     (case config of
        None \<Rightarrow> st
      | Some c \<Rightarrow>
          (case LoadRateLimit st rateLimitID of
             None \<Rightarrow> put_rate_limit rateLimitID c st
           | Some old \<Rightarrow> put_rate_limit rateLimitID (keep_rate_limit_usage old c) st))"

definition DeleteRateLimit :: "gov_store \<Rightarrow> string \<Rightarrow> gov_store" where
  "DeleteRateLimit st rateLimitID =
     st\<lparr>st_rateLimits := sm_delete rateLimitID (st_rateLimits st),
        st_lastDBTokens := sm_delete rateLimitID (st_lastDBTokens st),
        st_lastDBRequests := sm_delete rateLimitID (st_lastDBRequests st)\<rparr>"

definition SetRateLimitDBBaseline :: "gov_store \<Rightarrow> string \<Rightarrow> int \<Rightarrow> int \<Rightarrow> gov_store" where
  "SetRateLimitDBBaseline st rateLimitID tokenUsage requestUsage =
     st\<lparr>st_lastDBTokens := sm_store rateLimitID tokenUsage (st_lastDBTokens st),
        st_lastDBRequests := sm_store rateLimitID requestUsage (st_lastDBRequests st)\<rparr>"

subsection \<open>Resets\<close>

text \<open>\<^verbatim>\<open>budgetResetTarget\<close> and \<^verbatim>\<open>rateLimitResetTarget\<close>: the new
  \<^verbatim>\<open>LastReset\<close> when the counter's window is over.\<close>

definition reset_target :: "string \<Rightarrow> bool \<Rightarrow> instant \<Rightarrow> instant \<Rightarrow> instant option" where
  "reset_target resetDuration calendarAligned lastReset now =
     (if calendarAligned then
        (let period = GetCalendarPeriodStart resetDuration now in
         if lastReset < period then Some period else None)
      else case ParseDuration resetDuration of
          None \<Rightarrow> None
        | Some duration \<Rightarrow> if duration \<le> time_sub now lastReset then Some now else None)"

definition budgetResetTarget :: "budget \<Rightarrow> instant \<Rightarrow> instant option" where
  "budgetResetTarget b now =
     (if bg_ResetDuration b = [] then None
      else reset_target (bg_ResetDuration b) (bg_IsCalendarAligned b) (bg_LastReset b) now)"

definition rateLimitResetTarget :: "string option \<Rightarrow> bool \<Rightarrow> instant \<Rightarrow> instant \<Rightarrow> instant option" where
  "rateLimitResetTarget resetDuration calendarAligned lastReset now =
     (case resetDuration of
        None \<Rightarrow> None
      | Some d \<Rightarrow> reset_target d calendarAligned lastReset now)"

definition rateLimitResetTargets :: "rate_limit \<Rightarrow> instant \<Rightarrow> instant option \<times> instant option" where
  "rateLimitResetTargets r now =
     (rateLimitResetTarget (rl_TokenResetDuration r) (rl_IsCalendarAligned r) (rl_TokenLastReset r) now,
      rateLimitResetTarget (rl_RequestResetDuration r) (rl_IsCalendarAligned r) (rl_RequestLastReset r) now)"

definition reset_budget :: "instant \<Rightarrow> budget \<Rightarrow> budget" where
  "reset_budget t b = b\<lparr>bg_CurrentUsage := 0, bg_LastReset := t\<rparr>"

definition ResetBudgetAt :: "gov_store \<Rightarrow> string \<Rightarrow> instant \<Rightarrow> (budget \<times> gov_store) option" where
  "ResetBudgetAt st budgetID newLastReset =
     (case LoadBudget st budgetID of
        None \<Rightarrow> None
      | Some old \<Rightarrow>
          if \<not> bg_LastReset old < newLastReset then None
          else let clone = reset_budget newLastReset old in Some (clone, put_budget budgetID clone st))"

definition reset_token_counter :: "instant option \<Rightarrow> rate_limit \<Rightarrow> rate_limit \<times> bool" where
  "reset_token_counter target r =
     (case target of
        None \<Rightarrow> (r, False)
      | Some t \<Rightarrow> if rl_TokenLastReset r < t
          then (r\<lparr>rl_TokenCurrentUsage := 0, rl_TokenLastReset := t\<rparr>, True) else (r, False))"

definition reset_request_counter :: "instant option \<Rightarrow> rate_limit \<Rightarrow> rate_limit \<times> bool" where
  "reset_request_counter target r =
     (case target of
        None \<Rightarrow> (r, False)
      | Some t \<Rightarrow> if rl_RequestLastReset r < t
          then (r\<lparr>rl_RequestCurrentUsage := 0, rl_RequestLastReset := t\<rparr>, True) else (r, False))"

definition ResetRateLimitAt ::
  "gov_store \<Rightarrow> string \<Rightarrow> instant option \<Rightarrow> instant option \<Rightarrow> (rate_limit \<times> gov_store) option" where
  "ResetRateLimitAt st rateLimitID tokenNewLastReset requestNewLastReset =
     (if tokenNewLastReset = None \<and> requestNewLastReset = None then None
      else case LoadRateLimit st rateLimitID of
          None \<Rightarrow> None
        | Some old \<Rightarrow>
            (case reset_token_counter tokenNewLastReset old of (r1, d1) \<Rightarrow>
             (case reset_request_counter requestNewLastReset r1 of (r2, d2) \<Rightarrow>
                if \<not> (d1 \<or> d2) then None
                else Some (r2, put_rate_limit rateLimitID r2 st))))"

subsection \<open>Virtual keys and embedded references\<close>

definition GetVirtualKey :: "gov_store \<Rightarrow> string \<Rightarrow> virtual_key option" where
  "GetVirtualKey st vkValue = sm_load (st_virtualKeys st) vkValue"

definition GetVirtualKeyByID :: "gov_store \<Rightarrow> string \<Rightarrow> virtual_key option" where
  "GetVirtualKeyByID st vkID = sm_load (st_virtualKeysByID st) vkID"

definition storeVirtualKey :: "gov_store \<Rightarrow> string \<Rightarrow> virtual_key \<Rightarrow> gov_store" where
  "storeVirtualKey st val vk =
     (if val = [] then st
      else let st1 = st\<lparr>st_virtualKeys := sm_store val vk (st_virtualKeys st)\<rparr> in
        if vk_ID vk \<noteq> [] then st1\<lparr>st_virtualKeysByID := sm_store (vk_ID vk) vk (st_virtualKeysByID st1)\<rparr>
        else st1)"

definition deleteVirtualKeyByValue :: "gov_store \<Rightarrow> string \<Rightarrow> gov_store" where
  "deleteVirtualKeyByValue st val =
     (let st1 = (case GetVirtualKey st val of
                   None \<Rightarrow> st
                 | Some vk \<Rightarrow>
                     if vk_ID vk \<noteq> [] then st\<lparr>st_virtualKeysByID := sm_delete (vk_ID vk) (st_virtualKeysByID st)\<rparr>
                     else st)
      in st1\<lparr>st_virtualKeys := sm_delete val (st_virtualKeys st1)\<rparr>)"

definition replace_budget :: "budget \<Rightarrow> budget list \<Rightarrow> budget list" where
  "replace_budget rb bs = map (\<lambda>b. if bg_ID b = bg_ID rb then rb else b) bs"

fun replace_first_budget :: "budget \<Rightarrow> budget list \<Rightarrow> budget list" where
  "replace_first_budget rb [] = []"
| "replace_first_budget rb (b # bs) =
     (if bg_ID b = bg_ID rb then rb # bs else b # replace_first_budget rb bs)"

definition mentions_budget :: "string \<Rightarrow> budget list \<Rightarrow> bool" where
  "mentions_budget i bs \<longleftrightarrow> list_ex (\<lambda>b. bg_ID b = i) bs"

definition vk_replace_budget :: "budget \<Rightarrow> virtual_key \<Rightarrow> virtual_key" where
  "vk_replace_budget rb vk =
     vk\<lparr>vk_Budgets := replace_budget rb (vk_Budgets vk),
        vk_ProviderConfigs := map (\<lambda>pc. pc\<lparr>pc_Budgets := replace_budget rb (pc_Budgets pc)\<rparr>) (vk_ProviderConfigs vk)\<rparr>"

text \<open>\<^verbatim>\<open>Range\<close> over the virtual keys: the keys that mention the budget are stored again.\<close>

fun update_vks :: "(virtual_key \<Rightarrow> bool) \<Rightarrow> (virtual_key \<Rightarrow> virtual_key) \<Rightarrow> virtual_key smap \<Rightarrow> gov_store \<Rightarrow> gov_store" where
  "update_vks p f [] st = st"
| "update_vks p f ((k, vk) # rest) st =
     update_vks p f rest (if p vk then storeVirtualKey st k (f vk) else st)"

definition sm_update_where :: "('v \<Rightarrow> bool) \<Rightarrow> ('v \<Rightarrow> 'v) \<Rightarrow> 'v smap \<Rightarrow> 'v smap" where
  "sm_update_where p f m = map (\<lambda>(k, v). (k, if p v then f v else v)) m"

definition updateBudgetReferences :: "gov_store \<Rightarrow> budget \<Rightarrow> gov_store" where
  "updateBudgetReferences st rb =
     (let i = bg_ID rb;
          st1 = update_vks (\<lambda>vk. mentions_budget i (vk_Budgets vk) \<or>
                    list_ex (\<lambda>pc. mentions_budget i (pc_Budgets pc)) (vk_ProviderConfigs vk))
                  (vk_replace_budget rb) (st_virtualKeys st) st;
          st2 = st1\<lparr>st_teams := sm_update_where (\<lambda>t. mentions_budget i (tm_Budgets t))
                    (\<lambda>t. t\<lparr>tm_Budgets := replace_first_budget rb (tm_Budgets t)\<rparr>) (st_teams st1)\<rparr>
      in st2\<lparr>st_customers := sm_update_where (\<lambda>c. mentions_budget i (cu_Budgets c))
               (\<lambda>c. c\<lparr>cu_Budgets := replace_first_budget rb (cu_Budgets c)\<rparr>) (st_customers st2)\<rparr>)"

definition vk_replace_rate_limit :: "rate_limit \<Rightarrow> virtual_key \<Rightarrow> virtual_key" where
  "vk_replace_rate_limit rr vk =
     (let i = rl_ID rr;
          vk1 = (if vk_RateLimitID vk = Some i then vk\<lparr>vk_RateLimit := Some rr\<rparr> else vk)
      in vk1\<lparr>vk_ProviderConfigs := map (\<lambda>pc. if pc_RateLimitID pc = Some i then pc\<lparr>pc_RateLimit := Some rr\<rparr> else pc)
                (vk_ProviderConfigs vk1)\<rparr>)"

definition updateRateLimitReferences :: "gov_store \<Rightarrow> rate_limit \<Rightarrow> gov_store" where
  "updateRateLimitReferences st rr =
     (let i = rl_ID rr;
          st1 = update_vks (\<lambda>vk. vk_RateLimitID vk = Some i \<or>
                    list_ex (\<lambda>pc. pc_RateLimitID pc = Some i) (vk_ProviderConfigs vk))
                  (vk_replace_rate_limit rr) (st_virtualKeys st) st;
          st2 = st1\<lparr>st_teams := sm_update_where (\<lambda>t. tm_RateLimitID t = Some i)
                    (\<lambda>t. t\<lparr>tm_RateLimit := Some rr\<rparr>) (st_teams st1)\<rparr>
      in st2\<lparr>st_customers := sm_update_where (\<lambda>c. cu_RateLimitID c = Some i)
               (\<lambda>c. c\<lparr>cu_RateLimit := Some rr\<rparr>) (st_customers st2)\<rparr>)"

subsection \<open>The expiry scan\<close>

definition resetExpiredBudgetFromSnapshot ::
  "gov_store \<Rightarrow> budget \<Rightarrow> instant \<Rightarrow> bool \<Rightarrow> budget option \<times> gov_store" where
  "resetExpiredBudgetFromSnapshot st b now refreshReferences =
     (case budgetResetTarget b now of
        None \<Rightarrow> (None, st)
      | Some newLastReset \<Rightarrow>
          (case ResetBudgetAt st (bg_ID b) newLastReset of
             None \<Rightarrow> (None, st)
           | Some (rb, st1) \<Rightarrow>
               let st2 = SetBudgetDBBaseline st1 (bg_ID rb) 0
               in (Some rb, if refreshReferences then updateBudgetReferences st2 rb else st2)))"

fun scan_budgets :: "instant \<Rightarrow> bool \<Rightarrow> budget list \<Rightarrow> gov_store \<Rightarrow> budget list \<times> gov_store" where
  "scan_budgets now refresh [] st = ([], st)"
| "scan_budgets now refresh (b # bs) st =
     (case resetExpiredBudgetFromSnapshot st b now refresh of (r, st1) \<Rightarrow>
      (case scan_budgets now refresh bs st1 of (rs, st2) \<Rightarrow>
         (case r of None \<Rightarrow> (rs, st2) | Some rb \<Rightarrow> (rb # rs, st2))))"

fun scan_budget_ids :: "instant \<Rightarrow> bool \<Rightarrow> string list \<Rightarrow> gov_store \<Rightarrow> budget list \<times> gov_store" where
  "scan_budget_ids now refresh [] st = ([], st)"
| "scan_budget_ids now refresh (i # is) st =
     (case (case LoadBudget st i of
              None \<Rightarrow> (None, st)
            | Some b \<Rightarrow> resetExpiredBudgetFromSnapshot st b now refresh) of (r, st1) \<Rightarrow>
      (case scan_budget_ids now refresh is st1 of (rs, st2) \<Rightarrow>
         (case r of None \<Rightarrow> (rs, st2) | Some rb \<Rightarrow> (rb # rs, st2))))"

definition ResetExpiredBudgetsInMemory ::
  "gov_store \<Rightarrow> instant \<Rightarrow> bool \<Rightarrow> string list \<Rightarrow> budget list \<times> gov_store" where
  "ResetExpiredBudgetsInMemory st now refreshReferences budgetIDs =
     (if budgetIDs = [] then scan_budgets now refreshReferences (map snd (st_budgets st)) st
      else scan_budget_ids now refreshReferences budgetIDs st)"

definition resetExpiredRateLimitFromSnapshot ::
  "gov_store \<Rightarrow> rate_limit \<Rightarrow> instant \<Rightarrow> bool \<Rightarrow> rate_limit option \<times> gov_store" where
  "resetExpiredRateLimitFromSnapshot st r now refreshReferences =
     (case rateLimitResetTargets r now of (tok, req) \<Rightarrow>
        if tok = None \<and> req = None then (None, st)
        else case ResetRateLimitAt st (rl_ID r) tok req of
            None \<Rightarrow> (None, st)
          | Some (rr, st1) \<Rightarrow>
              let st2 = (if tok \<noteq> None then st1\<lparr>st_lastDBTokens := sm_store (rl_ID rr) 0 (st_lastDBTokens st1)\<rparr> else st1);
                  st3 = (if req \<noteq> None then st2\<lparr>st_lastDBRequests := sm_store (rl_ID rr) 0 (st_lastDBRequests st2)\<rparr> else st2)
              in (Some rr, if refreshReferences then updateRateLimitReferences st3 rr else st3))"

fun scan_rate_limits :: "instant \<Rightarrow> bool \<Rightarrow> rate_limit list \<Rightarrow> gov_store \<Rightarrow> rate_limit list \<times> gov_store" where
  "scan_rate_limits now refresh [] st = ([], st)"
| "scan_rate_limits now refresh (b # bs) st =
     (case resetExpiredRateLimitFromSnapshot st b now refresh of (r, st1) \<Rightarrow>
      (case scan_rate_limits now refresh bs st1 of (rs, st2) \<Rightarrow>
         (case r of None \<Rightarrow> (rs, st2) | Some rb \<Rightarrow> (rb # rs, st2))))"

fun scan_rate_limit_ids :: "instant \<Rightarrow> bool \<Rightarrow> string list \<Rightarrow> gov_store \<Rightarrow> rate_limit list \<times> gov_store" where
  "scan_rate_limit_ids now refresh [] st = ([], st)"
| "scan_rate_limit_ids now refresh (i # is) st =
     (case (case LoadRateLimit st i of
              None \<Rightarrow> (None, st)
            | Some r \<Rightarrow> resetExpiredRateLimitFromSnapshot st r now refresh) of (r, st1) \<Rightarrow>
      (case scan_rate_limit_ids now refresh is st1 of (rs, st2) \<Rightarrow>
         (case r of None \<Rightarrow> (rs, st2) | Some rb \<Rightarrow> (rb # rs, st2))))"

definition ResetExpiredRateLimitsInMemory ::
  "gov_store \<Rightarrow> instant \<Rightarrow> bool \<Rightarrow> string list \<Rightarrow> rate_limit list \<times> gov_store" where
  "ResetExpiredRateLimitsInMemory st now refreshReferences rateLimitIDs =
     (if rateLimitIDs = [] then scan_rate_limits now refreshReferences (map snd (st_rateLimits st)) st
      else scan_rate_limit_ids now refreshReferences rateLimitIDs st)"

subsection \<open>Usage increments\<close>

text \<open>
  The increment loops, with the number of iterations allowed: \<open>None\<close> when they are used up.
  A found window end resets the counter and goes round again, as in the sources.
\<close>

definition charge_budget :: "float64 \<Rightarrow> budget \<Rightarrow> budget" where
  "charge_budget cost b = b\<lparr>bg_CurrentUsage := bg_CurrentUsage b + cost\<rparr>"

fun BumpBudgetUsage :: "nat \<Rightarrow> instant \<Rightarrow> gov_store \<Rightarrow> string \<Rightarrow> float64 \<Rightarrow> gov_store option" where
  "BumpBudgetUsage 0 now st budgetID cost = None"
| "BumpBudgetUsage (Suc n) now st budgetID cost =
     (case LoadBudget st budgetID of
        None \<Rightarrow> Some st
      | Some old \<Rightarrow>
          if budgetResetTarget old now \<noteq> None then
            BumpBudgetUsage n now (snd (ResetExpiredBudgetsInMemory st now False [budgetID])) budgetID cost
          else Some (put_budget budgetID (charge_budget cost old) st))"

definition charge_rate_limit :: "int \<Rightarrow> bool \<Rightarrow> bool \<Rightarrow> rate_limit \<Rightarrow> rate_limit" where
  "charge_rate_limit tokensUsed shouldUpdateTokens shouldUpdateRequests r =
     (let r1 = (if shouldUpdateTokens
                then r\<lparr>rl_TokenCurrentUsage := wrap64 (rl_TokenCurrentUsage r + tokensUsed)\<rparr> else r)
      in if shouldUpdateRequests
         then r1\<lparr>rl_RequestCurrentUsage := wrap64 (rl_RequestCurrentUsage r1 + 1)\<rparr> else r1)"

fun BumpRateLimitUsage ::
  "nat \<Rightarrow> instant \<Rightarrow> gov_store \<Rightarrow> string \<Rightarrow> int \<Rightarrow> bool \<Rightarrow> bool \<Rightarrow> gov_store option" where
  "BumpRateLimitUsage 0 now st rateLimitID tokensUsed updTok updReq = None"
| "BumpRateLimitUsage (Suc n) now st rateLimitID tokensUsed updTok updReq =
     (case LoadRateLimit st rateLimitID of
        None \<Rightarrow> Some st
      | Some old \<Rightarrow>
          if rateLimitResetTargets old now \<noteq> (None, None) then
            BumpRateLimitUsage n now (snd (ResetExpiredRateLimitsInMemory st now False [rateLimitID]))
              rateLimitID tokensUsed updTok updReq
          else Some (put_rate_limit rateLimitID (charge_rate_limit tokensUsed updTok updReq old) st))"

definition BumpRateLimitUsageBy :: "gov_store \<Rightarrow> string \<Rightarrow> int \<Rightarrow> int \<Rightarrow> gov_store" where
  "BumpRateLimitUsageBy st rateLimitID tokenDelta requestDelta =
     (if tokenDelta = 0 \<and> requestDelta = 0 then st
      else case LoadRateLimit st rateLimitID of
          None \<Rightarrow> st
        | Some old \<Rightarrow> put_rate_limit rateLimitID
            (old\<lparr>rl_TokenCurrentUsage := wrap64 (rl_TokenCurrentUsage old + tokenDelta),
                 rl_RequestCurrentUsage := wrap64 (rl_RequestCurrentUsage old + requestDelta)\<rparr>) st)"

subsection \<open>Windows that close\<close>

text \<open>
  The contract between a counter with a usage window and the increment loop: once the
  window's end has been applied, the same reading of the clock finds no window end. The
  loop is then over after its second iteration.
\<close>

locale reset_window =
  fixes target :: "'r \<Rightarrow> instant \<Rightarrow> 't option"
    and close :: "'t \<Rightarrow> 'r \<Rightarrow> 'r"
    and sound :: "'r \<Rightarrow> bool"
  assumes closed: "sound r \<Longrightarrow> target r now = Some t \<Longrightarrow> target (close t r) now = None"
    and sound_close: "sound r \<Longrightarrow> sound (close t r)"
begin

definition settle :: "instant \<Rightarrow> 'r \<Rightarrow> 'r" where
  "settle now r = (case target r now of None \<Rightarrow> r | Some t \<Rightarrow> close t r)"

fun bump_row :: "nat \<Rightarrow> instant \<Rightarrow> ('r \<Rightarrow> 'r) \<Rightarrow> 'r \<Rightarrow> 'r option" where
  "bump_row 0 now f r = None"
| "bump_row (Suc n) now f r =
     (case target r now of
        None \<Rightarrow> Some (f r)
      | Some t \<Rightarrow> bump_row n now f (close t r))"

lemma target_settle: "sound r \<Longrightarrow> target (settle now r) now = None"
  by (auto simp: settle_def closed split: option.splits)

lemma settle_idem: "sound r \<Longrightarrow> settle now (settle now r) = settle now r"
  using target_settle [of r now] by (simp add: settle_def [of now "settle now r"])

lemma sound_settle: "sound r \<Longrightarrow> sound (settle now r)"
  by (auto simp: settle_def sound_close split: option.splits)

lemma bump_row_settle:
  assumes "sound r" "2 \<le> n"
  shows "bump_row n now f r = Some (f (settle now r))"
proof -
  obtain k where n: "n = Suc (Suc k)" using assms(2)
    by (metis One_nat_def Suc_1 Suc_le_D Suc_le_mono)
  show ?thesis using assms(1) by (auto simp: n settle_def closed split: option.splits)
qed

end

definition sound_window :: "string \<Rightarrow> bool \<Rightarrow> bool" where
  "sound_window dur ca \<longleftrightarrow> ca \<or> (case ParseDuration dur of None \<Rightarrow> True | Some d \<Rightarrow> 0 < d)"

definition sound_budget :: "budget \<Rightarrow> bool" where
  "sound_budget b \<longleftrightarrow> sound_window (bg_ResetDuration b) (bg_IsCalendarAligned b)"

definition sound_rate_limit :: "rate_limit \<Rightarrow> bool" where
  "sound_rate_limit r \<longleftrightarrow>
     (case rl_TokenResetDuration r of None \<Rightarrow> True | Some d \<Rightarrow> sound_window d (rl_IsCalendarAligned r)) \<and>
     (case rl_RequestResetDuration r of None \<Rightarrow> True | Some d \<Rightarrow> sound_window d (rl_IsCalendarAligned r))"

lemma time_sub_pos: "0 < d \<Longrightarrow> d \<le> time_sub t u \<Longrightarrow> u < t"
  by (auto simp: time_sub_def int64_min_def int64_max_def)

lemma reset_target_after: "sound_window dur ca \<Longrightarrow> reset_target dur ca lr now = Some t \<Longrightarrow> lr < t"
  by (auto simp: reset_target_def sound_window_def Let_def dest: time_sub_pos split: if_splits option.splits)

lemma reset_target_le_now: "reset_target dur ca lr now = Some t \<Longrightarrow> t \<le> now"
  by (auto simp: reset_target_def Let_def period_start_le split: if_splits option.splits)

lemma reset_target_closed:
  "sound_window dur ca \<Longrightarrow> reset_target dur ca lr now = Some t \<Longrightarrow> reset_target dur ca t now = None"
  by (auto simp: reset_target_def sound_window_def Let_def split: if_splits option.splits)

definition close_rate_limit :: "instant option \<times> instant option \<Rightarrow> rate_limit \<Rightarrow> rate_limit" where
  "close_rate_limit ts r = fst (reset_request_counter (snd ts) (fst (reset_token_counter (fst ts) r)))"

definition rate_limit_target :: "rate_limit \<Rightarrow> instant \<Rightarrow> (instant option \<times> instant option) option" where
  "rate_limit_target r now =
     (let ts = rateLimitResetTargets r now in if ts = (None, None) then None else Some ts)"

lemma budget_closed:
  "sound_budget b \<Longrightarrow> budgetResetTarget b now = Some t \<Longrightarrow> budgetResetTarget (reset_budget t b) now = None"
  by (auto simp: budgetResetTarget_def sound_budget_def reset_budget_def dest: reset_target_closed split: if_splits)

interpretation bw: reset_window budgetResetTarget reset_budget sound_budget
  by unfold_locales (erule (1) budget_closed, simp add: sound_budget_def reset_budget_def)

lemma token_closed:
  assumes "sound_rate_limit r"
  shows "rateLimitResetTarget (rl_TokenResetDuration r) (rl_IsCalendarAligned r)
    (rl_TokenLastReset (fst (reset_token_counter
       (rateLimitResetTarget (rl_TokenResetDuration r) (rl_IsCalendarAligned r) (rl_TokenLastReset r) now) r))) now = None"
  using assms
  by (auto simp: rateLimitResetTarget_def reset_token_counter_def sound_rate_limit_def
      dest: reset_target_closed reset_target_after split: option.splits)

lemma request_closed:
  assumes "sound_rate_limit r"
  shows "rateLimitResetTarget (rl_RequestResetDuration r) (rl_IsCalendarAligned r)
    (rl_RequestLastReset (fst (reset_request_counter
       (rateLimitResetTarget (rl_RequestResetDuration r) (rl_IsCalendarAligned r) (rl_RequestLastReset r) now) r))) now = None"
  using assms
  by (auto simp: rateLimitResetTarget_def reset_request_counter_def sound_rate_limit_def
      dest: reset_target_closed reset_target_after split: option.splits)

lemma reset_token_counter_frame [simp]:
  "rl_ID (fst (reset_token_counter t r)) = rl_ID r"
  "rl_TokenResetDuration (fst (reset_token_counter t r)) = rl_TokenResetDuration r"
  "rl_RequestResetDuration (fst (reset_token_counter t r)) = rl_RequestResetDuration r"
  "rl_IsCalendarAligned (fst (reset_token_counter t r)) = rl_IsCalendarAligned r"
  "rl_RequestLastReset (fst (reset_token_counter t r)) = rl_RequestLastReset r"
  "rl_RequestCurrentUsage (fst (reset_token_counter t r)) = rl_RequestCurrentUsage r"
  "rl_TokenMaxLimit (fst (reset_token_counter t r)) = rl_TokenMaxLimit r"
  "rl_RequestMaxLimit (fst (reset_token_counter t r)) = rl_RequestMaxLimit r"
  by (auto simp: reset_token_counter_def split: option.splits)

lemma reset_request_counter_frame [simp]:
  "rl_ID (fst (reset_request_counter t r)) = rl_ID r"
  "rl_TokenResetDuration (fst (reset_request_counter t r)) = rl_TokenResetDuration r"
  "rl_RequestResetDuration (fst (reset_request_counter t r)) = rl_RequestResetDuration r"
  "rl_IsCalendarAligned (fst (reset_request_counter t r)) = rl_IsCalendarAligned r"
  "rl_TokenLastReset (fst (reset_request_counter t r)) = rl_TokenLastReset r"
  "rl_TokenCurrentUsage (fst (reset_request_counter t r)) = rl_TokenCurrentUsage r"
  "rl_TokenMaxLimit (fst (reset_request_counter t r)) = rl_TokenMaxLimit r"
  "rl_RequestMaxLimit (fst (reset_request_counter t r)) = rl_RequestMaxLimit r"
  by (auto simp: reset_request_counter_def split: option.splits)

lemma reset_request_counter_token:
  "rl_RequestLastReset r' = rl_RequestLastReset r \<Longrightarrow>
     rl_RequestLastReset (fst (reset_request_counter t r')) = rl_RequestLastReset (fst (reset_request_counter t r))"
  by (auto simp: reset_request_counter_def split: option.splits)

lemma rate_limit_closed:
  assumes "sound_rate_limit r" "rate_limit_target r now = Some t"
  shows "rate_limit_target (close_rate_limit t r) now = None"
proof -
  have t: "t = rateLimitResetTargets r now" using assms(2) by (simp add: rate_limit_target_def Let_def split: if_splits)
  have "rl_RequestLastReset (close_rate_limit t r) = rl_RequestLastReset (fst (reset_request_counter (snd t) r))"
    unfolding close_rate_limit_def by (rule reset_request_counter_token) simp
  with token_closed [OF assms(1), of now] request_closed [OF assms(1), of now]
  show ?thesis by (simp add: rate_limit_target_def rateLimitResetTargets_def t close_rate_limit_def)
qed

lemma sound_close_rate_limit: "sound_rate_limit (close_rate_limit t r) = sound_rate_limit r"
  by (simp add: sound_rate_limit_def close_rate_limit_def split: option.splits)

interpretation rw: reset_window rate_limit_target close_rate_limit sound_rate_limit
  by unfold_locales (auto simp: rate_limit_closed sound_close_rate_limit)

subsection \<open>Well-formed stores\<close>

text \<open>Every hot row is stored under its own identifier, and no map has a key twice.\<close>

definition wf_hot :: "gov_store \<Rightarrow> bool" where
  "wf_hot st \<longleftrightarrow> list_all (\<lambda>(k, b). bg_ID b = k) (st_budgets st) \<and>
     list_all (\<lambda>(k, r). rl_ID r = k) (st_rateLimits st) \<and>
     sm_wf (st_budgets st) \<and> sm_wf (st_rateLimits st)"

lemma wf_hot_budget: "wf_hot st \<Longrightarrow> LoadBudget st k = Some b \<Longrightarrow> bg_ID b = k"
  by (auto simp: wf_hot_def LoadBudget_def list_all_iff dest!: sm_load_SomeD)

lemma wf_hot_rate_limit: "wf_hot st \<Longrightarrow> LoadRateLimit st k = Some r \<Longrightarrow> rl_ID r = k"
  by (auto simp: wf_hot_def LoadRateLimit_def list_all_iff dest!: sm_load_SomeD)

lemma set_sm_store: "set (sm_store k v m) \<subseteq> insert (k, v) (set m)"
  unfolding sm_store_def by (induction m) auto

lemma set_sm_delete: "set (sm_delete k m) \<subseteq> set m"
  by (auto simp: sm_delete_def AList.delete_eq)

lemma wf_hot_put_budget [simp]: "wf_hot st \<Longrightarrow> bg_ID b = k \<Longrightarrow> wf_hot (put_budget k b st)"
  using set_sm_store [of k b "st_budgets st"]
  by (fastforce simp: wf_hot_def put_budget_def list_all_iff)

lemma wf_hot_put_rate_limit [simp]: "wf_hot st \<Longrightarrow> rl_ID r = k \<Longrightarrow> wf_hot (put_rate_limit k r st)"
  using set_sm_store [of k r "st_rateLimits st"]
  by (fastforce simp: wf_hot_def put_rate_limit_def list_all_iff)

lemma wf_hot_delete_budget [simp]: "wf_hot st \<Longrightarrow> wf_hot (DeleteBudget st k)"
  using set_sm_delete [of k "st_budgets st"]
  by (fastforce simp: wf_hot_def DeleteBudget_def list_all_iff)

lemma wf_hot_delete_rate_limit [simp]: "wf_hot st \<Longrightarrow> wf_hot (DeleteRateLimit st k)"
  using set_sm_delete [of k "st_rateLimits st"]
  by (fastforce simp: wf_hot_def DeleteRateLimit_def list_all_iff)

lemma wf_hot_baseline [simp]: "wf_hot (SetBudgetDBBaseline st k x) = wf_hot st"
  by (simp add: wf_hot_def SetBudgetDBBaseline_def)

subsection \<open>Loading after each operation\<close>

lemma load_put_budget [simp, limit_defs]:
  "LoadBudget (put_budget k b st) k' = (if k' = k then Some b else LoadBudget st k')"
  "LoadRateLimit (put_budget k b st) k' = LoadRateLimit st k'"
  by (simp_all add: LoadBudget_def LoadRateLimit_def put_budget_def)

lemma load_put_rate_limit [simp, limit_defs]:
  "LoadRateLimit (put_rate_limit k r st) k' = (if k' = k then Some r else LoadRateLimit st k')"
  "LoadBudget (put_rate_limit k r st) k' = LoadBudget st k'"
  by (simp_all add: LoadBudget_def LoadRateLimit_def put_rate_limit_def)

lemma load_delete_budget [simp, limit_defs]:
  "LoadBudget (DeleteBudget st k) k' = (if k' = k then None else LoadBudget st k')"
  "LoadRateLimit (DeleteBudget st k) k' = LoadRateLimit st k'"
  by (simp_all add: LoadBudget_def LoadRateLimit_def DeleteBudget_def)

lemma load_delete_rate_limit [simp, limit_defs]:
  "LoadRateLimit (DeleteRateLimit st k) k' = (if k' = k then None else LoadRateLimit st k')"
  "LoadBudget (DeleteRateLimit st k) k' = LoadBudget st k'"
  by (simp_all add: LoadBudget_def LoadRateLimit_def DeleteRateLimit_def)

lemma load_baseline [simp, limit_defs]:
  "LoadBudget (SetBudgetDBBaseline st k x) k' = LoadBudget st k'"
  "LoadRateLimit (SetBudgetDBBaseline st k x) k' = LoadRateLimit st k'"
  by (simp_all add: LoadBudget_def LoadRateLimit_def SetBudgetDBBaseline_def)

lemma put_budget_twice [simp]:
  "put_budget k b (put_budget k b' st) = put_budget k b st"
  "put_budget k b (SetBudgetDBBaseline (put_budget k b' st) i x) = put_budget k b (SetBudgetDBBaseline st i x)"
  by (simp_all add: put_budget_def SetBudgetDBBaseline_def sm_store_def)

lemma put_rate_limit_twice [simp]: "put_rate_limit k r (put_rate_limit k r' st) = put_rate_limit k r st"
  by (simp add: put_rate_limit_def sm_store_def)

subsection \<open>The increment loops\<close>

lemma reset_budget_frame [simp]:
  "bg_ID (reset_budget t b) = bg_ID b" "bg_LastReset (reset_budget t b) = t"
  "bg_CurrentUsage (reset_budget t b) = 0" "bg_ResetDuration (reset_budget t b) = bg_ResetDuration b"
  "bg_IsCalendarAligned (reset_budget t b) = bg_IsCalendarAligned b"
  "bg_MaxLimit (reset_budget t b) = bg_MaxLimit b"
  by (simp_all add: reset_budget_def)

lemma budgetResetTarget_after:
  "sound_budget b \<Longrightarrow> budgetResetTarget b now = Some t \<Longrightarrow> bg_LastReset b < t"
  by (auto simp: budgetResetTarget_def sound_budget_def dest: reset_target_after split: if_splits)

lemma reset_one_budget:
  assumes "wf_hot st" "LoadBudget st i = Some b" "sound_budget b" "budgetResetTarget b now = Some t"
  shows "ResetExpiredBudgetsInMemory st now False [i] =
    ([reset_budget t b], SetBudgetDBBaseline (put_budget i (reset_budget t b) st) i 0)"
  using assms wf_hot_budget [OF assms(1,2)] budgetResetTarget_after [OF assms(3,4)]
  by (simp add: ResetExpiredBudgetsInMemory_def resetExpiredBudgetFromSnapshot_def ResetBudgetAt_def Let_def)

definition window_store :: "gov_store \<Rightarrow> string \<Rightarrow> budget \<Rightarrow> instant \<Rightarrow> gov_store" where
  "window_store st i b now = (if budgetResetTarget b now = None then st else SetBudgetDBBaseline st i 0)"

lemma BumpBudgetUsage_row:
  assumes "wf_hot st" "LoadBudget st i = Some b" "sound_budget b"
  shows "BumpBudgetUsage n now st i cost =
    map_option (\<lambda>b'. put_budget i b' (window_store st i b now)) (bw.bump_row n now (charge_budget cost) b)"
  using assms
proof (induction n arbitrary: st b)
  case 0
  then show ?case by simp
next
  case (Suc n)
  show ?case
  proof (cases "budgetResetTarget b now")
    case None
    with Suc.prems show ?thesis by (simp add: window_store_def)
  next
    case (Some t)
    let ?b = "reset_budget t b" and ?st = "SetBudgetDBBaseline (put_budget i (reset_budget t b) st) i 0"
    have id: "bg_ID ?b = i" using wf_hot_budget [OF Suc.prems(1,2)] by simp
    have c: "budgetResetTarget ?b now = None" using Suc.prems(3) Some by (rule budget_closed)
    have s: "sound_budget ?b" using Suc.prems(3) by (simp add: sound_budget_def)
    have ih: "BumpBudgetUsage n now ?st i cost =
        map_option (\<lambda>b'. put_budget i b' (window_store ?st i ?b now)) (bw.bump_row n now (charge_budget cost) ?b)"
      by (rule Suc.IH [OF _ _ s]) (use Suc.prems(1) id in simp_all)
    show ?thesis
      using Suc.prems Some reset_one_budget [OF Suc.prems Some]
      by (simp add: ih) (simp add: window_store_def c Some)
  qed
qed

lemma BumpBudgetUsage_settles:
  assumes "wf_hot st" "LoadBudget st i = Some b" "sound_budget b" "2 \<le> n"
  shows "BumpBudgetUsage n now st i cost =
    Some (put_budget i (charge_budget cost (bw.settle now b)) (window_store st i b now))"
  by (simp add: BumpBudgetUsage_row [OF assms(1-3)] bw.bump_row_settle [OF assms(3,4)])

lemma BumpBudgetUsage_absent: "LoadBudget st i = None \<Longrightarrow> 1 \<le> n \<Longrightarrow> BumpBudgetUsage n now st i cost = Some st"
  by (cases n) simp_all

text \<open>A window of length zero or less is always over, so the loop never gets to the increment.\<close>

lemma scan_one_budget:
  "wf_hot st \<Longrightarrow> LoadBudget st i = Some b \<Longrightarrow>
     ResetExpiredBudgetsInMemory st now False [i] =
       (case budgetResetTarget b now of
          None \<Rightarrow> ([], st)
        | Some t \<Rightarrow> if bg_LastReset b < t
            then ([reset_budget t b], SetBudgetDBBaseline (put_budget i (reset_budget t b) st) i 0)
            else ([], st))"
  by (auto simp: ResetExpiredBudgetsInMemory_def resetExpiredBudgetFromSnapshot_def ResetBudgetAt_def
      Let_def wf_hot_budget split: option.splits)

lemma BumpBudgetUsage_nonpositive:
  assumes "wf_hot st" "LoadBudget st i = Some b" "\<not> bg_IsCalendarAligned b"
    "ParseDuration (bg_ResetDuration b) = Some d" "d \<le> 0" "bg_LastReset b \<le> now"
  shows "BumpBudgetUsage n now st i cost = None"
  using assms
proof (induction n arbitrary: st b)
  case 0
  then show ?case by simp
next
  case (Suc n)
  have ne: "bg_ResetDuration b \<noteq> []" using Suc.prems(4) by (auto simp: ParseDuration_def)
  have "0 \<le> time_sub now (bg_LastReset b)"
    using Suc.prems(6) by (simp add: time_sub_def int64_min_def int64_max_def)
  then have t: "budgetResetTarget b now = Some now"
    using Suc.prems ne by (simp add: budgetResetTarget_def reset_target_def)
  show ?case
  proof (cases "bg_LastReset b < now")
    case True
    let ?st = "SetBudgetDBBaseline (put_budget i (reset_budget now b) st) i 0"
    have "BumpBudgetUsage n now ?st i cost = None"
      by (rule Suc.IH [where b = "reset_budget now b"])
        (use Suc.prems wf_hot_budget [OF Suc.prems(1,2)] in simp_all)
    with True t Suc.prems show ?thesis by (simp add: scan_one_budget)
  next
    case False
    have "BumpBudgetUsage n now st i cost = None" by (rule Suc.IH) (use Suc.prems in auto)
    with False t Suc.prems show ?thesis by (simp add: scan_one_budget)
  qed
qed

lemma close_rate_limit_frame [simp]:
  "rl_ID (close_rate_limit t r) = rl_ID r"
  "rl_TokenMaxLimit (close_rate_limit t r) = rl_TokenMaxLimit r"
  "rl_RequestMaxLimit (close_rate_limit t r) = rl_RequestMaxLimit r"
  by (simp_all add: close_rate_limit_def)

definition window_rl_store :: "gov_store \<Rightarrow> string \<Rightarrow> rate_limit \<Rightarrow> instant \<Rightarrow> gov_store" where
  "window_rl_store st i r now =
     (case rateLimitResetTargets r now of (tok, req) \<Rightarrow>
        let st2 = (if tok \<noteq> None then st\<lparr>st_lastDBTokens := sm_store i 0 (st_lastDBTokens st)\<rparr> else st)
        in if req \<noteq> None then st2\<lparr>st_lastDBRequests := sm_store i 0 (st_lastDBRequests st2)\<rparr> else st2)"

lemma reset_counter_done:
  assumes "sound_rate_limit r" "rateLimitResetTargets r now = (tok, req)"
  shows "tok \<noteq> None \<Longrightarrow> snd (reset_token_counter tok r)" "req \<noteq> None \<Longrightarrow> snd (reset_request_counter req r)"
  using assms
  by (auto simp: rateLimitResetTargets_def rateLimitResetTarget_def reset_token_counter_def
      reset_request_counter_def sound_rate_limit_def dest: reset_target_after split: option.splits)

lemma reset_request_counter_done:
  "rl_RequestLastReset r' = rl_RequestLastReset r \<Longrightarrow> snd (reset_request_counter t r') = snd (reset_request_counter t r)"
  by (auto simp: reset_request_counter_def split: option.splits)

lemma reset_one_rate_limit:
  assumes "wf_hot st" "LoadRateLimit st i = Some r" "sound_rate_limit r" "rate_limit_target r now = Some t"
  shows "snd (ResetExpiredRateLimitsInMemory st now False [i]) =
    put_rate_limit i (close_rate_limit t r) (window_rl_store st i r now)"
proof -
  obtain tok req where ts: "rateLimitResetTargets r now = (tok, req)" by fastforce
  with assms(4) have t: "t = (tok, req)" and ne: "tok \<noteq> None \<or> req \<noteq> None"
    by (auto simp: rate_limit_target_def Let_def split: if_splits)
  let ?r1 = "fst (reset_token_counter tok r)"
  have "snd (reset_token_counter tok r) \<or> snd (reset_request_counter req ?r1)"
    using ne reset_counter_done [OF assms(3) ts] reset_request_counter_done [of ?r1 r req] by auto
  then have "ResetRateLimitAt st i tok req = Some (close_rate_limit t r, put_rate_limit i (close_rate_limit t r) st)"
    using assms(2) ne by (auto simp: ResetRateLimitAt_def close_rate_limit_def t split: prod.splits)
  then show ?thesis
    using assms(2) wf_hot_rate_limit [OF assms(1,2)] ne ts
    by (auto simp: ResetExpiredRateLimitsInMemory_def resetExpiredRateLimitFromSnapshot_def Let_def
        window_rl_store_def put_rate_limit_def)
qed

lemma load_window_rl_store [simp]:
  "LoadBudget (window_rl_store st i r now) k = LoadBudget st k"
  "LoadRateLimit (window_rl_store st i r now) k = LoadRateLimit st k"
  "wf_hot (window_rl_store st i r now) = wf_hot st"
  by (simp_all add: window_rl_store_def LoadBudget_def LoadRateLimit_def wf_hot_def Let_def split: prod.splits)

lemma load_window_store [simp]:
  "LoadBudget (window_store st i b now) k = LoadBudget st k"
  "LoadRateLimit (window_store st i b now) k = LoadRateLimit st k"
  "wf_hot (window_store st i b now) = wf_hot st"
  by (simp_all add: window_store_def)

lemma window_rl_store_none: "rate_limit_target r now = None \<Longrightarrow> window_rl_store st i r now = st"
  by (auto simp: window_rl_store_def rate_limit_target_def Let_def split: if_splits)

lemma rate_limit_target_None: "rate_limit_target r now = None \<longleftrightarrow> rateLimitResetTargets r now = (None, None)"
  by (auto simp: rate_limit_target_def Let_def)

lemma BumpRateLimitUsage_row:
  assumes "wf_hot st" "LoadRateLimit st i = Some r" "sound_rate_limit r"
  shows "BumpRateLimitUsage n now st i k ut ur =
    map_option (\<lambda>r'. put_rate_limit i r' (window_rl_store st i r now))
      (rw.bump_row n now (charge_rate_limit k ut ur) r)"
  using assms
proof (induction n arbitrary: st r)
  case 0
  then show ?case by simp
next
  case (Suc n)
  show ?case
  proof (cases "rate_limit_target r now")
    case None
    with Suc.prems None [unfolded rate_limit_target_None] show ?thesis by (simp add: window_rl_store_none)
  next
    case (Some t)
    let ?r = "close_rate_limit t r"
    let ?st = "put_rate_limit i ?r (window_rl_store st i r now)"
    have id: "rl_ID ?r = i" using wf_hot_rate_limit [OF Suc.prems(1,2)] by simp
    have c: "rate_limit_target ?r now = None" using Suc.prems(3) Some by (rule rate_limit_closed)
    have s: "sound_rate_limit ?r" using Suc.prems(3) by (simp add: sound_close_rate_limit)
    have ih: "BumpRateLimitUsage n now ?st i k ut ur =
        map_option (\<lambda>r'. put_rate_limit i r' (window_rl_store ?st i ?r now))
          (rw.bump_row n now (charge_rate_limit k ut ur) ?r)"
      by (rule Suc.IH [OF _ _ s]) (use Suc.prems(1) id in simp_all)
    have "rateLimitResetTargets r now \<noteq> (None, None)"
      using Some rate_limit_target_None [of r now] by auto
    with Suc.prems Some show ?thesis
      by (simp add: reset_one_rate_limit [OF Suc.prems Some] ih window_rl_store_none [OF c])
  qed
qed

lemma BumpRateLimitUsage_settles:
  assumes "wf_hot st" "LoadRateLimit st i = Some r" "sound_rate_limit r" "2 \<le> n"
  shows "BumpRateLimitUsage n now st i k ut ur =
    Some (put_rate_limit i (charge_rate_limit k ut ur (rw.settle now r)) (window_rl_store st i r now))"
  by (simp add: BumpRateLimitUsage_row [OF assms(1-3)] rw.bump_row_settle [OF assms(3,4)])

lemma BumpRateLimitUsage_absent:
  "LoadRateLimit st i = None \<Longrightarrow> 1 \<le> n \<Longrightarrow> BumpRateLimitUsage n now st i k ut ur = Some st"
  by (cases n) simp_all

subsection \<open>Properties\<close>

lemma sound_of_BeforeSave: "budget_BeforeSave b = None \<Longrightarrow> sound_budget b"
  by (auto simp: budget_BeforeSave_accepts sound_budget_def sound_window_def)

lemma sound_rate_limit_of_BeforeSave: "rate_limit_BeforeSave r = None \<Longrightarrow> sound_rate_limit r"
  by (auto simp: rate_limit_BeforeSave_accepts sound_rate_limit_def sound_window_def split: option.splits)

text \<open>
  C27. Charging a budget that the save hook accepted returns after at most two iterations of
  the loop. The stored row is the old one with its window closed if it was over (usage zero,
  \<^verbatim>\<open>LastReset\<close> moved) and then the cost added; every other budget and every rate limit is
  untouched.
\<close>

theorem bump_budget_charges:
  assumes "wf_hot st" "LoadBudget st i = Some b" "budget_BeforeSave b = None" "2 \<le> n"
  shows "\<exists>st'. BumpBudgetUsage n now st i cost = Some st' \<and>
    LoadBudget st' i = Some (case budgetResetTarget b now of
        None \<Rightarrow> b\<lparr>bg_CurrentUsage := bg_CurrentUsage b + cost\<rparr>
      | Some t \<Rightarrow> b\<lparr>bg_CurrentUsage := cost, bg_LastReset := t\<rparr>) \<and>
    (\<forall>k. k \<noteq> i \<longrightarrow> LoadBudget st' k = LoadBudget st k) \<and>
    (\<forall>k. LoadRateLimit st' k = LoadRateLimit st k) \<and> wf_hot st'"
proof -
  have "charge_budget cost (bw.settle now b) = (case budgetResetTarget b now of
        None \<Rightarrow> b\<lparr>bg_CurrentUsage := bg_CurrentUsage b + cost\<rparr>
      | Some t \<Rightarrow> b\<lparr>bg_CurrentUsage := cost, bg_LastReset := t\<rparr>)"
    by (simp add: charge_budget_def bw.settle_def reset_budget_def split: option.split)
  moreover
  have "bg_ID (charge_budget cost (bw.settle now b)) = i"
    using wf_hot_budget [OF assms(1,2)] by (simp add: charge_budget_def bw.settle_def split: option.split)
  ultimately show ?thesis
    using assms(1) BumpBudgetUsage_settles [OF assms(1,2) sound_of_BeforeSave [OF assms(3)] assms(4), of now cost]
    by simp
qed

definition hour_budget :: budget where
  "hour_budget = \<lparr>bg_ID = ''b'', bg_MaxLimit = 10, bg_ResetDuration = ''1h'', bg_LastReset = 0,
     bg_CurrentUsage = 9, bg_TeamID = None, bg_VirtualKeyID = None, bg_ProviderConfigID = None,
     bg_ModelConfigID = None, bg_CustomerID = None, bg_UserID = None, bg_IsCalendarAligned = False\<rparr>"

definition empty_store :: gov_store where
  "empty_store = \<lparr>st_budgets = [], st_rateLimits = [], st_lastDBBudgets = [], st_lastDBTokens = [],
     st_lastDBRequests = [], st_virtualKeys = [], st_virtualKeysByID = [], st_teams = [],
     st_customers = [], st_modelConfigs = [], st_providers = [], st_users = [],
     st_routingRules = [], st_businessUnitsByTeam = [], st_modelCatalog = None\<rparr>"

definition hour_store :: gov_store where
  "hour_store = put_budget ''b'' hour_budget empty_store"

lemma parse_1h: "ParseDuration ''1h'' = Some 3600000000000"
  by code_simp

lemma wf_empty_store [simp]: "wf_hot empty_store"
  by (simp add: wf_hot_def empty_store_def)

lemma hour_store_facts:
  "wf_hot hour_store" "LoadBudget hour_store ''b'' = Some hour_budget" "budget_BeforeSave hour_budget = None"
  unfolding budget_BeforeSave_accepts
  by (simp_all add: hour_store_def hour_budget_def parse_1h count_some_def)

theorem bump_budget_charges_witness:
  "\<exists>st'. BumpBudgetUsage 2 (2 * hour) hour_store ''b'' 3 = Some st' \<and>
    (\<exists>b. LoadBudget st' ''b'' = Some b \<and> bg_CurrentUsage b = 3 \<and> bg_LastReset b = 2 * hour)"
proof -
  have t: "budgetResetTarget hour_budget (2 * hour) = Some (2 * hour)"
    by (simp add: budgetResetTarget_def reset_target_def hour_budget_def parse_1h time_units
        time_sub_def int64_min_def int64_max_def)
  have "2 \<le> (2::nat)" by simp
  from bump_budget_charges [OF hour_store_facts this, of "2 * hour" 3] t
  show ?thesis by (auto simp: charge_budget_def)
qed

text \<open>
  The same for a rate limit: after at most two iterations the token and request counters
  whose windows were over have been set to zero, and then the tokens and the request are added
  with \<^verbatim>\<open>int64\<close> wrap-around; no other row changes.
\<close>

lemma bump_rate_limit_charges:
  assumes "wf_hot st" "LoadRateLimit st i = Some r" "rate_limit_BeforeSave r = None" "2 \<le> n"
  shows "\<exists>st'. BumpRateLimitUsage n now st i k ut ur = Some st' \<and>
    (let (tt, tr) = rateLimitResetTargets r now;
         moved = (\<lambda>target last. case target of None \<Rightarrow> False | Some t \<Rightarrow> last < t);
         tok = moved tt (rl_TokenLastReset r); req = moved tr (rl_RequestLastReset r);
         tokens = (if tok then 0 else rl_TokenCurrentUsage r); requests = (if req then 0 else rl_RequestCurrentUsage r)
     in LoadRateLimit st' i = Some (r\<lparr>
          rl_TokenCurrentUsage := (if ut then wrap64 (tokens + k) else tokens),
          rl_TokenLastReset := (if tok then the tt else rl_TokenLastReset r),
          rl_RequestCurrentUsage := (if ur then wrap64 (requests + 1) else requests),
          rl_RequestLastReset := (if req then the tr else rl_RequestLastReset r)\<rparr>)) \<and>
    (\<forall>j. j \<noteq> i \<longrightarrow> LoadRateLimit st' j = LoadRateLimit st j) \<and>
    (\<forall>j. LoadBudget st' j = LoadBudget st j)"
proof -
  obtain tt tr where t: "rateLimitResetTargets r now = (tt, tr)" by fastforce
  have "rw.settle now r = close_rate_limit (rateLimitResetTargets r now) r"
    by (auto simp: rw.settle_def rate_limit_target_def Let_def close_rate_limit_def
        reset_token_counter_def reset_request_counter_def)
  then show ?thesis
    using BumpRateLimitUsage_settles [OF assms(1,2) sound_rate_limit_of_BeforeSave [OF assms(3)] assms(4), of now k ut ur]
    by (auto simp: t Let_def charge_rate_limit_def close_rate_limit_def reset_token_counter_def reset_request_counter_def
        split: option.splits)
qed

definition hour_rate_limit :: rate_limit where
  "hour_rate_limit = \<lparr>rl_ID = ''r'', rl_TokenMaxLimit = Some 100, rl_TokenResetDuration = Some ''1h'',
     rl_TokenCurrentUsage = 90, rl_TokenLastReset = 0, rl_RequestMaxLimit = None,
     rl_RequestResetDuration = None, rl_RequestCurrentUsage = 4, rl_RequestLastReset = 0,
     rl_IsCalendarAligned = False\<rparr>"

lemma hour_rate_limit_facts:
  "wf_hot (put_rate_limit ''r'' hour_rate_limit empty_store)"
  "LoadRateLimit (put_rate_limit ''r'' hour_rate_limit empty_store) ''r'' = Some hour_rate_limit"
  "rate_limit_BeforeSave hour_rate_limit = None"
  unfolding rate_limit_BeforeSave_accepts by (simp_all add: hour_rate_limit_def parse_1h)

lemma bump_rate_limit_charges_witness:
  "\<exists>st' r. BumpRateLimitUsage 2 (2 * hour) (put_rate_limit ''r'' hour_rate_limit empty_store) ''r'' 7 True True = Some st' \<and>
     LoadRateLimit st' ''r'' = Some r \<and> rl_TokenCurrentUsage r = 7 \<and> rl_RequestCurrentUsage r = 5"
proof -
  have t: "rateLimitResetTargets hour_rate_limit (2 * hour) = (Some (2 * hour), None)"
    by (simp add: rateLimitResetTargets_def rateLimitResetTarget_def reset_target_def hour_rate_limit_def
        parse_1h time_units time_sub_def int64_min_def int64_max_def)
  have "2 \<le> (2::nat)" by simp
  from bump_rate_limit_charges [OF hour_rate_limit_facts this, of "2 * hour" 7 True True] t
  show ?thesis
    by (auto simp: charge_rate_limit_def close_rate_limit_def reset_token_counter_def reset_request_counter_def
        hour_rate_limit_def time_units wrap64_def Let_def)
qed

text \<open>
  C32. A budget whose reset duration is zero or negative (the config-file path stores rows
  without the save hook) makes the increment loop run forever: no number of iterations is enough.
\<close>

theorem bump_budget_diverges:
  assumes "wf_hot st" "LoadBudget st i = Some b" "\<not> bg_IsCalendarAligned b"
    "ParseDuration (bg_ResetDuration b) = Some d" "d \<le> 0" "bg_LastReset b \<le> now"
  shows "\<forall>n. BumpBudgetUsage n now st i cost = None"
  using BumpBudgetUsage_nonpositive [OF assms] by blast

theorem bump_budget_diverges_witness:
  "\<forall>n. BumpBudgetUsage n 5 (put_budget ''b'' (hour_budget\<lparr>bg_ResetDuration := ''0h''\<rparr>) empty_store) ''b'' 1 = None"
proof -
  have "ParseDuration ''0h'' = Some 0" by code_simp
  then show ?thesis
    by (intro bump_budget_diverges [where b = "hour_budget\<lparr>bg_ResetDuration := ''0h''\<rparr>" and d = 0])
      (simp_all add: hour_budget_def)
qed

end
