(* ===== verification/GovChecks.thy ===== *)
theory GovChecks
  imports GovStore
begin

text \<open>
  The level checks of plugins/governance/store.go: \<^verbatim>\<open>CheckRateLimit\<close> and
  \<^verbatim>\<open>CheckBudget\<close> over a map from entity to rows, and the checks of a provider, the
  model configs, a team, a customer, a user and the hierarchy of a virtual key.

  A Go map that is only ranged over is an association list in the order of the range. The
  maps that the composite checks build are in the order of construction; the verdict does not
  depend on that order (\<open>CheckBudget_allow\<close>, \<open>CheckRateLimit_allow\<close>). A nil
  baselines map reads as the empty one.
\<close>

datatype decision = DecisionAllow | DecisionVirtualKeyNotFound | DecisionVirtualKeyBlocked
  | DecisionRateLimited | DecisionBudgetExceeded | DecisionTokenLimited | DecisionRequestLimited
  | DecisionModelBlocked | DecisionProviderBlocked | DecisionMCPToolBlocked

datatype gov_error = NilVirtualKey | RateLimitViolated string "string list"
  | BudgetViolated string float64 float64

type_synonym verdict = "decision \<times> gov_error option"

record evaluation_request =
  er_VirtualKey :: string
  er_Provider :: string
  er_Model :: string
  er_UserID :: string

subsection \<open>The two generic checks\<close>

definition limit_expired :: "string option \<Rightarrow> instant \<Rightarrow> instant \<Rightarrow> bool" where
  "limit_expired dur lastReset now =
     (case dur of
        None \<Rightarrow> False
      | Some d \<Rightarrow> (case ParseDuration d of None \<Rightarrow> False | Some p \<Rightarrow> p \<le> time_sub now lastReset))"

definition baseline_of :: "'v::zero smap \<Rightarrow> string \<Rightarrow> 'v" where
  "baseline_of m k = (case sm_load m k of None \<Rightarrow> 0 | Some v \<Rightarrow> v)"

definition violation_text :: "string \<Rightarrow> int \<Rightarrow> int \<Rightarrow> string option \<Rightarrow> string" where
  "violation_text what usage limit dur =
     what @ '' limit exceeded ('' @ show_int usage @ ''/'' @ show_int limit @ '', resets every '' @
     (case dur of None \<Rightarrow> ''unknown'' | Some d \<Rightarrow> d) @ '')''"

definition token_violation :: "instant \<Rightarrow> int smap \<Rightarrow> rate_limit \<Rightarrow> string list" where
  "token_violation now tb r =
     (let total = wrap64 (rl_TokenCurrentUsage r + baseline_of tb (rl_ID r)) in
      case rl_TokenMaxLimit r of
        None \<Rightarrow> []
      | Some m \<Rightarrow>
          if \<not> limit_expired (rl_TokenResetDuration r) (rl_TokenLastReset r) now \<and> m \<le> total
          then [violation_text ''token'' total m (rl_TokenResetDuration r)] else [])"

definition request_violation :: "instant \<Rightarrow> int smap \<Rightarrow> rate_limit \<Rightarrow> string list" where
  "request_violation now rb r =
     (let total = wrap64 (rl_RequestCurrentUsage r + baseline_of rb (rl_ID r)) in
      case rl_RequestMaxLimit r of
        None \<Rightarrow> []
      | Some m \<Rightarrow>
          if \<not> limit_expired (rl_RequestResetDuration r) (rl_RequestLastReset r) now \<and> m \<le> total
          then [violation_text ''request'' total m (rl_RequestResetDuration r)] else [])"

definition violations_decision :: "string list \<Rightarrow> decision" where
  "violations_decision vs =
     (if length vs = 1 then
        (if str_contains (hd vs) ''token'' then DecisionTokenLimited
         else if str_contains (hd vs) ''request'' then DecisionRequestLimited
         else DecisionRateLimited)
      else DecisionRateLimited)"

definition check_rate_limit_row ::
  "instant \<Rightarrow> int smap \<Rightarrow> int smap \<Rightarrow> string \<Rightarrow> rate_limit \<Rightarrow> verdict option" where
  "check_rate_limit_row now tb rb entity r =
     (let violations = token_violation now tb r @ request_violation now rb r in
      if violations = [] then None
      else Some (violations_decision violations, Some (RateLimitViolated entity violations)))"

definition verdict_of :: "verdict option \<Rightarrow> verdict" where
  "verdict_of v = (case v of None \<Rightarrow> (DecisionAllow, None) | Some d \<Rightarrow> d)"

definition CheckRateLimit ::
  "instant \<Rightarrow> rate_limit list smap \<Rightarrow> int smap \<Rightarrow> int smap \<Rightarrow> verdict" where
  "CheckRateLimit now entityWiseRateLimits tb rb =
     verdict_of (first_some (\<lambda>(entity, rls). first_some (check_rate_limit_row now tb rb entity) rls)
       entityWiseRateLimits)"

definition budget_expired :: "instant \<Rightarrow> budget \<Rightarrow> bool" where
  "budget_expired now b \<longleftrightarrow>
     bg_ResetDuration b \<noteq> [] \<and> limit_expired (Some (bg_ResetDuration b)) (bg_LastReset b) now"

definition check_budget_row :: "instant \<Rightarrow> float64 smap \<Rightarrow> string \<Rightarrow> budget \<Rightarrow> verdict option" where
  "check_budget_row now baselines entity b =
     (if budget_expired now b then None
      else let total = bg_CurrentUsage b + baseline_of baselines (bg_ID b) in
        if bg_MaxLimit b \<le> total
        then Some (DecisionBudgetExceeded, Some (BudgetViolated entity total (bg_MaxLimit b)))
        else None)"

definition CheckBudget :: "instant \<Rightarrow> budget list smap \<Rightarrow> float64 smap \<Rightarrow> verdict" where
  "CheckBudget now entityWiseBudgets baselines =
     verdict_of (first_some (\<lambda>(entity, bs). first_some (check_budget_row now baselines entity) bs)
       entityWiseBudgets)"

lemmas check_rows [check_defs] = check_rate_limit_row_def check_budget_row_def

lemma verdict_of_simps [simp]: "verdict_of None = (DecisionAllow, None)" "verdict_of (Some v) = v"
  by (simp_all add: verdict_of_def)

definition rl_within :: "instant \<Rightarrow> int smap \<Rightarrow> int smap \<Rightarrow> rate_limit \<Rightarrow> bool" where
  "rl_within now tb rb r \<longleftrightarrow>
     (case rl_TokenMaxLimit r of None \<Rightarrow> True | Some m \<Rightarrow>
        limit_expired (rl_TokenResetDuration r) (rl_TokenLastReset r) now \<or>
        wrap64 (rl_TokenCurrentUsage r + baseline_of tb (rl_ID r)) < m) \<and>
     (case rl_RequestMaxLimit r of None \<Rightarrow> True | Some m \<Rightarrow>
        limit_expired (rl_RequestResetDuration r) (rl_RequestLastReset r) now \<or>
        wrap64 (rl_RequestCurrentUsage r + baseline_of rb (rl_ID r)) < m)"

definition budget_within :: "instant \<Rightarrow> float64 smap \<Rightarrow> budget \<Rightarrow> bool" where
  "budget_within now baselines b \<longleftrightarrow>
     budget_expired now b \<or> bg_CurrentUsage b + baseline_of baselines (bg_ID b) < bg_MaxLimit b"

lemma check_rate_limit_row_None:
  "check_rate_limit_row now tb rb e r = None \<longleftrightarrow> rl_within now tb rb r"
  by (auto simp: check_rate_limit_row_def token_violation_def request_violation_def rl_within_def
      Let_def split: option.splits)

lemma check_budget_row_None: "check_budget_row now bl e b = None \<longleftrightarrow> budget_within now bl b"
  by (auto simp: check_budget_row_def budget_within_def Let_def)

lemma violations_decision_deny:
  "violations_decision vs \<in> {DecisionRateLimited, DecisionTokenLimited, DecisionRequestLimited}"
  by (simp add: violations_decision_def)

lemma CheckRateLimit_allow:
  "fst (CheckRateLimit now m tb rb) = DecisionAllow \<longleftrightarrow> (\<forall>(e, rs)\<in>set m. \<forall>r\<in>set rs. rl_within now tb rb r)"
proof (cases "first_some (\<lambda>(e, rls). first_some (check_rate_limit_row now tb rb e) rls) m")
  case None
  then have "\<forall>(e, rs)\<in>set m. \<forall>r\<in>set rs. rl_within now tb rb r"
    by (auto simp: first_some_None check_rate_limit_row_None)
  with None show ?thesis by (simp add: CheckRateLimit_def)
next
  case (Some v)
  from first_some_SomeD [OF Some] obtain e rs where m: "(e, rs) \<in> set m"
    and v: "first_some (check_rate_limit_row now tb rb e) rs = Some v" by auto
  from first_some_SomeD [OF v] obtain r where r: "r \<in> set rs" "check_rate_limit_row now tb rb e r = Some v"
    by blast
  then have "\<not> rl_within now tb rb r" using check_rate_limit_row_None [of now tb rb e r] by simp
  moreover from r(2) violations_decision_deny have "fst v \<noteq> DecisionAllow"
    by (auto simp: check_rate_limit_row_def Let_def violations_decision_def split: if_splits)
  ultimately show ?thesis using m r Some by (auto simp: CheckRateLimit_def)
qed

lemma CheckBudget_allow:
  "fst (CheckBudget now m bl) = DecisionAllow \<longleftrightarrow> (\<forall>(e, bs)\<in>set m. \<forall>b\<in>set bs. budget_within now bl b)"
proof (cases "first_some (\<lambda>(e, bs). first_some (check_budget_row now bl e) bs) m")
  case None
  then have "\<forall>(e, bs)\<in>set m. \<forall>b\<in>set bs. budget_within now bl b"
    by (auto simp: first_some_None check_budget_row_None)
  with None show ?thesis by (simp add: CheckBudget_def)
next
  case (Some v)
  from first_some_SomeD [OF Some] obtain e bs where m: "(e, bs) \<in> set m"
    and v: "first_some (check_budget_row now bl e) bs = Some v" by auto
  from first_some_SomeD [OF v] obtain b where b: "b \<in> set bs" "check_budget_row now bl e b = Some v"
    by blast
  then have "\<not> budget_within now bl b" using check_budget_row_None [of now bl e b] by simp
  moreover from b(2) have "fst v \<noteq> DecisionAllow"
    by (auto simp: check_budget_row_def Let_def split: if_splits)
  ultimately show ?thesis using m b Some by (auto simp: CheckBudget_def)
qed

text \<open>The contract of the interface: an error comes with a denial and only with one.\<close>

definition rate_verdict_ok :: "verdict \<Rightarrow> bool" where
  "rate_verdict_ok v \<longleftrightarrow> v = (DecisionAllow, None) \<or>
     (fst v \<in> {DecisionRateLimited, DecisionTokenLimited, DecisionRequestLimited} \<and> snd v \<noteq> None)"

definition budget_verdict_ok :: "verdict \<Rightarrow> bool" where
  "budget_verdict_ok v \<longleftrightarrow> v = (DecisionAllow, None) \<or> (fst v = DecisionBudgetExceeded \<and> snd v \<noteq> None)"

lemma allow_verdict_ok [simp]:
  "rate_verdict_ok (DecisionAllow, None)" "budget_verdict_ok (DecisionAllow, None)"
  by (simp_all add: rate_verdict_ok_def budget_verdict_ok_def)

lemma CheckRateLimit_ok [simp]: "rate_verdict_ok (CheckRateLimit now m tb rb)"
  by (auto simp: CheckRateLimit_def verdict_of_def rate_verdict_ok_def check_rate_limit_row_def
      violations_decision_def Let_def split: option.splits if_splits dest!: first_some_SomeD)

lemma CheckBudget_ok [simp]: "budget_verdict_ok (CheckBudget now m bl)"
  by (auto simp: CheckBudget_def verdict_of_def budget_verdict_ok_def check_budget_row_def
      Let_def split: option.splits if_splits dest!: first_some_SomeD)

subsection \<open>Properties\<close>

lemma budget_expired_rolling:
  "\<not> bg_IsCalendarAligned b \<Longrightarrow> budget_expired now b \<longleftrightarrow> budgetResetTarget b now \<noteq> None"
  by (auto simp: budget_expired_def budgetResetTarget_def limit_expired_def reset_target_def split: option.splits)

text \<open>
  The generic budget check allows exactly when no listed budget is at or over its limit
  (its own usage plus the baseline of the other nodes), leaving out the budgets whose rolling
  window is over; otherwise it answers \<^verbatim>\<open>budget_exceeded\<close> with an error, never one
  without the other.
\<close>

lemma budget_check_verdict:
  "budget_verdict_ok (CheckBudget now m bl) \<and>
   (fst (CheckBudget now m bl) = DecisionAllow \<longleftrightarrow> (\<forall>b \<in> (\<Union>(e, bs)\<in>set m. set bs). budget_within now bl b))"
  by (auto simp: CheckBudget_allow)

lemma budget_check_verdict_witness:
  "fst (CheckBudget 0 [(''VK'', [hour_budget])] []) = DecisionAllow"
proof -
  have "budget_within 0 [] hour_budget"
    by (simp add: budget_within_def baseline_of_def hour_budget_def)
  with budget_check_verdict [of 0 "[(''VK'', [hour_budget])]" "[]"] show ?thesis by simp
qed

text \<open>
  The decision of a violated rate limit names the counter: only the token counter over its
  limit gives \<^verbatim>\<open>token_limited\<close>, only the request counter \<^verbatim>\<open>request_limited\<close>, both
  \<^verbatim>\<open>rate_limited\<close>. The code finds this out by searching the rendered messages for the word
  \<^verbatim>\<open>token\<close>; it is right when the request counter has a reset duration without the letter k.
\<close>

lemma k_not_in_request_text:
  assumes "CHR ''k'' \<notin> set dur"
  shows "CHR ''k'' \<notin> set (violation_text ''request'' u m (Some dur))"
proof -
  have "CHR ''k'' \<notin> set (show_int i)" for i by (rule letter_not_in_show_int) code_simp
  then show ?thesis using assms by (auto simp: violation_text_def)
qed

lemma violation_text_contains: "str_contains (violation_text what u m dur) what"
  unfolding violation_text_def str_contains_iff by (rule exI [of _ "[]"]) simp

lemma token_violation_cases:
  "token_violation now tb r = [] \<or> (\<exists>u m. token_violation now tb r = [violation_text ''token'' u m (rl_TokenResetDuration r)])"
  by (auto simp: token_violation_def Let_def split: option.split)

lemma request_violation_cases:
  "request_violation now rb r = [] \<or> (\<exists>u m. request_violation now rb r = [violation_text ''request'' u m (rl_RequestResetDuration r)])"
  by (auto simp: request_violation_def Let_def split: option.split)

lemma rate_limit_decision:
  assumes "rl_RequestResetDuration r = Some dur" "CHR ''k'' \<notin> set dur"
    and "check_rate_limit_row now tb rb e r = Some (d, err)"
  shows "d = (if token_violation now tb r \<noteq> [] \<and> request_violation now rb r \<noteq> [] then DecisionRateLimited
              else if token_violation now tb r \<noteq> [] then DecisionTokenLimited else DecisionRequestLimited)"
proof -
  have d: "d = violations_decision (token_violation now tb r @ request_violation now rb r)"
    and ne: "token_violation now tb r @ request_violation now rb r \<noteq> []"
    using assms(3) by (auto simp: check_rate_limit_row_def Let_def split: if_splits)
  have q: "\<not> str_contains (violation_text ''request'' u m (rl_RequestResetDuration r)) ''token''" for u m
    using k_not_in_request_text [OF assms(2), of u m] assms(1)
      str_contains_set [of "violation_text ''request'' u m (rl_RequestResetDuration r)" "''token''"] by auto
  show ?thesis
    using token_violation_cases [of now tb r] request_violation_cases [of now rb r] ne
    by (auto simp: d violations_decision_def violation_text_contains q)
qed

lemma rate_limit_decision_witness:
  "fst (the (check_rate_limit_row 0 [(''r'', 10)] [] ''VK'' (hour_rate_limit\<lparr>rl_RequestResetDuration := Some ''1h''\<rparr>)))
     = DecisionTokenLimited"
proof -
  let ?r = "hour_rate_limit\<lparr>rl_RequestResetDuration := Some ''1h''\<rparr>"
  have t: "token_violation 0 [(''r'', 10)] ?r \<noteq> []"
    by (simp add: token_violation_def hour_rate_limit_def baseline_of_def sm_load_def wrap64_def
        limit_expired_def parse_1h)
  have q: "request_violation 0 [] ?r = []"
    by (simp add: request_violation_def hour_rate_limit_def)
  have k: "rl_RequestResetDuration ?r = Some ''1h''" "CHR ''k'' \<notin> set ''1h''" by simp_all
  obtain d err where c: "check_rate_limit_row 0 [(''r'', 10)] [] ''VK'' ?r = Some (d, err)"
    using t by (auto simp: check_rate_limit_row_def Let_def)
  from rate_limit_decision [OF k c] t q c show ?thesis by simp
qed

text \<open>
  For a rolling window the check and the reset path agree: a budget is left out of the
  check exactly when the next increment would reset it.
\<close>

lemma rolling_check_agrees_with_reset:
  assumes "\<not> bg_IsCalendarAligned b"
  shows "budget_expired now b \<longleftrightarrow> budgetResetTarget b now \<noteq> None"
  using assms by (rule budget_expired_rolling)

lemma rolling_check_agrees_with_reset_witness:
  "budget_expired (2 * hour) hour_budget \<longleftrightarrow> budgetResetTarget hour_budget (2 * hour) \<noteq> None"
  by (rule rolling_check_agrees_with_reset) (simp add: hour_budget_def)

text \<open>
  For a calendar-aligned window they do not agree: the check measures the window by the
  rolling length (a month is thirty days), so on the 31st of January a monthly budget that is
  five times over its limit is not checked, while the reset path says that its period is not over.
\<close>

definition january_budget :: budget where
  "january_budget = hour_budget\<lparr>bg_ResetDuration := ''1M'', bg_IsCalendarAligned := True,
     bg_LastReset := date_utc 2025 1 1, bg_CurrentUsage := 50\<rparr>"

lemma calendar_check_disagrees_with_reset:
  "fst (CheckBudget (date_utc 2025 1 31) [(''VK'', [january_budget])] []) = DecisionAllow \<and>
   budgetResetTarget january_budget (date_utc 2025 1 31) = None \<and>
   5 * bg_MaxLimit january_budget = bg_CurrentUsage january_budget \<and>
   fst (CheckBudget (date_utc 2025 1 30) [(''VK'', [january_budget])] []) = DecisionBudgetExceeded"
  by code_simp

end
