(* ===== verification/GovHierarchy.thy ===== *)
theory GovHierarchy
  imports GovChecks "HOL-Library.Multiset"
begin

text \<open>
  Which limits a request meets (plugins/governance/store.go): the model configs of a scope in
  four tiers, the budgets and rate limits of a virtual key, its provider configs, team and
  customer, the level checks over them, the usage updates after the response, and the list
  of charged identifiers stamped on the log row.
\<close>

subsection \<open>Model configs\<close>

definition modelConfigStoreKey :: "string \<Rightarrow> string \<Rightarrow> string \<Rightarrow> string option \<Rightarrow> string" where
  "modelConfigStoreKey scope scopeID modelKey provider =
     (let base = (case provider of None \<Rightarrow> modelKey | Some p \<Rightarrow> modelKey @ '':'' @ p)
      in if scope = [] \<or> scope = ModelConfigScopeGlobal then base
         else scope @ '':'' @ scopeID @ '':'' @ base)"

definition nonGlobalModelConfigScopeChain :: "virtual_key \<Rightarrow> (string \<times> string) list" where
  "nonGlobalModelConfigScopeChain vk = [(ModelConfigScopeVirtualKey, vk_ID vk)]"

definition load_model_config ::
  "gov_store \<Rightarrow> string \<Rightarrow> string \<Rightarrow> string \<Rightarrow> string option \<Rightarrow> model_config option" where
  "load_model_config st scope scopeID modelKey provider =
     sm_load (st_modelConfigs st) (modelConfigStoreKey scope scopeID modelKey provider)"

definition findScopedModelOnlyConfig ::
  "gov_store \<Rightarrow> string \<Rightarrow> string \<Rightarrow> string \<Rightarrow> (model_config \<times> string) option" where
  "findScopedModelOnlyConfig st scope scopeID model =
     (let tryKey = (\<lambda>modelKey. map_option (\<lambda>mc. (mc, modelKey)) (load_model_config st scope scopeID modelKey None))
      in case st_modelCatalog st of
           None \<Rightarrow> tryKey model
         | Some base \<Rightarrow>
             if base model \<noteq> model then
               (case tryKey (base model) of Some r \<Rightarrow> Some r | None \<Rightarrow> tryKey model)
             else tryKey model)"

definition extractModelAndProvider :: "evaluation_request option \<Rightarrow> string \<times> string option" where
  "extractModelAndProvider request =
     (case request of
        None \<Rightarrow> ([], None)
      | Some r \<Rightarrow> (er_Model r, if er_Provider r \<noteq> [] then Some (er_Provider r) else None))"

definition add_config :: "model_config option \<Rightarrow> model_config list \<Rightarrow> model_config list" where
  "add_config mc acc =
     (case mc of
        None \<Rightarrow> acc
      | Some c \<Rightarrow> if mc_ID c \<in> set (map mc_ID acc) then acc else acc @ [c])"

definition collectModelConfigsFor ::
  "gov_store \<Rightarrow> string \<Rightarrow> string \<Rightarrow> string \<Rightarrow> string option \<Rightarrow> model_config list" where
  "collectModelConfigsFor st scope scopeID model provider =
     (let loadKey = load_model_config st scope scopeID;
          out1 = (if provider \<noteq> None then add_config (loadKey model provider) [] else []);
          out2 = add_config (map_option fst (findScopedModelOnlyConfig st scope scopeID model)) out1;
          out3 = (if provider \<noteq> None then add_config (loadKey ModelConfigAllModels provider) out2 else out2)
      in add_config (loadKey ModelConfigAllModels None) out3)"

definition modelConfigEntityKey :: "model_config \<Rightarrow> string" where
  "modelConfigEntityKey mc =
     (let name = (if mc_ModelName mc = ModelConfigAllModels then ''AllModels'' else mc_ModelName mc);
          key1 = ''Model:'' @ name;
          key2 = (case mc_Provider mc of None \<Rightarrow> key1 | Some p \<Rightarrow> key1 @ '':Provider:'' @ p)
      in if mc_Scope mc \<noteq> [] \<and> mc_Scope mc \<noteq> ModelConfigScopeGlobal
         then key2 @ '':'' @ mc_Scope mc @ '':'' @ (case mc_ScopeID mc of None \<Rightarrow> [] | Some i \<Rightarrow> i)
         else key2)"

definition load_budgets :: "gov_store \<Rightarrow> budget list \<Rightarrow> budget list" where
  "load_budgets st bs = List.map_filter (\<lambda>b. LoadBudget st (bg_ID b)) bs"

definition loadModelConfigBudgets :: "gov_store \<Rightarrow> model_config \<Rightarrow> budget list" where
  "loadModelConfigBudgets st mc = load_budgets st (mc_Budgets mc)"

fun model_budget_entities :: "gov_store \<Rightarrow> model_config list \<Rightarrow> budget list smap \<Rightarrow> budget list smap" where
  "model_budget_entities st [] m = m"
| "model_budget_entities st (mc # mcs) m =
     model_budget_entities st mcs
       (let bs = loadModelConfigBudgets st mc in
        if bs \<noteq> [] then sm_store (modelConfigEntityKey mc) bs m else m)"

fun model_rate_limit_entities ::
  "gov_store \<Rightarrow> model_config list \<Rightarrow> rate_limit list smap \<Rightarrow> rate_limit list smap" where
  "model_rate_limit_entities st [] m = m"
| "model_rate_limit_entities st (mc # mcs) m =
     model_rate_limit_entities st mcs
       (case mc_RateLimitID mc of
          None \<Rightarrow> m
        | Some i \<Rightarrow> (case LoadRateLimit st i of
              None \<Rightarrow> m
            | Some r \<Rightarrow> sm_store (modelConfigEntityKey mc) [r] m))"

subsection \<open>The hierarchy of a virtual key\<close>

definition sm_append :: "string \<Rightarrow> 'v \<Rightarrow> 'v list smap \<Rightarrow> 'v list smap" where
  "sm_append k x m = sm_store k ((case sm_load m k of None \<Rightarrow> [] | Some xs \<Rightarrow> xs) @ [x]) m"

text \<open>One loop over embedded budgets: the live row of each, under a category; with
  \<open>check\<close> the rows already seen are skipped. The state is the map and the seen set.\<close>

type_synonym budget_acc = "budget list smap \<times> string list"

fun collect_budgets :: "gov_store \<Rightarrow> bool \<Rightarrow> string \<Rightarrow> budget list \<Rightarrow> budget_acc \<Rightarrow> budget_acc" where
  "collect_budgets st check cat [] acc = acc"
| "collect_budgets st check cat (b # bs) (m, seen) =
     collect_budgets st check cat bs
       (if check \<and> bg_ID b \<in> set seen then (m, seen)
        else case LoadBudget st (bg_ID b) of
            None \<Rightarrow> (m, seen)
          | Some live \<Rightarrow> (sm_append cat live m, bg_ID live # seen))"

fun collect_pc_budgets :: "gov_store \<Rightarrow> string \<Rightarrow> provider_config list \<Rightarrow> budget_acc \<Rightarrow> budget_acc" where
  "collect_pc_budgets st provider [] acc = acc"
| "collect_pc_budgets st provider (pc # pcs) acc =
     collect_pc_budgets st provider pcs
       (if pc_Provider pc \<noteq> provider then acc
        else collect_budgets st True (pc_Provider pc) (pc_Budgets pc) acc)"

definition collect_customer_budgets :: "gov_store \<Rightarrow> string \<Rightarrow> budget_acc \<Rightarrow> budget_acc" where
  "collect_customer_budgets st customerID acc =
     (case sm_load (st_customers st) customerID of
        None \<Rightarrow> acc
      | Some c \<Rightarrow> collect_budgets st False ''Customer'' (cu_Budgets c) acc)"

definition team_of_vk :: "gov_store \<Rightarrow> virtual_key \<Rightarrow> team option" where
  "team_of_vk st vk = (case vk_TeamID vk of None \<Rightarrow> None | Some i \<Rightarrow> sm_load (st_teams st) i)"

definition teamCustomerID_of :: "gov_store \<Rightarrow> virtual_key \<Rightarrow> string" where
  "teamCustomerID_of st vk =
     (case team_of_vk st vk of
        None \<Rightarrow> []
      | Some t \<Rightarrow> (case tm_CustomerID t of None \<Rightarrow> [] | Some c \<Rightarrow> c))"

definition charged_customers :: "gov_store \<Rightarrow> string \<Rightarrow> virtual_key \<Rightarrow> string list" where
  "charged_customers st scopedCustomerID vk =
     (let tc = teamCustomerID_of st vk;
          via_team = (case team_of_vk st vk of
              None \<Rightarrow> []
            | Some t \<Rightarrow> (case tm_CustomerID t of
                None \<Rightarrow> []
              | Some c \<Rightarrow> if scopedCustomerID = [] \<or> scopedCustomerID = c then [c] else []));
          direct = (case vk_CustomerID vk of
              None \<Rightarrow> []
            | Some c \<Rightarrow> if tc = [] \<or> c \<noteq> tc then [c] else [])
      in via_team @ direct)"

definition collectBudgetsFromHierarchy ::
  "gov_store \<Rightarrow> string \<Rightarrow> virtual_key \<Rightarrow> string \<Rightarrow> budget list smap" where
  "collectBudgetsFromHierarchy st scopedCustomerID vk requestedProvider =
     (let acc1 = collect_pc_budgets st requestedProvider (vk_ProviderConfigs vk) ([], []);
          acc2 = collect_budgets st True ''VK'' (vk_Budgets vk) acc1;
          acc3 = (case team_of_vk st vk of
                    None \<Rightarrow> acc2
                  | Some t \<Rightarrow> collect_budgets st True ''Team'' (tm_Budgets t) acc2)
      in fst (fold (collect_customer_budgets st) (charged_customers st scopedCustomerID vk) acc3))"

definition add_rate_limit :: "gov_store \<Rightarrow> string \<Rightarrow> string option \<Rightarrow> rate_limit list smap \<Rightarrow> rate_limit list smap" where
  "add_rate_limit st cat rid m =
     (case rid of
        None \<Rightarrow> m
      | Some i \<Rightarrow> (case LoadRateLimit st i of None \<Rightarrow> m | Some r \<Rightarrow> sm_append cat r m))"

fun collect_pc_rate_limits ::
  "gov_store \<Rightarrow> string \<Rightarrow> provider_config list \<Rightarrow> rate_limit list smap \<Rightarrow> rate_limit list smap" where
  "collect_pc_rate_limits st provider [] m = m"
| "collect_pc_rate_limits st provider (pc # pcs) m =
     collect_pc_rate_limits st provider pcs
       (if pc_Provider pc = provider then add_rate_limit st (pc_Provider pc) (pc_RateLimitID pc) m else m)"

definition add_customer_rate_limit :: "gov_store \<Rightarrow> string \<Rightarrow> rate_limit list smap \<Rightarrow> rate_limit list smap" where
  "add_customer_rate_limit st customerID m =
     (case sm_load (st_customers st) customerID of
        None \<Rightarrow> m
      | Some c \<Rightarrow> add_rate_limit st ''Customer'' (cu_RateLimitID c) m)"

definition collectRateLimitsFromHierarchy ::
  "gov_store \<Rightarrow> string \<Rightarrow> virtual_key \<Rightarrow> string \<Rightarrow> rate_limit list smap" where
  "collectRateLimitsFromHierarchy st scopedCustomerID vk requestedProvider =
     (let m1 = collect_pc_rate_limits st requestedProvider (vk_ProviderConfigs vk) [];
          m2 = add_rate_limit st ''VK'' (vk_RateLimitID vk) m1;
          m3 = (case team_of_vk st vk of
                  None \<Rightarrow> m2
                | Some t \<Rightarrow> add_rate_limit st ''Team'' (tm_RateLimitID t) m2)
      in fold (add_customer_rate_limit st) (charged_customers st scopedCustomerID vk) m3)"

definition collectBudgetIDsFromMemory :: "gov_store \<Rightarrow> string \<Rightarrow> virtual_key \<Rightarrow> string \<Rightarrow> string list" where
  "collectBudgetIDsFromMemory st scoped vk provider =
     concat (map (\<lambda>(cat, bs). map bg_ID bs) (collectBudgetsFromHierarchy st scoped vk provider))"

definition collectRateLimitIDsFromMemory :: "gov_store \<Rightarrow> string \<Rightarrow> virtual_key \<Rightarrow> string \<Rightarrow> string list" where
  "collectRateLimitIDsFromMemory st scoped vk provider =
     concat (map (\<lambda>(cat, rs). map rl_ID rs) (collectRateLimitsFromHierarchy st scoped vk provider))"

subsection \<open>Checks per level\<close>

definition request_provider :: "evaluation_request option \<Rightarrow> string" where
  "request_provider request = (case request of None \<Rightarrow> [] | Some r \<Rightarrow> er_Provider r)"

definition CheckVirtualKeyBudget ::
  "gov_store \<Rightarrow> instant \<Rightarrow> string \<Rightarrow> virtual_key option \<Rightarrow> evaluation_request option \<Rightarrow> float64 smap \<Rightarrow> verdict" where
  "CheckVirtualKeyBudget st now scoped vk request baselines =
     (case vk of
        None \<Rightarrow> (DecisionVirtualKeyNotFound, Some NilVirtualKey)
      | Some v \<Rightarrow> CheckBudget now (collectBudgetsFromHierarchy st scoped v (request_provider request)) baselines)"

definition CheckVirtualKeyRateLimit ::
  "gov_store \<Rightarrow> instant \<Rightarrow> string \<Rightarrow> virtual_key option \<Rightarrow> evaluation_request option \<Rightarrow> int smap \<Rightarrow> int smap \<Rightarrow> verdict" where
  "CheckVirtualKeyRateLimit st now scoped vk request tb rb =
     CheckRateLimit now
       (case vk of None \<Rightarrow> [] | Some v \<Rightarrow> collectRateLimitsFromHierarchy st scoped v (request_provider request)) tb rb"

text \<open>The budget and the rate limit of one owner, when it names one and the row is live.\<close>

definition check_owned_budget ::
  "gov_store \<Rightarrow> instant \<Rightarrow> string \<Rightarrow> string option \<Rightarrow> float64 smap \<Rightarrow> verdict" where
  "check_owned_budget st now key bid baselines =
     (case bid of
        None \<Rightarrow> (DecisionAllow, None)
      | Some i \<Rightarrow> (case LoadBudget st i of
            None \<Rightarrow> (DecisionAllow, None)
          | Some b \<Rightarrow> CheckBudget now [(key, [b])] baselines))"

definition check_owned_rate_limit ::
  "gov_store \<Rightarrow> instant \<Rightarrow> string \<Rightarrow> string option \<Rightarrow> int smap \<Rightarrow> int smap \<Rightarrow> verdict" where
  "check_owned_rate_limit st now key rid tb rb =
     (case rid of
        None \<Rightarrow> (DecisionAllow, None)
      | Some i \<Rightarrow> (case LoadRateLimit st i of
            None \<Rightarrow> (DecisionAllow, None)
          | Some r \<Rightarrow> CheckRateLimit now [(key, [r])] tb rb))"

definition CheckProviderBudget ::
  "gov_store \<Rightarrow> instant \<Rightarrow> evaluation_request option \<Rightarrow> float64 smap \<Rightarrow> verdict" where
  "CheckProviderBudget st now request baselines =
     (case sm_load (st_providers st) (request_provider request) of
        None \<Rightarrow> (DecisionAllow, None)
      | Some p \<Rightarrow> check_owned_budget st now (request_provider request) (pr_BudgetID p) baselines)"

definition CheckProviderRateLimit ::
  "gov_store \<Rightarrow> instant \<Rightarrow> evaluation_request option \<Rightarrow> int smap \<Rightarrow> int smap \<Rightarrow> verdict" where
  "CheckProviderRateLimit st now request tb rb =
     (case sm_load (st_providers st) (request_provider request) of
        None \<Rightarrow> (DecisionAllow, None)
      | Some p \<Rightarrow> check_owned_rate_limit st now (request_provider request) (pr_RateLimitID p) tb rb)"

definition CheckModelBudget ::
  "gov_store \<Rightarrow> instant \<Rightarrow> evaluation_request option \<Rightarrow> float64 smap \<Rightarrow> verdict" where
  "CheckModelBudget st now request baselines =
     (case extractModelAndProvider request of (model, provider) \<Rightarrow>
        CheckBudget now
          (model_budget_entities st (collectModelConfigsFor st ModelConfigScopeGlobal [] model provider) []) baselines)"

definition CheckModelRateLimit ::
  "gov_store \<Rightarrow> instant \<Rightarrow> evaluation_request option \<Rightarrow> int smap \<Rightarrow> int smap \<Rightarrow> verdict" where
  "CheckModelRateLimit st now request tb rb =
     (case extractModelAndProvider request of (model, provider) \<Rightarrow>
        CheckRateLimit now
          (model_rate_limit_entities st (collectModelConfigsFor st ModelConfigScopeGlobal [] model provider) []) tb rb)"

definition CheckScopedModelBudget ::
  "gov_store \<Rightarrow> instant \<Rightarrow> string \<Rightarrow> string \<Rightarrow> evaluation_request option \<Rightarrow> float64 smap \<Rightarrow> verdict" where
  "CheckScopedModelBudget st now scope scopeID request baselines =
     (if scope = [] \<or> scopeID = [] then (DecisionAllow, None)
      else case extractModelAndProvider request of (model, provider) \<Rightarrow>
        CheckBudget now
          (model_budget_entities st (collectModelConfigsFor st scope scopeID model provider) []) baselines)"

definition CheckScopedModelRateLimit ::
  "gov_store \<Rightarrow> instant \<Rightarrow> string \<Rightarrow> string \<Rightarrow> evaluation_request option \<Rightarrow> int smap \<Rightarrow> int smap \<Rightarrow> verdict" where
  "CheckScopedModelRateLimit st now scope scopeID request tb rb =
     (if scope = [] \<or> scopeID = [] then (DecisionAllow, None)
      else case extractModelAndProvider request of (model, provider) \<Rightarrow>
        CheckRateLimit now
          (model_rate_limit_entities st (collectModelConfigsFor st scope scopeID model provider) []) tb rb)"

definition CheckTeamBudget :: "gov_store \<Rightarrow> instant \<Rightarrow> string \<Rightarrow> float64 smap \<Rightarrow> verdict" where
  "CheckTeamBudget st now teamID baselines =
     (if teamID = [] then (DecisionAllow, None)
      else case sm_load (st_teams st) teamID of
          None \<Rightarrow> (DecisionAllow, None)
        | Some t \<Rightarrow>
            let list = load_budgets st (tm_Budgets t) in
            if list = [] then (DecisionAllow, None)
            else CheckBudget now [(''Team:'' @ teamID, list)] baselines)"

definition CheckTeamRateLimit :: "gov_store \<Rightarrow> instant \<Rightarrow> string \<Rightarrow> int smap \<Rightarrow> int smap \<Rightarrow> verdict" where
  "CheckTeamRateLimit st now teamID tb rb =
     (case sm_load (st_teams st) teamID of
        None \<Rightarrow> (DecisionAllow, None)
      | Some t \<Rightarrow> check_owned_rate_limit st now (''Team:'' @ teamID) (tm_RateLimitID t) tb rb)"

definition CollectTeamBudgets :: "gov_store \<Rightarrow> string \<Rightarrow> budget list" where
  "CollectTeamBudgets st teamID =
     (if teamID = [] then []
      else case sm_load (st_teams st) teamID of None \<Rightarrow> [] | Some t \<Rightarrow> load_budgets st (tm_Budgets t))"

definition CollectTeamRateLimits :: "gov_store \<Rightarrow> string \<Rightarrow> rate_limit list" where
  "CollectTeamRateLimits st teamID =
     (if teamID = [] then []
      else case sm_load (st_teams st) teamID of
          None \<Rightarrow> []
        | Some t \<Rightarrow> (case tm_RateLimitID t of
              None \<Rightarrow> []
            | Some i \<Rightarrow> (case LoadRateLimit st i of None \<Rightarrow> [] | Some r \<Rightarrow> [r])))"

definition CollectCustomerBudgets :: "gov_store \<Rightarrow> string \<Rightarrow> budget list" where
  "CollectCustomerBudgets st customerID =
     (if customerID = [] then []
      else case sm_load (st_customers st) customerID of None \<Rightarrow> [] | Some c \<Rightarrow> load_budgets st (cu_Budgets c))"

definition CollectCustomerRateLimits :: "gov_store \<Rightarrow> string \<Rightarrow> rate_limit list" where
  "CollectCustomerRateLimits st customerID =
     (if customerID = [] then []
      else case sm_load (st_customers st) customerID of
          None \<Rightarrow> []
        | Some c \<Rightarrow> (case cu_RateLimitID c of
              None \<Rightarrow> []
            | Some i \<Rightarrow> (case LoadRateLimit st i of None \<Rightarrow> [] | Some r \<Rightarrow> [r])))"

definition GetTeamCustomerID :: "gov_store \<Rightarrow> string \<Rightarrow> string" where
  "GetTeamCustomerID st teamID =
     (if teamID = [] then []
      else case sm_load (st_teams st) teamID of
          None \<Rightarrow> [] | Some t \<Rightarrow> (case tm_CustomerID t of None \<Rightarrow> [] | Some c \<Rightarrow> c))"

definition GetTeamName :: "gov_store \<Rightarrow> string \<Rightarrow> string" where
  "GetTeamName st teamID =
     (if teamID = [] then []
      else case sm_load (st_teams st) teamID of None \<Rightarrow> [] | Some t \<Rightarrow> tm_Name t)"

definition GetCustomerName :: "gov_store \<Rightarrow> string \<Rightarrow> string" where
  "GetCustomerName st customerID =
     (if customerID = [] then []
      else case sm_load (st_customers st) customerID of None \<Rightarrow> [] | Some c \<Rightarrow> cu_Name c)"

definition CheckCustomerBudget :: "gov_store \<Rightarrow> instant \<Rightarrow> string \<Rightarrow> float64 smap \<Rightarrow> verdict" where
  "CheckCustomerBudget st now customerID baselines =
     (if customerID = [] then (DecisionAllow, None)
      else case sm_load (st_customers st) customerID of
          None \<Rightarrow> (DecisionAllow, None)
        | Some c \<Rightarrow>
            let list = load_budgets st (cu_Budgets c) in
            if list = [] then (DecisionAllow, None)
            else CheckBudget now [(''Customer:'' @ customerID, list)] baselines)"

definition CheckCustomerRateLimit :: "gov_store \<Rightarrow> instant \<Rightarrow> string \<Rightarrow> int smap \<Rightarrow> int smap \<Rightarrow> verdict" where
  "CheckCustomerRateLimit st now customerID tb rb =
     (if customerID = [] then (DecisionAllow, None)
      else case sm_load (st_customers st) customerID of
          None \<Rightarrow> (DecisionAllow, None)
        | Some c \<Rightarrow> check_owned_rate_limit st now (''Customer:'' @ customerID) (cu_RateLimitID c) tb rb)"

definition GetUserGovernance :: "gov_store \<Rightarrow> string \<Rightarrow> user_governance option" where
  "GetUserGovernance st userID = (if userID = [] then None else sm_load (st_users st) userID)"

definition nonempty_id :: "string option \<Rightarrow> string option" where
  "nonempty_id i = (case i of None \<Rightarrow> None | Some s \<Rightarrow> if s = [] then None else Some s)"

definition CheckUserBudget :: "gov_store \<Rightarrow> instant \<Rightarrow> string \<Rightarrow> float64 smap \<Rightarrow> verdict" where
  "CheckUserBudget st now userID baselines =
     (case GetUserGovernance st userID of
        None \<Rightarrow> (DecisionAllow, None)
      | Some ug \<Rightarrow> check_owned_budget st now (''User:'' @ userID) (nonempty_id (ug_BudgetID ug)) baselines)"

definition CheckUserRateLimit :: "gov_store \<Rightarrow> instant \<Rightarrow> string \<Rightarrow> int smap \<Rightarrow> int smap \<Rightarrow> verdict" where
  "CheckUserRateLimit st now userID tb rb =
     (case GetUserGovernance st userID of
        None \<Rightarrow> (DecisionAllow, None)
      | Some ug \<Rightarrow> check_owned_rate_limit st now (''User:'' @ userID) (nonempty_id (ug_RateLimitID ug)) tb rb)"

lemmas level_checks [check_defs] = CheckVirtualKeyBudget_def CheckVirtualKeyRateLimit_def
  CheckProviderBudget_def CheckProviderRateLimit_def CheckModelBudget_def CheckModelRateLimit_def
  CheckScopedModelBudget_def CheckScopedModelRateLimit_def CheckTeamBudget_def CheckTeamRateLimit_def
  CheckCustomerBudget_def CheckCustomerRateLimit_def CheckUserBudget_def CheckUserRateLimit_def
  check_owned_budget_def check_owned_rate_limit_def

subsection \<open>Usage updates after the response\<close>

text \<open>
  The updates charge one row after another. \<open>n\<close> bounds the iterations of each
  increment loop; \<open>None\<close> when one of them uses them up.
\<close>

fun bump_budgets :: "nat \<Rightarrow> instant \<Rightarrow> float64 \<Rightarrow> string list \<Rightarrow> gov_store \<Rightarrow> gov_store option" where
  "bump_budgets n now cost [] st = Some st"
| "bump_budgets n now cost (i # is) st =
     (case BumpBudgetUsage n now st i cost of
        None \<Rightarrow> None
      | Some st' \<Rightarrow> bump_budgets n now cost is st')"

fun bump_rate_limits ::
  "nat \<Rightarrow> instant \<Rightarrow> int \<Rightarrow> bool \<Rightarrow> bool \<Rightarrow> string list \<Rightarrow> gov_store \<Rightarrow> gov_store option" where
  "bump_rate_limits n now k ut ur [] st = Some st"
| "bump_rate_limits n now k ut ur (i # is) st =
     (case BumpRateLimitUsage n now st i k ut ur of
        None \<Rightarrow> None
      | Some st' \<Rightarrow> bump_rate_limits n now k ut ur is st')"

definition UpdateVirtualKeyBudgetUsageInMemory ::
  "nat \<Rightarrow> instant \<Rightarrow> gov_store \<Rightarrow> string \<Rightarrow> virtual_key option \<Rightarrow> string \<Rightarrow> float64 \<Rightarrow>
     (gov_error option \<times> gov_store) option" where
  "UpdateVirtualKeyBudgetUsageInMemory n now st scoped vk provider cost =
     (case vk of
        None \<Rightarrow> Some (Some NilVirtualKey, st)
      | Some v \<Rightarrow> map_option (Pair None) (bump_budgets n now cost (collectBudgetIDsFromMemory st scoped v provider) st))"

definition UpdateVirtualKeyRateLimitUsageInMemory ::
  "nat \<Rightarrow> instant \<Rightarrow> gov_store \<Rightarrow> string \<Rightarrow> virtual_key option \<Rightarrow> string \<Rightarrow> int \<Rightarrow> bool \<Rightarrow> bool \<Rightarrow>
     (gov_error option \<times> gov_store) option" where
  "UpdateVirtualKeyRateLimitUsageInMemory n now st scoped vk provider k ut ur =
     (case vk of
        None \<Rightarrow> Some (Some NilVirtualKey, st)
      | Some v \<Rightarrow> map_option (Pair None)
          (bump_rate_limits n now k ut ur (collectRateLimitIDsFromMemory st scoped v provider) st))"

definition provider_ptr :: "string \<Rightarrow> string option" where
  "provider_ptr provider = (if provider = [] then None else Some provider)"

definition provider_row_of :: "gov_store \<Rightarrow> string \<Rightarrow> provider_row option" where
  "provider_row_of st provider = (if provider = [] then None else sm_load (st_providers st) provider)"

definition opt_list :: "'a option \<Rightarrow> 'a list" where
  "opt_list x = (case x of None \<Rightarrow> [] | Some y \<Rightarrow> [y])"

definition model_budget_ids :: "model_config list \<Rightarrow> string list" where
  "model_budget_ids mcs = concat (map (\<lambda>mc. map bg_ID (mc_Budgets mc)) mcs)"

definition model_rate_limit_ids :: "model_config list \<Rightarrow> string list" where
  "model_rate_limit_ids mcs = List.map_filter mc_RateLimitID mcs"

definition UpdateProviderAndModelBudgetUsageInMemory ::
  "nat \<Rightarrow> instant \<Rightarrow> gov_store \<Rightarrow> string \<Rightarrow> string \<Rightarrow> float64 \<Rightarrow> gov_store option" where
  "UpdateProviderAndModelBudgetUsageInMemory n now st model provider cost =
     (case bump_budgets n now cost
             (case provider_row_of st provider of None \<Rightarrow> [] | Some p \<Rightarrow> opt_list (pr_BudgetID p)) st of
        None \<Rightarrow> None
      | Some st1 \<Rightarrow>
          bump_budgets n now cost
            (model_budget_ids (collectModelConfigsFor st1 ModelConfigScopeGlobal [] model (provider_ptr provider))) st1)"

definition UpdateProviderAndModelRateLimitUsageInMemory ::
  "nat \<Rightarrow> instant \<Rightarrow> gov_store \<Rightarrow> string \<Rightarrow> string \<Rightarrow> int \<Rightarrow> bool \<Rightarrow> bool \<Rightarrow> gov_store option" where
  "UpdateProviderAndModelRateLimitUsageInMemory n now st model provider k ut ur =
     (case bump_rate_limits n now k ut ur
             (case provider_row_of st provider of None \<Rightarrow> [] | Some p \<Rightarrow> opt_list (pr_RateLimitID p)) st of
        None \<Rightarrow> None
      | Some st1 \<Rightarrow>
          bump_rate_limits n now k ut ur
            (model_rate_limit_ids (collectModelConfigsFor st1 ModelConfigScopeGlobal [] model (provider_ptr provider))) st1)"

definition UpdateScopedModelBudgetUsageInMemory ::
  "nat \<Rightarrow> instant \<Rightarrow> gov_store \<Rightarrow> string \<Rightarrow> string \<Rightarrow> string \<Rightarrow> string \<Rightarrow> float64 \<Rightarrow> gov_store option" where
  "UpdateScopedModelBudgetUsageInMemory n now st scope scopeID model provider cost =
     (if scope = [] \<or> scopeID = [] then Some st
      else bump_budgets n now cost
        (model_budget_ids (collectModelConfigsFor st scope scopeID model (provider_ptr provider))) st)"

definition UpdateScopedModelRateLimitUsageInMemory ::
  "nat \<Rightarrow> instant \<Rightarrow> gov_store \<Rightarrow> string \<Rightarrow> string \<Rightarrow> string \<Rightarrow> string \<Rightarrow> int \<Rightarrow> bool \<Rightarrow> bool \<Rightarrow> gov_store option" where
  "UpdateScopedModelRateLimitUsageInMemory n now st scope scopeID model provider k ut ur =
     (if scope = [] \<or> scopeID = [] then Some st
      else bump_rate_limits n now k ut ur
        (model_rate_limit_ids (collectModelConfigsFor st scope scopeID model (provider_ptr provider))) st)"

definition UpdateUserBudgetUsageInMemory ::
  "nat \<Rightarrow> instant \<Rightarrow> gov_store \<Rightarrow> string \<Rightarrow> float64 \<Rightarrow> gov_store option" where
  "UpdateUserBudgetUsageInMemory n now st userID cost =
     (if userID = [] \<or> cost = 0 then Some st
      else case GetUserGovernance st userID of
          None \<Rightarrow> Some st
        | Some ug \<Rightarrow> bump_budgets n now cost (opt_list (nonempty_id (ug_BudgetID ug))) st)"

definition UpdateUserRateLimitUsageInMemory ::
  "nat \<Rightarrow> instant \<Rightarrow> gov_store \<Rightarrow> string \<Rightarrow> int \<Rightarrow> bool \<Rightarrow> bool \<Rightarrow> gov_store option" where
  "UpdateUserRateLimitUsageInMemory n now st userID k ut ur =
     (if userID = [] then Some st
      else case GetUserGovernance st userID of
          None \<Rightarrow> Some st
        | Some ug \<Rightarrow> bump_rate_limits n now k ut ur (opt_list (nonempty_id (ug_RateLimitID ug))) st)"

subsection \<open>The charged identifiers of a request\<close>

text \<open>Each step appends the identifiers not seen yet (\<open>add_new\<close>), budgets and rate limits apart.\<close>

definition add_model_configs ::
  "model_config list \<Rightarrow> string list \<times> string list \<Rightarrow> string list \<times> string list" where
  "add_model_configs mcs acc =
     (add_new (fst acc) (model_budget_ids mcs), add_new (snd acc) (model_rate_limit_ids mcs))"

definition CollectApplicableGovernanceIDs ::
  "gov_store \<Rightarrow> string \<Rightarrow> string \<Rightarrow> string \<Rightarrow> string \<Rightarrow> string \<Rightarrow> string list \<times> string list" where
  "CollectApplicableGovernanceIDs st scoped virtualKey userID provider model =
     (let configs = (\<lambda>scope scopeID. collectModelConfigsFor st scope scopeID model (provider_ptr provider));
          acc1 = (case provider_row_of st provider of
                    None \<Rightarrow> ([], [])
                  | Some p \<Rightarrow> (opt_list (pr_BudgetID p), opt_list (pr_RateLimitID p)));
          acc2 = (if model \<noteq> [] then add_model_configs (configs ModelConfigScopeGlobal []) acc1 else acc1);
          acc3 = (if userID \<noteq> [] \<and> model \<noteq> [] then add_model_configs (configs ModelConfigScopeUser userID) acc2 else acc2);
          acc4 = (if virtualKey = [] then acc3
                  else case GetVirtualKey st virtualKey of
                      None \<Rightarrow> acc3
                    | Some vk \<Rightarrow>
                        let a = (if model \<noteq> [] then
                              fold (\<lambda>(sc, i). add_model_configs (configs sc i)) (nonGlobalModelConfigScopeChain vk) acc3
                            else acc3)
                        in (add_new (fst a) (collectBudgetIDsFromMemory st scoped vk provider),
                            add_new (snd a) (collectRateLimitIDsFromMemory st scoped vk provider)))
      in case GetUserGovernance st userID of
           None \<Rightarrow> acc4
         | Some ug \<Rightarrow> (add_new (fst acc4) (opt_list (nonempty_id (ug_BudgetID ug))),
                        add_new (snd acc4) (opt_list (nonempty_id (ug_RateLimitID ug)))))"

subsection \<open>What a usage update may touch\<close>

text \<open>
  Two stores with the same configuration: the same entities, and the same live rows up to
  their counters. Collecting identifiers gives the same result on both.
\<close>

definition cfg_eq :: "gov_store \<Rightarrow> gov_store \<Rightarrow> bool" where
  "cfg_eq st st' \<longleftrightarrow> st_virtualKeys st' = st_virtualKeys st \<and> st_teams st' = st_teams st \<and>
     st_customers st' = st_customers st \<and> st_modelConfigs st' = st_modelConfigs st \<and>
     st_providers st' = st_providers st \<and> st_users st' = st_users st \<and>
     st_modelCatalog st' = st_modelCatalog st \<and>
     (\<forall>k. map_option bg_ID (LoadBudget st' k) = map_option bg_ID (LoadBudget st k)) \<and>
     (\<forall>k. map_option rl_ID (LoadRateLimit st' k) = map_option rl_ID (LoadRateLimit st k))"

definition touches :: "string set \<Rightarrow> string set \<Rightarrow> gov_store \<Rightarrow> gov_store \<Rightarrow> bool" where
  "touches bs rs st st' \<longleftrightarrow> wf_hot st' \<and> cfg_eq st st' \<and>
     (\<forall>k. k \<notin> bs \<longrightarrow> LoadBudget st' k = LoadBudget st k) \<and>
     (\<forall>k. k \<notin> rs \<longrightarrow> LoadRateLimit st' k = LoadRateLimit st k)"

lemma cfg_eq_refl [simp]: "cfg_eq st st"
  by (simp add: cfg_eq_def)

lemma cfg_eq_trans: "cfg_eq st st' \<Longrightarrow> cfg_eq st' st'' \<Longrightarrow> cfg_eq st st''"
  by (simp add: cfg_eq_def)

lemma touches_refl: "wf_hot st \<Longrightarrow> touches bs rs st st"
  by (simp add: touches_def)

lemma touches_trans: "touches bs rs st st' \<Longrightarrow> touches bs rs st' st'' \<Longrightarrow> touches bs rs st st''"
  by (auto simp: touches_def intro: cfg_eq_trans)

lemma touches_mono: "touches bs rs st st' \<Longrightarrow> bs \<subseteq> bs' \<Longrightarrow> rs \<subseteq> rs' \<Longrightarrow> touches bs' rs' st st'"
  by (auto simp: touches_def)

lemma touches_wf: "touches bs rs st st' \<Longrightarrow> wf_hot st'" and touches_cfg: "touches bs rs st st' \<Longrightarrow> cfg_eq st st'"
  by (simp_all add: touches_def)

lemma touches_put_budget:
  "wf_hot st \<Longrightarrow> LoadBudget st i = Some b \<Longrightarrow> bg_ID b' = bg_ID b \<Longrightarrow>
     touches {i} {} st (put_budget i b' st)"
  by (auto simp: touches_def cfg_eq_def wf_hot_budget) (simp_all add: put_budget_def)

lemma touches_put_rate_limit:
  "wf_hot st \<Longrightarrow> LoadRateLimit st i = Some r \<Longrightarrow> rl_ID r' = rl_ID r \<Longrightarrow>
     touches {} {i} st (put_rate_limit i r' st)"
  by (auto simp: touches_def cfg_eq_def wf_hot_rate_limit) (simp_all add: put_rate_limit_def)

lemma touches_baseline: "wf_hot st \<Longrightarrow> touches {} {} st (SetBudgetDBBaseline st i x)"
  by (simp add: touches_def cfg_eq_def) (simp add: SetBudgetDBBaseline_def)

lemma touches_scan_one_budget:
  assumes "wf_hot st" "LoadBudget st i = Some b"
  shows "touches {i} {} st (snd (ResetExpiredBudgetsInMemory st now False [i]))"
proof -
  have "touches {i} {} st (SetBudgetDBBaseline (put_budget i (reset_budget t b) st) i 0)" for t
    using touches_put_budget [OF assms, of "reset_budget t b"] wf_hot_budget [OF assms]
    by (intro touches_trans [OF touches_put_budget [OF assms] touches_mono [OF touches_baseline]])
      (auto simp: assms)
  then show ?thesis using assms by (auto simp: scan_one_budget touches_refl split: option.splits)
qed

lemma touches_bump_budget:
  "BumpBudgetUsage n now st i cost = Some st' \<Longrightarrow> wf_hot st \<Longrightarrow> touches {i} {} st st'"
proof (induction n arbitrary: st)
  case 0
  then show ?case by simp
next
  case (Suc n)
  show ?case
  proof (cases "LoadBudget st i")
    case None
    with Suc.prems show ?thesis by (simp add: touches_refl)
  next
    case (Some b)
    let ?st = "snd (ResetExpiredBudgetsInMemory st now False [i])"
    have t: "touches {i} {} st ?st" by (rule touches_scan_one_budget [OF Suc.prems(2) Some])
    show ?thesis
    proof (cases "budgetResetTarget b now")
      case None
      with Suc.prems Some show ?thesis
        by (auto simp: charge_budget_def intro!: touches_put_budget)
    next
      case (Some u)
      with Suc.prems \<open>LoadBudget st i = Some b\<close> have "BumpBudgetUsage n now ?st i cost = Some st'" by simp
      from Suc.IH [OF this touches_wf [OF t]] t show ?thesis by (blast intro: touches_trans)
    qed
  qed
qed

lemma ResetRateLimitAt_put:
  "ResetRateLimitAt st i tok req = Some (r', st1) \<Longrightarrow>
     \<exists>r. LoadRateLimit st i = Some r \<and> r' = close_rate_limit (tok, req) r \<and> st1 = put_rate_limit i r' st"
  by (auto simp: ResetRateLimitAt_def close_rate_limit_def split: option.splits if_splits prod.splits)

lemma touches_scan_one_rate_limit:
  assumes "wf_hot st" "LoadRateLimit st i = Some r"
  shows "touches {} {i} st (snd (ResetExpiredRateLimitsInMemory st now False [i]))"
proof -
  obtain tok req where ts: "rateLimitResetTargets r now = (tok, req)" by fastforce
  have id: "rl_ID r = i" using wf_hot_rate_limit [OF assms] .
  show ?thesis
  proof (cases "ResetRateLimitAt st i tok req")
    case None
    with assms ts id show ?thesis
      by (simp add: ResetExpiredRateLimitsInMemory_def resetExpiredRateLimitFromSnapshot_def touches_refl)
  next
    case (Some p)
    obtain r' st1 where p: "p = (r', st1)" by fastforce
    from ResetRateLimitAt_put [OF Some [unfolded p]] assms(2)
    have r': "r' = close_rate_limit (tok, req) r" and st1: "st1 = put_rate_limit i r' st" by auto
    have "touches {} {i} st (put_rate_limit i r' st)"
      by (rule touches_put_rate_limit [OF assms]) (simp add: r')
    then show ?thesis
      using Some assms ts id p st1 touches_refl [OF assms(1)]
      by (simp add: ResetExpiredRateLimitsInMemory_def resetExpiredRateLimitFromSnapshot_def Let_def
          touches_def cfg_eq_def wf_hot_def LoadBudget_def LoadRateLimit_def)
  qed
qed

lemma charge_rate_limit_ID [simp]: "rl_ID (charge_rate_limit k ut ur r) = rl_ID r"
  by (simp add: charge_rate_limit_def Let_def)

lemma touches_bump_rate_limit:
  "BumpRateLimitUsage n now st i k ut ur = Some st' \<Longrightarrow> wf_hot st \<Longrightarrow> touches {} {i} st st'"
proof (induction n arbitrary: st)
  case 0
  then show ?case by simp
next
  case (Suc n)
  show ?case
  proof (cases "LoadRateLimit st i")
    case None
    with Suc.prems show ?thesis by (simp add: touches_refl)
  next
    case (Some r)
    let ?st = "snd (ResetExpiredRateLimitsInMemory st now False [i])"
    have t: "touches {} {i} st ?st" by (rule touches_scan_one_rate_limit [OF Suc.prems(2) Some])
    show ?thesis
    proof (cases "rateLimitResetTargets r now = (None, None)")
      case True
      with Suc.prems Some show ?thesis by (auto intro!: touches_put_rate_limit)
    next
      case False
      with Suc.prems \<open>LoadRateLimit st i = Some r\<close>
      have "BumpRateLimitUsage n now ?st i k ut ur = Some st'" by simp
      from Suc.IH [OF this touches_wf [OF t]] t show ?thesis by (blast intro: touches_trans)
    qed
  qed
qed

lemma touches_bump_budgets:
  "bump_budgets n now cost is st = Some st' \<Longrightarrow> wf_hot st \<Longrightarrow> set is \<subseteq> bs \<Longrightarrow> touches bs rs st st'"
proof (induction "is" arbitrary: st)
  case Nil
  then show ?case by (simp add: touches_refl)
next
  case (Cons i "is")
  then obtain st1 where st1: "BumpBudgetUsage n now st i cost = Some st1"
    and rest: "bump_budgets n now cost is st1 = Some st'" by (auto split: option.splits)
  have t: "touches bs rs st st1" using Cons.prems(3)
    by (intro touches_mono [OF touches_bump_budget [OF st1 Cons.prems(2)]]) auto
  from Cons.IH [OF rest touches_wf [OF t]] Cons.prems(3) t show ?case by (auto intro: touches_trans)
qed

lemma touches_bump_rate_limits:
  "bump_rate_limits n now k ut ur is st = Some st' \<Longrightarrow> wf_hot st \<Longrightarrow> set is \<subseteq> rs \<Longrightarrow> touches bs rs st st'"
proof (induction "is" arbitrary: st)
  case Nil
  then show ?case by (simp add: touches_refl)
next
  case (Cons i "is")
  then obtain st1 where st1: "BumpRateLimitUsage n now st i k ut ur = Some st1"
    and rest: "bump_rate_limits n now k ut ur is st1 = Some st'" by (auto split: option.splits)
  have t: "touches bs rs st st1" using Cons.prems(3)
    by (intro touches_mono [OF touches_bump_rate_limit [OF st1 Cons.prems(2)]]) auto
  from Cons.IH [OF rest touches_wf [OF t]] Cons.prems(3) t show ?case by (auto intro: touches_trans)
qed

subsection \<open>Collecting depends on the configuration only\<close>

definition id_map :: "('v \<Rightarrow> string) \<Rightarrow> 'v list smap \<Rightarrow> string list smap" where
  "id_map f m = map (apsnd (map f)) m"

lemma sm_load_id_map: "sm_load (id_map f m) k = map_option (map f) (sm_load m k)"
  by (induction m) (auto simp: id_map_def sm_load_def)

lemma id_map_store: "id_map f (sm_store k v m) = sm_store k (map f v) (id_map f m)"
  by (induction m) (auto simp: id_map_def sm_store_def)

lemma id_map_append: "id_map f (sm_append k x m) = sm_append k (f x) (id_map f m)"
  by (simp add: sm_append_def id_map_store sm_load_id_map split: option.split)

lemma ids_of_id_map: "concat (map (\<lambda>(cat, bs). map f bs) m) = concat (map snd (id_map f m))"
  by (induction m) (auto simp: id_map_def)

lemma cfg_eq_budget_id: "cfg_eq st st' \<Longrightarrow>
    (LoadBudget st' k = None \<and> LoadBudget st k = None) \<or>
    (\<exists>b b'. LoadBudget st k = Some b \<and> LoadBudget st' k = Some b' \<and> bg_ID b' = bg_ID b)"
  by (simp add: cfg_eq_def) (metis not_None_eq option.map_disc_iff option.map_sel option.sel)

lemma cfg_eq_rate_limit_id: "cfg_eq st st' \<Longrightarrow>
    (LoadRateLimit st' k = None \<and> LoadRateLimit st k = None) \<or>
    (\<exists>b b'. LoadRateLimit st k = Some b \<and> LoadRateLimit st' k = Some b' \<and> rl_ID b' = rl_ID b)"
  by (simp add: cfg_eq_def) (metis not_None_eq option.map_disc_iff option.map_sel option.sel)

definition acc_eq :: "budget_acc \<Rightarrow> budget_acc \<Rightarrow> bool" where
  "acc_eq a a' \<longleftrightarrow> id_map bg_ID (fst a') = id_map bg_ID (fst a) \<and> snd a' = snd a"

lemma collect_budgets_cfg:
  "cfg_eq st st' \<Longrightarrow> acc_eq a a' \<Longrightarrow> acc_eq (collect_budgets st ck cat bs a) (collect_budgets st' ck cat bs a')"
proof (induction bs arbitrary: a a')
  case Nil
  then show ?case by simp
next
  case (Cons b bs)
  obtain m seen m' seen' where a: "a = (m, seen)" "a' = (m', seen')" by fastforce
  from Cons.prems(2) have e: "seen' = seen" "id_map bg_ID m' = id_map bg_ID m" by (simp_all add: acc_eq_def a)
  have "acc_eq
     (if ck \<and> bg_ID b \<in> set seen then (m, seen)
      else case LoadBudget st (bg_ID b) of
          None \<Rightarrow> (m, seen) | Some live \<Rightarrow> (sm_append cat live m, bg_ID live # seen))
     (if ck \<and> bg_ID b \<in> set seen then (m', seen)
      else case LoadBudget st' (bg_ID b) of
          None \<Rightarrow> (m', seen) | Some live \<Rightarrow> (sm_append cat live m', bg_ID live # seen))"
    using cfg_eq_budget_id [OF Cons.prems(1), of "bg_ID b"]
    by (auto simp: acc_eq_def id_map_append e)
  from Cons.IH [OF Cons.prems(1) this] show ?case unfolding a e collect_budgets.simps .
qed

lemma collect_pc_budgets_cfg:
  "cfg_eq st st' \<Longrightarrow> acc_eq a a' \<Longrightarrow> acc_eq (collect_pc_budgets st p pcs a) (collect_pc_budgets st' p pcs a')"
proof (induction pcs arbitrary: a a')
  case (Cons pc pcs)
  then show ?case by (simp add: collect_budgets_cfg)
qed simp

lemma collect_customer_budgets_cfg:
  assumes "cfg_eq st st'" "acc_eq a a'"
  shows "acc_eq (collect_customer_budgets st c a) (collect_customer_budgets st' c a')"
proof -
  have "st_customers st' = st_customers st" using assms(1) by (simp add: cfg_eq_def)
  with assms show ?thesis
    by (simp add: collect_customer_budgets_def collect_budgets_cfg split: option.split)
qed

lemma fold_customers_cfg:
  "cfg_eq st st' \<Longrightarrow> acc_eq a a' \<Longrightarrow>
     acc_eq (fold (collect_customer_budgets st) cs a) (fold (collect_customer_budgets st') cs a')"
proof (induction cs arbitrary: a a')
  case (Cons c cs)
  then show ?case by (simp add: collect_customer_budgets_cfg)
qed simp

lemma cfg_eq_team: "cfg_eq st st' \<Longrightarrow> team_of_vk st' vk = team_of_vk st vk"
  by (simp add: cfg_eq_def team_of_vk_def split: option.split)

lemma cfg_eq_customers: "cfg_eq st st' \<Longrightarrow> charged_customers st' sc vk = charged_customers st sc vk"
  by (simp add: charged_customers_def teamCustomerID_of_def cfg_eq_team)

lemma cfg_eq_collectBudgetIDs:
  assumes "cfg_eq st st'"
  shows "collectBudgetIDsFromMemory st' sc vk p = collectBudgetIDsFromMemory st sc vk p"
proof -
  note c = collect_budgets_cfg [OF assms] collect_pc_budgets_cfg [OF assms] fold_customers_cfg [OF assms]
  have "acc_eq ([], []) ([], [])" by (simp add: acc_eq_def)
  from c(1) [OF c(2) [OF this]]
  have "acc_eq
     (case team_of_vk st vk of
        None \<Rightarrow> collect_budgets st True ''VK'' (vk_Budgets vk) (collect_pc_budgets st p (vk_ProviderConfigs vk) ([], []))
      | Some t \<Rightarrow> collect_budgets st True ''Team'' (tm_Budgets t)
          (collect_budgets st True ''VK'' (vk_Budgets vk) (collect_pc_budgets st p (vk_ProviderConfigs vk) ([], []))))
     (case team_of_vk st' vk of
        None \<Rightarrow> collect_budgets st' True ''VK'' (vk_Budgets vk) (collect_pc_budgets st' p (vk_ProviderConfigs vk) ([], []))
      | Some t \<Rightarrow> collect_budgets st' True ''Team'' (tm_Budgets t)
          (collect_budgets st' True ''VK'' (vk_Budgets vk) (collect_pc_budgets st' p (vk_ProviderConfigs vk) ([], []))))"
    unfolding cfg_eq_team [OF assms] by (auto split: option.split intro: c(1))
  from c(3) [OF this] show ?thesis
    unfolding collectBudgetIDsFromMemory_def ids_of_id_map collectBudgetsFromHierarchy_def Let_def
      cfg_eq_customers [OF assms]
    by (simp add: acc_eq_def)
qed

lemma add_rate_limit_cfg:
  "cfg_eq st st' \<Longrightarrow> id_map rl_ID m' = id_map rl_ID m \<Longrightarrow>
     id_map rl_ID (add_rate_limit st' cat i m') = id_map rl_ID (add_rate_limit st cat i m)"
  using cfg_eq_rate_limit_id [of st st' "the i"]
  by (auto simp: add_rate_limit_def id_map_append split: option.split)

lemma collect_pc_rate_limits_cfg:
  "cfg_eq st st' \<Longrightarrow> id_map rl_ID m' = id_map rl_ID m \<Longrightarrow>
     id_map rl_ID (collect_pc_rate_limits st' p pcs m') = id_map rl_ID (collect_pc_rate_limits st p pcs m)"
proof (induction pcs arbitrary: m m')
  case (Cons pc pcs)
  have "id_map rl_ID (add_rate_limit st' (pc_Provider pc) (pc_RateLimitID pc) m') =
      id_map rl_ID (add_rate_limit st (pc_Provider pc) (pc_RateLimitID pc) m)"
    by (rule add_rate_limit_cfg [OF Cons.prems])
  from Cons.IH [OF Cons.prems(1) this] Cons.IH [OF Cons.prems] show ?case
    unfolding collect_pc_rate_limits.simps by (auto simp only: split: if_split)
qed simp

lemma add_customer_rate_limit_cfg:
  assumes "cfg_eq st st'" "id_map rl_ID m' = id_map rl_ID m"
  shows "id_map rl_ID (add_customer_rate_limit st' c m') = id_map rl_ID (add_customer_rate_limit st c m)"
proof -
  have "st_customers st' = st_customers st" using assms(1) by (simp add: cfg_eq_def)
  then show ?thesis
    using assms(2) add_rate_limit_cfg [OF assms]
    by (simp add: add_customer_rate_limit_def split: option.split)
qed

lemma fold_customer_rate_limits_cfg:
  "cfg_eq st st' \<Longrightarrow> id_map rl_ID m' = id_map rl_ID m \<Longrightarrow>
     id_map rl_ID (fold (add_customer_rate_limit st') cs m') = id_map rl_ID (fold (add_customer_rate_limit st) cs m)"
proof (induction cs arbitrary: m m')
  case (Cons c cs)
  from Cons.IH [OF Cons.prems(1) add_customer_rate_limit_cfg [OF Cons.prems]] show ?case by simp
qed simp

lemma cfg_eq_collectRateLimitIDs:
  assumes "cfg_eq st st'"
  shows "collectRateLimitIDsFromMemory st' sc vk p = collectRateLimitIDsFromMemory st sc vk p"
proof -
  note c = add_rate_limit_cfg [OF assms] collect_pc_rate_limits_cfg [OF assms]
    fold_customer_rate_limits_cfg [OF assms]
  show ?thesis
    unfolding collectRateLimitIDsFromMemory_def ids_of_id_map collectRateLimitsFromHierarchy_def Let_def
      cfg_eq_customers [OF assms] cfg_eq_team [OF assms]
    by (auto split: option.split intro!: c arg_cong [where f = "\<lambda>m. concat (map snd m)"])
qed

lemma cfg_eq_collectModelConfigs:
  "cfg_eq st st' \<Longrightarrow> collectModelConfigsFor st' sc i m p = collectModelConfigsFor st sc i m p"
  by (auto simp: collectModelConfigsFor_def findScopedModelOnlyConfig_def load_model_config_def cfg_eq_def fun_eq_iff
      cong: if_cong)

subsection \<open>Which rows a virtual key's request meets\<close>

definition rows :: "'v list smap \<Rightarrow> 'v list" where
  "rows m = concat (map snd m)"

lemma mset_rows_append: "mset (rows (sm_append k x m)) = add_mset x (mset (rows m))"
  by (induction m) (auto simp: rows_def sm_append_def sm_store_def sm_load_def)

lemma set_rows_append [simp]: "set (rows (sm_append k x m)) = insert x (set (rows m))"
  using mset_rows_append [of k x m] by (metis set_mset_add_mset_insert set_mset_mset)

lemma mem_rows: "x \<in> set (rows m) \<longleftrightarrow> (\<exists>(k, xs)\<in>set m. x \<in> set xs)"
  by (force simp: rows_def)

definition live_budgets :: "gov_store \<Rightarrow> string list \<Rightarrow> budget set" where
  "live_budgets st is = {b. \<exists>i\<in>set is. LoadBudget st i = Some b}"

lemma live_budgets_simps [simp]:
  "live_budgets st [] = {}"
  "live_budgets st (i # is) = set_option (LoadBudget st i) \<union> live_budgets st is"
  "live_budgets st (is @ js) = live_budgets st is \<union> live_budgets st js"
  by (auto simp: live_budgets_def)

definition acc_inv :: "gov_store \<Rightarrow> budget_acc \<Rightarrow> bool" where
  "acc_inv st a \<longleftrightarrow> set (snd a) = bg_ID ` set (rows (fst a)) \<and>
     (\<forall>b\<in>set (rows (fst a)). LoadBudget st (bg_ID b) = Some b)"

lemma collect_budgets_rows:
  assumes "wf_hot st" "acc_inv st a"
  shows "acc_inv st (collect_budgets st ck cat bs a) \<and>
    set (rows (fst (collect_budgets st ck cat bs a))) = set (rows (fst a)) \<union> live_budgets st (map bg_ID bs)"
  using assms(2)
proof (induction bs arbitrary: a)
  case Nil
  then show ?case by simp
next
  case (Cons b bs)
  obtain m seen where a: "a = (m, seen)" by fastforce
  have inv: "set seen = bg_ID ` set (rows m)" "\<And>x. x \<in> set (rows m) \<Longrightarrow> LoadBudget st (bg_ID x) = Some x"
    using Cons.prems by (simp_all add: acc_inv_def a)
  show ?case
  proof (cases "ck \<and> bg_ID b \<in> set seen")
    case True
    then obtain x where "x \<in> set (rows m)" "bg_ID x = bg_ID b" using inv(1) by auto
    with inv(2) have "LoadBudget st (bg_ID b) = Some x" by metis
    with True Cons.IH [OF Cons.prems] \<open>x \<in> set (rows m)\<close> show ?thesis by (auto simp: a)
  next
    case False
    show ?thesis
    proof (cases "LoadBudget st (bg_ID b)")
      case None
      with False Cons.IH [OF Cons.prems] show ?thesis by (auto simp: a)
    next
      case (Some live)
      have "bg_ID live = bg_ID b" using wf_hot_budget [OF assms(1) Some] .
      then have "acc_inv st (sm_append cat live m, bg_ID live # seen)"
        using inv Some by (auto simp: acc_inv_def)
      from Cons.IH [OF this] False Some show ?thesis by (auto simp: a)
    qed
  qed
qed

lemma collect_pc_budgets_rows:
  assumes "wf_hot st" "acc_inv st a"
  shows "acc_inv st (collect_pc_budgets st p pcs a) \<and>
    set (rows (fst (collect_pc_budgets st p pcs a))) = set (rows (fst a)) \<union>
      live_budgets st (concat (map (\<lambda>pc. map bg_ID (pc_Budgets pc)) (filter (\<lambda>pc. pc_Provider pc = p) pcs)))"
  using assms(2)
proof (induction pcs arbitrary: a)
  case Nil
  then show ?case by simp
next
  case (Cons pc pcs)
  show ?case
  proof (cases "pc_Provider pc = p")
    case True
    from collect_budgets_rows [OF assms(1) Cons.prems, of True p "pc_Budgets pc"]
    show ?thesis using True Cons.IH by auto
  next
    case False
    with Cons.IH [OF Cons.prems] show ?thesis by simp
  qed
qed

definition customer_budget_refs :: "gov_store \<Rightarrow> string \<Rightarrow> string list" where
  "customer_budget_refs st c =
     (case sm_load (st_customers st) c of None \<Rightarrow> [] | Some cu \<Rightarrow> map bg_ID (cu_Budgets cu))"

lemma fold_customer_budgets_rows:
  assumes "wf_hot st" "acc_inv st a"
  shows "acc_inv st (fold (collect_customer_budgets st) cs a) \<and>
    set (rows (fst (fold (collect_customer_budgets st) cs a))) =
      set (rows (fst a)) \<union> live_budgets st (concat (map (customer_budget_refs st) cs))"
  using assms(2)
proof (induction cs arbitrary: a)
  case Nil
  then show ?case by simp
next
  case (Cons c cs)
  have c: "acc_inv st (collect_customer_budgets st c a) \<and>
      set (rows (fst (collect_customer_budgets st c a))) = set (rows (fst a)) \<union> live_budgets st (customer_budget_refs st c)"
    using Cons.prems collect_budgets_rows [OF assms(1) Cons.prems]
    by (auto simp: collect_customer_budgets_def customer_budget_refs_def split: option.split)
  then show ?case using Cons.IH by auto
qed

text \<open>The budgets the hierarchy names, and the rows found for them.\<close>

definition budget_refs :: "gov_store \<Rightarrow> string \<Rightarrow> virtual_key \<Rightarrow> string \<Rightarrow> string list" where
  "budget_refs st scoped vk provider =
     concat (map (\<lambda>pc. map bg_ID (pc_Budgets pc)) (filter (\<lambda>pc. pc_Provider pc = provider) (vk_ProviderConfigs vk))) @
     map bg_ID (vk_Budgets vk) @
     (case team_of_vk st vk of None \<Rightarrow> [] | Some t \<Rightarrow> map bg_ID (tm_Budgets t)) @
     concat (map (customer_budget_refs st) (charged_customers st scoped vk))"

lemma hierarchy_rows:
  assumes "wf_hot st"
  shows "set (rows (collectBudgetsFromHierarchy st sc vk p)) = live_budgets st (budget_refs st sc vk p)"
proof -
  let ?a1 = "collect_pc_budgets st p (vk_ProviderConfigs vk) ([], [])"
  let ?a2 = "collect_budgets st True ''VK'' (vk_Budgets vk) ?a1"
  let ?a3 = "case team_of_vk st vk of None \<Rightarrow> ?a2 | Some t \<Rightarrow> collect_budgets st True ''Team'' (tm_Budgets t) ?a2"
  have "acc_inv st ([], [])" by (simp add: acc_inv_def rows_def)
  note 1 = collect_pc_budgets_rows [OF assms this, of p "vk_ProviderConfigs vk"]
  note 2 = collect_budgets_rows [OF assms conjunct1 [OF 1], of True "''VK''" "vk_Budgets vk"]
  have 3: "acc_inv st ?a3 \<and> set (rows (fst ?a3)) = set (rows (fst ?a2)) \<union>
      live_budgets st (case team_of_vk st vk of None \<Rightarrow> [] | Some t \<Rightarrow> map bg_ID (tm_Budgets t))"
    using 2 collect_budgets_rows [OF assms conjunct1 [OF 2], of True "''Team''"] by (auto split: option.split)
  note 4 = fold_customer_budgets_rows [OF assms conjunct1 [OF 3], of "charged_customers st sc vk"]
  have "set (rows (fst ?a1)) = live_budgets st (concat (map (\<lambda>pc. map bg_ID (pc_Budgets pc))
      (filter (\<lambda>pc. pc_Provider pc = p) (vk_ProviderConfigs vk))))" using 1 by (simp add: rows_def)
  then show ?thesis
    using 2 3 4 by (cases "team_of_vk st vk")
      (simp_all add: collectBudgetsFromHierarchy_def budget_refs_def Un_assoc)
qed











text \<open>Rate limits: every reference is followed, and repeated references stay.\<close>

definition live_ids :: "gov_store \<Rightarrow> string list \<Rightarrow> string list" where
  "live_ids st = filter (\<lambda>i. LoadRateLimit st i \<noteq> None)"

definition rate_limit_refs :: "gov_store \<Rightarrow> string \<Rightarrow> virtual_key \<Rightarrow> string \<Rightarrow> string list" where
  "rate_limit_refs st scoped vk provider =
     concat (map (\<lambda>pc. opt_list (pc_RateLimitID pc)) (filter (\<lambda>pc. pc_Provider pc = provider) (vk_ProviderConfigs vk))) @
     opt_list (vk_RateLimitID vk) @
     (case team_of_vk st vk of None \<Rightarrow> [] | Some t \<Rightarrow> opt_list (tm_RateLimitID t)) @
     concat (map (\<lambda>c. case sm_load (st_customers st) c of None \<Rightarrow> [] | Some cu \<Rightarrow> opt_list (cu_RateLimitID cu))
       (charged_customers st scoped vk))"

definition found :: "gov_store \<Rightarrow> string list \<Rightarrow> rate_limit multiset" where
  "found st is = mset (List.map_filter (LoadRateLimit st) is)"

lemma found_simps [simp]: "found st [] = {#}" "found st (is @ js) = found st is + found st js"
  "found st [i] = (case LoadRateLimit st i of None \<Rightarrow> {#} | Some r \<Rightarrow> {#r#})"
  by (auto simp: found_def List.map_filter_def split: option.split)

lemma add_rate_limit_rows: "mset (rows (add_rate_limit st cat i m)) = mset (rows m) + found st (opt_list i)"
  by (auto simp: add_rate_limit_def opt_list_def mset_rows_append split: option.split)

lemma collect_pc_rate_limits_rows:
  "mset (rows (collect_pc_rate_limits st p pcs m)) = mset (rows m) +
     found st (concat (map (\<lambda>pc. opt_list (pc_RateLimitID pc)) (filter (\<lambda>pc. pc_Provider pc = p) pcs)))"
  by (induction pcs arbitrary: m) (simp_all add: add_rate_limit_rows add.assoc)

lemma fold_customer_rate_limits_rows:
  "mset (rows (fold (add_customer_rate_limit st) cs m)) = mset (rows m) +
     found st (concat (map (\<lambda>c. case sm_load (st_customers st) c of None \<Rightarrow> [] | Some cu \<Rightarrow> opt_list (cu_RateLimitID cu)) cs))"
  by (induction cs arbitrary: m)
    (simp_all add: add_customer_rate_limit_def add_rate_limit_rows add.assoc split: option.split)

lemma hierarchy_rate_limit_rows:
  "mset (rows (collectRateLimitsFromHierarchy st sc vk p)) = found st (rate_limit_refs st sc vk p)"
proof -
  have "mset (rows ([] :: rate_limit list smap)) = {#}" by (simp add: rows_def)
  then show ?thesis
    by (cases "team_of_vk st vk")
      (simp_all add: collectRateLimitsFromHierarchy_def rate_limit_refs_def fold_customer_rate_limits_rows
        add_rate_limit_rows collect_pc_rate_limits_rows add.assoc)
qed

lemma image_found: "wf_hot st \<Longrightarrow> image_mset rl_ID (found st is) = mset (live_ids st is)"
  by (induction "is")
    (auto simp: found_def live_ids_def List.map_filter_def wf_hot_rate_limit split: option.split)

lemma hierarchy_rate_limit_ids:
  assumes "wf_hot st"
  shows "mset (collectRateLimitIDsFromMemory st sc vk p) = mset (live_ids st (rate_limit_refs st sc vk p))"
proof -
  have "collectRateLimitIDsFromMemory st sc vk p = map rl_ID (rows (collectRateLimitsFromHierarchy st sc vk p))"
    by (simp add: collectRateLimitIDsFromMemory_def rows_def map_concat case_prod_unfold comp_def)
  then have "mset (collectRateLimitIDsFromMemory st sc vk p) =
      image_mset rl_ID (mset (rows (collectRateLimitsFromHierarchy st sc vk p)))" by simp
  then show ?thesis by (simp add: hierarchy_rate_limit_rows image_found [OF assms])
qed

lemma hierarchy_budget_ids:
  assumes "wf_hot st"
  shows "set (collectBudgetIDsFromMemory st sc vk p) =
    {i \<in> set (budget_refs st sc vk p). LoadBudget st i \<noteq> None}"
proof -
  have "set (collectBudgetIDsFromMemory st sc vk p) = bg_ID ` set (rows (collectBudgetsFromHierarchy st sc vk p))"
    by (simp add: collectBudgetIDsFromMemory_def rows_def case_prod_unfold) blast
  then show ?thesis
    unfolding hierarchy_rows [OF assms] using wf_hot_budget [OF assms]
    by (force simp: live_budgets_def)
qed

subsection \<open>The list of charged identifiers\<close>

lemma add_model_configs_distinct:
  "distinct (fst a) \<and> distinct (snd a) \<Longrightarrow>
     distinct (fst (add_model_configs mcs a)) \<and> distinct (snd (add_model_configs mcs a))"
  by (simp add: add_model_configs_def distinct_add_new)

lemma set_add_model_configs:
  "set (fst (add_model_configs mcs a)) = set (fst a) \<union> set (model_budget_ids mcs)"
  "set (snd (add_model_configs mcs a)) = set (snd a) \<union> set (model_rate_limit_ids mcs)"
  by (simp_all add: add_model_configs_def)

lemma distinct_opt_list [simp]: "distinct (opt_list x)"
  by (simp add: opt_list_def split: option.split)

lemma collected_ids_distinct:
  "distinct (fst (CollectApplicableGovernanceIDs st sc v u p m)) \<and>
   distinct (snd (CollectApplicableGovernanceIDs st sc v u p m))"
  by (auto simp: CollectApplicableGovernanceIDs_def Let_def nonGlobalModelConfigScopeChain_def
      add_model_configs_distinct distinct_add_new split: option.split)

lemma collectModelConfigs_distinct: "distinct (map mc_ID (collectModelConfigsFor st sc i m p))"
proof -
  have "distinct (map mc_ID (add_config c acc))" if "distinct (map mc_ID acc)" for c acc
    using that by (auto simp: add_config_def split: option.split)
  then show ?thesis by (simp add: collectModelConfigsFor_def Let_def)
qed

lemma mem_load_budgets: "b \<in> set (load_budgets st bs) \<longleftrightarrow> (\<exists>x\<in>set bs. LoadBudget st (bg_ID x) = Some b)"
  by (force simp: load_budgets_def List.map_filter_def)

subsection \<open>Properties\<close>

text \<open>
  C12. The budget check of a virtual key allows a request exactly when every live budget that
  the hierarchy names (the provider configs of the requested provider, the key, its team, the
  charged customers) is expired or below its limit. Deduplication and grouping lose nothing,
  and the order of the groups does not matter.
\<close>

theorem virtual_key_budget_check_complete:
  assumes "wf_hot st"
  shows "fst (CheckVirtualKeyBudget st now sc (Some vk) req bl) = DecisionAllow \<longleftrightarrow>
    (\<forall>i\<in>set (budget_refs st sc vk (request_provider req)).
       case LoadBudget st i of None \<Rightarrow> True | Some b \<Rightarrow> budget_within now bl b)"
proof -
  have "(\<forall>(e, bs)\<in>set (collectBudgetsFromHierarchy st sc vk (request_provider req)). \<forall>b\<in>set bs. budget_within now bl b)
      \<longleftrightarrow> (\<forall>b\<in>set (rows (collectBudgetsFromHierarchy st sc vk (request_provider req))). budget_within now bl b)"
    by (force simp: rows_def)
  then show ?thesis
    unfolding hierarchy_rows [OF assms]
    by (simp add: CheckVirtualKeyBudget_def CheckBudget_allow) (force simp: live_budgets_def split: option.splits)
qed

definition sample_pc :: provider_config where
  "sample_pc = \<lparr>pc_ID = 1, pc_Provider = ''openai'', pc_AllowedModels = [''*''], pc_BlacklistedModels = [],
     pc_AllowAllKeys = True, pc_RateLimitID = Some ''r'', pc_RateLimit = None, pc_Budgets = [hour_budget], pc_Keys = [], pc_Weight = None\<rparr>"

definition sample_vk :: virtual_key where
  "sample_vk = \<lparr>vk_ID = ''vk1'', vk_Name = ''key'', vk_Value = ''sk-uf-1'', vk_IsActive = None, vk_ExpiresAt = None,
     vk_ProviderConfigs = [sample_pc], vk_MCPConfigs = [], vk_TeamID = None, vk_CustomerID = None, vk_RateLimitID = Some ''r'',
     vk_CalendarAligned = False, vk_Team = None, vk_Customer = None, vk_RateLimit = None, vk_Budgets = []\<rparr>"

definition sample_store :: gov_store where
  "sample_store = put_budget ''b'' hour_budget (put_rate_limit ''r'' hour_rate_limit empty_store)"

lemma sample_store_facts [simp]:
  "wf_hot sample_store" "LoadBudget sample_store ''b'' = Some hour_budget"
  "LoadRateLimit sample_store ''r'' = Some hour_rate_limit"
  "team_of_vk sample_store sample_vk = None" "charged_customers sample_store sc sample_vk = []"
  by (simp_all add: sample_store_def hour_budget_def hour_rate_limit_def team_of_vk_def sample_vk_def
      charged_customers_def)

definition openai_request :: evaluation_request where
  "openai_request = \<lparr>er_VirtualKey = [], er_Provider = ''openai'', er_Model = ''gpt'', er_UserID = []\<rparr>"

theorem virtual_key_budget_check_complete_witness:
  "fst (CheckVirtualKeyBudget sample_store 0 [] (Some sample_vk) (Some openai_request) []) = DecisionAllow \<and>
   fst (CheckVirtualKeyBudget sample_store 0 [] (Some sample_vk) (Some openai_request) [(''b'', 1)]) \<noteq> DecisionAllow"
proof -
  have refs: "budget_refs sample_store [] sample_vk (request_provider (Some openai_request)) = [''b'']"
    by (simp add: budget_refs_def request_provider_def openai_request_def)
      (simp add: sample_vk_def sample_pc_def hour_budget_def)
  have "\<not> budget_expired 0 hour_budget"
    by (simp add: budget_expired_def limit_expired_def hour_budget_def parse_1h)
  then have "budget_within 0 [] hour_budget" "\<not> budget_within 0 [(''b'', 1)] hour_budget"
    by (simp_all add: budget_within_def baseline_of_def hour_budget_def sm_load_def)
  then show ?thesis
    by (simp add: virtual_key_budget_check_complete [OF sample_store_facts(1)] refs)
qed

text \<open>
  The same for the rate limits of a virtual key: a request is allowed exactly when every
  live rate limit the hierarchy names has both counters expired or below their limits.
\<close>

lemma virtual_key_rate_limit_check_complete:
  "fst (CheckVirtualKeyRateLimit st now sc (Some vk) req tb rb) = DecisionAllow \<longleftrightarrow>
    (\<forall>i\<in>set (rate_limit_refs st sc vk (request_provider req)).
       case LoadRateLimit st i of None \<Rightarrow> True | Some r \<Rightarrow> rl_within now tb rb r)"
proof -
  let ?is = "rate_limit_refs st sc vk (request_provider req)"
  let ?m = "collectRateLimitsFromHierarchy st sc vk (request_provider req)"
  have "set (rows ?m) = set_mset (found st ?is)"
    unfolding hierarchy_rate_limit_rows [symmetric] by simp
  also have "\<dots> = {r. \<exists>i\<in>set ?is. LoadRateLimit st i = Some r}"
    unfolding found_def by (force simp: List.map_filter_def)
  finally have rows: "set (rows ?m) = {r. \<exists>i\<in>set ?is. LoadRateLimit st i = Some r}" .
  have "fst (CheckVirtualKeyRateLimit st now sc (Some vk) req tb rb) = DecisionAllow \<longleftrightarrow>
      (\<forall>r\<in>set (rows ?m). rl_within now tb rb r)"
    unfolding CheckVirtualKeyRateLimit_def option.case CheckRateLimit_allow by (force simp: rows_def)
  then show ?thesis unfolding rows by (auto split: option.splits)
qed

lemma virtual_key_rate_limit_check_complete_witness:
  "fst (CheckVirtualKeyRateLimit sample_store 0 [] (Some sample_vk) (Some openai_request) [(''r'', 10)] []) \<noteq> DecisionAllow"
proof -
  have refs: "rate_limit_refs sample_store [] sample_vk (request_provider (Some openai_request)) = [''r'', ''r'']"
    by code_simp
  have "\<not> rl_within 0 [(''r'', 10)] [] hour_rate_limit"
    by (simp add: rl_within_def hour_rate_limit_def baseline_of_def sm_load_def wrap64_def limit_expired_def parse_1h)
  then show ?thesis by (simp add: virtual_key_rate_limit_check_complete refs)
qed



text \<open>A budget that the virtual key and its customer both name is charged twice for one request.\<close>

definition customer_store :: gov_store where
  "customer_store = sample_store\<lparr>st_customers := [(''c'', \<lparr>cu_ID = ''c'', cu_Name = ''c'', cu_RateLimitID = None,
     cu_Budgets = [hour_budget],
     cu_RateLimit = None, cu_CalendarAligned = False\<rparr>)]\<rparr>"

lemma shared_customer_budget_charged_twice:
  "collectBudgetIDsFromMemory customer_store [] (sample_vk\<lparr>vk_CustomerID := Some ''c''\<rparr>) ''openai'' = [''b'', ''b'']"
  by code_simp

text \<open>
  Rate limits are not deduplicated: a live rate limit that is both the virtual key's own
  and that of a provider config of the requested provider is charged at least twice for one
  request, while the identifier list stamped on the log row names it once.
\<close>

lemma shared_rate_limit_charged_twice:
  assumes "wf_hot st" "pc \<in> set (vk_ProviderConfigs vk)" "pc_Provider pc = p" "pc_RateLimitID pc = Some i"
    "vk_RateLimitID vk = Some i" "LoadRateLimit st i \<noteq> None"
  shows "2 \<le> count_list (collectRateLimitIDsFromMemory st sc vk p) i \<and>
    count_list (snd (CollectApplicableGovernanceIDs st sc v u q m)) i \<le> 1"
proof
  from split_list [OF assms(2)] obtain xs ys where s: "vk_ProviderConfigs vk = xs @ pc # ys" by blast
  have "2 \<le> count_list (live_ids st (rate_limit_refs st sc vk p)) i"
    using assms(3-6) by (simp add: rate_limit_refs_def s live_ids_def opt_list_def)
  then show "2 \<le> count_list (collectRateLimitIDsFromMemory st sc vk p) i"
    using hierarchy_rate_limit_ids [OF assms(1), of sc vk p] by (metis count_mset)
  show "count_list (snd (CollectApplicableGovernanceIDs st sc v u q m)) i \<le> 1"
    using collected_ids_distinct [of st sc v u q m] distinct_count_atmost_1 by (metis count_mset le_numeral_extra(4) zero_le)
qed

lemma shared_rate_limit_charged_twice_witness:
  "2 \<le> count_list (collectRateLimitIDsFromMemory sample_store [] sample_vk ''openai'') ''r'' \<and>
   count_list (snd (CollectApplicableGovernanceIDs sample_store [] ''sk-uf-1'' [] ''openai'' ''gpt'')) ''r'' \<le> 1"
  by (rule shared_rate_limit_charged_twice [where pc = sample_pc])
    (simp_all add: sample_vk_def sample_pc_def)

text \<open>
  The model tiers of a scope are met once each: the configs collected for a request have
  pairwise different identifiers, and each of them is stored under one of the four tier keys
  (exact model with and without provider, all models with and without provider; without a
  provider the model may also be its base name).
\<close>

definition tier_key :: "gov_store \<Rightarrow> string \<Rightarrow> string option \<Rightarrow> string \<Rightarrow> string option \<Rightarrow> bool" where
  "tier_key st model provider name p \<longleftrightarrow>
     (p = None \<or> p = provider) \<and>
     (name = model \<or> name = ModelConfigAllModels \<or>
      (p = None \<and> (case st_modelCatalog st of None \<Rightarrow> False | Some base \<Rightarrow> name = base model)))"

lemma tier_key_intros:
  "tier_key st model provider model None" "tier_key st model provider model provider"
  "tier_key st model provider ModelConfigAllModels None"
  "tier_key st model provider ModelConfigAllModels provider"
  "st_modelCatalog st = Some base \<Longrightarrow> tier_key st model provider (base model) None"
  by (simp_all add: tier_key_def)

lemma set_add_config: "set (add_config c acc) \<subseteq> set_option c \<union> set acc"
  by (auto simp: add_config_def split: option.split)

lemma set_collectModelConfigs:
  "set (collectModelConfigsFor st scope i model provider) \<subseteq>
     (if provider = None then {} else
        set_option (load_model_config st scope i model provider) \<union>
        set_option (load_model_config st scope i ModelConfigAllModels provider)) \<union>
     fst ` set_option (findScopedModelOnlyConfig st scope i model) \<union>
     set_option (load_model_config st scope i ModelConfigAllModels None)"
  unfolding collectModelConfigsFor_def Let_def
  by (auto dest!: set_add_config [THEN subsetD] simp: option.set_map)

lemma findScoped_tier:
  "findScopedModelOnlyConfig st scope i model = Some (mc, name) \<Longrightarrow>
     load_model_config st scope i name None = Some mc \<and> tier_key st model provider name None"
  by (auto simp: findScopedModelOnlyConfig_def Let_def tier_key_intros split: option.splits if_splits)

lemma model_tiers:
  "distinct (map mc_ID (collectModelConfigsFor st scope i model provider)) \<and>
   (\<forall>mc\<in>set (collectModelConfigsFor st scope i model provider).
      \<exists>name p. load_model_config st scope i name p = Some mc \<and> tier_key st model provider name p)"
proof
  show "distinct (map mc_ID (collectModelConfigsFor st scope i model provider))"
    by (rule collectModelConfigs_distinct)
  show "\<forall>mc\<in>set (collectModelConfigsFor st scope i model provider).
      \<exists>name p. load_model_config st scope i name p = Some mc \<and> tier_key st model provider name p"
  proof
    fix mc
    assume "mc \<in> set (collectModelConfigsFor st scope i model provider)"
    then have "load_model_config st scope i model provider = Some mc \<or>
        load_model_config st scope i ModelConfigAllModels provider = Some mc \<or>
        (\<exists>name. findScopedModelOnlyConfig st scope i model = Some (mc, name)) \<or>
        load_model_config st scope i ModelConfigAllModels None = Some mc"
      using set_collectModelConfigs [of st scope i model provider, THEN subsetD, of mc]
      by (cases "provider = None") (simp_all add: image_iff, auto)
    then show "\<exists>name p. load_model_config st scope i name p = Some mc \<and> tier_key st model provider name p"
      using tier_key_intros findScoped_tier by metis
  qed
qed

lemma model_tiers_witness:
  "\<exists>name p. load_model_config (empty_store\<lparr>st_modelConfigs := [(''*'', undefined\<lparr>mc_ID := ''m''\<rparr>)]\<rparr>) [] [] name p =
      Some (undefined\<lparr>mc_ID := ''m''\<rparr>) \<and>
    tier_key (empty_store\<lparr>st_modelConfigs := [(''*'', undefined\<lparr>mc_ID := ''m''\<rparr>)]\<rparr>) ''gpt'' None name p"
proof -
  let ?st = "empty_store\<lparr>st_modelConfigs := [(''*'', undefined\<lparr>mc_ID := ''m''\<rparr>)]\<rparr>"
  have "undefined\<lparr>mc_ID := ''m''\<rparr> \<in> set (collectModelConfigsFor ?st [] [] ''gpt'' None)"
    by (simp add: collectModelConfigsFor_def findScopedModelOnlyConfig_def load_model_config_def
        modelConfigStoreKey_def ModelConfigAllModels_def empty_store_def sm_load_def add_config_def)
  with model_tiers [of ?st "[]" "[]" "''gpt''" None] show ?thesis by blast
qed

text \<open>
  The entity key of a model config is not injective: a config for a model that is
  literally named \<^verbatim>\<open>AllModels\<close> has the key of the all-models config of its scope, so its
  exhausted budget is overwritten in the map and the request is allowed.
\<close>

definition named_config :: "string \<Rightarrow> string \<Rightarrow> budget \<Rightarrow> model_config" where
  "named_config i name b = \<lparr>mc_ID = i, mc_ModelName = name, mc_Provider = None, mc_Scope = ModelConfigScopeGlobal,
     mc_ScopeID = None, mc_CalendarAligned = False, mc_BudgetID = None, mc_RateLimitID = None,
     mc_Budgets = [b], mc_RateLimit = None\<rparr>"

definition spent_budget :: budget where
  "spent_budget = hour_budget\<lparr>bg_ID := ''spent'', bg_CurrentUsage := 50\<rparr>"

definition collision_store :: gov_store where
  "collision_store = empty_store
     \<lparr>st_budgets := [(''b'', hour_budget), (''spent'', spent_budget)],
      st_modelConfigs := [(''AllModels'', named_config ''m1'' ''AllModels'' spent_budget),
                          (''*'', named_config ''m2'' ''*'' hour_budget)]\<rparr>"

lemma entity_key_collision:
  "fst (CheckModelBudget collision_store 0 (Some \<lparr>er_VirtualKey = [], er_Provider = [], er_Model = ''AllModels'', er_UserID = []\<rparr>) []) = DecisionAllow \<and>
   fst (CheckBudget 0 [(''Model:AllModels'', [spent_budget])] []) = DecisionBudgetExceeded \<and>
   map mc_ID (collectModelConfigsFor collision_store ModelConfigScopeGlobal [] ''AllModels'' None) = [''m1'', ''m2'']"
  by code_simp

end
