(* ===== verification/GovCrud.thy ===== *)
theory GovCrud
  imports GovHierarchy
begin

text \<open>
  The in-memory create, update and delete operations of the governance store
  (plugins/governance/store.go) and the rebuild of the store from the loaded rows. A nil
  pointer argument is \<open>None\<close>. The baseline arguments, which the functions ignore, are left
  out. The compiled routing programs of the third-party CEL library are no part of the state.
\<close>

subsection \<open>Shared steps\<close>

definition store_budgets :: "budget list \<Rightarrow> gov_store \<Rightarrow> gov_store" where
  "store_budgets bs st = fold (\<lambda>b. put_budget (bg_ID b) b) bs st"

definition store_rate_limit :: "rate_limit option \<Rightarrow> gov_store \<Rightarrow> gov_store" where
  "store_rate_limit r st = (case r of None \<Rightarrow> st | Some x \<Rightarrow> put_rate_limit (rl_ID x) x st)"

text \<open>Budgets of an updated owner: usage and last reset come from the live row, the alignment
  from the owner; the rows are stored.\<close>

fun sync_budgets :: "bool \<Rightarrow> budget list \<Rightarrow> gov_store \<Rightarrow> budget list \<times> gov_store" where
  "sync_budgets ca [] st = ([], st)"
| "sync_budgets ca (b # bs) st =
     (let b1 = (case LoadBudget st (bg_ID b) of None \<Rightarrow> b | Some old \<Rightarrow> keep_budget_usage old b);
          b2 = stamp_budget ca b1
      in case sync_budgets ca bs (put_budget (bg_ID b2) b2 st) of (bs', st') \<Rightarrow> (b2 # bs', st'))"

definition delete_missing_budgets :: "string list \<Rightarrow> string list \<Rightarrow> gov_store \<Rightarrow> gov_store" where
  "delete_missing_budgets keep olds st =
     fold (\<lambda>i s. if i \<in> set keep then s else DeleteBudget s i) olds st"

definition sync_rate_limit_row :: "bool \<Rightarrow> rate_limit \<Rightarrow> gov_store \<Rightarrow> rate_limit \<times> gov_store" where
  "sync_rate_limit_row ca r st =
     (let r1 = (case LoadRateLimit st (rl_ID r) of None \<Rightarrow> r | Some old \<Rightarrow> keep_rate_limit_usage old r);
          r2 = stamp_rate_limit ca r1
      in (r2, put_rate_limit (rl_ID r2) r2 st))"

text \<open>The rate limit of an owner: the new one is stored and a replaced or removed one deleted.\<close>

definition sync_owner_rate_limit ::
  "bool \<Rightarrow> rate_limit option \<Rightarrow> rate_limit option \<Rightarrow> gov_store \<Rightarrow> rate_limit option \<times> gov_store" where
  "sync_owner_rate_limit ca new old st =
     (case new of
        Some r \<Rightarrow>
          (case sync_rate_limit_row ca r st of (r', st1) \<Rightarrow>
             (Some r', case old of
                None \<Rightarrow> st1
              | Some prev \<Rightarrow> if rl_ID prev \<noteq> rl_ID r' then DeleteRateLimit st1 (rl_ID prev) else st1))
      | None \<Rightarrow> (None, case old of None \<Rightarrow> st | Some prev \<Rightarrow> DeleteRateLimit st (rl_ID prev)))"

subsection \<open>Virtual keys\<close>

definition CreateVirtualKeyInMemory :: "gov_store \<Rightarrow> virtual_key option \<Rightarrow> gov_store" where
  "CreateVirtualKeyInMemory st vk =
     (case vk of
        None \<Rightarrow> st
      | Some v \<Rightarrow>
          let clone = virtual_key_AfterFind v;
              st1 = store_budgets (vk_Budgets clone) st;
              st2 = store_rate_limit (vk_RateLimit clone) st1;
              st3 = fold (\<lambda>pc s. store_rate_limit (pc_RateLimit pc) (store_budgets (pc_Budgets pc) s))
                      (vk_ProviderConfigs clone) st2
          in storeVirtualKey st3 (vk_Value clone) clone)"

definition find_existing_vk :: "gov_store \<Rightarrow> virtual_key \<Rightarrow> (string \<times> virtual_key) option" where
  "find_existing_vk st vk =
     (case (case GetVirtualKey st (vk_Value vk) of
              None \<Rightarrow> None
            | Some e \<Rightarrow> if vk_ID e = vk_ID vk then Some (vk_Value vk, e) else None) of
        Some x \<Rightarrow> Some x
      | None \<Rightarrow> find (\<lambda>(k, e). vk_ID e = vk_ID vk) (st_virtualKeys st))"

definition all_budget_ids :: "virtual_key \<Rightarrow> string list" where
  "all_budget_ids vk = map bg_ID (vk_Budgets vk) @ concat (map (\<lambda>pc. map bg_ID (pc_Budgets pc)) (vk_ProviderConfigs vk))"

definition all_rate_limit_ids :: "virtual_key \<Rightarrow> string list" where
  "all_rate_limit_ids vk = map rl_ID (opt_list (vk_RateLimit vk)) @
     concat (map (\<lambda>pc. map rl_ID (opt_list (pc_RateLimit pc))) (vk_ProviderConfigs vk))"

definition existing_pc :: "provider_config list \<Rightarrow> nat \<Rightarrow> provider_config option" where
  "existing_pc pcs i = find (\<lambda>pc. pc_ID pc = i) (rev pcs)"

text \<open>One provider config of the updated key against the one with its ID in the old key.\<close>

definition sync_pc ::
  "bool \<Rightarrow> string list \<Rightarrow> provider_config list \<Rightarrow> provider_config \<Rightarrow> gov_store \<Rightarrow> provider_config \<times> gov_store" where
  "sync_pc ca newIDs oldPCs pc st =
     (let old = existing_pc oldPCs (pc_ID pc) in
      case (case pc_RateLimit pc of
              Some r \<Rightarrow> (case sync_rate_limit_row ca r st of (r', st1) \<Rightarrow> (pc\<lparr>pc_RateLimit := Some r'\<rparr>, st1))
            | None \<Rightarrow>
                (case old of
                   None \<Rightarrow> (pc, st)
                 | Some opc \<Rightarrow> (case pc_RateLimit opc of
                       None \<Rightarrow> (pc, st)
                     | Some r \<Rightarrow> (pc, DeleteRateLimit st (rl_ID r))))) of
        (pc1, st1) \<Rightarrow>
          (case sync_budgets ca (pc_Budgets pc1) st1 of
             (bs, st2) \<Rightarrow>
               (pc1\<lparr>pc_Budgets := bs\<rparr>,
                case old of
                  None \<Rightarrow> st2
                | Some opc \<Rightarrow> delete_missing_budgets newIDs (map bg_ID (pc_Budgets opc)) st2)))"

fun sync_pcs ::
  "bool \<Rightarrow> string list \<Rightarrow> provider_config list \<Rightarrow> provider_config list \<Rightarrow> gov_store \<Rightarrow> provider_config list \<times> gov_store" where
  "sync_pcs ca newIDs oldPCs [] st = ([], st)"
| "sync_pcs ca newIDs oldPCs (pc # pcs) st =
     (case sync_pc ca newIDs oldPCs pc st of (pc', st1) \<Rightarrow>
      (case sync_pcs ca newIDs oldPCs pcs st1 of (pcs', st2) \<Rightarrow> (pc' # pcs', st2)))"

definition clean_old_pcs :: "string list \<Rightarrow> string list \<Rightarrow> provider_config list \<Rightarrow> gov_store \<Rightarrow> gov_store" where
  "clean_old_pcs newBudgetIDs newRateLimitIDs oldPCs st =
     fold (\<lambda>pc s.
        let s1 = (case pc_RateLimit pc of
                    None \<Rightarrow> s
                  | Some r \<Rightarrow> if rl_ID r \<in> set newRateLimitIDs then s else DeleteRateLimit s (rl_ID r))
        in delete_missing_budgets newBudgetIDs (map bg_ID (pc_Budgets pc)) s1) oldPCs st"

text \<open>\<open>nilPCs\<close>: whether the slice of provider configs of the argument is nil (and so empty).\<close>

definition UpdateVirtualKeyInMemory :: "gov_store \<Rightarrow> bool \<Rightarrow> virtual_key option \<Rightarrow> gov_store" where
  "UpdateVirtualKeyInMemory st nilPCs vk =
     (case vk of
        None \<Rightarrow> st
      | Some v \<Rightarrow>
          (case find_existing_vk st v of
             None \<Rightarrow> CreateVirtualKeyInMemory st (Some v)
           | Some (existingVKKey, existingVK) \<Rightarrow>
               let ca = vk_CalendarAligned v; newIDs = all_budget_ids v in
               case sync_budgets ca (vk_Budgets v) st of (bs, st1) \<Rightarrow>
               let st2 = delete_missing_budgets newIDs (map bg_ID (vk_Budgets existingVK)) st1 in
               case sync_owner_rate_limit ca (vk_RateLimit v) (vk_RateLimit existingVK) st2 of (rl, st3) \<Rightarrow>
               case (if nilPCs then (vk_ProviderConfigs v, st3)
                     else case sync_pcs ca newIDs (vk_ProviderConfigs existingVK) (vk_ProviderConfigs v) st3 of
                         (pcs, s) \<Rightarrow> (pcs, clean_old_pcs newIDs (all_rate_limit_ids v) (vk_ProviderConfigs existingVK) s))
               of (pcs, st4) \<Rightarrow>
               let st5 = (if existingVKKey \<noteq> [] \<and> existingVKKey \<noteq> vk_Value v
                          then deleteVirtualKeyByValue st4 existingVKKey else st4)
               in storeVirtualKey st5 (vk_Value v)
                    (v\<lparr>vk_Budgets := bs, vk_RateLimit := rl, vk_ProviderConfigs := pcs\<rparr>)))"

definition delete_budgets :: "string list \<Rightarrow> gov_store \<Rightarrow> gov_store" where
  "delete_budgets is st = fold (\<lambda>i s. DeleteBudget s i) is st"

definition delete_rate_limits :: "string list \<Rightarrow> gov_store \<Rightarrow> gov_store" where
  "delete_rate_limits is st = fold (\<lambda>i s. DeleteRateLimit s i) is st"

definition DeleteModelConfigsForScopeInMemory :: "gov_store \<Rightarrow> string \<Rightarrow> string \<Rightarrow> gov_store" where
  "DeleteModelConfigsForScopeInMemory st scope scopeID =
     fold (\<lambda>(key, mc) s.
        if mc_Scope mc = scope \<and> mc_ScopeID mc = Some scopeID then
          (let s1 = delete_budgets (map bg_ID (mc_Budgets mc) @ opt_list (mc_BudgetID mc)) s;
               s2 = delete_rate_limits (opt_list (mc_RateLimitID mc)) s1
           in s2\<lparr>st_modelConfigs := sm_delete key (st_modelConfigs s2)\<rparr>)
        else s) (st_modelConfigs st) st"

definition DeleteVirtualKeyInMemory :: "gov_store \<Rightarrow> string \<Rightarrow> gov_store" where
  "DeleteVirtualKeyInMemory st vkID =
     (if vkID = [] then st
      else let st1 =
        (case find (\<lambda>(k, vk). vk_ID vk = vkID) (st_virtualKeys st) of
           None \<Rightarrow> st
         | Some (key, vk) \<Rightarrow>
             let s1 = delete_budgets (map bg_ID (vk_Budgets vk)) st;
                 s2 = delete_rate_limits (opt_list (vk_RateLimitID vk)) s1;
                 s3 = fold (\<lambda>pc s. delete_rate_limits (opt_list (pc_RateLimitID pc))
                        (delete_budgets (map bg_ID (pc_Budgets pc)) s)) (vk_ProviderConfigs vk) s2
             in deleteVirtualKeyByValue s3 key)
      in DeleteModelConfigsForScopeInMemory st1 ModelConfigScopeVirtualKey vkID)"

subsection \<open>Teams and customers\<close>

definition CreateTeamInMemory :: "gov_store \<Rightarrow> team option \<Rightarrow> gov_store" where
  "CreateTeamInMemory st t =
     (case t of
        None \<Rightarrow> st
      | Some t0 \<Rightarrow>
          let clone = team_AfterFind t0;
              st1 = store_rate_limit (tm_RateLimit clone) (store_budgets (tm_Budgets clone) st)
          in st1\<lparr>st_teams := sm_store (tm_ID clone) clone (st_teams st1)\<rparr>)"

definition UpdateTeamInMemory :: "gov_store \<Rightarrow> team option \<Rightarrow> gov_store" where
  "UpdateTeamInMemory st t =
     (case t of
        None \<Rightarrow> st
      | Some t0 \<Rightarrow>
          (case sm_load (st_teams st) (tm_ID t0) of
             None \<Rightarrow> CreateTeamInMemory st (Some t0)
           | Some existing \<Rightarrow>
               case sync_budgets (tm_CalendarAligned t0) (tm_Budgets t0) st of (bs, st1) \<Rightarrow>
               let st2 = delete_missing_budgets (map bg_ID (tm_Budgets t0)) (remdups (map bg_ID (tm_Budgets existing))) st1 in
               case sync_owner_rate_limit (tm_CalendarAligned t0) (tm_RateLimit t0) (tm_RateLimit existing) st2 of (rl, st3) \<Rightarrow>
               st3\<lparr>st_teams := sm_store (tm_ID t0) (t0\<lparr>tm_Budgets := bs, tm_RateLimit := rl\<rparr>) (st_teams st3)\<rparr>))"

definition DeleteTeamInMemory :: "gov_store \<Rightarrow> string \<Rightarrow> gov_store" where
  "DeleteTeamInMemory st teamID =
     (if teamID = [] then st
      else let st1 =
        (case sm_load (st_teams st) teamID of
           None \<Rightarrow> st
         | Some t \<Rightarrow> delete_rate_limits (opt_list (tm_RateLimitID t)) (delete_budgets (map bg_ID (tm_Budgets t)) st));
          st2 = update_vks (\<lambda>vk. vk_TeamID vk = Some teamID) (\<lambda>vk. vk\<lparr>vk_TeamID := None, vk_Team := None\<rparr>)
                  (st_virtualKeys st1) st1
      in st2\<lparr>st_teams := sm_delete teamID (st_teams st2)\<rparr>)"

definition CreateCustomerInMemory :: "gov_store \<Rightarrow> customer option \<Rightarrow> gov_store" where
  "CreateCustomerInMemory st c =
     (case c of
        None \<Rightarrow> st
      | Some c0 \<Rightarrow>
          let clone = customer_AfterFind c0;
              st1 = store_rate_limit (cu_RateLimit clone) (store_budgets (cu_Budgets clone) st)
          in st1\<lparr>st_customers := sm_store (cu_ID clone) clone (st_customers st1)\<rparr>)"

definition UpdateCustomerInMemory :: "gov_store \<Rightarrow> customer option \<Rightarrow> gov_store" where
  "UpdateCustomerInMemory st c =
     (case c of
        None \<Rightarrow> st
      | Some c0 \<Rightarrow>
          (case sm_load (st_customers st) (cu_ID c0) of
             None \<Rightarrow> CreateCustomerInMemory st (Some c0)
           | Some existing \<Rightarrow>
               case sync_budgets (cu_CalendarAligned c0) (cu_Budgets c0) st of (bs, st1) \<Rightarrow>
               let st2 = delete_missing_budgets (map bg_ID (cu_Budgets c0)) (map bg_ID (cu_Budgets existing)) st1 in
               case sync_owner_rate_limit (cu_CalendarAligned c0) (cu_RateLimit c0) (cu_RateLimit existing) st2 of (rl, st3) \<Rightarrow>
               st3\<lparr>st_customers := sm_store (cu_ID c0) (c0\<lparr>cu_Budgets := bs, cu_RateLimit := rl\<rparr>) (st_customers st3)\<rparr>))"

definition DeleteCustomerInMemory :: "gov_store \<Rightarrow> string \<Rightarrow> gov_store" where
  "DeleteCustomerInMemory st customerID =
     (if customerID = [] then st
      else let st1 =
        (case sm_load (st_customers st) customerID of
           None \<Rightarrow> st
         | Some c \<Rightarrow> delete_rate_limits (opt_list (cu_RateLimitID c)) (delete_budgets (map bg_ID (cu_Budgets c)) st));
          st2 = update_vks (\<lambda>vk. vk_CustomerID vk = Some customerID)
                  (\<lambda>vk. vk\<lparr>vk_CustomerID := None, vk_Customer := None\<rparr>) (st_virtualKeys st1) st1;
          st3 = st2\<lparr>st_teams := sm_update_where (\<lambda>t. tm_CustomerID t = Some customerID)
                  (\<lambda>t. t\<lparr>tm_CustomerID := None, tm_Customer := None\<rparr>) (st_teams st2)\<rparr>
      in st3\<lparr>st_customers := sm_delete customerID (st_customers st3)\<rparr>)"

subsection \<open>Users, model configs and providers\<close>

text \<open>\<^verbatim>\<open>upsertUserGovernanceInMemory\<close>, which the create and the update operation call. The
  usage copied into the argument before the upsert is what the upsert copies again.\<close>

definition upsertUserGovernanceInMemory ::
  "gov_store \<Rightarrow> string \<Rightarrow> budget option \<Rightarrow> rate_limit option \<Rightarrow> gov_store" where
  "upsertUserGovernanceInMemory st userID b r =
     (if userID = [] then st
      else let ug0 = (case GetUserGovernance st userID of
                        None \<Rightarrow> \<lparr>ug_BudgetID = None, ug_RateLimitID = None\<rparr>
                      | Some ug \<Rightarrow> ug);
               (ug1, st1) = (case b of
                   None \<Rightarrow> (ug0, st)
                 | Some x \<Rightarrow> if bg_ID x = [] then (ug0, st)
                     else (ug0\<lparr>ug_BudgetID := Some (bg_ID x)\<rparr>,
                       UpsertBudgetConfig st (bg_ID x)
                         (Some (case LoadBudget st (bg_ID x) of None \<Rightarrow> x | Some old \<Rightarrow> keep_budget_usage old x))));
               (ug2, st2) = (case r of
                   None \<Rightarrow> (ug1, st1)
                 | Some x \<Rightarrow> if rl_ID x = [] then (ug1, st1)
                     else (ug1\<lparr>ug_RateLimitID := Some (rl_ID x)\<rparr>,
                       UpsertRateLimitConfig st1 (rl_ID x)
                         (Some (case LoadRateLimit st1 (rl_ID x) of None \<Rightarrow> x | Some old \<Rightarrow> keep_rate_limit_usage old x))))
           in st2\<lparr>st_users := sm_store userID ug2 (st_users st2)\<rparr>)"

definition CreateUserGovernanceInMemory ::
  "gov_store \<Rightarrow> string \<Rightarrow> budget option \<Rightarrow> rate_limit option \<Rightarrow> gov_store" where
  "CreateUserGovernanceInMemory st userID b r = upsertUserGovernanceInMemory st userID b r"

definition UpdateUserGovernanceInMemory ::
  "gov_store \<Rightarrow> string \<Rightarrow> budget option \<Rightarrow> rate_limit option \<Rightarrow> gov_store" where
  "UpdateUserGovernanceInMemory st userID b r = upsertUserGovernanceInMemory st userID b r"

definition DeleteUserGovernanceInMemory :: "gov_store \<Rightarrow> string \<Rightarrow> gov_store" where
  "DeleteUserGovernanceInMemory st userID =
     (if userID = [] then st
      else let st1 =
        (case GetUserGovernance st userID of
           None \<Rightarrow> st
         | Some ug \<Rightarrow> delete_rate_limits (opt_list (ug_RateLimitID ug)) (delete_budgets (opt_list (ug_BudgetID ug)) st))
      in st1\<lparr>st_users := sm_delete userID (st_users st1)\<rparr>)"

definition model_config_key :: "gov_store \<Rightarrow> model_config \<Rightarrow> string" where
  "model_config_key st mc =
     (let scopeID = (case mc_ScopeID mc of None \<Rightarrow> [] | Some i \<Rightarrow> i) in
      case mc_Provider mc of
        Some p \<Rightarrow> modelConfigStoreKey (mc_Scope mc) scopeID (mc_ModelName mc) (Some p)
      | None \<Rightarrow>
          let modelKey = (case st_modelCatalog st of
                None \<Rightarrow> mc_ModelName mc
              | Some base \<Rightarrow> if mc_ModelName mc \<noteq> ModelConfigAllModels then base (mc_ModelName mc) else mc_ModelName mc)
          in modelConfigStoreKey (mc_Scope mc) scopeID modelKey None)"

text \<open>The rate limits of model configs and providers keep their usage but take the last resets
  of the argument; the budget of a provider likewise.\<close>

definition keep_rate_limit_counts :: "rate_limit \<Rightarrow> rate_limit \<Rightarrow> rate_limit" where
  "keep_rate_limit_counts old r =
     r\<lparr>rl_TokenCurrentUsage := rl_TokenCurrentUsage old, rl_RequestCurrentUsage := rl_RequestCurrentUsage old\<rparr>"

definition live_rate_limit_counts :: "gov_store \<Rightarrow> rate_limit \<Rightarrow> rate_limit" where
  "live_rate_limit_counts st r =
     (case LoadRateLimit st (rl_ID r) of None \<Rightarrow> r | Some old \<Rightarrow> keep_rate_limit_counts old r)"

definition UpdateModelConfigInMemory :: "gov_store \<Rightarrow> model_config option \<Rightarrow> model_config option \<times> gov_store" where
  "UpdateModelConfigInMemory st mc =
     (case mc of
        None \<Rightarrow> (None, st)
      | Some m \<Rightarrow>
          (case sync_budgets (mc_CalendarAligned m) (mc_Budgets m) st of (bs, st1) \<Rightarrow>
           let rl = map_option (\<lambda>r. live_rate_limit_counts st1 (stamp_rate_limit (mc_CalendarAligned m) r)) (mc_RateLimit m);
               st2 = store_rate_limit rl st1;
               clone = m\<lparr>mc_Budgets := bs, mc_RateLimit := rl\<rparr>
           in (Some clone, st2\<lparr>st_modelConfigs := sm_store (model_config_key st2 clone) clone (st_modelConfigs st2)\<rparr>)))"

definition DeleteModelConfigInMemory :: "gov_store \<Rightarrow> string \<Rightarrow> gov_store" where
  "DeleteModelConfigInMemory st mcID =
     (if mcID = [] then st
      else case find (\<lambda>(k, mc). mc_ID mc = mcID) (st_modelConfigs st) of
          None \<Rightarrow> st
        | Some (key, mc) \<Rightarrow>
            let s1 = delete_rate_limits (opt_list (mc_RateLimitID mc)) (delete_budgets (map bg_ID (mc_Budgets mc)) st)
            in s1\<lparr>st_modelConfigs := sm_delete key (st_modelConfigs s1)\<rparr>)"

definition ScopedModelConfigIDs :: "gov_store \<Rightarrow> string \<Rightarrow> string \<Rightarrow> string list" where
  "ScopedModelConfigIDs st scope scopeID =
     map (mc_ID \<circ> snd) (filter (\<lambda>(k, mc). mc_Scope mc = scope \<and>
       (case mc_ScopeID mc of None \<Rightarrow> [] | Some i \<Rightarrow> i) = scopeID) (st_modelConfigs st))"

definition UpdateProviderInMemory :: "gov_store \<Rightarrow> provider_row option \<Rightarrow> provider_row option \<times> gov_store" where
  "UpdateProviderInMemory st p =
     (case p of
        None \<Rightarrow> (None, st)
      | Some p0 \<Rightarrow>
          let b = map_option (\<lambda>b. case LoadBudget st (bg_ID b) of
                      None \<Rightarrow> b | Some old \<Rightarrow> b\<lparr>bg_CurrentUsage := bg_CurrentUsage old\<rparr>) (pr_Budget p0);
              st1 = (case b of None \<Rightarrow> st | Some x \<Rightarrow> put_budget (bg_ID x) x st);
              rl = map_option (live_rate_limit_counts st1) (pr_RateLimit p0);
              st2 = store_rate_limit rl st1;
              clone = p0\<lparr>pr_Budget := b, pr_RateLimit := rl\<rparr>
          in (Some clone, st2\<lparr>st_providers := sm_store (pr_Name clone) clone (st_providers st2)\<rparr>))"

definition DeleteProviderInMemory :: "gov_store \<Rightarrow> string \<Rightarrow> gov_store" where
  "DeleteProviderInMemory st providerName =
     (if providerName = [] then st
      else let st1 =
        (case sm_load (st_providers st) providerName of
           None \<Rightarrow> st
         | Some p \<Rightarrow> delete_rate_limits (opt_list (pr_RateLimitID p)) (delete_budgets (opt_list (pr_BudgetID p)) st))
      in st1\<lparr>st_providers := sm_delete providerName (st_providers st1)\<rparr>)"

subsection \<open>Rebuilding the store\<close>

text \<open>The loaded rows; \<open>ld_users\<close> are the users of the config store with their budget and
  rate-limit columns (\<open>None\<close> when there is no config store or it fails), \<open>ld_businessUnits\<close>
  its business units with their teams.\<close>

record loaded_rows =
  ld_customers :: "customer list"
  ld_teams :: "team list"
  ld_virtualKeys :: "virtual_key list"
  ld_budgets :: "budget list"
  ld_rateLimits :: "rate_limit list"
  ld_modelConfigs :: "model_config list"
  ld_providers :: "provider_row list"
  ld_routingRules :: "routing_rule list"
  ld_users :: "(string \<times> user_governance) list option"
  ld_businessUnits :: "(bu_stamp \<times> string list) list option"

definition load_user_of_budget :: "budget \<Rightarrow> gov_store \<Rightarrow> gov_store" where
  "load_user_of_budget b st =
     (case bg_UserID b of
        None \<Rightarrow> st
      | Some uid \<Rightarrow>
          if uid = [] then st
          else st\<lparr>st_users := sm_store uid
            \<lparr>ug_BudgetID = Some (bg_ID b),
             ug_RateLimitID = (case GetUserGovernance st uid of None \<Rightarrow> None | Some ug \<Rightarrow> ug_RateLimitID ug)\<rparr> (st_users st)\<rparr>)"

definition load_user_row :: "string \<times> user_governance \<Rightarrow> gov_store \<Rightarrow> gov_store" where
  "load_user_row u st =
     (case u of (i, ug) \<Rightarrow>
        if i = [] \<or> (ug_BudgetID ug = None \<and> ug_RateLimitID ug = None) then st
        else st\<lparr>st_users := sm_store i ug (st_users st)\<rparr>)"

definition load_model_config_row :: "model_config \<Rightarrow> gov_store \<Rightarrow> gov_store" where
  "load_model_config_row mc st =
     (let ca = mc_CalendarAligned mc;
          bs = map (stamp_budget ca) (mc_Budgets mc);
          rl = map_option (stamp_rate_limit ca) (mc_RateLimit mc);
          st1 = store_rate_limit rl (store_budgets bs st);
          mc' = mc\<lparr>mc_Budgets := bs, mc_RateLimit := rl\<rparr>
      in st1\<lparr>st_modelConfigs := sm_store (model_config_key st1 mc') mc' (st_modelConfigs st1)\<rparr>)"

definition stamp_customer_rows :: "customer \<Rightarrow> gov_store \<Rightarrow> gov_store" where
  "stamp_customer_rows c st =
     (let bs = map (stamp_budget (cu_CalendarAligned c)) (cu_Budgets c);
          st0 = store_budgets bs st;
          st1 = st0\<lparr>st_customers := sm_store (cu_ID c) (c\<lparr>cu_Budgets := bs\<rparr>) (st_customers st0)\<rparr> in
      case cu_RateLimitID c of
        None \<Rightarrow> st1
      | Some i \<Rightarrow> (case LoadRateLimit st1 i of
            None \<Rightarrow> st1
          | Some r \<Rightarrow> put_rate_limit i (stamp_rate_limit (cu_CalendarAligned c) r) st1))"

definition reloadBusinessUnitTeamIndex :: "gov_store \<Rightarrow> (bu_stamp \<times> string list) list option \<Rightarrow> gov_store" where
  "reloadBusinessUnitTeamIndex st units =
     st\<lparr>st_businessUnitsByTeam :=
       fold (\<lambda>(stamp, teamIDs) m.
           fold (\<lambda>teamID m. if teamID = [] then m
                   else sm_store teamID ((case sm_load m teamID of None \<Rightarrow> [] | Some l \<Rightarrow> l) @ [stamp]) m) teamIDs m)
         (case units of None \<Rightarrow> [] | Some rs \<Rightarrow> rs) []\<rparr>"

text \<open>\<^verbatim>\<open>sort.Slice\<close> by priority. The order it gives to rules of the same priority is
  unspecified; the model keeps the one they came in, as the insertion sort that Go runs on up to
  twelve elements does.\<close>

definition sort_rules :: "routing_rule list \<Rightarrow> routing_rule list" where
  "sort_rules = sort_key rr_Priority"

definition rule_load_key :: "routing_rule \<Rightarrow> string" where
  "rule_load_key r = rr_Scope r @ '':'' @ (case rr_ScopeID r of None \<Rightarrow> [] | Some i \<Rightarrow> i)"

definition load_routing_rules :: "routing_rule list \<Rightarrow> routing_rule list smap" where
  "load_routing_rules rs =
     map (\<lambda>(key, rules). (key, sort_rules rules))
       (fold (\<lambda>r m. sm_store (rule_load_key r)
                ((case sm_load m (rule_load_key r) of None \<Rightarrow> [] | Some l \<Rightarrow> l) @ [r]) m) rs [])"

definition rebuildInMemoryStructures :: "gov_store \<Rightarrow> loaded_rows \<Rightarrow> gov_store" where
  "rebuildInMemoryStructures st ld =
     (let st0 = st\<lparr>st_virtualKeys := [], st_virtualKeysByID := [],
                 st_teams := fold (\<lambda>t. sm_store (tm_ID t) t) (ld_teams ld) [],
                 st_customers := fold (\<lambda>c. sm_store (cu_ID c) c) (ld_customers ld) [],
                 st_budgets := [], st_rateLimits := [], st_modelConfigs := [], st_providers := [], st_users := [],
                 st_routingRules := [], st_businessUnitsByTeam := []\<rparr>;
          st1 = fold (\<lambda>b s. load_user_of_budget b (put_budget (bg_ID b) b s)) (ld_budgets ld) st0;
          st2 = reloadBusinessUnitTeamIndex
                  (case ld_users ld of None \<Rightarrow> st1 | Some us \<Rightarrow> fold load_user_row us st1) (ld_businessUnits ld);
          st3 = fold (\<lambda>r. put_rate_limit (rl_ID r) r) (ld_rateLimits ld) st2;
          st4 = fold (\<lambda>vk s. storeVirtualKey s (vk_Value vk) vk) (ld_virtualKeys ld) st3;
          st5 = fold load_model_config_row (ld_modelConfigs ld) st4;
          st6 = fold stamp_customer_rows (ld_customers ld) st5;
          st7 = st6\<lparr>st_providers := fold (\<lambda>p. sm_store (pr_Name p) p) (ld_providers ld) [],
                    st_routingRules := load_routing_rules (ld_routingRules ld)\<rparr>
      in st7\<lparr>st_lastDBBudgets := fold (\<lambda>b. sm_store (bg_ID b) (bg_CurrentUsage b)) (ld_budgets ld) [],
             st_lastDBRequests := fold (\<lambda>r. sm_store (rl_ID r) (rl_RequestCurrentUsage r)) (ld_rateLimits ld) [],
             st_lastDBTokens := fold (\<lambda>r. sm_store (rl_ID r) (rl_TokenCurrentUsage r)) (ld_rateLimits ld) []\<rparr>)"

subsection \<open>Budgets through the operations\<close>

lemma LoadBudget_frames [simp]:
  "LoadBudget (st\<lparr>st_teams := x\<rparr>) i = LoadBudget st i"
  "LoadBudget (st\<lparr>st_customers := y\<rparr>) i = LoadBudget st i"
  "LoadBudget (st\<lparr>st_modelConfigs := z\<rparr>) i = LoadBudget st i"
  "LoadBudget (st\<lparr>st_providers := p\<rparr>) i = LoadBudget st i"
  "LoadBudget (st\<lparr>st_users := u\<rparr>) i = LoadBudget st i"
  "LoadBudget (st\<lparr>st_virtualKeys := v\<rparr>) i = LoadBudget st i"
  "LoadBudget (st\<lparr>st_virtualKeysByID := v\<rparr>) i = LoadBudget st i"
  by (simp_all add: LoadBudget_def)

lemma LoadRateLimit_frames [simp]:
  "LoadRateLimit (st\<lparr>st_teams := x\<rparr>) i = LoadRateLimit st i"
  "LoadRateLimit (st\<lparr>st_customers := y\<rparr>) i = LoadRateLimit st i"
  "LoadRateLimit (st\<lparr>st_modelConfigs := z\<rparr>) i = LoadRateLimit st i"
  "LoadRateLimit (st\<lparr>st_providers := p\<rparr>) i = LoadRateLimit st i"
  "LoadRateLimit (st\<lparr>st_users := u\<rparr>) i = LoadRateLimit st i"
  "LoadRateLimit (st\<lparr>st_virtualKeys := v\<rparr>) i = LoadRateLimit st i"
  "LoadRateLimit (st\<lparr>st_virtualKeysByID := v\<rparr>) i = LoadRateLimit st i"
  by (simp_all add: LoadRateLimit_def)

lemma load_storeVirtualKey [simp]:
  "LoadBudget (storeVirtualKey st val vk) i = LoadBudget st i"
  "LoadRateLimit (storeVirtualKey st val vk) i = LoadRateLimit st i"
  by (simp_all add: storeVirtualKey_def Let_def)

lemma load_deleteVirtualKey [simp]:
  "LoadBudget (deleteVirtualKeyByValue st val) i = LoadBudget st i"
  "LoadRateLimit (deleteVirtualKeyByValue st val) i = LoadRateLimit st i"
  by (simp_all add: deleteVirtualKeyByValue_def Let_def split: option.split)

lemma load_store_rate_limit [simp]: "LoadBudget (store_rate_limit r st) i = LoadBudget st i"
  by (simp add: store_rate_limit_def split: option.split)

lemma load_store_budgets_other: "i \<notin> set (map bg_ID bs) \<Longrightarrow> LoadBudget (store_budgets bs st) i = LoadBudget st i"
  by (induction bs arbitrary: st) (simp_all add: store_budgets_def)

lemma load_store_budgets_rl [simp]: "LoadRateLimit (store_budgets bs st) i = LoadRateLimit st i"
  by (induction bs arbitrary: st) (simp_all add: store_budgets_def)

lemma stamp_budget_frame [simp]:
  "bg_ID (stamp_budget ca b) = bg_ID b" "bg_CurrentUsage (stamp_budget ca b) = bg_CurrentUsage b"
  "bg_LastReset (stamp_budget ca b) = bg_LastReset b" "bg_MaxLimit (stamp_budget ca b) = bg_MaxLimit b"
  "bg_ResetDuration (stamp_budget ca b) = bg_ResetDuration b" "bg_IsCalendarAligned (stamp_budget ca b) = ca"
  by (simp_all add: stamp_budget_def)

lemma keep_budget_usage_frame [simp]:
  "bg_ID (keep_budget_usage old b) = bg_ID b" "bg_CurrentUsage (keep_budget_usage old b) = bg_CurrentUsage old"
  "bg_LastReset (keep_budget_usage old b) = bg_LastReset old" "bg_MaxLimit (keep_budget_usage old b) = bg_MaxLimit b"
  "bg_ResetDuration (keep_budget_usage old b) = bg_ResetDuration b"
  by (simp_all add: keep_budget_usage_def)

text \<open>The row an updated owner leaves for one of its budgets.\<close>

definition synced_budget :: "bool \<Rightarrow> gov_store \<Rightarrow> budget \<Rightarrow> budget" where
  "synced_budget ca st b =
     stamp_budget ca (case LoadBudget st (bg_ID b) of None \<Rightarrow> b | Some old \<Rightarrow> keep_budget_usage old b)"

lemma synced_budget_ID [simp]: "bg_ID (synced_budget ca st b) = bg_ID b"
  by (simp add: synced_budget_def split: option.split)

lemma sync_budgets_Cons:
  "sync_budgets ca (b # bs) st =
     (synced_budget ca st b # fst (sync_budgets ca bs (put_budget (bg_ID b) (synced_budget ca st b) st)),
      snd (sync_budgets ca bs (put_budget (bg_ID b) (synced_budget ca st b) st)))"
  by (simp add: synced_budget_def Let_def split: prod.split option.split)

lemma sync_budgets_other:
  "i \<notin> set (map bg_ID bs) \<Longrightarrow> LoadBudget (snd (sync_budgets ca bs st)) i = LoadBudget st i"
  by (induction bs arbitrary: st) (simp_all add: sync_budgets_Cons del: sync_budgets.simps(2))

lemma sync_budgets_load:
  "distinct (map bg_ID bs) \<Longrightarrow> b \<in> set bs \<Longrightarrow>
     LoadBudget (snd (sync_budgets ca bs st)) (bg_ID b) = Some (synced_budget ca st b)"
proof (induction bs arbitrary: st)
  case Nil
  then show ?case by simp
next
  case (Cons x xs)
  let ?st = "put_budget (bg_ID x) (synced_budget ca st x) st"
  show ?case
  proof (cases "b = x")
    case True
    have "bg_ID x \<notin> set (map bg_ID xs)" using Cons.prems(1) by simp
    from sync_budgets_other [OF this, of ca ?st] True show ?thesis
      by (simp add: sync_budgets_Cons del: sync_budgets.simps(2))
  next
    case False
    with Cons.prems have b1: "b \<in> set xs" by simp
    then have "bg_ID b \<in> bg_ID ` set xs" by (rule imageI)
    with Cons.prems(1) b1 have b: "b \<in> set xs" "bg_ID b \<noteq> bg_ID x" by (simp, metis list.simps(9) distinct.simps(2) set_map)
    have "synced_budget ca ?st b = synced_budget ca st b" using b(2) by (simp add: synced_budget_def)
    with Cons.IH [OF _ b(1), of ?st] Cons.prems(1) show ?thesis
      by (simp add: sync_budgets_Cons del: sync_budgets.simps(2))
  qed
qed

lemma sync_budgets_rl [simp]: "LoadRateLimit (snd (sync_budgets ca bs st)) i = LoadRateLimit st i"
  by (induction bs arbitrary: st) (simp_all add: sync_budgets_Cons del: sync_budgets.simps(2))

lemma delete_missing_budgets_load [simp]:
  "LoadBudget (delete_missing_budgets keep olds st) i =
     (if i \<in> set olds \<and> i \<notin> set keep then None else LoadBudget st i)"
  by (induction olds arbitrary: st) (auto simp: delete_missing_budgets_def)

lemma delete_missing_budgets_rl [simp]:
  "LoadRateLimit (delete_missing_budgets keep olds st) i = LoadRateLimit st i"
  by (induction olds arbitrary: st) (auto simp: delete_missing_budgets_def)

lemma sync_owner_rate_limit_budget [simp]:
  "LoadBudget (snd (sync_owner_rate_limit ca new prev st)) i = LoadBudget st i"
  by (simp add: sync_owner_rate_limit_def sync_rate_limit_row_def Let_def split: option.split)

lemma UpdateTeam_existing:
  assumes "sm_load (st_teams st) (tm_ID t) = Some existing"
  shows "LoadBudget (UpdateTeamInMemory st (Some t)) i =
    (if i \<in> set (map bg_ID (tm_Budgets existing)) \<and> i \<notin> set (map bg_ID (tm_Budgets t)) then None
     else LoadBudget (snd (sync_budgets (tm_CalendarAligned t) (tm_Budgets t) st)) i)"
proof -
  obtain bs st1 where 1: "sync_budgets (tm_CalendarAligned t) (tm_Budgets t) st = (bs, st1)" by fastforce
  let ?st2 = "delete_missing_budgets (map bg_ID (tm_Budgets t)) (remdups (map bg_ID (tm_Budgets existing))) st1"
  obtain rl st3 where 3: "sync_owner_rate_limit (tm_CalendarAligned t) (tm_RateLimit t) (tm_RateLimit existing) ?st2 = (rl, st3)"
    by fastforce
  have "LoadBudget st3 i = LoadBudget ?st2 i"
    using sync_owner_rate_limit_budget [of "tm_CalendarAligned t" "tm_RateLimit t" "tm_RateLimit existing" ?st2 i]
    by (simp add: 3)
  then show ?thesis by (simp add: UpdateTeamInMemory_def assms 1 3 Let_def)
qed

subsection \<open>Usage survives the update of a virtual key\<close>

text \<open>The live row keeps its usage and its last reset from one store to the next.\<close>

definition usage_kept :: "string \<Rightarrow> gov_store \<Rightarrow> gov_store \<Rightarrow> bool" where
  "usage_kept i st st' \<longleftrightarrow>
     (\<forall>old. LoadBudget st i = Some old \<longrightarrow>
        (\<exists>b. LoadBudget st' i = Some b \<and> bg_CurrentUsage b = bg_CurrentUsage old \<and> bg_LastReset b = bg_LastReset old))"

lemma usage_kept_trans: "usage_kept i st st' \<Longrightarrow> usage_kept i st' st'' \<Longrightarrow> usage_kept i st st''"
  by (fastforce simp: usage_kept_def)

lemma usage_kept_same: "LoadBudget st' i = LoadBudget st i \<Longrightarrow> usage_kept i st st'"
  by (simp add: usage_kept_def)

lemma usage_kept_sync: "usage_kept i st (snd (sync_budgets ca bs st))"
proof (induction bs arbitrary: st)
  case Nil
  then show ?case by (simp add: usage_kept_def)
next
  case (Cons b bs)
  have "usage_kept i st (put_budget (bg_ID b) (synced_budget ca st b) st)"
    by (auto simp: usage_kept_def synced_budget_def)
  from usage_kept_trans [OF this Cons.IH] show ?case
    by (simp add: sync_budgets_Cons del: sync_budgets.simps(2))
qed

lemma usage_kept_delete_missing: "i \<in> set keep \<Longrightarrow> usage_kept i st (delete_missing_budgets keep olds st)"
  by (rule usage_kept_same) simp

lemma usage_kept_sync_pc:
  assumes "i \<in> set newIDs"
  shows "usage_kept i st (snd (sync_pc ca newIDs oldPCs pc st))"
proof -
  let ?p = "case pc_RateLimit pc of
      Some r \<Rightarrow> (case sync_rate_limit_row ca r st of (r', st1) \<Rightarrow> (pc\<lparr>pc_RateLimit := Some r'\<rparr>, st1))
    | None \<Rightarrow> (case existing_pc oldPCs (pc_ID pc) of None \<Rightarrow> (pc, st)
        | Some opc \<Rightarrow> (case pc_RateLimit opc of None \<Rightarrow> (pc, st) | Some r \<Rightarrow> (pc, DeleteRateLimit st (rl_ID r))))"
  obtain pc1 st1 where p: "?p = (pc1, st1)" by fastforce
  have 1: "usage_kept i st st1"
    using p by (intro usage_kept_same) (auto simp: sync_rate_limit_row_def Let_def split: option.splits)
  obtain bs st2 where 2: "sync_budgets ca (pc_Budgets pc1) st1 = (bs, st2)" by fastforce
  have "usage_kept i st st2"
    using usage_kept_trans [OF 1 usage_kept_sync [of i st1 ca "pc_Budgets pc1"]] by (simp add: 2)
  then show ?thesis
    using usage_kept_trans [OF _ usage_kept_delete_missing [OF assms]]
    by (simp add: sync_pc_def Let_def p 2 split: option.split)
qed

lemma usage_kept_sync_pcs:
  "i \<in> set newIDs \<Longrightarrow> usage_kept i st (snd (sync_pcs ca newIDs oldPCs pcs st))"
proof (induction pcs arbitrary: st)
  case Nil
  then show ?case by (simp add: usage_kept_def)
next
  case (Cons pc pcs)
  obtain pc' st1 where 1: "sync_pc ca newIDs oldPCs pc st = (pc', st1)" by fastforce
  obtain pcs' st2 where 2: "sync_pcs ca newIDs oldPCs pcs st1 = (pcs', st2)" by fastforce
  have "usage_kept i st st1" using usage_kept_sync_pc [OF Cons.prems, of st ca oldPCs pc] by (simp add: 1)
  moreover have "usage_kept i st1 st2" using Cons.IH [OF Cons.prems, of st1] by (simp add: 2)
  ultimately show ?case by (auto simp: 1 2 intro: usage_kept_trans)
qed

lemma usage_kept_clean: "i \<in> set newIDs \<Longrightarrow> usage_kept i st (clean_old_pcs newIDs rls pcs st)"
proof (induction pcs arbitrary: st)
  case Nil
  then show ?case by (simp add: clean_old_pcs_def usage_kept_def)
next
  case (Cons pc pcs)
  let ?s = "delete_missing_budgets newIDs (map bg_ID (pc_Budgets pc))
      (case pc_RateLimit pc of None \<Rightarrow> st
       | Some r \<Rightarrow> if rl_ID r \<in> set rls then st else DeleteRateLimit st (rl_ID r))"
  have "usage_kept i st ?s" using Cons.prems by (intro usage_kept_same) (auto split: option.split)
  moreover have "usage_kept i ?s (clean_old_pcs newIDs rls pcs ?s)" by (rule Cons.IH [OF Cons.prems])
  ultimately show ?case by (auto simp: clean_old_pcs_def Let_def intro: usage_kept_trans)
qed

lemma UpdateVirtualKey_usage:
  assumes "find_existing_vk st v = Some (k, existing)" "i \<in> set (all_budget_ids v)"
  shows "usage_kept i st (UpdateVirtualKeyInMemory st nilPCs (Some v))"
proof -
  let ?ca = "vk_CalendarAligned v" and ?new = "all_budget_ids v"
  obtain bs st1 where 1: "sync_budgets ?ca (vk_Budgets v) st = (bs, st1)" by fastforce
  let ?st2 = "delete_missing_budgets ?new (map bg_ID (vk_Budgets existing)) st1"
  obtain rl st3 where 3: "sync_owner_rate_limit ?ca (vk_RateLimit v) (vk_RateLimit existing) ?st2 = (rl, st3)" by fastforce
  let ?p = "if nilPCs then (vk_ProviderConfigs v, st3)
     else case sync_pcs ?ca ?new (vk_ProviderConfigs existing) (vk_ProviderConfigs v) st3 of
         (pcs, s) \<Rightarrow> (pcs, clean_old_pcs ?new (all_rate_limit_ids v) (vk_ProviderConfigs existing) s)"
  obtain pcs st4 where 4: "?p = (pcs, st4)" by fastforce
  have "usage_kept i st st1" using usage_kept_sync [of i st ?ca "vk_Budgets v"] by (simp add: 1)
  moreover have "usage_kept i st1 ?st2" using assms(2) by (rule usage_kept_delete_missing)
  moreover have "usage_kept i ?st2 st3"
    using sync_owner_rate_limit_budget [of ?ca "vk_RateLimit v" "vk_RateLimit existing" ?st2 i]
    by (intro usage_kept_same) (simp add: 3)
  moreover have "usage_kept i st3 st4"
  proof (cases nilPCs)
    case True
    with 4 show ?thesis by (simp add: usage_kept_def)
  next
    case False
    with 4 have "st4 = clean_old_pcs ?new (all_rate_limit_ids v) (vk_ProviderConfigs existing)
        (snd (sync_pcs ?ca ?new (vk_ProviderConfigs existing) (vk_ProviderConfigs v) st3))"
      by (auto split: prod.splits)
    then show ?thesis
      using usage_kept_trans [OF usage_kept_sync_pcs [OF assms(2)] usage_kept_clean [OF assms(2)]] by simp
  qed
  ultimately have "usage_kept i st st4" by (blast intro: usage_kept_trans)
  then show ?thesis
    by (simp add: UpdateVirtualKeyInMemory_def assms(1) Let_def 1 3 4 usage_kept_def)
qed

subsection \<open>The index of virtual keys\<close>

definition vk_index_ok :: "gov_store \<Rightarrow> bool" where
  "vk_index_ok st \<longleftrightarrow>
     (\<forall>val vk. GetVirtualKey st val = Some vk \<longrightarrow> vk_ID vk \<noteq> [] \<longrightarrow> GetVirtualKeyByID st (vk_ID vk) = Some vk) \<and>
     (\<forall>val val' vk vk'. GetVirtualKey st val = Some vk \<longrightarrow> GetVirtualKey st val' = Some vk' \<longrightarrow>
        vk_ID vk = vk_ID vk' \<longrightarrow> vk_ID vk \<noteq> [] \<longrightarrow> val = val') \<and>
     (\<forall>i vk. GetVirtualKeyByID st i = Some vk \<longrightarrow> vk_ID vk = i \<and> i \<noteq> [] \<and> (\<exists>val. GetVirtualKey st val = Some vk))"

lemma vk_indexD:
  assumes "vk_index_ok st"
  shows "GetVirtualKey st val = Some vk \<Longrightarrow> vk_ID vk \<noteq> [] \<Longrightarrow> GetVirtualKeyByID st (vk_ID vk) = Some vk"
    and "GetVirtualKey st val = Some vk \<Longrightarrow> GetVirtualKey st val' = Some vk' \<Longrightarrow>
      vk_ID vk = vk_ID vk' \<Longrightarrow> vk_ID vk \<noteq> [] \<Longrightarrow> val = val'"
    and "GetVirtualKeyByID st i = Some vk \<Longrightarrow> vk_ID vk = i \<and> i \<noteq> [] \<and> (\<exists>val. GetVirtualKey st val = Some vk)"
  using assms unfolding vk_index_ok_def by blast+

lemma vk_indexI:
  assumes "\<And>val vk. GetVirtualKey st val = Some vk \<Longrightarrow> vk_ID vk \<noteq> [] \<Longrightarrow> GetVirtualKeyByID st (vk_ID vk) = Some vk"
    and "\<And>val val' vk vk'. GetVirtualKey st val = Some vk \<Longrightarrow> GetVirtualKey st val' = Some vk' \<Longrightarrow>
      vk_ID vk = vk_ID vk' \<Longrightarrow> vk_ID vk \<noteq> [] \<Longrightarrow> val = val'"
    and "\<And>i vk. GetVirtualKeyByID st i = Some vk \<Longrightarrow> vk_ID vk = i \<and> i \<noteq> [] \<and> (\<exists>val. GetVirtualKey st val = Some vk)"
  shows "vk_index_ok st"
  using assms unfolding vk_index_ok_def by blast

lemma GetVirtualKey_store [simp]:
  "GetVirtualKey (storeVirtualKey st val vk) v =
     (if val \<noteq> [] \<and> v = val then Some vk else GetVirtualKey st v)"
  by (simp add: GetVirtualKey_def storeVirtualKey_def Let_def)

lemma GetVirtualKeyByID_store [simp]:
  "GetVirtualKeyByID (storeVirtualKey st val vk) i =
     (if val \<noteq> [] \<and> vk_ID vk \<noteq> [] \<and> i = vk_ID vk then Some vk else GetVirtualKeyByID st i)"
  by (simp add: GetVirtualKeyByID_def storeVirtualKey_def Let_def)

lemma GetVirtualKey_delete [simp]:
  "GetVirtualKey (deleteVirtualKeyByValue st val) v = (if v = val then None else GetVirtualKey st v)"
  by (simp add: GetVirtualKey_def deleteVirtualKeyByValue_def Let_def split: option.split)

lemma GetVirtualKeyByID_delete [simp]:
  "GetVirtualKeyByID (deleteVirtualKeyByValue st val) i =
     (case GetVirtualKey st val of
        None \<Rightarrow> GetVirtualKeyByID st i
      | Some vk \<Rightarrow> if vk_ID vk \<noteq> [] \<and> i = vk_ID vk then None else GetVirtualKeyByID st i)"
  by (simp add: GetVirtualKeyByID_def GetVirtualKey_def deleteVirtualKeyByValue_def Let_def split: option.split)

lemma vk_index_delete:
  assumes "vk_index_ok st"
  shows "vk_index_ok (deleteVirtualKeyByValue st val)"
proof (rule vk_indexI)
  note ix = vk_indexD [OF assms]
  let ?st = "deleteVirtualKeyByValue st val"
  {
    fix v vk
    assume "GetVirtualKey ?st v = Some vk" "vk_ID vk \<noteq> []"
    then have v: "v \<noteq> val" "GetVirtualKey st v = Some vk" by (auto split: if_splits)
    show "GetVirtualKeyByID ?st (vk_ID vk) = Some vk"
    proof (cases "GetVirtualKey st val")
      case None
      with v \<open>vk_ID vk \<noteq> []\<close> ix(1) show ?thesis by simp
    next
      case (Some e)
      with v ix(2) \<open>vk_ID vk \<noteq> []\<close> have "vk_ID vk \<noteq> vk_ID e" by metis
      with Some v \<open>vk_ID vk \<noteq> []\<close> ix(1) show ?thesis by simp
    qed
  next
    fix v v' vk vk'
    assume "GetVirtualKey ?st v = Some vk" "GetVirtualKey ?st v' = Some vk'" "vk_ID vk = vk_ID vk'" "vk_ID vk \<noteq> []"
    then show "v = v'" using ix(2) [of v vk v' vk'] by (auto split: if_splits)
  next
    fix i vk
    assume a: "GetVirtualKeyByID ?st i = Some vk"
    then have b: "GetVirtualKeyByID st i = Some vk" by (auto split: option.splits if_splits)
    from ix(3) [OF this] obtain v where v: "vk_ID vk = i" "i \<noteq> []" "GetVirtualKey st v = Some vk" by blast
    have "v \<noteq> val" using a v by auto
    with v show "vk_ID vk = i \<and> i \<noteq> [] \<and> (\<exists>v. GetVirtualKey ?st v = Some vk)" by auto
  }
qed

lemma vk_index_store:
  assumes "vk_index_ok st" "vk_ID vk \<noteq> []"
    and e: "\<And>x. GetVirtualKey st val = Some x \<Longrightarrow> vk_ID x = vk_ID vk"
    and u: "\<And>v x. GetVirtualKey st v = Some x \<Longrightarrow> vk_ID x = vk_ID vk \<Longrightarrow> v = val"
  shows "vk_index_ok (storeVirtualKey st val vk)"
proof (cases "val = []")
  case True
  then show ?thesis using assms(1) by (simp add: storeVirtualKey_def)
next
  case False
  note ix = vk_indexD [OF assms(1)]
  let ?st = "storeVirtualKey st val vk"
  show ?thesis
  proof (rule vk_indexI)
    fix v x
    assume "GetVirtualKey ?st v = Some x" "vk_ID x \<noteq> []"
    with False u ix(1) assms(2) show "GetVirtualKeyByID ?st (vk_ID x) = Some x"
      by (auto split: if_splits)
  next
    fix v v' x x'
    assume "GetVirtualKey ?st v = Some x" "GetVirtualKey ?st v' = Some x'" "vk_ID x = vk_ID x'" "vk_ID x \<noteq> []"
    with False u ix(2) show "v = v'" by (auto split: if_splits)
  next
    fix i x
    assume a: "GetVirtualKeyByID ?st i = Some x"
    show "vk_ID x = i \<and> i \<noteq> [] \<and> (\<exists>v. GetVirtualKey ?st v = Some x)"
    proof (cases "i = vk_ID vk")
      case True
      with a False assms(2) show ?thesis by auto
    next
      case ne: False
      with a False have "GetVirtualKeyByID st i = Some x" by simp
      from ix(3) [OF this] obtain v where v: "vk_ID x = i" "i \<noteq> []" "GetVirtualKey st v = Some x" by blast
      have "v \<noteq> val" using e v ne by auto
      with v show ?thesis by auto
    qed
  qed
qed

subsection \<open>Rebuilding\<close>

lemma load_user_of_budget_frame [simp]:
  "LoadBudget (load_user_of_budget b st) i = LoadBudget st i"
  "GetVirtualKey (load_user_of_budget b st) v = GetVirtualKey st v"
  "GetVirtualKeyByID (load_user_of_budget b st) v = GetVirtualKeyByID st v"
  by (simp_all add: load_user_of_budget_def GetVirtualKey_def GetVirtualKeyByID_def split: option.split)

lemma load_user_row_frame [simp]:
  "LoadBudget (load_user_row u st) i = LoadBudget st i"
  "GetVirtualKey (load_user_row u st) v = GetVirtualKey st v"
  "GetVirtualKeyByID (load_user_row u st) v = GetVirtualKeyByID st v"
  by (simp_all add: load_user_row_def GetVirtualKey_def GetVirtualKeyByID_def split: prod.split)

lemma fold_load_user_row [simp]: "LoadBudget (fold load_user_row us st) i = LoadBudget st i"
  by (induction us arbitrary: st) simp_all

lemma reloadBusinessUnitTeamIndex_load [simp]:
  "LoadBudget (reloadBusinessUnitTeamIndex st units) i = LoadBudget st i"
  by (simp add: reloadBusinessUnitTeamIndex_def LoadBudget_def)

lemma LoadBudget_providers_rules [simp]:
  "LoadBudget (st\<lparr>st_providers := p, st_routingRules := r\<rparr>) i = LoadBudget st i"
  by (simp add: LoadBudget_def)

lemma fold_put_rate_limits [simp]: "LoadBudget (fold (\<lambda>r. put_rate_limit (rl_ID r) r) rs st) i = LoadBudget st i"
  by (induction rs arbitrary: st) simp_all

lemma fold_storeVirtualKey [simp]:
  "LoadBudget (fold (\<lambda>vk s. storeVirtualKey s (vk_Value vk) vk) vks st) i = LoadBudget st i"
  by (induction vks arbitrary: st) simp_all

lemma fold_flat_budgets_other:
  "i \<notin> bg_ID ` set bs \<Longrightarrow>
     LoadBudget (fold (\<lambda>b s. load_user_of_budget b (put_budget (bg_ID b) b s)) bs st) i = LoadBudget st i"
  by (induction bs arbitrary: st) simp_all

lemma fold_flat_budgets:
  "distinct (map bg_ID bs) \<Longrightarrow> b \<in> set bs \<Longrightarrow>
     LoadBudget (fold (\<lambda>b s. load_user_of_budget b (put_budget (bg_ID b) b s)) bs st) (bg_ID b) = Some b"
proof (induction bs arbitrary: st)
  case Nil
  then show ?case by simp
next
  case (Cons x xs)
  show ?case
  proof (cases "b \<in> set xs")
    case True
    with Cons show ?thesis by simp
  next
    case False
    with Cons.prems have "b = x" by simp
    with Cons.prems(1) show ?thesis by (simp add: fold_flat_budgets_other)
  qed
qed

lemma load_model_config_row_other:
  "i \<notin> bg_ID ` set (mc_Budgets mc) \<Longrightarrow> LoadBudget (load_model_config_row mc st) i = LoadBudget st i"
  by (simp add: load_model_config_row_def Let_def load_store_budgets_other image_image)

lemma fold_model_configs_other:
  "\<forall>mc \<in> set mcs. i \<notin> bg_ID ` set (mc_Budgets mc) \<Longrightarrow> LoadBudget (fold load_model_config_row mcs st) i = LoadBudget st i"
  by (induction mcs arbitrary: st) (simp_all add: load_model_config_row_other)

lemma stamp_customer_rows_other:
  "i \<notin> bg_ID ` set (cu_Budgets c) \<Longrightarrow> LoadBudget (stamp_customer_rows c st) i = LoadBudget st i"
  by (simp add: stamp_customer_rows_def Let_def load_store_budgets_other image_image split: option.split)

lemma fold_customers_other:
  "\<forall>c \<in> set cs. i \<notin> bg_ID ` set (cu_Budgets c) \<Longrightarrow> LoadBudget (fold stamp_customer_rows cs st) i = LoadBudget st i"
  by (induction cs arbitrary: st) (simp_all add: stamp_customer_rows_other)

lemma LoadBudget_baselines [simp]:
  "LoadBudget (st\<lparr>st_lastDBBudgets := x, st_lastDBRequests := y, st_lastDBTokens := z\<rparr>) i = LoadBudget st i"
  by (simp add: LoadBudget_def)

subsection \<open>Properties\<close>

text \<open>
  Updating a known team: each budget of the new team is in the hot map with the limit and
  the alignment of the update, the usage and the last reset of the live row when there was one
  (so the update never gives back spent budget); the budgets the team had and no longer has are
  gone; every other budget is as before.
\<close>

lemma update_team_budgets:
  assumes "sm_load (st_teams st) (tm_ID t) = Some existing" "distinct (map bg_ID (tm_Budgets t))"
  shows "(\<forall>b \<in> set (tm_Budgets t). \<exists>b'. LoadBudget (UpdateTeamInMemory st (Some t)) (bg_ID b) = Some b' \<and>
            bg_MaxLimit b' = bg_MaxLimit b \<and> bg_ResetDuration b' = bg_ResetDuration b \<and>
            bg_IsCalendarAligned b' = tm_CalendarAligned t \<and>
            (case LoadBudget st (bg_ID b) of
               None \<Rightarrow> bg_CurrentUsage b' = bg_CurrentUsage b \<and> bg_LastReset b' = bg_LastReset b
             | Some old \<Rightarrow> bg_CurrentUsage b' = bg_CurrentUsage old \<and> bg_LastReset b' = bg_LastReset old)) \<and>
         (\<forall>i. i \<notin> bg_ID ` set (tm_Budgets t) \<longrightarrow>
            LoadBudget (UpdateTeamInMemory st (Some t)) i =
              (if i \<in> bg_ID ` set (tm_Budgets existing) then None else LoadBudget st i))"
  using sync_budgets_load [OF assms(2), of _ "tm_CalendarAligned t" st]
    sync_budgets_other [of _ "tm_Budgets t" "tm_CalendarAligned t" st]
  by (auto simp: UpdateTeam_existing [OF assms(1)] synced_budget_def split: option.split)

definition sample_team :: team where
  "sample_team = \<lparr>tm_ID = ''t1'', tm_Name = ''team'', tm_CustomerID = None, tm_RateLimitID = None,
     tm_Customer = None, tm_Budgets = [hour_budget], tm_RateLimit = None, tm_CalendarAligned = True\<rparr>"

definition team_store :: gov_store where
  "team_store = hour_store\<lparr>st_teams := [(''t1'', sample_team)]\<rparr>"

lemma update_team_budgets_witness:
  "\<exists>b'. LoadBudget (UpdateTeamInMemory team_store (Some (sample_team\<lparr>tm_Budgets := [hour_budget\<lparr>bg_MaxLimit := 5, bg_CurrentUsage := 0\<rparr>]\<rparr>))) ''b'' = Some b' \<and>
     bg_MaxLimit b' = 5 \<and> bg_CurrentUsage b' = 9"
proof -
  let ?t = "sample_team\<lparr>tm_Budgets := [hour_budget\<lparr>bg_MaxLimit := 5, bg_CurrentUsage := 0\<rparr>]\<rparr>"
  have h: "sm_load (st_teams team_store) (tm_ID ?t) = Some sample_team" "distinct (map bg_ID (tm_Budgets ?t))"
    by (simp_all add: team_store_def sample_team_def sm_load_def)
  have l: "LoadBudget team_store ''b'' = Some hour_budget" by code_simp
  have i: "bg_ID hour_budget = ''b''" by (simp add: hour_budget_def)
  have u: "bg_CurrentUsage hour_budget = 9" by (simp add: hour_budget_def)
  from update_team_budgets [OF h] show ?thesis by (auto simp: l i u)
qed

text \<open>
  C30. Updating a known virtual key never gives back spent budget: the live row of every budget
  the new key names, on the key or on one of its provider configs, keeps its usage and its last
  reset through all the deletes and stores of the update.
\<close>

theorem update_virtual_key_keeps_usage:
  assumes "find_existing_vk st v = Some (k, existing)" "i \<in> set (all_budget_ids v)" "LoadBudget st i = Some old"
  shows "\<exists>b. LoadBudget (UpdateVirtualKeyInMemory st nilPCs (Some v)) i = Some b \<and>
     bg_CurrentUsage b = bg_CurrentUsage old \<and> bg_LastReset b = bg_LastReset old"
  using UpdateVirtualKey_usage [OF assms(1,2)] assms(3) by (auto simp: usage_kept_def)

definition vk_store :: gov_store where
  "vk_store = storeVirtualKey sample_store ''sk-uf-1'' sample_vk"

theorem update_virtual_key_keeps_usage_witness:
  "\<exists>b. LoadBudget (UpdateVirtualKeyInMemory vk_store False
      (Some (sample_vk\<lparr>vk_Budgets := [hour_budget], vk_ProviderConfigs := []\<rparr>))) ''b'' = Some b \<and> bg_CurrentUsage b = 9"
proof -
  let ?v = "sample_vk\<lparr>vk_Budgets := [hour_budget], vk_ProviderConfigs := []\<rparr>"
  have 1: "find_existing_vk vk_store ?v = Some (''sk-uf-1'', sample_vk)" by code_simp
  have 2: "''b'' \<in> set (all_budget_ids ?v)" by code_simp
  have 3: "LoadBudget vk_store ''b'' = Some hour_budget" by code_simp
  have u: "bg_CurrentUsage hour_budget = 9" by (simp add: hour_budget_def)
  from update_virtual_key_keeps_usage [OF 1 2 3, of False] show ?thesis by (auto simp: u)
qed

text \<open>
  The two indices of the virtual keys stay in step: the index by ID and the map by value
  name the same rows, with one value per ID, after a delete by value and after a store under a
  value that no other key holds.
\<close>

lemma virtual_key_indices_in_step:
  assumes "vk_index_ok st"
  shows "vk_index_ok (deleteVirtualKeyByValue st val) \<and>
     (vk_ID vk \<noteq> [] \<longrightarrow>
      (\<forall>x. GetVirtualKey st val = Some x \<longrightarrow> vk_ID x = vk_ID vk) \<longrightarrow>
      (\<forall>v x. GetVirtualKey st v = Some x \<longrightarrow> vk_ID x = vk_ID vk \<longrightarrow> v = val) \<longrightarrow>
      vk_index_ok (storeVirtualKey st val vk))"
  using vk_index_delete [OF assms] vk_index_store [OF assms, of vk val] by blast

lemma virtual_key_indices_in_step_witness:
  "vk_index_ok (deleteVirtualKeyByValue empty_store ''a'') \<and> vk_index_ok (storeVirtualKey empty_store ''a'' sample_vk)"
proof -
  have e: "GetVirtualKey empty_store v = None" "GetVirtualKeyByID empty_store v = None" for v
    by (simp_all add: GetVirtualKey_def GetVirtualKeyByID_def empty_store_def sm_load_def)
  then have "vk_index_ok empty_store" by (simp add: vk_index_ok_def)
  from virtual_key_indices_in_step [OF this, of "''a''" sample_vk] show ?thesis
    by (simp add: e sample_vk_def)
qed

text \<open>
  A rate limit that an update moves from a provider config to the virtual key itself is
  dropped from the hot map: the step for the provider config deletes the row that the step for
  the key has just stored, although the later clean-up is careful to keep it. The key then
  passes its rate-limit check with its tokens used up.
\<close>

definition moved_vk :: virtual_key where
  "moved_vk = sample_vk\<lparr>vk_ProviderConfigs := [sample_pc\<lparr>pc_RateLimitID := None\<rparr>], vk_RateLimit := Some hour_rate_limit\<rparr>"

definition old_vk :: virtual_key where
  "old_vk = sample_vk\<lparr>vk_RateLimitID := None, vk_ProviderConfigs := [sample_pc\<lparr>pc_RateLimit := Some hour_rate_limit\<rparr>]\<rparr>"

definition exhausted_store :: gov_store where
  "exhausted_store = storeVirtualKey
     (put_rate_limit ''r'' (hour_rate_limit\<lparr>rl_TokenCurrentUsage := 100\<rparr>) sample_store) ''sk-uf-1'' old_vk"

lemma moved_rate_limit_is_dropped:
  "fst (CheckVirtualKeyRateLimit exhausted_store 0 [] (Some old_vk) (Some openai_request) [] []) = DecisionTokenLimited \<and>
   LoadRateLimit (UpdateVirtualKeyInMemory exhausted_store False (Some moved_vk)) ''r'' = None \<and>
   fst (CheckVirtualKeyRateLimit (UpdateVirtualKeyInMemory exhausted_store False (Some moved_vk)) 0 []
      (GetVirtualKey (UpdateVirtualKeyInMemory exhausted_store False (Some moved_vk)) ''sk-uf-1'')
      (Some openai_request) [] []) = DecisionAllow"
  by code_simp

text \<open>
  After a rebuild, the hot row of a budget that no customer and no model config owns is the
  row of the flat list, with the alignment flag it has there. The flag is not a column, so the
  budgets of virtual keys, provider configs and teams come back as rolling windows whatever the
  setting of their owner (the rows of customers and of model configs are stamped).
\<close>

lemma rebuild_keeps_flat_budget:
  assumes "distinct (map bg_ID (ld_budgets ld))" "b \<in> set (ld_budgets ld)"
    and "\<forall>mc \<in> set (ld_modelConfigs ld). bg_ID b \<notin> bg_ID ` set (mc_Budgets mc)"
    and "\<forall>c \<in> set (ld_customers ld). bg_ID b \<notin> bg_ID ` set (cu_Budgets c)"
  shows "LoadBudget (rebuildInMemoryStructures st ld) (bg_ID b) = Some b"
  using fold_flat_budgets [OF assms(1,2)]
  by (simp add: rebuildInMemoryStructures_def Let_def fold_customers_other [OF assms(4)]
      fold_model_configs_other [OF assms(3)] split: option.split)

definition sample_rows :: loaded_rows where
  "sample_rows = \<lparr>ld_customers = [], ld_teams = [sample_team\<lparr>tm_Budgets := [hour_budget\<lparr>bg_IsCalendarAligned := True\<rparr>]\<rparr>],
     ld_virtualKeys = [], ld_budgets = [hour_budget], ld_rateLimits = [], ld_modelConfigs = [],
     ld_providers = [], ld_routingRules = [], ld_users = None, ld_businessUnits = None\<rparr>"

lemma rebuild_keeps_flat_budget_witness:
  "\<exists>b. LoadBudget (rebuildInMemoryStructures empty_store sample_rows) ''b'' = Some b \<and>
     \<not> bg_IsCalendarAligned b \<and> tm_CalendarAligned sample_team"
proof -
  have i: "bg_ID hour_budget = ''b''" "\<not> bg_IsCalendarAligned hour_budget" by (simp_all add: hour_budget_def)
  have "LoadBudget (rebuildInMemoryStructures empty_store sample_rows) (bg_ID hour_budget) = Some hour_budget"
    by (rule rebuild_keeps_flat_budget) (simp_all add: sample_rows_def)
  with i show ?thesis by (simp add: sample_team_def)
qed

end
