(* ===== verification/GovContext.thy ===== *)
theory GovContext
  imports GovCrud
begin

text \<open>
  The values of the request context that the governance plugin reads and stamps
  (plugins/governance/utils.go, store.go), as the map that \<^verbatim>\<open>Value\<close> and
  \<^verbatim>\<open>SetValue\<close> of a root context work on. None of the keys stamped here is a reserved
  key, so no write is dropped; clearing a key stores nil under it.

  The rows of the workspace tables (the users of a virtual key, the teams of a user, the names)
  are read from the database: \<open>workspace_reads\<close> holds what the four queries return, with an
  error read as no rows.
\<close>

datatype ctx_value = CNil | CStr string | CStrs "string list" | CBool bool | CInt int
  | CStrMap "string smap"

type_synonym gov_ctx = "ctx_value smap"

definition CtxValue :: "gov_ctx \<Rightarrow> string \<Rightarrow> ctx_value" where
  "CtxValue ctx k = (case sm_load ctx k of None \<Rightarrow> CNil | Some v \<Rightarrow> v)"

definition CtxSetValue :: "gov_ctx \<Rightarrow> string \<Rightarrow> ctx_value \<Rightarrow> gov_ctx" where
  "CtxSetValue ctx k v = sm_store k v ctx"

definition CtxClearValue :: "gov_ctx \<Rightarrow> string \<Rightarrow> gov_ctx" where
  "CtxClearValue ctx k = sm_store k CNil ctx"

definition GetStringFromContext :: "gov_ctx \<Rightarrow> string \<Rightarrow> string" where
  "GetStringFromContext ctx k = (case CtxValue ctx k of CStr s \<Rightarrow> s | _ \<Rightarrow> [])"

definition GetBoolFromContext :: "gov_ctx \<Rightarrow> string \<Rightarrow> bool" where
  "GetBoolFromContext ctx k = (case CtxValue ctx k of CBool b \<Rightarrow> b | _ \<Rightarrow> False)"

lemma CtxValue_set [simp]: "CtxValue (CtxSetValue ctx k v) k' = (if k' = k then v else CtxValue ctx k')"
  by (simp add: CtxValue_def CtxSetValue_def)

lemma CtxValue_clear [simp]: "CtxValue (CtxClearValue ctx k) k' = (if k' = k then CNil else CtxValue ctx k')"
  by (simp add: CtxValue_def CtxClearValue_def)

subsection \<open>Keys\<close>

definition KeyVirtualKeyID :: string where "KeyVirtualKeyID = ''unifai-governance-virtual-key-id''"
definition KeyVirtualKeyName :: string where "KeyVirtualKeyName = ''unifai-governance-virtual-key-name''"
definition KeyTeamID :: string where "KeyTeamID = ''unifai-governance-team-id''"
definition KeyTeamName :: string where "KeyTeamName = ''unifai-governance-team-name''"
definition KeyCustomerID :: string where "KeyCustomerID = ''unifai-governance-customer-id''"
definition KeyCustomerName :: string where "KeyCustomerName = ''unifai-governance-customer-name''"
definition KeyBusinessUnitID :: string where "KeyBusinessUnitID = ''unifai-governance-business-unit-id''"
definition KeyBusinessUnitName :: string where "KeyBusinessUnitName = ''unifai-governance-business-unit-name''"
definition KeyTeamIDs :: string where "KeyTeamIDs = ''unifai-governance-team-ids''"
definition KeyTeamNames :: string where "KeyTeamNames = ''unifai-governance-team-names''"
definition KeyBusinessUnitIDs :: string where "KeyBusinessUnitIDs = ''unifai-governance-business-unit-ids''"
definition KeyBusinessUnitNames :: string where "KeyBusinessUnitNames = ''unifai-governance-business-unit-names''"
definition KeyScopedCustomerID :: string where "KeyScopedCustomerID = ''unifai-governance-scoped-customer-id''"
definition KeyIncludeOnlyKeys :: string where "KeyIncludeOnlyKeys = ''unifai-governance-include-only-keys''"
definition KeySkipBudgetAndRateLimits :: string where
  "KeySkipBudgetAndRateLimits = ''unifai-skip-budget-and-rate-limits''"
definition KeyMCPAddedTools :: string where "KeyMCPAddedTools = ''unifai-mcp-added-tools''"
definition MCPContextKeyIncludeTools :: string where "MCPContextKeyIncludeTools = ''mcp-include-tools''"
definition KeyVirtualKey :: string where "KeyVirtualKey = ''x-uf-vk''"
definition KeyRequestHeaders :: string where "KeyRequestHeaders = ''unifai-request-headers''"
definition KeyUserID :: string where "KeyUserID = ''unifai-user-id''"
definition KeyUserName :: string where "KeyUserName = ''unifai-user-name''"
definition governanceRejectedContextKey :: string where
  "governanceRejectedContextKey = ''unifai-governance-rejected''"

lemmas ctx_key_defs = KeyVirtualKeyID_def KeyVirtualKeyName_def KeyTeamID_def KeyTeamName_def
  KeyCustomerID_def KeyCustomerName_def KeyBusinessUnitID_def KeyBusinessUnitName_def
  KeyTeamIDs_def KeyTeamNames_def KeyBusinessUnitIDs_def KeyBusinessUnitNames_def
  KeyScopedCustomerID_def KeyIncludeOnlyKeys_def KeySkipBudgetAndRateLimits_def
  KeyMCPAddedTools_def MCPContextKeyIncludeTools_def KeyUserID_def KeyUserName_def
  KeyVirtualKey_def KeyRequestHeaders_def governanceRejectedContextKey_def

subsection \<open>Stamping\<close>

text \<open>The business units of the teams, in order, each ID once.\<close>

definition collect_units :: "gov_store \<Rightarrow> string list \<Rightarrow> bu_stamp list" where
  "collect_units st teamIDs =
     fold (\<lambda>bu acc. if bu_ID bu = [] \<or> bu_ID bu \<in> bu_ID ` set acc then acc else acc @ [bu])
       (concat (map (\<lambda>t. if t = [] then [] else
            (case sm_load (st_businessUnitsByTeam st) t of None \<Rightarrow> [] | Some l \<Rightarrow> l)) teamIDs)) []"

definition stampBusinessUnitsForTeams :: "gov_store \<Rightarrow> gov_ctx \<Rightarrow> string list \<Rightarrow> gov_ctx" where
  "stampBusinessUnitsForTeams st ctx teamIDs =
     (case collect_units st teamIDs of
        [] \<Rightarrow> ctx
      | bu # bus \<Rightarrow>
          CtxSetValue (CtxSetValue (CtxSetValue (CtxSetValue ctx
            KeyBusinessUnitID (CStr (bu_ID bu)))
            KeyBusinessUnitName (CStr (bu_Name bu)))
            KeyBusinessUnitIDs (CStrs (map bu_ID (bu # bus))))
            KeyBusinessUnitNames (CStrs (map bu_Name (bu # bus))))"

definition stampBusinessUnitsForTeam :: "gov_store \<Rightarrow> gov_ctx \<Rightarrow> string \<Rightarrow> gov_ctx" where
  "stampBusinessUnitsForTeam st ctx teamID =
     (if teamID = [] then ctx else stampBusinessUnitsForTeams st ctx [teamID])"

definition teamIDFromVK :: "virtual_key option \<Rightarrow> string" where
  "teamIDFromVK vk =
     (case vk of
        None \<Rightarrow> []
      | Some v \<Rightarrow>
          (case nonempty_id (vk_TeamID v) of
             Some t \<Rightarrow> t
           | None \<Rightarrow> (case vk_Team v of None \<Rightarrow> [] | Some t \<Rightarrow> tm_ID t)))"

definition set_opt :: "gov_ctx \<Rightarrow> string \<Rightarrow> string option \<Rightarrow> gov_ctx" where
  "set_opt ctx k v = (case v of None \<Rightarrow> ctx | Some s \<Rightarrow> CtxSetValue ctx k (CStr s))"

definition stampGovernanceCtxFromVK :: "gov_ctx \<Rightarrow> virtual_key option \<Rightarrow> gov_ctx" where
  "stampGovernanceCtxFromVK ctx vk =
     (case vk of
        None \<Rightarrow> ctx
      | Some v \<Rightarrow>
          let ctx1 = set_opt ctx KeyTeamID (vk_TeamID v) in
          (case vk_Team v of
             Some t \<Rightarrow>
               let ctx2 = CtxSetValue ctx1 KeyTeamName (CStr (tm_Name t)) in
               (case tm_CustomerID t of
                  None \<Rightarrow> ctx2
                | Some c \<Rightarrow> set_opt (CtxSetValue ctx2 KeyCustomerID (CStr c)) KeyCustomerName
                    (map_option cu_Name (tm_Customer t)))
           | None \<Rightarrow>
               set_opt (set_opt ctx1 KeyCustomerID (vk_CustomerID v)) KeyCustomerName
                 (map_option cu_Name (vk_Customer v))))"

record workspace_reads =
  ws_ListVirtualKeyUsers :: "string \<Rightarrow> string list"
  ws_ListTeamsForUser :: "string \<Rightarrow> string list"
  ws_Username :: "string \<Rightarrow> string option"
  ws_TeamName :: "string \<Rightarrow> string option"

definition stampUserFromVKAssignment ::
  "workspace_reads option \<Rightarrow> gov_ctx \<Rightarrow> virtual_key option \<Rightarrow> gov_ctx" where
  "stampUserFromVKAssignment ws ctx vk =
     (case (vk, ws) of
        (Some v, Some w) \<Rightarrow>
          if GetStringFromContext ctx KeyUserID \<noteq> [] then ctx
          else (case ws_ListVirtualKeyUsers w (vk_ID v) of
                  [] \<Rightarrow> ctx
                | uid # _ \<Rightarrow>
                    if uid = [] then ctx
                    else set_opt (CtxSetValue ctx KeyUserID (CStr uid)) KeyUserName (nonempty_id (ws_Username w uid)))
      | _ \<Rightarrow> ctx)"

definition membership_name :: "workspace_reads \<Rightarrow> gov_store option \<Rightarrow> string \<Rightarrow> string" where
  "membership_name w local teamID =
     (let name = (case local of
                    None \<Rightarrow> teamID
                  | Some st \<Rightarrow> (case sm_load (st_teams st) teamID of
                        None \<Rightarrow> teamID
                      | Some t \<Rightarrow> if tm_Name t = [] then teamID else tm_Name t))
      in if name = teamID
         then (case nonempty_id (ws_TeamName w teamID) of None \<Rightarrow> name | Some n \<Rightarrow> n) else name)"

text \<open>The teams and names to stamp: the stamped team first, then the user's teams once each.\<close>

definition membership_teams :: "workspace_reads \<Rightarrow> gov_store option \<Rightarrow> gov_ctx \<Rightarrow> string list \<Rightarrow> (string \<times> string) list" where
  "membership_teams w local ctx links =
     (let primary = GetStringFromContext ctx KeyTeamID;
          name = GetStringFromContext ctx KeyTeamName;
          start = (if primary = [] then [] else [(primary, if name = [] then primary else name)])
      in fold (\<lambda>t acc. if t = [] \<or> t \<in> fst ` set acc then acc
                       else acc @ [(t, membership_name w local t)]) links start)"

definition stampUserOrgMembership :: "workspace_reads option \<Rightarrow> gov_store option \<Rightarrow> gov_ctx \<Rightarrow> gov_ctx" where
  "stampUserOrgMembership ws local ctx =
     (case ws of
        None \<Rightarrow> ctx
      | Some w \<Rightarrow>
          let userID = GetStringFromContext ctx KeyUserID;
              links = ws_ListTeamsForUser w userID in
          if userID = [] \<or> links = [] then ctx
          else (case membership_teams w local ctx links of
              [] \<Rightarrow> ctx
            | (t, n) # ts \<Rightarrow>
                let ctx1 = CtxSetValue (CtxSetValue ctx KeyTeamIDs (CStrs (map fst ((t, n) # ts))))
                      KeyTeamNames (CStrs (map snd ((t, n) # ts)));
                    ctx2 = (if GetStringFromContext ctx1 KeyTeamID = []
                            then CtxSetValue (CtxSetValue ctx1 KeyTeamID (CStr t)) KeyTeamName (CStr n) else ctx1)
                in case local of None \<Rightarrow> ctx2
                   | Some st \<Rightarrow> stampBusinessUnitsForTeams st ctx2 (map fst ((t, n) # ts))))"

definition stampGovernanceCtx ::
  "workspace_reads option \<Rightarrow> gov_store option \<Rightarrow> gov_ctx \<Rightarrow> virtual_key option \<Rightarrow> gov_ctx" where
  "stampGovernanceCtx ws local ctx vk =
     (let ctx1 = stampGovernanceCtxFromVK ctx vk;
          ctx2 = (case local of None \<Rightarrow> ctx1 | Some st \<Rightarrow> stampBusinessUnitsForTeam st ctx1 (teamIDFromVK vk));
          ctx3 = stampUserFromVKAssignment ws ctx2 vk
      in stampUserOrgMembership ws local ctx3)"

end
