(* ===== verification/GovResolver.thy ===== *)
theory GovResolver
  imports GovContext
begin

text \<open>
  The decision engine of plugins/governance/resolver.go and its driver
  \<^verbatim>\<open>EvaluateGovernanceRequest\<close> with the MCP tool checks of
  plugins/governance/main.go. The resolver sees the store through the interface
  \<^verbatim>\<open>GovernanceStore\<close>: \<open>store_iface\<close> is the record of the methods it calls,
  \<open>local_iface\<close> the local store at an instant. The locale \<open>governance_store\<close> states the error
  contract of the interface; what the resolver guarantees is proved from it alone and then read
  off for the local store.

  The model catalog is given by its two lookups; the tool-group filter is a parameter.
\<close>

subsection \<open>The interface\<close>

record store_iface =
  gi_GetVirtualKey :: "string \<Rightarrow> virtual_key option"
  gi_LoadRateLimit :: "string \<Rightarrow> rate_limit option"
  gi_CheckProviderRateLimit :: "evaluation_request option \<Rightarrow> verdict"
  gi_CheckProviderBudget :: "evaluation_request option \<Rightarrow> verdict"
  gi_CheckModelRateLimit :: "evaluation_request option \<Rightarrow> verdict"
  gi_CheckModelBudget :: "evaluation_request option \<Rightarrow> verdict"
  gi_CheckCustomerRateLimit :: "string \<Rightarrow> verdict"
  gi_CheckCustomerBudget :: "string \<Rightarrow> verdict"
  gi_CheckTeamRateLimit :: "string \<Rightarrow> verdict"
  gi_CheckTeamBudget :: "string \<Rightarrow> verdict"
  gi_CheckUserRateLimit :: "string \<Rightarrow> verdict"
  gi_CheckUserBudget :: "string \<Rightarrow> verdict"
  gi_CheckScopedModelRateLimit :: "string \<Rightarrow> string \<Rightarrow> evaluation_request option \<Rightarrow> verdict"
  gi_CheckScopedModelBudget :: "string \<Rightarrow> string \<Rightarrow> evaluation_request option \<Rightarrow> verdict"
  gi_CheckVirtualKeyRateLimit :: "gov_ctx \<Rightarrow> virtual_key \<Rightarrow> evaluation_request option \<Rightarrow> verdict"
  gi_CheckVirtualKeyBudget :: "gov_ctx \<Rightarrow> virtual_key \<Rightarrow> evaluation_request option \<Rightarrow> verdict"
  gi_local :: "gov_store option"

text \<open>The local store at the instant \<open>now\<close>, with the nil baselines that the resolver passes.\<close>

definition local_iface :: "gov_store \<Rightarrow> instant \<Rightarrow> store_iface" where
  "local_iface st now = \<lparr>
     gi_GetVirtualKey = GetVirtualKey st,
     gi_LoadRateLimit = LoadRateLimit st,
     gi_CheckProviderRateLimit = (\<lambda>r. CheckProviderRateLimit st now r [] []),
     gi_CheckProviderBudget = (\<lambda>r. CheckProviderBudget st now r []),
     gi_CheckModelRateLimit = (\<lambda>r. CheckModelRateLimit st now r [] []),
     gi_CheckModelBudget = (\<lambda>r. CheckModelBudget st now r []),
     gi_CheckCustomerRateLimit = (\<lambda>i. CheckCustomerRateLimit st now i [] []),
     gi_CheckCustomerBudget = (\<lambda>i. CheckCustomerBudget st now i []),
     gi_CheckTeamRateLimit = (\<lambda>i. CheckTeamRateLimit st now i [] []),
     gi_CheckTeamBudget = (\<lambda>i. CheckTeamBudget st now i []),
     gi_CheckUserRateLimit = (\<lambda>i. CheckUserRateLimit st now i [] []),
     gi_CheckUserBudget = (\<lambda>i. CheckUserBudget st now i []),
     gi_CheckScopedModelRateLimit = (\<lambda>s i r. CheckScopedModelRateLimit st now s i r [] []),
     gi_CheckScopedModelBudget = (\<lambda>s i r. CheckScopedModelBudget st now s i r []),
     gi_CheckVirtualKeyRateLimit =
       (\<lambda>ctx vk r. CheckVirtualKeyRateLimit st now (GetStringFromContext ctx KeyScopedCustomerID) (Some vk) r [] []),
     gi_CheckVirtualKeyBudget =
       (\<lambda>ctx vk r. CheckVirtualKeyBudget st now (GetStringFromContext ctx KeyScopedCustomerID) (Some vk) r []),
     gi_local = Some st\<rparr>"

subsection \<open>Results\<close>

text \<open>A reason is its text and what \<^verbatim>\<open>reasonFromErr\<close> renders after it (the separator
  left out).\<close>

definition quoted :: "string \<Rightarrow> string" where
  "quoted s = CHR 0x27 # s @ [CHR 0x27]"

datatype cause = NoCause | ErrorCause gov_error | PolicyCause decision

record evaluation_result =
  ev_Decision :: decision
  ev_Reason :: "string \<times> cause"
  ev_VirtualKey :: "virtual_key option"
  ev_RateLimitInfo :: "rate_limit option"

definition reasonFromErr :: "gov_error option \<Rightarrow> decision \<Rightarrow> cause" where
  "reasonFromErr err d = (case err of Some e \<Rightarrow> ErrorCause e | None \<Rightarrow> PolicyCause d)"

definition isRateLimitViolation :: "decision \<Rightarrow> bool" where
  "isRateLimitViolation d \<longleftrightarrow> d = DecisionRateLimited \<or> d = DecisionTokenLimited \<or> d = DecisionRequestLimited"

definition isBudgetViolation :: "decision \<Rightarrow> bool" where
  "isBudgetViolation d \<longleftrightarrow> d = DecisionBudgetExceeded"

definition plain_result :: "decision \<Rightarrow> string \<Rightarrow> virtual_key option \<Rightarrow> evaluation_result" where
  "plain_result d txt vk = \<lparr>ev_Decision = d, ev_Reason = (txt, NoCause), ev_VirtualKey = vk, ev_RateLimitInfo = None\<rparr>"

definition check_result :: "verdict \<Rightarrow> string \<Rightarrow> virtual_key option \<Rightarrow> evaluation_result" where
  "check_result v txt vk = \<lparr>ev_Decision = fst v, ev_Reason = (txt, reasonFromErr (snd v) (fst v)),
     ev_VirtualKey = vk, ev_RateLimitInfo = None\<rparr>"

text \<open>One guarded check: the result to return when it fails.\<close>

definition rate_violated :: "verdict \<Rightarrow> bool" where
  "rate_violated v \<longleftrightarrow> snd v \<noteq> None \<or> isRateLimitViolation (fst v)"

definition budget_violated :: "verdict \<Rightarrow> bool" where
  "budget_violated v \<longleftrightarrow> snd v \<noteq> None \<or> isBudgetViolation (fst v)"

subsection \<open>Provider, model, customer, team and user\<close>

definition EvaluateModelAndProviderRequest :: "store_iface \<Rightarrow> string \<Rightarrow> string \<Rightarrow> evaluation_result" where
  "EvaluateModelAndProviderRequest gi provider model =
     (let req = Some \<lparr>er_VirtualKey = [], er_Provider = provider, er_Model = model, er_UserID = []\<rparr>;
          pr = gi_CheckProviderRateLimit gi req; pb = gi_CheckProviderBudget gi req;
          mr = gi_CheckModelRateLimit gi req; mb = gi_CheckModelBudget gi req in
      if provider \<noteq> [] \<and> rate_violated pr then check_result pr ''Provider-level rate limit check failed'' None
      else if provider \<noteq> [] \<and> budget_violated pb then check_result pb ''Provider-level budget exceeded'' None
      else if model \<noteq> [] \<and> rate_violated mr then check_result mr ''Model-level rate limit check failed'' None
      else if model \<noteq> [] \<and> budget_violated mb then check_result mb ''Model-level budget exceeded'' None
      else plain_result DecisionAllow ''Request allowed by governance policy (provider-level and model-level checks passed)'' None)"

definition EvaluateCustomerRequest :: "store_iface \<Rightarrow> string \<Rightarrow> evaluation_result" where
  "EvaluateCustomerRequest gi customerID =
     (let r = gi_CheckCustomerRateLimit gi customerID; b = gi_CheckCustomerBudget gi customerID in
      if customerID = [] then plain_result DecisionAllow ''No customer ID provided, skipping customer-level checks'' None
      else if rate_violated r then check_result r ''Customer-level rate limit exceeded'' None
      else if budget_violated b then check_result b ''Customer-level budget exceeded'' None
      else plain_result DecisionAllow ''Customer-level checks passed'' None)"

definition EvaluateTeamRequest :: "store_iface \<Rightarrow> string \<Rightarrow> evaluation_result" where
  "EvaluateTeamRequest gi teamID =
     (let r = gi_CheckTeamRateLimit gi teamID; b = gi_CheckTeamBudget gi teamID in
      if teamID = [] then plain_result DecisionAllow ''No team ID provided, skipping team-level checks'' None
      else if rate_violated r then check_result r ''Team-level rate limit exceeded'' None
      else if budget_violated b then check_result b ''Team-level budget exceeded'' None
      else plain_result DecisionAllow ''Team-level checks passed'' None)"

definition EvaluateUserRequest :: "store_iface \<Rightarrow> string \<Rightarrow> evaluation_request \<Rightarrow> evaluation_result" where
  "EvaluateUserRequest gi userID request =
     (let r = gi_CheckUserRateLimit gi userID; b = gi_CheckUserBudget gi userID;
          sr = gi_CheckScopedModelRateLimit gi ModelConfigScopeUser userID (Some request);
          sb = gi_CheckScopedModelBudget gi ModelConfigScopeUser userID (Some request) in
      if userID = [] then plain_result DecisionAllow ''No user ID provided, skipping user-level checks'' None
      else if rate_violated r then check_result r ''User-level rate limit exceeded'' None
      else if budget_violated b then check_result b ''User-level budget exceeded'' None
      else if er_Model request \<noteq> [] \<and> rate_violated sr then check_result sr ''User-level model rate limit exceeded'' None
      else if er_Model request \<noteq> [] \<and> budget_violated sb then check_result sb ''User-level model budget exceeded'' None
      else plain_result DecisionAllow ''User-level checks passed'' None)"

subsection \<open>Providers and models of a virtual key\<close>

text \<open>The catalog: the providers that serve a model, the models of a provider, the known provider
  names, and for a configured custom provider whether its model listing is disabled.\<close>

record model_catalog =
  cat_GetProvidersForModel :: "string \<Rightarrow> string list"
  cat_GetModelsForProvider :: "string \<Rightarrow> string list"
  cat_IsKnownProvider :: "string \<Rightarrow> bool"
  cat_ListModelsDisabled :: "string \<Rightarrow> bool option"

definition ParseModelString :: "(string \<Rightarrow> bool) \<Rightarrow> string \<Rightarrow> string \<Rightarrow> string \<times> string" where
  "ParseModelString known model defaultProvider =
     (case split_first CHR ''/'' model of
        Some (p, m) \<Rightarrow> if known p then (p, m) else (defaultProvider, model)
      | None \<Rightarrow> (defaultProvider, model))"

definition IsModelAllowedForProvider :: "model_catalog \<Rightarrow> string \<Rightarrow> string \<Rightarrow> WhiteList \<Rightarrow> bool" where
  "IsModelAllowedForProvider cat provider model allowedModels =
     (if wl_IsUnrestricted allowedModels
      then cat_ListModelsDisabled cat provider = Some True \<or>
           provider \<in> set (cat_GetProvidersForModel cat model)
      else if wl_IsEmpty allowedModels then False
      else \<exists>m \<in> set allowedModels.
        m = model \<or>
        (CHR ''/'' \<in> set m \<and> m \<in> set (cat_GetModelsForProvider cat provider) \<and>
         snd (ParseModelString (cat_IsKnownProvider cat) m []) = model))"

definition isModelAllowed :: "model_catalog option \<Rightarrow> virtual_key \<Rightarrow> string \<Rightarrow> string \<Rightarrow> bool" where
  "isModelAllowed cat vk provider model =
     (if vk_ProviderConfigs vk = [] then False
      else if \<exists>pc \<in> set (vk_ProviderConfigs vk). pc_Provider pc = provider \<and> bl_IsBlocked (pc_BlacklistedModels pc) model
      then False
      else \<exists>pc \<in> set (vk_ProviderConfigs vk). pc_Provider pc = provider \<and>
        (case cat of
           Some c \<Rightarrow> IsModelAllowedForProvider c provider model (pc_AllowedModels pc)
         | None \<Rightarrow> wl_IsAllowed (pc_AllowedModels pc) model))"

definition isProviderAllowed :: "virtual_key \<Rightarrow> string \<Rightarrow> bool" where
  "isProviderAllowed vk provider \<longleftrightarrow>
     vk_ProviderConfigs vk \<noteq> [] \<and> (\<exists>pc \<in> set (vk_ProviderConfigs vk). pc_Provider pc = provider)"

subsection \<open>Request types\<close>

type_synonym request_type = string

definition MCPToolExecutionRequest :: request_type where "MCPToolExecutionRequest = ''mcp_tool_execution''"
definition ListModelsRequest :: request_type where "ListModelsRequest = ''list_models''"
definition PassthroughRequest :: request_type where "PassthroughRequest = ''passthrough''"
definition PassthroughStreamRequest :: request_type where "PassthroughStreamRequest = ''passthrough_stream''"

definition IsModelRequiredForRequest :: "request_type \<Rightarrow> bool" where
  "IsModelRequiredForRequest t \<longleftrightarrow> t \<notin> set
     [ListModelsRequest, MCPToolExecutionRequest, ''batch_create'', ''batch_list'', ''batch_retrieve'',
      ''batch_cancel'', ''batch_results'', ''file_upload'', ''file_list'', ''file_retrieve'', ''file_delete'',
      ''file_content'', ''container_create'', ''container_list'', ''container_retrieve'', ''container_delete'',
      ''container_file_create'', ''container_file_list'', ''container_file_retrieve'',
      ''container_file_content'', ''container_file_delete'', ''cached_content_list'',
      ''cached_content_retrieve'', ''cached_content_update'', ''cached_content_delete'',
      ''video_retrieve'', ''video_download'', ''video_list'', ''video_delete'', ''video_remix'',
      PassthroughRequest, PassthroughStreamRequest]"

subsection \<open>The virtual key\<close>

definition stamp_team :: "store_iface \<Rightarrow> gov_ctx \<Rightarrow> virtual_key \<Rightarrow> gov_ctx" where
  "stamp_team gi ctx vk =
     (case vk_Team vk of
        Some t \<Rightarrow>
          let ctx1 = CtxSetValue (CtxSetValue ctx KeyTeamID (CStr (tm_ID t))) KeyTeamName (CStr (tm_Name t)) in
          (case tm_Customer t of
             Some c \<Rightarrow> CtxSetValue (CtxSetValue ctx1 KeyCustomerID (CStr (cu_ID c))) KeyCustomerName (CStr (cu_Name c))
           | None \<Rightarrow> set_opt ctx1 KeyCustomerID (nonempty_id (tm_CustomerID t)))
      | None \<Rightarrow>
          let tid = teamIDFromVK (Some vk) in
          if tid = [] then ctx
          else let ctx1 = CtxSetValue ctx KeyTeamID (CStr tid) in
            (case gi_local gi of
               None \<Rightarrow> ctx1
             | Some st \<Rightarrow>
                 (case sm_load (st_teams st) tid of
                    None \<Rightarrow> ctx1
                  | Some t \<Rightarrow>
                      set_opt (set_opt (CtxSetValue ctx1 KeyTeamName (CStr (tm_Name t)))
                        KeyCustomerID (nonempty_id (tm_CustomerID t)))
                        KeyCustomerName (map_option cu_Name (tm_Customer t)))))"

definition stamp_customer :: "gov_ctx \<Rightarrow> virtual_key \<Rightarrow> gov_ctx" where
  "stamp_customer ctx vk =
     (case vk_Customer vk of
        Some c \<Rightarrow> CtxSetValue (CtxSetValue ctx KeyCustomerID (CStr (cu_ID c))) KeyCustomerName (CStr (cu_Name c))
      | None \<Rightarrow>
          (case nonempty_id (vk_CustomerID vk) of
             None \<Rightarrow> ctx
           | Some c \<Rightarrow> if GetStringFromContext ctx KeyCustomerID = [] then CtxSetValue ctx KeyCustomerID (CStr c) else ctx))"

definition stamp_virtual_key :: "store_iface \<Rightarrow> gov_ctx \<Rightarrow> virtual_key \<Rightarrow> gov_ctx" where
  "stamp_virtual_key gi ctx vk =
     (let ctx1 = CtxSetValue (CtxSetValue ctx KeyVirtualKeyID (CStr (vk_ID vk))) KeyVirtualKeyName (CStr (vk_Name vk));
          ctx2 = stamp_customer (stamp_team gi ctx1 vk) vk
      in case gi_local gi of None \<Rightarrow> ctx2 | Some st \<Rightarrow> stampBusinessUnitsForTeam st ctx2 (teamIDFromVK (Some vk)))"

text \<open>The rate limit shown with a violation: of the first provider config of the provider that
  names one, else of the key.\<close>

definition violated_rate_limit :: "store_iface \<Rightarrow> virtual_key \<Rightarrow> evaluation_request \<Rightarrow> rate_limit option" where
  "violated_rate_limit gi vk request =
     (case find (\<lambda>pc. pc_Provider pc = er_Provider request \<and> pc_RateLimitID pc \<noteq> None) (vk_ProviderConfigs vk) of
        Some pc \<Rightarrow> (case gi_LoadRateLimit gi (the (pc_RateLimitID pc)) of
            Some r \<Rightarrow> Some r
          | None \<Rightarrow> (case vk_RateLimitID vk of None \<Rightarrow> None | Some i \<Rightarrow> gi_LoadRateLimit gi i))
      | None \<Rightarrow> (case vk_RateLimitID vk of None \<Rightarrow> None | Some i \<Rightarrow> gi_LoadRateLimit gi i))"

definition checkRateLimitHierarchy ::
  "store_iface \<Rightarrow> gov_ctx \<Rightarrow> virtual_key \<Rightarrow> evaluation_request \<Rightarrow> evaluation_result option" where
  "checkRateLimitHierarchy gi ctx vk request =
     (let v = gi_CheckVirtualKeyRateLimit gi ctx vk (Some request) in
      if rate_violated v
      then Some ((check_result v ''Rate limit check failed'' (Some vk))\<lparr>ev_RateLimitInfo := violated_rate_limit gi vk request\<rparr>)
      else None)"

definition checkBudgetHierarchy ::
  "store_iface \<Rightarrow> gov_ctx \<Rightarrow> virtual_key \<Rightarrow> evaluation_request \<Rightarrow> evaluation_result option" where
  "checkBudgetHierarchy gi ctx vk request =
     (let v = gi_CheckVirtualKeyBudget gi ctx vk (Some request) in
      if budget_violated v then Some (check_result v ''Budget exceeded'' (Some vk)) else None)"

definition virtual_key_limits ::
  "store_iface \<Rightarrow> gov_ctx \<Rightarrow> virtual_key \<Rightarrow> evaluation_request \<Rightarrow> evaluation_result option" where
  "virtual_key_limits gi ctx vk request =
     (case checkRateLimitHierarchy gi ctx vk request of
        Some r \<Rightarrow> Some r
      | None \<Rightarrow> (case checkBudgetHierarchy gi ctx vk request of
          Some r \<Rightarrow> Some r
        | None \<Rightarrow>
            (let sr = gi_CheckScopedModelRateLimit gi ModelConfigScopeVirtualKey (vk_ID vk) (Some request);
                 sb = gi_CheckScopedModelBudget gi ModelConfigScopeVirtualKey (vk_ID vk) (Some request) in
             if er_Model request \<noteq> [] \<and> rate_violated sr
             then Some (check_result sr ''Model-level rate limit check failed (virtual key scope)'' (Some vk))
             else if er_Model request \<noteq> [] \<and> budget_violated sb
             then Some (check_result sb ''Model-level budget exceeded (virtual key scope)'' (Some vk))
             else None)))"

definition restrict_keys :: "gov_ctx \<Rightarrow> virtual_key \<Rightarrow> string \<Rightarrow> gov_ctx" where
  "restrict_keys ctx vk provider =
     (case find (\<lambda>pc. pc_Provider pc = provider) (vk_ProviderConfigs vk) of
        None \<Rightarrow> ctx
      | Some pc \<Rightarrow> if pc_AllowAllKeys pc then ctx else CtxSetValue ctx KeyIncludeOnlyKeys (CStrs (pc_Keys pc)))"

text \<open>The early returns of the identity checks: active, not expired, provider, model.\<close>

definition key_refusal ::
  "model_catalog option \<Rightarrow> instant \<Rightarrow> virtual_key \<Rightarrow> string \<Rightarrow> string \<Rightarrow> request_type \<Rightarrow> evaluation_result option" where
  "key_refusal cat now vk provider model requestType =
     (let isPassthrough = requestType = PassthroughRequest \<or> requestType = PassthroughStreamRequest in
      if \<not> IsActiveValue vk then Some (plain_result DecisionVirtualKeyBlocked ''Virtual key is inactive'' None)
      else if IsExpiredAt vk now then Some (plain_result DecisionVirtualKeyBlocked ''Virtual key has expired'' None)
      else if requestType \<noteq> MCPToolExecutionRequest \<and> requestType \<noteq> ListModelsRequest \<and> \<not> isProviderAllowed vk provider
      then Some (plain_result DecisionProviderBlocked (''Provider '' @ quoted provider @ '' is not allowed for this virtual key'') (Some vk))
      else if (IsModelRequiredForRequest requestType \<or> (isPassthrough \<and> model \<noteq> [])) \<and> \<not> isModelAllowed cat vk provider model
      then Some (plain_result DecisionModelBlocked (''Model '' @ quoted model @ '' is not allowed for this virtual key'') (Some vk))
      else None)"

definition EvaluateVirtualKeyRequest ::
  "store_iface \<Rightarrow> model_catalog option \<Rightarrow> instant \<Rightarrow> gov_ctx \<Rightarrow> string \<Rightarrow> string \<Rightarrow> string \<Rightarrow> request_type \<Rightarrow> bool
     \<Rightarrow> evaluation_result \<times> gov_ctx" where
  "EvaluateVirtualKeyRequest gi cat now ctx0 virtualKeyValue provider model requestType skip =
     (case gi_GetVirtualKey gi virtualKeyValue of
        None \<Rightarrow> (plain_result DecisionVirtualKeyNotFound ''Virtual key not found'' None, ctx0)
      | Some vk \<Rightarrow>
          let ctx = stamp_virtual_key gi ctx0 vk;
              request = \<lparr>er_VirtualKey = virtualKeyValue, er_Provider = provider, er_Model = model, er_UserID = []\<rparr> in
          (case key_refusal cat now vk provider model requestType of
             Some r \<Rightarrow> (r, ctx)
           | None \<Rightarrow>
               (case (if skip then None else virtual_key_limits gi ctx vk request) of
                  Some r \<Rightarrow> (r, ctx)
                | None \<Rightarrow> (plain_result DecisionAllow ''Request allowed by governance policy'' (Some vk),
                           restrict_keys ctx vk provider))))"

definition isProviderBudgetViolated :: "store_iface \<Rightarrow> gov_ctx \<Rightarrow> virtual_key \<Rightarrow> provider_config \<Rightarrow> bool" where
  "isProviderBudgetViolated gi ctx vk config =
     (let req = Some \<lparr>er_VirtualKey = [], er_Provider = pc_Provider config, er_Model = [], er_UserID = []\<rparr> in
      if snd (gi_CheckProviderBudget gi req) \<noteq> None then True
      else if pc_Budgets config = [] then False
      else snd (gi_CheckVirtualKeyBudget gi ctx vk req) \<noteq> None)"

definition isProviderRateLimitViolated :: "store_iface \<Rightarrow> gov_ctx \<Rightarrow> virtual_key \<Rightarrow> provider_config \<Rightarrow> bool" where
  "isProviderRateLimitViolated gi ctx vk config =
     (let req = Some \<lparr>er_VirtualKey = [], er_Provider = pc_Provider config, er_Model = [], er_UserID = []\<rparr> in
      if rate_violated (gi_CheckProviderRateLimit gi req) then True
      else if pc_RateLimitID config = None then False
      else rate_violated (gi_CheckVirtualKeyRateLimit gi ctx vk req))"

subsection \<open>What the contract gives\<close>

definition allows :: "verdict \<Rightarrow> bool" where
  "allows v \<longleftrightarrow> fst v = DecisionAllow"

lemma rate_violated_iff: "rate_verdict_ok v \<Longrightarrow> rate_violated v \<longleftrightarrow> \<not> allows v"
  by (auto simp: rate_violated_def rate_verdict_ok_def allows_def isRateLimitViolation_def)

lemma budget_violated_iff: "budget_verdict_ok v \<Longrightarrow> budget_violated v \<longleftrightarrow> \<not> allows v"
  by (auto simp: budget_violated_def budget_verdict_ok_def allows_def isBudgetViolation_def)

text \<open>The checks that each evaluation stands for.\<close>

definition request_of :: "string \<Rightarrow> string \<Rightarrow> string \<Rightarrow> evaluation_request" where
  "request_of vk provider model = \<lparr>er_VirtualKey = vk, er_Provider = provider, er_Model = model, er_UserID = []\<rparr>"

definition model_provider_pass :: "store_iface \<Rightarrow> string \<Rightarrow> string \<Rightarrow> bool" where
  "model_provider_pass gi provider model \<longleftrightarrow>
     (provider \<noteq> [] \<longrightarrow> allows (gi_CheckProviderRateLimit gi (Some (request_of [] provider model))) \<and>
        allows (gi_CheckProviderBudget gi (Some (request_of [] provider model)))) \<and>
     (model \<noteq> [] \<longrightarrow> allows (gi_CheckModelRateLimit gi (Some (request_of [] provider model))) \<and>
        allows (gi_CheckModelBudget gi (Some (request_of [] provider model))))"

definition customer_pass :: "store_iface \<Rightarrow> string \<Rightarrow> bool" where
  "customer_pass gi c \<longleftrightarrow> c \<noteq> [] \<longrightarrow> allows (gi_CheckCustomerRateLimit gi c) \<and> allows (gi_CheckCustomerBudget gi c)"

definition team_pass :: "store_iface \<Rightarrow> string \<Rightarrow> bool" where
  "team_pass gi t \<longleftrightarrow> t \<noteq> [] \<longrightarrow> allows (gi_CheckTeamRateLimit gi t) \<and> allows (gi_CheckTeamBudget gi t)"

definition scoped_pass :: "store_iface \<Rightarrow> string \<Rightarrow> string \<Rightarrow> evaluation_request \<Rightarrow> bool" where
  "scoped_pass gi scope i request \<longleftrightarrow> er_Model request \<noteq> [] \<longrightarrow>
     allows (gi_CheckScopedModelRateLimit gi scope i (Some request)) \<and>
     allows (gi_CheckScopedModelBudget gi scope i (Some request))"

definition user_pass :: "store_iface \<Rightarrow> string \<Rightarrow> evaluation_request \<Rightarrow> bool" where
  "user_pass gi u request \<longleftrightarrow> u \<noteq> [] \<longrightarrow>
     allows (gi_CheckUserRateLimit gi u) \<and> allows (gi_CheckUserBudget gi u) \<and>
     scoped_pass gi ModelConfigScopeUser u request"

definition key_limits_pass :: "store_iface \<Rightarrow> gov_ctx \<Rightarrow> virtual_key \<Rightarrow> evaluation_request \<Rightarrow> bool" where
  "key_limits_pass gi ctx vk request \<longleftrightarrow>
     allows (gi_CheckVirtualKeyRateLimit gi ctx vk (Some request)) \<and>
     allows (gi_CheckVirtualKeyBudget gi ctx vk (Some request)) \<and>
     scoped_pass gi ModelConfigScopeVirtualKey (vk_ID vk) request"

text \<open>What the key itself admits, whatever its limits.\<close>

definition key_admits :: "model_catalog option \<Rightarrow> instant \<Rightarrow> virtual_key \<Rightarrow> string \<Rightarrow> string \<Rightarrow> request_type \<Rightarrow> bool" where
  "key_admits cat now vk provider model t \<longleftrightarrow>
     IsActiveValue vk \<and> \<not> IsExpiredAt vk now \<and>
     (t \<noteq> MCPToolExecutionRequest \<longrightarrow> t \<noteq> ListModelsRequest \<longrightarrow> isProviderAllowed vk provider) \<and>
     (IsModelRequiredForRequest t \<or> (t \<in> {PassthroughRequest, PassthroughStreamRequest} \<and> model \<noteq> [])
        \<longrightarrow> isModelAllowed cat vk provider model)"

lemma key_refusal_None: "key_refusal cat now vk p m t = None \<longleftrightarrow> key_admits cat now vk p m t"
  unfolding key_refusal_def key_admits_def Let_def by (simp split: if_split) blast

lemma key_refusal_Some:
  "key_refusal cat now vk p m t = Some r \<Longrightarrow>
     ev_Decision r \<in> {DecisionVirtualKeyBlocked, DecisionProviderBlocked, DecisionModelBlocked}"
  unfolding key_refusal_def Let_def by (auto simp: plain_result_def split: if_split_asm)

locale governance_store =
  fixes gi :: store_iface
  assumes rate_contract:
      "rate_verdict_ok (gi_CheckProviderRateLimit gi r)"
      "rate_verdict_ok (gi_CheckModelRateLimit gi r)"
      "rate_verdict_ok (gi_CheckCustomerRateLimit gi i)"
      "rate_verdict_ok (gi_CheckTeamRateLimit gi i)"
      "rate_verdict_ok (gi_CheckUserRateLimit gi i)"
      "rate_verdict_ok (gi_CheckScopedModelRateLimit gi s i r)"
      "rate_verdict_ok (gi_CheckVirtualKeyRateLimit gi ctx vk r)"
    and budget_contract:
      "budget_verdict_ok (gi_CheckProviderBudget gi r)"
      "budget_verdict_ok (gi_CheckModelBudget gi r)"
      "budget_verdict_ok (gi_CheckCustomerBudget gi i)"
      "budget_verdict_ok (gi_CheckTeamBudget gi i)"
      "budget_verdict_ok (gi_CheckUserBudget gi i)"
      "budget_verdict_ok (gi_CheckScopedModelBudget gi s i r)"
      "budget_verdict_ok (gi_CheckVirtualKeyBudget gi ctx vk r)"
begin

lemmas violated_iff = rate_contract [THEN rate_violated_iff] budget_contract [THEN budget_violated_iff]

lemma model_provider_allow:
  "ev_Decision (EvaluateModelAndProviderRequest gi p m) = DecisionAllow \<longleftrightarrow> model_provider_pass gi p m"
  by (auto simp: EvaluateModelAndProviderRequest_def model_provider_pass_def request_of_def Let_def
      violated_iff check_result_def plain_result_def allows_def)

lemma customer_allow: "ev_Decision (EvaluateCustomerRequest gi c) = DecisionAllow \<longleftrightarrow> customer_pass gi c"
  by (auto simp: EvaluateCustomerRequest_def customer_pass_def Let_def violated_iff
      check_result_def plain_result_def allows_def)

lemma team_allow: "ev_Decision (EvaluateTeamRequest gi t) = DecisionAllow \<longleftrightarrow> team_pass gi t"
  by (auto simp: EvaluateTeamRequest_def team_pass_def Let_def violated_iff
      check_result_def plain_result_def allows_def)

lemma user_allow: "ev_Decision (EvaluateUserRequest gi u r) = DecisionAllow \<longleftrightarrow> user_pass gi u r"
  by (auto simp: EvaluateUserRequest_def user_pass_def scoped_pass_def Let_def violated_iff
      check_result_def plain_result_def allows_def)

lemma key_limits_None: "virtual_key_limits gi ctx vk r = None \<longleftrightarrow> key_limits_pass gi ctx vk r"
  by (auto simp: virtual_key_limits_def checkRateLimitHierarchy_def checkBudgetHierarchy_def
      key_limits_pass_def scoped_pass_def Let_def violated_iff split: option.splits)

lemma key_limits_Some: "virtual_key_limits gi ctx vk r = Some e \<Longrightarrow> ev_Decision e \<noteq> DecisionAllow"
  by (auto simp: virtual_key_limits_def checkRateLimitHierarchy_def checkBudgetHierarchy_def
      check_result_def Let_def violated_iff allows_def split: option.splits if_splits)

lemma virtual_key_allow:
  "ev_Decision (fst (EvaluateVirtualKeyRequest gi cat now ctx v p m t skip)) = DecisionAllow \<longleftrightarrow>
     (\<exists>vk. gi_GetVirtualKey gi v = Some vk \<and> key_admits cat now vk p m t \<and>
        (skip \<or> key_limits_pass gi (stamp_virtual_key gi ctx vk) vk (request_of v p m)))"
proof (cases "gi_GetVirtualKey gi v")
  case None
  then show ?thesis by (simp add: EvaluateVirtualKeyRequest_def plain_result_def)
next
  case (Some vk)
  note E = EvaluateVirtualKeyRequest_def request_of_def [symmetric] Let_def Some
  show ?thesis
  proof (cases "key_refusal cat now vk p m t")
    case None
    then show ?thesis
      using key_refusal_None [of cat now vk p m t]
        key_limits_None [of "stamp_virtual_key gi ctx vk" vk "request_of v p m"]
      by (cases "virtual_key_limits gi (stamp_virtual_key gi ctx vk) vk (request_of v p m)")
        (auto simp: E plain_result_def dest: key_limits_Some)
  next
    case r: (Some r)
    then show ?thesis using key_refusal_None [of cat now vk p m t] key_refusal_Some [OF r] by (auto simp: E)
  qed
qed

end

lemma local_iface_simps [simp]:
  "gi_GetVirtualKey (local_iface st now) = GetVirtualKey st"
  "gi_local (local_iface st now) = Some st"
  by (simp_all add: local_iface_def)

interpretation lgs: governance_store "local_iface st now" for st now
  by unfold_locales (auto simp: local_iface_def level_checks Let_def split: option.split prod.split)

end
