(* ===== verification/GovMcp.thy ===== *)
theory GovMcp
  imports GovResolver
begin

text \<open>
  Which MCP tools a request may use: the grants of a virtual key
  (plugins/governance/main.go) and the tool groups of the workspace
  (framework/mcptoolgroups/runtime.go). A tool is named \<open>client-tool\<close>, and \<open>client-*\<close> stands
  for all tools of a client. Client names contain no hyphen (core/mcp/utils.go checks this when
  a client is registered).

  \<open>allowAll\<close> is the map from the identifier to the name of the clients that every virtual key
  may use, in the order of the range over it.
\<close>

subsection \<open>Names\<close>

definition tool_of :: "string \<Rightarrow> string \<Rightarrow> string" where
  "tool_of client tool = client @ ''-'' @ tool"

definition all_tools :: "string \<Rightarrow> string" where
  "all_tools client = client @ ''-*''"

text \<open>\<^verbatim>\<open>strings.CutSuffix(s, "-*")\<close>.\<close>

definition cut_wildcard :: "string \<Rightarrow> string option" where
  "cut_wildcard s = (if 2 \<le> length s \<and> drop (length s - 2) s = ''-*'' then Some (take (length s - 2) s) else None)"

subsection \<open>The grants of a virtual key\<close>

text \<open>The verdict of the explicit configs: \<open>None\<close> when none speaks about the tool.\<close>

fun explicit_grant :: "mcp_config list \<Rightarrow> string \<Rightarrow> bool option" where
  "explicit_grant [] pattern = None"
| "explicit_grant (c # cs) pattern =
     (let clientName = mcp_ClientName c in
      if pattern \<noteq> all_tools clientName \<and> \<not> has_prefix pattern (clientName @ ''-'') then explicit_grant cs pattern
      else if wl_IsEmpty (mcp_ToolsToExecute c) then explicit_grant cs pattern
      else if pattern = all_tools clientName then Some True
      else if wl_IsUnrestricted (mcp_ToolsToExecute c) then Some True
      else Some (list_contains (mcp_ToolsToExecute c) (drop (length clientName + 1) pattern)))"

definition isMCPToolAllowedByVKWith :: "virtual_key \<Rightarrow> string \<Rightarrow> string smap \<Rightarrow> bool" where
  "isMCPToolAllowedByVKWith vk pattern allowAll =
     (case explicit_grant (vk_MCPConfigs vk) pattern of
        Some b \<Rightarrow> b
      | None \<Rightarrow> \<exists>(i, clientName) \<in> set allowAll.
          has_prefix pattern (clientName @ ''-'') \<or> pattern = all_tools clientName)"

definition config_tools :: "mcp_config \<Rightarrow> string list" where
  "config_tools c =
     (if wl_IsEmpty (mcp_ToolsToExecute c) then []
      else if wl_IsUnrestricted (mcp_ToolsToExecute c) then [all_tools (mcp_ClientName c)]
      else map (tool_of (mcp_ClientName c)) (filter (\<lambda>t. t \<noteq> []) (mcp_ToolsToExecute c)))"

definition handled_clients :: "virtual_key \<Rightarrow> string smap \<Rightarrow> string list" where
  "handled_clients vk allowAll =
     map mcp_ClientID (filter (\<lambda>c. \<not> wl_IsEmpty (mcp_ToolsToExecute c) \<and> sm_load allowAll (mcp_ClientID c) \<noteq> None)
       (vk_MCPConfigs vk))"

definition computeMCPIncludeToolsWith :: "virtual_key \<Rightarrow> string smap \<Rightarrow> string list" where
  "computeMCPIncludeToolsWith vk allowAll =
     concat (map config_tools (vk_MCPConfigs vk)) @
     map (all_tools \<circ> snd) (filter (\<lambda>(i, n). i \<notin> set (handled_clients vk allowAll)) allowAll)"

subsection \<open>Tool groups\<close>

record tool_group =
  tg_Tools :: "string list"
  tg_VirtualKeyIDs :: "string list"
  tg_TeamIDs :: "string list"
  tg_CustomerIDs :: "string list"
  tg_UserIDs :: "string list"
  tg_ProviderNames :: "string list"

record tool_request =
  tq_VirtualKeyID :: string
  tq_UserID :: string
  tq_TeamID :: string
  tq_CustomerID :: string
  tq_ProviderName :: string

definition contains_id :: "string list \<Rightarrow> string \<Rightarrow> bool" where
  "contains_id l v \<longleftrightarrow> v \<noteq> [] \<and> v \<in> set l"

definition group_matches :: "tool_group \<Rightarrow> tool_request \<Rightarrow> bool" where
  "group_matches g q \<longleftrightarrow>
     (tg_VirtualKeyIDs g \<noteq> [] \<longrightarrow> contains_id (tg_VirtualKeyIDs g) (tq_VirtualKeyID q)) \<and>
     (tg_UserIDs g \<noteq> [] \<longrightarrow> contains_id (tg_UserIDs g) (tq_UserID q)) \<and>
     (tg_TeamIDs g \<noteq> [] \<longrightarrow> contains_id (tg_TeamIDs g) (tq_TeamID q)) \<and>
     (tg_CustomerIDs g \<noteq> [] \<longrightarrow> contains_id (tg_CustomerIDs g) (tq_CustomerID q)) \<and>
     (tg_ProviderNames g \<noteq> [] \<longrightarrow> contains_id (tg_ProviderNames g) (tq_ProviderName q))"

definition toolMatches :: "string \<Rightarrow> string \<Rightarrow> bool" where
  "toolMatches pattern0 toolName =
     (let pattern = str_trim pattern0 in
      if pattern = [] then False
      else case cut_wildcard pattern of
          Some stem \<Rightarrow> has_prefix toolName (stem @ ''-'')
        | None \<Rightarrow> pattern = toolName)"

text \<open>The loop over the groups: whether one matched so far, and the answer.\<close>

fun any_group_allows :: "tool_group list \<Rightarrow> tool_request \<Rightarrow> string \<Rightarrow> bool \<Rightarrow> bool" where
  "any_group_allows [] q tool matched = (\<not> matched)"
| "any_group_allows (g # gs) q tool matched =
     (if \<not> group_matches g q then any_group_allows gs q tool matched
      else if tg_Tools g = [] then True
      else if \<exists>p \<in> set (tg_Tools g). toolMatches p tool then True
      else any_group_allows gs q tool True)"

definition IsToolAllowed :: "tool_group list \<Rightarrow> string \<Rightarrow> tool_request \<Rightarrow> bool" where
  "IsToolAllowed groups toolName q =
     (if groups = [] then True
      else let tool = str_trim toolName in
        if tool = [] then True else any_group_allows groups q tool False)"

definition add_tool :: "string list \<Rightarrow> string \<Rightarrow> string list" where
  "add_tool acc tool0 = (let tool = str_trim tool0 in if tool = [] \<or> tool \<in> set acc then acc else acc @ [tool])"

definition expand_tool :: "tool_group list \<Rightarrow> tool_group list \<Rightarrow> tool_request \<Rightarrow> string \<Rightarrow> string list" where
  "expand_tool groups matched q tool =
     (case cut_wildcard tool of
        Some clientPrefix \<Rightarrow>
          filter (\<lambda>p. p = all_tools clientPrefix \<or> has_prefix p (clientPrefix @ ''-''))
            (concat (map tg_Tools matched))
      | None \<Rightarrow> if IsToolAllowed groups tool q then [tool] else [])"

definition FilterTools :: "tool_group list \<Rightarrow> string list \<Rightarrow> tool_request \<Rightarrow> string list" where
  "FilterTools groups tools q =
     (let matched = filter (\<lambda>g. group_matches g q) groups in
      if tools = [] \<or> groups = [] then tools
      else if matched = [] \<or> (\<exists>g \<in> set matched. tg_Tools g = []) then tools
      else fold (\<lambda>t acc. add_tool acc t) (concat (map (expand_tool groups matched q) tools)) [])"

subsection \<open>Narrowing the caller's list\<close>

definition prune_tools :: "virtual_key \<Rightarrow> string smap \<Rightarrow> string list \<Rightarrow> string list" where
  "prune_tools vk allowAll requested =
     (let vkTools = computeMCPIncludeToolsWith vk allowAll in
      add_new [] (concat (map (\<lambda>pattern.
        if pattern = [] then []
        else case cut_wildcard pattern of
            Some clientName \<Rightarrow>
              if pattern \<in> set vkTools then [pattern]
              else filter (\<lambda>t. has_prefix t (clientName @ ''-'')) vkTools
          | None \<Rightarrow> if isMCPToolAllowedByVKWith vk pattern allowAll then [pattern] else []) requested)))"

definition tool_request_of :: "gov_ctx \<Rightarrow> virtual_key \<Rightarrow> tool_request" where
  "tool_request_of ctx vk =
     (let scoped = GetStringFromContext ctx KeyScopedCustomerID in
      \<lparr>tq_VirtualKeyID = vk_ID vk, tq_UserID = GetStringFromContext ctx KeyUserID,
       tq_TeamID = GetStringFromContext ctx KeyTeamID,
       tq_CustomerID = (if scoped = [] then GetStringFromContext ctx KeyCustomerID else scoped),
       tq_ProviderName = []\<rparr>)"

definition filterMCPIncludeToolsByGroups ::
  "tool_group list \<Rightarrow> gov_ctx \<Rightarrow> virtual_key option \<Rightarrow> string list \<Rightarrow> string list" where
  "filterMCPIncludeToolsByGroups groups ctx vk tools =
     (case vk of
        None \<Rightarrow> tools
      | Some v \<Rightarrow> if tools = [] then tools else FilterTools groups tools (tool_request_of ctx v))"

definition pruneMCPIncludeToolsFromContext ::
  "tool_group list \<Rightarrow> string smap \<Rightarrow> gov_ctx \<Rightarrow> virtual_key \<Rightarrow> bool \<times> gov_ctx" where
  "pruneMCPIncludeToolsFromContext groups allowAll ctx vk =
     (case CtxValue ctx MCPContextKeyIncludeTools of
        CNil \<Rightarrow> (False, ctx)
      | v \<Rightarrow>
          let requested = (case v of CStrs l \<Rightarrow> l | _ \<Rightarrow> []);
              pruned = filterMCPIncludeToolsByGroups groups ctx (Some vk) (prune_tools vk allowAll requested)
          in (True, CtxSetValue ctx MCPContextKeyIncludeTools (CStrs pruned)))"

subsection \<open>Laws\<close>

lemma cut_wildcard_iff: "cut_wildcard s = Some c \<longleftrightarrow> s = all_tools c"
proof
  assume "cut_wildcard s = Some c"
  then have "2 \<le> length s" "drop (length s - 2) s = ''-*''" "c = take (length s - 2) s"
    by (auto simp: cut_wildcard_def split: if_splits)
  then show "s = all_tools c" by (metis all_tools_def append_take_drop_id)
qed (simp add: cut_wildcard_def all_tools_def)

lemma cut_wildcard_None: "cut_wildcard s = None \<longleftrightarrow> (\<forall>c. s \<noteq> all_tools c)"
  using cut_wildcard_iff by (metis option.exhaust option.distinct(1))

lemma any_group_allows_iff:
  "any_group_allows gs q tool matched \<longleftrightarrow>
     (\<exists>g \<in> set gs. group_matches g q \<and> (tg_Tools g = [] \<or> (\<exists>p \<in> set (tg_Tools g). toolMatches p tool))) \<or>
     (\<not> matched \<and> (\<forall>g \<in> set gs. \<not> group_matches g q))"
  by (induction gs q tool matched rule: any_group_allows.induct) auto

lemma toolMatches_trim: "str_trim p \<noteq> [] \<Longrightarrow> toolMatches p (str_trim p)"
  by (auto simp: toolMatches_def Let_def cut_wildcard_iff all_tools_def has_prefix_iff split: option.split)

lemma set_add_tools:
  "set (fold (\<lambda>t acc. add_tool acc t) ts acc) = set acc \<union> {str_trim t |t. t \<in> set ts \<and> str_trim t \<noteq> []}"
  by (induction ts arbitrary: acc) (auto simp: add_tool_def Let_def)

lemma wildcard_matches: "toolMatches (all_tools c) (tool_of c y)" if "str_trim (all_tools c) = all_tools c"
proof -
  have "cut_wildcard (all_tools c) = Some c" by (simp add: cut_wildcard_iff)
  moreover have "all_tools c \<noteq> []" by (simp add: all_tools_def)
  ultimately show ?thesis using that by (simp add: toolMatches_def has_prefix_iff tool_of_def)
qed

text \<open>A pattern that matches a tool of a client is kept when the wildcard of the client is expanded.\<close>

lemma matching_pattern_kept:
  assumes "toolMatches p (tool_of c y)" "str_trim p = p" "CHR ''-'' \<notin> set c"
  shows "p = all_tools c \<or> has_prefix p (c @ ''-'')"
proof (cases "cut_wildcard p")
  case None
  then have "p = tool_of c y"
    using assms(1) unfolding toolMatches_def Let_def assms(2) by (simp split: if_splits)
  then show ?thesis by (simp add: has_prefix_iff tool_of_def)
next
  case (Some stem)
  then have p: "p = all_tools stem" by (simp add: cut_wildcard_iff)
  have "prefix (stem @ ''-'') (c @ ''-'' @ y)"
    using assms(1) Some unfolding toolMatches_def Let_def assms(2)
    by (simp add: has_prefix_iff tool_of_def split: if_splits)
  then obtain z where z: "c @ ''-'' @ y = stem @ ''-'' @ z" by (auto simp: prefix_def)
  then obtain us where "c = stem @ us \<and> us @ ''-'' @ y = ''-'' @ z \<or> stem = c @ us \<and> ''-'' @ y = us @ ''-'' @ z"
    unfolding append_eq_append_conv2 by blast
  then show ?thesis
  proof
    assume 1: "c = stem @ us \<and> us @ ''-'' @ y = ''-'' @ z"
    then have "us = []" using assms(3) by (cases us) simp_all
    with 1 show ?thesis by (simp add: p)
  next
    assume 2: "stem = c @ us \<and> ''-'' @ y = us @ ''-'' @ z"
    then have "has_prefix (all_tools stem) (c @ ''-'')" by (cases us) (simp_all add: all_tools_def has_prefix_iff)
    then show ?thesis by (simp add: p)
  qed
qed

text \<open>
  C29. Whatever the groups and the request, the tools that the groups leave in the list for the chat
  request are tools, or wildcards, that the check at execution time allows. Conversely a plain name in the list
  that the check allows is left in, as it stands or without the blanks around it; and where the list
  holds the wildcard of a client, every tool of the client that the check allows is
  matched by a pattern left in, when neither the patterns of the groups nor the names of the client and the tool
  have blanks around them and the client's name has no hyphen. A pattern with blanks around it is lost
  under a wildcard: \<open>blank_pattern_is_lost\<close>.
\<close>

theorem tool_groups_agree:
  "(\<forall>t \<in> set (FilterTools groups tools q). IsToolAllowed groups t q) \<and>
   (\<forall>t \<in> set tools. cut_wildcard t = None \<longrightarrow> str_trim t \<noteq> [] \<longrightarrow> IsToolAllowed groups t q \<longrightarrow>
      t \<in> set (FilterTools groups tools q) \<or> str_trim t \<in> set (FilterTools groups tools q)) \<and>
   (\<forall>c y. all_tools c \<in> set tools \<longrightarrow> CHR ''-'' \<notin> set c \<longrightarrow> str_trim (all_tools c) = all_tools c \<longrightarrow>
      str_trim (tool_of c y) = tool_of c y \<longrightarrow> (\<forall>g \<in> set groups. \<forall>p \<in> set (tg_Tools g). str_trim p = p) \<longrightarrow>
      IsToolAllowed groups (tool_of c y) q \<longrightarrow>
      (\<exists>p \<in> set (FilterTools groups tools q). toolMatches p (tool_of c y)))"
proof -
  let ?m = "filter (\<lambda>g. group_matches g q) groups"
  have pattern: "IsToolAllowed groups (str_trim p) q" if "g \<in> set ?m" "p \<in> set (tg_Tools g)" for g p
    using that toolMatches_trim [of p] by (auto simp: IsToolAllowed_def Let_def any_group_allows_iff)
  have trim: "IsToolAllowed groups (str_trim t) q = IsToolAllowed groups t q" for t
    by (simp add: IsToolAllowed_def)
  have expand: "IsToolAllowed groups (str_trim t) q" if "t \<in> set (expand_tool groups ?m q tool)" for t tool
    using that pattern by (auto simp: expand_tool_def trim split: option.splits if_splits)
  show ?thesis
  proof (cases "tools = [] \<or> groups = [] \<or> ?m = [] \<or> (\<exists>g \<in> set ?m. tg_Tools g = [])")
    case True
    have "IsToolAllowed groups t q" if "tools \<noteq> []" for t
      using True that by (auto simp: IsToolAllowed_def Let_def any_group_allows_iff filter_empty_conv)
    moreover have "FilterTools groups tools q = tools" using True by (auto simp: FilterTools_def Let_def)
    ultimately show ?thesis using wildcard_matches by (cases "tools = []") auto
  next
    case False
    then have F: "FilterTools groups tools q =
        fold (\<lambda>t acc. add_tool acc t) (concat (map (expand_tool groups ?m q) tools)) []"
      by (auto simp: FilterTools_def Let_def)
    have "t \<in> set (expand_tool groups ?m q t)" if "cut_wildcard t = None" "IsToolAllowed groups t q" for t
      using that by (simp add: expand_tool_def)
    then have "str_trim t \<in> set (FilterTools groups tools q)"
      if "t \<in> set tools" "cut_wildcard t = None" "str_trim t \<noteq> []" "IsToolAllowed groups t q" for t
      unfolding F set_add_tools using that by auto
    moreover have "\<forall>t \<in> set (FilterTools groups tools q). IsToolAllowed groups t q"
      unfolding F set_add_tools using expand by auto
    moreover have "\<exists>p \<in> set (FilterTools groups tools q). toolMatches p (tool_of c y)"
      if c: "all_tools c \<in> set tools" "CHR ''-'' \<notin> set c"
        and t: "str_trim (tool_of c y) = tool_of c y" "\<forall>g \<in> set groups. \<forall>p \<in> set (tg_Tools g). str_trim p = p"
        and ok: "IsToolAllowed groups (tool_of c y) q" for c y
    proof -
      have "tool_of c y \<noteq> []" by (simp add: tool_of_def)
      then obtain g p where g: "g \<in> set ?m" and p: "p \<in> set (tg_Tools g)" "toolMatches p (tool_of c y)"
        using False ok t(1) by (auto simp: IsToolAllowed_def Let_def any_group_allows_iff filter_empty_conv)
      have trimmed: "str_trim p = p" "p \<noteq> []" using t(2) g p by (auto simp: toolMatches_def Let_def)
      have "p \<in> set (expand_tool groups ?m q (all_tools c))"
        using matching_pattern_kept [OF p(2) trimmed(1) c(2)] g p(1)
        by (auto simp: expand_tool_def cut_wildcard_iff [THEN iffD2, OF refl])
      then have "p \<in> set (FilterTools groups tools q)"
        unfolding F set_add_tools using c(1) trimmed by force
      with p(2) show ?thesis by blast
    qed
    ultimately show ?thesis by blast
  qed
qed

definition reader_groups :: "tool_group list" where
  "reader_groups =
     [\<lparr>tg_Tools = [''files-read'', ''git-*''], tg_VirtualKeyIDs = [''vk1''], tg_TeamIDs = [], tg_CustomerIDs = [],
        tg_UserIDs = [], tg_ProviderNames = []\<rparr>]"

definition reader_request :: tool_request where
  "reader_request = \<lparr>tq_VirtualKeyID = ''vk1'', tq_UserID = [], tq_TeamID = [], tq_CustomerID = [], tq_ProviderName = []\<rparr>"

theorem tool_groups_agree_witness:
  "FilterTools reader_groups [''files-write'', '' git-log'', ''git-*''] reader_request = [''git-log'', ''git-*''] \<and>
   IsToolAllowed reader_groups ''git-*'' reader_request \<and> \<not> IsToolAllowed reader_groups ''files-write'' reader_request"
proof -
  have f: "FilterTools reader_groups [''files-write'', '' git-log'', ''git-*''] reader_request = [''git-log'', ''git-*'']"
    by code_simp
  moreover have "IsToolAllowed reader_groups ''git-*'' reader_request"
    using tool_groups_agree [of reader_groups "[''files-write'', '' git-log'', ''git-*'']" reader_request] by (simp add: f)
  moreover have "\<not> IsToolAllowed reader_groups ''files-write'' reader_request" by code_simp
  ultimately show ?thesis by blast
qed

text \<open>The expansion of a wildcard compares the patterns as they are, the check without the blanks around them.\<close>

lemma blank_pattern_is_lost:
  "let groups = [(hd reader_groups)\<lparr>tg_Tools := ['' git-log'']\<rparr>] in
   IsToolAllowed groups ''git-log'' reader_request \<and> FilterTools groups [''git-*''] reader_request = [] \<and>
   FilterTools groups [''git-log''] reader_request = [''git-log'']"
  by code_simp

subsection \<open>The grants and the check agree\<close>

lemma hyphen_split:
  "CHR ''-'' \<notin> set a \<Longrightarrow> CHR ''-'' \<notin> set b \<Longrightarrow> a @ CHR ''-'' # t = b @ CHR ''-'' # u \<longleftrightarrow> a = b \<and> t = u"
proof (induction a arbitrary: b)
  case Nil
  then show ?case by (cases b) auto
next
  case (Cons x a)
  then show ?case by (cases b) auto
qed

lemma tool_of_eq:
  "CHR ''-'' \<notin> set a \<Longrightarrow> CHR ''-'' \<notin> set b \<Longrightarrow> tool_of a t = tool_of b u \<longleftrightarrow> a = b \<and> t = u"
  by (simp add: tool_of_def hyphen_split)

lemma all_tools_tool_of: "all_tools a = tool_of a ''*''"
  by (simp add: all_tools_def tool_of_def)

lemma tool_prefix:
  "CHR ''-'' \<notin> set a \<Longrightarrow> CHR ''-'' \<notin> set b \<Longrightarrow> has_prefix (tool_of a t) (b @ ''-'') \<longleftrightarrow> a = b"
  by (auto simp: has_prefix_iff prefix_def tool_of_def hyphen_split)

lemma explicit_grant_tool:
  assumes "\<forall>c \<in> set cs. CHR ''-'' \<notin> set (mcp_ClientName c)" "CHR ''-'' \<notin> set n" "t \<noteq> ''*''"
  shows "explicit_grant cs (tool_of n t) =
    map_option (\<lambda>c. wl_IsAllowed (mcp_ToolsToExecute c) t)
      (find (\<lambda>c. mcp_ClientName c = n \<and> mcp_ToolsToExecute c \<noteq> []) cs)"
  using assms(1)
proof (induction cs)
  case Nil
  then show ?case by simp
next
  case (Cons c cs)
  then have h: "CHR ''-'' \<notin> set (mcp_ClientName c)" by simp
  have d: "drop (length n + 1) (tool_of n t) = t" by (simp add: tool_of_def)
  have n: "(tool_of n t = all_tools (mcp_ClientName c)) = False"
    using tool_of_eq [OF assms(2) h] assms(3) by (auto simp: all_tools_tool_of)
  have p: "has_prefix (tool_of n t) (mcp_ClientName c @ ''-'') \<longleftrightarrow> n = mcp_ClientName c"
    by (rule tool_prefix [OF assms(2) h])
  have IH: "explicit_grant cs (tool_of n t) = map_option (\<lambda>c. wl_IsAllowed (mcp_ToolsToExecute c) t)
      (find (\<lambda>c. mcp_ClientName c = n \<and> mcp_ToolsToExecute c \<noteq> []) cs)"
    using Cons by simp
  show ?case
  proof (cases "mcp_ClientName c = n")
    case True
    with d have "drop (Suc (length (mcp_ClientName c))) (tool_of n t) = t" by simp
    with True show ?thesis
      by (simp add: n [unfolded True] p [unfolded True] IH wl_IsEmpty_def wl_IsAllowed_def Let_def)
  next
    case False
    then have "n \<noteq> mcp_ClientName c" by simp
    with False show ?thesis by (simp add: n p IH)
  qed
qed

text \<open>Grants of a tool of client \<open>n\<close> in the explicit part of the list.\<close>

lemma config_tools_iff:
  assumes "CHR ''-'' \<notin> set (mcp_ClientName c)" "CHR ''-'' \<notin> set n" "wl_Validate (mcp_ToolsToExecute c)"
    and "t \<noteq> []" "t \<noteq> ''*''"
  shows "(all_tools n \<in> set (config_tools c) \<or> (\<exists>u. equal_fold u t \<and> tool_of n u \<in> set (config_tools c))) \<longleftrightarrow>
    mcp_ClientName c = n \<and> wl_IsAllowed (mcp_ToolsToExecute c) t"
proof -
  have star: "''*'' \<in> set (mcp_ToolsToExecute c) \<Longrightarrow> wl_IsUnrestricted (mcp_ToolsToExecute c)"
  proof -
    assume a: "''*'' \<in> set (mcp_ToolsToExecute c)"
    have "str_lower ''*'' = ''*''" by code_simp
    with a have "''*'' \<in> set (map str_lower (mcp_ToolsToExecute c))" by force
    with assms(3) have "length (mcp_ToolsToExecute c) = 1" by (simp add: wl_Validate_iff)
    with a show ?thesis by (auto simp: wl_IsUnrestricted_def length_Suc_conv)
  qed
  have inj: "tool_of n u = tool_of (mcp_ClientName c) v \<longleftrightarrow> n = mcp_ClientName c \<and> u = v" for u v
    by (rule tool_of_eq [OF assms(2,1)])
  show ?thesis
  proof (cases "mcp_ClientName c = n")
    case False
    then show ?thesis by (auto simp: config_tools_def all_tools_tool_of inj)
  next
    case n: True
    show ?thesis
    proof (cases "wl_IsUnrestricted (mcp_ToolsToExecute c)")
      case True
      then show ?thesis by (simp add: n config_tools_def wl_IsEmpty_def wl_IsAllowed_def wl_IsUnrestricted_def)
    next
      case False
      then have "tool_of n u \<in> set (config_tools c) \<longleftrightarrow> u \<noteq> [] \<and> u \<in> set (mcp_ToolsToExecute c)" for u
        using inj by (auto simp: n config_tools_def wl_IsEmpty_def)
      then have m: "tool_of n u \<in> set (config_tools c) \<longleftrightarrow> u \<noteq> [] \<and> u \<in> set (mcp_ToolsToExecute c)" for u .
      have "\<not> ''*'' \<in> set (mcp_ToolsToExecute c)" using star False by blast
      moreover have "equal_fold u t \<Longrightarrow> u \<noteq> []" for u using assms(4) by auto
      ultimately show ?thesis
        using False n by (auto simp: all_tools_tool_of m wl_IsAllowed_def list_contains_iff)
    qed
  qed
qed

lemma set_compute:
  "x \<in> set (computeMCPIncludeToolsWith vk allowAll) \<longleftrightarrow>
     (\<exists>c \<in> set (vk_MCPConfigs vk). x \<in> set (config_tools c)) \<or>
     (\<exists>(i, m) \<in> set allowAll. i \<notin> set (handled_clients vk allowAll) \<and> x = all_tools m)"
proof -
  have "x \<in> set (map (all_tools \<circ> snd) (filter (\<lambda>(i, n). P i) l)) \<longleftrightarrow> (\<exists>(i, m) \<in> set l. P i \<and> x = all_tools m)"
    for P and l :: "string smap"
    by (induction l) auto
  then show ?thesis by (simp add: computeMCPIncludeToolsWith_def)
qed

definition explicitly_allowed :: "virtual_key \<Rightarrow> string \<Rightarrow> string \<Rightarrow> bool" where
  "explicitly_allowed vk n t \<longleftrightarrow>
     (\<exists>c \<in> set (vk_MCPConfigs vk). mcp_ClientName c = n \<and> wl_IsAllowed (mcp_ToolsToExecute c) t)"

definition falls_back :: "virtual_key \<Rightarrow> string smap \<Rightarrow> string \<Rightarrow> bool" where
  "falls_back vk allowAll n \<longleftrightarrow> (\<exists>x \<in> set allowAll. snd x = n \<and> fst x \<notin> set (handled_clients vk allowAll))"

lemma fallback_names:
  assumes "\<forall>(i, m) \<in> set allowAll. CHR ''-'' \<notin> set m" "CHR ''-'' \<notin> set n" "x \<in> set allowAll"
  shows "tool_of n u = all_tools (snd x) \<longleftrightarrow> n = snd x \<and> u = ''*''"
    and "has_prefix (tool_of n u) (snd x @ ''-'') \<longleftrightarrow> n = snd x"
proof -
  have "CHR ''-'' \<notin> set (snd x)" using assms(1,3) by auto
  then show "tool_of n u = all_tools (snd x) \<longleftrightarrow> n = snd x \<and> u = ''*''"
    and "has_prefix (tool_of n u) (snd x @ ''-'') \<longleftrightarrow> n = snd x"
    using tool_of_eq [OF assms(2)] tool_prefix [OF assms(2)] by (simp_all add: all_tools_tool_of)
qed

lemma base_allowed:
  assumes "\<forall>(i, m) \<in> set allowAll. CHR ''-'' \<notin> set m" "CHR ''-'' \<notin> set n"
  shows "(\<exists>(i, m) \<in> set allowAll. has_prefix (tool_of n t) (m @ ''-'') \<or> tool_of n t = all_tools m)
    \<longleftrightarrow> (\<exists>x \<in> set allowAll. snd x = n)"
  by (rule bex_cong [OF refl]) (use fallback_names [OF assms] in \<open>auto split: prod.split\<close>)

lemma tool_in_list:
  assumes "\<forall>(i, m) \<in> set allowAll. CHR ''-'' \<notin> set m" "CHR ''-'' \<notin> set n"
  shows "tool_of n u \<in> set (computeMCPIncludeToolsWith vk allowAll) \<longleftrightarrow>
    (\<exists>c \<in> set (vk_MCPConfigs vk). tool_of n u \<in> set (config_tools c)) \<or> (u = ''*'' \<and> falls_back vk allowAll n)"
proof -
  let ?h = "set (handled_clients vk allowAll)"
  have "(\<exists>(i, m) \<in> set allowAll. i \<notin> ?h \<and> tool_of n u = all_tools m) \<longleftrightarrow>
      (\<exists>x \<in> set allowAll. u = ''*'' \<and> snd x = n \<and> fst x \<notin> ?h)"
    by (rule bex_cong [OF refl]) (use fallback_names(1) [OF assms] in \<open>auto split: prod.split\<close>)
  then show ?thesis by (simp add: set_compute falls_back_def)
qed

lemma granted_in_list:
  assumes "\<forall>c \<in> set (vk_MCPConfigs vk). CHR ''-'' \<notin> set (mcp_ClientName c) \<and> wl_Validate (mcp_ToolsToExecute c)"
    "\<forall>(i, m) \<in> set allowAll. CHR ''-'' \<notin> set m" "CHR ''-'' \<notin> set n" "t \<noteq> []" "t \<noteq> ''*''"
  shows "all_tools n \<in> set (computeMCPIncludeToolsWith vk allowAll) \<or>
      (\<exists>u. equal_fold u t \<and> tool_of n u \<in> set (computeMCPIncludeToolsWith vk allowAll)) \<longleftrightarrow>
    explicitly_allowed vk n t \<or> falls_back vk allowAll n"
proof -
  have "(\<exists>c \<in> set (vk_MCPConfigs vk). all_tools n \<in> set (config_tools c) \<or>
      (\<exists>u. equal_fold u t \<and> tool_of n u \<in> set (config_tools c))) \<longleftrightarrow> explicitly_allowed vk n t"
    unfolding explicitly_allowed_def
    by (rule bex_cong [OF refl]) (use config_tools_iff [OF _ assms(3) _ assms(4,5)] assms(1) in blast)
  from this [symmetric] show ?thesis
    unfolding all_tools_tool_of tool_in_list [OF assms(2,3)] by blast
qed

text \<open>The identifiers and the names of the clients tell them apart alike.\<close>

definition clients_identified :: "virtual_key \<Rightarrow> string smap \<Rightarrow> bool" where
  "clients_identified vk allowAll \<longleftrightarrow>
     distinct (map mcp_ClientName (vk_MCPConfigs vk)) \<and> sm_wf allowAll \<and>
     (\<forall>c \<in> set (vk_MCPConfigs vk). \<forall>x \<in> set allowAll. mcp_ClientID c = fst x \<longleftrightarrow> mcp_ClientName c = snd x)"

lemma find_found: "find P xs \<noteq> None \<longleftrightarrow> (\<exists>x \<in> set xs. P x)"
  by (simp only: find_None_iff') blast

lemma handled_ids:
  "i \<in> set (handled_clients vk allowAll) \<longleftrightarrow> sm_load allowAll i \<noteq> None \<and>
     (\<exists>c \<in> set (vk_MCPConfigs vk). mcp_ToolsToExecute c \<noteq> [] \<and> mcp_ClientID c = i)"
proof -
  have m: "i \<in> set (map mcp_ClientID (filter P cs)) \<longleftrightarrow> (\<exists>c \<in> set cs. P c \<and> mcp_ClientID c = i)" for P and cs :: "mcp_config list"
    by (induction cs) auto
  show ?thesis unfolding handled_clients_def wl_IsEmpty_def m by blast
qed

lemma handled_iff:
  assumes "clients_identified vk allowAll" "x \<in> set allowAll"
  shows "fst x \<in> set (handled_clients vk allowAll) \<longleftrightarrow>
    find (\<lambda>c. mcp_ClientName c = snd x \<and> mcp_ToolsToExecute c \<noteq> []) (vk_MCPConfigs vk) \<noteq> None"
proof -
  have "sm_load allowAll (fst x) = Some (snd x)"
    using sm_load_mem [of allowAll "fst x" "snd x"] assms by (simp add: clients_identified_def)
  then have "fst x \<in> set (handled_clients vk allowAll) \<longleftrightarrow>
      (\<exists>c \<in> set (vk_MCPConfigs vk). mcp_ToolsToExecute c \<noteq> [] \<and> mcp_ClientID c = fst x)"
    unfolding handled_ids by simp
  also have "\<dots> \<longleftrightarrow> (\<exists>c \<in> set (vk_MCPConfigs vk). mcp_ClientName c = snd x \<and> mcp_ToolsToExecute c \<noteq> [])"
    using assms unfolding clients_identified_def by blast
  finally show ?thesis unfolding find_found .
qed

lemma check_follows_list:
  assumes names: "\<forall>c \<in> set (vk_MCPConfigs vk). CHR ''-'' \<notin> set (mcp_ClientName c) \<and> wl_Validate (mcp_ToolsToExecute c)"
    "\<forall>(i, m) \<in> set allowAll. CHR ''-'' \<notin> set m"
    and ids: "clients_identified vk allowAll"
    and tool: "CHR ''-'' \<notin> set n" "t \<noteq> []" "t \<noteq> ''*''"
  shows "isMCPToolAllowedByVKWith vk (tool_of n t) allowAll \<longleftrightarrow>
    all_tools n \<in> set (computeMCPIncludeToolsWith vk allowAll) \<or>
    (\<exists>u. equal_fold u t \<and> tool_of n u \<in> set (computeMCPIncludeToolsWith vk allowAll))"
proof -
  let ?find = "find (\<lambda>c. mcp_ClientName c = n \<and> mcp_ToolsToExecute c \<noteq> []) (vk_MCPConfigs vk)"
  have grant: "explicit_grant (vk_MCPConfigs vk) (tool_of n t) =
      map_option (\<lambda>c. wl_IsAllowed (mcp_ToolsToExecute c) t) ?find"
    using explicit_grant_tool [of "vk_MCPConfigs vk" n t] names(1) tool by blast
  show ?thesis
  proof (cases ?find)
    case None
    then have "\<not> explicitly_allowed vk n t" by (auto simp: explicitly_allowed_def find_None_iff')
    moreover have "fst x \<notin> set (handled_clients vk allowAll)" if "x \<in> set allowAll" "snd x = n" for x
      using handled_iff [OF ids that(1)] None that(2) by simp
    then have "falls_back vk allowAll n \<longleftrightarrow> (\<exists>x \<in> set allowAll. snd x = n)"
      unfolding falls_back_def by blast
    ultimately show ?thesis
      using None unfolding granted_in_list [OF names tool] isMCPToolAllowedByVKWith_def grant
        base_allowed [OF names(2) tool(1)] by auto
  next
    case (Some c)
    then have c: "c \<in> set (vk_MCPConfigs vk)" "mcp_ClientName c = n" by (auto dest: find_SomeD)
    then have "d = c" if "d \<in> set (vk_MCPConfigs vk)" "mcp_ClientName d = n" for d
      using ids that by (auto simp: clients_identified_def distinct_map inj_on_def)
    then have "explicitly_allowed vk n t \<longleftrightarrow> wl_IsAllowed (mcp_ToolsToExecute c) t"
      using c unfolding explicitly_allowed_def by blast
    moreover have "fst x \<in> set (handled_clients vk allowAll)" if "x \<in> set allowAll" "snd x = n" for x
      using handled_iff [OF ids that(1)] Some that(2) by simp
    then have "\<not> falls_back vk allowAll n" unfolding falls_back_def by blast
    ultimately show ?thesis
      using Some unfolding granted_in_list [OF names tool] isMCPToolAllowedByVKWith_def grant by auto
  qed
qed

text \<open>How a list of tools is read for a tool of a client (core/mcp/utils.go: \<^verbatim>\<open>shouldSkipToolForRequest\<close>).\<close>

definition list_lets :: "string list \<Rightarrow> string \<Rightarrow> string \<Rightarrow> bool" where
  "list_lets l n t \<longleftrightarrow> all_tools n \<in> set l \<or> tool_of n t \<in> set l"

text \<open>The whitelists of a client that name a tool at all name it in its own letter case.\<close>

definition spelled :: "virtual_key \<Rightarrow> string \<Rightarrow> string \<Rightarrow> bool" where
  "spelled vk n t \<longleftrightarrow>
     (\<forall>c \<in> set (vk_MCPConfigs vk). mcp_ClientName c = n \<longrightarrow>
        (\<forall>u \<in> set (mcp_ToolsToExecute c). equal_fold u t \<longrightarrow> u = t))"

lemma listed_spelling:
  assumes names: "\<forall>c \<in> set (vk_MCPConfigs vk). CHR ''-'' \<notin> set (mcp_ClientName c)"
    "\<forall>(i, m) \<in> set allowAll. CHR ''-'' \<notin> set m" "CHR ''-'' \<notin> set n"
    and "tool_of n u \<in> set (computeMCPIncludeToolsWith vk allowAll)" "spelled vk n t" "equal_fold u t"
  shows "list_lets (computeMCPIncludeToolsWith vk allowAll) n t"
proof (cases "u = ''*''")
  case True
  with assms(4) show ?thesis by (simp add: list_lets_def all_tools_tool_of)
next
  case False
  have "(\<exists>c \<in> set (vk_MCPConfigs vk). tool_of n u \<in> set (config_tools c)) \<or> (u = ''*'' \<and> falls_back vk allowAll n)"
    using assms(4) by (simp only: tool_in_list [OF names(2,3)])
  with False obtain c where c: "c \<in> set (vk_MCPConfigs vk)" "tool_of n u \<in> set (config_tools c)"
    by blast
  have inj: "tool_of n u = tool_of (mcp_ClientName c) v \<longleftrightarrow> n = mcp_ClientName c \<and> u = v" for v
    by (rule tool_of_eq [OF names(3)]) (use names(1) c(1) in blast)
  have "\<exists>v. tool_of n u = tool_of (mcp_ClientName c) v \<and> (v = ''*'' \<or> v \<in> set (mcp_ToolsToExecute c))"
    using c(2) unfolding config_tools_def all_tools_tool_of by (auto split: if_splits)
  then have "mcp_ClientName c = n \<and> u \<in> set (mcp_ToolsToExecute c)" unfolding inj using False by blast
  then have "u = t" using assms(5,6) c(1) unfolding spelled_def by blast
  with assms(4) show ?thesis by (simp add: list_lets_def)
qed

text \<open>
  C28. The list of tools that a virtual key stamps on a chat request and the check made when a tool of a
  client is executed: the check allows the tool exactly when the list holds the wildcard of the
  client or some tool of it that is named like this one up to letter case. Where the whitelists of
  the client that name the tool do so in its own letter case, the list as it is read, case and all, and the
  check agree; elsewhere the check may allow more (\<open>case_splits_list_and_check\<close>). This needs client names
  without hyphens that tell the clients apart, and whitelists that pass their validation.
\<close>

theorem mcp_grants_agree:
  assumes names: "\<forall>c \<in> set (vk_MCPConfigs vk). CHR ''-'' \<notin> set (mcp_ClientName c) \<and> wl_Validate (mcp_ToolsToExecute c)"
    "\<forall>(i, m) \<in> set allowAll. CHR ''-'' \<notin> set m"
    and ids: "clients_identified vk allowAll"
    and tool: "CHR ''-'' \<notin> set n" "t \<noteq> []" "t \<noteq> ''*''"
  shows "(isMCPToolAllowedByVKWith vk (tool_of n t) allowAll \<longleftrightarrow>
      (\<exists>u. equal_fold u t \<and> list_lets (computeMCPIncludeToolsWith vk allowAll) n u)) \<and>
    (spelled vk n t \<longrightarrow>
      isMCPToolAllowedByVKWith vk (tool_of n t) allowAll = list_lets (computeMCPIncludeToolsWith vk allowAll) n t)"
proof -
  let ?L = "computeMCPIncludeToolsWith vk allowAll"
  have "\<forall>c \<in> set (vk_MCPConfigs vk). CHR ''-'' \<notin> set (mcp_ClientName c)" using names(1) by blast
  note spelling = listed_spelling [OF this names(2) tool(1)]
  have fold: "equal_fold t t" by (simp add: equal_fold_def)
  then have "(\<exists>u. equal_fold u t \<and> list_lets ?L n u) \<longleftrightarrow>
      all_tools n \<in> set ?L \<or> (\<exists>u. equal_fold u t \<and> tool_of n u \<in> set ?L)"
    unfolding list_lets_def by blast
  then have check: "isMCPToolAllowedByVKWith vk (tool_of n t) allowAll \<longleftrightarrow> (\<exists>u. equal_fold u t \<and> list_lets ?L n u)"
    using check_follows_list [OF assms] by simp
  have "list_lets ?L n t" if "spelled vk n t" "equal_fold u t" "list_lets ?L n u" for u
    using that(3) spelling [OF _ that(1,2)] unfolding list_lets_def [of _ n u] by (auto simp: list_lets_def)
  with fold check show ?thesis by blast
qed

definition mcp_vk :: virtual_key where
  "mcp_vk = sample_vk\<lparr>vk_MCPConfigs :=
     [\<lparr>mcp_ClientID = ''c1'', mcp_ClientName = ''git'', mcp_ToolsToExecute = [''Search'']\<rparr>,
      \<lparr>mcp_ClientID = ''c2'', mcp_ClientName = ''web'', mcp_ToolsToExecute = []\<rparr>]\<rparr>"

theorem mcp_grants_agree_witness:
  "isMCPToolAllowedByVKWith mcp_vk ''git-Search'' [(''c2'', ''web'')] \<and>
   \<not> isMCPToolAllowedByVKWith mcp_vk ''git-push'' [(''c2'', ''web'')] \<and>
   isMCPToolAllowedByVKWith mcp_vk ''web-get'' [(''c2'', ''web'')]"
proof -
  let ?all = "[(''c2'', ''web'')]"
  have L: "computeMCPIncludeToolsWith mcp_vk ?all = [''git-Search'', ''web-*'']" by code_simp
  have cs: "vk_MCPConfigs mcp_vk =
     [\<lparr>mcp_ClientID = ''c1'', mcp_ClientName = ''git'', mcp_ToolsToExecute = [''Search'']\<rparr>,
      \<lparr>mcp_ClientID = ''c2'', mcp_ClientName = ''web'', mcp_ToolsToExecute = []\<rparr>]" by (simp add: mcp_vk_def)
  have v: "wl_Validate [''Search'']" "wl_Validate []" by code_simp+
  have A: "isMCPToolAllowedByVKWith mcp_vk (tool_of n t) ?all = list_lets [''git-Search'', ''web-*''] n t"
    if "CHR ''-'' \<notin> set n" "t \<noteq> []" "t \<noteq> ''*''" "spelled mcp_vk n t" for n t
    unfolding L [symmetric]
    by (rule mcp_grants_agree [THEN conjunct2, THEN mp]) (use that v in \<open>auto simp: cs sm_wf_def clients_identified_def\<close>)
  have p: "\<not> equal_fold ''Search'' ''push''" by code_simp
  have s: "spelled mcp_vk ''git'' ''Search''" "spelled mcp_vk ''git'' ''push''" "spelled mcp_vk ''web'' ''get''"
    using p by (simp_all add: spelled_def cs)
  have "isMCPToolAllowedByVKWith mcp_vk (tool_of ''git'' ''Search'') ?all"
    using A [OF _ _ _ s(1)] by (simp add: list_lets_def tool_of_def)
  moreover have "\<not> isMCPToolAllowedByVKWith mcp_vk (tool_of ''git'' ''push'') ?all"
    using A [OF _ _ _ s(2)] by (simp add: list_lets_def tool_of_def all_tools_def)
  moreover have "isMCPToolAllowedByVKWith mcp_vk (tool_of ''web'' ''get'') ?all"
    using A [OF _ _ _ s(3)] by (simp add: list_lets_def tool_of_def all_tools_def)
  ultimately show ?thesis by (simp add: tool_of_def)
qed

text \<open>
  A whitelist that names the tool in another letter case grants it to the check, while the list is read
  case and all and leaves the tool out.
\<close>

lemma case_splits_list_and_check:
  "isMCPToolAllowedByVKWith mcp_vk ''git-search'' [(''c2'', ''web'')]"
  "\<not> list_lets (computeMCPIncludeToolsWith mcp_vk [(''c2'', ''web'')]) ''git'' ''search''"
  by code_simp+

end
