(* ===== verification/GovEvaluate.thy ===== *)
theory GovEvaluate
  imports GovMcp
begin

text \<open>
  \<^verbatim>\<open>EvaluateGovernanceRequest\<close> and the hooks around it (plugins/governance/main.go,
  utils.go): the decision of the plugin on a request, the error it answers with and the context
  it leaves. \<open>governance_plugin\<close> holds the settings of the plugin and what its other parts
  return.
\<close>

record governance_plugin =
  gp_isVkMandatory :: "bool option"
  gp_isEnterprise :: bool
  gp_allowAll :: "string smap"
  gp_toolGroups :: "tool_group list"
  gp_requiredHeaders :: "string list option"
  gp_catalog :: "model_catalog option"
  gp_workspace :: "workspace_reads option"

record unifai_error =
  ue_Type :: string
  ue_StatusCode :: "nat option"
  ue_Message :: "string \<times> cause"

definition reject :: "string \<Rightarrow> nat \<Rightarrow> string \<Rightarrow> unifai_error" where
  "reject ty code msg = \<lparr>ue_Type = ty, ue_StatusCode = Some code, ue_Message = (msg, NoCause)\<rparr>"

fun decision_text :: "decision \<Rightarrow> string" where
  "decision_text DecisionAllow = ''allow''"
| "decision_text DecisionVirtualKeyNotFound = ''virtual_key_not_found''"
| "decision_text DecisionVirtualKeyBlocked = ''virtual_key_blocked''"
| "decision_text DecisionRateLimited = ''rate_limited''"
| "decision_text DecisionBudgetExceeded = ''budget_exceeded''"
| "decision_text DecisionTokenLimited = ''token_limited''"
| "decision_text DecisionRequestLimited = ''request_limited''"
| "decision_text DecisionModelBlocked = ''model_blocked''"
| "decision_text DecisionProviderBlocked = ''provider_blocked''"
| "decision_text DecisionMCPToolBlocked = ''mcp_tool_blocked''"

fun decision_status :: "decision \<Rightarrow> nat" where
  "decision_status DecisionAllow = 200"
| "decision_status DecisionRateLimited = 429"
| "decision_status DecisionTokenLimited = 429"
| "decision_status DecisionRequestLimited = 429"
| "decision_status DecisionBudgetExceeded = 402"
| "decision_status _ = 403"

text \<open>The customer a virtual key belongs to, and whether it comes from the key's team.\<close>

definition hierarchy_customer :: "virtual_key \<Rightarrow> string \<times> bool" where
  "hierarchy_customer vk =
     (case (vk_CustomerID vk, vk_Customer vk, vk_Team vk) of
        (Some c, _, _) \<Rightarrow> (c, False)
      | (None, Some c, _) \<Rightarrow> (cu_ID c, False)
      | (None, None, Some t) \<Rightarrow>
          (case (tm_CustomerID t, tm_Customer t) of
             (Some c, _) \<Rightarrow> (c, True)
           | (None, Some c) \<Rightarrow> (cu_ID c, True)
           | (None, None) \<Rightarrow> ([], False))
      | (None, None, None) \<Rightarrow> ([], False))"

definition hierarchy_team :: "virtual_key \<Rightarrow> string" where
  "hierarchy_team vk =
     (case vk_TeamID vk of Some t \<Rightarrow> t | None \<Rightarrow> (case vk_Team vk of Some t \<Rightarrow> tm_ID t | None \<Rightarrow> []))"

definition customer_step :: "store_iface \<Rightarrow> gov_ctx \<Rightarrow> virtual_key option \<Rightarrow> evaluation_result \<Rightarrow> evaluation_result" where
  "customer_step gi ctx hvk r =
     (case hvk of
        None \<Rightarrow> r
      | Some vk \<Rightarrow>
          (case hierarchy_customer vk of
             (customerID, fromTeam) \<Rightarrow>
               let scoped = GetStringFromContext ctx KeyScopedCustomerID;
                   scopedAway = fromTeam \<and> scoped \<noteq> [] \<and> scoped \<noteq> customerID
               in if customerID \<noteq> [] \<and> \<not> scopedAway then EvaluateCustomerRequest gi customerID else r))"

definition team_step :: "store_iface \<Rightarrow> virtual_key option \<Rightarrow> evaluation_result \<Rightarrow> evaluation_result" where
  "team_step gi hvk r =
     (case hvk of
        None \<Rightarrow> r
      | Some vk \<Rightarrow> if hierarchy_team vk \<noteq> [] then EvaluateTeamRequest gi (hierarchy_team vk) else r)"

text \<open>A step of the chain runs while the decision is still to allow.\<close>

definition and_then :: "evaluation_result \<Rightarrow> (evaluation_result \<Rightarrow> evaluation_result) \<Rightarrow> evaluation_result" where
  "and_then r f = (if ev_Decision r = DecisionAllow then f r else r)"

definition disallowed_tools :: "governance_plugin \<Rightarrow> gov_ctx \<Rightarrow> virtual_key \<Rightarrow> string list" where
  "disallowed_tools p ctx vk =
     (case CtxValue ctx KeyMCPAddedTools of
        CStrs tools \<Rightarrow> filter (\<lambda>t. \<not> isMCPToolAllowedByVKWith vk t (gp_allowAll p)) tools
      | _ \<Rightarrow> [])"

definition mcp_step :: "governance_plugin \<Rightarrow> gov_ctx \<Rightarrow> evaluation_result \<Rightarrow> evaluation_result" where
  "mcp_step p ctx r =
     (case ev_VirtualKey r of
        None \<Rightarrow> r
      | Some vk \<Rightarrow>
          (case disallowed_tools p ctx vk of
             [] \<Rightarrow> r
           | t # ts \<Rightarrow> plain_result DecisionMCPToolBlocked
               (''MCP tools not allowed for virtual key '' @ quoted (vk_Name vk) @ '': '' @
                concat (t # map (\<lambda>x. '', '' @ x) ts)) (Some vk)))"

text \<open>The chain of evaluations: the result and the context that the key's evaluation leaves.\<close>

definition evaluation_chain ::
  "governance_plugin \<Rightarrow> store_iface \<Rightarrow> instant \<Rightarrow> gov_ctx \<Rightarrow> evaluation_request \<Rightarrow> request_type
     \<Rightarrow> evaluation_result \<times> gov_ctx" where
  "evaluation_chain p gi now ctx0 request t =
     (let r0 = EvaluateModelAndProviderRequest gi (er_Provider request) (er_Model request);
          hvk = (if er_VirtualKey request = [] then None else gi_GetVirtualKey gi (er_VirtualKey request));
          skip = GetBoolFromContext ctx0 KeySkipBudgetAndRateLimits in
      case (if ev_Decision r0 = DecisionAllow \<and> er_VirtualKey request \<noteq> []
            then EvaluateVirtualKeyRequest gi (gp_catalog p) now ctx0 (er_VirtualKey request)
                   (er_Provider request) (er_Model request) t skip
            else (r0, ctx0)) of
        (r1, ctx) \<Rightarrow>
          let r2 = (if skip then r1 else and_then r1 (customer_step gi ctx hvk));
              r3 = (if skip then r2 else and_then r2 (team_step gi hvk));
              r4 = (if skip then r3 else and_then r3 (\<lambda>_. EvaluateUserRequest gi (er_UserID request) request))
          in (and_then r4 (mcp_step p ctx), ctx))"

definition EvaluateGovernanceRequest ::
  "governance_plugin \<Rightarrow> store_iface \<Rightarrow> instant \<Rightarrow> gov_ctx \<Rightarrow> evaluation_request \<Rightarrow> request_type
     \<Rightarrow> evaluation_result option \<times> unifai_error option \<times> gov_ctx" where
  "EvaluateGovernanceRequest p gi now ctx0 request t =
     (let found = er_VirtualKey request \<noteq> [] \<and> gi_GetVirtualKey gi (er_VirtualKey request) \<noteq> None in
      if er_VirtualKey request \<noteq> [] \<and> \<not> found
      then (None, Some (reject ''virtual_key_not_found'' 401
        ''virtual key not found. The provided virtual key does not exist or has been revoked.''), ctx0)
      else if \<not> found \<and> er_UserID request = [] \<and> gp_isVkMandatory p = Some True
      then (None, Some (reject ''virtual_key_required'' 401
        (if gp_isEnterprise p
         then ''authentication is required. Provide a virtual key (x-uf-vk), API key, or user token.''
         else ''virtual key is required. Provide a virtual key via the x-uf-vk header.'')), ctx0)
      else case evaluation_chain p gi now ctx0 request t of
        (r, ctx) \<Rightarrow>
          if ev_Decision r = DecisionAllow
          then let ctx1 = CtxClearValue ctx governanceRejectedContextKey;
                   ctx2 = (case ev_VirtualKey r of None \<Rightarrow> ctx1
                           | Some vk \<Rightarrow> stampUserFromVKAssignment (gp_workspace p) ctx1 (Some vk))
               in (Some r, None, stampUserOrgMembership (gp_workspace p) (gi_local gi) ctx2)
          else (Some r, Some \<lparr>ue_Type = decision_text (ev_Decision r),
                  ue_StatusCode = Some (decision_status (ev_Decision r)), ue_Message = ev_Reason r\<rparr>,
                case CtxValue ctx governanceRejectedContextKey of
                  CBool _ \<Rightarrow> ctx
                | _ \<Rightarrow> CtxSetValue ctx governanceRejectedContextKey (CBool True)))"

subsection \<open>The hooks\<close>

definition validateRequiredHeaders :: "governance_plugin \<Rightarrow> gov_ctx \<Rightarrow> unifai_error option" where
  "validateRequiredHeaders p ctx =
     (case gp_requiredHeaders p of
        None \<Rightarrow> None
      | Some hs \<Rightarrow>
          let headers = (case CtxValue ctx KeyRequestHeaders of CStrMap m \<Rightarrow> m | _ \<Rightarrow> []) in
          (case filter (\<lambda>h. sm_load headers (str_lower h) = None) hs of
             [] \<Rightarrow> None
           | m # ms \<Rightarrow> Some (reject ''missing_required_headers'' 400
               (''missing required headers: '' @ concat (m # map (\<lambda>x. '', '' @ x) ms)))))"

text \<open>\<^verbatim>\<open>PreLLMHook\<close>: the error of the short circuit, if any, and the context.\<close>

definition PreLLMHook ::
  "governance_plugin \<Rightarrow> store_iface \<Rightarrow> instant \<Rightarrow> gov_ctx \<Rightarrow> string \<Rightarrow> string \<Rightarrow> request_type
     \<Rightarrow> unifai_error option \<times> gov_ctx" where
  "PreLLMHook p gi now ctx provider model t =
     (case validateRequiredHeaders p ctx of
        Some e \<Rightarrow> (Some e, ctx)
      | None \<Rightarrow> snd (EvaluateGovernanceRequest p gi now ctx
          \<lparr>er_VirtualKey = GetStringFromContext ctx KeyVirtualKey, er_Provider = provider, er_Model = model,
           er_UserID = GetStringFromContext ctx KeyUserID\<rparr> t))"

definition IsCodemodeTool :: "string \<Rightarrow> bool" where
  "IsCodemodeTool t \<longleftrightarrow> t \<in> {''listToolFiles'', ''readToolFile'', ''getToolDocs'', ''executeToolCode''}"

definition reject_tool :: "gov_ctx \<Rightarrow> decision \<Rightarrow> string \<Rightarrow> unifai_error option \<times> gov_ctx" where
  "reject_tool ctx d msg =
     (Some (reject (decision_text d) 403 msg), CtxSetValue ctx governanceRejectedContextKey (CBool True))"

text \<open>The checks on the tool of an MCP request, after the common evaluation.\<close>

definition check_tool :: "governance_plugin \<Rightarrow> store_iface \<Rightarrow> instant \<Rightarrow> gov_ctx \<Rightarrow> string \<Rightarrow> string \<Rightarrow> string
     \<Rightarrow> unifai_error option \<times> gov_ctx" where
  "check_tool p gi now ctx vkValue userID toolName =
     (case gi_GetVirtualKey gi vkValue of
        None \<Rightarrow> reject_tool ctx DecisionVirtualKeyNotFound ''Virtual key not found''
      | Some vk \<Rightarrow>
          if \<not> IsActiveValue vk then reject_tool ctx DecisionVirtualKeyBlocked ''Virtual key is inactive''
          else if IsExpiredAt vk now then reject_tool ctx DecisionVirtualKeyBlocked ''Virtual key has expired''
          else if \<not> isMCPToolAllowedByVKWith vk toolName (gp_allowAll p)
          then reject_tool ctx DecisionMCPToolBlocked
            (''MCP tool '' @ quoted toolName @ '' is not allowed for virtual key '' @ quoted (vk_Name vk))
          else if \<not> IsToolAllowed (gp_toolGroups p) toolName ((tool_request_of ctx vk)\<lparr>tq_UserID := userID\<rparr>)
          then reject_tool ctx DecisionMCPToolBlocked
            (''MCP tool '' @ quoted toolName @ '' is blocked by workspace tool group policy'')
          else (None, ctx))"

definition PreMCPHook ::
  "governance_plugin \<Rightarrow> store_iface \<Rightarrow> instant \<Rightarrow> gov_ctx \<Rightarrow> bool \<Rightarrow> string \<Rightarrow> unifai_error option \<times> gov_ctx" where
  "PreMCPHook p gi now ctx isExecuteTool toolName =
     (if \<not> isExecuteTool then (None, ctx)
      else if IsCodemodeTool toolName then (None, ctx)
      else case validateRequiredHeaders p ctx of
          Some e \<Rightarrow> (Some e, ctx)
        | None \<Rightarrow>
            let vkValue = GetStringFromContext ctx KeyVirtualKey; userID = GetStringFromContext ctx KeyUserID in
            (case EvaluateGovernanceRequest p gi now ctx
                 \<lparr>er_VirtualKey = vkValue, er_Provider = [], er_Model = [], er_UserID = userID\<rparr> MCPToolExecutionRequest of
               (_, Some e, ctx1) \<Rightarrow> (Some e, ctx1)
             | (_, None, ctx1) \<Rightarrow> if vkValue \<noteq> [] then check_tool p gi now ctx1 vkValue userID toolName else (None, ctx1)))"

subsection \<open>The chain as one condition\<close>

lemma scoped_key_distinct [simp]:
  "KeyScopedCustomerID \<noteq> KeyVirtualKeyID" "KeyScopedCustomerID \<noteq> KeyVirtualKeyName"
  "KeyScopedCustomerID \<noteq> KeyTeamID" "KeyScopedCustomerID \<noteq> KeyTeamName"
  "KeyScopedCustomerID \<noteq> KeyCustomerID" "KeyScopedCustomerID \<noteq> KeyCustomerName"
  "KeyScopedCustomerID \<noteq> KeyBusinessUnitID" "KeyScopedCustomerID \<noteq> KeyBusinessUnitName"
  "KeyScopedCustomerID \<noteq> KeyBusinessUnitIDs" "KeyScopedCustomerID \<noteq> KeyBusinessUnitNames"
  "KeyScopedCustomerID \<noteq> KeyIncludeOnlyKeys"
  by (simp_all add: ctx_key_defs)

lemma scoped_set [simp]:
  "KeyScopedCustomerID \<noteq> k \<Longrightarrow> GetStringFromContext (CtxSetValue ctx k v) KeyScopedCustomerID = GetStringFromContext ctx KeyScopedCustomerID"
  by (simp add: GetStringFromContext_def)

lemma scoped_set_opt [simp]:
  "KeyScopedCustomerID \<noteq> k \<Longrightarrow> GetStringFromContext (set_opt ctx k v) KeyScopedCustomerID = GetStringFromContext ctx KeyScopedCustomerID"
  by (simp add: set_opt_def split: option.split)

lemma scoped_units [simp]:
  "GetStringFromContext (stampBusinessUnitsForTeam st ctx t) KeyScopedCustomerID = GetStringFromContext ctx KeyScopedCustomerID"
  using scoped_key_distinct
  by (simp add: stampBusinessUnitsForTeam_def stampBusinessUnitsForTeams_def split: list.split)

lemma scoped_stamp [simp]:
  "GetStringFromContext (stamp_virtual_key gi ctx vk) KeyScopedCustomerID = GetStringFromContext ctx KeyScopedCustomerID"
proof -
  have 1: "GetStringFromContext (stamp_customer c vk) KeyScopedCustomerID = GetStringFromContext c KeyScopedCustomerID" for c
    using scoped_key_distinct by (simp add: stamp_customer_def split: option.split)
  have 2: "GetStringFromContext (stamp_team gi c vk) KeyScopedCustomerID = GetStringFromContext c KeyScopedCustomerID" for c
    using scoped_key_distinct by (simp add: stamp_team_def Let_def split: option.split)
  show ?thesis
    using scoped_key_distinct by (simp add: stamp_virtual_key_def Let_def 1 2 split: option.split)
qed

lemma scoped_evaluate [simp]:
  "GetStringFromContext (snd (EvaluateVirtualKeyRequest gi cat now ctx v p m t skip)) KeyScopedCustomerID =
     GetStringFromContext ctx KeyScopedCustomerID"
  using scoped_key_distinct
  by (simp add: EvaluateVirtualKeyRequest_def restrict_keys_def Let_def split: option.split)

text \<open>Everything the plugin asks of a request whose limits are not skipped.\<close>

definition customer_in_scope :: "gov_ctx \<Rightarrow> virtual_key \<Rightarrow> string" where
  "customer_in_scope ctx vk =
     (case hierarchy_customer vk of
        (c, fromTeam) \<Rightarrow>
          let scoped = GetStringFromContext ctx KeyScopedCustomerID in
          if fromTeam \<and> scoped \<noteq> [] \<and> scoped \<noteq> c then [] else c)"

definition key_pass ::
  "governance_plugin \<Rightarrow> store_iface \<Rightarrow> instant \<Rightarrow> gov_ctx \<Rightarrow> evaluation_request \<Rightarrow> request_type \<Rightarrow> virtual_key \<Rightarrow> bool" where
  "key_pass p gi now ctx request t vk \<longleftrightarrow>
     key_admits (gp_catalog p) now vk (er_Provider request) (er_Model request) t \<and>
     key_limits_pass gi (stamp_virtual_key gi ctx vk) vk
       (request_of (er_VirtualKey request) (er_Provider request) (er_Model request)) \<and>
     customer_pass gi (customer_in_scope ctx vk) \<and> team_pass gi (hierarchy_team vk)"

definition governance_pass ::
  "governance_plugin \<Rightarrow> store_iface \<Rightarrow> instant \<Rightarrow> gov_ctx \<Rightarrow> evaluation_request \<Rightarrow> request_type \<Rightarrow> bool" where
  "governance_pass p gi now ctx request t \<longleftrightarrow>
     (if er_VirtualKey request = [] then er_UserID request \<noteq> [] \<or> gp_isVkMandatory p \<noteq> Some True
      else \<exists>vk. gi_GetVirtualKey gi (er_VirtualKey request) = Some vk \<and> key_pass p gi now ctx request t vk) \<and>
     model_provider_pass gi (er_Provider request) (er_Model request) \<and>
     user_pass gi (er_UserID request) request"

lemma and_then_allow:
  "ev_Decision (and_then r f) = DecisionAllow \<longleftrightarrow> ev_Decision r = DecisionAllow \<and> ev_Decision (f r) = DecisionAllow"
  by (simp add: and_then_def)

lemma user_result_no_key: "ev_VirtualKey (EvaluateUserRequest gi u r) = None"
  by (simp add: EvaluateUserRequest_def check_result_def plain_result_def Let_def)

text \<open>With the user step in the chain the last step sees no virtual key.\<close>

lemma mcp_step_idle:
  "ev_Decision r = DecisionAllow \<Longrightarrow> and_then (and_then r (\<lambda>_. EvaluateUserRequest gi u q)) (mcp_step p ctx) = EvaluateUserRequest gi u q"
  by (simp add: and_then_def mcp_step_def user_result_no_key)

lemma evaluation_chain_unskipped:
  assumes "\<not> GetBoolFromContext ctx0 KeySkipBudgetAndRateLimits"
  shows "fst (evaluation_chain p gi now ctx0 request t) =
    (let r0 = EvaluateModelAndProviderRequest gi (er_Provider request) (er_Model request);
         hvk = (if er_VirtualKey request = [] then None else gi_GetVirtualKey gi (er_VirtualKey request));
         x = (if ev_Decision r0 = DecisionAllow \<and> er_VirtualKey request \<noteq> []
              then EvaluateVirtualKeyRequest gi (gp_catalog p) now ctx0 (er_VirtualKey request)
                     (er_Provider request) (er_Model request) t False
              else (r0, ctx0))
     in and_then (and_then (and_then (fst x) (customer_step gi (snd x) hvk)) (team_step gi hvk))
          (\<lambda>_. EvaluateUserRequest gi (er_UserID request) request))"
proof -
  have idle: "and_then (and_then r (\<lambda>_. EvaluateUserRequest gi u q)) (mcp_step p ctx) =
      and_then r (\<lambda>_. EvaluateUserRequest gi u q)" for r u q ctx
    by (cases "ev_Decision r = DecisionAllow") (simp add: mcp_step_idle, simp_all add: and_then_def)
  show ?thesis
    using assms by (simp add: evaluation_chain_def Let_def idle split: prod.split)
qed

context governance_store begin

lemma customer_step_allow:
  "ev_Decision r = DecisionAllow \<Longrightarrow>
     ev_Decision (customer_step gi ctx hvk r) = DecisionAllow \<longleftrightarrow>
       (\<forall>vk. hvk = Some vk \<longrightarrow> customer_pass gi (customer_in_scope ctx vk))"
  by (auto simp: customer_step_def customer_in_scope_def Let_def customer_allow customer_pass_def
      split: option.split prod.split)

lemma team_step_allow:
  "ev_Decision r = DecisionAllow \<Longrightarrow>
     ev_Decision (team_step gi hvk r) = DecisionAllow \<longleftrightarrow> (\<forall>vk. hvk = Some vk \<longrightarrow> team_pass gi (hierarchy_team vk))"
  by (auto simp: team_step_def team_allow team_pass_def split: option.split)

lemma chain_allow:
  assumes "\<not> GetBoolFromContext ctx KeySkipBudgetAndRateLimits"
  shows "ev_Decision (fst (evaluation_chain p gi now ctx request t)) = DecisionAllow \<longleftrightarrow>
    (er_VirtualKey request \<noteq> [] \<longrightarrow>
       (\<exists>vk. gi_GetVirtualKey gi (er_VirtualKey request) = Some vk \<and> key_pass p gi now ctx request t vk)) \<and>
    model_provider_pass gi (er_Provider request) (er_Model request) \<and>
    user_pass gi (er_UserID request) request"
  (is "?l \<longleftrightarrow> ?k \<and> ?m \<and> ?u")
proof -
  let ?r0 = "EvaluateModelAndProviderRequest gi (er_Provider request) (er_Model request)"
  let ?v = "EvaluateVirtualKeyRequest gi (gp_catalog p) now ctx (er_VirtualKey request)
              (er_Provider request) (er_Model request) t False"
  let ?hvk = "if er_VirtualKey request = [] then None else gi_GetVirtualKey gi (er_VirtualKey request)"
  show ?thesis
  proof (cases "?m")
    case False
    then have "ev_Decision ?r0 \<noteq> DecisionAllow" by (simp add: model_provider_allow)
    with False show ?thesis by (simp add: evaluation_chain_unskipped [OF assms] and_then_allow Let_def)
  next
    case True
    then have 0: "ev_Decision ?r0 = DecisionAllow" by (simp add: model_provider_allow)
    show ?thesis
    proof (cases "er_VirtualKey request = []")
      case True
      then show ?thesis using 0 \<open>?m\<close>
        by (simp add: evaluation_chain_unskipped [OF assms] and_then_allow Let_def
            customer_step_def team_step_def user_allow)
    next
      case False
      have scope: "customer_in_scope (snd ?v) vk = customer_in_scope ctx vk" for vk
        by (simp add: customer_in_scope_def)
      have "?l \<longleftrightarrow> ev_Decision (fst ?v) = DecisionAllow \<and>
          (\<forall>vk. gi_GetVirtualKey gi (er_VirtualKey request) = Some vk \<longrightarrow>
             customer_pass gi (customer_in_scope ctx vk) \<and> team_pass gi (hierarchy_team vk)) \<and> ?u"
        using 0 False customer_step_allow [of "fst ?v" "snd ?v" ?hvk]
          team_step_allow [of "customer_step gi (snd ?v) ?hvk (fst ?v)" ?hvk]
        by (auto simp: evaluation_chain_unskipped [OF assms] and_then_allow and_then_def Let_def user_allow scope)
      also have "\<dots> \<longleftrightarrow> ?k \<and> ?u"
        using False unfolding virtual_key_allow by (auto simp: key_pass_def)
      finally show ?thesis using \<open>?m\<close> by simp
    qed
  qed
qed

lemma governance_allow:
  assumes "\<not> GetBoolFromContext ctx KeySkipBudgetAndRateLimits"
  shows "fst (snd (EvaluateGovernanceRequest p gi now ctx request t)) = None \<longleftrightarrow> governance_pass p gi now ctx request t"
  using chain_allow [OF assms, of p now request t]
  by (auto simp: EvaluateGovernanceRequest_def governance_pass_def Let_def split: prod.split)

end

subsection \<open>Properties\<close>

text \<open>
  C1. The decision of the plugin on the local store, for a request whose limits are not skipped:
  it is let through exactly when it is authenticated as far as the settings ask, its virtual key
  (if it has one) exists, admits the provider and the model and passes its own limits, the limits
  of the customer in scope and of the team, and the provider, model and user levels allow it.
\<close>

theorem governance_decision:
  assumes "\<not> GetBoolFromContext ctx KeySkipBudgetAndRateLimits"
  shows "fst (snd (EvaluateGovernanceRequest p (local_iface st now) now ctx request t)) = None \<longleftrightarrow>
    governance_pass p (local_iface st now) now ctx request t"
  by (rule lgs.governance_allow [OF assms])

definition sample_plugin :: governance_plugin where
  "sample_plugin = \<lparr>gp_isVkMandatory = Some True, gp_isEnterprise = False, gp_allowAll = [], gp_toolGroups = [],
     gp_requiredHeaders = None, gp_catalog = None, gp_workspace = None\<rparr>"

definition key_request :: evaluation_request where
  "key_request = \<lparr>er_VirtualKey = ''sk-uf-1'', er_Provider = ''openai'', er_Model = ''gpt'', er_UserID = []\<rparr>"

theorem governance_decision_witness:
  "governance_pass sample_plugin (local_iface vk_store 0) 0 [] key_request ''chat_completion'' \<and>
   \<not> governance_pass sample_plugin (local_iface vk_store 0) 0 [] (key_request\<lparr>er_Provider := ''other''\<rparr>) ''chat_completion''"
proof -
  have s: "\<not> GetBoolFromContext [] KeySkipBudgetAndRateLimits" by code_simp
  have "fst (snd (EvaluateGovernanceRequest sample_plugin (local_iface vk_store 0) 0 [] key_request ''chat_completion'')) = None"
    by code_simp
  moreover have "fst (snd (EvaluateGovernanceRequest sample_plugin (local_iface vk_store 0) 0 []
      (key_request\<lparr>er_Provider := ''other''\<rparr>) ''chat_completion'')) \<noteq> None"
    by code_simp
  ultimately show ?thesis by (simp add: governance_decision [OF s])
qed

text \<open>
  A key that is revoked, expired or not made for the provider or the model is refused with
  403 and the decision that says so, whatever the limits of its customer, its team and its user:
  the answer does not tell an attacker that the key's hierarchy was looked at.
\<close>

lemma refused_key_answer:
  assumes "gi_GetVirtualKey gi (er_VirtualKey request) = Some vk" "er_VirtualKey request \<noteq> []"
    and "\<not> key_admits (gp_catalog p) now vk (er_Provider request) (er_Model request) t"
    and "ev_Decision (EvaluateModelAndProviderRequest gi (er_Provider request) (er_Model request)) = DecisionAllow"
  shows "\<exists>d \<in> {DecisionVirtualKeyBlocked, DecisionProviderBlocked, DecisionModelBlocked}. \<exists>e.
    fst (snd (EvaluateGovernanceRequest p gi now ctx request t)) = Some e \<and>
    ue_Type e = decision_text d \<and> ue_StatusCode e = Some 403"
proof -
  let ?v = "EvaluateVirtualKeyRequest gi (gp_catalog p) now ctx (er_VirtualKey request)
              (er_Provider request) (er_Model request) t (GetBoolFromContext ctx KeySkipBudgetAndRateLimits)"
  obtain r where "key_refusal (gp_catalog p) now vk (er_Provider request) (er_Model request) t = Some r"
    using assms(3) key_refusal_None [of "gp_catalog p" now vk "er_Provider request" "er_Model request" t] by auto
  with assms(1) have v: "fst ?v = r" and d: "ev_Decision r \<in> {DecisionVirtualKeyBlocked, DecisionProviderBlocked, DecisionModelBlocked}"
    by (auto simp: EvaluateVirtualKeyRequest_def Let_def dest: key_refusal_Some)
  have c: "fst (evaluation_chain p gi now ctx request t) = r"
    using v d assms(2,4) by (auto simp: evaluation_chain_def and_then_def Let_def split: prod.split)
  have "decision_status (ev_Decision r) = 403" "ev_Decision r \<noteq> DecisionAllow" using d by auto
  with c d show ?thesis
    using assms(1,2)
    by (intro bexI [of _ "ev_Decision r"]) (auto simp: EvaluateGovernanceRequest_def Let_def split: prod.split)
qed

lemma refused_key_answer_witness:
  "\<exists>d \<in> {DecisionVirtualKeyBlocked, DecisionProviderBlocked, DecisionModelBlocked}. \<exists>e.
    fst (snd (EvaluateGovernanceRequest sample_plugin (local_iface vk_store 0) 0 []
      (key_request\<lparr>er_Provider := ''other''\<rparr>) ''chat_completion'')) = Some e \<and>
    ue_Type e = decision_text d \<and> ue_StatusCode e = Some 403"
  by (rule refused_key_answer [where vk = sample_vk]) code_simp+

text \<open>
  The check of the injected MCP tools against the key never blocks a request whose limits are
  not skipped: the user step before it always replaces the result by one without the virtual key,
  and the check runs only on a result that has one.
\<close>

lemma injected_tools_are_not_checked:
  assumes "\<not> GetBoolFromContext ctx KeySkipBudgetAndRateLimits"
    and "fst (EvaluateGovernanceRequest p (local_iface st now) now ctx request t) = Some r"
  shows "ev_Decision r \<noteq> DecisionMCPToolBlocked"
proof -
  let ?gi = "local_iface st now"
  have rate: "rate_verdict_ok v \<Longrightarrow> fst v \<noteq> DecisionMCPToolBlocked" for v
    by (auto simp: rate_verdict_ok_def)
  have budget: "budget_verdict_ok v \<Longrightarrow> fst v \<noteq> DecisionMCPToolBlocked" for v
    by (auto simp: budget_verdict_ok_def)
  note ok = lgs.rate_contract [THEN rate] lgs.budget_contract [THEN budget] check_result_def plain_result_def Let_def
  have 0: "ev_Decision (EvaluateModelAndProviderRequest ?gi a b) \<noteq> DecisionMCPToolBlocked" for a b
    by (simp add: EvaluateModelAndProviderRequest_def ok)
  have 1: "ev_Decision (EvaluateUserRequest ?gi u q) \<noteq> DecisionMCPToolBlocked" for u q
    by (simp add: EvaluateUserRequest_def ok)
  have 2: "ev_Decision (customer_step ?gi c h x) \<noteq> DecisionMCPToolBlocked" if "ev_Decision x \<noteq> DecisionMCPToolBlocked" for c h x
    using that by (simp add: customer_step_def EvaluateCustomerRequest_def ok split: option.split prod.split)
  have 3: "ev_Decision (team_step ?gi h x) \<noteq> DecisionMCPToolBlocked" if "ev_Decision x \<noteq> DecisionMCPToolBlocked" for h x
    using that by (simp add: team_step_def EvaluateTeamRequest_def ok split: option.split)
  have 4: "ev_Decision y \<noteq> DecisionMCPToolBlocked" if "virtual_key_limits ?gi c vk q = Some y" for c vk q y
    using that by (auto simp: virtual_key_limits_def checkRateLimitHierarchy_def checkBudgetHierarchy_def ok
        split: option.splits if_splits)
  have 5: "ev_Decision (fst (EvaluateVirtualKeyRequest ?gi cat now c v a b t' sk)) \<noteq> DecisionMCPToolBlocked" for cat c v a b t' sk
    by (auto simp: EvaluateVirtualKeyRequest_def ok dest!: 4 key_refusal_Some split: option.split)
  have "ev_Decision (fst (evaluation_chain p ?gi now ctx request t)) \<noteq> DecisionMCPToolBlocked"
    using 0 1 2 3 5 by (auto simp: evaluation_chain_unskipped [OF assms(1)] and_then_def Let_def)
  then show ?thesis
    using assms(2) by (auto simp: EvaluateGovernanceRequest_def Let_def split: if_splits prod.splits)
qed

text \<open>A request with an injected tool that its key does not grant is let through.\<close>

lemma injected_tools_are_not_checked_witness:
  "(\<exists>r. fst (EvaluateGovernanceRequest sample_plugin (local_iface vk_store 0) 0
      [(KeyMCPAddedTools, CStrs [''git-push''])] key_request ''chat_completion'') = Some r \<and>
      ev_Decision r \<noteq> DecisionMCPToolBlocked \<and> ev_Decision r = DecisionAllow) \<and>
   disallowed_tools sample_plugin [(KeyMCPAddedTools, CStrs [''git-push''])] sample_vk = [''git-push'']"
proof -
  let ?ctx = "[(KeyMCPAddedTools, CStrs [''git-push''])]"
  let ?e = "EvaluateGovernanceRequest sample_plugin (local_iface vk_store 0) 0 ?ctx key_request ''chat_completion''"
  have s: "\<not> GetBoolFromContext ?ctx KeySkipBudgetAndRateLimits" by code_simp
  have r: "map_option ev_Decision (fst ?e) = Some DecisionAllow" by code_simp
  then obtain r where r': "fst ?e = Some r" "ev_Decision r = DecisionAllow" by (cases "fst ?e") auto
  have "disallowed_tools sample_plugin ?ctx sample_vk = [''git-push'']" by code_simp
  with injected_tools_are_not_checked [OF s r'(1)] r' show ?thesis by auto
qed

text \<open>
  C4. A tool execution under a virtual key passes the hook only if the tool is one of the four of the code
  mode, which the hook lets through unchecked and with the context as it was, or the key is
  there, active and not expired, its grants allow the tool and so do the tool groups that match it.
\<close>

definition evaluated_context :: "governance_plugin \<Rightarrow> store_iface \<Rightarrow> instant \<Rightarrow> gov_ctx \<Rightarrow> gov_ctx" where
  "evaluated_context p gi now ctx = snd (snd (EvaluateGovernanceRequest p gi now ctx
     \<lparr>er_VirtualKey = GetStringFromContext ctx KeyVirtualKey, er_Provider = [], er_Model = [],
      er_UserID = GetStringFromContext ctx KeyUserID\<rparr> MCPToolExecutionRequest))"

theorem executed_tool_is_granted:
  assumes "fst (PreMCPHook p gi now ctx True tool) = None"
    and "GetStringFromContext ctx KeyVirtualKey \<noteq> []"
  shows "if IsCodemodeTool tool then snd (PreMCPHook p gi now ctx True tool) = ctx
    else \<exists>vk. gi_GetVirtualKey gi (GetStringFromContext ctx KeyVirtualKey) = Some vk \<and>
      IsActiveValue vk \<and> \<not> IsExpiredAt vk now \<and> isMCPToolAllowedByVKWith vk tool (gp_allowAll p) \<and>
      IsToolAllowed (gp_toolGroups p) tool
        ((tool_request_of (evaluated_context p gi now ctx) vk)\<lparr>tq_UserID := GetStringFromContext ctx KeyUserID\<rparr>)"
proof (cases "IsCodemodeTool tool")
  case True
  then show ?thesis by (simp add: PreMCPHook_def)
next
  case False
  obtain a e ctx1 where E: "EvaluateGovernanceRequest p gi now ctx
      \<lparr>er_VirtualKey = GetStringFromContext ctx KeyVirtualKey, er_Provider = [], er_Model = [],
       er_UserID = GetStringFromContext ctx KeyUserID\<rparr> MCPToolExecutionRequest = (a, e, ctx1)"
    by (metis prod_cases3)
  have "fst (check_tool p gi now ctx1 (GetStringFromContext ctx KeyVirtualKey) (GetStringFromContext ctx KeyUserID) tool) = None"
    using assms False by (auto simp: PreMCPHook_def E Let_def split: option.splits)
  then show ?thesis using False
    by (auto simp: check_tool_def reject_tool_def evaluated_context_def E split: option.splits if_splits)
qed

definition mcp_store :: gov_store where
  "mcp_store = storeVirtualKey sample_store ''sk-uf-1'' mcp_vk"

definition tool_ctx :: gov_ctx where
  "tool_ctx = [(KeyVirtualKey, CStr ''sk-uf-1'')]"

theorem executed_tool_is_granted_witness:
  "\<exists>vk. gi_GetVirtualKey (local_iface mcp_store 0) (GetStringFromContext tool_ctx KeyVirtualKey) = Some vk \<and>
    IsActiveValue vk \<and> \<not> IsExpiredAt vk 0 \<and>
    isMCPToolAllowedByVKWith vk ''git-search'' (gp_allowAll sample_plugin) \<and>
    IsToolAllowed (gp_toolGroups sample_plugin) ''git-search''
      ((tool_request_of (evaluated_context sample_plugin (local_iface mcp_store 0) 0 tool_ctx) vk)
        \<lparr>tq_UserID := GetStringFromContext tool_ctx KeyUserID\<rparr>)"
proof -
  have "fst (PreMCPHook sample_plugin (local_iface mcp_store 0) 0 tool_ctx True ''git-search'') = None"
    "GetStringFromContext tool_ctx KeyVirtualKey \<noteq> []" "\<not> IsCodemodeTool ''git-search''"
    by code_simp+
  then show ?thesis
    using executed_tool_is_granted [of sample_plugin "local_iface mcp_store 0" 0 tool_ctx "''git-search''"] by simp
qed

end
