(* ===== verification/GovTracker.thy ===== *)
theory GovTracker
  imports GovEvaluate
begin

text \<open>
  The usage tracker (plugins/governance/tracker.go): the charges of a finished call over all
  levels, the set that keeps one physical call from being billed twice, its sweep and the
  periodic reset. Writing the rows to the database and logging are left out. \<open>n\<close> bounds the
  iterations of each increment loop, \<open>None\<close> is an increment that uses them up.
\<close>

record usage_update =
  uu_VirtualKey :: string
  uu_Provider :: string
  uu_Model :: string
  uu_Success :: bool
  uu_TokensUsed :: int
  uu_Cost :: float64
  uu_RequestID :: string
  uu_UserID :: string
  uu_IsStreaming :: bool
  uu_IsFinalChunk :: bool
  uu_HasUsageData :: bool
  uu_AttemptNumber :: int

record usage_tracker =
  tr_store :: gov_store
  tr_billed :: "instant smap"

definition billedEntryTTL :: duration where
  "billedEntryTTL = 5 * minute"

subsection \<open>The set of billed calls\<close>

definition billing_key :: "usage_update \<Rightarrow> string" where
  "billing_key u = uu_RequestID u @ '':'' @ show_int (uu_AttemptNumber u)"

definition tryClaimBilling :: "instant \<Rightarrow> usage_update \<Rightarrow> usage_tracker \<Rightarrow> bool \<times> usage_tracker" where
  "tryClaimBilling now u tr =
     (if uu_RequestID u = [] then (True, tr)
      else case sm_load (tr_billed tr) (billing_key u) of
          Some since \<Rightarrow> (False, tr)
        | None \<Rightarrow> (True, tr\<lparr>tr_billed := sm_store (billing_key u) now (tr_billed tr)\<rparr>))"

definition sweepBilled :: "instant \<Rightarrow> usage_tracker \<Rightarrow> usage_tracker" where
  "sweepBilled now tr = tr\<lparr>tr_billed := filter (\<lambda>(k, since). \<not> since < now - billedEntryTTL) (tr_billed tr)\<rparr>"

subsection \<open>Charging a call\<close>

fun run_steps :: "('s \<Rightarrow> 's option) list \<Rightarrow> 's \<Rightarrow> 's option" where
  "run_steps [] st = Some st"
| "run_steps (f # fs) st = (case f st of None \<Rightarrow> None | Some st' \<Rightarrow> run_steps fs st')"

definition when_step :: "bool \<Rightarrow> ('s \<Rightarrow> 's option) \<Rightarrow> 's \<Rightarrow> 's option" where
  "when_step c f = (if c then f else Some)"

definition updates_tokens :: "usage_update \<Rightarrow> bool" where
  "updates_tokens u \<longleftrightarrow> \<not> uu_IsStreaming u \<or> (uu_IsStreaming u \<and> uu_HasUsageData u)"

definition updates_requests :: "usage_update \<Rightarrow> bool" where
  "updates_requests u \<longleftrightarrow> uu_Success u \<and> (\<not> uu_IsStreaming u \<or> (uu_IsStreaming u \<and> uu_IsFinalChunk u))"

definition updates_budget :: "usage_update \<Rightarrow> bool" where
  "updates_budget u \<longleftrightarrow> (\<not> uu_IsStreaming u \<or> (uu_IsStreaming u \<and> uu_HasUsageData u)) \<and> 0 < uu_Cost u"

definition isTerminal :: "usage_update \<Rightarrow> bool" where
  "isTerminal u \<longleftrightarrow> \<not> uu_IsStreaming u \<or> uu_IsFinalChunk u"

definition consumed :: "usage_update \<Rightarrow> bool" where
  "consumed u \<longleftrightarrow> uu_Success u \<or> 0 < uu_TokensUsed u \<or> 0 < uu_Cost u"

text \<open>The steps for the provider, the model and the user, in order.\<close>

definition entity_steps :: "nat \<Rightarrow> instant \<Rightarrow> usage_update \<Rightarrow> (gov_store \<Rightarrow> gov_store option) list" where
  "entity_steps n now u =
     (let ut = updates_tokens u; ur = updates_requests u; k = uu_TokensUsed u in
      [when_step (uu_Model u \<noteq> [])
         (\<lambda>st. UpdateProviderAndModelRateLimitUsageInMemory n now st (uu_Model u) (uu_Provider u) k ut ur),
       when_step (uu_Model u \<noteq> [] \<and> updates_budget u)
         (\<lambda>st. UpdateProviderAndModelBudgetUsageInMemory n now st (uu_Model u) (uu_Provider u) (uu_Cost u)),
       when_step (uu_UserID u \<noteq> [])
         (\<lambda>st. UpdateUserRateLimitUsageInMemory n now st (uu_UserID u) k ut ur),
       when_step (uu_UserID u \<noteq> [] \<and> updates_budget u)
         (\<lambda>st. UpdateUserBudgetUsageInMemory n now st (uu_UserID u) (uu_Cost u)),
       when_step (uu_UserID u \<noteq> [] \<and> uu_Model u \<noteq> [])
         (\<lambda>st. UpdateScopedModelRateLimitUsageInMemory n now st ModelConfigScopeUser (uu_UserID u)
            (uu_Model u) (uu_Provider u) k ut ur),
       when_step (uu_UserID u \<noteq> [] \<and> uu_Model u \<noteq> [] \<and> updates_budget u)
         (\<lambda>st. UpdateScopedModelBudgetUsageInMemory n now st ModelConfigScopeUser (uu_UserID u)
            (uu_Model u) (uu_Provider u) (uu_Cost u))])"

text \<open>The steps for a virtual key. An error of the store is only logged.\<close>

definition ignore_error :: "(gov_error option \<times> gov_store) option \<Rightarrow> gov_store option" where
  "ignore_error r = map_option snd r"

definition key_steps :: "nat \<Rightarrow> instant \<Rightarrow> string \<Rightarrow> usage_update \<Rightarrow> virtual_key \<Rightarrow> (gov_store \<Rightarrow> gov_store option) list" where
  "key_steps n now scoped u vk =
     (let ut = updates_tokens u; ur = updates_requests u; k = uu_TokensUsed u in
      [when_step (uu_Model u \<noteq> [])
         (\<lambda>st. UpdateScopedModelRateLimitUsageInMemory n now st ModelConfigScopeVirtualKey (vk_ID vk)
            (uu_Model u) (uu_Provider u) k ut ur),
       when_step (uu_Model u \<noteq> [] \<and> updates_budget u)
         (\<lambda>st. UpdateScopedModelBudgetUsageInMemory n now st ModelConfigScopeVirtualKey (vk_ID vk)
            (uu_Model u) (uu_Provider u) (uu_Cost u)),
       when_step (vk_RateLimit vk \<noteq> None \<or> vk_ProviderConfigs vk \<noteq> [] \<or> vk_TeamID vk \<noteq> None \<or> vk_CustomerID vk \<noteq> None)
         (\<lambda>st. ignore_error (UpdateVirtualKeyRateLimitUsageInMemory n now st scoped (Some vk) (uu_Provider u) k ut ur)),
       when_step (updates_budget u)
         (\<lambda>st. ignore_error (UpdateVirtualKeyBudgetUsageInMemory n now st scoped (Some vk) (uu_Provider u) (uu_Cost u)))])"

definition charge_call :: "nat \<Rightarrow> instant \<Rightarrow> string \<Rightarrow> usage_update \<Rightarrow> gov_store \<Rightarrow> gov_store option" where
  "charge_call n now scoped u st =
     (case run_steps (entity_steps n now u) st of
        None \<Rightarrow> None
      | Some st1 \<Rightarrow>
          if uu_VirtualKey u = [] then Some st1
          else (case GetVirtualKey st1 (uu_VirtualKey u) of
                  None \<Rightarrow> Some st1
                | Some vk \<Rightarrow> run_steps (key_steps n now scoped u vk) st1))"

definition UpdateUsage :: "nat \<Rightarrow> instant \<Rightarrow> string \<Rightarrow> usage_update \<Rightarrow> usage_tracker \<Rightarrow> usage_tracker option" where
  "UpdateUsage n now scoped u tr =
     (if \<not> consumed u then Some tr
      else case (if isTerminal u then tryClaimBilling now u tr else (True, tr)) of
        (claimed, tr1) \<Rightarrow>
          if \<not> claimed then Some tr1
          else map_option (\<lambda>st. tr1\<lparr>tr_store := st\<rparr>) (charge_call n now scoped u (tr_store tr1)))"

definition resetExpiredCounters :: "instant \<Rightarrow> usage_tracker \<Rightarrow> usage_tracker" where
  "resetExpiredCounters now tr =
     (let st1 = snd (ResetExpiredRateLimitsInMemory (tr_store tr) now True []);
          st2 = snd (ResetExpiredBudgetsInMemory st1 now True [])
      in sweepBilled now (tr\<lparr>tr_store := st2\<rparr>))"

text \<open>\<^verbatim>\<open>validateStartupResetDurations\<close>: the rows whose duration does not parse.\<close>

datatype duration_error = BadBudgetDuration string | BadTokenDuration string | BadRequestDuration string

definition validateStartupResetDurations :: "gov_store \<Rightarrow> duration_error list" where
  "validateStartupResetDurations st =
     concat (map (\<lambda>(k, b).
        if bg_ResetDuration b = [] \<or> bg_IsCalendarAligned b then []
        else if ParseDuration (bg_ResetDuration b) = None then [BadBudgetDuration (bg_ID b)] else []) (st_budgets st)) @
     concat (map (\<lambda>(k, r).
        if rl_IsCalendarAligned r then []
        else (case rl_TokenResetDuration r of None \<Rightarrow> []
              | Some d \<Rightarrow> if ParseDuration d = None then [BadTokenDuration (rl_ID r)] else []) @
             (case rl_RequestResetDuration r of None \<Rightarrow> []
              | Some d \<Rightarrow> if ParseDuration d = None then [BadRequestDuration (rl_ID r)] else [])) (st_rateLimits st))"

subsection \<open>The charged rows\<close>

definition step_within :: "gov_store \<Rightarrow> string set \<Rightarrow> string set \<Rightarrow> (gov_store \<Rightarrow> gov_store option) \<Rightarrow> bool" where
  "step_within st0 bs rs f \<longleftrightarrow>
     (\<forall>st st'. wf_hot st \<longrightarrow> cfg_eq st0 st \<longrightarrow> f st = Some st' \<longrightarrow> touches bs rs st st')"

lemma step_withinD: "step_within st0 bs rs f \<Longrightarrow> wf_hot st \<Longrightarrow> cfg_eq st0 st \<Longrightarrow> f st = Some st' \<Longrightarrow> touches bs rs st st'"
  by (simp add: step_within_def)

lemma run_steps_touches:
  "\<forall>f \<in> set fs. step_within st0 bs rs f \<Longrightarrow> wf_hot st \<Longrightarrow> cfg_eq st0 st \<Longrightarrow>
     run_steps fs st = Some st' \<Longrightarrow> touches bs rs st st'"
proof (induction fs arbitrary: st)
  case Nil
  then show ?case by (simp add: touches_refl)
next
  case (Cons f fs)
  then obtain st1 where 1: "f st = Some st1" "run_steps fs st1 = Some st'" by (auto split: option.splits)
  have t: "touches bs rs st st1" using Cons.prems 1 by (auto intro: step_withinD)
  moreover have "touches bs rs st1 st'"
    using Cons.IH [of st1] Cons.prems 1 t by (auto dest: touches_wf touches_cfg intro: cfg_eq_trans)
  ultimately show ?case by (rule touches_trans)
qed

lemma step_within_when: "(c \<Longrightarrow> step_within st0 bs rs f) \<Longrightarrow> step_within st0 bs rs (when_step c f)"
  by (cases c) (simp_all add: when_step_def step_within_def touches_refl)

lemma cfg_eq_lookups:
  assumes "cfg_eq st0 st"
  shows "provider_row_of st p = provider_row_of st0 p" "GetUserGovernance st u = GetUserGovernance st0 u"
    "GetVirtualKey st v = GetVirtualKey st0 v"
    "collectModelConfigsFor st sc i m pp = collectModelConfigsFor st0 sc i m pp"
  using assms cfg_eq_collectModelConfigs [OF assms]
  by (simp_all add: cfg_eq_def provider_row_of_def GetUserGovernance_def GetVirtualKey_def)

lemma step_within_bump:
  "set is \<subseteq> bs \<Longrightarrow> step_within st0 bs rs (bump_budgets n now cost is)"
  "set is \<subseteq> rs \<Longrightarrow> step_within st0 bs rs (bump_rate_limits n now k ut ur is)"
  by (simp_all add: step_within_def touches_bump_budgets touches_bump_rate_limits)

lemma step_within_provider_rate_limit:
  assumes "set (case provider_row_of st0 p of None \<Rightarrow> [] | Some x \<Rightarrow> opt_list (pr_RateLimitID x)) \<subseteq> rs"
    "set (model_rate_limit_ids (collectModelConfigsFor st0 ModelConfigScopeGlobal [] m (provider_ptr p))) \<subseteq> rs"
  shows "step_within st0 bs rs (\<lambda>st. UpdateProviderAndModelRateLimitUsageInMemory n now st m p k ut ur)"
  unfolding step_within_def
proof (intro allI impI)
  fix st st'
  let ?is = "case provider_row_of st0 p of None \<Rightarrow> [] | Some x \<Rightarrow> opt_list (pr_RateLimitID x)"
  let ?js = "model_rate_limit_ids (collectModelConfigsFor st0 ModelConfigScopeGlobal [] m (provider_ptr p))"
  assume wf: "wf_hot st" and c: "cfg_eq st0 st"
    and u: "UpdateProviderAndModelRateLimitUsageInMemory n now st m p k ut ur = Some st'"
  then obtain st1 where 1: "bump_rate_limits n now k ut ur ?is st = Some st1"
    and 2: "bump_rate_limits n now k ut ur (model_rate_limit_ids
      (collectModelConfigsFor st1 ModelConfigScopeGlobal [] m (provider_ptr p))) st1 = Some st'"
    by (auto simp: UpdateProviderAndModelRateLimitUsageInMemory_def cfg_eq_lookups [OF c] split: option.splits)
  have t: "touches bs rs st st1" by (rule step_withinD [OF step_within_bump(2) [OF assms(1)] wf c 1])
  have c1: "cfg_eq st0 st1" using c touches_cfg [OF t] by (rule cfg_eq_trans)
  show "touches bs rs st st'"
    using t step_withinD [OF step_within_bump(2) [OF assms(2)] touches_wf [OF t] c1 2 [unfolded cfg_eq_lookups [OF c1]]]
    by (rule touches_trans)
qed

lemma step_within_provider_budget:
  assumes "set (case provider_row_of st0 p of None \<Rightarrow> [] | Some x \<Rightarrow> opt_list (pr_BudgetID x)) \<subseteq> bs"
    "set (model_budget_ids (collectModelConfigsFor st0 ModelConfigScopeGlobal [] m (provider_ptr p))) \<subseteq> bs"
  shows "step_within st0 bs rs (\<lambda>st. UpdateProviderAndModelBudgetUsageInMemory n now st m p cost)"
  unfolding step_within_def
proof (intro allI impI)
  fix st st'
  let ?is = "case provider_row_of st0 p of None \<Rightarrow> [] | Some x \<Rightarrow> opt_list (pr_BudgetID x)"
  assume wf: "wf_hot st" and c: "cfg_eq st0 st"
    and u: "UpdateProviderAndModelBudgetUsageInMemory n now st m p cost = Some st'"
  then obtain st1 where 1: "bump_budgets n now cost ?is st = Some st1"
    and 2: "bump_budgets n now cost (model_budget_ids
      (collectModelConfigsFor st1 ModelConfigScopeGlobal [] m (provider_ptr p))) st1 = Some st'"
    by (auto simp: UpdateProviderAndModelBudgetUsageInMemory_def cfg_eq_lookups [OF c] split: option.splits)
  have t: "touches bs rs st st1" by (rule step_withinD [OF step_within_bump(1) [OF assms(1)] wf c 1])
  have c1: "cfg_eq st0 st1" using c touches_cfg [OF t] by (rule cfg_eq_trans)
  show "touches bs rs st st'"
    using t step_withinD [OF step_within_bump(1) [OF assms(2)] touches_wf [OF t] c1 2 [unfolded cfg_eq_lookups [OF c1]]]
    by (rule touches_trans)
qed

lemma step_within_scoped:
  "set (model_rate_limit_ids (collectModelConfigsFor st0 sc i m (provider_ptr p))) \<subseteq> rs \<Longrightarrow>
     step_within st0 bs rs (\<lambda>st. UpdateScopedModelRateLimitUsageInMemory n now st sc i m p k ut ur)"
  "set (model_budget_ids (collectModelConfigsFor st0 sc i m (provider_ptr p))) \<subseteq> bs \<Longrightarrow>
     step_within st0 bs rs (\<lambda>st. UpdateScopedModelBudgetUsageInMemory n now st sc i m p cost)"
  by (auto simp: step_within_def UpdateScopedModelRateLimitUsageInMemory_def cfg_eq_lookups
      UpdateScopedModelBudgetUsageInMemory_def touches_refl touches_bump_budgets touches_bump_rate_limits
      split: if_splits)

lemma step_within_user:
  "set (case GetUserGovernance st0 u of None \<Rightarrow> [] | Some ug \<Rightarrow> opt_list (nonempty_id (ug_RateLimitID ug))) \<subseteq> rs \<Longrightarrow>
     step_within st0 bs rs (\<lambda>st. UpdateUserRateLimitUsageInMemory n now st u k ut ur)"
  "set (case GetUserGovernance st0 u of None \<Rightarrow> [] | Some ug \<Rightarrow> opt_list (nonempty_id (ug_BudgetID ug))) \<subseteq> bs \<Longrightarrow>
     step_within st0 bs rs (\<lambda>st. UpdateUserBudgetUsageInMemory n now st u cost)"
  by (auto simp: step_within_def UpdateUserRateLimitUsageInMemory_def cfg_eq_lookups
      UpdateUserBudgetUsageInMemory_def touches_refl touches_bump_budgets touches_bump_rate_limits
      split: if_splits option.splits)

lemma step_within_key:
  "set (collectRateLimitIDsFromMemory st0 sc vk p) \<subseteq> rs \<Longrightarrow>
     step_within st0 bs rs (\<lambda>st. ignore_error (UpdateVirtualKeyRateLimitUsageInMemory n now st sc (Some vk) p k ut ur))"
  "set (collectBudgetIDsFromMemory st0 sc vk p) \<subseteq> bs \<Longrightarrow>
     step_within st0 bs rs (\<lambda>st. ignore_error (UpdateVirtualKeyBudgetUsageInMemory n now st sc (Some vk) p cost))"
  by (auto simp: step_within_def ignore_error_def UpdateVirtualKeyRateLimitUsageInMemory_def
      UpdateVirtualKeyBudgetUsageInMemory_def cfg_eq_collectRateLimitIDs cfg_eq_collectBudgetIDs
      touches_bump_budgets touches_bump_rate_limits)

text \<open>The identifiers a request collects, as sets: everything the steps charge.\<close>

lemma collected_ids_sets:
  assumes "CollectApplicableGovernanceIDs st sc v u p m = (bs, rs)"
  shows "set (case provider_row_of st p of None \<Rightarrow> [] | Some x \<Rightarrow> opt_list (pr_BudgetID x)) \<subseteq> set bs"
    "set (case provider_row_of st p of None \<Rightarrow> [] | Some x \<Rightarrow> opt_list (pr_RateLimitID x)) \<subseteq> set rs"
    "m \<noteq> [] \<Longrightarrow> set (model_budget_ids (collectModelConfigsFor st ModelConfigScopeGlobal [] m (provider_ptr p))) \<subseteq> set bs"
    "m \<noteq> [] \<Longrightarrow> set (model_rate_limit_ids (collectModelConfigsFor st ModelConfigScopeGlobal [] m (provider_ptr p))) \<subseteq> set rs"
    "m \<noteq> [] \<Longrightarrow> u \<noteq> [] \<Longrightarrow> set (model_budget_ids (collectModelConfigsFor st ModelConfigScopeUser u m (provider_ptr p))) \<subseteq> set bs"
    "m \<noteq> [] \<Longrightarrow> u \<noteq> [] \<Longrightarrow> set (model_rate_limit_ids (collectModelConfigsFor st ModelConfigScopeUser u m (provider_ptr p))) \<subseteq> set rs"
    "set (case GetUserGovernance st u of None \<Rightarrow> [] | Some ug \<Rightarrow> opt_list (nonempty_id (ug_BudgetID ug))) \<subseteq> set bs"
    "set (case GetUserGovernance st u of None \<Rightarrow> [] | Some ug \<Rightarrow> opt_list (nonempty_id (ug_RateLimitID ug))) \<subseteq> set rs"
    "v \<noteq> [] \<Longrightarrow> GetVirtualKey st v = Some vk \<Longrightarrow> m \<noteq> [] \<Longrightarrow>
       set (model_budget_ids (collectModelConfigsFor st ModelConfigScopeVirtualKey (vk_ID vk) m (provider_ptr p))) \<subseteq> set bs"
    "v \<noteq> [] \<Longrightarrow> GetVirtualKey st v = Some vk \<Longrightarrow> m \<noteq> [] \<Longrightarrow>
       set (model_rate_limit_ids (collectModelConfigsFor st ModelConfigScopeVirtualKey (vk_ID vk) m (provider_ptr p))) \<subseteq> set rs"
    "v \<noteq> [] \<Longrightarrow> GetVirtualKey st v = Some vk \<Longrightarrow> set (collectBudgetIDsFromMemory st sc vk p) \<subseteq> set bs"
    "v \<noteq> [] \<Longrightarrow> GetVirtualKey st v = Some vk \<Longrightarrow> set (collectRateLimitIDsFromMemory st sc vk p) \<subseteq> set rs"
proof -
  have b: "bs = fst (CollectApplicableGovernanceIDs st sc v u p m)"
    and r: "rs = snd (CollectApplicableGovernanceIDs st sc v u p m)" using assms by simp_all
  note defs = CollectApplicableGovernanceIDs_def Let_def nonGlobalModelConfigScopeChain_def set_add_model_configs
  show "set (case provider_row_of st p of None \<Rightarrow> [] | Some x \<Rightarrow> opt_list (pr_BudgetID x)) \<subseteq> set bs"
    unfolding b by (auto simp: defs split: option.splits)
  show "set (case provider_row_of st p of None \<Rightarrow> [] | Some x \<Rightarrow> opt_list (pr_RateLimitID x)) \<subseteq> set rs"
    unfolding r by (auto simp: defs split: option.splits)
  show "set (case GetUserGovernance st u of None \<Rightarrow> [] | Some ug \<Rightarrow> opt_list (nonempty_id (ug_BudgetID ug))) \<subseteq> set bs"
    unfolding b by (simp add: defs split: option.split)
  show "set (case GetUserGovernance st u of None \<Rightarrow> [] | Some ug \<Rightarrow> opt_list (nonempty_id (ug_RateLimitID ug))) \<subseteq> set rs"
    unfolding r by (simp add: defs split: option.split)
  show "set (model_budget_ids (collectModelConfigsFor st ModelConfigScopeGlobal [] m (provider_ptr p))) \<subseteq> set bs" if "m \<noteq> []"
    using that unfolding b by (auto simp: defs split: option.splits)
  show "set (model_rate_limit_ids (collectModelConfigsFor st ModelConfigScopeGlobal [] m (provider_ptr p))) \<subseteq> set rs" if "m \<noteq> []"
    using that unfolding r by (auto simp: defs split: option.splits)
  show "set (model_budget_ids (collectModelConfigsFor st ModelConfigScopeUser u m (provider_ptr p))) \<subseteq> set bs" if "m \<noteq> []" "u \<noteq> []"
    using that unfolding b by (auto simp: defs split: option.splits)
  show "set (model_rate_limit_ids (collectModelConfigsFor st ModelConfigScopeUser u m (provider_ptr p))) \<subseteq> set rs" if "m \<noteq> []" "u \<noteq> []"
    using that unfolding r by (auto simp: defs split: option.splits)
  show "set (model_budget_ids (collectModelConfigsFor st ModelConfigScopeVirtualKey (vk_ID vk) m (provider_ptr p))) \<subseteq> set bs"
    if "v \<noteq> []" "GetVirtualKey st v = Some vk" "m \<noteq> []"
    using that unfolding b by (auto simp: defs split: option.splits)
  show "set (model_rate_limit_ids (collectModelConfigsFor st ModelConfigScopeVirtualKey (vk_ID vk) m (provider_ptr p))) \<subseteq> set rs"
    if "v \<noteq> []" "GetVirtualKey st v = Some vk" "m \<noteq> []"
    using that unfolding r by (auto simp: defs split: option.splits)
  show "set (collectBudgetIDsFromMemory st sc vk p) \<subseteq> set bs" if "v \<noteq> []" "GetVirtualKey st v = Some vk"
    using that unfolding b by (auto simp: defs split: option.splits)
  show "set (collectRateLimitIDsFromMemory st sc vk p) \<subseteq> set rs" if "v \<noteq> []" "GetVirtualKey st v = Some vk"
    using that unfolding r by (auto simp: defs split: option.splits)
qed

lemma entity_steps_within:
  assumes "CollectApplicableGovernanceIDs st sc (uu_VirtualKey u) (uu_UserID u) (uu_Provider u) (uu_Model u) = (bs, rs)"
    "f \<in> set (entity_steps n now u)"
  shows "step_within st (set bs) (set rs) f"
  using assms(2) collected_ids_sets(1-8) [OF assms(1)]
  by (auto simp: entity_steps_def Let_def intro!: step_within_when step_within_provider_rate_limit
      step_within_provider_budget step_within_user step_within_scoped)

lemma key_steps_within:
  assumes "CollectApplicableGovernanceIDs st sc (uu_VirtualKey u) (uu_UserID u) (uu_Provider u) (uu_Model u) = (bs, rs)"
    "f \<in> set (key_steps n now sc u vk)" "uu_VirtualKey u \<noteq> []" "GetVirtualKey st (uu_VirtualKey u) = Some vk"
  shows "step_within st (set bs) (set rs) f"
  using assms(2) collected_ids_sets(9-12) [OF assms(1,3,4)]
  by (auto simp: key_steps_def Let_def intro!: step_within_when step_within_scoped step_within_key)

lemma charge_call_touches:
  assumes "wf_hot st" "charge_call n now sc u st = Some st'"
    "CollectApplicableGovernanceIDs st sc (uu_VirtualKey u) (uu_UserID u) (uu_Provider u) (uu_Model u) = (bs, rs)"
  shows "touches (set bs) (set rs) st st'"
proof -
  from assms(2) obtain st1 where 1: "run_steps (entity_steps n now u) st = Some st1"
    by (auto simp: charge_call_def split: option.splits)
  have t: "touches (set bs) (set rs) st st1"
    by (rule run_steps_touches [OF _ assms(1) cfg_eq_refl 1]) (blast intro: entity_steps_within [OF assms(3)])
  show ?thesis
  proof (cases "uu_VirtualKey u = [] \<or> GetVirtualKey st1 (uu_VirtualKey u) = None")
    case True
    then have "st' = st1" using assms(2) 1 by (auto simp: charge_call_def split: if_splits)
    with t show ?thesis by simp
  next
    case False
    then obtain vk where vk: "GetVirtualKey st1 (uu_VirtualKey u) = Some vk" by auto
    then have 2: "run_steps (key_steps n now sc u vk) st1 = Some st'"
      using assms(2) 1 False by (simp add: charge_call_def)
    have vk0: "GetVirtualKey st (uu_VirtualKey u) = Some vk"
      using vk cfg_eq_lookups(3) [OF touches_cfg [OF t]] by simp
    have "touches (set bs) (set rs) st1 st'"
      by (rule run_steps_touches [OF _ touches_wf [OF t] touches_cfg [OF t] 2])
        (use False vk0 in \<open>blast intro: key_steps_within [OF assms(3)]\<close>)
    with t show ?thesis by (rule touches_trans)
  qed
qed

text \<open>
  A settled call charges only rows it is stamped with: whatever the update, every budget
  and every rate limit outside the list of applicable identifiers computed for the same
  request keeps its row, and no configured entity changes.
\<close>

lemma charged_rows_are_stamped:
  assumes "wf_hot (tr_store tr)" "UpdateUsage n now sc u tr = Some tr'"
    "CollectApplicableGovernanceIDs (tr_store tr) sc (uu_VirtualKey u) (uu_UserID u) (uu_Provider u) (uu_Model u) = (bs, rs)"
  shows "touches (set bs) (set rs) (tr_store tr) (tr_store tr')"
proof (cases "\<not> consumed u \<or> (isTerminal u \<and> \<not> fst (tryClaimBilling now u tr))")
  case True
  then have "tr' = tr" using assms(2)
    by (auto simp: UpdateUsage_def tryClaimBilling_def split: if_splits option.splits)
  with assms(1) show ?thesis by (simp add: touches_refl)
next
  case False
  then obtain st where "charge_call n now sc u (tr_store tr) = Some st" "tr_store tr' = st" using assms(2)
    by (auto simp: UpdateUsage_def tryClaimBilling_def split: if_splits option.splits)
  with charge_call_touches [OF assms(1) _ assms(3)] show ?thesis by simp
qed

definition keyed_tracker :: usage_tracker where
  "keyed_tracker = \<lparr>tr_store = storeVirtualKey sample_store ''sk-uf-1'' sample_vk, tr_billed = []\<rparr>"

definition sample_update :: usage_update where
  "sample_update = \<lparr>uu_VirtualKey = ''sk-uf-1'', uu_Provider = ''openai'', uu_Model = ''gpt'', uu_Success = True,
     uu_TokensUsed = 30, uu_Cost = 2, uu_RequestID = ''req'', uu_UserID = [], uu_IsStreaming = False,
     uu_IsFinalChunk = False, uu_HasUsageData = False, uu_AttemptNumber = 0\<rparr>"

lemma charged_rows_are_stamped_witness:
  "\<exists>tr'. UpdateUsage 2 5 [] sample_update keyed_tracker = Some tr' \<and>
     touches {''b''} {''r''} (tr_store keyed_tracker) (tr_store tr') \<and>
     map_option bg_CurrentUsage (LoadBudget (tr_store tr') ''b'') \<noteq>
     map_option bg_CurrentUsage (LoadBudget (tr_store keyed_tracker) ''b'')"
proof -
  obtain tr' where u: "UpdateUsage 2 5 [] sample_update keyed_tracker = Some tr'"
    and c: "map_option bg_CurrentUsage (LoadBudget (tr_store tr') ''b'') \<noteq>
     map_option bg_CurrentUsage (LoadBudget (tr_store keyed_tracker) ''b'')"
  proof -
    have "(case UpdateUsage 2 5 [] sample_update keyed_tracker of None \<Rightarrow> False
      | Some t \<Rightarrow> map_option bg_CurrentUsage (LoadBudget (tr_store t) ''b'') \<noteq>
         map_option bg_CurrentUsage (LoadBudget (tr_store keyed_tracker) ''b''))" by code_simp
    then show ?thesis by (auto split: option.splits intro: that)
  qed
  have "wf_hot (tr_store keyed_tracker)" by code_simp
  moreover have "CollectApplicableGovernanceIDs (tr_store keyed_tracker) [] (uu_VirtualKey sample_update)
      (uu_UserID sample_update) (uu_Provider sample_update) (uu_Model sample_update) = ([''b''], [''r''])" by code_simp
  ultimately have "touches (set [''b'']) (set [''r'']) (tr_store keyed_tracker) (tr_store tr')"
    by (rule charged_rows_are_stamped [OF _ u])
  with u c show ?thesis by auto
qed

subsection \<open>One bill per physical call\<close>

text \<open>The events of the tracker: updates from any goroutine, and the ticks of the reset worker.\<close>

datatype tracker_event =
    Usage instant string usage_update
  | Tick instant

fun event_time :: "tracker_event \<Rightarrow> instant" where
  "event_time (Usage now sc u) = now"
| "event_time (Tick now) = now"

fun tracker_step :: "nat \<Rightarrow> tracker_event \<Rightarrow> usage_tracker \<Rightarrow> usage_tracker option" where
  "tracker_step n (Usage now sc u) tr = UpdateUsage n now sc u tr"
| "tracker_step n (Tick now) tr = Some (resetExpiredCounters now tr)"

lemma tryClaim_keeps:
  "sm_load (tr_billed tr) k = Some t \<Longrightarrow> sm_load (tr_billed (snd (tryClaimBilling now u tr))) k = Some t"
  by (auto simp: tryClaimBilling_def split: option.splits)

lemma UpdateUsage_billed:
  "UpdateUsage n now sc u tr = Some tr' \<Longrightarrow>
     tr_billed tr' = (if consumed u \<and> isTerminal u then tr_billed (snd (tryClaimBilling now u tr)) else tr_billed tr)"
  by (auto simp: UpdateUsage_def split: if_splits prod.splits)

lemma sm_load_filter_keep:
  "sm_load m k = Some t \<Longrightarrow> P (k, t) \<Longrightarrow> sm_load (filter P m) k = Some t"
  by (induction m) (auto simp: sm_load_def split: if_splits)

lemma tracker_step_keeps_claim:
  assumes "tracker_step n e tr = Some tr'" "sm_load (tr_billed tr) k = Some t" "event_time e \<le> t + billedEntryTTL"
  shows "sm_load (tr_billed tr') k = Some t"
proof (cases e)
  case (Usage now sc u)
  then show ?thesis using UpdateUsage_billed [of n now sc u tr tr'] assms(1,2) by (simp add: tryClaim_keeps)
next
  case (Tick now)
  then have "\<not> t < now - billedEntryTTL" using assms(3) by simp
  then show ?thesis using Tick assms(1,2)
    by (auto simp: resetExpiredCounters_def Let_def sweepBilled_def intro!: sm_load_filter_keep)
qed

lemma run_keeps_claim:
  "run_steps (map (tracker_step n) es) tr = Some tr' \<Longrightarrow> sm_load (tr_billed tr) k = Some t \<Longrightarrow>
     \<forall>e \<in> set es. event_time e \<le> t + billedEntryTTL \<Longrightarrow> sm_load (tr_billed tr') k = Some t"
  by (induction es arbitrary: tr) (auto split: option.splits dest: tracker_step_keeps_claim)

text \<open>
  C9. A physical call is billed at most once: after a settled terminal update, and after any
  later updates of any requests and any ticks of the reset worker up to five minutes, a
  second terminal update of the same request and attempt, success or not, changes nothing.
\<close>

theorem billed_once:
  assumes "UpdateUsage n t sc u tr = Some tr1" "consumed u" "isTerminal u" "uu_RequestID u \<noteq> []"
    "sm_load (tr_billed tr) (billing_key u) = None"
    "run_steps (map (tracker_step n) es) tr1 = Some tr2"
    "\<forall>e \<in> set es. event_time e \<le> t + billedEntryTTL"
    "isTerminal u'" "uu_RequestID u' = uu_RequestID u" "uu_AttemptNumber u' = uu_AttemptNumber u"
  shows "UpdateUsage n' t' sc' u' tr2 = Some tr2"
proof -
  have "sm_load (tr_billed tr1) (billing_key u) = Some t"
    using UpdateUsage_billed [OF assms(1)] assms(2-5) by (simp add: tryClaimBilling_def)
  then have "sm_load (tr_billed tr2) (billing_key u) = Some t"
    by (rule run_keeps_claim [OF assms(6) _ assms(7)])
  moreover have "billing_key u' = billing_key u" using assms(9,10) by (simp add: billing_key_def)
  ultimately show ?thesis using assms(4,8,9) by (simp add: UpdateUsage_def tryClaimBilling_def)
qed

theorem billed_once_witness:
  "\<exists>tr1 tr2. UpdateUsage 2 5 [] sample_update keyed_tracker = Some tr1 \<and> tr_billed tr1 \<noteq> [] \<and>
     run_steps (map (tracker_step 2) [Tick (5 + minute), Usage 6 [] (sample_update\<lparr>uu_AttemptNumber := 1\<rparr>)]) tr1 = Some tr2 \<and>
     UpdateUsage 2 7 [] (sample_update\<lparr>uu_Success := False\<rparr>) tr2 = Some tr2"
proof -
  let ?es = "[Tick (5 + minute), Usage 6 [] (sample_update\<lparr>uu_AttemptNumber := 1\<rparr>)]"
  have "(case UpdateUsage 2 5 [] sample_update keyed_tracker of None \<Rightarrow> False
      | Some tr1 \<Rightarrow> tr_billed tr1 \<noteq> [] \<and> run_steps (map (tracker_step 2) ?es) tr1 \<noteq> None)" by code_simp
  then obtain tr1 tr2 where 1: "UpdateUsage 2 5 [] sample_update keyed_tracker = Some tr1" "tr_billed tr1 \<noteq> []"
    and 2: "run_steps (map (tracker_step 2) ?es) tr1 = Some tr2" by (auto split: option.splits)
  have "UpdateUsage 2 7 [] (sample_update\<lparr>uu_Success := False\<rparr>) tr2 = Some tr2"
    by (rule billed_once [OF 1(1) _ _ _ _ 2]) code_simp+
  with 1 2 show ?thesis by blast
qed

lemma show_nat_value: "foldl (\<lambda>a c. 10 * a + (of_char c - 48 :: nat)) 0 (show_nat n) = n"
proof (induction n rule: show_nat.induct)
  case (1 n)
  show ?case
  proof (cases "n < 10")
    case True
    then show ?thesis by (subst show_nat.simps) (simp add: of_char_of)
  next
    case False
    have "48 + n mod 10 < 256" by (rule less_trans [of _ 58]) simp_all
    then have "of_char (char_of (48 + n mod 10) :: char) - 48 = n mod 10" by (simp add: of_char_of)
    with False 1 show ?thesis by (subst show_nat.simps) simp
  qed
qed

lemma show_nat_inject: "show_nat m = show_nat n \<longleftrightarrow> m = n"
  using show_nat_value by metis

lemma show_nat_no_sign: "show_nat n \<noteq> CHR ''-'' # s"
proof
  assume "show_nat n = CHR ''-'' # s"
  then have "CHR ''-'' \<in> set (show_nat n)" by simp
  then obtain k :: nat where k: "k < 10" "CHR ''-'' = char_of (48 + k)" using set_show_nat [of n] by blast
  from k(2) have "(of_char CHR ''-'' :: nat) = of_char (char_of (48 + k) :: char)" by (rule arg_cong)
  with k(1) show False by (simp add: of_char_of)
qed

lemma show_int_inject: "show_int i = show_int j \<longleftrightarrow> i = j"
  using show_nat_no_sign [of "nat i"] show_nat_no_sign [of "nat j"]
    not_sym [OF show_nat_no_sign [of "nat i"]] not_sym [OF show_nat_no_sign [of "nat j"]]
  by (auto simp: show_int_def show_nat_inject split: if_splits)

lemma split_last_inject:
  "c \<notin> set x \<Longrightarrow> c \<notin> set y \<Longrightarrow> a @ c # x = b @ c # y \<longleftrightarrow> a = b \<and> x = y"
  by (auto simp: append_eq_append_conv2 append_eq_Cons_conv Cons_eq_append_conv)

lemma billing_key_inject:
  "billing_key u = billing_key v \<longleftrightarrow> uu_RequestID u = uu_RequestID v \<and> uu_AttemptNumber u = uu_AttemptNumber v"
proof -
  have "CHR '':'' \<notin> set (show_int i)" for i by (rule letter_not_in_show_int) code_simp
  then show ?thesis by (simp add: billing_key_def split_last_inject show_int_inject)
qed

text \<open>
  Every physical call bills: settling one call never takes the claim of a call of another
  request or of another attempt of the same request, although the keys are joined strings.
\<close>

lemma distinct_calls_bill_apart:
  assumes "UpdateUsage n t sc u tr = Some tr1"
    "uu_RequestID v \<noteq> uu_RequestID u \<or> uu_AttemptNumber v \<noteq> uu_AttemptNumber u"
  shows "fst (tryClaimBilling t' v tr1) = fst (tryClaimBilling t' v tr)"
proof -
  have "billing_key u \<noteq> billing_key v" using assms(2) by (auto simp: billing_key_inject)
  then have "sm_load (tr_billed tr1) (billing_key v) = sm_load (tr_billed tr) (billing_key v)"
    using UpdateUsage_billed [OF assms(1)] by (simp add: tryClaimBilling_def split: option.splits)
  then show ?thesis by (simp add: tryClaimBilling_def split: option.splits)
qed

lemma distinct_calls_bill_apart_witness:
  "\<exists>tr1. UpdateUsage 2 5 [] sample_update keyed_tracker = Some tr1 \<and>
     fst (tryClaimBilling 6 (sample_update\<lparr>uu_AttemptNumber := -1\<rparr>) tr1)"
proof -
  have "UpdateUsage 2 5 [] sample_update keyed_tracker \<noteq> None" by code_simp
  then obtain tr1 where 1: "UpdateUsage 2 5 [] sample_update keyed_tracker = Some tr1" by auto
  have "fst (tryClaimBilling 6 (sample_update\<lparr>uu_AttemptNumber := -1\<rparr>) keyed_tracker)" by code_simp
  moreover have "uu_AttemptNumber (sample_update\<lparr>uu_AttemptNumber := -1\<rparr>) \<noteq> uu_AttemptNumber sample_update" by code_simp
  ultimately show ?thesis using distinct_calls_bill_apart [OF 1] 1 by blast
qed

end
