(* ===== verification/CelRefs.thy ===== *)
theory CelRefs
  imports GovResolver
begin

text \<open>
  What the gateway itself does with CEL source text (framework/routing/routing.go,
  plugins/governance/routingcelrefs.go): lowering the keys of header and parameter accesses,
  the syntactic check, and the search for a free identifier in a parsed expression. The parser,
  the compiler and the evaluator belong to the library cel-go and are parameters
  of the theories that use them; \<open>cel_expr\<close> is the shape of its expression tree.
\<close>

subsection \<open>Free identifiers of an expression\<close>

text \<open>
  \<open>EOther\<close> stands for literals and the remaining kinds. Entries of a map and fields of a
  struct that are not of the plain kind carry nothing the search looks at and are left out
  of the lists.
\<close>

datatype cel_expr =
    EIdent string
  | ECall "cel_expr option" "cel_expr list"
  | EComprehension cel_expr string string string cel_expr cel_expr cel_expr cel_expr
  | EList "cel_expr list"
  | EMap "(cel_expr \<times> cel_expr) list"
  | ESelect cel_expr
  | EStruct "cel_expr list"
  | EOther

text \<open>The scoped identifiers are a count per name; a name is scoped when its count is positive.\<close>

definition addScopedCELIdentifiers :: "(string \<Rightarrow> nat) \<Rightarrow> string list \<Rightarrow> string \<Rightarrow> nat" where
  "addScopedCELIdentifiers parent identifiers =
     fold (\<lambda>i m. if i \<noteq> [] then m(i := Suc (m i)) else m) identifiers parent"

fun celExprReferencesIdentifier :: "cel_expr \<Rightarrow> string \<Rightarrow> (string \<Rightarrow> nat) \<Rightarrow> bool" where
  "celExprReferencesIdentifier (EIdent x) i sc = (x = i \<and> sc i = 0)"
| "celExprReferencesIdentifier (ECall target args) i sc =
     ((case target of None \<Rightarrow> False | Some t \<Rightarrow> celExprReferencesIdentifier t i sc) \<or>
      (\<exists>a \<in> set args. celExprReferencesIdentifier a i sc))"
| "celExprReferencesIdentifier (EComprehension iter v v2 accu init cond step result) i sc =
     (celExprReferencesIdentifier iter i sc \<or>
      (let scoped = addScopedCELIdentifiers sc [v, v2, accu] in
       celExprReferencesIdentifier init i scoped \<or> celExprReferencesIdentifier cond i scoped \<or>
       celExprReferencesIdentifier step i scoped \<or> celExprReferencesIdentifier result i scoped))"
| "celExprReferencesIdentifier (EList es) i sc = (\<exists>e \<in> set es. celExprReferencesIdentifier e i sc)"
| "celExprReferencesIdentifier (EMap kvs) i sc =
     (\<exists>kv \<in> set kvs. celExprReferencesIdentifier (fst kv) i sc \<or> celExprReferencesIdentifier (snd kv) i sc)"
| "celExprReferencesIdentifier (ESelect e) i sc = celExprReferencesIdentifier e i sc"
| "celExprReferencesIdentifier (EStruct es) i sc = (\<exists>e \<in> set es. celExprReferencesIdentifier e i sc)"
| "celExprReferencesIdentifier EOther i sc = False"

definition celExpressionReferencesIdentifier :: "(string \<Rightarrow> cel_expr option) \<Rightarrow> string \<Rightarrow> string \<Rightarrow> bool" where
  "celExpressionReferencesIdentifier parse expr identifier =
     (if expr = [] \<or> identifier = [] then False
      else case parse expr of None \<Rightarrow> False | Some e \<Rightarrow> celExprReferencesIdentifier e identifier (\<lambda>_. 0))"

definition celASTReferencesIdentifier :: "cel_expr \<Rightarrow> string \<Rightarrow> bool" where
  "celASTReferencesIdentifier e identifier \<longleftrightarrow> identifier \<noteq> [] \<and> celExprReferencesIdentifier e identifier (\<lambda>_. 0)"

text \<open>The reference: the free identifiers of an expression, as a set.\<close>

fun free_idents :: "cel_expr \<Rightarrow> string set" where
  "free_idents (EIdent x) = {x}"
| "free_idents (ECall target args) =
     (case target of None \<Rightarrow> {} | Some t \<Rightarrow> free_idents t) \<union> (\<Union>a \<in> set args. free_idents a)"
| "free_idents (EComprehension iter v v2 accu init cond step result) =
     free_idents iter \<union>
     ((free_idents init \<union> free_idents cond \<union> free_idents step \<union> free_idents result) - ({v, v2, accu} - {[]}))"
| "free_idents (EList es) = (\<Union>e \<in> set es. free_idents e)"
| "free_idents (EMap kvs) = (\<Union>kv \<in> set kvs. free_idents (fst kv) \<union> free_idents (snd kv))"
| "free_idents (ESelect e) = free_idents e"
| "free_idents (EStruct es) = (\<Union>e \<in> set es. free_idents e)"
| "free_idents EOther = {}"

lemma addScoped_zero:
  "addScopedCELIdentifiers sc is i = 0 \<longleftrightarrow> sc i = 0 \<and> (i \<notin> set is \<or> i = [])"
proof (induction "is" arbitrary: sc)
  case Nil
  then show ?case by (simp add: addScopedCELIdentifiers_def)
next
  case (Cons x xs)
  have "addScopedCELIdentifiers sc (x # xs) =
      addScopedCELIdentifiers (if x \<noteq> [] then sc(x := Suc (sc x)) else sc) xs"
    by (simp add: addScopedCELIdentifiers_def)
  then show ?case using Cons by auto
qed

lemma references_scoped:
  "celExprReferencesIdentifier e i sc \<longleftrightarrow> i \<in> free_idents e \<and> sc i = 0"
  by (induction e i sc rule: celExprReferencesIdentifier.induct)
    (auto simp: addScoped_zero Let_def split: option.splits)

text \<open>
  The search for an identifier finds exactly its free occurrences: an expression references
  \<^verbatim>\<open>complexity_tier\<close> when the name occurs in it outside the scope of a macro variable of the
  same name, so string literals and loop variables never start the complexity analysis.
\<close>

lemma references_iff_free:
  "celExpressionReferencesIdentifier parse expr i \<longleftrightarrow>
     expr \<noteq> [] \<and> i \<noteq> [] \<and> parse expr \<noteq> None \<and> i \<in> free_idents (the (parse expr))"
  by (auto simp: celExpressionReferencesIdentifier_def references_scoped split: option.splits)

subsection \<open>Lowering map keys\<close>

text \<open>
  The four patterns of the source, each as a function from a position (the rest of the text) to
  the length of the match there. Each pattern has at most one match at a position: a run of
  characters that are not quotes ends at the next quote.
\<close>

definition is_quote :: "char \<Rightarrow> bool" where
  "is_quote c \<longleftrightarrow> c = CHR ''\"'' \<or> c = CHR 0x27"

definition is_re_space :: "char \<Rightarrow> bool" where
  "is_re_space c = (let n = (of_char c :: nat) in n = 9 \<or> n = 10 \<or> n = 12 \<or> n = 13 \<or> n = 32)"

text \<open>A quoted key: its length with both quotes, when it is not empty.\<close>

definition match_quoted :: "string \<Rightarrow> nat option" where
  "match_quoted s =
     (case s of
        [] \<Rightarrow> None
      | q # rest \<Rightarrow>
          let run = takeWhile (\<lambda>c. \<not> is_quote c) rest in
          if is_quote q \<and> run \<noteq> [] \<and> length run < length rest then Some (length run + 2) else None)"

definition match_bracket :: "string \<Rightarrow> string \<Rightarrow> nat option" where
  "match_bracket name s =
     (let p = name @ ''['' in
      if has_prefix s p then
        (case match_quoted (drop (length p) s) of
           None \<Rightarrow> None
         | Some k \<Rightarrow> if has_prefix (drop (length p + k) s) '']'' then Some (length p + k + 1) else None)
      else None)"

definition match_in :: "string \<Rightarrow> string \<Rightarrow> nat option" where
  "match_in name s =
     (case match_quoted s of
        None \<Rightarrow> None
      | Some k \<Rightarrow>
          let s1 = drop k s; w1 = length (takeWhile is_re_space s1);
              s2 = drop w1 s1; w2 = length (takeWhile is_re_space (drop 2 s2));
              s3 = drop (2 + w2) s2
          in if 0 < w1 \<and> has_prefix s2 ''in'' \<and> 0 < w2 \<and> has_prefix s3 name
             then Some (k + w1 + 2 + w2 + length name) else None)"

text \<open>\<^verbatim>\<open>ReplaceAllStringFunc\<close> with lowering: leftmost matches, one after the other.\<close>

function lower_matches :: "(string \<Rightarrow> nat option) \<Rightarrow> string \<Rightarrow> string" where
  "lower_matches m [] = []"
| "lower_matches m (c # s) =
     (case m (c # s) of
        Some (Suc k) \<Rightarrow> str_lower (take (Suc k) (c # s)) @ lower_matches m (drop k s)
      | _ \<Rightarrow> c # lower_matches m s)"
  by pat_completeness auto
termination by (relation "measure (\<lambda>(m, s). length s)") auto

definition NormalizeMapKeysInCEL :: "string \<Rightarrow> string" where
  "NormalizeMapKeysInCEL expr =
     lower_matches (match_in ''params'') (lower_matches (match_in ''headers'')
       (lower_matches (match_bracket ''params'') (lower_matches (match_bracket ''headers'') expr)))"

subsection \<open>The format check\<close>

definition valid_patterns :: "string list" where
  "valid_patterns = [''=='', ''!='', ''&&'', ''||'', ''>'', ''<'', ''>='', ''<='', ''in '', ''matches '', ''.startsWith('',
     ''.contains('', ''.endsWith('', ''['', '']'', ''('', '')'', ''!'']"

definition ValidateCELExpression :: "string \<Rightarrow> bool" where
  "ValidateCELExpression expr =
     (let normalized = str_trim expr in
      normalized = [] \<or> normalized = ''true'' \<or> normalized = ''false'' \<or>
      (\<exists>p \<in> set valid_patterns. str_contains normalized p))"

lemma ascii_lower_comp: "ascii_lower \<circ> ascii_lower = ascii_lower"
  by (rule ext) simp

lemma lower_matches_lower:
  "str_lower (lower_matches m s) = str_lower s"
proof (induction m s rule: lower_matches.induct)
  case (2 m c s)
  show ?case
  proof (cases "m (c # s)")
    case (Some n)
    then show ?thesis
    proof (cases n)
      case (Suc k)
      have "str_lower (take (Suc k) (c # s)) @ str_lower (drop k s) = str_lower (c # s)"
        by (simp add: str_lower_def flip: map_append)
      with Suc Some 2 show ?thesis by (simp add: str_lower_def ascii_lower_comp)
    qed (use Some 2 in \<open>simp add: str_lower_def\<close>)
  qed (use 2 in \<open>simp add: str_lower_def\<close>)
qed simp

text \<open>
  Normalising a rule's expression changes nothing but the case of letters: the result has the
  length of the expression and equals it when case is ignored.
\<close>

lemma normalize_only_lowers:
  "equal_fold (NormalizeMapKeysInCEL expr) expr \<and> length (NormalizeMapKeysInCEL expr) = length expr"
proof
  show "equal_fold (NormalizeMapKeysInCEL expr) expr"
    by (simp add: equal_fold_def NormalizeMapKeysInCEL_def lower_matches_lower)
  then show "length (NormalizeMapKeysInCEL expr) = length expr"
    unfolding equal_fold_def by (metis length_str_lower)
qed

lemma normalize_example:
  "NormalizeMapKeysInCEL ''headers[\"X-Api\"] == \"A\" && \"Foo\" in headers'' = ''headers[\"x-api\"] == \"A\" && \"foo\" in headers''"
  by code_simp

end
