(* ===== verification/GovRouting.thy ===== *)
theory GovRouting
  imports CelRefs
begin

text \<open>
  Routing rules: their in-memory store with the cache of compiled programs and the usage
  percentages they may test (plugins/governance/store.go), and the engine that walks the scopes
  of a virtual key and follows chained rules (plugins/governance/routing.go).

  The CEL library is the record \<open>cel\<close>: the parser, the compiler of an expression, the
  program of a checked expression (with or without partial evaluation) and the evaluation of a
  program, with the tier of the request marked as unknown or not. A draw of the random source is
  an argument; a call of the engine uses at most one per step of the chain. Log lines are left
  out. Rules of equal priority keep their order in a sort, as Go's sort does for the
  short lists of a scope.
\<close>

subsection \<open>The rule store\<close>

definition rule_key :: "string \<Rightarrow> string \<Rightarrow> string" where
  "rule_key scope scopeID = (if scope = ''global'' then ''global:'' else scope @ '':'' @ scopeID)"

definition HasRoutingRules :: "gov_store \<Rightarrow> bool" where
  "HasRoutingRules st \<longleftrightarrow> st_routingRules st \<noteq> []"

text \<open>Priority first, then the newest rule first, as the comparison is written.\<close>

definition rule_before :: "routing_rule \<Rightarrow> routing_rule \<Rightarrow> bool" where
  "rule_before a b \<longleftrightarrow>
     (if rr_Priority a \<noteq> rr_Priority b then rr_Priority a < rr_Priority b else rr_CreatedAt b < rr_CreatedAt a)"

definition GetAllRoutingRules :: "gov_store \<Rightarrow> routing_rule list" where
  "GetAllRoutingRules st =
     sort_key rr_Priority (sort_key (\<lambda>r. - rr_CreatedAt r) (concat (map snd (st_routingRules st))))"

definition GetScopedRoutingRules :: "gov_store \<Rightarrow> string \<Rightarrow> string \<Rightarrow> routing_rule list" where
  "GetScopedRoutingRules st scope scopeID =
     (case sm_load (st_routingRules st) (rule_key scope scopeID) of
        None \<Rightarrow> []
      | Some rules \<Rightarrow> filter (\<lambda>r. EnabledValue (Some r)) rules)"

subsection \<open>Compiled programs\<close>

record routing_vars =
  rv_model :: string
  rv_provider :: string
  rv_request_type :: string
  rv_headers :: "string smap"
  rv_params :: "string smap"
  rv_virtual_key_id :: string
  rv_virtual_key_name :: string
  rv_team_id :: string
  rv_team_name :: string
  rv_customer_id :: string
  rv_customer_name :: string
  rv_budget_used :: float64
  rv_tokens_used :: float64
  rv_request :: float64
  rv_complexity_tier :: string

datatype cel_value = VBool bool | VUnknown | VOther

text \<open>An error of the evaluation, and whether its text contains "no such key".\<close>

datatype cel_outcome = Value cel_value | Fails bool

record 'p cel =
  cel_Parse :: "string \<Rightarrow> cel_expr option"
  cel_Compile :: "string \<Rightarrow> cel_expr option"
  cel_Program :: "bool \<Rightarrow> cel_expr \<Rightarrow> 'p option"
  cel_Eval :: "'p \<Rightarrow> routing_vars \<Rightarrow> bool \<Rightarrow> cel_outcome"

definition complexity_ident :: string where
  "complexity_ident = ''complexity_tier''"

text \<open>The compilation of a rule, the part of \<^verbatim>\<open>GetRoutingProgram\<close> behind the cache.\<close>

definition compile_rule :: "'p cel \<Rightarrow> routing_rule \<Rightarrow> 'p option" where
  "compile_rule cel rule =
     (let expr0 = (if rr_CelExpression rule = [] then ''true'' else rr_CelExpression rule);
          expr = NormalizeMapKeysInCEL expr0
      in if \<not> ValidateCELExpression expr then None
         else case cel_Compile cel expr of
             None \<Rightarrow> None
           | Some ast \<Rightarrow> cel_Program cel (celASTReferencesIdentifier ast complexity_ident) ast)"

definition GetRoutingProgram :: "'p cel \<Rightarrow> 'p smap \<Rightarrow> routing_rule option \<Rightarrow> 'p option \<times> 'p smap" where
  "GetRoutingProgram cel programs rule =
     (case rule of
        None \<Rightarrow> (None, programs)
      | Some r \<Rightarrow>
          (case sm_load programs (rr_ID r) of
             Some p \<Rightarrow> (Some p, programs)
           | None \<Rightarrow>
               (case compile_rule cel r of
                  None \<Rightarrow> (None, programs)
                | Some p \<Rightarrow> (Some p, sm_store (rr_ID r) p programs))))"

subsection \<open>Updating and deleting a rule\<close>

text \<open>The governance store with its cache of programs.\<close>

record 'p rule_state =
  rs_store :: gov_store
  rs_programs :: "'p smap"

definition remove_rule :: "string \<Rightarrow> routing_rule list smap \<Rightarrow> routing_rule list smap" where
  "remove_rule i m =
     concat (map (\<lambda>(key, rules).
        let kept = filter (\<lambda>r. rr_ID r \<noteq> i) rules in
        if length kept \<noteq> length rules then (if kept = [] then [] else [(key, kept)]) else [(key, rules)]) m)"

definition UpdateRoutingRuleInMemory :: "'p cel \<Rightarrow> 'p rule_state \<Rightarrow> routing_rule option \<Rightarrow> 'p rule_state" where
  "UpdateRoutingRuleInMemory cel s rule =
     (case rule of
        None \<Rightarrow> s
      | Some r \<Rightarrow>
          let m = remove_rule (rr_ID r) (st_routingRules (rs_store s));
              key = rule_key (rr_Scope r) (case rr_ScopeID r of None \<Rightarrow> [] | Some i \<Rightarrow> i);
              rules = (case sm_load m key of None \<Rightarrow> [] | Some l \<Rightarrow> l) @ [r];
              programs = sm_delete (rr_ID r) (rs_programs s)
          in \<lparr>rs_store = (rs_store s)\<lparr>st_routingRules := sm_store key (sort_rules rules) m\<rparr>,
              rs_programs = snd (GetRoutingProgram cel programs (Some r))\<rparr>)"

definition delete_rule :: "string \<Rightarrow> routing_rule list smap \<Rightarrow> routing_rule list smap" where
  "delete_rule i m =
     concat (map (\<lambda>(key, rules).
        let kept = filter (\<lambda>r. rr_ID r \<noteq> i) rules in if kept = [] then [] else [(key, kept)]) m)"

definition DeleteRoutingRuleInMemory :: "'p rule_state \<Rightarrow> string \<Rightarrow> 'p rule_state" where
  "DeleteRoutingRuleInMemory s i =
     \<lparr>rs_store = (rs_store s)\<lparr>st_routingRules := delete_rule i (st_routingRules (rs_store s))\<rparr>,
      rs_programs = sm_delete i (rs_programs s)\<rparr>"

subsection \<open>The usage percentages\<close>

record limit_status =
  ls_BudgetPercentUsed :: float64
  ls_RateLimitTokenPercentUsed :: float64
  ls_RateLimitRequestPercentUsed :: float64

text \<open>Each limit raises the maximum so far; limits without a positive maximum are passed over.\<close>

definition percent :: "float64 \<Rightarrow> float64 \<Rightarrow> float64" where
  "percent used limit = used / limit * 100"

definition raise_rate_limit ::
  "gov_store \<Rightarrow> int smap \<Rightarrow> int smap \<Rightarrow> string option \<Rightarrow> limit_status \<Rightarrow> limit_status" where
  "raise_rate_limit st tb rb limitID s =
     (case limitID of
        None \<Rightarrow> s
      | Some i \<Rightarrow>
          (case LoadRateLimit st i of
             None \<Rightarrow> s
           | Some r \<Rightarrow>
               let s1 = (case rl_TokenMaxLimit r of
                     None \<Rightarrow> s
                   | Some m \<Rightarrow>
                       if 0 < m then s\<lparr>ls_RateLimitTokenPercentUsed := max (ls_RateLimitTokenPercentUsed s)
                         (percent (of_int (wrap64 (rl_TokenCurrentUsage r + baseline_of tb (rl_ID r)))) (of_int m))\<rparr>
                       else s)
               in (case rl_RequestMaxLimit r of
                     None \<Rightarrow> s1
                   | Some m \<Rightarrow>
                       if 0 < m then s1\<lparr>ls_RateLimitRequestPercentUsed := max (ls_RateLimitRequestPercentUsed s1)
                         (percent (of_int (wrap64 (rl_RequestCurrentUsage r + baseline_of rb (rl_ID r)))) (of_int m))\<rparr>
                       else s1)))"

definition raise_budget :: "gov_store \<Rightarrow> float64 smap \<Rightarrow> string \<Rightarrow> limit_status \<Rightarrow> limit_status" where
  "raise_budget st bb i s =
     (case LoadBudget st i of
        None \<Rightarrow> s
      | Some b \<Rightarrow>
          if 0 < bg_MaxLimit b
          then s\<lparr>ls_BudgetPercentUsed := max (ls_BudgetPercentUsed s)
                 (percent (bg_CurrentUsage b + baseline_of bb (bg_ID b)) (bg_MaxLimit b))\<rparr>
          else s)"

definition applyModelConfig ::
  "gov_store \<Rightarrow> float64 smap \<Rightarrow> int smap \<Rightarrow> int smap \<Rightarrow> model_config \<Rightarrow> limit_status \<Rightarrow> limit_status" where
  "applyModelConfig st bb tb rb mc s =
     fold (\<lambda>b. raise_budget st bb (bg_ID b)) (mc_Budgets mc) (raise_rate_limit st tb rb (mc_RateLimitID mc) s)"

definition raise_provider ::
  "gov_store \<Rightarrow> float64 smap \<Rightarrow> int smap \<Rightarrow> int smap \<Rightarrow> string \<Rightarrow> limit_status \<Rightarrow> limit_status" where
  "raise_provider st bb tb rb provider s =
     (case sm_load (st_providers st) provider of
        None \<Rightarrow> s
      | Some p \<Rightarrow>
          let s1 = raise_rate_limit st tb rb (pr_RateLimitID p) s in
          case pr_BudgetID p of None \<Rightarrow> s1 | Some i \<Rightarrow> raise_budget st bb i s1)"

definition raise_provider_config ::
  "gov_store \<Rightarrow> float64 smap \<Rightarrow> int smap \<Rightarrow> int smap \<Rightarrow> string \<Rightarrow> virtual_key \<Rightarrow> limit_status \<Rightarrow> limit_status" where
  "raise_provider_config st bb tb rb provider vk s =
     (case find (\<lambda>pc. pc_Provider pc = provider) (vk_ProviderConfigs vk) of
        None \<Rightarrow> s
      | Some pc \<Rightarrow>
          fold (\<lambda>b. raise_budget st bb (bg_ID b)) (pc_Budgets pc)
            (raise_rate_limit st tb rb (map_option rl_ID (pc_RateLimit pc)) s))"

definition GetBudgetAndRateLimitStatus ::
  "gov_store \<Rightarrow> string \<Rightarrow> string \<Rightarrow> virtual_key option \<Rightarrow> float64 smap \<Rightarrow> int smap \<Rightarrow> int smap \<Rightarrow> limit_status" where
  "GetBudgetAndRateLimitStatus st model provider vk bb tb rb =
     (let s0 = \<lparr>ls_BudgetPercentUsed = 0, ls_RateLimitTokenPercentUsed = 0, ls_RateLimitRequestPercentUsed = 0\<rparr>;
          pp = provider_ptr provider;
          s1 = (if model \<noteq> [] then
                  fold (applyModelConfig st bb tb rb) (collectModelConfigsFor st ModelConfigScopeGlobal [] model pp) s0
                else s0);
          s2 = (case vk of
                  None \<Rightarrow> s1
                | Some v \<Rightarrow>
                    if model \<noteq> [] then
                      fold (\<lambda>(sc, i). fold (applyModelConfig st bb tb rb) (collectModelConfigsFor st sc i model pp))
                        (nonGlobalModelConfigScopeChain v) s1
                    else s1);
          s3 = raise_provider st bb tb rb provider s2
      in case vk of None \<Rightarrow> s3 | Some v \<Rightarrow> raise_provider_config st bb tb rb provider v s3)"

subsection \<open>The engine\<close>

record scope_level =
  sl_ScopeName :: string
  sl_ScopeID :: string

record routing_decision =
  rd_Provider :: string
  rd_Model :: string
  rd_KeyID :: string
  rd_Fallbacks :: "string list"
  rd_MatchedRuleID :: string
  rd_MatchedRuleName :: string

text \<open>
  \<open>rx_complexity\<close> is the lazy computation: none, one that gives no result, or one that gives a tier.
\<close>

record routing_context =
  rx_VirtualKey :: "virtual_key option"
  rx_Provider :: string
  rx_Model :: string
  rx_RequestType :: string
  rx_Headers :: "string smap"
  rx_QueryParams :: "string smap"
  rx_complexity :: "string option option"

text \<open>The random numbers one weighted choice may use: an index below a bound, and a number in [0, 1).\<close>

record draw =
  dr_IntN :: "nat \<Rightarrow> nat"
  dr_Float64 :: float64

definition fair_draw :: "draw \<Rightarrow> bool" where
  "fair_draw d \<longleftrightarrow> (\<forall>n. 0 < n \<longrightarrow> dr_IntN d n < n) \<and> 0 \<le> dr_Float64 d \<and> dr_Float64 d < 1"

fun pick_target :: "(float64 \<Rightarrow> float64 \<Rightarrow> bool) \<Rightarrow> ('a \<Rightarrow> float64) \<Rightarrow> float64 \<Rightarrow> float64 \<Rightarrow> 'a list \<Rightarrow> 'a option" where
  "pick_target below w r cumulative [] = None"
| "pick_target below w r cumulative (t # ts) =
     (if below r (cumulative + w t) then Some t else pick_target below w r (cumulative + w t) ts)"

definition selectWeightedTarget :: "draw \<Rightarrow> routing_target list \<Rightarrow> routing_target option" where
  "selectWeightedTarget d targets =
     (let valid = filter (\<lambda>t. 0 \<le> rt_Weight t) targets; total = sum_list (map rt_Weight valid) in
      if valid = [] then None
      else if total = 0 then Some (valid ! dr_IntN d (length valid))
      else if length valid = 1 then Some (valid ! 0)
      else case pick_target (<) rt_Weight (dr_Float64 d * total) 0 valid of
          Some t \<Rightarrow> Some t
        | None \<Rightarrow> Some (last valid))"

definition team_scope_id :: "virtual_key \<Rightarrow> string" where
  "team_scope_id vk =
     (case first_some id [nonempty_id (map_option tm_ID (vk_Team vk)), nonempty_id (vk_TeamID vk)] of
        None \<Rightarrow> [] | Some i \<Rightarrow> i)"

definition customer_scope_id :: "virtual_key \<Rightarrow> string" where
  "customer_scope_id vk =
     (case first_some id
        [nonempty_id (map_option cu_ID (vk_Customer vk)), nonempty_id (vk_CustomerID vk),
         nonempty_id (case vk_Team vk of None \<Rightarrow> None | Some t \<Rightarrow> map_option cu_ID (tm_Customer t)),
         nonempty_id (case vk_Team vk of None \<Rightarrow> None | Some t \<Rightarrow> tm_CustomerID t)] of
        None \<Rightarrow> [] | Some i \<Rightarrow> i)"

definition buildScopeChain :: "virtual_key option \<Rightarrow> scope_level list" where
  "buildScopeChain virtualKey =
     (case virtualKey of
        None \<Rightarrow> []
      | Some vk \<Rightarrow>
          [\<lparr>sl_ScopeName = ''virtual_key'', sl_ScopeID = vk_ID vk\<rparr>] @
          (if team_scope_id vk \<noteq> [] then [\<lparr>sl_ScopeName = ''team'', sl_ScopeID = team_scope_id vk\<rparr>] else []) @
          (if customer_scope_id vk \<noteq> []
           then [\<lparr>sl_ScopeName = ''customer'', sl_ScopeID = customer_scope_id vk\<rparr>] else [])) @
     [\<lparr>sl_ScopeName = ''global'', sl_ScopeID = []\<rparr>]"

text \<open>\<open>Inl\<close> is an error, whose text is left out.\<close>

definition evaluateCELExpression :: "'p cel \<Rightarrow> 'p \<Rightarrow> routing_vars \<Rightarrow> bool \<Rightarrow> unit + bool" where
  "evaluateCELExpression cel program variables tier_unknown =
     (case cel_Eval cel program variables tier_unknown of
        Fails no_such_key \<Rightarrow> if no_such_key then Inr False else Inl ()
      | Value VUnknown \<Rightarrow> Inr False
      | Value (VBool b) \<Rightarrow> Inr b
      | Value VOther \<Rightarrow> Inl ())"

definition lower_keys :: "string smap \<Rightarrow> string smap" where
  "lower_keys m = fold (\<lambda>(k, v). sm_store (str_lower k) v) m []"

definition customer_vars :: "virtual_key option \<Rightarrow> string \<times> string" where
  "customer_vars vk =
     (case vk of
        None \<Rightarrow> ([], [])
      | Some v \<Rightarrow>
          (case (case vk_Team v of None \<Rightarrow> None | Some t \<Rightarrow> tm_Customer t) of
             Some c \<Rightarrow> (cu_ID c, cu_Name c)
           | None \<Rightarrow> (case vk_Customer v of Some c \<Rightarrow> (cu_ID c, cu_Name c) | None \<Rightarrow> ([], []))))"

definition extractRoutingVariables ::
  "routing_context \<Rightarrow> string \<Rightarrow> string \<Rightarrow> limit_status \<Rightarrow> routing_vars" where
  "extractRoutingVariables rx provider model ls =
     (let vk = rx_VirtualKey rx; tm = (case vk of None \<Rightarrow> None | Some v \<Rightarrow> vk_Team v) in
      \<lparr>rv_model = model, rv_provider = provider, rv_request_type = rx_RequestType rx,
       rv_headers = lower_keys (rx_Headers rx), rv_params = lower_keys (rx_QueryParams rx),
       rv_virtual_key_id = (case vk of None \<Rightarrow> [] | Some v \<Rightarrow> vk_ID v),
       rv_virtual_key_name = (case vk of None \<Rightarrow> [] | Some v \<Rightarrow> vk_Name v),
       rv_team_id = (case tm of None \<Rightarrow> [] | Some t \<Rightarrow> tm_ID t),
       rv_team_name = (case tm of None \<Rightarrow> [] | Some t \<Rightarrow> tm_Name t),
       rv_customer_id = fst (customer_vars vk), rv_customer_name = snd (customer_vars vk),
       rv_budget_used = ls_BudgetPercentUsed ls, rv_tokens_used = ls_RateLimitTokenPercentUsed ls,
       rv_request = ls_RateLimitRequestPercentUsed ls, rv_complexity_tier = []\<rparr>)"

text \<open>
  The state of an evaluation that outlives a rule: the programs, the tier once computed, and the
  computation while it has not run.
\<close>

record 'p engine_state =
  es_programs :: "'p smap"
  es_tier :: "string option"
  es_pending :: "string option option"

definition references_complexity :: "'p cel \<Rightarrow> routing_rule \<Rightarrow> bool" where
  "references_complexity cel r = celExpressionReferencesIdentifier (cel_Parse cel) (rr_CelExpression r) complexity_ident"

definition compute_tier :: "'p cel \<Rightarrow> routing_rule \<Rightarrow> 'p engine_state \<Rightarrow> 'p engine_state" where
  "compute_tier cel r es =
     (case es_pending es of
        Some result \<Rightarrow>
          if es_tier es = None \<and> references_complexity cel r
          then es\<lparr>es_tier := result, es_pending := None\<rparr> else es
      | None \<Rightarrow> es)"

definition set_tier :: "string option \<Rightarrow> routing_vars \<Rightarrow> routing_vars" where
  "set_tier tier v = (case tier of None \<Rightarrow> v | Some t \<Rightarrow> v\<lparr>rv_complexity_tier := t\<rparr>)"

definition decision_for :: "string \<Rightarrow> string \<Rightarrow> routing_rule \<Rightarrow> routing_target \<Rightarrow> routing_decision" where
  "decision_for provider model r t =
     \<lparr>rd_Provider = (case nonempty_id (rt_Provider t) of None \<Rightarrow> provider | Some p \<Rightarrow> p),
      rd_Model = (case nonempty_id (rt_Model t) of None \<Rightarrow> model | Some m \<Rightarrow> m),
      rd_KeyID = (case rt_KeyID t of None \<Rightarrow> [] | Some k \<Rightarrow> k),
      rd_Fallbacks = rr_ParsedFallbacks r, rd_MatchedRuleID = rr_ID r, rd_MatchedRuleName = rr_Name r\<rparr>"

text \<open>
  One pass over the rules of all scopes, in order: \<open>vars\<close> are the variables without the tier,
  which is set in them as soon as it is known.
\<close>

fun eval_rules ::
  "'p cel \<Rightarrow> string list \<Rightarrow> draw \<Rightarrow> string \<Rightarrow> string \<Rightarrow> routing_vars \<Rightarrow> routing_rule list \<Rightarrow>
   'p engine_state \<Rightarrow> (routing_decision \<times> routing_rule) option \<times> 'p engine_state" where
  "eval_rules cel visited d provider model vars [] es = (None, es)"
| "eval_rules cel visited d provider model vars (r # rs) es =
     (if rr_ID r \<in> set visited then eval_rules cel visited d provider model vars rs es
      else
        let es1 = compute_tier cel r es; (program, programs) = GetRoutingProgram cel (es_programs es1) (Some r);
            es2 = es1\<lparr>es_programs := programs\<rparr>; next = eval_rules cel visited d provider model vars rs es2
        in case program of
             None \<Rightarrow> next
           | Some p \<Rightarrow>
               (case evaluateCELExpression cel p (set_tier (es_tier es2) vars)
                       (references_complexity cel r \<and> es_tier es2 = None) of
                  Inl _ \<Rightarrow> next
                | Inr matched \<Rightarrow>
                    if \<not> matched then next
                    else (case selectWeightedTarget d (rr_Targets r) of
                            None \<Rightarrow> next
                          | Some t \<Rightarrow> (Some (decision_for provider model r t, r), es2))))"

definition KeyGovernanceRoutingRuleID :: string where
  "KeyGovernanceRoutingRuleID = ''unifai-governance-routing-rule-id''"

definition KeyGovernanceRoutingRuleName :: string where
  "KeyGovernanceRoutingRuleName = ''unifai-governance-routing-rule-name''"

text \<open>The steps of the chain; \<open>depth\<close> is what is left of the maximum and \<open>draws\<close> the random
  numbers of the steps to come.\<close>

record chain_result =
  cr_decision :: "routing_decision option"
  cr_fired :: "string list"
  cr_ctx :: gov_ctx

fun chain_loop ::
  "'p cel \<Rightarrow> gov_store \<Rightarrow> routing_context \<Rightarrow> routing_rule list \<Rightarrow> nat \<Rightarrow> (nat \<Rightarrow> draw) \<Rightarrow> string list \<Rightarrow>
   string \<Rightarrow> string \<Rightarrow> routing_decision option \<Rightarrow> gov_ctx \<Rightarrow> 'p engine_state \<Rightarrow> chain_result \<times> 'p engine_state" where
  "chain_loop cel st rx rules 0 draws visited provider model final ctx es =
     (\<lparr>cr_decision = final, cr_fired = visited, cr_ctx = ctx\<rparr>, es)"
| "chain_loop cel st rx rules (Suc depth) draws visited provider model final ctx es =
     (let ls = GetBudgetAndRateLimitStatus st model provider (rx_VirtualKey rx) [] [] [];
          vars = extractRoutingVariables rx provider model ls
      in case eval_rules cel visited (draws 0) provider model vars rules es of
           (None, es1) \<Rightarrow> (\<lparr>cr_decision = final, cr_fired = visited, cr_ctx = ctx\<rparr>, es1)
         | (Some (dec, r), es1) \<Rightarrow>
             let ctx1 = CtxSetValue ctx KeyGovernanceRoutingRuleID (CStr (rd_MatchedRuleID dec));
                 ctx2 = CtxSetValue ctx1 KeyGovernanceRoutingRuleName (CStr (rd_MatchedRuleName dec))
             in if \<not> rr_ChainRule r then (\<lparr>cr_decision = Some dec, cr_fired = visited @ [rr_ID r], cr_ctx = ctx2\<rparr>, es1)
                else chain_loop cel st rx rules depth (\<lambda>k. draws (Suc k)) (visited @ [rr_ID r])
                       (rd_Provider dec) (rd_Model dec) (Some dec) ctx2 es1)"

definition scoped_rules :: "gov_store \<Rightarrow> virtual_key option \<Rightarrow> routing_rule list" where
  "scoped_rules st vk =
     concat (map (\<lambda>s. GetScopedRoutingRules st (sl_ScopeName s) (sl_ScopeID s)) (buildScopeChain vk))"

definition EvaluateRoutingRules ::
  "'p cel \<Rightarrow> int \<Rightarrow> (nat \<Rightarrow> draw) \<Rightarrow> 'p rule_state \<Rightarrow> gov_ctx \<Rightarrow> routing_context \<Rightarrow>
   routing_decision option \<times> gov_ctx \<times> 'p rule_state" where
  "EvaluateRoutingRules cel maxDepth draws s ctx rx =
     (let rules = scoped_rules (rs_store s) (rx_VirtualKey rx) in
      if rules = [] then (None, ctx, s)
      else case chain_loop cel (rs_store s) rx rules (nat maxDepth) draws [] (rx_Provider rx) (rx_Model rx) None ctx
                  \<lparr>es_programs = rs_programs s, es_tier = None, es_pending = rx_complexity rx\<rparr> of
        (res, es) \<Rightarrow> (cr_decision res, cr_ctx res, s\<lparr>rs_programs := es_programs es\<rparr>))"

end
