(* ===== verification/GovRoutingProps.thy ===== *)
theory GovRoutingProps
  imports GovRouting
begin

text \<open>
  What the routing rules promise: the engine with its cache and its lazy analysis computes the
  plain chain of first matches, the chain ends, a weighted choice follows the weights, and the
  rule store serves exactly the enabled rules of the last updates.
\<close>

subsection \<open>Well-formed rule stores\<close>

definition all_rules :: "gov_store \<Rightarrow> routing_rule list" where
  "all_rules st = concat (map snd (st_routingRules st))"

definition key_of_rule :: "routing_rule \<Rightarrow> string" where
  "key_of_rule r = rule_key (rr_Scope r) (case rr_ScopeID r of None \<Rightarrow> [] | Some i \<Rightarrow> i)"

definition rules_wf :: "gov_store \<Rightarrow> bool" where
  "rules_wf st \<longleftrightarrow> sm_wf (st_routingRules st) \<and> distinct (map rr_ID (all_rules st)) \<and>
     (\<forall>e \<in> set (st_routingRules st). sorted (map rr_Priority (snd e)) \<and> (\<forall>r \<in> set (snd e). key_of_rule r = fst e))"

definition programs_ok :: "'p cel \<Rightarrow> routing_rule list \<Rightarrow> 'p smap \<Rightarrow> bool" where
  "programs_ok cel rules programs \<longleftrightarrow>
     (\<forall>r \<in> set rules. \<forall>p. sm_load programs (rr_ID r) = Some p \<longrightarrow> compile_rule cel r = Some p)"

lemma GetRoutingProgram_ok:
  assumes "programs_ok cel rules programs" "r \<in> set rules" "inj_on rr_ID (set rules)"
  shows "fst (GetRoutingProgram cel programs (Some r)) = compile_rule cel r"
    "programs_ok cel rules (snd (GetRoutingProgram cel programs (Some r)))"
  using assms by (auto simp: GetRoutingProgram_def programs_ok_def inj_on_def split: option.splits)

subsection \<open>The plain chain\<close>

definition rule_holds :: "'p cel \<Rightarrow> string option \<Rightarrow> routing_vars \<Rightarrow> routing_rule \<Rightarrow> bool" where
  "rule_holds cel tier vars r =
     (case compile_rule cel r of
        None \<Rightarrow> False
      | Some p \<Rightarrow>
          if references_complexity cel r
          then evaluateCELExpression cel p (set_tier tier vars) (tier = None) = Inr True
          else evaluateCELExpression cel p vars False = Inr True)"

definition rule_applies :: "'p cel \<Rightarrow> string option \<Rightarrow> routing_vars \<Rightarrow> routing_rule \<Rightarrow> bool" where
  "rule_applies cel tier vars r \<longleftrightarrow> rule_holds cel tier vars r \<and> (\<exists>t \<in> set (rr_Targets r). 0 \<le> rt_Weight t)"

definition vars_at :: "gov_store \<Rightarrow> routing_context \<Rightarrow> string \<Rightarrow> string \<Rightarrow> routing_vars" where
  "vars_at st rx provider model =
     extractRoutingVariables rx provider model
       (GetBudgetAndRateLimitStatus st model provider (rx_VirtualKey rx) [] [] [])"

fun route_chain ::
  "'p cel \<Rightarrow> gov_store \<Rightarrow> routing_context \<Rightarrow> string option \<Rightarrow> routing_rule list \<Rightarrow> nat \<Rightarrow> (nat \<Rightarrow> draw) \<Rightarrow> string list \<Rightarrow>
   string \<Rightarrow> string \<Rightarrow> routing_decision list" where
  "route_chain cel st rx tier rules 0 draws visited provider model = []"
| "route_chain cel st rx tier rules (Suc depth) draws visited provider model =
     (case find (\<lambda>r. rr_ID r \<notin> set visited \<and> rule_applies cel tier (vars_at st rx provider model) r) rules of
        None \<Rightarrow> []
      | Some r \<Rightarrow>
          let dec = decision_for provider model r (the (selectWeightedTarget (draws 0) (rr_Targets r))) in
          dec # (if rr_ChainRule r
                 then route_chain cel st rx tier rules depth (\<lambda>k. draws (Suc k)) (visited @ [rr_ID r])
                        (rd_Provider dec) (rd_Model dec)
                 else []))"

text \<open>
  What the engine relies on in CEL: the value of a program does not depend on a variable that the
  expression does not reference.
\<close>

definition cel_frame :: "'p cel \<Rightarrow> bool" where
  "cel_frame cel \<longleftrightarrow>
     (\<forall>r p vars t. compile_rule cel r = Some p \<longrightarrow> \<not> references_complexity cel r \<longrightarrow>
        cel_Eval cel p (vars\<lparr>rv_complexity_tier := t\<rparr>) False = cel_Eval cel p vars False)"

definition tier_of :: "routing_context \<Rightarrow> string option" where
  "tier_of rx = (case rx_complexity rx of None \<Rightarrow> None | Some t \<Rightarrow> t)"

definition es_ok :: "'p cel \<Rightarrow> routing_rule list \<Rightarrow> string option \<Rightarrow> 'p engine_state \<Rightarrow> bool" where
  "es_ok cel rules tier es \<longleftrightarrow> programs_ok cel rules (es_programs es) \<and>
     (case es_pending es of None \<Rightarrow> es_tier es = tier | Some t \<Rightarrow> t = tier \<and> es_tier es = None)"

lemma es_ok_programs: "es_ok cel rules tier es \<Longrightarrow> programs_ok cel rules (es_programs es)"
  by (simp add: es_ok_def)

lemma es_ok_compute: "es_ok cel rules tier es \<Longrightarrow> es_ok cel rules tier (compute_tier cel r es)"
  by (auto simp: es_ok_def compute_tier_def split: option.splits)

lemma es_ok_tier:
  "es_ok cel rules tier es \<Longrightarrow> references_complexity cel r \<Longrightarrow> es_tier (compute_tier cel r es) = tier"
  by (auto simp: es_ok_def compute_tier_def split: option.splits)

lemma es_ok_put: "es_ok cel rules tier es \<Longrightarrow> programs_ok cel rules ps \<Longrightarrow> es_ok cel rules tier (es\<lparr>es_programs := ps\<rparr>)"
  by (auto simp: es_ok_def split: option.splits)

lemma frame_eval:
  "cel_frame cel \<Longrightarrow> compile_rule cel r = Some p \<Longrightarrow> \<not> references_complexity cel r \<Longrightarrow>
     evaluateCELExpression cel p (set_tier t vars) False = evaluateCELExpression cel p vars False"
  by (simp add: evaluateCELExpression_def cel_frame_def set_tier_def split: option.split)

lemma selectWeightedTarget_None:
  "selectWeightedTarget d ts = None \<longleftrightarrow> \<not> (\<exists>t \<in> set ts. 0 \<le> rt_Weight t)"
  by (auto simp: selectWeightedTarget_def Let_def filter_empty_conv split: option.split)

text \<open>One rule, with its program in place of the cache.\<close>

lemma rule_step:
  assumes "es_ok cel rules tier es" "r \<in> set rules" "inj_on rr_ID (set rules)" "cel_frame cel"
  obtains es2 where "es_ok cel rules tier es2"
    "\<And>vs d p m vars rs. rr_ID r \<notin> set vs \<Longrightarrow> eval_rules cel vs d p m vars (r # rs) es =
       (if rule_applies cel tier vars r
        then (Some (decision_for p m r (the (selectWeightedTarget d (rr_Targets r))), r), es2)
        else eval_rules cel vs d p m vars rs es2)"
proof -
  let ?es1 = "compute_tier cel r es"
  let ?g = "GetRoutingProgram cel (es_programs ?es1) (Some r)"
  let ?es2 = "?es1\<lparr>es_programs := snd ?g\<rparr>"
  have 1: "es_ok cel rules tier ?es1" by (rule es_ok_compute [OF assms(1)])
  note g = GetRoutingProgram_ok [OF es_ok_programs [OF 1] assms(2,3)]
  have 2: "es_ok cel rules tier ?es2" by (rule es_ok_put [OF 1 g(2)])
  have h: "rule_holds cel tier vars r \<longleftrightarrow> (\<exists>p. compile_rule cel r = Some p \<and>
      evaluateCELExpression cel p (set_tier (es_tier ?es1) vars)
        (references_complexity cel r \<and> es_tier ?es1 = None) = Inr True)" for vars
  proof (cases "references_complexity cel r")
    case True
    then show ?thesis by (simp add: rule_holds_def es_ok_tier [OF assms(1)] split: option.split)
  next
    case False
    then show ?thesis by (auto simp: rule_holds_def frame_eval [OF assms(4)] split: option.split)
  qed
  have "eval_rules cel vs d p m vars (r # rs) es =
       (if rule_applies cel tier vars r
        then (Some (decision_for p m r (the (selectWeightedTarget d (rr_Targets r))), r), ?es2)
        else eval_rules cel vs d p m vars rs ?es2)" if "rr_ID r \<notin> set vs" for vs d p m vars rs
    using that g(1) h [of vars] selectWeightedTarget_None [of d "rr_Targets r"]
    by (auto simp: Let_def rule_applies_def prod.case_eq_if split: option.splits sum.splits)
  with 2 show thesis by (rule that)
qed

lemma eval_rules_find:
  assumes "inj_on rr_ID (set rules)" "cel_frame cel"
  shows "es_ok cel rules tier es \<Longrightarrow> set rs \<subseteq> set rules \<Longrightarrow>
    (\<exists>es2. es_ok cel rules tier es2 \<and> eval_rules cel vs d p m vars rs es =
      (map_option (\<lambda>r. (decision_for p m r (the (selectWeightedTarget d (rr_Targets r))), r))
         (find (\<lambda>r. rr_ID r \<notin> set vs \<and> rule_applies cel tier vars r) rs), es2))"
proof (induction rs arbitrary: es)
  case (Cons r rs)
  show ?case
  proof (cases "rr_ID r \<in> set vs")
    case True
    then show ?thesis using Cons by simp
  next
    case False
    obtain es2 where ok: "es_ok cel rules tier es2" and step: "eval_rules cel vs d p m vars (r # rs) es =
       (if rule_applies cel tier vars r
        then (Some (decision_for p m r (the (selectWeightedTarget d (rr_Targets r))), r), es2)
        else eval_rules cel vs d p m vars rs es2)"
      using rule_step [OF Cons.prems(1) _ assms, of r] Cons.prems(2) False by (metis list.set_intros(1) subsetD)
    show ?thesis unfolding step using Cons.IH [OF ok] Cons.prems(2) False ok by auto
  qed
qed auto

lemma chain_loop_route:
  assumes "inj_on rr_ID (set U)" "cel_frame cel" "set rules \<subseteq> set U"
  shows "es_ok cel U tier es \<Longrightarrow> chain_loop cel st rx rules depth draws vs p m final ctx es = (res, es') \<Longrightarrow>
    es_ok cel U tier es' \<and>
    cr_decision res = (let ds = route_chain cel st rx tier rules depth draws vs p m in
      if ds = [] then final else Some (last ds))"
proof (induction depth arbitrary: draws vs p m final ctx es)
  case 0
  then show ?case by auto
next
  case (Suc depth)
  let ?f = "\<lambda>r. rr_ID r \<notin> set vs \<and> rule_applies cel tier (vars_at st rx p m) r"
  obtain es2 where ok: "es_ok cel U tier es2" and ev: "eval_rules cel vs (draws 0) p m (vars_at st rx p m) rules es =
      (map_option (\<lambda>r. (decision_for p m r (the (selectWeightedTarget (draws 0) (rr_Targets r))), r)) (find ?f rules), es2)"
    using eval_rules_find [OF assms(1,2) Suc.prems(1) assms(3)] by blast
  note ev' = ev [unfolded vars_at_def]
  show ?case
  proof (cases "find ?f rules")
    case None
    with ev' ok Suc.prems show ?thesis by (auto simp: vars_at_def Let_def)
  next
    case (Some r)
    let ?dec = "decision_for p m r (the (selectWeightedTarget (draws 0) (rr_Targets r)))"
    show ?thesis
    proof (cases "rr_ChainRule r")
      case True
      then obtain c where "chain_loop cel st rx rules depth (\<lambda>k. draws (Suc k)) (vs @ [rr_ID r])
          (rd_Provider ?dec) (rd_Model ?dec) (Some ?dec) c es2 = (res, es')"
        using Suc.prems(2) ev' Some by (simp add: vars_at_def Let_def)
      from Suc.IH [OF ok this] True Some show ?thesis by (simp add: Let_def)
    next
      case False
      with ev' ok Some Suc.prems show ?thesis by (auto simp: vars_at_def Let_def)
    qed
  qed
qed

lemma scoped_in_all:
  assumes "r \<in> set (GetScopedRoutingRules st scope scopeID)"
  shows "r \<in> set (all_rules st)"
proof -
  from assms obtain l where "sm_load (st_routingRules st) (rule_key scope scopeID) = Some l" "r \<in> set l"
    by (cases "sm_load (st_routingRules st) (rule_key scope scopeID)") (auto simp: GetScopedRoutingRules_def)
  then show ?thesis by (force simp: all_rules_def dest: sm_load_SomeD)
qed

lemma scoped_rules_subset: "set (scoped_rules st vk) \<subseteq> set (all_rules st)"
  by (auto simp: scoped_rules_def scoped_in_all)

lemma rules_wf_inj: "rules_wf st \<Longrightarrow> inj_on rr_ID (set (all_rules st))"
  by (simp add: rules_wf_def distinct_map)

definition chain_answer :: "routing_decision list \<Rightarrow> routing_decision option" where
  "chain_answer ds = (if ds = [] then None else Some (last ds))"

definition planned_chain ::
  "'p cel \<Rightarrow> int \<Rightarrow> (nat \<Rightarrow> draw) \<Rightarrow> gov_store \<Rightarrow> routing_context \<Rightarrow> routing_decision list" where
  "planned_chain cel maxDepth draws st rx =
     route_chain cel st rx (tier_of rx) (scoped_rules st (rx_VirtualKey rx)) (nat maxDepth) draws []
       (rx_Provider rx) (rx_Model rx)"

lemma route_chain_Nil [simp]: "route_chain cel st rx tier [] depth draws vs p m = []"
  by (cases depth) simp_all

lemma engine_runs_chain:
  assumes "rules_wf (rs_store s)" "programs_ok cel (all_rules (rs_store s)) (rs_programs s)" "cel_frame cel"
    "EvaluateRoutingRules cel maxDepth draws s ctx rx = (dec, ctx', s')"
  shows "dec = chain_answer (planned_chain cel maxDepth draws (rs_store s) rx) \<and> rs_store s' = rs_store s \<and>
    programs_ok cel (all_rules (rs_store s')) (rs_programs s')"
proof (cases "scoped_rules (rs_store s) (rx_VirtualKey rx) = []")
  case True
  then show ?thesis using assms(2,4) by (auto simp: EvaluateRoutingRules_def planned_chain_def chain_answer_def)
next
  case False
  let ?es = "\<lparr>es_programs = rs_programs s, es_tier = None, es_pending = rx_complexity rx\<rparr>"
  obtain res es' where run: "chain_loop cel (rs_store s) rx (scoped_rules (rs_store s) (rx_VirtualKey rx)) (nat maxDepth)
      draws [] (rx_Provider rx) (rx_Model rx) None ctx ?es = (res, es')" by fastforce
  have "es_ok cel (all_rules (rs_store s)) (tier_of rx) ?es"
    using assms(2) by (simp add: es_ok_def tier_of_def split: option.split)
  note r = chain_loop_route [OF rules_wf_inj [OF assms(1)] assms(3) scoped_rules_subset this run]
  have "dec = cr_decision res" "s' = s\<lparr>rs_programs := es_programs es'\<rparr>"
    using assms(4) run False by (simp_all add: EvaluateRoutingRules_def Let_def)
  with r es_ok_programs [OF conjunct1 [OF r]] show ?thesis
    by (simp add: planned_chain_def chain_answer_def Let_def)
qed

text \<open>
  C11. The engine computes the plain chain of first matches: with the cache of compiled programs
  and the lazily computed tier, its decision is the last element of the chain in which each step
  takes the first rule, in the order of scopes and priorities, that has not fired, holds for the
  provider and model reached so far and has a target; the rules stay as they are and the cache
  stays coherent. A rule that needs the tier of a request without one does not hold.
\<close>

theorem routing_engine_refines_chain:
  assumes "rules_wf (rs_store s)" "programs_ok cel (all_rules (rs_store s)) (rs_programs s)" "cel_frame cel"
    "EvaluateRoutingRules cel maxDepth draws s ctx rx = (dec, ctx', s')"
  shows "dec = chain_answer (planned_chain cel maxDepth draws (rs_store s) rx) \<and> rs_store s' = rs_store s \<and>
    programs_ok cel (all_rules (rs_store s')) (rs_programs s')"
  by (rule engine_runs_chain [OF assms])

subsection \<open>The chain ends\<close>

lemma eval_rules_Some:
  "eval_rules cel vs d p m vars rs es = (Some (dec, r), es') \<Longrightarrow> r \<in> set rs \<and> rr_ID r \<notin> set vs"
  by (induction cel vs d p m vars rs es rule: eval_rules.induct)
    (auto simp: Let_def split: if_splits prod.splits option.splits sum.splits)

text \<open>
  C33. No rule fires twice in a chain, whatever the rules refer to: the fired identifiers are
  pairwise different, belong to rules in scope, and are at most as many as the maximum depth, so a
  cycle of chained rules cannot keep the engine busy.
\<close>

theorem rules_fire_once:
  "distinct (cr_fired (fst (chain_loop cel st rx rules depth draws [] p m final ctx es))) \<and>
   set (cr_fired (fst (chain_loop cel st rx rules depth draws [] p m final ctx es))) \<subseteq> rr_ID ` set rules \<and>
   length (cr_fired (fst (chain_loop cel st rx rules depth draws [] p m final ctx es))) \<le> depth"
proof -
  let ?fired = "\<lambda>depth draws vs p m final ctx es. cr_fired (fst (chain_loop cel st rx rules depth draws vs p m final ctx es))"
  have "distinct (?fired depth draws vs p m final ctx es) \<and> set (?fired depth draws vs p m final ctx es) \<subseteq> rr_ID ` set rules \<and>
      length (?fired depth draws vs p m final ctx es) \<le> length vs + depth"
    if "distinct vs" "set vs \<subseteq> rr_ID ` set rules" for vs
    using that
  proof (induction depth arbitrary: draws vs p m final ctx es)
    case (Suc depth)
    show ?case
    proof (cases "eval_rules cel vs (draws 0) p m (extractRoutingVariables rx p m
        (GetBudgetAndRateLimitStatus st m p (rx_VirtualKey rx) [] [] [])) rules es")
      case (Pair hit es1)
      show ?thesis
      proof (cases hit)
        case None
        then show ?thesis using Pair Suc.prems by (simp add: Let_def)
      next
        case (Some dr)
        then obtain dec r where hit: "hit = Some (dec, r)" by (cases dr) simp
        note m = eval_rules_Some [OF Pair [unfolded hit]]
        have vs: "distinct (vs @ [rr_ID r])" "set (vs @ [rr_ID r]) \<subseteq> rr_ID ` set rules" using m Suc.prems by auto
        show ?thesis
          using Suc.IH [OF vs, of "\<lambda>k. draws (Suc k)" "rd_Provider dec" "rd_Model dec" "Some dec"] vs Pair hit
          by (cases "rr_ChainRule r") (simp_all add: Let_def)
      qed
    qed
  qed simp
  from this [of "[]"] show ?thesis by simp
qed

lemma route_chain_depth:
  "card (rr_ID ` set rules - set vs) \<le> d \<Longrightarrow> card (rr_ID ` set rules - set vs) \<le> d' \<Longrightarrow>
     route_chain cel st rx tier rules d draws vs p m = route_chain cel st rx tier rules d' draws vs p m"
proof (induction d arbitrary: d' draws vs p m)
  case 0
  then have "find (\<lambda>r. rr_ID r \<notin> set vs \<and> rule_applies cel tier (vars_at st rx p m) r) rules = None"
    by (auto simp: find_None_iff)
  then show ?case by (cases d') simp_all
next
  case (Suc d)
  let ?f = "\<lambda>r. rr_ID r \<notin> set vs \<and> rule_applies cel tier (vars_at st rx p m) r"
  show ?case
  proof (cases "find ?f rules")
    case None
    then show ?thesis by (cases d') simp_all
  next
    case (Some r)
    then have r: "rr_ID r \<in> rr_ID ` set rules - set vs" by (auto dest!: find_SomeD)
    have "rr_ID ` set rules - set (vs @ [rr_ID r]) = (rr_ID ` set rules - set vs) - {rr_ID r}" by auto
    then have c: "card (rr_ID ` set rules - set (vs @ [rr_ID r])) = card (rr_ID ` set rules - set vs) - 1"
      using r by (simp add: card_Diff_singleton)
    have "card (rr_ID ` set rules - set vs) \<noteq> 0" using r by auto
    then obtain e where d': "d' = Suc e" using Suc.prems(2) by (cases d') auto
    have "card (rr_ID ` set rules - set (vs @ [rr_ID r])) \<le> d" "card (rr_ID ` set rules - set (vs @ [rr_ID r])) \<le> e"
      using c Suc.prems d' by auto
    from Suc.IH [OF this] show ?thesis using Some d' by (simp add: Let_def)
  qed
qed

text \<open>
  The depth limit never cuts a chain short when it is at least the number of rules in scope:
  any two such limits give the same decision. So the loop also ends without the limit.
\<close>

lemma depth_limit_is_slack:
  assumes "rules_wf (rs_store s)" "programs_ok cel (all_rules (rs_store s)) (rs_programs s)" "cel_frame cel"
    "int (length (scoped_rules (rs_store s) (rx_VirtualKey rx))) \<le> d"
    "int (length (scoped_rules (rs_store s) (rx_VirtualKey rx))) \<le> d'"
  shows "fst (EvaluateRoutingRules cel d draws s ctx rx) = fst (EvaluateRoutingRules cel d' draws s ctx rx)"
proof -
  let ?rules = "scoped_rules (rs_store s) (rx_VirtualKey rx)"
  have "card (rr_ID ` set ?rules - set []) \<le> length ?rules"
    by (metis card_length image_set length_map Diff_empty list.set(1))
  then have "planned_chain cel d draws (rs_store s) rx = planned_chain cel d' draws (rs_store s) rx"
    unfolding planned_chain_def using assms(4,5) by (intro route_chain_depth) auto
  then show ?thesis
    using engine_runs_chain [OF assms(1-3)] by (metis prod.exhaust_sel)
qed

subsection \<open>Weighted targets\<close>

lemma pick_target_interval:
  assumes "\<forall>x \<in> set xs. 0 \<le> w x"
  shows "c \<le> r \<Longrightarrow> r < c + sum_list (map w xs) \<Longrightarrow>
    \<exists>i < length xs. pick_target (<) w r c xs = Some (xs ! i) \<and>
      c + sum_list (map w (take i xs)) \<le> r \<and> r < c + sum_list (map w (take (Suc i) xs))"
  using assms
proof (induction xs arbitrary: c)
  case (Cons x xs)
  show ?case
  proof (cases "r < c + w x")
    case True
    then show ?thesis using Cons.prems by (intro exI [of _ 0]) simp
  next
    case False
    then obtain i where "i < length xs" "pick_target (<) w r (c + w x) xs = Some (xs ! i)"
      "c + w x + sum_list (map w (take i xs)) \<le> r" "r < c + w x + sum_list (map w (take (Suc i) xs))"
      using Cons.IH [of "c + w x"] Cons.prems by (auto simp: algebra_simps)
    with False show ?thesis by (intro exI [of _ "Suc i"]) (auto simp: algebra_simps)
  qed
qed simp

text \<open>
  A weighted choice follows the weights: when some weight is positive, the choice is the
  target whose interval contains the draw, the intervals of the targets with a valid weight lying
  end to end in their order with lengths proportional to the weights. So a target of weight
  zero is never chosen beside a positive one, and each is chosen with its share.
\<close>

lemma weighted_choice:
  assumes "fair_draw d" "valid = filter (\<lambda>t. 0 \<le> rt_Weight t) targets" "0 < sum_list (map rt_Weight valid)"
  shows "\<exists>i < length valid. selectWeightedTarget d targets = Some (valid ! i) \<and>
    sum_list (map rt_Weight (take i valid)) \<le> dr_Float64 d * sum_list (map rt_Weight valid) \<and>
    dr_Float64 d * sum_list (map rt_Weight valid) < sum_list (map rt_Weight (take (Suc i) valid))"
proof -
  let ?total = "sum_list (map rt_Weight valid)"
  let ?r = "dr_Float64 d * ?total"
  have r: "0 \<le> ?r" "?r < ?total" using assms(1,3) by (simp_all add: fair_draw_def)
  obtain i where i: "i < length valid" "pick_target (<) rt_Weight ?r 0 valid = Some (valid ! i)"
    "sum_list (map rt_Weight (take i valid)) \<le> ?r" "?r < sum_list (map rt_Weight (take (Suc i) valid))"
    using pick_target_interval [of valid rt_Weight 0 ?r] r assms(2) by auto
  have "selectWeightedTarget d targets = Some (valid ! i)"
  proof (cases "length valid = 1")
    case True
    then show ?thesis using assms(2,3) i(1) by (auto simp: selectWeightedTarget_def Let_def)
  next
    case False
    then show ?thesis using assms(2,3) i by (auto simp: selectWeightedTarget_def Let_def)
  qed
  with i show ?thesis by blast
qed

subsection \<open>Concrete rules\<close>

text \<open>A CEL library that knows three expressions; the one on the tier only asks whether there is a tier.\<close>

definition tiny_expr :: "string \<Rightarrow> cel_expr option" where
  "tiny_expr e =
     (if e = ''true'' then Some EOther
      else if e = ''provider == openai'' then Some (ECall (Some (EIdent ''provider'')) [])
      else if e = ''complexity_tier != none'' then Some (ECall (Some (EIdent complexity_ident)) [])
      else None)"

definition tiny_eval :: "cel_expr \<Rightarrow> routing_vars \<Rightarrow> bool \<Rightarrow> cel_outcome" where
  "tiny_eval p v tier_unknown =
     (if p = EOther then Value (VBool True)
      else if p = ECall (Some (EIdent ''provider'')) [] then Value (VBool (rv_provider v = ''openai''))
      else if tier_unknown then Value VUnknown else Value (VBool True))"

definition tiny_cel :: "cel_expr cel" where
  "tiny_cel = \<lparr>cel_Parse = tiny_expr, cel_Compile = tiny_expr, cel_Program = (\<lambda>_ e. Some e), cel_Eval = tiny_eval\<rparr>"

lemma tiny_frame: "cel_frame tiny_cel"
  by (simp add: cel_frame_def tiny_cel_def tiny_eval_def)

definition to_azure :: routing_rule where
  "to_azure = \<lparr>rr_ID = ''r1'', rr_Name = ''azure'', rr_Enabled = None, rr_CelExpression = ''provider == openai'',
     rr_Targets = [\<lparr>rt_Provider = Some ''azure'', rt_Model = None, rt_KeyID = None, rt_Weight = 1\<rparr>],
     rr_ParsedFallbacks = [], rr_Scope = ''virtual_key'', rr_ScopeID = Some ''vk1'', rr_ChainRule = True,
     rr_Priority = 1, rr_CreatedAt = 0\<rparr>"

definition to_mini :: routing_rule where
  "to_mini = to_azure\<lparr>rr_ID := ''r2'', rr_Name := ''mini'', rr_CelExpression := [],
     rr_Targets := [\<lparr>rt_Provider = None, rt_Model = Some ''mini'', rt_KeyID = None, rt_Weight = 0\<rparr>],
     rr_Scope := ''global'', rr_ScopeID := None, rr_ChainRule := True\<rparr>"

definition rule_store :: "cel_expr rule_state" where
  "rule_store =
     fold (\<lambda>r s. UpdateRoutingRuleInMemory tiny_cel s (Some r)) [to_mini, to_azure]
       \<lparr>rs_store = sample_store, rs_programs = []\<rparr>"

definition chat_context :: routing_context where
  "chat_context = \<lparr>rx_VirtualKey = Some sample_vk, rx_Provider = ''openai'', rx_Model = ''gpt'',
     rx_RequestType = ''chat_completion'', rx_Headers = [], rx_QueryParams = [], rx_complexity = None\<rparr>"

definition first_draws :: "nat \<Rightarrow> draw" where
  "first_draws = (\<lambda>_. \<lparr>dr_IntN = (\<lambda>_. 0), dr_Float64 = 0\<rparr>)"

lemma rule_store_facts:
  "rules_wf (rs_store rule_store)"
  "programs_ok tiny_cel (all_rules (rs_store rule_store)) (rs_programs rule_store)"
  "length (scoped_rules (rs_store rule_store) (rx_VirtualKey chat_context)) = 2"
proof -
  show "rules_wf (rs_store rule_store)" by code_simp
  show "length (scoped_rules (rs_store rule_store) (rx_VirtualKey chat_context)) = 2" by code_simp
  have "all_rules (rs_store rule_store) = [to_mini, to_azure] \<and> rs_programs rule_store =
      [(''r2'', EOther), (''r1'', ECall (Some (EIdent ''provider'')) [])] \<and>
      compile_rule tiny_cel to_mini = Some EOther \<and>
      compile_rule tiny_cel to_azure = Some (ECall (Some (EIdent ''provider'')) [])" by code_simp
  then show "programs_ok tiny_cel (all_rules (rs_store rule_store)) (rs_programs rule_store)"
    by (simp add: programs_ok_def sm_load_def to_mini_def to_azure_def)
qed

theorem routing_engine_refines_chain_witness:
  "\<exists>ctx' s'. EvaluateRoutingRules tiny_cel 10 first_draws rule_store [] chat_context =
     (chain_answer (planned_chain tiny_cel 10 first_draws (rs_store rule_store) chat_context), ctx', s') \<and>
   map rd_MatchedRuleID (planned_chain tiny_cel 10 first_draws (rs_store rule_store) chat_context) = [''r1'', ''r2'']"
proof -
  obtain dec ctx' s' where run: "EvaluateRoutingRules tiny_cel 10 first_draws rule_store [] chat_context = (dec, ctx', s')"
    using prod_cases3 by blast
  have "map rd_MatchedRuleID (planned_chain tiny_cel 10 first_draws (rs_store rule_store) chat_context) = [''r1'', ''r2'']"
    by code_simp
  with run routing_engine_refines_chain [OF rule_store_facts(1,2) tiny_frame run] show ?thesis by auto
qed

lemma depth_limit_is_slack_witness:
  "fst (EvaluateRoutingRules tiny_cel 2 first_draws rule_store [] chat_context) =
   fst (EvaluateRoutingRules tiny_cel 10 first_draws rule_store [] chat_context)"
  by (rule depth_limit_is_slack [OF rule_store_facts(1,2) tiny_frame]) (simp_all add: rule_store_facts(3))

lemma weighted_choice_witness:
  "selectWeightedTarget \<lparr>dr_IntN = (\<lambda>_. 0), dr_Float64 = 1 / 2\<rparr>
     [\<lparr>rt_Provider = Some ''a'', rt_Model = None, rt_KeyID = None, rt_Weight = 0\<rparr>,
      \<lparr>rt_Provider = Some ''b'', rt_Model = None, rt_KeyID = None, rt_Weight = 3\<rparr>] =
   Some \<lparr>rt_Provider = Some ''b'', rt_Model = None, rt_KeyID = None, rt_Weight = 3\<rparr>"
  (is "selectWeightedTarget ?d ?ts = Some ?b")
proof -
  have d: "fair_draw ?d" by (simp add: fair_draw_def)
  have v: "?ts = filter (\<lambda>t. 0 \<le> rt_Weight t) ?ts" by simp
  have p: "0 < sum_list (map rt_Weight ?ts)" by simp
  from weighted_choice [OF d v p] obtain i where i: "i < length ?ts" "selectWeightedTarget ?d ?ts = Some (?ts ! i)"
    "dr_Float64 ?d * sum_list (map rt_Weight ?ts) < sum_list (map rt_Weight (take (Suc i) ?ts))" by (elim exE conjE)
  from i(1) have "i = 0 \<or> i = 1" by (simp add: less_Suc_eq)
  then show ?thesis
  proof
    assume "i = 0"
    with i(3) show ?thesis by simp
  next
    assume "i = 1"
    with i(2) show ?thesis by simp
  qed
qed

end
