(* ===== verification/GovRuleStore.thy ===== *)
theory GovRuleStore
  imports GovRoutingProps
begin

text \<open>
  The contract of the rule store towards the engine, as a locale: what is served after an update
  and after a delete, and an invariant that both keep. It is interpreted on the in-memory store
  with its cache, and gives the rules served after any sequence of operations.
\<close>

subsection \<open>The rules of a store as one list\<close>

lemma remove_rule_all: "concat (map snd (remove_rule i m)) = filter (\<lambda>r. rr_ID r \<noteq> i) (concat (map snd m))"
proof (induction m)
  case (Cons e m)
  obtain k rs where e: "e = (k, rs)" by (cases e)
  have "length (filter (\<lambda>r. rr_ID r \<noteq> i) rs) = length rs \<Longrightarrow> filter (\<lambda>r. rr_ID r \<noteq> i) rs = rs"
    by (metis filter_True length_filter_less less_irrefl)
  with Cons e show ?case by (auto simp: remove_rule_def Let_def)
qed (simp add: remove_rule_def)

lemma delete_rule_all: "concat (map snd (delete_rule i m)) = filter (\<lambda>r. rr_ID r \<noteq> i) (concat (map snd m))"
  by (induction m) (auto simp: delete_rule_def Let_def)

lemma remove_rule_entries:
  "(k, l) \<in> set (remove_rule i m) \<Longrightarrow> \<exists>rs. (k, rs) \<in> set m \<and> l = filter (\<lambda>r. rr_ID r \<noteq> i) rs"
  by (auto simp: remove_rule_def Let_def split: if_splits)
    (metis filter_True length_filter_less less_irrefl)

lemma delete_rule_entries:
  "(k, l) \<in> set (delete_rule i m) \<Longrightarrow> \<exists>rs. (k, rs) \<in> set m \<and> l = filter (\<lambda>r. rr_ID r \<noteq> i) rs"
  by (auto simp: delete_rule_def Let_def split: if_splits)

lemma removed_keys:
  "sm_wf m \<Longrightarrow> sm_wf (remove_rule i m)" "sm_wf m \<Longrightarrow> sm_wf (delete_rule i m)"
proof -
  have 1: "fst ` set (remove_rule i m) \<subseteq> fst ` set m" "fst ` set (delete_rule i m) \<subseteq> fst ` set m" for m
    by (force dest: remove_rule_entries delete_rule_entries)+
  show "sm_wf m \<Longrightarrow> sm_wf (remove_rule i m)"
  proof (induction m)
    case (Cons e m)
    have "remove_rule i (e # m) = remove_rule i [e] @ remove_rule i m" by (simp add: remove_rule_def)
    moreover have "map fst (remove_rule i [e]) = [] \<or> map fst (remove_rule i [e]) = [fst e]"
      by (cases e) (auto simp: remove_rule_def Let_def)
    moreover have "fst e \<notin> set (map fst (remove_rule i m))" using Cons.prems 1(1) [of m] by (auto simp: sm_wf_def)
    moreover have "distinct (map fst (remove_rule i m))" using Cons by (simp add: sm_wf_def)
    ultimately show ?case by (auto simp: sm_wf_def simp del: set_map)
  qed (simp add: remove_rule_def)
  show "sm_wf m \<Longrightarrow> sm_wf (delete_rule i m)"
  proof (induction m)
    case (Cons e m)
    have "delete_rule i (e # m) = delete_rule i [e] @ delete_rule i m" by (simp add: delete_rule_def)
    moreover have "map fst (delete_rule i [e]) = [] \<or> map fst (delete_rule i [e]) = [fst e]"
      by (cases e) (auto simp: delete_rule_def Let_def)
    moreover have "fst e \<notin> set (map fst (delete_rule i m))" using Cons.prems 1(2) [of m] by (auto simp: sm_wf_def)
    moreover have "distinct (map fst (delete_rule i m))" using Cons by (simp add: sm_wf_def)
    ultimately show ?case by (auto simp: sm_wf_def simp del: set_map)
  qed (simp add: delete_rule_def)
qed

lemma store_mset:
  "mset (concat (map snd (sm_store k v m))) + mset (case sm_load m k of None \<Rightarrow> [] | Some l \<Rightarrow> l) =
     mset (concat (map snd m)) + mset v"
proof (induction m)
  case (Cons e m)
  then show ?case by (cases e) (auto simp: sm_store_def sm_load_def algebra_simps)
qed (simp add: sm_store_def sm_load_def)

lemma sm_store_entries: "(k', l) \<in> set (sm_store k v m) \<Longrightarrow> (k', l) = (k, v) \<or> (k', l) \<in> set m"
proof (induction m)
  case (Cons e m)
  then show ?case by (cases e) (auto simp: sm_store_def split: if_splits)
qed (simp add: sm_store_def)

lemma rules_wf_load: "rules_wf st \<Longrightarrow> sm_load (st_routingRules st) k = Some l \<Longrightarrow> x \<in> set l \<Longrightarrow> key_of_rule x = k"
  by (drule sm_load_SomeD) (auto simp: rules_wf_def)

lemma sorted_filter_rules: "sorted (map rr_Priority rs) \<Longrightarrow> sorted (map rr_Priority (filter P rs))"
  by (rule sorted_filter)

text \<open>A store that agrees with another up to some rules of one identifier.\<close>

lemma rules_wf_filter:
  assumes "rules_wf st" "sm_wf m" "concat (map snd m) = filter (\<lambda>r. rr_ID r \<noteq> i) (all_rules st)"
    "\<And>k l. (k, l) \<in> set m \<Longrightarrow> \<exists>rs. (k, rs) \<in> set (st_routingRules st) \<and> l = filter (\<lambda>r. rr_ID r \<noteq> i) rs"
  shows "rules_wf (st\<lparr>st_routingRules := m\<rparr>)"
proof -
  have "sorted (map rr_Priority (snd e)) \<and> (\<forall>r \<in> set (snd e). key_of_rule r = fst e)" if e: "e \<in> set m" for e
  proof -
    obtain rs where rs: "(fst e, rs) \<in> set (st_routingRules st)" "snd e = filter (\<lambda>r. rr_ID r \<noteq> i) rs"
      using assms(4) [of "fst e" "snd e"] e by auto
    then have "sorted (map rr_Priority rs) \<and> (\<forall>r \<in> set rs. key_of_rule r = fst e)"
      using assms(1) by (auto simp: rules_wf_def)
    with rs(2) show ?thesis by (simp add: sorted_filter_rules)
  qed
  then show ?thesis using assms(1-3) by (auto simp: rules_wf_def all_rules_def distinct_map_filter)
qed

lemma sort_rules_facts: "sorted (map rr_Priority (sort_rules xs))" "set (sort_rules xs) = set xs" "mset (sort_rules xs) = mset xs"
  by (simp_all add: sort_rules_def)

lemma rules_wf_add:
  assumes "rules_wf st" "rr_ID r \<notin> rr_ID ` set (all_rules st)" "k = key_of_rule r"
    "m = sm_store k (sort_rules ((case sm_load (st_routingRules st) k of None \<Rightarrow> [] | Some l \<Rightarrow> l) @ [r])) (st_routingRules st)"
  shows "rules_wf (st\<lparr>st_routingRules := m\<rparr>)" "mset (concat (map snd m)) = add_mset r (mset (all_rules st))"
proof -
  let ?old = "case sm_load (st_routingRules st) k of None \<Rightarrow> [] | Some l \<Rightarrow> l"
  show m: "mset (concat (map snd m)) = add_mset r (mset (all_rules st))"
    using store_mset [of k "sort_rules (?old @ [r])" "st_routingRules st"]
    by (simp add: assms(4) sort_rules_facts all_rules_def)
  then have "distinct (map rr_ID (concat (map snd m))) = distinct (map rr_ID (r # all_rules st))"
    by (intro mset_eq_imp_distinct_iff) (metis mset.simps(2) mset_map)
  then have d: "distinct (map rr_ID (concat (map snd m)))" using assms(1,2) by (simp add: rules_wf_def)
  have old: "\<forall>x \<in> set ?old. key_of_rule x = k"
    using rules_wf_load [OF assms(1)] by (cases "sm_load (st_routingRules st) k") auto
  have "sorted (map rr_Priority (snd e)) \<and> (\<forall>x \<in> set (snd e). key_of_rule x = fst e)" if e: "e \<in> set m" for e
  proof -
    have "(fst e, snd e) \<in> set (sm_store k (sort_rules (?old @ [r])) (st_routingRules st))" using e assms(4) by simp
    from sm_store_entries [OF this] show ?thesis
    proof
      assume "(fst e, snd e) = (k, sort_rules (?old @ [r]))"
      then have e: "fst e = k" "snd e = sort_rules (?old @ [r])" by simp_all
      have "\<forall>x \<in> set (?old @ [r]). key_of_rule x = k" using old assms(3) by simp
      then show ?thesis unfolding e by (simp only: sort_rules_facts simp_thms)
    next
      assume "(fst e, snd e) \<in> set (st_routingRules st)"
      then show ?thesis using assms(1) by (simp add: rules_wf_def)
    qed
  qed
  then show "rules_wf (st\<lparr>st_routingRules := m\<rparr>)"
    using assms(1) d by (auto simp: rules_wf_def all_rules_def assms(4))
qed

lemma scoped_iff:
  assumes "rules_wf st"
  shows "r \<in> set (GetScopedRoutingRules st sc i) \<longleftrightarrow>
    r \<in> set (all_rules st) \<and> EnabledValue (Some r) \<and> key_of_rule r = rule_key sc i"
proof
  assume r: "r \<in> set (GetScopedRoutingRules st sc i)"
  then obtain l where l: "sm_load (st_routingRules st) (rule_key sc i) = Some l" "r \<in> set l" "EnabledValue (Some r)"
    by (cases "sm_load (st_routingRules st) (rule_key sc i)") (auto simp: GetScopedRoutingRules_def)
  then have "key_of_rule r = rule_key sc i" using rules_wf_load [OF assms] by blast
  with l r scoped_in_all show "r \<in> set (all_rules st) \<and> EnabledValue (Some r) \<and> key_of_rule r = rule_key sc i" by blast
next
  assume r: "r \<in> set (all_rules st) \<and> EnabledValue (Some r) \<and> key_of_rule r = rule_key sc i"
  then obtain k l where kl: "(k, l) \<in> set (st_routingRules st)" "r \<in> set l" by (auto simp: all_rules_def)
  then have "k = rule_key sc i" using assms r by (auto simp: rules_wf_def)
  moreover have "sm_load (st_routingRules st) k = Some l" using assms kl(1) by (simp add: rules_wf_def sm_load_mem)
  ultimately show "r \<in> set (GetScopedRoutingRules st sc i)" using kl(2) r by (simp add: GetScopedRoutingRules_def)
qed

definition rule_state_ok :: "'p cel \<Rightarrow> 'p rule_state \<Rightarrow> bool" where
  "rule_state_ok cel s \<longleftrightarrow> rules_wf (rs_store s) \<and> programs_ok cel (all_rules (rs_store s)) (rs_programs s)"

lemma update_rule_ok:
  assumes "rule_state_ok cel s"
  shows "rule_state_ok cel (UpdateRoutingRuleInMemory cel s (Some r))"
    "set (all_rules (rs_store (UpdateRoutingRuleInMemory cel s (Some r)))) =
       insert r {x \<in> set (all_rules (rs_store s)). rr_ID x \<noteq> rr_ID r}"
proof -
  let ?st = "rs_store s"
  let ?m = "remove_rule (rr_ID r) (st_routingRules ?st)"
  let ?st1 = "?st\<lparr>st_routingRules := ?m\<rparr>"
  let ?k = "key_of_rule r"
  let ?m2 = "sm_store ?k (sort_rules ((case sm_load ?m ?k of None \<Rightarrow> [] | Some l \<Rightarrow> l) @ [r])) ?m"
  let ?ps = "snd (GetRoutingProgram cel (sm_delete (rr_ID r) (rs_programs s)) (Some r))"
  have wf: "rules_wf ?st" using assms by (simp add: rule_state_ok_def)
  have all1: "all_rules ?st1 = filter (\<lambda>x. rr_ID x \<noteq> rr_ID r) (all_rules ?st)"
    by (simp add: all_rules_def remove_rule_all)
  have wf1: "rules_wf ?st1"
    by (rule rules_wf_filter [OF wf]) (use wf remove_rule_entries in \<open>auto simp: rules_wf_def removed_keys all_rules_def remove_rule_all\<close>)
  have "rr_ID r \<notin> rr_ID ` set (all_rules ?st1)" by (auto simp: all1)
  note add = rules_wf_add [OF wf1 this, of ?k ?m2, simplified]
  have u: "UpdateRoutingRuleInMemory cel s (Some r) = \<lparr>rs_store = ?st\<lparr>st_routingRules := ?m2\<rparr>, rs_programs = ?ps\<rparr>"
    by (simp add: UpdateRoutingRuleInMemory_def Let_def key_of_rule_def)
  show all2: "set (all_rules (rs_store (UpdateRoutingRuleInMemory cel s (Some r)))) =
       insert r {x \<in> set (all_rules ?st). rr_ID x \<noteq> rr_ID r}"
    using arg_cong [OF add(2), of set_mset] unfolding u by (auto simp: all_rules_def remove_rule_all)
  have "programs_ok cel (all_rules (rs_store (UpdateRoutingRuleInMemory cel s (Some r)))) ?ps"
    unfolding programs_ok_def all2 using assms
    by (auto simp: rule_state_ok_def programs_ok_def GetRoutingProgram_def split: option.splits if_splits)
  with add(1) show "rule_state_ok cel (UpdateRoutingRuleInMemory cel s (Some r))"
    by (simp add: rule_state_ok_def u)
qed

lemma delete_rule_ok:
  assumes "rule_state_ok cel s"
  shows "rule_state_ok cel (DeleteRoutingRuleInMemory s i)"
    "set (all_rules (rs_store (DeleteRoutingRuleInMemory s i))) = {x \<in> set (all_rules (rs_store s)). rr_ID x \<noteq> i}"
proof -
  let ?st = "rs_store s"
  have wf: "rules_wf ?st" using assms by (simp add: rule_state_ok_def)
  have "rules_wf (?st\<lparr>st_routingRules := delete_rule i (st_routingRules ?st)\<rparr>)"
    by (rule rules_wf_filter [OF wf]) (use wf delete_rule_entries in \<open>auto simp: rules_wf_def removed_keys all_rules_def delete_rule_all\<close>)
  then show "rule_state_ok cel (DeleteRoutingRuleInMemory s i)"
    using assms by (auto simp: rule_state_ok_def DeleteRoutingRuleInMemory_def all_rules_def delete_rule_all programs_ok_def)
  show "set (all_rules (rs_store (DeleteRoutingRuleInMemory s i))) = {x \<in> set (all_rules ?st). rr_ID x \<noteq> i}"
    by (auto simp: DeleteRoutingRuleInMemory_def all_rules_def delete_rule_all)
qed

subsection \<open>The contract\<close>

text \<open>
  A sequence of operations, and what it leaves of an identifier: nothing said, deleted, or the
  last rule put under it.
\<close>

datatype rule_op = Put routing_rule | Drop string

fun left_of :: "rule_op list \<Rightarrow> string \<Rightarrow> routing_rule option option" where
  "left_of [] i = None"
| "left_of (op # ops) i =
     (case left_of ops i of
        Some e \<Rightarrow> Some e
      | None \<Rightarrow> (case op of Put r \<Rightarrow> if rr_ID r = i then Some (Some r) else None
                          | Drop j \<Rightarrow> if j = i then Some None else None))"

definition served_after :: "routing_rule option option \<Rightarrow> routing_rule \<Rightarrow> string \<Rightarrow> string \<Rightarrow> bool \<Rightarrow> bool" where
  "served_after e x sc j before =
     (case e of
        None \<Rightarrow> before
      | Some None \<Rightarrow> False
      | Some (Some r) \<Rightarrow> x = r \<and> EnabledValue (Some r) \<and> key_of_rule r = rule_key sc j)"

locale rule_contract =
  fixes get :: "'s \<Rightarrow> string \<Rightarrow> string \<Rightarrow> routing_rule list"
    and upd :: "'s \<Rightarrow> routing_rule \<Rightarrow> 's"
    and del :: "'s \<Rightarrow> string \<Rightarrow> 's"
    and inv :: "'s \<Rightarrow> bool"
  assumes upd_inv: "inv s \<Longrightarrow> inv (upd s r)"
    and del_inv: "inv s \<Longrightarrow> inv (del s i)"
    and get_enabled: "r \<in> set (get s sc j) \<Longrightarrow> EnabledValue (Some r)"
    and get_sorted: "inv s \<Longrightarrow> sorted (map rr_Priority (get s sc j))"
    and get_upd: "inv s \<Longrightarrow> x \<in> set (get (upd s r) sc j) \<longleftrightarrow>
      (if rr_ID x = rr_ID r then x = r \<and> EnabledValue (Some r) \<and> key_of_rule r = rule_key sc j else x \<in> set (get s sc j))"
    and get_del: "inv s \<Longrightarrow> x \<in> set (get (del s i) sc j) \<longleftrightarrow> rr_ID x \<noteq> i \<and> x \<in> set (get s sc j)"
begin

lemma moved_rule_leaves: "inv s \<Longrightarrow> key_of_rule r \<noteq> rule_key sc j \<Longrightarrow> r' \<in> set (get (upd s r) sc j) \<Longrightarrow> rr_ID r' \<noteq> rr_ID r"
  using get_upd by auto

lemma upd_twice: "inv s \<Longrightarrow> rr_ID r = rr_ID r' \<Longrightarrow> set (get (upd (upd s r) r') sc j) = set (get (upd s r') sc j)"
  by (auto simp: get_upd upd_inv split: if_splits)

lemma after_operations:
  assumes "\<And>s r. run s (Put r) = upd s r" "\<And>s i. run s (Drop i) = del s i"
  shows "inv s \<Longrightarrow> inv (foldl run s ops) \<and>
    (x \<in> set (get (foldl run s ops) sc j) \<longleftrightarrow> served_after (left_of ops (rr_ID x)) x sc j (x \<in> set (get s sc j)))"
proof (induction ops arbitrary: s)
  case Nil
  then show ?case by (simp add: served_after_def)
next
  case (Cons op ops)
  then show ?case
    by (cases op) (auto simp: assms upd_inv del_inv get_upd get_del served_after_def split: option.splits)
qed

end

interpretation rules: rule_contract
    "\<lambda>s. GetScopedRoutingRules (rs_store s)" "\<lambda>s r. UpdateRoutingRuleInMemory cel s (Some r)"
    DeleteRoutingRuleInMemory "rule_state_ok cel"
  for cel :: "'p cel"
proof unfold_locales
  show "sorted (map rr_Priority (GetScopedRoutingRules (rs_store s) sc j))" if "rule_state_ok cel s" for s :: "'p rule_state" and sc j
    using that by (auto simp: GetScopedRoutingRules_def rule_state_ok_def rules_wf_def sorted_filter_rules
        split: option.split dest!: sm_load_SomeD)
  show "(x \<in> set (GetScopedRoutingRules (rs_store (UpdateRoutingRuleInMemory cel s (Some r))) sc j)) =
      (if rr_ID x = rr_ID r then x = r \<and> EnabledValue (Some r) \<and> key_of_rule r = rule_key sc j
       else x \<in> set (GetScopedRoutingRules (rs_store s) sc j))" if "rule_state_ok cel s" for s x r sc j
    using that update_rule_ok [OF that, of r] by (auto simp: scoped_iff rule_state_ok_def)
  show "(x \<in> set (GetScopedRoutingRules (rs_store (DeleteRoutingRuleInMemory s i)) sc j)) =
      (rr_ID x \<noteq> i \<and> x \<in> set (GetScopedRoutingRules (rs_store s) sc j))" if "rule_state_ok cel s" for s x i sc j
    using that delete_rule_ok [OF that, of i] by (auto simp: scoped_iff rule_state_ok_def)
qed (auto simp: update_rule_ok(1) delete_rule_ok(1) GetScopedRoutingRules_def split: option.splits)

definition run_rule_op :: "'p cel \<Rightarrow> 'p rule_state \<Rightarrow> rule_op \<Rightarrow> 'p rule_state" where
  "run_rule_op cel s op =
     (case op of Put r \<Rightarrow> UpdateRoutingRuleInMemory cel s (Some r) | Drop i \<Rightarrow> DeleteRoutingRuleInMemory s i)"

text \<open>
  C34. After any sequence of updates and deletes, a scope is served exactly the enabled rules
  whose last operation put them there, by ascending priority, and every cached program is the
  compilation of the rule it is kept for: a moved rule leaves its old scope, a changed expression
  is never answered by the old program.
\<close>

theorem served_rules_follow_operations:
  assumes "rule_state_ok cel s" "s' = foldl (run_rule_op cel) s ops"
  shows "rule_state_ok cel s' \<and> sorted (map rr_Priority (GetScopedRoutingRules (rs_store s') sc j)) \<and>
    (x \<in> set (GetScopedRoutingRules (rs_store s') sc j) \<longleftrightarrow>
       served_after (left_of ops (rr_ID x)) x sc j (x \<in> set (GetScopedRoutingRules (rs_store s) sc j)))"
proof -
  note a = rules.after_operations [where run = "run_rule_op cel" and cel = cel and s = s and ops = ops and x = x and sc = sc and j = j,
      OF _ _ assms(1), folded assms(2)]
  have "rule_state_ok cel s'" using a by (simp add: run_rule_op_def)
  with a rules.get_sorted show ?thesis by (simp add: run_rule_op_def)
qed

theorem served_rules_follow_operations_witness:
  "GetScopedRoutingRules (rs_store (foldl (run_rule_op tiny_cel) rule_store
     [Put (to_azure\<lparr>rr_CelExpression := ''true''\<rparr>), Put (to_mini\<lparr>rr_Scope := ''team'', rr_ScopeID := Some ''t1''\<rparr>), Drop ''r1'']))
     ''global'' [] = [] \<and>
   to_azure \<notin> set (GetScopedRoutingRules (rs_store (foldl (run_rule_op tiny_cel) rule_store
     [Put (to_azure\<lparr>rr_CelExpression := ''true''\<rparr>), Put (to_mini\<lparr>rr_Scope := ''team'', rr_ScopeID := Some ''t1''\<rparr>), Drop ''r1'']))
     ''virtual_key'' ''vk1'')"
  (is "GetScopedRoutingRules (rs_store (foldl _ _ ?ops)) _ _ = [] \<and> _")
proof -
  have ok: "rule_state_ok tiny_cel rule_store" by (simp add: rule_state_ok_def rule_store_facts)
  have "left_of ?ops (rr_ID to_azure) = Some None" by code_simp
  then have "to_azure \<notin> set (GetScopedRoutingRules (rs_store (foldl (run_rule_op tiny_cel) rule_store ?ops)) ''virtual_key'' ''vk1'')"
    using served_rules_follow_operations [OF ok refl, of ?ops "''virtual_key''" "''vk1''" to_azure]
    by (simp add: served_after_def)
  moreover have "GetScopedRoutingRules (rs_store (foldl (run_rule_op tiny_cel) rule_store ?ops)) ''global'' [] = []"
    by code_simp
  ultimately show ?thesis by blast
qed

subsection \<open>All rules\<close>

text \<open>The list of all rules: every rule once, by priority, the newest first among equals.\<close>

lemma sort_key_stable: "sorted_wrt P xs \<Longrightarrow> sorted_wrt (\<lambda>a b. f a < f b \<or> f a = f b \<and> P a b) (sort_key f xs)"
proof (induction xs)
  case (Cons x xs)
  have "sorted_wrt (\<lambda>a b. f a < f b \<or> f a = f b \<and> P a b) (insort_key f x ys)"
    if "sorted_wrt (\<lambda>a b. f a < f b \<or> f a = f b \<and> P a b) ys" "\<forall>y \<in> set ys. P x y" for ys
    using that
  proof (induction ys)
    case (Cons y ys)
    then show ?case by (auto simp: set_insort_key)
  qed simp
  with Cons show ?case by simp
qed simp

lemma all_rules_order:
  "sorted_wrt (\<lambda>a b. \<not> rule_before b a) (GetAllRoutingRules st) \<and> mset (GetAllRoutingRules st) = mset (all_rules st)"
proof -
  have "sorted_wrt (\<lambda>a b. rr_CreatedAt b \<le> rr_CreatedAt a) (sort_key (\<lambda>r. - rr_CreatedAt r) (all_rules st))"
    using sorted_sort_key [of "\<lambda>r. - rr_CreatedAt r" "all_rules st"] by (simp add: sorted_map)
  from sort_key_stable [OF this, of rr_Priority]
  have "sorted_wrt (\<lambda>a b. \<not> rule_before b a) (GetAllRoutingRules st)"
    unfolding GetAllRoutingRules_def all_rules_def
    by (rule sorted_wrt_mono_rel [rotated]) (auto simp: rule_before_def)
  then show ?thesis by (simp add: GetAllRoutingRules_def all_rules_def)
qed

subsection \<open>Scopes and variables\<close>

text \<open>
  The customer whose rules are in scope and the customer the rules see as a variable are chosen in
  different orders: for a key with a customer of its own and a team of another customer, the
  scope is the key's customer and the variable is the team's.
\<close>

definition two_customer_vk :: virtual_key where
  "two_customer_vk =
     (let cust = \<lambda>i. \<lparr>cu_ID = i, cu_Name = i, cu_RateLimitID = None, cu_Budgets = [], cu_RateLimit = None, cu_CalendarAligned = False\<rparr>
      in sample_vk\<lparr>vk_Customer := Some (cust ''c1''),
           vk_Team := Some \<lparr>tm_ID = ''t'', tm_Name = ''t'', tm_CustomerID = Some ''c2'', tm_RateLimitID = None,
             tm_Customer = Some (cust ''c2''), tm_Budgets = [], tm_RateLimit = None, tm_CalendarAligned = False\<rparr>\<rparr>)"

lemma customer_scope_differs_from_variable:
  "\<lparr>sl_ScopeName = ''customer'', sl_ScopeID = ''c1''\<rparr> \<in> set (buildScopeChain (Some two_customer_vk)) \<and>
   fst (customer_vars (Some two_customer_vk)) = ''c2''"
  by code_simp

end
