(* ===== verification/LlmRequest.thy ===== *)
theory LlmRequest
  imports GovResolver
begin

text \<open>
  The request that travels through the gateway (core/schemas/unifai.go): the routing fields of
  its one sub-request, read by \<^verbatim>\<open>GetRequestFields\<close> and written by the three setters.
  Exactly one sub-request is set, as the struct's comment asks; \<open>None\<close> is a request
  without any. Payloads and parameters of the sub-requests are left out.
\<close>

datatype request_kind =
    ListModels | TextCompletion | Chat | Responses | ResponsesRetrieve | ResponsesDelete
  | ResponsesCancel | ResponsesInputItems | CountTokens | Compaction | Embedding | Rerank | OCR
  | Speech | Transcription | ImageGeneration | ImageEdit | ImageVariation | VideoGeneration
  | VideoRetrieve | VideoDownload | VideoList | VideoRemix | VideoDelete
  | FileUpload | FileList | FileRetrieve | FileDelete | FileContent
  | CachedContentCreate | CachedContentList | CachedContentRetrieve | CachedContentUpdate | CachedContentDelete
  | BatchCreate | BatchList | BatchRetrieve | BatchCancel | BatchResults | BatchDelete
  | ContainerCreate | ContainerList | ContainerRetrieve | ContainerDelete
  | ContainerFileCreate | ContainerFileList | ContainerFileRetrieve | ContainerFileContent | ContainerFileDelete
  | Passthrough

record fallback =
  fb_Provider :: string
  fb_Model :: string

text \<open>
  \<open>rq_Model\<close> is the model of the sub-request. Where the field is a pointer, \<open>None\<close> is
  nil; where it is a plain string it is \<open>Some\<close>; the other kinds have no such field.
\<close>

record llm_request =
  rq_RequestType :: request_type
  rq_Kind :: "request_kind option"
  rq_Provider :: string
  rq_Model :: "string option"
  rq_Fallbacks :: "fallback list"

definition inference_kinds :: "request_kind list" where
  "inference_kinds = [TextCompletion, Chat, Responses, CountTokens, Compaction, Embedding, Rerank, OCR, Speech,
     Transcription, ImageGeneration, ImageEdit, ImageVariation, VideoGeneration]"

definition resource_kinds :: "request_kind list" where
  "resource_kinds = [ListModels, ResponsesRetrieve, ResponsesDelete, ResponsesCancel, ResponsesInputItems,
     VideoRetrieve, VideoDownload, VideoList, VideoDelete, VideoRemix]"

definition container_kinds :: "request_kind list" where
  "container_kinds = [ContainerCreate, ContainerList, ContainerRetrieve, ContainerDelete, ContainerFileCreate,
     ContainerFileList, ContainerFileRetrieve, ContainerFileContent, ContainerFileDelete]"

definition cached_content_kinds :: "request_kind list" where
  "cached_content_kinds = [CachedContentList, CachedContentRetrieve, CachedContentUpdate, CachedContentDelete]"

definition opt_str :: "string option \<Rightarrow> string" where
  "opt_str x = (case x of None \<Rightarrow> [] | Some s \<Rightarrow> s)"

definition GetRequestFields :: "llm_request \<Rightarrow> string \<times> string \<times> fallback list" where
  "GetRequestFields r =
     (case rq_Kind r of
        None \<Rightarrow> ([], [], [])
      | Some k \<Rightarrow>
          if k \<in> set inference_kinds then (rq_Provider r, opt_str (rq_Model r), rq_Fallbacks r)
          else if k \<in> set resource_kinds \<or> k \<in> set container_kinds then (rq_Provider r, [], [])
          else (rq_Provider r, opt_str (rq_Model r), []))"

definition SetProvider :: "string \<Rightarrow> llm_request \<Rightarrow> llm_request" where
  "SetProvider p r =
     (case rq_Kind r of
        None \<Rightarrow> r
      | Some k \<Rightarrow>
          if k \<in> set inference_kinds \<or> k \<in> set resource_kinds \<or> k = CachedContentCreate \<or> k \<in> set cached_content_kinds
          then r\<lparr>rq_Provider := p\<rparr> else r)"

definition SetModel :: "string \<Rightarrow> llm_request \<Rightarrow> llm_request" where
  "SetModel m r =
     (case rq_Kind r of
        None \<Rightarrow> r
      | Some k \<Rightarrow>
          if k \<in> set inference_kinds \<or> k = CachedContentCreate then r\<lparr>rq_Model := Some m\<rparr>
          else if k = BatchCreate \<or> k \<in> set cached_content_kinds
          then (if rq_Model r \<noteq> None then r\<lparr>rq_Model := Some m\<rparr> else r)
          else r)"

definition SetFallbacks :: "fallback list \<Rightarrow> llm_request \<Rightarrow> llm_request" where
  "SetFallbacks fbs r =
     (case rq_Kind r of
        None \<Rightarrow> r
      | Some k \<Rightarrow> if k \<in> set inference_kinds then r\<lparr>rq_Fallbacks := fbs\<rparr> else r)"

lemmas kind_lists = inference_kinds_def resource_kinds_def container_kinds_def cached_content_kinds_def

definition inference_request :: "llm_request \<Rightarrow> bool" where
  "inference_request r \<longleftrightarrow> (\<exists>k \<in> set inference_kinds. rq_Kind r = Some k)"

lemma inference_setters:
  assumes "inference_request r"
  shows "GetRequestFields (SetProvider p r) = (p, snd (GetRequestFields r))"
    "GetRequestFields (SetModel m r) = (fst (GetRequestFields r), m, snd (snd (GetRequestFields r)))"
    "GetRequestFields (SetFallbacks f r) = (fst (GetRequestFields r), fst (snd (GetRequestFields r)), f)"
    "inference_request (SetProvider p r)" "inference_request (SetModel m r)" "inference_request (SetFallbacks f r)"
  using assms by (auto simp: inference_request_def GetRequestFields_def SetProvider_def SetModel_def
      SetFallbacks_def opt_str_def)

lemma setters_kind [simp]:
  "rq_Kind (SetProvider p r) = rq_Kind r" "rq_Kind (SetModel m r) = rq_Kind r" "rq_Kind (SetFallbacks f r) = rq_Kind r"
  "rq_RequestType (SetProvider p r) = rq_RequestType r" "rq_RequestType (SetModel m r) = rq_RequestType r"
  "rq_RequestType (SetFallbacks f r) = rq_RequestType r"
  by (auto simp: SetProvider_def SetModel_def SetFallbacks_def split: option.splits)

subsection \<open>Fallback strings\<close>

definition ParseFallbacks :: "(string \<Rightarrow> bool) \<Rightarrow> string list \<Rightarrow> fallback list" where
  "ParseFallbacks known fbs =
     concat (map (\<lambda>fb.
        if fb = [] then []
        else (case ParseModelString known fb [] of
            (p, m) \<Rightarrow> if p \<noteq> [] \<and> m \<noteq> [] then [\<lparr>fb_Provider = p, fb_Model = m\<rparr>] else [])) fbs)"

subsection \<open>List values of the context\<close>

definition AppendToContextList :: "gov_ctx \<Rightarrow> string \<Rightarrow> string \<Rightarrow> gov_ctx" where
  "AppendToContextList ctx key val =
     (let existing = (case CtxValue ctx key of CStrs l \<Rightarrow> l | _ \<Rightarrow> []) in
      if val \<in> set existing then ctx else CtxSetValue ctx key (CStrs (existing @ [val])))"

subsection \<open>The provider's own name of a model\<close>

text \<open>\<open>Inl\<close> carries the candidates of the ambiguity error.\<close>

definition refineNestedProviderModel :: "model_catalog \<Rightarrow> string \<Rightarrow> string \<Rightarrow> string list + string" where
  "refineNestedProviderModel cat provider model =
     (let candidates = add_new [] (concat (map (\<lambda>pm.
            case ParseModelString (cat_IsKnownProvider cat) pm [] of
              (p, m) \<Rightarrow> if p = [] \<or> model \<noteq> m then [] else [p @ ''/'' @ m]) (cat_GetModelsForProvider cat provider)))
      in case candidates of [] \<Rightarrow> Inr model | [c] \<Rightarrow> Inr c | _ \<Rightarrow> Inl candidates)"

definition RefineModelForProvider :: "model_catalog \<Rightarrow> string \<Rightarrow> string \<Rightarrow> string list + string" where
  "RefineModelForProvider cat provider model =
     (if provider = ''groq'' then
        (if str_contains model ''gpt-'' then Inr (''openai/'' @ model) else refineNestedProviderModel cat provider model)
      else if provider = ''replicate'' \<or> provider = ''perplexity'' then refineNestedProviderModel cat provider model
      else Inr model)"

end
