(* ===== verification/CircuitBreaker.thy ===== *)
theory CircuitBreaker
  imports LlmRequest
begin

text \<open>
  The circuit breaker (framework/circuitbreaker/runtime.go): policies that trip on headers of a
  provider's response and send the requests of a primary endpoint to a fallback while the circuit
  is open. A header map is an association list; the known providers are a parameter. The condition
  of a row is the decoded one (decoding its JSON is left out).
\<close>

record cb_state =
  cs_Status :: string
  cs_OpenedAt :: instant
  cs_Cooldown :: int
  cs_ExpiresAt :: instant

record signal =
  sg_Source :: string
  sg_HeaderName :: string
  sg_HeaderValue :: string
  sg_HeaderContains :: string

record condition =
  cd_Operator :: string
  cd_Signals :: "signal list"

record policy =
  pl_Name :: string
  pl_Enabled :: bool
  pl_PrimaryProvider :: string
  pl_PrimaryModel :: string
  pl_PrimaryKeyIDs :: "string list"
  pl_FallbackProvider :: string
  pl_FallbackModel :: string
  pl_DefaultCooldown :: string
  pl_CooldownHeader :: string
  pl_Condition :: condition

record cb_runtime =
  cb_policies :: "policy list"
  cb_circuits :: "cb_state smap"

definition policyFromRow :: "policy \<Rightarrow> policy" where
  "policyFromRow row =
     (let p = (if pl_DefaultCooldown row = [] then row\<lparr>pl_DefaultCooldown := ''30s''\<rparr> else row) in
      if cd_Operator (pl_Condition p) = [] then p\<lparr>pl_Condition := (pl_Condition p)\<lparr>cd_Operator := ''OR''\<rparr>\<rparr> else p)"

definition LoadPolicies :: "policy list \<Rightarrow> cb_runtime \<Rightarrow> cb_runtime" where
  "LoadPolicies loaded r = r\<lparr>cb_policies := map policyFromRow loaded\<rparr>"

definition HasPolicies :: "cb_runtime \<Rightarrow> bool" where
  "HasPolicies r \<longleftrightarrow> cb_policies r \<noteq> []"

definition Reset :: "string \<Rightarrow> cb_runtime \<Rightarrow> cb_runtime" where
  "Reset name r = r\<lparr>cb_circuits := sm_delete name (cb_circuits r)\<rparr>"

definition DeletePolicy :: "string \<Rightarrow> cb_runtime \<Rightarrow> cb_runtime" where
  "DeletePolicy name r = Reset name r"

definition ListStates :: "instant \<Rightarrow> cb_runtime \<Rightarrow> cb_state smap \<times> cb_runtime" where
  "ListStates now r =
     (let live = filter (\<lambda>e. \<not> cs_ExpiresAt (snd e) < now) (cb_circuits r) in
      (fold (\<lambda>e. sm_store (str_trim (fst e)) (snd e)) live [], r\<lparr>cb_circuits := live\<rparr>))"

definition isOpen :: "string \<Rightarrow> instant \<Rightarrow> cb_runtime \<Rightarrow> bool \<times> cb_runtime" where
  "isOpen name now r =
     (case sm_load (cb_circuits r) name of
        None \<Rightarrow> (False, r)
      | Some state \<Rightarrow>
          if cs_ExpiresAt state < now then (False, r\<lparr>cb_circuits := sm_delete name (cb_circuits r)\<rparr>)
          else (cs_Status state = ''open'', r))"

definition trip :: "string \<Rightarrow> duration \<Rightarrow> instant \<Rightarrow> cb_runtime \<Rightarrow> cb_runtime" where
  "trip name cooldown0 now r =
     (let cooldown = (if cooldown0 \<le> 0 then 30 * second else cooldown0) in
      r\<lparr>cb_circuits := sm_store name
          \<lparr>cs_Status = ''open'', cs_OpenedAt = now, cs_Cooldown = cooldown div second, cs_ExpiresAt = now + cooldown\<rparr>
          (cb_circuits r)\<rparr>)"

definition endpointMatches :: "(string \<Rightarrow> bool) \<Rightarrow> string \<Rightarrow> string \<Rightarrow> string \<Rightarrow> string \<Rightarrow> bool" where
  "endpointMatches known policyProvider policyModel reqProvider reqModel =
     (if \<not> equal_fold (str_trim policyProvider) (str_trim reqProvider) then False
      else
        let pm = str_trim policyModel; rm = str_trim reqModel in
        if pm = [] then True
        else
          let ppm = snd (ParseModelString known pm policyProvider); prm = snd (ParseModelString known rm reqProvider) in
          if ppm \<noteq> [] \<and> prm \<noteq> [] then equal_fold ppm prm else equal_fold pm rm)"

subsection \<open>Headers\<close>

definition alias_pairs :: "(string \<times> string) list" where
  "alias_pairs =
     [(''x-ratelimit-remaining-requests'', ''x-ratelimit-remaining-req-minute''),
      (''x-ratelimit-remaining-tokens'', ''x-ratelimit-remaining-tokens-minute''),
      (''x-ratelimit-limit-requests'', ''x-ratelimit-limit-req-minute''),
      (''x-ratelimit-limit-tokens'', ''x-ratelimit-limit-tokens-minute'')]"

definition copy_header :: "string \<Rightarrow> string \<Rightarrow> string smap \<Rightarrow> string smap" where
  "copy_header a b m =
     (case sm_load m a of
        Some _ \<Rightarrow> m
      | None \<Rightarrow> (case sm_load m b of None \<Rightarrow> m | Some v \<Rightarrow> sm_store a v m))"

definition normalizeHeaders :: "string smap \<Rightarrow> string smap" where
  "normalizeHeaders headers =
     (if headers = [] then []
      else fold (\<lambda>(a, b) m. copy_header b a (copy_header a b m)) alias_pairs
             (fold (\<lambda>(k, v). sm_store (str_lower (str_trim k)) v) headers []))"

definition matchOne :: "string smap \<Rightarrow> signal \<Rightarrow> bool" where
  "matchOne headers sig =
     (let name = str_lower (str_trim (sg_HeaderName sig)) in
      if name = [] then False
      else case sm_load headers name of
          None \<Rightarrow> False
        | Some val \<Rightarrow>
            let hv = str_trim (sg_HeaderValue sig); hc = str_trim (sg_HeaderContains sig) in
            if hv \<noteq> [] then equal_fold val hv
            else if hc \<noteq> [] then str_contains (str_lower val) (str_lower hc)
            else str_trim val \<noteq> [])"

definition signalsMatch :: "condition \<Rightarrow> string smap \<Rightarrow> bool" where
  "signalsMatch cond headers =
     (if cd_Signals cond = [] then False
      else
        let op0 = str_upper (str_trim (cd_Operator cond)); op = (if op0 = [] then ''OR'' else op0) in
        if op = ''AND'' then (\<forall>s \<in> set (cd_Signals cond). matchOne headers s)
        else (\<exists>s \<in> set (cd_Signals cond). matchOne headers s))"

definition positive_duration :: "string \<Rightarrow> duration option" where
  "positive_duration s = (case ParseDuration_std (str_trim s) of None \<Rightarrow> None | Some d \<Rightarrow> if 0 < d then Some d else None)"

definition parseCooldown :: "string \<Rightarrow> string \<Rightarrow> string smap \<Rightarrow> duration" where
  "parseCooldown defaultCooldown cooldownHeader headers =
     (let ch = str_trim cooldownHeader;
          from_header = (if ch = [] then None
             else case sm_load headers (str_lower ch) of None \<Rightarrow> None | Some raw \<Rightarrow> positive_duration raw)
      in case from_header of
           Some d \<Rightarrow> d
         | None \<Rightarrow> (case positive_duration defaultCooldown of Some d \<Rightarrow> d | None \<Rightarrow> 30 * second))"

subsection \<open>Failing over and tripping\<close>

record failover_decision =
  fd_PolicyName :: string
  fd_FromProv :: string
  fd_FromModel :: string
  fd_ToProv :: string
  fd_ToModel :: string

text \<open>The loops over a copy of the policies; looking at a circuit drops it when it has expired.\<close>

fun failover_loop ::
  "(string \<Rightarrow> bool) \<Rightarrow> instant \<Rightarrow> string \<Rightarrow> string \<Rightarrow> policy list \<Rightarrow> cb_runtime \<Rightarrow> failover_decision option \<times> cb_runtime" where
  "failover_loop known now prov mdl [] r = (None, r)"
| "failover_loop known now prov mdl (p # ps) r =
     (if \<not> pl_Enabled p then failover_loop known now prov mdl ps r
      else if \<not> endpointMatches known (pl_PrimaryProvider p) (pl_PrimaryModel p) prov mdl
      then failover_loop known now prov mdl ps r
      else case isOpen (pl_Name p) now r of
          (False, r1) \<Rightarrow> failover_loop known now prov mdl ps r1
        | (True, r1) \<Rightarrow>
            (Some \<lparr>fd_PolicyName = pl_Name p, fd_FromProv = prov, fd_FromModel = mdl,
                   fd_ToProv = str_trim (pl_FallbackProvider p), fd_ToModel = str_trim (pl_FallbackModel p)\<rparr>, r1))"

definition ApplyFailover ::
  "(string \<Rightarrow> bool) \<Rightarrow> instant \<Rightarrow> string \<Rightarrow> string \<Rightarrow> cb_runtime \<Rightarrow> failover_decision option \<times> cb_runtime" where
  "ApplyFailover known now provider model r =
     (let prov = str_trim provider; mdl = str_trim model in
      if prov = [] \<or> mdl = [] then (None, r) else failover_loop known now prov mdl (cb_policies r) r)"

fun trip_loop ::
  "(string \<Rightarrow> bool) \<Rightarrow> instant \<Rightarrow> string \<Rightarrow> string \<Rightarrow> string smap \<Rightarrow> policy list \<Rightarrow> cb_runtime \<Rightarrow> string option \<times> cb_runtime" where
  "trip_loop known now prov mdl headers [] r = (None, r)"
| "trip_loop known now prov mdl headers (p # ps) r =
     (if \<not> pl_Enabled p then trip_loop known now prov mdl headers ps r
      else if \<not> endpointMatches known (pl_PrimaryProvider p) (pl_PrimaryModel p) prov mdl
      then trip_loop known now prov mdl headers ps r
      else case isOpen (pl_Name p) now r of
          (True, r1) \<Rightarrow> trip_loop known now prov mdl headers ps r1
        | (False, r1) \<Rightarrow>
            if \<not> signalsMatch (pl_Condition p) headers then trip_loop known now prov mdl headers ps r1
            else (Some (pl_Name p),
                  trip (pl_Name p) (parseCooldown (pl_DefaultCooldown p) (pl_CooldownHeader p) headers) now r1))"

definition EvaluateTrip ::
  "(string \<Rightarrow> bool) \<Rightarrow> instant \<Rightarrow> string \<Rightarrow> string \<Rightarrow> string smap \<Rightarrow> cb_runtime \<Rightarrow> string option \<times> cb_runtime" where
  "EvaluateTrip known now provider model headers r =
     (let prov = str_trim provider; mdl = str_trim model in
      if prov = [] \<or> mdl = [] then (None, r)
      else trip_loop known now prov mdl (normalizeHeaders headers) (cb_policies r) r)"

subsection \<open>Laws\<close>

text \<open>The state of a circuit at an instant, whatever expired entries are still stored.\<close>

definition open_at :: "cb_runtime \<Rightarrow> instant \<Rightarrow> string \<Rightarrow> bool" where
  "open_at r now name =
     (case sm_load (cb_circuits r) name of
        None \<Rightarrow> False
      | Some s \<Rightarrow> now \<le> cs_ExpiresAt s \<and> cs_Status s = ''open'')"

lemma isOpen_open_at: "fst (isOpen name now r) = open_at r now name"
  by (auto simp: isOpen_def open_at_def split: option.split)

lemma isOpen_policies [simp]: "cb_policies (snd (isOpen name now r)) = cb_policies r"
  by (simp add: isOpen_def split: option.split)

lemma isOpen_keeps: "now \<le> t \<Longrightarrow> open_at (snd (isOpen name now r)) t n = open_at r t n"
  by (auto simp: isOpen_def open_at_def split: option.split)

lemma parseCooldown_pos: "0 < parseCooldown dc ch headers"
  by (auto simp: parseCooldown_def positive_duration_def Let_def second_def split: option.splits if_splits)

lemma failover_loop_spec:
  "fst (failover_loop known now prov mdl ps r) =
     map_option (\<lambda>p. \<lparr>fd_PolicyName = pl_Name p, fd_FromProv = prov, fd_FromModel = mdl,
         fd_ToProv = str_trim (pl_FallbackProvider p), fd_ToModel = str_trim (pl_FallbackModel p)\<rparr>)
       (find (\<lambda>p. pl_Enabled p \<and> endpointMatches known (pl_PrimaryProvider p) (pl_PrimaryModel p) prov mdl \<and>
                  open_at r now (pl_Name p)) ps)"
proof (induction ps arbitrary: r)
  case (Cons p ps)
  have "open_at (snd (isOpen (pl_Name p) now r)) now n = open_at r now n" for n by (rule isOpen_keeps) simp
  then show ?case using Cons isOpen_open_at [of "pl_Name p" now r]
    by (auto split: prod.split bool.split)
qed simp

lemma failover_loop_keeps:
  "now \<le> t \<Longrightarrow> open_at (snd (failover_loop known now prov mdl ps r)) t n = open_at r t n \<and>
     cb_policies (snd (failover_loop known now prov mdl ps r)) = cb_policies r"
proof (induction ps arbitrary: r)
  case (Cons p ps)
  obtain b r1 where i: "isOpen (pl_Name p) now r = (b, r1)" by fastforce
  then have "open_at r1 t n = open_at r t n" "cb_policies r1 = cb_policies r"
    using isOpen_keeps [OF Cons.prems, of "pl_Name p" r n] isOpen_policies [of "pl_Name p" now r] by simp_all
  with Cons.IH [OF Cons.prems] i show ?case by (auto split: bool.split)
qed simp

lemma trip_loop_keeps:
  "now \<le> t \<Longrightarrow> open_at r t n \<Longrightarrow> open_at (snd (trip_loop known now prov mdl headers ps r)) t n"
proof (induction ps arbitrary: r)
  case (Cons p ps)
  obtain b r1 where i: "isOpen (pl_Name p) now r = (b, r1)" by fastforce
  then have r1: "open_at r1 t n" using isOpen_keeps [OF Cons.prems(1), of "pl_Name p" r n] Cons.prems(2) by simp
  have "b = open_at r now (pl_Name p)" using isOpen_open_at [of "pl_Name p" now r] i by simp
  then have "\<not> b \<Longrightarrow> pl_Name p \<noteq> n" using Cons.prems by (auto simp: open_at_def split: option.splits)
  then have "\<not> b \<Longrightarrow> open_at (trip (pl_Name p) c now r1) t n" for c
    using r1 by (simp add: trip_def open_at_def Let_def)
  with Cons.IH [OF Cons.prems(1) r1] Cons.IH [OF Cons.prems(1) Cons.prems(2)] i show ?case
    by (auto split: bool.split)
qed simp

lemma trip_loop_trips:
  "fst (trip_loop known now prov mdl headers ps r) = Some name \<Longrightarrow>
     \<exists>p \<in> set ps. pl_Name p = name \<and> pl_Enabled p \<and>
       endpointMatches known (pl_PrimaryProvider p) (pl_PrimaryModel p) prov mdl \<and> signalsMatch (pl_Condition p) headers \<and>
       sm_load (cb_circuits (snd (trip_loop known now prov mdl headers ps r))) name =
         Some (let c = parseCooldown (pl_DefaultCooldown p) (pl_CooldownHeader p) headers in
           \<lparr>cs_Status = ''open'', cs_OpenedAt = now, cs_Cooldown = c div second, cs_ExpiresAt = now + c\<rparr>)"
proof (induction ps arbitrary: r)
  case (Cons p ps)
  obtain b r1 where i: "isOpen (pl_Name p) now r = (b, r1)" by fastforce
  have c: "\<not> parseCooldown (pl_DefaultCooldown p) (pl_CooldownHeader p) headers \<le> 0"
    using parseCooldown_pos by (simp add: not_le)
  show ?case using Cons i c by (auto simp: trip_def Let_def split: if_splits bool.splits)
qed simp

subsection \<open>Over any sequence of calls\<close>

datatype cb_event =
    Loaded instant "policy list"
  | ResetCircuit instant string
  | Listed instant
  | FailoverCall instant string string
  | TripCall instant string string "string smap"

fun event_at :: "cb_event \<Rightarrow> instant" where
  "event_at (Loaded t _) = t"
| "event_at (ResetCircuit t _) = t"
| "event_at (Listed t) = t"
| "event_at (FailoverCall t _ _) = t"
| "event_at (TripCall t _ _ _) = t"

fun cb_step :: "(string \<Rightarrow> bool) \<Rightarrow> cb_runtime \<Rightarrow> cb_event \<Rightarrow> cb_runtime" where
  "cb_step known r (Loaded t ps) = LoadPolicies ps r"
| "cb_step known r (ResetCircuit t name) = Reset name r"
| "cb_step known r (Listed t) = snd (ListStates t r)"
| "cb_step known r (FailoverCall t prov mdl) = snd (ApplyFailover known t prov mdl r)"
| "cb_step known r (TripCall t prov mdl headers) = snd (EvaluateTrip known t prov mdl headers r)"

definition holds_open :: "cb_runtime \<Rightarrow> string \<Rightarrow> cb_state \<Rightarrow> bool" where
  "holds_open r name s \<longleftrightarrow> sm_load (cb_circuits r) name = Some s \<and> cs_Status s = ''open''"

lemma isOpen_holds: "holds_open r name s \<Longrightarrow> now \<le> cs_ExpiresAt s \<Longrightarrow> holds_open (snd (isOpen n now r)) name s"
  by (auto simp: holds_open_def isOpen_def split: option.split)

lemma failover_holds:
  "holds_open r name s \<Longrightarrow> now \<le> cs_ExpiresAt s \<Longrightarrow> holds_open (snd (failover_loop known now prov mdl ps r)) name s"
proof (induction ps arbitrary: r)
  case (Cons p ps)
  obtain b r1 where i: "isOpen (pl_Name p) now r = (b, r1)" by fastforce
  then have "holds_open r1 name s" using isOpen_holds [OF Cons.prems, of "pl_Name p"] by simp
  with Cons i show ?case by (auto split: bool.split)
qed simp

lemma trip_holds:
  "holds_open r name s \<Longrightarrow> now \<le> cs_ExpiresAt s \<Longrightarrow> holds_open (snd (trip_loop known now prov mdl headers ps r)) name s"
proof (induction ps arbitrary: r)
  case (Cons p ps)
  obtain b r1 where i: "isOpen (pl_Name p) now r = (b, r1)" by fastforce
  then have r1: "holds_open r1 name s" using isOpen_holds [OF Cons.prems, of "pl_Name p"] by simp
  have "b = open_at r now (pl_Name p)" using isOpen_open_at [of "pl_Name p" now r] i by simp
  then have "\<not> b \<Longrightarrow> pl_Name p \<noteq> name" using Cons.prems by (auto simp: open_at_def holds_open_def)
  then have "\<not> b \<Longrightarrow> holds_open (trip (pl_Name p) c now r1) name s" for c
    using r1 by (simp add: trip_def holds_open_def Let_def)
  with Cons.IH [OF r1 Cons.prems(2)] Cons.IH [OF Cons.prems] i show ?case by (auto split: bool.split)
qed simp

lemma sm_load_filter: "sm_load m k = Some v \<Longrightarrow> P (k, v) \<Longrightarrow> sm_load (filter P m) k = Some v"
  by (induction m) (auto simp: sm_load_def split: if_splits)

lemma cb_step_holds:
  "holds_open r name s \<Longrightarrow> event_at e \<le> cs_ExpiresAt s \<Longrightarrow> \<forall>t. e \<noteq> ResetCircuit t name \<Longrightarrow> holds_open (cb_step known r e) name s"
  by (cases e) (auto simp: LoadPolicies_def Reset_def ListStates_def ApplyFailover_def EvaluateTrip_def Let_def
      failover_holds trip_holds sm_load_filter, simp_all add: holds_open_def sm_load_filter)

lemma run_holds:
  "holds_open r name s \<Longrightarrow> \<forall>e \<in> set es. event_at e \<le> cs_ExpiresAt s \<and> (\<forall>t. e \<noteq> ResetCircuit t name) \<Longrightarrow>
     holds_open (foldl (cb_step known) r es) name s"
  by (induction es arbitrary: r) (auto simp: cb_step_holds)

lemma EvaluateTrip_Some:
  assumes "EvaluateTrip known t prov mdl headers r = (Some name, r1)"
  shows "\<exists>p \<in> set (cb_policies r). pl_Name p = name \<and> pl_Enabled p \<and> sm_load (cb_circuits r1) name =
    Some (let c = parseCooldown (pl_DefaultCooldown p) (pl_CooldownHeader p) (normalizeHeaders headers) in
      \<lparr>cs_Status = ''open'', cs_OpenedAt = t, cs_Cooldown = c div second, cs_ExpiresAt = t + c\<rparr>)"
proof -
  let ?run = "trip_loop known t (str_trim prov) (str_trim mdl) (normalizeHeaders headers) (cb_policies r) r"
  have run: "?run = (Some name, r1)" using assms by (simp add: EvaluateTrip_def Let_def split: if_splits)
  then have "fst ?run = Some name" by simp
  from trip_loop_trips [OF this] run show ?thesis by auto
qed

text \<open>
  C35. A tripped circuit is open for exactly its cooldown: whatever other calls follow up to the end
  of the cooldown (new policies, other resets, listings, failovers, further responses that match a
  signal), the circuit is open at an instant just when that instant is not after the end. A second
  trip does not prolong it; only its own reset closes it early.
\<close>

theorem circuit_open_for_its_cooldown:
  assumes "EvaluateTrip known t prov mdl headers r = (Some name, r1)" "sm_load (cb_circuits r1) name = Some s"
    "\<forall>e \<in> set es. event_at e \<le> cs_ExpiresAt s \<and> (\<forall>u. e \<noteq> ResetCircuit u name)"
  shows "(\<forall>u. open_at (foldl (cb_step known) r1 es) u name \<longleftrightarrow> u \<le> cs_ExpiresAt s) \<and>
    (\<exists>p \<in> set (cb_policies r). pl_Name p = name \<and> cs_ExpiresAt s =
       t + parseCooldown (pl_DefaultCooldown p) (pl_CooldownHeader p) (normalizeHeaders headers)) \<and> t < cs_ExpiresAt s"
proof -
  obtain p where p: "p \<in> set (cb_policies r)" "pl_Name p = name"
    "s = (let c = parseCooldown (pl_DefaultCooldown p) (pl_CooldownHeader p) (normalizeHeaders headers) in
      \<lparr>cs_Status = ''open'', cs_OpenedAt = t, cs_Cooldown = c div second, cs_ExpiresAt = t + c\<rparr>)"
    using EvaluateTrip_Some [OF assms(1)] assms(2) by auto
  then have "holds_open r1 name s" using assms(2) by (simp add: holds_open_def Let_def)
  from run_holds [OF this assms(3)] have "holds_open (foldl (cb_step known) r1 es) name s" .
  then have "open_at (foldl (cb_step known) r1 es) u name \<longleftrightarrow> u \<le> cs_ExpiresAt s" for u
    by (simp add: holds_open_def open_at_def)
  moreover have "cs_ExpiresAt s = t + parseCooldown (pl_DefaultCooldown p) (pl_CooldownHeader p) (normalizeHeaders headers)"
    using p(3) by (simp add: Let_def)
  ultimately show ?thesis using p(1,2) parseCooldown_pos [of "pl_DefaultCooldown p" "pl_CooldownHeader p" "normalizeHeaders headers"]
    by auto
qed

definition quota_policy :: policy where
  "quota_policy = \<lparr>pl_Name = ''quota'', pl_Enabled = True, pl_PrimaryProvider = ''OpenAI'', pl_PrimaryModel = ''gpt'',
     pl_PrimaryKeyIDs = [], pl_FallbackProvider = ''azure'', pl_FallbackModel = '' gpt-2 '', pl_DefaultCooldown = [],
     pl_CooldownHeader = ''Retry-After'',
     pl_Condition = \<lparr>cd_Operator = [], cd_Signals = [\<lparr>sg_Source = [], sg_HeaderName = ''X-RateLimit-Remaining-Requests'',
       sg_HeaderValue = ''0'', sg_HeaderContains = []\<rparr>]\<rparr>\<rparr>"

definition quota_runtime :: cb_runtime where
  "quota_runtime = LoadPolicies [quota_policy] \<lparr>cb_policies = [], cb_circuits = []\<rparr>"

definition quota_headers :: "string smap" where
  "quota_headers = [(''x-ratelimit-remaining-req-minute'', ''0''), (''retry-after'', ''2m'')]"

theorem circuit_open_for_its_cooldown_witness:
  "\<exists>r1. EvaluateTrip (\<lambda>_. False) 0 ''openai'' ''gpt'' quota_headers quota_runtime = (Some ''quota'', r1) \<and>
     open_at (foldl (cb_step (\<lambda>_. False)) r1 [Listed minute, TripCall minute ''openai'' ''GPT'' quota_headers]) (2 * minute) ''quota'' \<and>
     \<not> open_at (foldl (cb_step (\<lambda>_. False)) r1 [Listed minute, TripCall minute ''openai'' ''GPT'' quota_headers]) (3 * minute) ''quota''"
proof -
  let ?es = "[Listed minute, TripCall minute ''openai'' ''GPT'' quota_headers]"
  let ?s = "\<lparr>cs_Status = ''open'', cs_OpenedAt = 0, cs_Cooldown = 120, cs_ExpiresAt = 2 * minute\<rparr>"
  let ?r1 = "snd (EvaluateTrip (\<lambda>_. False) 0 ''openai'' ''gpt'' quota_headers quota_runtime)"
  have "fst (EvaluateTrip (\<lambda>_. False) 0 ''openai'' ''gpt'' quota_headers quota_runtime) = Some ''quota''" by code_simp
  then have e: "EvaluateTrip (\<lambda>_. False) 0 ''openai'' ''gpt'' quota_headers quota_runtime = (Some ''quota'', ?r1)"
    by (metis prod.collapse)
  have s: "sm_load (cb_circuits ?r1) ''quota'' = Some ?s" by code_simp
  have m: "minute < 2 * minute" "2 * minute < 3 * minute" by (simp_all add: minute_def second_def)
  have "\<forall>e \<in> set ?es. event_at e \<le> cs_ExpiresAt ?s \<and> (\<forall>u. e \<noteq> ResetCircuit u ''quota'')" using m by simp
  from circuit_open_for_its_cooldown [OF e s this] e m(2) show ?thesis by (metis cb_state.select_convs(4) linorder_not_le order_refl)
qed

subsection \<open>Which fallback\<close>

definition open_policy :: "(string \<Rightarrow> bool) \<Rightarrow> instant \<Rightarrow> string \<Rightarrow> string \<Rightarrow> cb_runtime \<Rightarrow> policy option" where
  "open_policy known now provider model r =
     find (\<lambda>p. pl_Enabled p \<and> endpointMatches known (pl_PrimaryProvider p) (pl_PrimaryModel p) (str_trim provider) (str_trim model) \<and>
               open_at r now (pl_Name p)) (cb_policies r)"

lemma ApplyFailover_spec:
  "fst (ApplyFailover known now provider model r) =
     (if str_trim provider = [] \<or> str_trim model = [] then None
      else map_option (\<lambda>p. \<lparr>fd_PolicyName = pl_Name p, fd_FromProv = str_trim provider, fd_FromModel = str_trim model,
             fd_ToProv = str_trim (pl_FallbackProvider p), fd_ToModel = str_trim (pl_FallbackModel p)\<rparr>)
             (open_policy known now provider model r))"
  by (simp add: ApplyFailover_def Let_def failover_loop_spec open_policy_def)

text \<open>The two names of a header agree after normalising: one is present when the other is.\<close>

lemma copy_self: "sm_load (copy_header a b m) a = None \<longleftrightarrow> sm_load m a = None \<and> sm_load m b = None"
  by (auto simp: copy_header_def split: option.splits)

lemma copy_other: "k \<noteq> a \<Longrightarrow> sm_load (copy_header a b m) k = sm_load m k"
  by (simp add: copy_header_def split: option.split)

lemma alias_headers_agree:
  assumes "(a, b) \<in> set alias_pairs"
  shows "(sm_load (normalizeHeaders h) a = None) = (sm_load (normalizeHeaders h) b = None)"
proof (cases "h = []")
  case False
  let ?m = "fold (\<lambda>(k, v). sm_store (str_lower (str_trim k)) v) h []"
  have n: "normalizeHeaders h = fold (\<lambda>(a, b) m. copy_header b a (copy_header a b m)) alias_pairs ?m"
    using False by (simp add: normalizeHeaders_def)
  show ?thesis using assms unfolding n alias_pairs_def by (auto simp: copy_self copy_other)
qed (simp add: normalizeHeaders_def)

end
