(* ===== verification/LoadBalancer.thy ===== *)
theory LoadBalancer
  imports LlmRequest GovRouting
begin

text \<open>
  The adaptive routing runtime (framework/loadbalancer/runtime.go): its settings, the weighted
  provider keys and the marks of failed providers. A random number in [0, 1) is an argument.
  \<open>ReloadFromStore\<close> takes what the settings query returned.
\<close>

record lb_config =
  lc_Enabled :: bool
  lc_DirectionSelectionEnabled :: bool
  lc_RouteSelectionEnabled :: bool
  lc_RerouteFailedDirections :: bool
  lc_PruneFailedFallbacks :: bool

record provider_key =
  pk_ID :: string
  pk_Provider :: string
  pk_Weight :: float64
  pk_Enabled :: bool

record lb_runtime =
  lb_cfg :: lb_config
  lb_keys :: "provider_key list"
  lb_failedProviders :: "instant smap"

datatype settings_read = NoStore | NotFound | ReadError | BadJSON | Settings lb_config

definition default_config :: lb_config where
  "default_config = \<lparr>lc_Enabled = False, lc_DirectionSelectionEnabled = False, lc_RouteSelectionEnabled = False,
     lc_RerouteFailedDirections = False, lc_PruneFailedFallbacks = False\<rparr>"

definition ReloadFromStore :: "settings_read \<Rightarrow> lb_runtime \<Rightarrow> bool \<times> lb_runtime" where
  "ReloadFromStore rd r =
     (case rd of
        NoStore \<Rightarrow> (True, r)
      | NotFound \<Rightarrow> (True, r\<lparr>lb_cfg := default_config\<rparr>)
      | ReadError \<Rightarrow> (False, r)
      | BadJSON \<Rightarrow> (False, r)
      | Settings cfg \<Rightarrow> (True, r\<lparr>lb_cfg := cfg\<rparr>))"

definition SetProviderKeys :: "provider_key list \<Rightarrow> lb_runtime \<Rightarrow> lb_runtime" where
  "SetProviderKeys ks r = r\<lparr>lb_keys := ks\<rparr>"

definition failed_now :: "instant \<Rightarrow> lb_runtime \<Rightarrow> string \<Rightarrow> bool" where
  "failed_now now r provider =
     (case sm_load (lb_failedProviders r) provider of None \<Rightarrow> False | Some t \<Rightarrow> now - 5 * minute < t)"

definition usable_key :: "string \<Rightarrow> provider_key \<Rightarrow> bool" where
  "usable_key provider k \<longleftrightarrow> pk_Provider k = provider \<and> pk_Enabled k \<and> 0 < pk_Weight k"

definition key_candidates :: "instant \<Rightarrow> string \<Rightarrow> lb_runtime \<Rightarrow> provider_key list" where
  "key_candidates now provider r =
     (let first = filter (\<lambda>k. usable_key provider k \<and>
            \<not> (lc_PruneFailedFallbacks (lb_cfg r) \<and> failed_now now r (pk_Provider k))) (lb_keys r)
      in if first = [] \<and> lc_RerouteFailedDirections (lb_cfg r) then filter (usable_key provider) (lb_keys r) else first)"

definition SelectProviderKey :: "instant \<Rightarrow> float64 \<Rightarrow> string \<Rightarrow> lb_runtime \<Rightarrow> string option" where
  "SelectProviderKey now x provider r =
     (if \<not> lc_Enabled (lb_cfg r) \<or> \<not> lc_RouteSelectionEnabled (lb_cfg r) then None
      else
        let candidates = key_candidates now provider r; total = sum_list (map pk_Weight candidates) in
        if candidates = [] then None
        else if total \<le> 0 then Some (pk_ID (hd candidates))
        else case pick_target (\<le>) pk_Weight (x * total) 0 candidates of
            Some k \<Rightarrow> Some (pk_ID k)
          | None \<Rightarrow> Some (pk_ID (hd candidates)))"

definition MarkProviderFailed :: "instant \<Rightarrow> string \<Rightarrow> lb_runtime \<Rightarrow> lb_runtime" where
  "MarkProviderFailed now provider r =
     (let p = str_trim provider in
      if p = [] then r else r\<lparr>lb_failedProviders := sm_store p now (lb_failedProviders r)\<rparr>)"

definition ClearProviderFailure :: "string \<Rightarrow> lb_runtime \<Rightarrow> lb_runtime" where
  "ClearProviderFailure provider r =
     (let p = str_trim provider in
      if p = [] then r else r\<lparr>lb_failedProviders := sm_delete p (lb_failedProviders r)\<rparr>)"

definition ShouldPruneProvider :: "instant \<Rightarrow> string \<Rightarrow> lb_runtime \<Rightarrow> bool" where
  "ShouldPruneProvider now provider r =
     (if \<not> lc_Enabled (lb_cfg r) \<or> \<not> lc_PruneFailedFallbacks (lb_cfg r) then False
      else case sm_load (lb_failedProviders r) provider of
          None \<Rightarrow> False
        | Some t \<Rightarrow> time_sub now t < 5 * minute)"

subsection \<open>Laws\<close>

text \<open>With weights that are not negative, the choice with the weak comparison: it is an element,
  and one of positive weight unless the draw is exactly zero.\<close>

lemma pick_target_mem: "pick_target below w r c xs = Some x \<Longrightarrow> x \<in> set xs"
  by (induction xs arbitrary: c) (auto split: if_splits)

lemma pick_target_weight:
  "pick_target (\<le>) w r c xs = Some x \<Longrightarrow> c < r \<Longrightarrow> 0 < w x"
proof (induction xs arbitrary: c)
  case (Cons y ys)
  then show ?case by (cases "r \<le> c + w y") (auto simp: not_le)
qed simp

lemma pick_target_some:
  "r \<le> c + sum_list (map w xs) \<Longrightarrow> xs \<noteq> [] \<Longrightarrow> pick_target (\<le>) w r c xs \<noteq> None"
proof (induction xs arbitrary: c)
  case (Cons y ys)
  then show ?case using Cons.IH [of "c + w y"] by (cases "ys = []") (auto simp: add.assoc)
qed simp

lemma SelectProviderKey_usable:
  assumes "SelectProviderKey now x provider r = Some i"
  shows "\<exists>k \<in> set (lb_keys r). pk_ID k = i \<and> usable_key provider k"
proof -
  have "set (key_candidates now provider r) \<subseteq> {k \<in> set (lb_keys r). usable_key provider k}"
    by (auto simp: key_candidates_def Let_def)
  moreover have "\<exists>k \<in> set (key_candidates now provider r). pk_ID k = i"
    using assms by (auto simp: SelectProviderKey_def Let_def split: if_splits option.splits dest: pick_target_mem)
  ultimately show ?thesis by blast
qed

end
