(* ===== verification/GovPreRequest.thy ===== *)
theory GovPreRequest
  imports GovEvaluate GovRuleStore CircuitBreaker LoadBalancer
begin

text \<open>
  The routing phase of the governance plugin (plugins/governance/main.go,
  circuitbreaker_hook.go): routing rules, circuit-breaker failover, the provider allowlist, the
  weighted choice of a provider with its fallbacks, and the tools stamped for a virtual key.
  Log lines are left out; the random numbers of a call are an argument.
\<close>

definition KeyRoutingPinnedAPIKeyID :: string where "KeyRoutingPinnedAPIKeyID = ''unifai-routing-pinned-api-key-id''"
definition KeyRoutingAllowedProviders :: string where "KeyRoutingAllowedProviders = ''unifai-routing-allowed-providers''"
definition KeyRoutingEnginesUsed :: string where "KeyRoutingEnginesUsed = ''unifai-routing-engines-used''"
definition MCPContextKeyIncludeClients :: string where "MCPContextKeyIncludeClients = ''mcp-include-clients''"
definition KeyRequestQuery :: string where "KeyRequestQuery = ''unifai-request-query''"
definition circuitBreakerPrimaryProviderKey :: string where
  "circuitBreakerPrimaryProviderKey = ''governance-circuit-breaker-primary-provider''"
definition circuitBreakerPrimaryModelKey :: string where
  "circuitBreakerPrimaryModelKey = ''governance-circuit-breaker-primary-model''"

lemmas routing_keys = KeyRoutingPinnedAPIKeyID_def KeyRoutingAllowedProviders_def KeyRoutingEnginesUsed_def
  MCPContextKeyIncludeClients_def KeyRequestQuery_def circuitBreakerPrimaryProviderKey_def
  circuitBreakerPrimaryModelKey_def MCPContextKeyIncludeTools_def KeyGovernanceRoutingRuleID_def
  KeyGovernanceRoutingRuleName_def

text \<open>
  The parts of the plugin that the phase reads and writes. \<open>pp_policyRows\<close> is what the policy
  table holds (\<open>None\<close> is no workspace store or a failed query); \<open>pp_complexity\<close> is the
  complexity analysis of a request, \<open>None\<close> when no analyzer is set.
\<close>

record 'p pre_plugin =
  pp_gov :: governance_plugin
  pp_hasInMemory :: bool
  pp_rules :: "'p rule_state"
  pp_circuits :: cb_runtime
  pp_policyRows :: "policy list option"
  pp_policySyncedAt :: instant
  pp_lb :: lb_runtime
  pp_chainMaxDepth :: int
  pp_autoInjectDisabled :: "bool option"
  pp_known :: "string \<Rightarrow> bool"
  pp_complexity :: "(llm_request \<Rightarrow> string option) option"

record hook_draws =
  hd_routing :: "nat \<Rightarrow> draw"
  hd_provider :: float64
  hd_key :: float64

subsection \<open>Circuit breaker\<close>

definition syncCircuitBreakerPoliciesFromStore :: "instant \<Rightarrow> 'p pre_plugin \<Rightarrow> 'p pre_plugin" where
  "syncCircuitBreakerPoliciesFromStore now p =
     (if HasPolicies (pp_circuits p) \<and> time_sub now (pp_policySyncedAt p) < 5 * second then p
      else case pp_policyRows p of
          None \<Rightarrow> p
        | Some policies \<Rightarrow> p\<lparr>pp_circuits := LoadPolicies policies (pp_circuits p), pp_policySyncedAt := now\<rparr>)"

definition applyCircuitBreakerFailover ::
  "instant \<Rightarrow> 'p pre_plugin \<Rightarrow> gov_ctx \<Rightarrow> llm_request \<Rightarrow> gov_ctx \<times> llm_request \<times> 'p pre_plugin" where
  "applyCircuitBreakerFailover now p0 ctx req =
     (let p = syncCircuitBreakerPoliciesFromStore now p0; (provider, model, _) = GetRequestFields req in
      if model = [] then (ctx, req, p)
      else case ApplyFailover (pp_known p) now provider model (pp_circuits p) of
          (None, cb) \<Rightarrow> (ctx, req, p\<lparr>pp_circuits := cb\<rparr>)
        | (Some d, cb) \<Rightarrow>
            let ctx1 = CtxSetValue ctx circuitBreakerPrimaryProviderKey (CStr (fd_FromProv d));
                ctx2 = CtxSetValue ctx1 circuitBreakerPrimaryModelKey (CStr (fd_FromModel d));
                req1 = SetModel (fd_ToModel d) (SetProvider (fd_ToProv d) req)
            in (AppendToContextList ctx2 KeyRoutingEnginesUsed ''circuit-breaker'', req1, p\<lparr>pp_circuits := cb\<rparr>))"

text \<open>
  The trip after a response: \<open>final_chunk\<close>, \<open>provider\<close> and the two model names are
  what the response carries, \<open>headers\<close> the collected headers.
\<close>

definition evaluateCircuitBreakerTrip ::
  "instant \<Rightarrow> 'p pre_plugin \<Rightarrow> gov_ctx \<Rightarrow> bool \<Rightarrow> string \<Rightarrow> string \<Rightarrow> string \<Rightarrow> string smap \<Rightarrow> 'p pre_plugin" where
  "evaluateCircuitBreakerTrip now p0 ctx final_chunk provider originalModel resolvedModel headers =
     (if \<not> final_chunk then p0
      else
        let p = syncCircuitBreakerPoliciesFromStore now p0;
            model = (if originalModel = [] then resolvedModel else originalModel)
        in if model = [] \<or> GetStringFromContext ctx circuitBreakerPrimaryProviderKey \<noteq> [] \<or> headers = [] then p
           else p\<lparr>pp_circuits := snd (EvaluateTrip (pp_known p) now provider model headers (pp_circuits p))\<rparr>)"

subsection \<open>The allowlist\<close>

definition permits_model :: "string \<Rightarrow> provider_config \<Rightarrow> bool" where
  "permits_model model pc \<longleftrightarrow>
     model = [] \<or> (wl_IsAllowed (pc_AllowedModels pc) model \<and> \<not> bl_IsBlocked (pc_BlacklistedModels pc) model)"

definition publishRoutingAllowlist :: "gov_ctx \<Rightarrow> virtual_key option \<Rightarrow> string \<Rightarrow> gov_ctx" where
  "publishRoutingAllowlist ctx vk model =
     (case vk of
        None \<Rightarrow> ctx
      | Some v \<Rightarrow> CtxSetValue ctx KeyRoutingAllowedProviders
          (CStrs (map pc_Provider (filter (permits_model model) (vk_ProviderConfigs v)))))"

subsection \<open>Choosing a provider\<close>

definition getWeight :: "float64 option \<Rightarrow> float64" where
  "getWeight w = (case w of None \<Rightarrow> 1 | Some x \<Rightarrow> x)"

definition lb_model_allowed :: "'p pre_plugin \<Rightarrow> string \<Rightarrow> provider_config \<Rightarrow> bool" where
  "lb_model_allowed p model pc =
     (case (gp_catalog (pp_gov p), pp_hasInMemory p) of
        (Some cat, True) \<Rightarrow> IsModelAllowedForProvider cat (pc_Provider pc) model (pc_AllowedModels pc)
      | _ \<Rightarrow> wl_IsAllowed (pc_AllowedModels pc) model)"

definition blacklisted_provider :: "virtual_key \<Rightarrow> string \<Rightarrow> string \<Rightarrow> bool" where
  "blacklisted_provider vk model provider \<longleftrightarrow>
     (\<exists>pc \<in> set (vk_ProviderConfigs vk). pc_Provider pc = provider \<and> bl_IsBlocked (pc_BlacklistedModels pc) model)"

definition eligible :: "'p pre_plugin \<Rightarrow> store_iface \<Rightarrow> gov_ctx \<Rightarrow> virtual_key \<Rightarrow> string \<Rightarrow> provider_config \<Rightarrow> bool" where
  "eligible p gi ctx vk model pc \<longleftrightarrow>
     \<not> blacklisted_provider vk model (pc_Provider pc) \<and> lb_model_allowed p model pc \<and>
     \<not> isProviderBudgetViolated gi ctx vk pc \<and> \<not> isProviderRateLimitViolated gi ctx vk pc"

definition weighted_configs ::
  "'p pre_plugin \<Rightarrow> store_iface \<Rightarrow> gov_ctx \<Rightarrow> virtual_key \<Rightarrow> string \<Rightarrow> provider_config list" where
  "weighted_configs p gi ctx vk model =
     filter (\<lambda>pc. pc_Weight pc \<noteq> None) (filter (eligible p gi ctx vk model) (vk_ProviderConfigs vk))"

definition select_config :: "float64 \<Rightarrow> provider_config list \<Rightarrow> string" where
  "select_config x configs =
     (let w = (\<lambda>pc. getWeight (pc_Weight pc));
          selected = (case pick_target (\<le>) w (x * sum_list (map w configs)) 0 configs of
              Some pc \<Rightarrow> pc_Provider pc | None \<Rightarrow> [])
      in if selected = [] then pc_Provider (hd configs) else selected)"

definition refine :: "'p pre_plugin \<Rightarrow> string \<Rightarrow> string \<Rightarrow> string list + string" where
  "refine p provider model =
     (case gp_catalog (pp_gov p) of None \<Rightarrow> Inr model | Some cat \<Rightarrow> RefineModelForProvider cat provider model)"

definition lb_fallbacks ::
  "instant \<Rightarrow> 'p pre_plugin \<Rightarrow> string \<Rightarrow> string \<Rightarrow> provider_config list \<Rightarrow> fallback list" where
  "lb_fallbacks now p model selected configs =
     (let sorted = sort_key (\<lambda>pc. - getWeight (pc_Weight pc)) configs;
          others = filter (\<lambda>pc. pc_Provider pc \<noteq> selected) sorted;
          pruned = concat (map (\<lambda>pc.
             if ShouldPruneProvider now (pc_Provider pc) (pp_lb p) then []
             else (case refine p (pc_Provider pc) model of
                     Inl _ \<Rightarrow> []
                   | Inr m \<Rightarrow> [\<lparr>fb_Provider = pc_Provider pc, fb_Model = m\<rparr>])) others)
      in if pruned = [] \<and> lc_RerouteFailedDirections (lb_cfg (pp_lb p))
         then map (\<lambda>pc. \<lparr>fb_Provider = pc_Provider pc,
                fb_Model = (case refine p (pc_Provider pc) model of Inl _ \<Rightarrow> model | Inr m \<Rightarrow> m)\<rparr>) others
         else pruned)"

text \<open>\<open>Inl\<close> is the error of an ambiguous model name.\<close>

definition loadBalanceProvider ::
  "instant \<Rightarrow> hook_draws \<Rightarrow> 'p pre_plugin \<Rightarrow> gov_ctx \<Rightarrow> llm_request \<Rightarrow> virtual_key \<Rightarrow>
   string list + (gov_ctx \<times> llm_request)" where
  "loadBalanceProvider now d p ctx req vk =
     (let (provider, model, existing) = GetRequestFields req; cfg = lb_cfg (pp_lb p) in
      if model = [] \<or> provider \<noteq> [] \<or> (lc_Enabled cfg \<and> \<not> lc_DirectionSelectionEnabled cfg) \<or> vk_ProviderConfigs vk = []
      then Inr (ctx, req)
      else
        let weighted = weighted_configs p (local_iface (rs_store (pp_rules p)) now) ctx vk model in
        if weighted = [] then Inr (ctx, req)
        else
          let selected = select_config (hd_provider d) weighted in
          (case refine p selected model of
             Inl candidates \<Rightarrow> Inl candidates
           | Inr refined \<Rightarrow>
               let req1 = SetModel refined (SetProvider selected req);
                   ctx1 = (case SelectProviderKey now (hd_key d) selected (pp_lb p) of
                       Some i \<Rightarrow> if i \<noteq> [] then CtxSetValue ctx KeyRoutingPinnedAPIKeyID (CStr i) else ctx
                     | None \<Rightarrow> ctx);
                   ctx2 = AppendToContextList ctx1 KeyRoutingEnginesUsed ''governance'';
                   req2 = (if existing = [] \<and> 1 < length weighted
                           then SetFallbacks (lb_fallbacks now p model selected weighted) req1 else req1)
               in Inr (ctx2, req2)))"

subsection \<open>Routing rules\<close>

definition context_map :: "gov_ctx \<Rightarrow> string \<Rightarrow> string smap" where
  "context_map ctx k = (case CtxValue ctx k of CStrMap m \<Rightarrow> m | _ \<Rightarrow> [])"

definition rule_fallbacks :: "(string \<Rightarrow> bool) \<Rightarrow> string \<Rightarrow> string list \<Rightarrow> fallback list" where
  "rule_fallbacks known model fbs =
     concat (map (\<lambda>fb.
        case ParseModelString known fb [] of
          (fp, fm) \<Rightarrow>
            let tp = str_trim fp; tm = str_trim fm in
            if tp = [] then []
            else [\<lparr>fb_Provider = tp, fb_Model = (if tm = [] \<and> model \<noteq> [] then model else tm)\<rparr>]) fbs)"

definition applyRoutingRules ::
  "'p cel \<Rightarrow> hook_draws \<Rightarrow> 'p pre_plugin \<Rightarrow> gov_ctx \<Rightarrow> llm_request \<Rightarrow> virtual_key option \<Rightarrow>
   gov_ctx \<times> llm_request \<times> 'p pre_plugin" where
  "applyRoutingRules cel d p ctx req vk =
     (let (provider, model, _) = GetRequestFields req in
      if model = [] then (ctx, req, p)
      else
        let rx = \<lparr>rx_VirtualKey = vk, rx_Provider = provider, rx_Model = model, rx_RequestType = rq_RequestType req,
               rx_Headers = context_map ctx KeyRequestHeaders, rx_QueryParams = context_map ctx KeyRequestQuery,
               rx_complexity = map_option (\<lambda>f. f req) (pp_complexity p)\<rparr>
        in case EvaluateRoutingRules cel (pp_chainMaxDepth p) (hd_routing d) (pp_rules p) ctx rx of
             (None, ctx1, rs) \<Rightarrow> (ctx1, req, p\<lparr>pp_rules := rs\<rparr>)
           | (Some dec, ctx1, rs) \<Rightarrow>
               let req1 = (if rd_Provider dec \<noteq> [] then SetProvider (rd_Provider dec) req else req);
                   req2 = (if rd_Model dec \<noteq> [] then SetModel (rd_Model dec) req1 else req1);
                   ctx2 = AppendToContextList ctx1 KeyRoutingEnginesUsed ''routing-rule'';
                   req3 = (if rd_Fallbacks dec \<noteq> []
                           then SetFallbacks (rule_fallbacks (pp_known p) model (rd_Fallbacks dec)) req2 else req2);
                   ctx3 = (if rd_KeyID dec \<noteq> [] then CtxSetValue ctx2 KeyRoutingPinnedAPIKeyID (CStr (rd_KeyID dec)) else ctx2)
               in (ctx3, req3, p\<lparr>pp_rules := rs\<rparr>))"

subsection \<open>The hook\<close>

definition stamp_tools :: "'p pre_plugin \<Rightarrow> gov_ctx \<Rightarrow> virtual_key \<Rightarrow> gov_ctx" where
  "stamp_tools p ctx vk =
     (let gp = pp_gov p;
          (provided, ctx1) = pruneMCPIncludeToolsFromContext (gp_toolGroups gp) (gp_allowAll gp) ctx vk;
          autoInjectDisabled = (pp_autoInjectDisabled p = Some True);
          includeClientsPresent = (CtxValue ctx1 MCPContextKeyIncludeClients \<noteq> CNil)
      in if \<not> provided \<and> (\<not> autoInjectDisabled \<or> includeClientsPresent)
         then CtxSetValue ctx1 MCPContextKeyIncludeTools
           (CStrs (filterMCPIncludeToolsByGroups (gp_toolGroups gp) ctx1 (Some vk)
              (computeMCPIncludeToolsWith vk (gp_allowAll gp))))
         else ctx1)"

definition runPreRequestRouting ::
  "'p cel \<Rightarrow> instant \<Rightarrow> hook_draws \<Rightarrow> 'p pre_plugin \<Rightarrow> gov_ctx \<Rightarrow> virtual_key option \<Rightarrow> bool \<Rightarrow> string \<Rightarrow> request_type \<Rightarrow>
   string list option \<times> string \<times> gov_ctx \<times> 'p pre_plugin" where
  "runPreRequestRouting cel now d p ctx vk hasRoutingRules modelIn requestType =
     (let (providerIn, parsedModel) = ParseModelString (pp_known p) modelIn [];
          synthetic = \<lparr>rq_RequestType = requestType, rq_Kind = Some Chat, rq_Provider = providerIn,
             rq_Model = Some parsedModel, rq_Fallbacks = []\<rparr>;
          (ctx1, req1, p1) = (if hasRoutingRules then applyRoutingRules cel d p ctx synthetic vk else (ctx, synthetic, p));
          finish = (\<lambda>ctx req. let (provider, model, _) = GetRequestFields req in
             (None, if provider \<noteq> [] then provider @ ''/'' @ model else model, ctx, p1))
      in case vk of
           None \<Rightarrow> finish ctx1 req1
         | Some v \<Rightarrow>
             (case loadBalanceProvider now d p1 ctx1 req1 v of
                Inl e \<Rightarrow> (Some e, modelIn, ctx1, p1)
              | Inr (ctx2, req2) \<Rightarrow> finish (stamp_tools p1 ctx2 v) req2))"

text \<open>
  The request types that pass through untouched, the key that stops the hook, then the two paths:
  \<open>meta\<close> is the model of the large-payload metadata, when the context has one.
\<close>

definition usable_vk :: "instant \<Rightarrow> virtual_key option \<Rightarrow> bool" where
  "usable_vk now vk = (case vk of None \<Rightarrow> False | Some v \<Rightarrow> IsActiveValue v \<and> \<not> IsExpiredAt v now)"

definition PreRequestHook ::
  "'p cel \<Rightarrow> instant \<Rightarrow> hook_draws \<Rightarrow> 'p pre_plugin \<Rightarrow> gov_ctx \<Rightarrow> llm_request \<Rightarrow> string option \<Rightarrow>
   string list option \<times> gov_ctx \<times> llm_request \<times> string option \<times> 'p pre_plugin" where
  "PreRequestHook cel now d p0 ctx req meta =
     (if rq_RequestType req = PassthroughRequest \<or> rq_RequestType req = PassthroughStreamRequest
      then (None, ctx, req, meta, p0)
      else
        let keyValue = GetStringFromContext ctx KeyVirtualKey;
            st = rs_store (pp_rules p0);
            hasRoutingRules = HasRoutingRules st;
            p = syncCircuitBreakerPoliciesFromStore now p0;
            vk = (if keyValue = [] then None else GetVirtualKey st keyValue)
        in if keyValue = [] \<and> \<not> hasRoutingRules \<and> \<not> HasPolicies (pp_circuits p) then (None, ctx, req, meta, p)
           else if keyValue \<noteq> [] \<and> \<not> usable_vk now vk then (None, ctx, req, meta, p)
           else
             let ctx1 = stampGovernanceCtx (gp_workspace (pp_gov p)) (Some st) ctx vk in
             (case meta of
                Some (c # s) \<Rightarrow>
                  (case runPreRequestRouting cel now d p ctx1 vk hasRoutingRules (c # s) (rq_RequestType req) of
                     (Some e, _, ctx2, p2) \<Rightarrow> (Some e, ctx2, req, meta, p2)
                   | (None, newModel, ctx2, p2) \<Rightarrow>
                       let m = (if newModel \<noteq> [] then newModel else c # s) in
                       (None, publishRoutingAllowlist ctx2 vk (snd (ParseModelString (pp_known p) m [])), req, Some m, p2))
              | _ \<Rightarrow>
                  let (ctx2, req2, p2) = (if hasRoutingRules then applyRoutingRules cel d p ctx1 req vk else (ctx1, req, p));
                      (ctx3, req3, p3) = applyCircuitBreakerFailover now p2 ctx2 req2;
                      ctx4 = publishRoutingAllowlist ctx3 vk (fst (snd (GetRequestFields req3)))
                  in (case vk of
                        None \<Rightarrow> (None, ctx4, req3, meta, p3)
                      | Some v \<Rightarrow>
                          (case loadBalanceProvider now d p3 ctx4 req3 v of
                             Inl e \<Rightarrow> (Some e, ctx4, req3, meta, p3)
                           | Inr (ctx5, req5) \<Rightarrow> (None, stamp_tools p3 ctx5 v, req5, meta, p3)))))"

definition hook_request :: "string list option \<times> gov_ctx \<times> llm_request \<times> string option \<times> 'p pre_plugin \<Rightarrow> llm_request" where
  "hook_request res = fst (snd (snd res))"

subsection \<open>The choice stays within the key\<close>

lemma select_config_mem: "configs \<noteq> [] \<Longrightarrow> select_config x configs \<in> pc_Provider ` set configs"
  by (auto simp: select_config_def Let_def split: option.split dest: pick_target_mem)

lemma set_weighted_configs:
  "set (weighted_configs p gi ctx vk model) =
     {pc \<in> set (vk_ProviderConfigs vk). eligible p gi ctx vk model pc \<and> pc_Weight pc \<noteq> None}"
  by (auto simp: weighted_configs_def)

lemma lb_fallbacks_from:
  "fb \<in> set (lb_fallbacks now p model selected configs) \<Longrightarrow>
     fb_Provider fb \<noteq> selected \<and> (\<exists>pc \<in> set configs. pc_Provider pc = fb_Provider fb)"
  by (auto simp: lb_fallbacks_def Let_def split: if_splits sum.splits)

text \<open>
  C36. Load balancing stays within the virtual key: when it sets a provider, the provider and every
  fallback it adds belong to configs of the key that carry a weight, permit the model, are not
  blacklisted for it and have budget and rate limit left; no fallback is the chosen provider, and
  fallbacks of the caller are kept.
\<close>

theorem balanced_choice_within_key:
  assumes "inference_request req" "GetRequestFields req = ([], model, fbs)"
    "loadBalanceProvider now d p ctx req vk = Inr (ctx', req')" "GetRequestFields req' = (provider, model', fbs')"
    "provider \<noteq> []"
  shows "let gi = local_iface (rs_store (pp_rules p)) now;
      usable = (\<lambda>pc. pc \<in> set (vk_ProviderConfigs vk) \<and> pc_Weight pc \<noteq> None \<and>
        (\<forall>pc' \<in> set (vk_ProviderConfigs vk). pc_Provider pc' = pc_Provider pc \<longrightarrow> \<not> bl_IsBlocked (pc_BlacklistedModels pc') model) \<and>
        lb_model_allowed p model pc \<and> \<not> isProviderBudgetViolated gi ctx vk pc \<and> \<not> isProviderRateLimitViolated gi ctx vk pc)
    in (\<exists>pc. usable pc \<and> pc_Provider pc = provider) \<and>
      (if fbs \<noteq> [] then fbs' = fbs
       else \<forall>fb \<in> set fbs'. fb_Provider fb \<noteq> provider \<and> (\<exists>pc. usable pc \<and> pc_Provider pc = fb_Provider fb))"
proof -
  let ?w = "weighted_configs p (local_iface (rs_store (pp_rules p)) now) ctx vk model"
  let ?sel = "select_config (hd_provider d) ?w"
  have ne: "?w \<noteq> []" and act: "model \<noteq> []"
    using assms(2-5) by (auto simp: loadBalanceProvider_def Let_def split: if_splits)
  obtain m where m: "refine p ?sel model = Inr m"
    "req' = (if fbs = [] \<and> 1 < length ?w
        then SetFallbacks (lb_fallbacks now p model ?sel ?w) (SetModel m (SetProvider ?sel req))
        else SetModel m (SetProvider ?sel req))"
    using assms(2-5) ne by (auto simp: loadBalanceProvider_def Let_def split: if_splits sum.splits)
  note inf = inference_setters [OF assms(1)] inference_setters(2,3,5) [OF inference_setters(4) [OF assms(1)]]
    inference_setters(3) [OF inference_setters(5) [OF inference_setters(4) [OF assms(1)]]]
  have f: "provider = ?sel" "fbs' = (if fbs = [] \<and> 1 < length ?w then lb_fallbacks now p model ?sel ?w else fbs)"
    using assms(2,4) m(2) by (auto simp: inf split: if_splits)
  have "\<exists>pc \<in> set ?w. pc_Provider pc = provider" using select_config_mem [OF ne, of "hd_provider d"] f(1) by (metis imageE)
  moreover have "\<forall>fb \<in> set fbs'. fb_Provider fb \<noteq> provider \<and> (\<exists>pc \<in> set ?w. pc_Provider pc = fb_Provider fb)" if "fbs = []"
    using that f by (auto split: if_splits dest!: lb_fallbacks_from)
  moreover have "(pc \<in> set (vk_ProviderConfigs vk) \<and> pc_Weight pc \<noteq> None \<and>
        (\<forall>pc' \<in> set (vk_ProviderConfigs vk). pc_Provider pc' = pc_Provider pc \<longrightarrow> \<not> bl_IsBlocked (pc_BlacklistedModels pc') model) \<and>
        lb_model_allowed p model pc \<and> \<not> isProviderBudgetViolated (local_iface (rs_store (pp_rules p)) now) ctx vk pc \<and>
        \<not> isProviderRateLimitViolated (local_iface (rs_store (pp_rules p)) now) ctx vk pc) \<longleftrightarrow> pc \<in> set ?w" for pc
    by (auto simp: set_weighted_configs eligible_def blacklisted_provider_def)
  ultimately show ?thesis using f(2) unfolding Let_def by (simp only: Bex_def) simp
qed

subsection \<open>A concrete plugin\<close>

definition weighted_vk :: virtual_key where
  "weighted_vk = sample_vk\<lparr>vk_ProviderConfigs :=
     [sample_pc\<lparr>pc_Provider := ''openai'', pc_Weight := Some 3\<rparr>,
      sample_pc\<lparr>pc_ID := 2, pc_Provider := ''azure'', pc_Weight := Some 1\<rparr>]\<rparr>"

definition balancing_plugin :: "cel_expr pre_plugin" where
  "balancing_plugin = \<lparr>pp_gov = sample_plugin, pp_hasInMemory = True,
     pp_rules = \<lparr>rs_store = storeVirtualKey sample_store ''sk-uf-1'' weighted_vk, rs_programs = []\<rparr>,
     pp_circuits = quota_runtime, pp_policyRows = None, pp_policySyncedAt = 0,
     pp_lb = \<lparr>lb_cfg = default_config, lb_keys = [], lb_failedProviders = []\<rparr>, pp_chainMaxDepth = 10,
     pp_autoInjectDisabled = None, pp_known = (\<lambda>p. p \<in> {''openai'', ''azure''}), pp_complexity = None\<rparr>"

definition chat_request :: llm_request where
  "chat_request = \<lparr>rq_RequestType = ''chat_completion'', rq_Kind = Some Chat, rq_Provider = [], rq_Model = Some ''gpt'',
     rq_Fallbacks = []\<rparr>"

definition zero_draws :: hook_draws where
  "zero_draws = \<lparr>hd_routing = first_draws, hd_provider = 1 / 2, hd_key = 0\<rparr>"

theorem balanced_choice_within_key_witness:
  "\<exists>ctx' req'. loadBalanceProvider 0 zero_draws balancing_plugin [] chat_request weighted_vk = Inr (ctx', req') \<and>
     GetRequestFields req' = (''openai'', ''gpt'', [\<lparr>fb_Provider = ''azure'', fb_Model = ''gpt''\<rparr>]) \<and>
     (\<exists>pc \<in> set (vk_ProviderConfigs weighted_vk). pc_Provider pc = ''openai'' \<and> pc_Weight pc \<noteq> None)"
proof -
  let ?run = "loadBalanceProvider 0 zero_draws balancing_plugin [] chat_request weighted_vk"
  have r: "(case ?run of Inl _ \<Rightarrow> False | Inr (c, q) \<Rightarrow>
      GetRequestFields q = (''openai'', ''gpt'', [\<lparr>fb_Provider = ''azure'', fb_Model = ''gpt''\<rparr>]))" by code_simp
  then obtain ctx' req' where run: "?run = Inr (ctx', req')"
    and fields: "GetRequestFields req' = (''openai'', ''gpt'', [\<lparr>fb_Provider = ''azure'', fb_Model = ''gpt''\<rparr>])"
    by (cases ?run) auto
  have "inference_request chat_request" by code_simp
  moreover have "GetRequestFields chat_request = ([], ''gpt'', [])" by code_simp
  ultimately have "\<exists>pc \<in> set (vk_ProviderConfigs weighted_vk). pc_Provider pc = ''openai'' \<and> pc_Weight pc \<noteq> None"
    using balanced_choice_within_key [OF _ _ run fields] unfolding Let_def by blast
  with run fields show ?thesis by blast
qed

subsection \<open>Failover and the order of the steps\<close>

lemma no_provider_no_failover: "ApplyFailover known now [] model r = (None, r)"
  by (simp add: ApplyFailover_def Let_def str_trim_def trim_left_def trim_right_def)

lemma sync_fields:
  "syncCircuitBreakerPoliciesFromStore now p =
     p\<lparr>pp_circuits := pp_circuits (syncCircuitBreakerPoliciesFromStore now p),
       pp_policySyncedAt := pp_policySyncedAt (syncCircuitBreakerPoliciesFromStore now p)\<rparr>"
  by (simp add: syncCircuitBreakerPoliciesFromStore_def split: option.split)

lemma sync_circuits:
  "\<exists>c t. syncCircuitBreakerPoliciesFromStore now p = p\<lparr>pp_circuits := c, pp_policySyncedAt := t\<rparr>"
  using sync_fields by blast

lemma balance_frame:
  "loadBalanceProvider now d (p\<lparr>pp_circuits := c, pp_policySyncedAt := t\<rparr>) ctx req vk = loadBalanceProvider now d p ctx req vk"
proof -
  let ?q = "p\<lparr>pp_circuits := c, pp_policySyncedAt := t\<rparr>"
  have e: "lb_model_allowed ?q = lb_model_allowed p"
    by (rule ext)+ (simp add: lb_model_allowed_def split: option.split bool.split)
  have w: "weighted_configs ?q gi ctx vk m = weighted_configs p gi ctx vk m" for gi ctx vk m
    by (simp add: weighted_configs_def eligible_def [abs_def] e)
  have r: "refine ?q a b = refine p a b" for a b by (simp add: refine_def)
  have g: "pp_lb ?q = pp_lb p" "pp_rules ?q = pp_rules p" by simp_all
  have f: "lb_fallbacks now ?q m s cs = lb_fallbacks now p m s cs" for m s cs
    unfolding lb_fallbacks_def Let_def r by simp
  show ?thesis unfolding loadBalanceProvider_def Let_def w f r g by (rule refl)
qed

text \<open>
  The failover runs before a provider is chosen: a request that arrives without a provider,
  under a virtual key and without routing rules, leaves the hook as the plain load balancing
  leaves it, whatever circuits are open. So an open circuit does not keep the weighted choice from
  the tripped endpoint.
\<close>

lemma balancing_ignores_open_circuits:
  assumes "GetRequestFields req = ([], model, fbs)" "\<not> HasRoutingRules (rs_store (pp_rules p))"
    "GetStringFromContext ctx KeyVirtualKey = key" "key \<noteq> []" "GetVirtualKey (rs_store (pp_rules p)) key = Some vk"
    "usable_vk now (Some vk)" "rq_RequestType req \<notin> {PassthroughRequest, PassthroughStreamRequest}"
    "ctx1 = stampGovernanceCtx (gp_workspace (pp_gov p)) (Some (rs_store (pp_rules p))) ctx (Some vk)"
    "loadBalanceProvider now d p (publishRoutingAllowlist ctx1 (Some vk) model) req vk = Inr (ctx2, req')"
  shows "hook_request (PreRequestHook cel now d (p\<lparr>pp_circuits := c\<rparr>) ctx req None) = req'"
proof -
  let ?p = "p\<lparr>pp_circuits := c\<rparr>"
  obtain c' t' where s: "syncCircuitBreakerPoliciesFromStore now ?p = ?p\<lparr>pp_circuits := c', pp_policySyncedAt := t'\<rparr>"
    using sync_circuits by blast
  obtain c'' t'' where "syncCircuitBreakerPoliciesFromStore now (syncCircuitBreakerPoliciesFromStore now ?p) =
      (syncCircuitBreakerPoliciesFromStore now ?p)\<lparr>pp_circuits := c'', pp_policySyncedAt := t''\<rparr>"
    using sync_circuits by blast
  then have s2: "syncCircuitBreakerPoliciesFromStore now (p\<lparr>pp_circuits := c', pp_policySyncedAt := t'\<rparr>) =
      p\<lparr>pp_circuits := c'', pp_policySyncedAt := t''\<rparr>" by (simp add: s)
  have f: "applyCircuitBreakerFailover now (p\<lparr>pp_circuits := c', pp_policySyncedAt := t'\<rparr>) ctx1 req =
      (ctx1, req, p\<lparr>pp_circuits := c'', pp_policySyncedAt := t''\<rparr>)"
    using assms(1) by (simp add: applyCircuitBreakerFailover_def Let_def s2 no_provider_no_failover)
  show ?thesis
    using assms(2-7,9) by (simp add: PreRequestHook_def Let_def s f [unfolded assms(8)] assms(1,8) hook_request_def balance_frame)
qed

definition open_quota :: cb_runtime where
  "open_quota = snd (EvaluateTrip (\<lambda>_. False) 0 ''openai'' ''gpt'' quota_headers quota_runtime)"

definition vk_ctx :: gov_ctx where "vk_ctx = CtxSetValue [] KeyVirtualKey (CStr ''sk-uf-1'')"

lemma balancing_ignores_open_circuits_witness:
  "open_at open_quota 1 ''quota'' \<and>
   GetRequestFields (hook_request (PreRequestHook tiny_cel 1 zero_draws (balancing_plugin\<lparr>pp_circuits := open_quota\<rparr>)
     vk_ctx chat_request None)) = (''openai'', ''gpt'', [\<lparr>fb_Provider = ''azure'', fb_Model = ''gpt''\<rparr>])"
proof -
  let ?st = "rs_store (pp_rules balancing_plugin)"
  let ?c = "stampGovernanceCtx (gp_workspace (pp_gov balancing_plugin)) (Some ?st) vk_ctx (Some weighted_vk)"
  let ?run = "loadBalanceProvider 1 zero_draws balancing_plugin (publishRoutingAllowlist ?c (Some weighted_vk) ''gpt'')
    chat_request weighted_vk"
  have "(case ?run of Inl _ \<Rightarrow> False | Inr (c, q) \<Rightarrow>
      GetRequestFields q = (''openai'', ''gpt'', [\<lparr>fb_Provider = ''azure'', fb_Model = ''gpt''\<rparr>]))" by code_simp
  then obtain ctx' req' where run: "?run = Inr (ctx', req')"
    and fields: "GetRequestFields req' = (''openai'', ''gpt'', [\<lparr>fb_Provider = ''azure'', fb_Model = ''gpt''\<rparr>])"
    by (cases ?run) auto
  have "GetRequestFields chat_request = ([], ''gpt'', [])" "\<not> HasRoutingRules ?st"
    "GetStringFromContext vk_ctx KeyVirtualKey = ''sk-uf-1''" "''sk-uf-1'' \<noteq> ([] :: string)"
    "usable_vk 1 (Some weighted_vk)" "rq_RequestType chat_request \<notin> {PassthroughRequest, PassthroughStreamRequest}"
    by code_simp+
  moreover have "GetVirtualKey ?st ''sk-uf-1'' = Some weighted_vk"
    by (simp add: balancing_plugin_def GetVirtualKey_def storeVirtualKey_def Let_def)
  ultimately have "hook_request (PreRequestHook tiny_cel 1 zero_draws (balancing_plugin\<lparr>pp_circuits := open_quota\<rparr>)
      vk_ctx chat_request None) = req'"
    using balancing_ignores_open_circuits [OF _ _ _ _ _ _ _ refl run] by blast
  moreover have "open_at open_quota 1 ''quota''" by code_simp
  ultimately show ?thesis using fields by simp
qed

text \<open>
  The failover of a batch job mixes two endpoints: the setter of the provider leaves out batch
  requests while the setter of the model does not, so a batch with a model keeps the tripped
  provider and gets the model of the fallback.
\<close>

lemma batch_failover_mixes_endpoints:
  assumes "rq_Kind req = Some BatchCreate" "rq_Model req = Some model" "model \<noteq> []"
    "ApplyFailover (pp_known p1) now (rq_Provider req) model (pp_circuits p1) = (Some dec, cb)"
    "p1 = syncCircuitBreakerPoliciesFromStore now p"
  shows "\<exists>ctx' p'. applyCircuitBreakerFailover now p ctx req =
    (ctx', req\<lparr>rq_Model := Some (fd_ToModel dec)\<rparr>, p')"
  using assms by (auto simp: applyCircuitBreakerFailover_def Let_def GetRequestFields_def SetProvider_def SetModel_def
      kind_lists opt_str_def)

lemma rules_keep_circuits: "pp_circuits (snd (snd (applyRoutingRules cel d p c r v))) = pp_circuits p"
  by (simp add: applyRoutingRules_def Let_def split: prod.split option.split)

lemma large_routing_keeps_circuits:
  "pp_circuits (snd (snd (snd (runPreRequestRouting cel now d p c v h mi t)))) = pp_circuits p"
  by (cases h; cases v) (simp_all add: runPreRequestRouting_def Let_def case_prod_unfold rules_keep_circuits sum.case_eq_if)

text \<open>
  On the large-payload path only the model name of the metadata is routed: the request leaves
  the hook as it came, so the fallbacks of a matching routing rule and those of load balancing
  are lost, and no circuit is consulted.
\<close>

lemma large_payload_keeps_request:
  assumes "meta = Some (m # ms)"
  shows "hook_request (PreRequestHook cel now d p ctx req meta) = req \<and>
    pp_circuits (snd (snd (snd (snd (PreRequestHook cel now d p ctx req meta))))) \<in>
      {pp_circuits p, pp_circuits (syncCircuitBreakerPoliciesFromStore now p)}"
  using assms by (simp add: PreRequestHook_def hook_request_def Let_def case_prod_unfold option.case_eq_if
      large_routing_keeps_circuits)

end
