(* ===== verification/KeyConfig.thy ===== *)
theory KeyConfig
  imports GovTables GovStore
begin

text \<open>
  The key configuration of the model catalog (framework/modelcatalog/keyconfig/store.go): for each
  provider a snapshot of its keys and the lists aggregated over them. Ranging over the aliases of a
  key and over the collected denials follows the order of the lists here; of an alias the
  wire model and the canonical name are kept.
\<close>

subsection \<open>Keys and snapshots\<close>

record alias_config =
  ac_ModelID :: string
  ac_ModelName :: "string option"

record key =
  ky_ID :: string
  ky_Enabled :: "bool option"
  ky_Models :: WhiteList
  ky_BlacklistedModels :: BlackList
  ky_Aliases :: "alias_config smap"

record key_entry =
  ke_KeyID :: string
  ke_Enabled :: bool
  ke_Allowed :: WhiteList
  ke_Blacklisted :: BlackList
  ke_Aliases :: "alias_config smap"

record alias_owner =
  ao_KeyID :: string
  ao_Config :: alias_config

record provider_state =
  pv_entries :: "key_entry list"
  pv_allowed :: WhiteList
  pv_blacklisted :: BlackList
  pv_aliasIndex :: "alias_owner smap"

type_synonym key_config = "provider_state smap"

definition StandardProviders :: "string list" where
  "StandardProviders =
    [''anthropic'', ''azure'', ''bedrock'', ''bedrock_mantle'', ''cerebras'', ''cohere'', ''deepseek'',
     ''gemini'', ''groq'', ''mistral'', ''ollama'', ''opencode-go'', ''opencode-zen'', ''openai'',
     ''parasail'', ''perplexity'', ''sgl'', ''vertex'', ''openrouter'', ''elevenlabs'', ''huggingface'',
     ''nebius'', ''xai'', ''replicate'', ''vllm'', ''runway'', ''runware'', ''fireworks'', ''together'',
     ''siliconflow'', ''moonshot'', ''minimax'', ''sambanova'', ''deepinfra'', ''novita'', ''nvidia'',
     ''hyperbolic'', ''portkey'', ''dashscope'', ''zhipu'', ''baichuan'', ''stepfun'', ''upstage'', ''ai21'',
     ''sakana'', ''baseten'', ''anyscale'', ''lepton'', ''friendli'', ''modelscope'', ''hunyuan'', ''qianfan'',
     ''ark'', ''sarvam'', ''krutrim'', ''sensenova'', ''spark'', ''reka'', ''featherless'', ''scaleway'',
     ''voyage'', ''jina'', ''nscale'', ''publicai'', ''inferencenet'', ''kluster'', ''lingyiwanwu'',
     ''inceptionlabs'', ''arcee'', ''nousresearch'', ''morphllm'', ''nlpcloud'', ''monsterapi'', ''aionlabs'',
     ''totalgpt'', ''mancer'', ''dit'', ''opper'', ''relace'', ''openadapter'', ''nanogpt'', ''nararouter'',
     ''navy'', ''freemodel'', ''freeai'', ''freeinference'', ''fenay'', ''empower'', ''fastinfra'', ''wafer'',
     ''gmiserving'', ''cerebrium'', ''dashscopecn'']"

definition IsStandardProvider :: "string \<Rightarrow> bool" where
  "IsStandardProvider p \<longleftrightarrow> p \<in> set StandardProviders"

definition key_enabled :: "key \<Rightarrow> bool" where
  "key_enabled k \<longleftrightarrow> ky_Enabled k = None \<or> ky_Enabled k = Some True"

definition entry_of_key :: "key \<Rightarrow> key_entry" where
  "entry_of_key k = \<lparr>ke_KeyID = ky_ID k, ke_Enabled = key_enabled k, ke_Allowed = ky_Models k,
     ke_Blacklisted = ky_BlacklistedModels k, ke_Aliases = ky_Aliases k\<rparr>"

text \<open>The keys that take part in the aggregation.\<close>

definition active_keys :: "key list \<Rightarrow> key list" where
  "active_keys keys = filter (\<lambda>k. key_enabled k \<and> \<not> bl_IsBlockAll (ky_BlacklistedModels k)) keys"

definition add_allowed :: "key \<Rightarrow> WhiteList \<Rightarrow> WhiteList" where
  "add_allowed k acc =
     (if wl_IsUnrestricted (ky_Models k) then acc
      else fold (\<lambda>m acc. if bl_IsBlocked (ky_BlacklistedModels k) m then acc
                         else if list_contains acc m then acc else acc @ [m]) (ky_Models k) acc)"

definition count_denial :: "string \<Rightarrow> (nat \<times> string) smap \<Rightarrow> (nat \<times> string) smap" where
  "count_denial m agg =
     sm_store (str_lower m) (case sm_load agg (str_lower m) of None \<Rightarrow> (1, m) | Some (n, name) \<Rightarrow> (n + 1, name)) agg"

definition denial_counts :: "key list \<Rightarrow> (nat \<times> string) smap" where
  "denial_counts active = fold count_denial (concat (map ky_BlacklistedModels active)) []"

definition alias_index :: "key list \<Rightarrow> alias_owner smap" where
  "alias_index active =
     fold (\<lambda>k ix. fold (\<lambda>nc. sm_store (str_lower (fst nc)) \<lparr>ao_KeyID = ky_ID k, ao_Config = snd nc\<rparr>) (ky_Aliases k) ix) active []"

definition buildState :: "string \<Rightarrow> key list \<Rightarrow> provider_state option" where
  "buildState provider keys =
     (let active = active_keys keys;
          allModelsAllowed = (keys = [] \<and> \<not> IsStandardProvider provider
            \<or> (\<exists>k \<in> set active. wl_IsUnrestricted (ky_Models k)))
      in if active = [] \<and> \<not> allModelsAllowed then None
         else Some \<lparr>pv_entries = map entry_of_key keys,
           pv_allowed = (if allModelsAllowed then [''*''] else fold add_allowed active []),
           pv_blacklisted = map (\<lambda>e. snd (snd e)) (filter (\<lambda>e. fst (snd e) = length active) (denial_counts active)),
           pv_aliasIndex = alias_index active\<rparr>)"

subsection \<open>The store\<close>

definition kc_Replace :: "(string \<times> key list) list \<Rightarrow> key_config" where
  "kc_Replace snapshot =
     fold (\<lambda>pk m. case buildState (fst pk) (snd pk) of None \<Rightarrow> m | Some st \<Rightarrow> sm_store (fst pk) st m) snapshot []"

definition kc_SetProvider :: "string \<Rightarrow> key list \<Rightarrow> key_config \<Rightarrow> key_config" where
  "kc_SetProvider provider keys m =
     (case buildState provider keys of None \<Rightarrow> sm_delete provider m | Some st \<Rightarrow> sm_store provider st m)"

definition kc_RemoveProvider :: "string \<Rightarrow> key_config \<Rightarrow> key_config" where
  "kc_RemoveProvider provider m = sm_delete provider m"

definition EntriesFor :: "key_config \<Rightarrow> string \<Rightarrow> key_entry list" where
  "EntriesFor m p = (case sm_load m p of None \<Rightarrow> [] | Some st \<Rightarrow> pv_entries st)"

definition EntryFor :: "key_config \<Rightarrow> string \<Rightarrow> string \<Rightarrow> key_entry option" where
  "EntryFor m p keyID = find (\<lambda>e. ke_KeyID e = keyID) (EntriesFor m p)"

definition AllowedFor :: "key_config \<Rightarrow> string \<Rightarrow> WhiteList" where
  "AllowedFor m p = (case sm_load m p of None \<Rightarrow> [] | Some st \<Rightarrow> pv_allowed st)"

definition BlacklistedFor :: "key_config \<Rightarrow> string \<Rightarrow> BlackList" where
  "BlacklistedFor m p = (case sm_load m p of None \<Rightarrow> [] | Some st \<Rightarrow> pv_blacklisted st)"

definition entry_serves :: "string \<Rightarrow> key_entry \<Rightarrow> bool" where
  "entry_serves model e \<longleftrightarrow>
     ke_Enabled e \<and> \<not> bl_IsBlockAll (ke_Blacklisted e) \<and> \<not> bl_IsBlocked (ke_Blacklisted e) model \<and>
     wl_IsAllowed (ke_Allowed e) model"

definition anyKeyAllows :: "provider_state \<Rightarrow> string \<Rightarrow> bool" where
  "anyKeyAllows st model \<longleftrightarrow> list_ex (entry_serves model) (pv_entries st)"

definition kc_IsAllowed :: "key_config \<Rightarrow> string \<Rightarrow> string \<Rightarrow> bool" where
  "kc_IsAllowed m p model =
     (case sm_load m p of
        None \<Rightarrow> False
      | Some st \<Rightarrow>
          if pv_entries st = [] then wl_IsAllowed (pv_allowed st) model \<and> \<not> bl_IsBlocked (pv_blacklisted st) model
          else anyKeyAllows st model)"

definition KeysAllowingModel :: "key_config \<Rightarrow> string \<Rightarrow> string \<Rightarrow> string list" where
  "KeysAllowingModel m p model = map ke_KeyID (filter (entry_serves model) (EntriesFor m p))"

definition ResolveAlias :: "key_config \<Rightarrow> string \<Rightarrow> string \<Rightarrow> alias_owner option" where
  "ResolveAlias m p model = (case sm_load m p of None \<Rightarrow> None | Some st \<Rightarrow> sm_load (pv_aliasIndex st) (str_lower model))"

definition Providers :: "key_config \<Rightarrow> string list" where
  "Providers m = map fst m"

subsection \<open>The aggregates cover the keys\<close>

definition keys_valid :: "key list \<Rightarrow> bool" where
  "keys_valid keys \<longleftrightarrow> (\<forall>k \<in> set keys. wl_Validate (ky_Models k) \<and> bl_Validate (ky_BlacklistedModels k))"

lemma contains_add_allowed: "list_contains acc m \<Longrightarrow> list_contains (add_allowed k acc) m"
proof -
  have "list_contains (fold (\<lambda>m acc. if bl_IsBlocked b m then acc else if list_contains acc m then acc else acc @ [m]) ms acc) m"
    if "list_contains acc m" for b ms acc
    using that by (induction ms arbitrary: acc) (auto simp: list_contains_def)
  then show "list_contains acc m \<Longrightarrow> list_contains (add_allowed k acc) m" by (simp add: add_allowed_def)
qed

lemma contains_fold_allowed: "list_contains acc m \<Longrightarrow> list_contains (fold add_allowed ks acc) m"
  by (induction ks arbitrary: acc) (simp_all add: contains_add_allowed)

lemma blocked_fold: "equal_fold a b \<Longrightarrow> bl_IsBlocked bl a = bl_IsBlocked bl b"
  by (simp add: bl_IsBlocked_def list_contains_def equal_fold_def)

lemma add_allowed_adds:
  assumes "list_contains (ky_Models k) m" "\<not> wl_IsUnrestricted (ky_Models k)" "\<not> bl_IsBlocked (ky_BlacklistedModels k) m"
  shows "list_contains (add_allowed k acc) m"
proof -
  let ?f = "\<lambda>m acc. if bl_IsBlocked (ky_BlacklistedModels k) m then acc else if list_contains acc m then acc else acc @ [m]"
  have keep: "list_contains (fold ?f ms acc) m" if "list_contains acc m" for ms acc
    using that by (induction ms arbitrary: acc) (auto simp: list_contains_def)
  have "list_contains (fold ?f ms acc) m" if "list_contains ms m" for ms
    using that
  proof (induction ms arbitrary: acc)
    case (Cons x xs)
    show ?case
    proof (cases "equal_fold x m")
      case True
      then have "\<not> bl_IsBlocked (ky_BlacklistedModels k) x" using assms(3) blocked_fold by blast
      moreover have "list_contains acc x \<Longrightarrow> list_contains acc m" using True by (auto simp: list_contains_def list_ex_iff equal_fold_def)
      ultimately have "list_contains (?f x acc) m" using True by (auto simp: list_contains_def)
      then show ?thesis using keep by simp
    next
      case False
      then show ?thesis using Cons by (simp add: list_contains_def)
    qed
  qed (simp add: list_contains_def)
  then show ?thesis using assms(1,2) by (simp add: add_allowed_def)
qed

lemma allowed_covers:
  assumes "k \<in> set ks" "wl_IsAllowed (ky_Models k) m" "\<not> bl_IsBlocked (ky_BlacklistedModels k) m"
    "\<not> wl_IsUnrestricted (ky_Models k)"
  shows "list_contains (fold add_allowed ks acc) m"
  using assms(1)
proof (induction ks arbitrary: acc)
  case (Cons x xs)
  show ?case
  proof (cases "x = k")
    case True
    have "list_contains (ky_Models k) m" using assms(2,4) by (simp add: wl_IsAllowed_def)
    then show ?thesis using add_allowed_adds assms(3,4) True by (simp add: contains_fold_allowed)
  next
    case False
    then show ?thesis using Cons by simp
  qed
qed simp

lemma contains_cong: "equal_fold a b \<Longrightarrow> list_contains l a = list_contains l b"
  by (simp add: list_contains_def equal_fold_def)

lemma str_lower_eq_star: "str_lower s = ''*'' \<longleftrightarrow> s = ''*''"
proof -
  have c: "c = CHR ''*''" if l: "ascii_lower c = CHR ''*''" for c
  proof (cases "65 \<le> (of_char c :: nat) \<and> (of_char c :: nat) \<le> 90")
    case True
    have "(of_char (ascii_lower c) :: nat) = 42" by (simp add: l)
    then show ?thesis using True by (simp add: ascii_lower_def Let_def of_char_of)
  next
    case False
    then show ?thesis using l by (auto simp: ascii_lower_def Let_def split: if_splits)
  qed
  have "ascii_lower CHR ''*'' = CHR ''*''" by code_simp
  then show ?thesis by (auto simp: str_lower_def c)
qed

lemma valid_star:
  assumes "bl_Validate l" "list_contains l ''*''"
  shows "bl_IsBlockAll l"
proof -
  have star: "str_lower ''*'' = ''*''" by code_simp
  obtain a where "l = [a]" using assms by (cases l) (auto simp: bl_Validate_def list_contains_def)
  then show ?thesis using assms(2) by (simp add: list_contains_def equal_fold_def star bl_IsBlockAll_def str_lower_eq_star)
qed

text \<open>How often the names equal to \<open>m\<close> up to case occur.\<close>

definition fold_count :: "string \<Rightarrow> string list \<Rightarrow> nat" where
  "fold_count m ms = length (filter (equal_fold m) ms)"

lemma denials_counted:
  "sm_load (fold count_denial ms agg) l =
     (case sm_load agg l of
        Some (n, name) \<Rightarrow> Some (n + length (filter (\<lambda>x. str_lower x = l) ms), name)
      | None \<Rightarrow> (case filter (\<lambda>x. str_lower x = l) ms of [] \<Rightarrow> None | x # xs \<Rightarrow> Some (Suc (length xs), x)))"
proof (induction ms arbitrary: agg)
  case (Cons x xs)
  then show ?case by (auto simp: count_denial_def split: option.split list.split)
qed (auto split: option.split)

lemma denials_named:
  assumes "(l, n, name) \<in> set (denial_counts ks)"
  shows "str_lower name = l \<and> n = fold_count name (concat (map ky_BlacklistedModels ks))"
proof -
  have wf: "sm_wf (fold count_denial ms agg)" if "sm_wf agg" for ms agg
    using that by (induction ms arbitrary: agg) (simp_all add: count_denial_def)
  have "sm_wf (denial_counts ks)" by (simp add: denial_counts_def wf)
  then have "sm_load (denial_counts ks) l = Some (n, name)" using assms by (simp add: sm_load_mem)
  then obtain xs where x: "filter (\<lambda>x. str_lower x = l) (concat (map ky_BlacklistedModels ks)) = name # xs" "n = Suc (length xs)"
    by (auto simp: denial_counts_def denials_counted split: list.splits)
  have "name \<in> set (filter (\<lambda>x. str_lower x = l) (concat (map ky_BlacklistedModels ks)))" by (simp add: x(1))
  then have l: "str_lower name = l" by simp
  have "equal_fold name = (\<lambda>x. str_lower x = l)" by (auto simp: fun_eq_iff equal_fold_def l)
  then show ?thesis using x l by (simp add: fold_count_def)
qed

lemma fold_count_append: "fold_count m (xs @ ys) = fold_count m xs + fold_count m ys"
  by (simp add: fold_count_def)

lemma fold_count_distinct: "no_fold_duplicates [] ms \<Longrightarrow> fold_count m ms \<le> Suc 0"
  unfolding no_fold_duplicates_iff
  by (induction ms) (auto simp: fold_count_def equal_fold_def filter_empty_conv)

lemma fold_count_valid: "bl_Validate ms \<Longrightarrow> fold_count m ms \<le> Suc 0"
  by (simp add: bl_Validate_def fold_count_distinct)

lemma fold_count_concat_le:
  assumes "\<forall>k \<in> set ks. bl_Validate (ky_BlacklistedModels k)"
  shows "fold_count m (concat (map ky_BlacklistedModels ks)) \<le> length ks"
  using assms
proof (induction ks)
  case (Cons x xs)
  have "fold_count m (ky_BlacklistedModels x) \<le> 1"
    using Cons.prems by (simp add: fold_count_valid)
  then show ?case using Cons by (simp add: fold_count_append)
qed (simp add: fold_count_def)

lemma fold_count_concat_less:
  assumes "\<forall>k \<in> set ks. bl_Validate (ky_BlacklistedModels k)" "k \<in> set ks" "\<not> list_contains (ky_BlacklistedModels k) m"
  shows "fold_count m (concat (map ky_BlacklistedModels ks)) < length ks"
  using assms
proof (induction ks)
  case (Cons x xs)
  have one: "fold_count m (ky_BlacklistedModels x) \<le> 1"
    using Cons.prems by (simp add: fold_count_valid)
  show ?case
  proof (cases "x = k")
    case True
    then have "fold_count m (ky_BlacklistedModels x) = 0"
      using Cons.prems by (auto simp: fold_count_def list_contains_iff equal_fold_sym filter_empty_conv)
    then show ?thesis using fold_count_concat_le [of xs m] Cons.prems by (simp add: fold_count_append)
  next
    case False
    then show ?thesis using one Cons by (simp add: fold_count_append)
  qed
qed simp

text \<open>What the provider-wide deny list blocks every active key blocks.\<close>

lemma aggregate_deny:
  assumes "keys_valid keys" "buildState p keys = Some st" "k \<in> set (active_keys keys)"
    and b: "bl_IsBlocked (pv_blacklisted st) model"
  shows "bl_IsBlocked (ky_BlacklistedModels k) model"
proof -
  let ?act = "active_keys keys"
  have pb: "pv_blacklisted st = map (\<lambda>e. snd (snd e)) (filter (\<lambda>e. fst (snd e) = length ?act) (denial_counts ?act))"
    using assms(2) by (auto simp: buildState_def Let_def split: if_splits)
  have v: "\<forall>k \<in> set ?act. bl_Validate (ky_BlacklistedModels k)"
    using assms(1) by (auto simp: active_keys_def keys_valid_def)
  have all: "list_contains (ky_BlacklistedModels k) name" if nm: "name \<in> set (pv_blacklisted st)" for name
  proof -
    obtain l n where "(l, n, name) \<in> set (denial_counts ?act)" "n = length ?act" using nm by (auto simp: pb)
    with denials_named have "fold_count name (concat (map ky_BlacklistedModels ?act)) = length ?act" by fastforce
    then show ?thesis using fold_count_concat_less [OF v assms(3)] by fastforce
  qed
  show ?thesis
  proof (cases "bl_IsBlockAll (pv_blacklisted st)")
    case True
    then have "list_contains (ky_BlacklistedModels k) ''*''" using all by (simp add: bl_IsBlockAll_def)
    then show ?thesis using v assms(3) by (auto simp: bl_IsBlocked_def valid_star)
  next
    case False
    then obtain name where "name \<in> set (pv_blacklisted st)" "equal_fold name model"
      using b by (auto simp: bl_IsBlocked_def list_contains_iff)
    then show ?thesis using all [of name] contains_cong [of name model] by (simp add: bl_IsBlocked_def)
  qed
qed

text \<open>
  The aggregated lists of a provider never hide a model that a key can serve: if some enabled key
  allows a model and does not deny it, the provider-wide allow list contains the model and the
  provider-wide deny list does not; and for a provider with keys the check of a model answers yes
  exactly when the list of keys for the model is not empty.
\<close>

lemma key_aggregates_cover:
  assumes "keys_valid keys" "sm_load m p = Some st" "buildState p keys = Some st"
  shows "(KeysAllowingModel m p model \<noteq> [] \<longrightarrow>
      wl_IsAllowed (AllowedFor m p) model \<and> \<not> bl_IsBlocked (BlacklistedFor m p) model) \<and>
    (keys \<noteq> [] \<longrightarrow> kc_IsAllowed m p model = (KeysAllowingModel m p model \<noteq> []))"
proof -
  let ?act = "active_keys keys"
  have e: "pv_entries st = map entry_of_key keys" using assms(3) by (auto simp: buildState_def Let_def split: if_splits)
  have serve: "wl_IsAllowed (pv_allowed st) model \<and> \<not> bl_IsBlocked (pv_blacklisted st) model"
    if some: "KeysAllowingModel m p model \<noteq> []"
  proof -
    obtain k where k: "k \<in> set keys" "entry_serves model (entry_of_key k)"
      using some by (auto simp: KeysAllowingModel_def EntriesFor_def filter_empty_conv assms(2) e)
    then have act: "k \<in> set ?act" and al: "wl_IsAllowed (ky_Models k) model"
      and nb: "\<not> bl_IsBlocked (ky_BlacklistedModels k) model"
      by (auto simp: active_keys_def entry_serves_def entry_of_key_def)
    have "wl_IsAllowed (pv_allowed st) model"
      using assms(3) act allowed_covers [OF act al nb, of "[]"]
      by (auto simp: buildState_def Let_def wl_IsAllowed_def wl_IsUnrestricted_def split: if_splits)
    moreover have "\<not> bl_IsBlocked (pv_blacklisted st) model"
      using aggregate_deny [OF assms(1,3) act] nb by blast
    ultimately show ?thesis by simp
  qed
  have "AllowedFor m p = pv_allowed st" "BlacklistedFor m p = pv_blacklisted st"
    using assms(2) by (simp_all add: AllowedFor_def BlacklistedFor_def)
  moreover have "kc_IsAllowed m p model = (KeysAllowingModel m p model \<noteq> [])" if "keys \<noteq> []"
    using that e assms(2) by (simp add: kc_IsAllowed_def anyKeyAllows_def KeysAllowingModel_def EntriesFor_def filter_empty_conv list_ex_iff)
  ultimately show ?thesis using serve by simp
qed

definition w_keys :: "key list" where
  "w_keys =
    [\<lparr>ky_ID = ''k1'', ky_Enabled = None, ky_Models = [''gpt-4o'', ''GPT-4o-mini''], ky_BlacklistedModels = [''o1''], ky_Aliases = []\<rparr>,
     \<lparr>ky_ID = ''k2'', ky_Enabled = Some True, ky_Models = [''o1''], ky_BlacklistedModels = [''gpt-4o''],
       ky_Aliases = [(''Fast'', \<lparr>ac_ModelID = ''gpt-4o-mini'', ac_ModelName = None\<rparr>)]\<rparr>,
     \<lparr>ky_ID = ''k3'', ky_Enabled = Some False, ky_Models = [''*''], ky_BlacklistedModels = [], ky_Aliases = []\<rparr>]"

definition w_state :: provider_state where
  "w_state = the (buildState ''openai'' w_keys)"

lemma key_aggregates_cover_witness:
  "wl_IsAllowed (AllowedFor [(''openai'', w_state)] ''openai'') ''gpt-4O'' \<and>
   \<not> bl_IsBlocked (BlacklistedFor [(''openai'', w_state)] ''openai'') ''gpt-4O'' \<and>
   kc_IsAllowed [(''openai'', w_state)] ''openai'' ''gpt-4O''"
proof -
  have v: "keys_valid w_keys" and b: "buildState ''openai'' w_keys = Some w_state" and ne: "w_keys \<noteq> []" by code_simp+
  have l: "sm_load [(''openai'', w_state)] ''openai'' = Some w_state" by (simp add: sm_load_def)
  have "KeysAllowingModel [(''openai'', w_state)] ''openai'' ''gpt-4O'' = [''k1'']" by code_simp
  with key_aggregates_cover [OF v l b, of "''gpt-4O''"] ne show ?thesis by simp
qed

text \<open>
  The converse fails: the only key that allows a model can deny it while another key does not, and the
  aggregated lists then offer a model that no key serves.
\<close>

lemma aggregates_offer_unserved:
  "wl_IsAllowed (AllowedFor (kc_SetProvider ''openai''
      [\<lparr>ky_ID = ''k1'', ky_Enabled = None, ky_Models = [''*''], ky_BlacklistedModels = [''o1''], ky_Aliases = []\<rparr>,
       \<lparr>ky_ID = ''k2'', ky_Enabled = None, ky_Models = [''gpt-4o''], ky_BlacklistedModels = [], ky_Aliases = []\<rparr>] []) ''openai'') ''o1'' \<and>
   BlacklistedFor (kc_SetProvider ''openai''
      [\<lparr>ky_ID = ''k1'', ky_Enabled = None, ky_Models = [''*''], ky_BlacklistedModels = [''o1''], ky_Aliases = []\<rparr>,
       \<lparr>ky_ID = ''k2'', ky_Enabled = None, ky_Models = [''gpt-4o''], ky_BlacklistedModels = [], ky_Aliases = []\<rparr>] []) ''openai'' = [] \<and>
   KeysAllowingModel (kc_SetProvider ''openai''
      [\<lparr>ky_ID = ''k1'', ky_Enabled = None, ky_Models = [''*''], ky_BlacklistedModels = [''o1''], ky_Aliases = []\<rparr>,
       \<lparr>ky_ID = ''k2'', ky_Enabled = None, ky_Models = [''gpt-4o''], ky_BlacklistedModels = [], ky_Aliases = []\<rparr>] []) ''openai'' ''o1'' = []"
  by code_simp

end
