(* ===== verification/Pricing.thy ===== *)
theory Pricing
  imports GoStrings GovStore
begin

text \<open>
  The price list and the cost of a call (framework/modelcatalog/datasheet): the rates of a
  model, the tiers, and one cost function per kind of request. \<open>rate_options\<close> holds the
  rate columns that a price row and an override share, under the names of the sources. Token
  counts are integers; the sums of them that the code forms stay far below the \<^verbatim>\<open>int64\<close>
  range, which only the product of two image dimensions can leave, so only that one wraps.
\<close>

subsection \<open>Rates\<close>

record rate_options =
  InputCostPerToken :: "float64 option"
  OutputCostPerToken :: "float64 option"
  InputCostPerTokenBatches :: "float64 option"
  OutputCostPerTokenBatches :: "float64 option"
  InputCostPerTokenPriority :: "float64 option"
  OutputCostPerTokenPriority :: "float64 option"
  InputCostPerTokenFlex :: "float64 option"
  OutputCostPerTokenFlex :: "float64 option"
  InputCostPerTokenFast :: "float64 option"
  OutputCostPerTokenFast :: "float64 option"
  InputCostPerCharacter :: "float64 option"
  InputCostPerTokenAbove128kTokens :: "float64 option"
  InputCostPerImageAbove128kTokens :: "float64 option"
  InputCostPerVideoPerSecondAbove128kTokens :: "float64 option"
  InputCostPerAudioPerSecondAbove128kTokens :: "float64 option"
  OutputCostPerTokenAbove128kTokens :: "float64 option"
  InputCostPerTokenAbove200kTokens :: "float64 option"
  InputCostPerTokenAbove200kTokensPriority :: "float64 option"
  OutputCostPerTokenAbove200kTokens :: "float64 option"
  OutputCostPerTokenAbove200kTokensPriority :: "float64 option"
  InputCostPerTokenAbove272kTokens :: "float64 option"
  InputCostPerTokenAbove272kTokensPriority :: "float64 option"
  OutputCostPerTokenAbove272kTokens :: "float64 option"
  OutputCostPerTokenAbove272kTokensPriority :: "float64 option"
  CacheCreationInputTokenCost :: "float64 option"
  CacheReadInputTokenCost :: "float64 option"
  CacheCreationInputTokenCostAbove200kTokens :: "float64 option"
  CacheReadInputTokenCostAbove200kTokens :: "float64 option"
  CacheReadInputTokenCostAbove200kTokensPriority :: "float64 option"
  CacheCreationInputTokenCostAbove1hr :: "float64 option"
  CacheCreationInputTokenCostAbove1hrAbove200kTokens :: "float64 option"
  CacheCreationInputAudioTokenCost :: "float64 option"
  CacheReadInputTokenCostPriority :: "float64 option"
  CacheReadInputTokenCostFlex :: "float64 option"
  CacheReadInputImageTokenCost :: "float64 option"
  CacheReadInputTokenCostAbove272kTokens :: "float64 option"
  CacheReadInputTokenCostAbove272kTokensPriority :: "float64 option"
  InputCostPerImage :: "float64 option"
  InputCostPerPixel :: "float64 option"
  OutputCostPerImage :: "float64 option"
  OutputCostPerPixel :: "float64 option"
  OutputCostPerImagePremiumImage :: "float64 option"
  OutputCostPerImageAbove512x512Pixels :: "float64 option"
  OutputCostPerImageAbove512x512PixelsPremium :: "float64 option"
  OutputCostPerImageAbove1024x1024Pixels :: "float64 option"
  OutputCostPerImageAbove1024x1024PixelsPremium :: "float64 option"
  OutputCostPerImageAbove2048x2048Pixels :: "float64 option"
  OutputCostPerImageAbove4096x4096Pixels :: "float64 option"
  OutputCostPerImageLowQuality :: "float64 option"
  OutputCostPerImageMediumQuality :: "float64 option"
  OutputCostPerImageHighQuality :: "float64 option"
  OutputCostPerImageAutoQuality :: "float64 option"
  InputCostPerImageToken :: "float64 option"
  OutputCostPerImageToken :: "float64 option"
  InputCostPerAudioToken :: "float64 option"
  InputCostPerAudioPerSecond :: "float64 option"
  InputCostPerSecond :: "float64 option"
  InputCostPerVideoPerSecond :: "float64 option"
  OutputCostPerAudioToken :: "float64 option"
  OutputCostPerVideoPerSecond :: "float64 option"
  OutputCostPerSecond :: "float64 option"
  SearchContextCostPerQuery :: "float64 option"
  CodeInterpreterCostPerSession :: "float64 option"
  OCRCostPerPage :: "float64 option"
  AnnotationCostPerPage :: "float64 option"

text \<open>All rates of a row.\<close>

definition rates_of :: "rate_options \<Rightarrow> float64 option list" where
  "rates_of p =
     [InputCostPerToken p, OutputCostPerToken p, InputCostPerTokenBatches p, OutputCostPerTokenBatches p,
      InputCostPerTokenPriority p, OutputCostPerTokenPriority p, InputCostPerTokenFlex p,
      OutputCostPerTokenFlex p, InputCostPerTokenFast p, OutputCostPerTokenFast p, InputCostPerCharacter p,
      InputCostPerTokenAbove128kTokens p, InputCostPerImageAbove128kTokens p,
      InputCostPerVideoPerSecondAbove128kTokens p, InputCostPerAudioPerSecondAbove128kTokens p,
      OutputCostPerTokenAbove128kTokens p, InputCostPerTokenAbove200kTokens p,
      InputCostPerTokenAbove200kTokensPriority p, OutputCostPerTokenAbove200kTokens p,
      OutputCostPerTokenAbove200kTokensPriority p, InputCostPerTokenAbove272kTokens p,
      InputCostPerTokenAbove272kTokensPriority p, OutputCostPerTokenAbove272kTokens p,
      OutputCostPerTokenAbove272kTokensPriority p, CacheCreationInputTokenCost p, CacheReadInputTokenCost p,
      CacheCreationInputTokenCostAbove200kTokens p, CacheReadInputTokenCostAbove200kTokens p,
      CacheReadInputTokenCostAbove200kTokensPriority p, CacheCreationInputTokenCostAbove1hr p,
      CacheCreationInputTokenCostAbove1hrAbove200kTokens p, CacheCreationInputAudioTokenCost p,
      CacheReadInputTokenCostPriority p, CacheReadInputTokenCostFlex p, CacheReadInputImageTokenCost p,
      CacheReadInputTokenCostAbove272kTokens p, CacheReadInputTokenCostAbove272kTokensPriority p,
      InputCostPerImage p, InputCostPerPixel p, OutputCostPerImage p, OutputCostPerPixel p,
      OutputCostPerImagePremiumImage p, OutputCostPerImageAbove512x512Pixels p,
      OutputCostPerImageAbove512x512PixelsPremium p, OutputCostPerImageAbove1024x1024Pixels p,
      OutputCostPerImageAbove1024x1024PixelsPremium p, OutputCostPerImageAbove2048x2048Pixels p,
      OutputCostPerImageAbove4096x4096Pixels p, OutputCostPerImageLowQuality p,
      OutputCostPerImageMediumQuality p, OutputCostPerImageHighQuality p, OutputCostPerImageAutoQuality p,
      InputCostPerImageToken p, OutputCostPerImageToken p, InputCostPerAudioToken p,
      InputCostPerAudioPerSecond p, InputCostPerSecond p, InputCostPerVideoPerSecond p,
      OutputCostPerAudioToken p, OutputCostPerVideoPerSecond p, OutputCostPerSecond p,
      SearchContextCostPerQuery p, CodeInterpreterCostPerSession p, OCRCostPerPage p, AnnotationCostPerPage p]"

definition no_rates :: rate_options where
  "no_rates =
     \<lparr>InputCostPerToken = None,
      OutputCostPerToken = None,
      InputCostPerTokenBatches = None,
      OutputCostPerTokenBatches = None,
      InputCostPerTokenPriority = None,
      OutputCostPerTokenPriority = None,
      InputCostPerTokenFlex = None,
      OutputCostPerTokenFlex = None,
      InputCostPerTokenFast = None,
      OutputCostPerTokenFast = None,
      InputCostPerCharacter = None,
      InputCostPerTokenAbove128kTokens = None,
      InputCostPerImageAbove128kTokens = None,
      InputCostPerVideoPerSecondAbove128kTokens = None,
      InputCostPerAudioPerSecondAbove128kTokens = None,
      OutputCostPerTokenAbove128kTokens = None,
      InputCostPerTokenAbove200kTokens = None,
      InputCostPerTokenAbove200kTokensPriority = None,
      OutputCostPerTokenAbove200kTokens = None,
      OutputCostPerTokenAbove200kTokensPriority = None,
      InputCostPerTokenAbove272kTokens = None,
      InputCostPerTokenAbove272kTokensPriority = None,
      OutputCostPerTokenAbove272kTokens = None,
      OutputCostPerTokenAbove272kTokensPriority = None,
      CacheCreationInputTokenCost = None,
      CacheReadInputTokenCost = None,
      CacheCreationInputTokenCostAbove200kTokens = None,
      CacheReadInputTokenCostAbove200kTokens = None,
      CacheReadInputTokenCostAbove200kTokensPriority = None,
      CacheCreationInputTokenCostAbove1hr = None,
      CacheCreationInputTokenCostAbove1hrAbove200kTokens = None,
      CacheCreationInputAudioTokenCost = None,
      CacheReadInputTokenCostPriority = None,
      CacheReadInputTokenCostFlex = None,
      CacheReadInputImageTokenCost = None,
      CacheReadInputTokenCostAbove272kTokens = None,
      CacheReadInputTokenCostAbove272kTokensPriority = None,
      InputCostPerImage = None,
      InputCostPerPixel = None,
      OutputCostPerImage = None,
      OutputCostPerPixel = None,
      OutputCostPerImagePremiumImage = None,
      OutputCostPerImageAbove512x512Pixels = None,
      OutputCostPerImageAbove512x512PixelsPremium = None,
      OutputCostPerImageAbove1024x1024Pixels = None,
      OutputCostPerImageAbove1024x1024PixelsPremium = None,
      OutputCostPerImageAbove2048x2048Pixels = None,
      OutputCostPerImageAbove4096x4096Pixels = None,
      OutputCostPerImageLowQuality = None,
      OutputCostPerImageMediumQuality = None,
      OutputCostPerImageHighQuality = None,
      OutputCostPerImageAutoQuality = None,
      InputCostPerImageToken = None,
      OutputCostPerImageToken = None,
      InputCostPerAudioToken = None,
      InputCostPerAudioPerSecond = None,
      InputCostPerSecond = None,
      InputCostPerVideoPerSecond = None,
      OutputCostPerAudioToken = None,
      OutputCostPerVideoPerSecond = None,
      OutputCostPerSecond = None,
      SearchContextCostPerQuery = None,
      CodeInterpreterCostPerSession = None,
      OCRCostPerPage = None,
      AnnotationCostPerPage = None\<rparr>"

record architecture =
  ar_Modality :: "string option"
  ar_Tokenizer :: "string option"
  ar_InstructType :: "string option"
  ar_InputModalities :: "string list"
  ar_OutputModalities :: "string list"

text \<open>A row of the price table; the number that the database gives it is left out.\<close>

record model_pricing =
  mp_Model :: string
  mp_BaseModel :: string
  mp_Provider :: string
  mp_Mode :: string
  mp_ContextLength :: "int option"
  mp_MaxInputTokens :: "int option"
  mp_MaxOutputTokens :: "int option"
  mp_Architecture :: "architecture option"
  mp_IsDeprecated :: bool
  mp_Rates :: rate_options
  mp_AdditionalAttributes :: "string smap"

record service_tier =
  isPriority :: bool
  isFlex :: bool
  isFast :: bool

definition no_tier :: service_tier where
  "no_tier = \<lparr>isPriority = False, isFlex = False, isFast = False\<rparr>"

text \<open>The fields of a response that pick the tier: its service tier and its speed.\<close>

definition tierFromResponse :: "string option \<Rightarrow> string option \<Rightarrow> service_tier" where
  "tierFromResponse s speed =
     \<lparr>isPriority = (s = Some ''priority''), isFlex = (s = Some ''flex''), isFast = (speed = Some ''fast'')\<rparr>"

text \<open>Take a rate when its condition holds and it is configured, go on otherwise.\<close>

definition use_rate :: "bool \<Rightarrow> float64 option \<Rightarrow> float64 \<Rightarrow> float64" where
  "use_rate c r other = (case r of Some x \<Rightarrow> if c then x else other | None \<Rightarrow> other)"

definition tieredInputRate :: "rate_options \<Rightarrow> int \<Rightarrow> service_tier \<Rightarrow> float64" where
  "tieredInputRate p tot t =
     use_rate (isFast t) (InputCostPerTokenFast p)
    (use_rate (isFlex t) (InputCostPerTokenFlex p)
    (use_rate (tot > 272000 \<and> isPriority t) (InputCostPerTokenAbove272kTokensPriority p)
    (use_rate (tot > 272000) (InputCostPerTokenAbove272kTokens p)
    (use_rate (tot > 200000 \<and> isPriority t) (InputCostPerTokenAbove200kTokensPriority p)
    (use_rate (tot > 200000) (InputCostPerTokenAbove200kTokens p)
    (use_rate (tot > 128000) (InputCostPerTokenAbove128kTokens p)
    (use_rate (isPriority t) (InputCostPerTokenPriority p)
    (use_rate True (InputCostPerToken p) 0))))))))"

definition tieredOutputRate :: "rate_options \<Rightarrow> int \<Rightarrow> service_tier \<Rightarrow> float64" where
  "tieredOutputRate p tot t =
     use_rate (isFast t) (OutputCostPerTokenFast p)
    (use_rate (isFlex t) (OutputCostPerTokenFlex p)
    (use_rate (tot > 272000 \<and> isPriority t) (OutputCostPerTokenAbove272kTokensPriority p)
    (use_rate (tot > 272000) (OutputCostPerTokenAbove272kTokens p)
    (use_rate (tot > 200000 \<and> isPriority t) (OutputCostPerTokenAbove200kTokensPriority p)
    (use_rate (tot > 200000) (OutputCostPerTokenAbove200kTokens p)
    (use_rate (tot > 128000) (OutputCostPerTokenAbove128kTokens p)
    (use_rate (isPriority t) (OutputCostPerTokenPriority p)
    (use_rate True (OutputCostPerToken p) 0))))))))"

definition tieredImageInputRate :: "rate_options \<Rightarrow> int \<Rightarrow> service_tier \<Rightarrow> float64" where
  "tieredImageInputRate p tot t =
     use_rate (tot > 128000) (InputCostPerImageAbove128kTokens p)
    (use_rate True (InputCostPerImageToken p) (tieredInputRate p tot t))"

definition tieredImageOutputRate :: "rate_options \<Rightarrow> int \<Rightarrow> service_tier \<Rightarrow> float64" where
  "tieredImageOutputRate p tot t = use_rate True (OutputCostPerImageToken p) (tieredOutputRate p tot t)"

definition tieredAudioInputPerSecondRate :: "rate_options \<Rightarrow> int \<Rightarrow> float64" where
  "tieredAudioInputPerSecondRate p tot =
     use_rate (tot > 128000) (InputCostPerAudioPerSecondAbove128kTokens p)
    (use_rate True (InputCostPerAudioPerSecond p)
    (use_rate True (InputCostPerSecond p) 0))"

definition tieredVideoInputPerSecondRate :: "rate_options \<Rightarrow> int \<Rightarrow> float64" where
  "tieredVideoInputPerSecondRate p tot =
     use_rate (tot > 128000) (InputCostPerVideoPerSecondAbove128kTokens p)
    (use_rate True (InputCostPerVideoPerSecond p) 0)"

definition tieredAudioTokenInputRate :: "rate_options \<Rightarrow> int \<Rightarrow> service_tier \<Rightarrow> float64" where
  "tieredAudioTokenInputRate p tot t = use_rate True (InputCostPerAudioToken p) (tieredInputRate p tot t)"

definition tieredAudioTokenOutputRate :: "rate_options \<Rightarrow> int \<Rightarrow> service_tier \<Rightarrow> float64" where
  "tieredAudioTokenOutputRate p tot t = use_rate True (OutputCostPerAudioToken p) (tieredOutputRate p tot t)"

definition tieredCacheReadInputTokenRate :: "rate_options \<Rightarrow> int \<Rightarrow> service_tier \<Rightarrow> float64" where
  "tieredCacheReadInputTokenRate p tot t =
     use_rate (isFlex t) (CacheReadInputTokenCostFlex p)
    (use_rate (tot > 272000 \<and> isPriority t) (CacheReadInputTokenCostAbove272kTokensPriority p)
    (use_rate (tot > 272000) (CacheReadInputTokenCostAbove272kTokens p)
    (use_rate (tot > 200000 \<and> isPriority t) (CacheReadInputTokenCostAbove200kTokensPriority p)
    (use_rate (tot > 200000) (CacheReadInputTokenCostAbove200kTokens p)
    (use_rate (isPriority t) (CacheReadInputTokenCostPriority p)
    (use_rate True (CacheReadInputTokenCost p) (tieredInputRate p tot t)))))))"

definition tieredCacheCreationInputTokenRate :: "rate_options \<Rightarrow> int \<Rightarrow> service_tier \<Rightarrow> float64" where
  "tieredCacheCreationInputTokenRate p tot t =
     use_rate (tot > 200000) (CacheCreationInputTokenCostAbove200kTokens p)
    (use_rate True (CacheCreationInputTokenCost p) (tieredInputRate p tot t))"

definition tieredCacheCreationInputAbove1hrTokenRate :: "rate_options \<Rightarrow> int \<Rightarrow> service_tier \<Rightarrow> float64" where
  "tieredCacheCreationInputAbove1hrTokenRate p tot t =
     use_rate (tot > 200000) (CacheCreationInputTokenCostAbove1hrAbove200kTokens p)
    (use_rate True (CacheCreationInputTokenCostAbove1hr p) (tieredCacheCreationInputTokenRate p tot t))"

lemmas tier_defs = tieredInputRate_def tieredOutputRate_def tieredImageInputRate_def tieredImageOutputRate_def
  tieredAudioInputPerSecondRate_def tieredVideoInputPerSecondRate_def tieredAudioTokenInputRate_def
  tieredAudioTokenOutputRate_def tieredCacheReadInputTokenRate_def tieredCacheCreationInputTokenRate_def
  tieredCacheCreationInputAbove1hrTokenRate_def

subsection \<open>Usage\<close>

record cached_write_details =
  CachedWriteTokens5m :: int
  CachedWriteTokens1h :: int

record prompt_details =
  pd_AudioTokens :: int
  pd_CachedReadTokens :: int
  pd_CachedWriteTokens :: int
  pd_CachedWriteTokenDetails :: "cached_write_details option"

record completion_details =
  ct_AudioTokens :: int
  ct_ReasoningTokens :: int
  ct_NumSearchQueries :: "int option"

text \<open>\<open>us_Cost\<close> is the total cost that the provider computed itself, when it sent one.\<close>

record llm_usage =
  us_PromptTokens :: int
  us_PromptTokensDetails :: "prompt_details option"
  us_CompletionTokens :: int
  us_CompletionTokensDetails :: "completion_details option"
  us_TotalTokens :: int
  us_Cost :: "float64 option"

record image_details =
  id_NImages :: int
  id_ImageTokens :: int
  id_TextTokens :: int

record image_usage =
  iu_InputTokens :: int
  iu_InputTokensDetails :: "image_details option"
  iu_TotalTokens :: int
  iu_OutputTokens :: int
  iu_OutputTokensDetails :: "image_details option"
  iu_NumInputImages :: int

record audio_details =
  ad_TextTokens :: int
  ad_AudioTokens :: int

subsection \<open>The cost of text\<close>

text \<open>The three cached counts after the clamping: read, written, and written for an hour.\<close>

definition cached_counts :: "llm_usage \<Rightarrow> int \<times> int \<times> int" where
  "cached_counts u =
     (let (r, w, h) = (case us_PromptTokensDetails u of
            None \<Rightarrow> (0, 0, 0)
          | Some d \<Rightarrow> (pd_CachedReadTokens d, pd_CachedWriteTokens d,
              case pd_CachedWriteTokenDetails d of None \<Rightarrow> 0 | Some x \<Rightarrow> CachedWriteTokens1h x));
          prompt = us_PromptTokens u;
          r1 = (if r > prompt then prompt else r);
          w1 = (if w > prompt - r1 then prompt - r1 else w);
          h1 = (if h > w1 then w1 else h)
      in (r1, w1, h1))"

definition clamp :: "int \<Rightarrow> int \<Rightarrow> int" where
  "clamp x hi = (if x < 0 then 0 else if x > hi then hi else x)"

text \<open>The audio counts of the details, within the prompt and the completion.\<close>

definition audio_counts :: "llm_usage \<Rightarrow> int \<times> int" where
  "audio_counts u =
     (clamp (case us_PromptTokensDetails u of None \<Rightarrow> 0 | Some d \<Rightarrow> pd_AudioTokens d) (us_PromptTokens u),
      clamp (case us_CompletionTokensDetails u of None \<Rightarrow> 0 | Some d \<Rightarrow> ct_AudioTokens d) (us_CompletionTokens u))"

definition searchCost :: "rate_options \<Rightarrow> llm_usage \<Rightarrow> float64" where
  "searchCost p u =
     (case (SearchContextCostPerQuery p, us_CompletionTokensDetails u) of
        (Some rate, Some d) \<Rightarrow> (case ct_NumSearchQueries d of None \<Rightarrow> 0 | Some n \<Rightarrow> of_int n * rate)
      | _ \<Rightarrow> 0)"

definition computeTextCost :: "rate_options \<Rightarrow> llm_usage option \<Rightarrow> service_tier \<Rightarrow> float64" where
  "computeTextCost p usage tier =
     (case usage of
        None \<Rightarrow> 0
      | Some u \<Rightarrow>
          let tot = us_TotalTokens u; prompt = us_PromptTokens u; completion = us_CompletionTokens u;
              (r, w, h) = cached_counts u;
              inputRate = tieredInputRate p tot tier;
              outputRate = tieredOutputRate p tot tier;
              inputCost = of_int (prompt - r - w) * inputRate
                + (if r > 0 then of_int r * tieredCacheReadInputTokenRate p tot tier else 0)
                + (if w > 0 then
                     (if h > 0 then of_int h * tieredCacheCreationInputAbove1hrTokenRate p tot tier else 0)
                     + of_int (w - h) * tieredCacheCreationInputTokenRate p tot tier
                   else 0);
              outputCost = of_int completion * outputRate;
              (ia, oa) = audio_counts u;
              audioCost = (case InputCostPerAudioToken p of
                  Some rate \<Rightarrow> if ia > 0 then of_int ia * (rate - inputRate) else 0 | None \<Rightarrow> 0)
                + (case OutputCostPerAudioToken p of
                  Some rate \<Rightarrow> if oa > 0 then of_int oa * (rate - outputRate) else 0 | None \<Rightarrow> 0)
          in inputCost + outputCost + audioCost + searchCost p u)"

definition computeEmbeddingCost :: "rate_options \<Rightarrow> llm_usage option \<Rightarrow> service_tier \<Rightarrow> float64" where
  "computeEmbeddingCost p usage tier =
     (case usage of None \<Rightarrow> 0
      | Some u \<Rightarrow> of_int (us_PromptTokens u) * tieredInputRate p (us_TotalTokens u) tier)"

definition computeRerankCost :: "rate_options \<Rightarrow> llm_usage option \<Rightarrow> service_tier \<Rightarrow> float64" where
  "computeRerankCost p usage tier =
     (case usage of None \<Rightarrow> 0
      | Some u \<Rightarrow> of_int (us_PromptTokens u) * tieredInputRate p (us_TotalTokens u) tier
          + of_int (us_CompletionTokens u) * tieredOutputRate p (us_TotalTokens u) tier + searchCost p u)"

subsection \<open>The cost of audio\<close>

definition safeTotalTokens :: "llm_usage option \<Rightarrow> int" where
  "safeTotalTokens usage = (case usage of None \<Rightarrow> 0 | Some u \<Rightarrow> us_TotalTokens u)"

definition prompt_count :: "llm_usage option \<Rightarrow> int" where
  "prompt_count usage = (case usage of None \<Rightarrow> 0 | Some u \<Rightarrow> us_PromptTokens u)"

definition completion_count :: "llm_usage option \<Rightarrow> int" where
  "completion_count usage = (case usage of None \<Rightarrow> 0 | Some u \<Rightarrow> us_CompletionTokens u)"

definition computeAudioOutputCost ::
  "rate_options \<Rightarrow> llm_usage option \<Rightarrow> int option \<Rightarrow> int \<Rightarrow> service_tier \<Rightarrow> float64" where
  "computeAudioOutputCost p usage audioSeconds tot tier =
     (if completion_count usage > 0
      then of_int (completion_count usage) * tieredAudioTokenOutputRate p tot tier
      else case (audioSeconds, OutputCostPerSecond p) of
          (Some s, Some rate) \<Rightarrow> if s > 0 then of_int s * rate else 0
        | _ \<Rightarrow> 0)"

definition computeSpeechCost ::
  "rate_options \<Rightarrow> llm_usage option \<Rightarrow> int option \<Rightarrow> int \<Rightarrow> service_tier \<Rightarrow> float64" where
  "computeSpeechCost p usage audioSeconds chars tier =
     (let tot = safeTotalTokens usage;
          inputCost = (if chars > 0
            then (case InputCostPerCharacter p of
                    Some rate \<Rightarrow> of_int chars * rate
                  | None \<Rightarrow> of_int chars * tieredInputRate p tot tier)
            else if prompt_count usage > 0 then of_int (prompt_count usage) * tieredInputRate p tot tier
            else 0)
      in inputCost + computeAudioOutputCost p usage audioSeconds tot tier)"

definition computeAudioInputCost ::
  "rate_options \<Rightarrow> llm_usage option \<Rightarrow> int option \<Rightarrow> audio_details option \<Rightarrow> int \<Rightarrow> service_tier \<Rightarrow> float64" where
  "computeAudioInputCost p usage audioSeconds details tot tier =
     (let plain = (if prompt_count usage > 0
            then of_int (prompt_count usage) * tieredInputRate p tot tier
            else case audioSeconds of
                None \<Rightarrow> 0
              | Some s \<Rightarrow> (let rate = tieredAudioInputPerSecondRate p tot in
                  if s > 0 \<and> rate > 0 then of_int s * rate else 0))
      in case details of
           None \<Rightarrow> plain
         | Some d \<Rightarrow>
             if ad_AudioTokens d > 0 \<or> ad_TextTokens d > 0
             then of_int (ad_AudioTokens d) * tieredAudioTokenInputRate p tot tier
               + of_int (ad_TextTokens d) * tieredInputRate p tot tier
             else plain)"

definition computeTranscriptionCost ::
  "rate_options \<Rightarrow> llm_usage option \<Rightarrow> int option \<Rightarrow> audio_details option \<Rightarrow> service_tier \<Rightarrow> float64" where
  "computeTranscriptionCost p usage audioSeconds details tier =
     (let tot = safeTotalTokens usage in
      computeAudioInputCost p usage audioSeconds details tot tier
      + (if completion_count usage > 0 then of_int (completion_count usage) * tieredOutputRate p tot tier else 0))"

subsection \<open>The cost of images, video, pages and containers\<close>

text \<open>\<^verbatim>\<open>strconv.Atoi\<close>: an optional sign and decimal digits, within the range of \<^verbatim>\<open>int\<close>.\<close>

definition digits_value :: "string \<Rightarrow> int" where
  "digits_value s = foldl (\<lambda>n c. n * 10 + digit_val c) 0 s"

definition Atoi :: "string \<Rightarrow> int option" where
  "Atoi s =
     (let (neg, ds) = (case s of
            c # r \<Rightarrow> if c = CHR ''-'' then (True, r) else if c = CHR ''+'' then (False, r) else (False, s)
          | [] \<Rightarrow> (False, []));
          v = (if neg then - digits_value ds else digits_value ds)
      in if ds \<noteq> [] \<and> list_all is_digit ds \<and> in_int64 v then Some v else None)"

definition positive_dim :: "string \<Rightarrow> int option" where
  "positive_dim s = (case Atoi s of Some v \<Rightarrow> if v \<le> 0 then None else Some v | None \<Rightarrow> None)"

definition parseImagePixels :: "string \<Rightarrow> int" where
  "parseImagePixels dims =
     (case split_first CHR ''x'' dims of
        None \<Rightarrow> 0
      | Some (a, b) \<Rightarrow>
          (case (positive_dim a, positive_dim b) of
             (Some w, Some h) \<Rightarrow> wrap64 (w * h)
           | _ \<Rightarrow> 0))"

definition populateOutputImageCount :: "int \<Rightarrow> image_usage \<Rightarrow> image_usage" where
  "populateOutputImageCount dataLen u =
     (if dataLen = 0 then u
      else
        let d = (case iu_OutputTokensDetails u of None \<Rightarrow> \<lparr>id_NImages = 0, id_ImageTokens = 0, id_TextTokens = 0\<rparr> | Some d \<Rightarrow> d)
        in u\<lparr>iu_OutputTokensDetails := Some (if id_NImages d = 0 then d\<lparr>id_NImages := dataLen\<rparr> else d)\<rparr>)"

definition computeImageInputCost ::
  "rate_options \<Rightarrow> image_usage \<Rightarrow> int \<Rightarrow> int \<Rightarrow> service_tier \<Rightarrow> float64" where
  "computeImageInputCost p u tot pixels tier =
     (let (text, image) = (case iu_InputTokensDetails u of
            Some d \<Rightarrow> (id_TextTokens d, id_ImageTokens d) | None \<Rightarrow> (iu_InputTokens u, 0));
          n = iu_NumInputImages u;
          per_image = (case InputCostPerImage p of Some rate \<Rightarrow> if n > 0 then of_int n * rate else 0 | None \<Rightarrow> 0)
      in if text > 0 \<or> image > 0
         then of_int text * tieredInputRate p tot tier + of_int image * tieredImageInputRate p tot tier
         else case InputCostPerPixel p of
             Some rate \<Rightarrow> if pixels > 0 \<and> n > 0 then of_int (wrap64 (pixels * n)) * rate else per_image
           | None \<Rightarrow> per_image)"

definition quality_rate :: "rate_options \<Rightarrow> string \<Rightarrow> float64 option" where
  "quality_rate p quality =
     (let q = (if quality = [] then ''auto'' else quality) in
      if q = ''low'' then OutputCostPerImageLowQuality p
      else if q = ''medium'' then OutputCostPerImageMediumQuality p
      else if q = ''high'' then OutputCostPerImageHighQuality p
      else if q = ''auto'' then OutputCostPerImageAutoQuality p
      else None)"

definition size_rate :: "rate_options \<Rightarrow> int \<Rightarrow> float64 option" where
  "size_rate p pixels =
     (if pixels \<ge> 4096 * 4096 \<and> OutputCostPerImageAbove4096x4096Pixels p \<noteq> None
      then OutputCostPerImageAbove4096x4096Pixels p
      else if pixels \<ge> 2048 * 2048 \<and> OutputCostPerImageAbove2048x2048Pixels p \<noteq> None
      then OutputCostPerImageAbove2048x2048Pixels p
      else if pixels \<ge> 1024 * 1024 \<and> OutputCostPerImageAbove1024x1024Pixels p \<noteq> None
      then OutputCostPerImageAbove1024x1024Pixels p
      else if pixels \<ge> 512 * 512 \<and> OutputCostPerImageAbove512x512Pixels p \<noteq> None
      then OutputCostPerImageAbove512x512Pixels p
      else OutputCostPerImage p)"

definition output_image_count :: "image_usage \<Rightarrow> int" where
  "output_image_count u =
     (case iu_OutputTokensDetails u of Some d \<Rightarrow> if id_NImages d > 0 then id_NImages d else 1 | None \<Rightarrow> 1)"

definition computeImageOutputCost ::
  "rate_options \<Rightarrow> image_usage \<Rightarrow> int \<Rightarrow> int \<Rightarrow> string \<Rightarrow> service_tier \<Rightarrow> float64" where
  "computeImageOutputCost p u tot pixels quality tier =
     (let (text, image) = (case iu_OutputTokensDetails u of
            Some d \<Rightarrow> (id_TextTokens d, id_ImageTokens d) | None \<Rightarrow> (0, iu_OutputTokens u));
          n = output_image_count u;
          per_image = (case (case quality_rate p quality of Some r \<Rightarrow> Some r | None \<Rightarrow> size_rate p pixels) of
              Some rate \<Rightarrow> of_int n * rate | None \<Rightarrow> 0)
      in if text > 0 \<or> image > 0
         then of_int text * tieredOutputRate p tot tier + of_int image * tieredImageOutputRate p tot tier
         else case OutputCostPerPixel p of
             Some rate \<Rightarrow> if pixels > 0 then of_int (wrap64 (pixels * n)) * rate else per_image
           | None \<Rightarrow> per_image)"

definition computeImageCost ::
  "rate_options \<Rightarrow> image_usage option \<Rightarrow> string \<Rightarrow> string \<Rightarrow> service_tier \<Rightarrow> float64" where
  "computeImageCost p usage dims quality tier =
     (case usage of
        None \<Rightarrow> 0
      | Some u \<Rightarrow>
          let pixels = parseImagePixels dims; tot = iu_TotalTokens u in
          computeImageInputCost p u tot pixels tier + computeImageOutputCost p u tot pixels quality tier)"

definition computeVideoCost ::
  "rate_options \<Rightarrow> llm_usage option \<Rightarrow> int option \<Rightarrow> service_tier \<Rightarrow> float64" where
  "computeVideoCost p usage videoSeconds tier =
     (let tot = safeTotalTokens usage;
          seconds = (case videoSeconds of Some s \<Rightarrow> if s > 0 then s else 0 | None \<Rightarrow> 0);
          inputRate = tieredVideoInputPerSecondRate p tot;
          inputCost = (if prompt_count usage > 0 then of_int (prompt_count usage) * tieredInputRate p tot tier
            else if seconds > 0 \<and> inputRate > 0 then of_int seconds * inputRate else 0);
          outputCost = (if completion_count usage > 0
            then of_int (completion_count usage) * tieredOutputRate p tot tier
            else if seconds > 0 then
              of_int seconds * use_rate True (OutputCostPerVideoPerSecond p) (use_rate True (OutputCostPerSecond p) 0)
            else 0)
      in inputCost + outputCost)"

definition computeOCRCost :: "rate_options \<Rightarrow> int option \<Rightarrow> bool option \<Rightarrow> float64" where
  "computeOCRCost p pages annotated =
     (case pages of
        None \<Rightarrow> 0
      | Some n \<Rightarrow>
          (case OCRCostPerPage p of Some rate \<Rightarrow> of_int n * rate | None \<Rightarrow> 0)
          + (if annotated = Some True
             then (case AnnotationCostPerPage p of Some rate \<Rightarrow> of_int n * rate | None \<Rightarrow> 0) else 0))"

definition computeContainerCreationCost :: "rate_options \<Rightarrow> float64" where
  "computeContainerCreationCost p = (case CodeInterpreterCostPerSession p of None \<Rightarrow> 0 | Some c \<Rightarrow> c)"

subsection \<open>Bounds\<close>

definition rates_within :: "float64 \<Rightarrow> rate_options \<Rightarrow> bool" where
  "rates_within M p \<longleftrightarrow> 0 \<le> M \<and> (\<forall>r \<in> set (rates_of p). case r of None \<Rightarrow> True | Some x \<Rightarrow> 0 \<le> x \<and> x \<le> M)"

definition in_range :: "float64 \<Rightarrow> float64 \<Rightarrow> bool" where
  "in_range M x \<longleftrightarrow> 0 \<le> x \<and> x \<le> M"

lemma rate_within: "rates_within M p \<Longrightarrow> r \<in> set (rates_of p) \<Longrightarrow> r = Some x \<Longrightarrow> in_range M x"
  by (auto simp: rates_within_def in_range_def)

lemma use_rate_within:
  "rates_within M p \<Longrightarrow> r \<in> set (rates_of p) \<Longrightarrow> in_range M other \<Longrightarrow> in_range M (use_rate c r other)"
  by (auto simp: use_rate_def split: option.split dest: rate_within)

lemma zero_within: "rates_within M p \<Longrightarrow> in_range M 0"
  by (simp add: rates_within_def in_range_def)

lemma tier_within:
  assumes "rates_within M p"
  shows "in_range M (tieredInputRate p n t)" "in_range M (tieredOutputRate p n t)"
    "in_range M (tieredCacheReadInputTokenRate p n t)" "in_range M (tieredCacheCreationInputTokenRate p n t)"
    "in_range M (tieredCacheCreationInputAbove1hrTokenRate p n t)"
  by (simp_all only: tier_defs)
    (intro use_rate_within [OF assms] zero_within [OF assms]; simp add: rates_of_def)+

lemma cached_counts_bounds:
  assumes "cached_counts u = (r, w, h)"
  shows "r \<le> us_PromptTokens u" "w \<le> us_PromptTokens u - r" "h \<le> w"
  using assms by (auto simp: cached_counts_def Let_def split: prod.splits)

definition details_nonneg :: "llm_usage \<Rightarrow> bool" where
  "details_nonneg u \<longleftrightarrow>
     (case us_PromptTokensDetails u of None \<Rightarrow> True
      | Some d \<Rightarrow> 0 \<le> pd_CachedReadTokens d \<and> 0 \<le> pd_CachedWriteTokens d \<and>
          (case pd_CachedWriteTokenDetails d of None \<Rightarrow> True | Some x \<Rightarrow> 0 \<le> CachedWriteTokens1h x))"

lemma cached_counts_nonneg:
  assumes "cached_counts u = (r, w, h)" "details_nonneg u" "0 \<le> us_PromptTokens u"
  shows "0 \<le> r" "0 \<le> w" "0 \<le> h"
  using assms by (auto simp: cached_counts_def details_nonneg_def Let_def split: option.splits if_splits)

lemma audio_counts_bounds:
  assumes "audio_counts u = (ia, oa)" "0 \<le> us_PromptTokens u" "0 \<le> us_CompletionTokens u"
  shows "0 \<le> ia" "ia \<le> us_PromptTokens u" "0 \<le> oa" "oa \<le> us_CompletionTokens u"
  using assms by (auto simp: audio_counts_def clamp_def split: if_splits)

text \<open>Tokens of one rate of which some are moved to another rate.\<close>

lemma moved_cost:
  assumes "in_range M a" "in_range M b" "0 \<le> k" "k \<le> n"
  shows "in_range (M * of_int n) (of_int n * a + of_int k * (b - a))"
proof -
  have e: "of_int n * a + of_int k * (b - a) = of_int (n - k) * a + of_int k * b" by (simp add: algebra_simps)
  have "of_int (n - k) * a \<le> of_int (n - k) * M" "of_int k * b \<le> of_int k * M"
    using assms by (simp_all add: in_range_def mult_left_mono)
  then have "of_int (n - k) * a + of_int k * b \<le> M * of_int n" by (simp add: algebra_simps)
  then show ?thesis using assms by (simp add: in_range_def e)
qed

lemma plain_cost: "in_range M a \<Longrightarrow> 0 \<le> n \<Longrightarrow> in_range (M * of_int n) (of_int n * a)"
  by (simp add: in_range_def mult.commute [of "of_int n"] mult_right_mono)

definition queries :: "llm_usage \<Rightarrow> int" where
  "queries u = (case us_CompletionTokensDetails u of None \<Rightarrow> 0
     | Some d \<Rightarrow> (case ct_NumSearchQueries d of None \<Rightarrow> 0 | Some n \<Rightarrow> n))"

lemma searchCost_within:
  assumes "rates_within M p" "0 \<le> queries u"
  shows "in_range (M * of_int (queries u)) (searchCost p u)"
proof -
  have "in_range M x" if "SearchContextCostPerQuery p = Some x" for x
    using rate_within [OF assms(1) _ that] by (simp add: rates_of_def)
  then show ?thesis using assms
    by (auto simp: searchCost_def queries_def rates_within_def split: option.splits intro!: plain_cost)
      (auto simp: in_range_def)
qed

text \<open>The three parts of the cost of a text call.\<close>

definition input_part :: "rate_options \<Rightarrow> llm_usage \<Rightarrow> service_tier \<Rightarrow> float64" where
  "input_part p u t =
     (let tot = us_TotalTokens u; (r, w, h) = cached_counts u; (ia, oa) = audio_counts u; rate = tieredInputRate p tot t in
      of_int (us_PromptTokens u - r - w) * rate
      + (case InputCostPerAudioToken p of Some a \<Rightarrow> if ia > 0 then of_int ia * (a - rate) else 0 | None \<Rightarrow> 0))"

definition cache_part :: "rate_options \<Rightarrow> llm_usage \<Rightarrow> service_tier \<Rightarrow> float64" where
  "cache_part p u t =
     (let tot = us_TotalTokens u; (r, w, h) = cached_counts u in
      (if r > 0 then of_int r * tieredCacheReadInputTokenRate p tot t else 0)
      + (if w > 0 then (if h > 0 then of_int h * tieredCacheCreationInputAbove1hrTokenRate p tot t else 0)
           + of_int (w - h) * tieredCacheCreationInputTokenRate p tot t else 0))"

definition output_part :: "rate_options \<Rightarrow> llm_usage \<Rightarrow> service_tier \<Rightarrow> float64" where
  "output_part p u t =
     (let (ia, oa) = audio_counts u; rate = tieredOutputRate p (us_TotalTokens u) t in
      of_int (us_CompletionTokens u) * rate
      + (case OutputCostPerAudioToken p of Some a \<Rightarrow> if oa > 0 then of_int oa * (a - rate) else 0 | None \<Rightarrow> 0))"

lemma text_cost_parts:
  "computeTextCost p (Some u) t = input_part p u t + cache_part p u t + output_part p u t + searchCost p u"
  by (simp add: computeTextCost_def input_part_def cache_part_def output_part_def Let_def split: prod.split)

lemma cache_part_within:
  assumes "rates_within M p" "cached_counts u = (r, w, h)"
  shows "0 \<le> cache_part p u t" "\<lbrakk>0 \<le> r; 0 \<le> w; 0 \<le> h\<rbrakk> \<Longrightarrow> cache_part p u t \<le> M * of_int (r + w)"
proof -
  note tw = tier_within [OF assms(1), of "us_TotalTokens u" t]
  note hw = cached_counts_bounds(3) [OF assms(2)]
  have a: "0 \<le> of_int (w - h) * tieredCacheCreationInputTokenRate p (us_TotalTokens u) t"
    using plain_cost [OF tw(4), of "w - h"] hw by (simp add: in_range_def)
  show "0 \<le> cache_part p u t"
    using tw a by (simp add: cache_part_def Let_def assms(2) in_range_def)
  assume nn: "0 \<le> r" "0 \<le> w" "0 \<le> h"
  let ?A = "of_int r * tieredCacheReadInputTokenRate p (us_TotalTokens u) t"
  let ?B = "of_int h * tieredCacheCreationInputAbove1hrTokenRate p (us_TotalTokens u) t"
  let ?C = "of_int (w - h) * tieredCacheCreationInputTokenRate p (us_TotalTokens u) t"
  have b: "in_range (M * of_int r) ?A" "in_range (M * of_int h) ?B" "in_range (M * of_int (w - h)) ?C"
    using tw nn hw by (simp_all only: plain_cost diff_ge_0_iff_ge)
  then have "0 \<le> ?A" "0 \<le> ?B" "0 \<le> ?C" by (simp_all only: in_range_def)
  then have "cache_part p u t \<le> ?A + (?B + ?C)"
    unfolding cache_part_def Let_def assms(2) prod.case by (simp del: mult_nonneg_nonneg)
  also have "\<dots> \<le> M * of_int r + (M * of_int h + M * of_int (w - h))"
    using b by (intro add_mono) (simp_all only: in_range_def)
  finally show "cache_part p u t \<le> M * of_int (r + w)" by (simp add: algebra_simps)
qed

lemma input_part_in_range:
  assumes "rates_within M p" "0 \<le> us_PromptTokens u" "0 \<le> us_CompletionTokens u"
    "cached_counts u = (r, w, h)" "InputCostPerAudioToken p = None \<or> fst (audio_counts u) \<le> us_PromptTokens u - r - w"
  shows "in_range (M * of_int (us_PromptTokens u - r - w)) (input_part p u t)"
proof -
  obtain ia oa where ac: "audio_counts u = (ia, oa)" by fastforce
  note n = cached_counts_bounds [OF assms(4)] audio_counts_bounds [OF ac assms(2,3)]
  note rate = tier_within(1) [OF assms(1), of "us_TotalTokens u" t]
  show ?thesis
  proof (cases "InputCostPerAudioToken p")
    case None
    then show ?thesis using plain_cost [OF rate, of "us_PromptTokens u - r - w"] n
      by (simp add: input_part_def Let_def ac assms(4))
  next
    case (Some a)
    have "in_range M a" using rate_within [OF assms(1) _ Some] by (simp add: rates_of_def)
    from moved_cost [OF rate this n(4), of "us_PromptTokens u - r - w"] show ?thesis
      using assms(5) Some n(4) by (cases "ia = 0") (simp_all add: input_part_def Let_def ac assms(4))
  qed
qed

lemma output_part_in_range:
  assumes "rates_within M p" "0 \<le> us_PromptTokens u" "0 \<le> us_CompletionTokens u"
  shows "in_range (M * of_int (us_CompletionTokens u)) (output_part p u t)"
proof -
  obtain ia oa where ac: "audio_counts u = (ia, oa)" by fastforce
  note n = audio_counts_bounds [OF ac assms(2,3)]
  note rate = tier_within(2) [OF assms(1), of "us_TotalTokens u" t]
  show ?thesis
  proof (cases "OutputCostPerAudioToken p")
    case None
    then show ?thesis using plain_cost [OF rate assms(3)] by (simp add: output_part_def Let_def ac)
  next
    case (Some a)
    have "in_range M a" using rate_within [OF assms(1) _ Some] by (simp add: rates_of_def)
    from moved_cost [OF rate this n(3,4)] show ?thesis
      using Some n(3) by (cases "oa = 0") (simp_all add: output_part_def Let_def ac)
  qed
qed

text \<open>
  The cost of a text call is bounded: with rates between zero and \<open>M\<close> it is never negative,
  whatever cached counts the provider reports, and when those are not negative no token is billed
  twice: the cost is at most \<open>M\<close> for each prompt token, completion token and search query. Where
  an audio rate is configured, the audio tokens must be among the tokens that are not cached.
\<close>

lemma text_cost_in_range:
  assumes "rates_within M p" "0 \<le> us_PromptTokens u" "0 \<le> us_CompletionTokens u" "0 \<le> queries u"
    "cached_counts u = (r, w, h)" "InputCostPerAudioToken p = None \<or> fst (audio_counts u) \<le> us_PromptTokens u - r - w"
  shows "0 \<le> computeTextCost p (Some u) t \<and>
    (details_nonneg u \<longrightarrow>
       computeTextCost p (Some u) t \<le> M * of_int (us_PromptTokens u + us_CompletionTokens u + queries u))"
proof -
  note i = input_part_in_range [OF assms(1-3,5,6), of t]
  note o' = output_part_in_range [OF assms(1-3), of t]
  note s = searchCost_within [OF assms(1,4)]
  note c = cache_part_within [OF assms(1,5), of t]
  have "computeTextCost p (Some u) t \<le> M * of_int (us_PromptTokens u + us_CompletionTokens u + queries u)"
    if "details_nonneg u"
  proof -
    from c(2) cached_counts_nonneg [OF assms(5) that assms(2)] have "cache_part p u t \<le> M * of_int (r + w)" by blast
    then have "computeTextCost p (Some u) t \<le> M * of_int (us_PromptTokens u - r - w) + M * of_int (r + w)
        + M * of_int (us_CompletionTokens u) + M * of_int (queries u)"
      using i o' s unfolding text_cost_parts in_range_def by linarith
    then show ?thesis by (simp add: algebra_simps)
  qed
  moreover have "0 \<le> computeTextCost p (Some u) t"
    using i o' s c(1) unfolding text_cost_parts in_range_def by linarith
  ultimately show ?thesis by blast
qed

definition sample_rates :: rate_options where
  "sample_rates = no_rates\<lparr>InputCostPerToken := Some 4, OutputCostPerToken := Some 6, CacheReadInputTokenCost := Some 1,
     CacheCreationInputTokenCost := Some 5, SearchContextCostPerQuery := Some 2\<rparr>"

text \<open>A malformed usage: more cached tokens than prompt tokens.\<close>

definition malformed_usage :: llm_usage where
  "malformed_usage = \<lparr>us_PromptTokens = 10,
     us_PromptTokensDetails = Some \<lparr>pd_AudioTokens = 0, pd_CachedReadTokens = 7, pd_CachedWriteTokens = 5,
       pd_CachedWriteTokenDetails = Some \<lparr>CachedWriteTokens5m = 0, CachedWriteTokens1h = 9\<rparr>\<rparr>,
     us_CompletionTokens = 3, us_CompletionTokensDetails = Some \<lparr>ct_AudioTokens = 0, ct_ReasoningTokens = 0,
       ct_NumSearchQueries = Some 1\<rparr>, us_TotalTokens = 13, us_Cost = None\<rparr>"

lemma text_cost_sample:
  "computeTextCost sample_rates (Some malformed_usage) no_tier = 42 \<and>
   0 \<le> computeTextCost sample_rates (Some malformed_usage) no_tier \<and>
   computeTextCost sample_rates (Some malformed_usage) no_tier \<le> 6 * of_int (10 + 3 + 1)"
proof -
  have "rates_within 6 sample_rates"
    by (simp add: rates_within_def rates_of_def sample_rates_def no_rates_def)
  moreover have "cached_counts malformed_usage = (7, 3, 3)" by code_simp
  moreover have "InputCostPerAudioToken sample_rates = None" "queries malformed_usage = 1" "details_nonneg malformed_usage"
    "us_PromptTokens malformed_usage = 10" "us_CompletionTokens malformed_usage = 3" by code_simp+
  ultimately have "0 \<le> computeTextCost sample_rates (Some malformed_usage) no_tier \<and>
      computeTextCost sample_rates (Some malformed_usage) no_tier \<le> 6 * of_int (10 + 3 + 1)"
    using text_cost_in_range [of 6 sample_rates malformed_usage 7 3 3 no_tier] by simp
  moreover have "computeTextCost sample_rates (Some malformed_usage) no_tier = 42" by code_simp
  ultimately show ?thesis by simp
qed

text \<open>
  Audio tokens served from the cache were not billed at the text rate, but their cost is corrected
  as if they were: a prompt that is all cached audio costs the cache rate plus the audio rate less
  the text rate, which is negative when the text rate is above the other two.
\<close>

lemma cached_audio_billing:
  assumes "0 < n" "cached_counts u = (n, 0, 0)" "us_PromptTokens u = n" "fst (audio_counts u) = n"
    "InputCostPerAudioToken p = Some b"
  shows "input_part p u t + cache_part p u t =
    of_int n * (tieredCacheReadInputTokenRate p (us_TotalTokens u) t + b - tieredInputRate p (us_TotalTokens u) t)"
  using assms by (cases "audio_counts u") (simp add: input_part_def cache_part_def Let_def algebra_simps)

definition cached_audio_usage :: llm_usage where
  "cached_audio_usage = \<lparr>us_PromptTokens = 10,
     us_PromptTokensDetails = Some \<lparr>pd_AudioTokens = 10, pd_CachedReadTokens = 10, pd_CachedWriteTokens = 0,
       pd_CachedWriteTokenDetails = None\<rparr>,
     us_CompletionTokens = 0, us_CompletionTokensDetails = None, us_TotalTokens = 10, us_Cost = None\<rparr>"

lemma negative_cost: "computeTextCost (sample_rates\<lparr>InputCostPerAudioToken := Some 2\<rparr>) (Some cached_audio_usage) no_tier = - 10"
  by code_simp

end
