(* ===== verification/Simulation.thy ===== *)
theory Simulation
  imports Main
begin

text \<open>
  The contract between a stateful component and its abstract specification: every operation
  keeps the invariant, and its effect on the abstract value is the one of the specification. A
  component that meets it does so for every sequence of operations.
\<close>

locale simulation =
  fixes step :: "'e \<Rightarrow> 's \<Rightarrow> 's"
    and spec :: "'e \<Rightarrow> 'a \<Rightarrow> 'a"
    and ok :: "'s \<Rightarrow> bool"
    and abs :: "'s \<Rightarrow> 'a"
  assumes ok_step: "ok s \<Longrightarrow> ok (step e s)"
    and abs_step: "ok s \<Longrightarrow> abs (step e s) = spec e (abs s)"
begin

lemma ok_run: "ok s \<Longrightarrow> ok (fold step es s)"
  by (induction es arbitrary: s) (simp_all add: ok_step)

lemma abs_run: "ok s \<Longrightarrow> abs (fold step es s) = fold spec es (abs s)"
  by (induction es arbitrary: s) (simp_all add: ok_step abs_step)

lemma run_refines: "ok s \<Longrightarrow> ok (fold step es s) \<and> abs (fold step es s) = fold spec es (abs s)"
  by (simp add: ok_run abs_run)

end

end
