(* ===== verification/PricingOverrides.thy ===== *)
theory PricingOverrides
  imports Pricing Simulation
begin

text \<open>
  Pricing overrides (framework/modelcatalog/datasheet/overrides.go): their validation, the
  lookup structure, the patching of a price row, and the operations on the set of overrides. The
  JSON of an override row is parsed by a library: a row arrives here as the parsed override, or as
  \<open>None\<close> when it does not parse. Wildcards of the same length keep their order in the sort.
\<close>

subsection \<open>Pricing modes\<close>

definition responses_like :: "string \<Rightarrow> bool" where
  "responses_like t \<longleftrightarrow>
     t \<in> {''responses'', ''responses_stream'', ''websocket_responses'', ''realtime'', ''compaction''}"

definition normalizeRequestType :: "string \<Rightarrow> string" where
  "normalizeRequestType t =
     (if t \<in> {''text_completion'', ''text_completion_stream''} then ''completion''
      else if t \<in> {''chat_completion'', ''chat_completion_stream''} then ''chat''
      else if responses_like t then ''responses''
      else if t = ''embedding'' then ''embedding''
      else if t = ''rerank'' then ''rerank''
      else if t \<in> {''speech'', ''speech_stream''} then ''audio_speech''
      else if t \<in> {''transcription'', ''transcription_stream''} then ''audio_transcription''
      else if t \<in> {''image_generation'', ''image_generation_stream'', ''image_variation''} then ''image_generation''
      else if t \<in> {''image_edit'', ''image_edit_stream''} then ''image_edit''
      else if t \<in> {''video_generation'', ''video_remix''} then ''video_generation''
      else if t = ''ocr'' then ''ocr''
      else if t = ''container_create'' then ''container_create''
      else ''unknown'')"

definition normalizeStreamRequestType :: "string \<Rightarrow> string" where
  "normalizeStreamRequestType t =
     (if t = ''text_completion_stream'' then ''text_completion''
      else if t = ''chat_completion_stream'' then ''chat_completion''
      else if t \<in> {''responses_stream'', ''websocket_responses''} then ''responses''
      else if t = ''realtime'' then ''realtime''
      else if t = ''speech_stream'' then ''speech''
      else if t = ''transcription_stream'' then ''transcription''
      else if t = ''image_generation_stream'' then ''image_generation''
      else if t = ''image_edit_stream'' then ''image_edit''
      else t)"

subsection \<open>Overrides\<close>

record override =
  ov_ID :: string
  ov_Name :: string
  ov_ScopeKind :: string
  ov_VirtualKeyID :: "string option"
  ov_ProviderID :: "string option"
  ov_ProviderKeyID :: "string option"
  ov_MatchType :: string
  ov_Pattern :: string
  ov_RequestTypes :: "string list"
  ov_Options :: rate_options

record lookup_scopes =
  ls_VirtualKeyID :: string
  ls_SelectedKeyID :: string
  ls_Provider :: string

definition ScopeKindGlobal :: string where "ScopeKindGlobal = ''global''"
definition ScopeKindProvider :: string where "ScopeKindProvider = ''provider''"
definition ScopeKindProviderKey :: string where "ScopeKindProviderKey = ''provider_key''"
definition ScopeKindVirtualKey :: string where "ScopeKindVirtualKey = ''virtual_key''"
definition ScopeKindVirtualKeyProvider :: string where "ScopeKindVirtualKeyProvider = ''virtual_key_provider''"
definition ScopeKindVirtualKeyProviderKey :: string where
  "ScopeKindVirtualKeyProviderKey = ''virtual_key_provider_key''"

lemmas scope_kinds = ScopeKindGlobal_def ScopeKindProvider_def ScopeKindProviderKey_def ScopeKindVirtualKey_def
  ScopeKindVirtualKeyProvider_def ScopeKindVirtualKeyProviderKey_def

datatype override_error =
  ScopeMustNotInclude string | ScopeRequires string | UnsupportedScope string
  | PatternRequired | ExactWithWildcard | WildcardNotTrailing | WildcardCount | UnsupportedMatch string
  | RequestTypesRequired | StreamRequestType string | UnsupportedRequestType string

definition validateScopeKind :: "override \<Rightarrow> override_error option" where
  "validateScopeKind ov =
     (let k = ov_ScopeKind ov; v = ov_VirtualKeyID ov \<noteq> None; p = ov_ProviderID ov \<noteq> None; q = ov_ProviderKeyID ov \<noteq> None in
      if k = ScopeKindGlobal then (if v \<or> p \<or> q then Some (ScopeMustNotInclude k) else None)
      else if k = ScopeKindProvider then
        (if \<not> p then Some (ScopeRequires k) else if v \<or> q then Some (ScopeMustNotInclude k) else None)
      else if k = ScopeKindProviderKey then
        (if \<not> q then Some (ScopeRequires k) else if v \<or> p then Some (ScopeMustNotInclude k) else None)
      else if k = ScopeKindVirtualKey then
        (if \<not> v then Some (ScopeRequires k) else if p \<or> q then Some (ScopeMustNotInclude k) else None)
      else if k = ScopeKindVirtualKeyProvider then
        (if \<not> v \<or> \<not> p then Some (ScopeRequires k) else if q then Some (ScopeMustNotInclude k) else None)
      else if k = ScopeKindVirtualKeyProviderKey then
        (if \<not> v \<or> \<not> p \<or> \<not> q then Some (ScopeRequires k) else None)
      else Some (UnsupportedScope k))"

definition validatePattern :: "override \<Rightarrow> override_error option" where
  "validatePattern ov =
     (let pattern = str_trim (ov_Pattern ov) in
      if pattern = [] then Some PatternRequired
      else if ov_MatchType ov = ''exact'' then
        (if CHR ''*'' \<in> set pattern then Some ExactWithWildcard else None)
      else if ov_MatchType ov = ''wildcard'' then
        (if last pattern \<noteq> CHR ''*'' then Some WildcardNotTrailing
         else if count_list pattern (CHR ''*'') \<noteq> 1 then Some WildcardCount else None)
      else Some (UnsupportedMatch (ov_MatchType ov)))"

definition request_type_error :: "string \<Rightarrow> override_error option" where
  "request_type_error t =
     (if normalizeStreamRequestType t \<noteq> t then Some (StreamRequestType t)
      else if normalizeRequestType t = ''unknown'' then Some (UnsupportedRequestType t)
      else None)"

definition validateRequestTypes :: "override \<Rightarrow> override_error option" where
  "validateRequestTypes ov =
     (if ov_RequestTypes ov = [] then Some RequestTypesRequired else first_some request_type_error (ov_RequestTypes ov))"

definition override_IsValid :: "override \<Rightarrow> override_error option" where
  "override_IsValid ov =
     (case validateScopeKind ov of
        Some e \<Rightarrow> Some e
      | None \<Rightarrow> (case validatePattern ov of Some e \<Rightarrow> Some e | None \<Rightarrow> validateRequestTypes ov))"

subsection \<open>The lookup structure\<close>

record custom_entry =
  ce_id :: string
  ce_scopeKind :: string
  ce_virtualKeyID :: string
  ce_providerID :: string
  ce_providerKeyID :: string
  ce_pattern :: string
  ce_wildcard :: bool
  ce_requestModes :: "string list"
  ce_options :: rate_options

record custom_pricing =
  cp_exact :: "custom_entry list smap"
  cp_wildcard :: "custom_entry list"

definition or_empty :: "string option \<Rightarrow> string" where
  "or_empty x = (case x of None \<Rightarrow> [] | Some s \<Rightarrow> s)"

definition trim_star :: "string \<Rightarrow> string" where
  "trim_star s = (if s \<noteq> [] \<and> last s = CHR ''*'' then butlast s else s)"

definition entry_of :: "override \<Rightarrow> custom_entry" where
  "entry_of ov =
     \<lparr>ce_id = ov_ID ov, ce_scopeKind = ov_ScopeKind ov, ce_virtualKeyID = or_empty (ov_VirtualKeyID ov),
      ce_providerID = or_empty (ov_ProviderID ov), ce_providerKeyID = or_empty (ov_ProviderKeyID ov),
      ce_pattern = (if ov_MatchType ov = ''wildcard'' then trim_star (str_trim (ov_Pattern ov)) else str_trim (ov_Pattern ov)),
      ce_wildcard = (ov_MatchType ov = ''wildcard''), ce_requestModes = map normalizeRequestType (ov_RequestTypes ov),
      ce_options = ov_Options ov\<rparr>"

definition add_exact :: "override \<Rightarrow> custom_entry list smap \<Rightarrow> custom_entry list smap" where
  "add_exact ov m =
     (if ov_MatchType ov = ''exact''
      then let k = ce_pattern (entry_of ov) in
        sm_store k ((case sm_load m k of None \<Rightarrow> [] | Some l \<Rightarrow> l) @ [entry_of ov]) m
      else m)"

definition buildCustomPricingData :: "override list \<Rightarrow> custom_pricing" where
  "buildCustomPricingData ovs =
     \<lparr>cp_exact = fold add_exact ovs [],
      cp_wildcard = sort_key (\<lambda>e. - int (length (ce_pattern e)))
        (map entry_of (filter (\<lambda>ov. ov_MatchType ov = ''wildcard'') ovs))\<rparr>"

definition matchesScope :: "custom_entry \<Rightarrow> lookup_scopes \<Rightarrow> bool" where
  "matchesScope e s =
     (let k = ce_scopeKind e; v = (ce_virtualKeyID e = ls_VirtualKeyID s); p = (ce_providerID e = ls_Provider s);
          q = (ce_providerKeyID e = ls_SelectedKeyID s) in
      if k = ScopeKindGlobal then True
      else if k = ScopeKindProvider then p
      else if k = ScopeKindProviderKey then q
      else if k = ScopeKindVirtualKey then v
      else if k = ScopeKindVirtualKeyProvider then v \<and> p
      else if k = ScopeKindVirtualKeyProviderKey then v \<and> p \<and> q
      else False)"

definition matchesMode :: "custom_entry \<Rightarrow> string \<Rightarrow> bool" where
  "matchesMode e mode \<longleftrightarrow> mode \<in> set (ce_requestModes e)"

definition scopePriorityOrder :: "lookup_scopes \<Rightarrow> string list" where
  "scopePriorityOrder s =
     (let v = ls_VirtualKeyID s \<noteq> []; p = ls_Provider s \<noteq> []; q = ls_SelectedKeyID s \<noteq> [] in
      (if v \<and> p \<and> q then [ScopeKindVirtualKeyProviderKey] else [])
      @ (if v \<and> p then [ScopeKindVirtualKeyProvider] else [])
      @ (if v then [ScopeKindVirtualKey] else [])
      @ (if q then [ScopeKindProviderKey] else [])
      @ (if p then [ScopeKindProvider] else [])
      @ [ScopeKindGlobal])"

text \<open>The entry of one scope kind: an exact entry of the model, else the first wildcard that fits.\<close>

definition scope_entry :: "custom_pricing \<Rightarrow> string \<Rightarrow> string \<Rightarrow> lookup_scopes \<Rightarrow> string \<Rightarrow> custom_entry option" where
  "scope_entry c model mode s kind =
     (let ok = (\<lambda>e. ce_scopeKind e = kind \<and> matchesScope e s \<and> matchesMode e mode) in
      case find ok (case sm_load (cp_exact c) model of None \<Rightarrow> [] | Some l \<Rightarrow> l) of
        Some e \<Rightarrow> Some e
      | None \<Rightarrow> find (\<lambda>e. ok e \<and> has_prefix model (ce_pattern e)) (cp_wildcard c))"

definition resolve_entry :: "custom_pricing \<Rightarrow> string \<Rightarrow> string \<Rightarrow> lookup_scopes \<Rightarrow> custom_entry option" where
  "resolve_entry c model mode s = first_some (scope_entry c model mode s) (scopePriorityOrder s)"

definition resolve :: "custom_pricing \<Rightarrow> string \<Rightarrow> string \<Rightarrow> lookup_scopes \<Rightarrow> rate_options option" where
  "resolve c model mode s = map_option ce_options (resolve_entry c model mode s)"

subsection \<open>Patching a price row\<close>

definition patched :: "float64 option \<Rightarrow> float64 option \<Rightarrow> float64 option" where
  "patched base change = (case change of None \<Rightarrow> base | Some x \<Rightarrow> Some x)"

definition patch_rates :: "rate_options \<Rightarrow> rate_options \<Rightarrow> rate_options" where
  "patch_rates p changes =
     \<lparr>InputCostPerToken = patched (InputCostPerToken p) (InputCostPerToken changes),
      OutputCostPerToken = patched (OutputCostPerToken p) (OutputCostPerToken changes),
      InputCostPerTokenBatches = patched (InputCostPerTokenBatches p) (InputCostPerTokenBatches changes),
      OutputCostPerTokenBatches = patched (OutputCostPerTokenBatches p) (OutputCostPerTokenBatches changes),
      InputCostPerTokenPriority = patched (InputCostPerTokenPriority p) (InputCostPerTokenPriority changes),
      OutputCostPerTokenPriority = patched (OutputCostPerTokenPriority p) (OutputCostPerTokenPriority changes),
      InputCostPerTokenFlex = patched (InputCostPerTokenFlex p) (InputCostPerTokenFlex changes),
      OutputCostPerTokenFlex = patched (OutputCostPerTokenFlex p) (OutputCostPerTokenFlex changes),
      InputCostPerTokenFast = patched (InputCostPerTokenFast p) (InputCostPerTokenFast changes),
      OutputCostPerTokenFast = patched (OutputCostPerTokenFast p) (OutputCostPerTokenFast changes),
      InputCostPerCharacter = patched (InputCostPerCharacter p) (InputCostPerCharacter changes),
      InputCostPerTokenAbove128kTokens = patched (InputCostPerTokenAbove128kTokens p) (InputCostPerTokenAbove128kTokens changes),
      InputCostPerImageAbove128kTokens = patched (InputCostPerImageAbove128kTokens p) (InputCostPerImageAbove128kTokens changes),
      InputCostPerVideoPerSecondAbove128kTokens = patched (InputCostPerVideoPerSecondAbove128kTokens p) (InputCostPerVideoPerSecondAbove128kTokens changes),
      InputCostPerAudioPerSecondAbove128kTokens = patched (InputCostPerAudioPerSecondAbove128kTokens p) (InputCostPerAudioPerSecondAbove128kTokens changes),
      OutputCostPerTokenAbove128kTokens = patched (OutputCostPerTokenAbove128kTokens p) (OutputCostPerTokenAbove128kTokens changes),
      InputCostPerTokenAbove200kTokens = patched (InputCostPerTokenAbove200kTokens p) (InputCostPerTokenAbove200kTokens changes),
      InputCostPerTokenAbove200kTokensPriority = patched (InputCostPerTokenAbove200kTokensPriority p) (InputCostPerTokenAbove200kTokensPriority changes),
      OutputCostPerTokenAbove200kTokens = patched (OutputCostPerTokenAbove200kTokens p) (OutputCostPerTokenAbove200kTokens changes),
      OutputCostPerTokenAbove200kTokensPriority = patched (OutputCostPerTokenAbove200kTokensPriority p) (OutputCostPerTokenAbove200kTokensPriority changes),
      InputCostPerTokenAbove272kTokens = patched (InputCostPerTokenAbove272kTokens p) (InputCostPerTokenAbove272kTokens changes),
      InputCostPerTokenAbove272kTokensPriority = patched (InputCostPerTokenAbove272kTokensPriority p) (InputCostPerTokenAbove272kTokensPriority changes),
      OutputCostPerTokenAbove272kTokens = patched (OutputCostPerTokenAbove272kTokens p) (OutputCostPerTokenAbove272kTokens changes),
      OutputCostPerTokenAbove272kTokensPriority = patched (OutputCostPerTokenAbove272kTokensPriority p) (OutputCostPerTokenAbove272kTokensPriority changes),
      CacheCreationInputTokenCost = patched (CacheCreationInputTokenCost p) (CacheCreationInputTokenCost changes),
      CacheReadInputTokenCost = patched (CacheReadInputTokenCost p) (CacheReadInputTokenCost changes),
      CacheCreationInputTokenCostAbove200kTokens = patched (CacheCreationInputTokenCostAbove200kTokens p) (CacheCreationInputTokenCostAbove200kTokens changes),
      CacheReadInputTokenCostAbove200kTokens = patched (CacheReadInputTokenCostAbove200kTokens p) (CacheReadInputTokenCostAbove200kTokens changes),
      CacheReadInputTokenCostAbove200kTokensPriority = patched (CacheReadInputTokenCostAbove200kTokensPriority p) (CacheReadInputTokenCostAbove200kTokensPriority changes),
      CacheCreationInputTokenCostAbove1hr = patched (CacheCreationInputTokenCostAbove1hr p) (CacheCreationInputTokenCostAbove1hr changes),
      CacheCreationInputTokenCostAbove1hrAbove200kTokens = patched (CacheCreationInputTokenCostAbove1hrAbove200kTokens p) (CacheCreationInputTokenCostAbove1hrAbove200kTokens changes),
      CacheCreationInputAudioTokenCost = patched (CacheCreationInputAudioTokenCost p) (CacheCreationInputAudioTokenCost changes),
      CacheReadInputTokenCostPriority = patched (CacheReadInputTokenCostPriority p) (CacheReadInputTokenCostPriority changes),
      CacheReadInputTokenCostFlex = patched (CacheReadInputTokenCostFlex p) (CacheReadInputTokenCostFlex changes),
      CacheReadInputImageTokenCost = patched (CacheReadInputImageTokenCost p) (CacheReadInputImageTokenCost changes),
      CacheReadInputTokenCostAbove272kTokens = patched (CacheReadInputTokenCostAbove272kTokens p) (CacheReadInputTokenCostAbove272kTokens changes),
      CacheReadInputTokenCostAbove272kTokensPriority = patched (CacheReadInputTokenCostAbove272kTokensPriority p) (CacheReadInputTokenCostAbove272kTokensPriority changes),
      InputCostPerImage = patched (InputCostPerImage p) (InputCostPerImage changes),
      InputCostPerPixel = patched (InputCostPerPixel p) (InputCostPerPixel changes),
      OutputCostPerImage = patched (OutputCostPerImage p) (OutputCostPerImage changes),
      OutputCostPerPixel = patched (OutputCostPerPixel p) (OutputCostPerPixel changes),
      OutputCostPerImagePremiumImage = patched (OutputCostPerImagePremiumImage p) (OutputCostPerImagePremiumImage changes),
      OutputCostPerImageAbove512x512Pixels = patched (OutputCostPerImageAbove512x512Pixels p) (OutputCostPerImageAbove512x512Pixels changes),
      OutputCostPerImageAbove512x512PixelsPremium = patched (OutputCostPerImageAbove512x512PixelsPremium p) (OutputCostPerImageAbove512x512PixelsPremium changes),
      OutputCostPerImageAbove1024x1024Pixels = patched (OutputCostPerImageAbove1024x1024Pixels p) (OutputCostPerImageAbove1024x1024Pixels changes),
      OutputCostPerImageAbove1024x1024PixelsPremium = patched (OutputCostPerImageAbove1024x1024PixelsPremium p) (OutputCostPerImageAbove1024x1024PixelsPremium changes),
      OutputCostPerImageAbove2048x2048Pixels = patched (OutputCostPerImageAbove2048x2048Pixels p) (OutputCostPerImageAbove2048x2048Pixels changes),
      OutputCostPerImageAbove4096x4096Pixels = patched (OutputCostPerImageAbove4096x4096Pixels p) (OutputCostPerImageAbove4096x4096Pixels changes),
      OutputCostPerImageLowQuality = patched (OutputCostPerImageLowQuality p) (OutputCostPerImageLowQuality changes),
      OutputCostPerImageMediumQuality = patched (OutputCostPerImageMediumQuality p) (OutputCostPerImageMediumQuality changes),
      OutputCostPerImageHighQuality = patched (OutputCostPerImageHighQuality p) (OutputCostPerImageHighQuality changes),
      OutputCostPerImageAutoQuality = patched (OutputCostPerImageAutoQuality p) (OutputCostPerImageAutoQuality changes),
      InputCostPerImageToken = patched (InputCostPerImageToken p) (InputCostPerImageToken changes),
      OutputCostPerImageToken = patched (OutputCostPerImageToken p) (OutputCostPerImageToken changes),
      InputCostPerAudioToken = patched (InputCostPerAudioToken p) (InputCostPerAudioToken changes),
      InputCostPerAudioPerSecond = patched (InputCostPerAudioPerSecond p) (InputCostPerAudioPerSecond changes),
      InputCostPerSecond = patched (InputCostPerSecond p) (InputCostPerSecond changes),
      InputCostPerVideoPerSecond = patched (InputCostPerVideoPerSecond p) (InputCostPerVideoPerSecond changes),
      OutputCostPerAudioToken = patched (OutputCostPerAudioToken p) (OutputCostPerAudioToken changes),
      OutputCostPerVideoPerSecond = patched (OutputCostPerVideoPerSecond p) (OutputCostPerVideoPerSecond changes),
      OutputCostPerSecond = patched (OutputCostPerSecond p) (OutputCostPerSecond changes),
      SearchContextCostPerQuery = patched (SearchContextCostPerQuery p) (SearchContextCostPerQuery changes),
      CodeInterpreterCostPerSession = patched (CodeInterpreterCostPerSession p) (CodeInterpreterCostPerSession changes),
      OCRCostPerPage = patched (OCRCostPerPage p) (OCRCostPerPage changes),
      AnnotationCostPerPage = patched (AnnotationCostPerPage p) (AnnotationCostPerPage changes)\<rparr>"

definition patchPricing :: "model_pricing \<Rightarrow> rate_options \<Rightarrow> model_pricing" where
  "patchPricing row changes = row\<lparr>mp_Rates := patch_rates (mp_Rates row) changes\<rparr>"

record override_store =
  os_raw :: "override list"
  os_custom :: "custom_pricing option"

text \<open>The patch with no field set marshals to the empty object and counts as no override.\<close>

definition applyPricingOverrides ::
  "override_store \<Rightarrow> string \<Rightarrow> string \<Rightarrow> model_pricing \<Rightarrow> lookup_scopes \<Rightarrow> model_pricing \<times> bool" where
  "applyPricingOverrides st model requestType row s =
     (case os_custom st of
        None \<Rightarrow> (row, False)
      | Some c \<Rightarrow>
          let mode = normalizeRequestType requestType in
          if mode = ''unknown'' then (row, False)
          else case resolve c model mode s of
              None \<Rightarrow> (row, False)
            | Some changes \<Rightarrow>
                if list_all (\<lambda>r. r = None) (rates_of changes) then (row, False)
                else (patchPricing row changes, True))"

subsection \<open>The set of overrides\<close>

text \<open>Put a row at the place of its identifier, or at the end.\<close>

fun put_override :: "override \<Rightarrow> override list \<Rightarrow> override list" where
  "put_override ov [] = [ov]"
| "put_override ov (x # xs) = (if ov_ID x = ov_ID ov then ov # xs else x # put_override ov xs)"

fun parsed_rows :: "override option list \<Rightarrow> override list option" where
  "parsed_rows [] = Some []"
| "parsed_rows (r # rs) =
     (case r of None \<Rightarrow> None | Some ov \<Rightarrow> map_option (Cons ov) (parsed_rows rs))"

definition with_overrides :: "override list \<Rightarrow> override_store" where
  "with_overrides ovs = \<lparr>os_raw = ovs, os_custom = Some (buildCustomPricingData ovs)\<rparr>"

text \<open>\<open>None\<close> is the error of a row that does not parse; the store stays as it was.\<close>

definition SetOverrides :: "override option list \<Rightarrow> override_store \<Rightarrow> override_store option" where
  "SetOverrides rows st =
     (case parsed_rows rows of
        None \<Rightarrow> None
      | Some ovs \<Rightarrow> Some (with_overrides (fold put_override ovs [])))"

definition UpsertOverrides :: "override option list \<Rightarrow> override_store \<Rightarrow> override_store option" where
  "UpsertOverrides rows st =
     (case parsed_rows rows of
        None \<Rightarrow> None
      | Some ovs \<Rightarrow>
          let incoming = fold put_override ovs [];
              kept = filter (\<lambda>ov. ov_ID ov \<notin> ov_ID ` set incoming) (os_raw st)
          in Some (with_overrides (kept @ incoming)))"

definition DeleteOverride :: "string \<Rightarrow> override_store \<Rightarrow> override_store" where
  "DeleteOverride i st = with_overrides (filter (\<lambda>ov. ov_ID ov \<noteq> i) (os_raw st))"

subsection \<open>The most specific override wins\<close>

definition is_exact :: "override \<Rightarrow> bool" where "is_exact ov \<longleftrightarrow> ov_MatchType ov = ''exact''"
definition is_wildcard :: "override \<Rightarrow> bool" where "is_wildcard ov \<longleftrightarrow> ov_MatchType ov = ''wildcard''"

definition fits :: "override \<Rightarrow> string \<Rightarrow> bool" where
  "fits ov model \<longleftrightarrow>
     is_exact ov \<and> str_trim (ov_Pattern ov) = model
     \<or> is_wildcard ov \<and> has_prefix model (trim_star (str_trim (ov_Pattern ov)))"

text \<open>An override that is in force for a call: its scope is in play and names the call's
  identifiers, its request types cover the mode, and its pattern fits the model.\<close>

definition in_force :: "override \<Rightarrow> string \<Rightarrow> string \<Rightarrow> lookup_scopes \<Rightarrow> bool" where
  "in_force ov model mode s \<longleftrightarrow>
     ov_ScopeKind ov \<in> set (scopePriorityOrder s) \<and> matchesScope (entry_of ov) s \<and>
     mode \<in> normalizeRequestType ` set (ov_RequestTypes ov) \<and> fits ov model"

definition scope_ranking :: "string list" where
  "scope_ranking = [ScopeKindVirtualKeyProviderKey, ScopeKindVirtualKeyProvider, ScopeKindVirtualKey,
     ScopeKindProviderKey, ScopeKindProvider, ScopeKindGlobal]"

definition scope_rank :: "string \<Rightarrow> nat" where
  "scope_rank k = length (takeWhile (\<lambda>x. x \<noteq> k) scope_ranking)"

definition pattern_length :: "override \<Rightarrow> nat" where
  "pattern_length ov = length (ce_pattern (entry_of ov))"

text \<open>At least as specific: scope first, then exact before wildcard, then the longer prefix.\<close>

definition at_least_as_specific :: "override \<Rightarrow> override \<Rightarrow> bool" where
  "at_least_as_specific a b \<longleftrightarrow>
     scope_rank (ov_ScopeKind a) < scope_rank (ov_ScopeKind b) \<or>
     ov_ScopeKind a = ov_ScopeKind b \<and>
       (is_exact a \<or> is_wildcard a \<and> is_wildcard b \<and> pattern_length a \<ge> pattern_length b)"

lemma first_some_split:
  "first_some f xs = Some y \<Longrightarrow> \<exists>ys x zs. xs = ys @ x # zs \<and> f x = Some y \<and> (\<forall>z \<in> set ys. f z = None)"
proof (induction xs)
  case (Cons a xs)
  show ?case
  proof (cases "f a")
    case None
    with Cons obtain ys x zs where "xs = ys @ x # zs" "f x = Some y" "\<forall>z \<in> set ys. f z = None" by auto
    then have "a # xs = (a # ys) @ x # zs \<and> f x = Some y \<and> (\<forall>z \<in> set (a # ys). f z = None)" using None by simp
    then show ?thesis by blast
  next
    case (Some b)
    then have "a # xs = [] @ a # xs \<and> f a = Some y \<and> (\<forall>z \<in> set []. f z = None)" using Cons.prems by simp
    then show ?thesis by blast
  qed
qed simp

lemma find_least:
  "sorted (map k xs) \<Longrightarrow> find P xs = Some x \<Longrightarrow> y \<in> set xs \<Longrightarrow> P y \<Longrightarrow> k x \<le> (k y :: 'b :: linorder)"
  by (induction xs) (auto split: if_splits)

lemma scopes_sorted: "sorted_wrt (\<lambda>a b. scope_rank a < scope_rank b) (scopePriorityOrder s)"
  by (simp add: scopePriorityOrder_def Let_def scope_rank_def scope_ranking_def scope_kinds)

lemma earlier_scope:
  assumes "scopePriorityOrder s = ys @ k # zs" "k' \<in> set (scopePriorityOrder s)" "k' \<notin> set ys"
  shows "k' = k \<or> scope_rank k < scope_rank k'"
  using scopes_sorted [of s] assms by (auto simp: sorted_wrt_append)

lemma entry_fields [simp]:
  "ce_scopeKind (entry_of ov) = ov_ScopeKind ov" "ce_options (entry_of ov) = ov_Options ov"
  "matchesMode (entry_of ov) mode \<longleftrightarrow> mode \<in> normalizeRequestType ` set (ov_RequestTypes ov)"
  "is_exact ov \<Longrightarrow> ce_pattern (entry_of ov) = str_trim (ov_Pattern ov)"
  "is_wildcard ov \<Longrightarrow> ce_pattern (entry_of ov) = trim_star (str_trim (ov_Pattern ov))"
  by (simp_all add: entry_of_def matchesMode_def is_exact_def is_wildcard_def)

lemma exact_entries:
  "(case sm_load (fold add_exact ovs m) k of None \<Rightarrow> [] | Some l \<Rightarrow> l) =
     (case sm_load m k of None \<Rightarrow> [] | Some l \<Rightarrow> l)
     @ map entry_of (filter (\<lambda>ov. is_exact ov \<and> str_trim (ov_Pattern ov) = k) ovs)"
proof (induction ovs arbitrary: m)
  case (Cons ov ovs)
  show ?case
  proof (cases "is_exact ov")
    case True
    then show ?thesis by (simp add: Cons.IH) (simp add: add_exact_def Let_def is_exact_def split: option.split)
  next
    case False
    then show ?thesis by (simp add: Cons.IH) (simp add: add_exact_def is_exact_def)
  qed
qed simp

lemma built_exact:
  "(case sm_load (cp_exact (buildCustomPricingData ovs)) k of None \<Rightarrow> [] | Some l \<Rightarrow> l) =
     map entry_of (filter (\<lambda>ov. is_exact ov \<and> str_trim (ov_Pattern ov) = k) ovs)"
  by (simp add: buildCustomPricingData_def exact_entries)

lemma built_wildcard:
  "set (cp_wildcard (buildCustomPricingData ovs)) = entry_of ` {ov \<in> set ovs. is_wildcard ov}"
  "sorted (map (\<lambda>e. - int (length (ce_pattern e))) (cp_wildcard (buildCustomPricingData ovs)))"
  by (auto simp: buildCustomPricingData_def is_wildcard_def)

lemma scope_entry_cases:
  assumes "scope_entry (buildCustomPricingData ovs) model mode s kind = Some e" "kind \<in> set (scopePriorityOrder s)"
  obtains ov where "ov \<in> set ovs" "e = entry_of ov" "ov_ScopeKind ov = kind" "in_force ov model mode s"
    "\<And>ov'. ov' \<in> set ovs \<Longrightarrow> in_force ov' model mode s \<Longrightarrow> ov_ScopeKind ov' = kind \<Longrightarrow> at_least_as_specific ov ov'"
proof -
  let ?c = "buildCustomPricingData ovs"
  let ?ok = "\<lambda>e. ce_scopeKind e = kind \<and> matchesScope e s \<and> matchesMode e mode"
  let ?ex = "map entry_of (filter (\<lambda>ov. is_exact ov \<and> str_trim (ov_Pattern ov) = model) ovs)"
  show thesis
  proof (cases "find ?ok ?ex")
    case (Some e')
    then have "e' = e" using assms(1) by (simp add: scope_entry_def Let_def built_exact)
    moreover have "e' \<in> set ?ex \<and> ?ok e'" by (rule find_SomeD [OF Some])
    ultimately obtain ov where "ov \<in> set ovs" "e = entry_of ov" "is_exact ov" "str_trim (ov_Pattern ov) = model" "?ok (entry_of ov)"
      by auto
    then show thesis using assms(2) by (intro that [of ov]) (auto simp: in_force_def fits_def at_least_as_specific_def)
  next
    case None
    let ?w = "\<lambda>e. ?ok e \<and> has_prefix model (ce_pattern e)"
    have f: "find ?w (cp_wildcard ?c) = Some e" using assms(1) None by (simp add: scope_entry_def Let_def built_exact)
    from find_SomeD [OF f] obtain ov where ov: "ov \<in> set ovs" "e = entry_of ov" "is_wildcard ov" "?w (entry_of ov)"
      by (auto simp: built_wildcard(1))
    have "at_least_as_specific ov ov'"
      if o': "ov' \<in> set ovs" "in_force ov' model mode s" "ov_ScopeKind ov' = kind" for ov'
    proof -
      have ok: "?ok (entry_of ov')" using o' by (simp add: in_force_def)
      have "\<not> (is_exact ov' \<and> str_trim (ov_Pattern ov') = model)"
      proof
        assume "is_exact ov' \<and> str_trim (ov_Pattern ov') = model"
        then have "entry_of ov' \<in> set ?ex" using o'(1) by simp
        then show False using None ok unfolding find_None_iff' by blast
      qed
      then have w: "is_wildcard ov'" "has_prefix model (ce_pattern (entry_of ov'))"
        using o'(2) by (auto simp: in_force_def fits_def)
      have "entry_of ov' \<in> set (cp_wildcard ?c)" using o'(1) w(1) by (auto simp: built_wildcard(1))
      from find_least [OF built_wildcard(2) f this] ok w(2) have "pattern_length ov' \<le> pattern_length ov"
        by (simp add: ov(2) pattern_length_def)
      then show ?thesis using ov(3,4) w(1) o'(3) by (simp add: at_least_as_specific_def)
    qed
    then show thesis using ov assms(2) by (intro that [of ov]) (auto simp: in_force_def fits_def)
  qed
qed

lemma scope_entry_complete:
  assumes "ov \<in> set ovs" "in_force ov model mode s"
  shows "scope_entry (buildCustomPricingData ovs) model mode s (ov_ScopeKind ov) \<noteq> None"
proof (cases "is_exact ov \<and> str_trim (ov_Pattern ov) = model")
  case True
  then have "\<exists>e. find (\<lambda>e. ce_scopeKind e = ov_ScopeKind ov \<and> matchesScope e s \<and> matchesMode e mode)
      (map entry_of (filter (\<lambda>ov. is_exact ov \<and> str_trim (ov_Pattern ov) = model) ovs)) = Some e"
    using assms by (intro not_None_eq [THEN iffD1] notI) (auto simp: find_None_iff in_force_def)
  then show ?thesis by (auto simp: scope_entry_def Let_def built_exact)
next
  case False
  then have w: "is_wildcard ov" "has_prefix model (ce_pattern (entry_of ov))"
    using assms(2) by (auto simp: in_force_def fits_def)
  have m: "entry_of ov \<in> set (cp_wildcard (buildCustomPricingData ovs))" using assms(1) w(1) by (auto simp: built_wildcard(1))
  let ?P = "\<lambda>e. (ce_scopeKind e = ov_ScopeKind ov \<and> matchesScope e s \<and> matchesMode e mode) \<and> has_prefix model (ce_pattern e)"
  have "?P (entry_of ov)" using assms(2) w by (simp add: in_force_def)
  then have "find ?P (cp_wildcard (buildCustomPricingData ovs)) \<noteq> None" using m unfolding find_None_iff by blast
  then show ?thesis by (auto simp: scope_entry_def Let_def split: option.split)
qed

text \<open>
  C10. The override in force is the most specific one: a lookup answers with the rates of an override
  that is in force for the model, the mode and the identifiers of the call and at least as specific
  as every other override in force (scope before match type before prefix length), and it
  answers nothing only when no override is in force.
\<close>

theorem override_most_specific:
  "case resolve (buildCustomPricingData ovs) model mode s of
     None \<Rightarrow> \<forall>ov \<in> set ovs. \<not> in_force ov model mode s
   | Some rates \<Rightarrow> \<exists>ov \<in> set ovs. ov_Options ov = rates \<and> in_force ov model mode s \<and>
       (\<forall>ov' \<in> set ovs. in_force ov' model mode s \<longrightarrow> at_least_as_specific ov ov')"
proof (cases "resolve_entry (buildCustomPricingData ovs) model mode s")
  case None
  then have "scope_entry (buildCustomPricingData ovs) model mode s k = None" if "k \<in> set (scopePriorityOrder s)" for k
    using that by (simp add: resolve_entry_def first_some_None)
  then have "\<not> in_force ov model mode s" if "ov \<in> set ovs" for ov
    using scope_entry_complete [OF that] by (meson in_force_def)
  then show ?thesis using None by (simp add: resolve_def)
next
  case (Some e)
  then obtain ys k zs where k: "scopePriorityOrder s = ys @ k # zs"
    "scope_entry (buildCustomPricingData ovs) model mode s k = Some e"
    "\<forall>z \<in> set ys. scope_entry (buildCustomPricingData ovs) model mode s z = None"
    using first_some_split [OF Some [unfolded resolve_entry_def]] by (elim exE conjE) (rule that)
  have kin: "k \<in> set (scopePriorityOrder s)" by (simp add: k(1))
  obtain ov where ov: "ov \<in> set ovs" "e = entry_of ov" "ov_ScopeKind ov = k" "in_force ov model mode s"
    "\<And>ov'. ov' \<in> set ovs \<Longrightarrow> in_force ov' model mode s \<Longrightarrow> ov_ScopeKind ov' = k \<Longrightarrow> at_least_as_specific ov ov'"
    by (rule scope_entry_cases [OF k(2) kin]) (rule that)
  have "at_least_as_specific ov ov'" if o': "ov' \<in> set ovs" "in_force ov' model mode s" for ov'
  proof -
    have "ov_ScopeKind ov' \<notin> set ys" using scope_entry_complete [OF o'] k(3) by (metis)
    then have "ov_ScopeKind ov' = k \<or> scope_rank k < scope_rank (ov_ScopeKind ov')"
      using earlier_scope [OF k(1)] o'(2) by (simp add: in_force_def)
    then show ?thesis using ov(3,5) o' by (auto simp: at_least_as_specific_def)
  qed
  then have "\<exists>ov \<in> set ovs. ov_Options ov = ce_options e \<and> in_force ov model mode s \<and>
      (\<forall>ov' \<in> set ovs. in_force ov' model mode s \<longrightarrow> at_least_as_specific ov ov')"
    using ov(1,2,4) by (intro bexI [of _ ov]) simp_all
  then show ?thesis by (simp add: resolve_def Some)
qed

definition team_price :: override where
  "team_price = \<lparr>ov_ID = ''o1'', ov_Name = ''list'', ov_ScopeKind = ScopeKindGlobal, ov_VirtualKeyID = None,
     ov_ProviderID = None, ov_ProviderKeyID = None, ov_MatchType = ''exact'', ov_Pattern = ''gpt-4'',
     ov_RequestTypes = [''chat_completion''], ov_Options = no_rates\<lparr>InputCostPerToken := Some 3\<rparr>\<rparr>"

definition key_price :: override where
  "key_price = team_price\<lparr>ov_ID := ''o2'', ov_ScopeKind := ScopeKindVirtualKey, ov_VirtualKeyID := Some ''vk1'',
     ov_MatchType := ''wildcard'', ov_Pattern := ''gpt-*'', ov_Options := no_rates\<lparr>InputCostPerToken := Some 2\<rparr>\<rparr>"

definition key_scopes :: lookup_scopes where
  "key_scopes = \<lparr>ls_VirtualKeyID = ''vk1'', ls_SelectedKeyID = [], ls_Provider = ''openai''\<rparr>"

theorem override_most_specific_witness:
  "resolve (buildCustomPricingData [team_price, key_price]) ''gpt-4'' ''chat'' key_scopes = Some (ov_Options key_price) \<and>
   at_least_as_specific key_price team_price"
proof -
  have r: "resolve (buildCustomPricingData [team_price, key_price]) ''gpt-4'' ''chat'' key_scopes = Some (ov_Options key_price)"
    by code_simp
  have "in_force team_price ''gpt-4'' ''chat'' key_scopes" "ov_Options team_price \<noteq> ov_Options key_price" by code_simp+
  then show ?thesis
    using override_most_specific [of "[team_price, key_price]" "''gpt-4''" "''chat''" key_scopes] r by auto
qed

subsection \<open>The set of overrides is a table\<close>

text \<open>
  The abstract value is a map from identifiers to rows; the invariant says that identifiers are
  unique and that the lookup structure is the one of the rows.
\<close>

definition override_table :: "override_store \<Rightarrow> string \<Rightarrow> override option" where
  "override_table st i = find (\<lambda>ov. ov_ID ov = i) (os_raw st)"

definition override_store_ok :: "override_store \<Rightarrow> bool" where
  "override_store_ok st \<longleftrightarrow>
     distinct (map ov_ID (os_raw st)) \<and>
     (os_custom st = Some (buildCustomPricingData (os_raw st)) \<or> os_custom st = None \<and> os_raw st = [])"

datatype override_op = SetAll "override option list" | Upsert "override option list" | Remove string

fun run_override_op :: "override_op \<Rightarrow> override_store \<Rightarrow> override_store" where
  "run_override_op (SetAll rows) st = (case SetOverrides rows st of None \<Rightarrow> st | Some st' \<Rightarrow> st')"
| "run_override_op (Upsert rows) st = (case UpsertOverrides rows st of None \<Rightarrow> st | Some st' \<Rightarrow> st')"
| "run_override_op (Remove i) st = DeleteOverride i st"

definition put_row :: "override \<Rightarrow> (string \<Rightarrow> override option) \<Rightarrow> string \<Rightarrow> override option" where
  "put_row ov m = m(ov_ID ov \<mapsto> ov)"

fun table_op :: "override_op \<Rightarrow> (string \<Rightarrow> override option) \<Rightarrow> string \<Rightarrow> override option" where
  "table_op (SetAll rows) m = (case parsed_rows rows of None \<Rightarrow> m | Some ovs \<Rightarrow> fold put_row ovs Map.empty)"
| "table_op (Upsert rows) m = (case parsed_rows rows of None \<Rightarrow> m | Some ovs \<Rightarrow> fold put_row ovs m)"
| "table_op (Remove i) m = m(i := None)"

definition lookup_row :: "override list \<Rightarrow> string \<Rightarrow> override option" where
  "lookup_row ovs i = find (\<lambda>ov. ov_ID ov = i) ovs"

lemma ids_put: "ov_ID ` set (put_override ov xs) = insert (ov_ID ov) (ov_ID ` set xs)"
  by (induction xs) auto

lemma distinct_put: "distinct (map ov_ID xs) \<Longrightarrow> distinct (map ov_ID (put_override ov xs))"
proof (induction xs)
  case (Cons x xs)
  then show ?case using ids_put [of ov xs] by (auto simp flip: set_map)
qed simp

lemma lookup_put: "lookup_row (put_override ov xs) = put_row ov (lookup_row xs)"
  by (rule ext, induction xs) (auto simp: lookup_row_def put_row_def)

lemma distinct_puts: "distinct (map ov_ID xs) \<Longrightarrow> distinct (map ov_ID (fold put_override ovs xs))"
  by (induction ovs arbitrary: xs) (simp_all add: distinct_put)

lemma lookup_puts: "lookup_row (fold put_override ovs xs) = fold put_row ovs (lookup_row xs)"
  by (induction ovs arbitrary: xs) (simp_all add: lookup_put)

lemma lookup_Nil: "lookup_row [] = Map.empty"
  by (rule ext) (simp add: lookup_row_def)

lemma lookup_append: "lookup_row (xs @ ys) i = (case lookup_row xs i of Some ov \<Rightarrow> Some ov | None \<Rightarrow> lookup_row ys i)"
  by (induction xs) (auto simp: lookup_row_def)

lemma lookup_filter_ID:
  "lookup_row (filter (\<lambda>ov. P (ov_ID ov)) xs) i = (if P i then lookup_row xs i else None)"
  by (induction xs) (auto simp: lookup_row_def)

lemma lookup_None: "lookup_row xs i = None \<longleftrightarrow> i \<notin> ov_ID ` set xs"
  by (auto simp: lookup_row_def find_None_iff)

lemma put_rows_over: "fold put_row ovs m i = (case fold put_row ovs Map.empty i of Some ov \<Rightarrow> Some ov | None \<Rightarrow> m i)"
proof (induction ovs rule: rev_induct)
  case (snoc ov ovs)
  then show ?case by (auto simp: put_row_def split: option.split)
qed simp

lemma with_overrides_raw [simp]: "os_raw (with_overrides ovs) = ovs"
  by (simp add: with_overrides_def)

lemma ids_distinct: "override_store_ok st \<Longrightarrow> distinct (map ov_ID (os_raw st))"
  by (simp add: override_store_ok_def)

lemma with_overrides_ok:
  "override_store_ok (with_overrides ovs) \<longleftrightarrow> distinct (map ov_ID ovs)"
  "override_table (with_overrides ovs) = lookup_row ovs"
  by (auto simp: override_store_ok_def with_overrides_def override_table_def lookup_row_def)

lemma table_lookup: "override_table st = lookup_row (os_raw st)"
  by (rule ext) (simp add: override_table_def lookup_row_def)

lemma upsert_ok:
  assumes "override_store_ok st" "UpsertOverrides rows st = Some st'"
  shows "override_store_ok st'" "override_table st' = table_op (Upsert rows) (override_table st)"
proof -
  obtain ovs where p: "parsed_rows rows = Some ovs" using assms(2) by (auto simp: UpsertOverrides_def split: option.splits)
  let ?in = "fold put_override ovs []"
  let ?kept = "filter (\<lambda>ov. ov_ID ov \<notin> ov_ID ` set ?in) (os_raw st)"
  have st': "st' = with_overrides (?kept @ ?in)" using assms(2) p by (simp add: UpsertOverrides_def Let_def)
  have "distinct (map ov_ID ?kept)" using assms(1) by (simp add: override_store_ok_def distinct_map_filter)
  moreover have "distinct (map ov_ID ?in)" by (simp add: distinct_puts)
  ultimately have "distinct (map ov_ID (?kept @ ?in))" by auto
  then show "override_store_ok st'" using st' by (simp add: with_overrides_ok)
  have "lookup_row (?kept @ ?in) i = fold put_row ovs (lookup_row (os_raw st)) i" for i
  proof (cases "i \<in> ov_ID ` set ?in")
    case True
    then have "lookup_row ?in i \<noteq> None" by (simp add: lookup_None)
    then show ?thesis using True
      by (auto simp: lookup_append lookup_filter_ID [where P = "\<lambda>x. x \<notin> ov_ID ` set ?in"] put_rows_over [of ovs "lookup_row (os_raw st)"]
          lookup_puts lookup_Nil)
  next
    case False
    then have "lookup_row ?in i = None" by (simp add: lookup_None)
    then show ?thesis using False
      by (auto simp: lookup_append lookup_filter_ID [where P = "\<lambda>x. x \<notin> ov_ID ` set ?in"] put_rows_over [of ovs "lookup_row (os_raw st)"]
          lookup_puts lookup_Nil split: option.split)
  qed
  then show "override_table st' = table_op (Upsert rows) (override_table st)"
    using p by (simp add: st' table_lookup fun_eq_iff)
qed

interpretation overrides: simulation run_override_op table_op override_store_ok override_table
proof
  fix st op
  assume ok: "override_store_ok st"
  show "override_store_ok (run_override_op op st)"
  proof (cases op)
    case (SetAll rows)
    then show ?thesis using ok
      by (auto simp: SetOverrides_def distinct_puts with_overrides_ok split: option.split)
  next
    case (Upsert rows)
    then show ?thesis using ok by (auto split: option.split dest: upsert_ok(1))
  next
    case (Remove i)
    then show ?thesis using ids_distinct [OF ok]
      by (simp add: DeleteOverride_def with_overrides_ok(1) distinct_map_filter)
  qed
  show "override_table (run_override_op op st) = table_op op (override_table st)"
  proof (cases op)
    case (SetAll rows)
    then show ?thesis
      by (auto simp: SetOverrides_def with_overrides_ok(2) lookup_puts lookup_Nil split: option.split)
  next
    case (Upsert rows)
    then show ?thesis using upsert_ok(2) [OF ok, of rows]
      by (auto simp: UpsertOverrides_def Let_def split: option.splits)
  next
    case (Remove i)
    then show ?thesis
      by (rule_tac ext) (simp add: DeleteOverride_def with_overrides_ok(2) lookup_filter_ID [where P = "\<lambda>x. x \<noteq> i"] table_lookup)
  qed
qed

text \<open>
  C37. The set of overrides is a table by identifier: after any sequence of replacing, upserting and
  deleting, each identifier is there once, with the row that was last written for it (the last
  one of its batch), rows that do not parse change nothing, and the lookup structure is that of the
  rows.
\<close>

theorem overrides_refine_table:
  assumes "override_store_ok st"
  shows "override_store_ok (fold run_override_op ops st) \<and>
    override_table (fold run_override_op ops st) = fold table_op ops (override_table st)"
  using assms by (rule overrides.run_refines)

theorem overrides_refine_table_witness:
  "override_table (fold run_override_op [SetAll [Some team_price, Some key_price],
       Upsert [Some (key_price\<lparr>ov_Name := ''new''\<rparr>)], Upsert [None], Remove ''o1'']
     \<lparr>os_raw = [], os_custom = None\<rparr>) = [''o2'' \<mapsto> key_price\<lparr>ov_Name := ''new''\<rparr>]"
proof -
  have "override_store_ok \<lparr>os_raw = [], os_custom = None\<rparr>" by (simp add: override_store_ok_def)
  from overrides_refine_table [OF this, THEN conjunct2, of "[SetAll [Some team_price, Some key_price],
       Upsert [Some (key_price\<lparr>ov_Name := ''new''\<rparr>)], Upsert [None], Remove ''o1'']"]
  show ?thesis by (simp add: override_table_def put_row_def team_price_def key_price_def fun_eq_iff)
qed

end
