(* ===== verification/PricingLookup.thy ===== *)
theory PricingLookup
  imports PricingOverrides
begin

text \<open>
  From a response to its cost (framework/modelcatalog/datasheet: types.go, sync.go, cost.go): the
  price table and its keys, the lookup of a price with its fallbacks and overrides, the usage that
  each kind of response carries, and the cost of a call, answered or failed. Of a response only the
  fields that the cost depends on are kept, and it carries one kind of payload.
\<close>

subsection \<open>Price rows\<close>

definition makeKey :: "string \<Rightarrow> string \<Rightarrow> string \<Rightarrow> string" where
  "makeKey model provider mode = model @ ''|'' @ provider @ ''|'' @ mode"

definition normalizeProvider :: "string \<Rightarrow> string" where
  "normalizeProvider p =
     (if str_contains p ''vertex_ai'' \<or> p = ''google-vertex'' then ''vertex''
      else if str_contains p ''bedrock'' then ''bedrock''
      else if str_contains p ''cohere'' then ''cohere''
      else if str_contains p ''runwayml'' then ''runway''
      else if str_contains p ''fireworks_ai'' then ''fireworks''
      else p)"

definition extractModelName :: "string \<Rightarrow> string" where
  "extractModelName key = (case split_first CHR ''/'' key of None \<Rightarrow> key | Some (_, m) \<Rightarrow> m)"

record entry =
  en_BaseModel :: string
  en_Provider :: string
  en_Mode :: string
  en_ContextLength :: "int option"
  en_MaxInputTokens :: "int option"
  en_MaxOutputTokens :: "int option"
  en_Architecture :: "architecture option"
  en_IsDeprecated :: bool
  en_AdditionalAttributes :: "string smap"
  en_Options :: rate_options

text \<open>Each conversion copies the rates one by one: of an entry to its row, and of a row to its entry.\<close>

definition row_rates :: "rate_options \<Rightarrow> rate_options" where
  "row_rates e =
     \<lparr>InputCostPerToken = InputCostPerToken e,
      OutputCostPerToken = OutputCostPerToken e,
      InputCostPerTokenBatches = InputCostPerTokenBatches e,
      OutputCostPerTokenBatches = OutputCostPerTokenBatches e,
      InputCostPerTokenPriority = InputCostPerTokenPriority e,
      OutputCostPerTokenPriority = OutputCostPerTokenPriority e,
      InputCostPerTokenFlex = InputCostPerTokenFlex e,
      OutputCostPerTokenFlex = OutputCostPerTokenFlex e,
      InputCostPerTokenFast = InputCostPerTokenFast e,
      OutputCostPerTokenFast = OutputCostPerTokenFast e,
      InputCostPerCharacter = InputCostPerCharacter e,
      InputCostPerTokenAbove128kTokens = InputCostPerTokenAbove128kTokens e,
      InputCostPerImageAbove128kTokens = InputCostPerImageAbove128kTokens e,
      InputCostPerVideoPerSecondAbove128kTokens = InputCostPerVideoPerSecondAbove128kTokens e,
      InputCostPerAudioPerSecondAbove128kTokens = InputCostPerAudioPerSecondAbove128kTokens e,
      OutputCostPerTokenAbove128kTokens = OutputCostPerTokenAbove128kTokens e,
      InputCostPerTokenAbove200kTokens = InputCostPerTokenAbove200kTokens e,
      InputCostPerTokenAbove200kTokensPriority = InputCostPerTokenAbove200kTokensPriority e,
      OutputCostPerTokenAbove200kTokens = OutputCostPerTokenAbove200kTokens e,
      OutputCostPerTokenAbove200kTokensPriority = OutputCostPerTokenAbove200kTokensPriority e,
      InputCostPerTokenAbove272kTokens = InputCostPerTokenAbove272kTokens e,
      InputCostPerTokenAbove272kTokensPriority = InputCostPerTokenAbove272kTokensPriority e,
      OutputCostPerTokenAbove272kTokens = OutputCostPerTokenAbove272kTokens e,
      OutputCostPerTokenAbove272kTokensPriority = OutputCostPerTokenAbove272kTokensPriority e,
      CacheCreationInputTokenCost = CacheCreationInputTokenCost e,
      CacheReadInputTokenCost = CacheReadInputTokenCost e,
      CacheCreationInputTokenCostAbove200kTokens = CacheCreationInputTokenCostAbove200kTokens e,
      CacheReadInputTokenCostAbove200kTokens = CacheReadInputTokenCostAbove200kTokens e,
      CacheReadInputTokenCostAbove200kTokensPriority = CacheReadInputTokenCostAbove200kTokensPriority e,
      CacheCreationInputTokenCostAbove1hr = CacheCreationInputTokenCostAbove1hr e,
      CacheCreationInputTokenCostAbove1hrAbove200kTokens = CacheCreationInputTokenCostAbove1hrAbove200kTokens e,
      CacheCreationInputAudioTokenCost = CacheCreationInputAudioTokenCost e,
      CacheReadInputTokenCostPriority = CacheReadInputTokenCostPriority e,
      CacheReadInputTokenCostFlex = CacheReadInputTokenCostFlex e,
      CacheReadInputImageTokenCost = CacheReadInputImageTokenCost e,
      CacheReadInputTokenCostAbove272kTokens = CacheReadInputTokenCostAbove272kTokens e,
      CacheReadInputTokenCostAbove272kTokensPriority = CacheReadInputTokenCostAbove272kTokensPriority e,
      InputCostPerImage = InputCostPerImage e,
      InputCostPerPixel = InputCostPerPixel e,
      OutputCostPerImage = OutputCostPerImage e,
      OutputCostPerPixel = OutputCostPerPixel e,
      OutputCostPerImagePremiumImage = OutputCostPerImagePremiumImage e,
      OutputCostPerImageAbove512x512Pixels = OutputCostPerImageAbove512x512Pixels e,
      OutputCostPerImageAbove512x512PixelsPremium = OutputCostPerImageAbove512x512PixelsPremium e,
      OutputCostPerImageAbove1024x1024Pixels = OutputCostPerImageAbove1024x1024Pixels e,
      OutputCostPerImageAbove1024x1024PixelsPremium = OutputCostPerImageAbove1024x1024PixelsPremium e,
      OutputCostPerImageAbove2048x2048Pixels = OutputCostPerImageAbove2048x2048Pixels e,
      OutputCostPerImageAbove4096x4096Pixels = OutputCostPerImageAbove4096x4096Pixels e,
      OutputCostPerImageLowQuality = OutputCostPerImageLowQuality e,
      OutputCostPerImageMediumQuality = OutputCostPerImageMediumQuality e,
      OutputCostPerImageHighQuality = OutputCostPerImageHighQuality e,
      OutputCostPerImageAutoQuality = OutputCostPerImageAutoQuality e,
      InputCostPerImageToken = InputCostPerImageToken e,
      OutputCostPerImageToken = OutputCostPerImageToken e,
      InputCostPerAudioToken = InputCostPerAudioToken e,
      InputCostPerAudioPerSecond = InputCostPerAudioPerSecond e,
      InputCostPerSecond = InputCostPerSecond e,
      InputCostPerVideoPerSecond = InputCostPerVideoPerSecond e,
      OutputCostPerAudioToken = OutputCostPerAudioToken e,
      OutputCostPerVideoPerSecond = OutputCostPerVideoPerSecond e,
      OutputCostPerSecond = OutputCostPerSecond e,
      SearchContextCostPerQuery = SearchContextCostPerQuery e,
      CodeInterpreterCostPerSession = CodeInterpreterCostPerSession e,
      OCRCostPerPage = OCRCostPerPage e,
      AnnotationCostPerPage = AnnotationCostPerPage e\<rparr>"

definition entry_rates :: "rate_options \<Rightarrow> rate_options" where
  "entry_rates r =
     \<lparr>InputCostPerToken = InputCostPerToken r,
      OutputCostPerToken = OutputCostPerToken r,
      InputCostPerTokenBatches = InputCostPerTokenBatches r,
      OutputCostPerTokenBatches = OutputCostPerTokenBatches r,
      InputCostPerTokenPriority = InputCostPerTokenPriority r,
      OutputCostPerTokenPriority = OutputCostPerTokenPriority r,
      InputCostPerTokenFlex = InputCostPerTokenFlex r,
      OutputCostPerTokenFlex = OutputCostPerTokenFlex r,
      InputCostPerTokenFast = InputCostPerTokenFast r,
      OutputCostPerTokenFast = OutputCostPerTokenFast r,
      InputCostPerCharacter = InputCostPerCharacter r,
      InputCostPerTokenAbove128kTokens = InputCostPerTokenAbove128kTokens r,
      InputCostPerImageAbove128kTokens = InputCostPerImageAbove128kTokens r,
      InputCostPerVideoPerSecondAbove128kTokens = InputCostPerVideoPerSecondAbove128kTokens r,
      InputCostPerAudioPerSecondAbove128kTokens = InputCostPerAudioPerSecondAbove128kTokens r,
      OutputCostPerTokenAbove128kTokens = OutputCostPerTokenAbove128kTokens r,
      InputCostPerTokenAbove200kTokens = InputCostPerTokenAbove200kTokens r,
      InputCostPerTokenAbove200kTokensPriority = InputCostPerTokenAbove200kTokensPriority r,
      OutputCostPerTokenAbove200kTokens = OutputCostPerTokenAbove200kTokens r,
      OutputCostPerTokenAbove200kTokensPriority = OutputCostPerTokenAbove200kTokensPriority r,
      InputCostPerTokenAbove272kTokens = InputCostPerTokenAbove272kTokens r,
      InputCostPerTokenAbove272kTokensPriority = InputCostPerTokenAbove272kTokensPriority r,
      OutputCostPerTokenAbove272kTokens = OutputCostPerTokenAbove272kTokens r,
      OutputCostPerTokenAbove272kTokensPriority = OutputCostPerTokenAbove272kTokensPriority r,
      CacheCreationInputTokenCost = CacheCreationInputTokenCost r,
      CacheReadInputTokenCost = CacheReadInputTokenCost r,
      CacheCreationInputTokenCostAbove200kTokens = CacheCreationInputTokenCostAbove200kTokens r,
      CacheReadInputTokenCostAbove200kTokens = CacheReadInputTokenCostAbove200kTokens r,
      CacheReadInputTokenCostAbove200kTokensPriority = CacheReadInputTokenCostAbove200kTokensPriority r,
      CacheCreationInputTokenCostAbove1hr = CacheCreationInputTokenCostAbove1hr r,
      CacheCreationInputTokenCostAbove1hrAbove200kTokens = CacheCreationInputTokenCostAbove1hrAbove200kTokens r,
      CacheCreationInputAudioTokenCost = CacheCreationInputAudioTokenCost r,
      CacheReadInputTokenCostPriority = CacheReadInputTokenCostPriority r,
      CacheReadInputTokenCostFlex = CacheReadInputTokenCostFlex r,
      CacheReadInputImageTokenCost = CacheReadInputImageTokenCost r,
      CacheReadInputTokenCostAbove272kTokens = CacheReadInputTokenCostAbove272kTokens r,
      CacheReadInputTokenCostAbove272kTokensPriority = CacheReadInputTokenCostAbove272kTokensPriority r,
      InputCostPerImage = InputCostPerImage r,
      InputCostPerPixel = InputCostPerPixel r,
      OutputCostPerImage = OutputCostPerImage r,
      OutputCostPerPixel = OutputCostPerPixel r,
      OutputCostPerImagePremiumImage = OutputCostPerImagePremiumImage r,
      OutputCostPerImageAbove512x512Pixels = OutputCostPerImageAbove512x512Pixels r,
      OutputCostPerImageAbove512x512PixelsPremium = OutputCostPerImageAbove512x512PixelsPremium r,
      OutputCostPerImageAbove1024x1024Pixels = OutputCostPerImageAbove1024x1024Pixels r,
      OutputCostPerImageAbove1024x1024PixelsPremium = OutputCostPerImageAbove1024x1024PixelsPremium r,
      OutputCostPerImageAbove2048x2048Pixels = OutputCostPerImageAbove2048x2048Pixels r,
      OutputCostPerImageAbove4096x4096Pixels = OutputCostPerImageAbove4096x4096Pixels r,
      OutputCostPerImageLowQuality = OutputCostPerImageLowQuality r,
      OutputCostPerImageMediumQuality = OutputCostPerImageMediumQuality r,
      OutputCostPerImageHighQuality = OutputCostPerImageHighQuality r,
      OutputCostPerImageAutoQuality = OutputCostPerImageAutoQuality r,
      InputCostPerImageToken = InputCostPerImageToken r,
      OutputCostPerImageToken = OutputCostPerImageToken r,
      InputCostPerAudioToken = InputCostPerAudioToken r,
      InputCostPerAudioPerSecond = InputCostPerAudioPerSecond r,
      InputCostPerSecond = InputCostPerSecond r,
      InputCostPerVideoPerSecond = InputCostPerVideoPerSecond r,
      OutputCostPerAudioToken = OutputCostPerAudioToken r,
      OutputCostPerVideoPerSecond = OutputCostPerVideoPerSecond r,
      OutputCostPerSecond = OutputCostPerSecond r,
      SearchContextCostPerQuery = SearchContextCostPerQuery r,
      CodeInterpreterCostPerSession = CodeInterpreterCostPerSession r,
      OCRCostPerPage = OCRCostPerPage r,
      AnnotationCostPerPage = AnnotationCostPerPage r\<rparr>"

definition convertEntryToTablePricing :: "string \<Rightarrow> entry \<Rightarrow> model_pricing" where
  "convertEntryToTablePricing modelKey e =
     \<lparr>mp_Model = extractModelName modelKey, mp_BaseModel = en_BaseModel e, mp_Provider = normalizeProvider (en_Provider e),
      mp_Mode = en_Mode e, mp_ContextLength = en_ContextLength e, mp_MaxInputTokens = en_MaxInputTokens e,
      mp_MaxOutputTokens = en_MaxOutputTokens e, mp_Architecture = en_Architecture e,
      mp_IsDeprecated = en_IsDeprecated e, mp_Rates = row_rates (en_Options e), mp_AdditionalAttributes = []\<rparr>"

definition convertTablePricingToEntry :: "model_pricing \<Rightarrow> entry" where
  "convertTablePricingToEntry row =
     \<lparr>en_BaseModel = mp_BaseModel row, en_Provider = mp_Provider row, en_Mode = mp_Mode row,
      en_ContextLength = mp_ContextLength row, en_MaxInputTokens = mp_MaxInputTokens row,
      en_MaxOutputTokens = mp_MaxOutputTokens row, en_Architecture = mp_Architecture row,
      en_IsDeprecated = mp_IsDeprecated row, en_AdditionalAttributes = mp_AdditionalAttributes row,
      en_Options = entry_rates (mp_Rates row)\<rparr>"

definition row_key :: "model_pricing \<Rightarrow> string" where
  "row_key row = makeKey (mp_Model row) (mp_Provider row) (mp_Mode row)"

text \<open>The table that a load builds: rows in the order of the load, the last one of a key stays.\<close>

definition price_table :: "model_pricing list \<Rightarrow> model_pricing smap" where
  "price_table rows = fold (\<lambda>row. sm_store (row_key row) row) rows []"

definition applyPricingData :: "(string \<times> entry) list \<Rightarrow> model_pricing smap" where
  "applyPricingData pricingData = price_table (map (\<lambda>ke. convertEntryToTablePricing (fst ke) (snd ke)) pricingData)"

text \<open>The rows that a sync writes: the first entry of each key.\<close>

fun dedup_rows :: "string list \<Rightarrow> model_pricing list \<Rightarrow> model_pricing list" where
  "dedup_rows seen [] = []"
| "dedup_rows seen (row # rows) =
     (if row_key row \<in> set seen then dedup_rows seen rows else row # dedup_rows (row_key row # seen) rows)"

record price_store =
  ps_table :: "model_pricing smap"
  ps_overrides :: override_store

subsection \<open>Finding the price\<close>

record key_alias =
  ka_ModelID :: string
  ka_ModelName :: "string option"

record routing_info =
  ri_Provider :: string
  ri_Model :: string
  ri_Alias :: "key_alias option"

definition IsAnthropicModel :: "string \<Rightarrow> bool" where
  "IsAnthropicModel model \<longleftrightarrow> str_contains model ''anthropic.'' \<or> str_contains model ''claude''"

text \<open>The keys under which a price is looked up, in the order of the attempts.\<close>

definition price_keys :: "string \<Rightarrow> string \<Rightarrow> string \<Rightarrow> string list" where
  "price_keys model provider t =
     (let mode = normalizeRequestType t;
          with_chat = (\<lambda>m p. [makeKey m p mode] @ (if responses_like t then [makeKey m p ''chat''] else []))
      in [makeKey model provider mode]
         @ (if provider = ''gemini'' then with_chat model ''vertex'' else [])
         @ (if provider = ''vertex'' \<and> CHR ''/'' \<in> set model then with_chat (extractModelName model) ''vertex'' else [])
         @ (if provider = ''bedrock'' \<and> \<not> str_contains model ''anthropic.'' \<and> IsAnthropicModel model
            then with_chat (''anthropic.'' @ model) provider else [])
         @ (if responses_like t then [makeKey model provider ''chat''] else [])
         @ (if t \<in> {''image_edit'', ''image_edit_stream'', ''image_variation''}
            then [makeKey model provider ''image_generation''] else [])
         @ (if t = ''container_create''
            then [makeKey model provider ''chat''] @ (if model \<noteq> ''container'' then [makeKey ''container'' provider ''chat''] else [])
            else []))"

definition getBasePricing :: "model_pricing smap \<Rightarrow> string \<Rightarrow> string \<Rightarrow> string \<Rightarrow> model_pricing option" where
  "getBasePricing tbl model provider t = first_some (sm_load tbl) (price_keys model provider t)"

definition zero_row :: model_pricing where
  "zero_row = \<lparr>mp_Model = [], mp_BaseModel = [], mp_Provider = [], mp_Mode = [], mp_ContextLength = None,
     mp_MaxInputTokens = None, mp_MaxOutputTokens = None, mp_Architecture = None, mp_IsDeprecated = False,
     mp_Rates = no_rates, mp_AdditionalAttributes = []\<rparr>"

definition resolvePricing :: "price_store \<Rightarrow> routing_info \<Rightarrow> string \<Rightarrow> lookup_scopes \<Rightarrow> model_pricing option" where
  "resolvePricing st ri t scopes =
     (let provider = ri_Provider ri;
          aliasModelID = (case ri_Alias ri of None \<Rightarrow> [] | Some a \<Rightarrow> ka_ModelID a);
          aliasModelName = (case ri_Alias ri of None \<Rightarrow> [] | Some a \<Rightarrow> or_empty (ka_ModelName a));
          overrideKey = (if aliasModelID = [] then ri_Model ri else aliasModelID);
          s = (if ls_Provider scopes = [] then scopes\<lparr>ls_Provider := provider\<rparr> else scopes);
          candidates = filter (\<lambda>m. m \<noteq> []) [aliasModelName, aliasModelID, ri_Model ri]
      in case first_some (\<lambda>m. getBasePricing (ps_table st) m provider t) candidates of
           Some base \<Rightarrow> Some (fst (applyPricingOverrides (ps_overrides st) overrideKey t base s))
         | None \<Rightarrow>
             (case applyPricingOverrides (ps_overrides st) overrideKey t zero_row s of
                (row, applied) \<Rightarrow> if applied then Some row else None))"

subsection \<open>The usage of a response\<close>

record cost_input =
  ci_usage :: "llm_usage option"
  ci_audioTextInputChars :: int
  ci_audioSeconds :: "int option"
  ci_audioTokenDetails :: "audio_details option"
  ci_imageUsage :: "image_usage option"
  ci_imageSize :: string
  ci_imageQuality :: string
  ci_videoSeconds :: "int option"
  ci_ocrProcessedPages :: "int option"
  ci_ocrIsAnnotated :: "bool option"
  ci_container :: string
  ci_tier :: service_tier

definition no_input :: cost_input where
  "no_input = \<lparr>ci_usage = None, ci_audioTextInputChars = 0, ci_audioSeconds = None, ci_audioTokenDetails = None,
     ci_imageUsage = None, ci_imageSize = [], ci_imageQuality = [], ci_videoSeconds = None,
     ci_ocrProcessedPages = None, ci_ocrIsAnnotated = None, ci_container = [], ci_tier = no_tier\<rparr>"

record responses_output_details =
  ro_ReasoningTokens :: int
  ro_AudioTokens :: int
  ro_NumSearchQueries :: "int option"

record responses_usage =
  ru_InputTokens :: int
  ru_InputTokensDetails :: "prompt_details option"
  ru_OutputTokens :: int
  ru_OutputTokensDetails :: "responses_output_details option"
  ru_TotalTokens :: int
  ru_Cost :: "float64 option"

definition responsesUsageToUnifAIUsage :: "responses_usage \<Rightarrow> llm_usage" where
  "responsesUsageToUnifAIUsage u =
     \<lparr>us_PromptTokens = ru_InputTokens u, us_PromptTokensDetails = ru_InputTokensDetails u,
      us_CompletionTokens = ru_OutputTokens u,
      us_CompletionTokensDetails = (case ru_OutputTokensDetails u of
          None \<Rightarrow> None
        | Some d \<Rightarrow> Some \<lparr>ct_AudioTokens = ro_AudioTokens d, ct_ReasoningTokens = ro_ReasoningTokens d,
            ct_NumSearchQueries = ro_NumSearchQueries d\<rparr>),
      us_TotalTokens = ru_TotalTokens u, us_Cost = ru_Cost u\<rparr>"

record speech_usage =
  su_InputTokens :: int
  su_InputChars :: int
  su_OutputTokens :: int
  su_TotalTokens :: int

definition plain_usage :: "int \<Rightarrow> int \<Rightarrow> int \<Rightarrow> llm_usage" where
  "plain_usage prompt completion all =
     \<lparr>us_PromptTokens = prompt, us_PromptTokensDetails = None, us_CompletionTokens = completion,
      us_CompletionTokensDetails = None, us_TotalTokens = all, us_Cost = None\<rparr>"

definition speechUsageToUnifAIUsage :: "speech_usage \<Rightarrow> llm_usage" where
  "speechUsageToUnifAIUsage u = plain_usage (su_InputTokens u) (su_OutputTokens u) (su_TotalTokens u)"

record transcription_usage =
  tu_InputTokens :: "int option"
  tu_InputTokenDetails :: "audio_details option"
  tu_OutputTokens :: "int option"
  tu_TotalTokens :: "int option"
  tu_Seconds :: "int option"

definition or_zero :: "int option \<Rightarrow> int" where
  "or_zero x = (case x of None \<Rightarrow> 0 | Some n \<Rightarrow> n)"

definition extractTranscriptionUsage :: "transcription_usage \<Rightarrow> llm_usage \<times> int option \<times> audio_details option" where
  "extractTranscriptionUsage u =
     (let prompt = or_zero (tu_InputTokens u); completion = or_zero (tu_OutputTokens u) in
      (plain_usage prompt completion (case tu_TotalTokens u of Some n \<Rightarrow> n | None \<Rightarrow> prompt + completion),
       tu_Seconds u, tu_InputTokenDetails u))"

record passthrough_usage =
  pu_LLMUsage :: "llm_usage option"
  pu_ServiceTier :: "string option"
  pu_Speed :: "string option"
  pu_ImageUsage :: "image_usage option"
  pu_ImageSize :: string
  pu_ImageQuality :: string
  pu_AudioInputChars :: int
  pu_AudioSeconds :: "int option"
  pu_AudioTokenDetails :: "audio_details option"
  pu_VideoSeconds :: "int option"
  pu_ContainerIdentifier :: string

definition passthroughUsageToCostInput :: "passthrough_usage \<Rightarrow> cost_input" where
  "passthroughUsageToCostInput su =
     \<lparr>ci_usage = pu_LLMUsage su,
      ci_audioTextInputChars = (if pu_AudioInputChars su > 0 then pu_AudioInputChars su else 0),
      ci_audioSeconds = pu_AudioSeconds su, ci_audioTokenDetails = pu_AudioTokenDetails su,
      ci_imageUsage = pu_ImageUsage su,
      ci_imageSize = (if pu_ImageUsage su = None then [] else pu_ImageSize su),
      ci_imageQuality = (if pu_ImageUsage su = None then [] else pu_ImageQuality su),
      ci_videoSeconds = pu_VideoSeconds su, ci_ocrProcessedPages = None, ci_ocrIsAnnotated = None,
      ci_container = pu_ContainerIdentifier su, ci_tier = tierFromResponse (pu_ServiceTier su) (pu_Speed su)\<rparr>"

text \<open>The payloads with the fields that carry usage; \<open>OtherPayload\<close> stands for the kinds that carry none.\<close>

datatype payload =
    PassthroughPayload "passthrough_usage option"
  | TextPayload "llm_usage option"
  | ChatPayload "llm_usage option" "string option" "string option"
  | ResponsesPayload "responses_usage option" "string option" "string option"
  | CompactionPayload "responses_usage option"
  | ResponsesStreamPayload "responses_usage option" "string option" "string option"
  | EmbeddingPayload "llm_usage option"
  | RerankPayload "llm_usage option"
  | SpeechPayload "speech_usage option"
  | TranscriptionPayload "transcription_usage option"
  | ImagePayload "image_usage option" int "(string \<times> string) option"
  | ImageStreamPayload "image_usage option" string string
  | VideoPayload "string option"
  | OCRPayload int "int option" "string option"
  | ContainerPayload string
  | OtherPayload

definition no_image_usage :: image_usage where
  "no_image_usage = \<lparr>iu_InputTokens = 0, iu_InputTokensDetails = None, iu_TotalTokens = 0, iu_OutputTokens = 0,
     iu_OutputTokensDetails = None, iu_NumInputImages = 0\<rparr>"

definition or_no_image :: "image_usage option \<Rightarrow> image_usage" where
  "or_no_image u = (case u of None \<Rightarrow> no_image_usage | Some x \<Rightarrow> x)"

fun extractCostInput :: "payload \<Rightarrow> cost_input" where
  "extractCostInput (PassthroughPayload u) = (case u of None \<Rightarrow> no_input | Some su \<Rightarrow> passthroughUsageToCostInput su)"
| "extractCostInput (TextPayload u) = no_input\<lparr>ci_usage := u\<rparr>"
| "extractCostInput (ChatPayload u tier speed) =
     (if u = None then no_input else no_input\<lparr>ci_usage := u, ci_tier := tierFromResponse tier speed\<rparr>)"
| "extractCostInput (ResponsesPayload u tier speed) =
     (case u of None \<Rightarrow> no_input
      | Some x \<Rightarrow> no_input\<lparr>ci_usage := Some (responsesUsageToUnifAIUsage x), ci_tier := tierFromResponse tier speed\<rparr>)"
| "extractCostInput (CompactionPayload u) = no_input\<lparr>ci_usage := map_option responsesUsageToUnifAIUsage u\<rparr>"
| "extractCostInput (ResponsesStreamPayload u tier speed) =
     (case u of None \<Rightarrow> no_input
      | Some x \<Rightarrow> no_input\<lparr>ci_usage := Some (responsesUsageToUnifAIUsage x), ci_tier := tierFromResponse tier speed\<rparr>)"
| "extractCostInput (EmbeddingPayload u) = no_input\<lparr>ci_usage := u\<rparr>"
| "extractCostInput (RerankPayload u) = no_input\<lparr>ci_usage := u\<rparr>"
| "extractCostInput (SpeechPayload u) =
     (case u of None \<Rightarrow> no_input
      | Some x \<Rightarrow> no_input\<lparr>ci_usage := Some (speechUsageToUnifAIUsage x), ci_audioTextInputChars := su_InputChars x\<rparr>)"
| "extractCostInput (TranscriptionPayload u) =
     (case u of None \<Rightarrow> no_input
      | Some x \<Rightarrow> (case extractTranscriptionUsage x of (usage, seconds, details) \<Rightarrow>
          no_input\<lparr>ci_usage := Some usage, ci_audioSeconds := seconds, ci_audioTokenDetails := details\<rparr>))"
| "extractCostInput (ImagePayload u dataLen params) =
     no_input\<lparr>ci_imageUsage := Some (populateOutputImageCount dataLen (or_no_image u)),
       ci_imageSize := (case params of None \<Rightarrow> [] | Some sq \<Rightarrow> fst sq),
       ci_imageQuality := (case params of None \<Rightarrow> [] | Some sq \<Rightarrow> snd sq)\<rparr>"
| "extractCostInput (ImageStreamPayload u dims quality) =
     no_input\<lparr>ci_imageUsage := Some (or_no_image u), ci_imageSize := dims, ci_imageQuality := quality\<rparr>"
| "extractCostInput (VideoPayload seconds) =
     no_input\<lparr>ci_videoSeconds := (case seconds of None \<Rightarrow> None | Some s \<Rightarrow> Atoi s)\<rparr>"
| "extractCostInput (OCRPayload pages processed annotation) =
     no_input\<lparr>ci_ocrProcessedPages := Some (case processed of Some n \<Rightarrow> if n > 0 then n else pages | None \<Rightarrow> pages),
       ci_ocrIsAnnotated := Some (annotation \<noteq> None \<and> annotation \<noteq> Some [])\<rparr>"
| "extractCostInput (ContainerPayload memLimit) =
     no_input\<lparr>ci_container := (if memLimit \<noteq> [] then ''container-'' @ memLimit else ''container'')\<rparr>"
| "extractCostInput OtherPayload = no_input"

subsection \<open>The kind of a passthrough call\<close>

definition has_suffix :: "string \<Rightarrow> string \<Rightarrow> bool" where
  "has_suffix s p \<longleftrightarrow> has_prefix (rev s) (rev p)"

definition strip_query :: "string \<Rightarrow> string" where
  "strip_query path = (case split_first CHR ''?'' path of None \<Rightarrow> path | Some (a, _) \<Rightarrow> a)"

definition trim_slashes :: "string \<Rightarrow> string" where
  "trim_slashes path = rev (dropWhile (\<lambda>c. c = CHR ''/'') (rev path))"

text \<open>The part behind the last colon.\<close>

definition action_of :: "string \<Rightarrow> string option" where
  "action_of path = (case split_first CHR '':'' (rev path) of None \<Rightarrow> None | Some (a, _) \<Rightarrow> Some (rev a))"

definition detectPassthroughRequestType :: "string \<Rightarrow> string \<Rightarrow> string" where
  "detectPassthroughRequestType provider rawPath =
     (let path = trim_slashes (strip_query rawPath); ends = has_suffix path in
      if provider = ''openai'' \<or> provider = ''azure'' then
        (if ends ''/chat/completions'' then ''chat_completion''
         else if ends ''/completions'' then ''text_completion''
         else if ends ''/embeddings'' then ''embedding''
         else if ends ''/responses/compact'' then ''compaction''
         else if ends ''/responses'' then ''responses''
         else if ends ''/images/generations'' then ''image_generation''
         else if ends ''/images/edits'' then ''image_edit''
         else if ends ''/images/variations'' then ''image_variation''
         else if ends ''/audio/speech'' then ''speech''
         else if ends ''/audio/transcriptions'' \<or> ends ''/audio/translations'' then ''transcription''
         else if ends ''/containers'' then ''container_create''
         else if str_contains path ''/video'' then ''video_generation''
         else ''chat_completion'')
      else if provider = ''gemini'' \<or> provider = ''vertex'' then
        (if str_contains path ''/interactions'' then ''responses''
         else case action_of path of
             None \<Rightarrow> ''chat_completion''
           | Some a \<Rightarrow>
               if a = ''generateContent'' \<or> a = ''streamGenerateContent'' then ''responses''
               else if a = ''embedContent'' \<or> a = ''batchEmbedContents'' then ''embedding''
               else if a = ''generateImages'' then ''image_generation''
               else if a = ''predict'' then ''embedding''
               else if a = ''predictLongRunning'' then ''video_generation''
               else ''chat_completion'')
      else if provider = ''anthropic'' then
        (if ends ''/messages'' then ''responses''
         else if ends ''/complete'' then ''text_completion''
         else ''responses'')
      else ''chat_completion'')"

definition inferPassthroughRequestType :: "string \<Rightarrow> string \<Rightarrow> passthrough_usage option \<Rightarrow> string" where
  "inferPassthroughRequestType provider path usage =
     (case usage of
        None \<Rightarrow> detectPassthroughRequestType provider path
      | Some su \<Rightarrow>
          if pu_ContainerIdentifier su \<noteq> [] then ''container_create''
          else if pu_ImageUsage su \<noteq> None then ''image_generation''
          else if pu_AudioInputChars su > 0 then ''speech''
          else if pu_AudioTokenDetails su \<noteq> None \<or> pu_AudioSeconds su \<noteq> None then ''transcription''
          else if pu_VideoSeconds su \<noteq> None then ''video_generation''
          else detectPassthroughRequestType provider path)"

subsection \<open>The cost of a call\<close>

definition compute_cost :: "rate_options \<Rightarrow> string \<Rightarrow> cost_input \<Rightarrow> float64" where
  "compute_cost p t i =
     (if t \<in> {''chat_completion'', ''text_completion'', ''responses'', ''realtime'', ''compaction''}
      then computeTextCost p (ci_usage i) (ci_tier i)
      else if t = ''embedding'' then computeEmbeddingCost p (ci_usage i) (ci_tier i)
      else if t = ''rerank'' then computeRerankCost p (ci_usage i) (ci_tier i)
      else if t = ''speech'' then computeSpeechCost p (ci_usage i) (ci_audioSeconds i) (ci_audioTextInputChars i) (ci_tier i)
      else if t = ''transcription''
      then computeTranscriptionCost p (ci_usage i) (ci_audioSeconds i) (ci_audioTokenDetails i) (ci_tier i)
      else if t \<in> {''image_generation'', ''image_edit'', ''image_variation''}
      then computeImageCost p (ci_imageUsage i) (ci_imageSize i) (ci_imageQuality i) (ci_tier i)
      else if t \<in> {''video_generation'', ''video_remix''}
      then computeVideoCost p (ci_usage i) (ci_videoSeconds i) (ci_tier i)
      else if t = ''ocr'' then computeOCRCost p (ci_ocrProcessedPages i) (ci_ocrIsAnnotated i)
      else if t = ''container_create'' then computeContainerCreationCost p
      else 0)"

definition computeCostFromInput ::
  "price_store \<Rightarrow> cost_input \<Rightarrow> routing_info \<Rightarrow> string \<Rightarrow> lookup_scopes \<Rightarrow> float64" where
  "computeCostFromInput st i ri0 t scopes =
     (let ri = (if ci_container i \<noteq> []
                then \<lparr>ri_Provider = ri_Provider ri0, ri_Model = ci_container i, ri_Alias = None\<rparr> else ri0)
      in case resolvePricing st ri t scopes of
           None \<Rightarrow> 0
         | Some row \<Rightarrow> compute_cost (mp_Rates row) t i)"

record cache_debug =
  db_CacheHit :: bool
  db_HitType :: "string option"
  db_ProviderUsed :: "string option"
  db_ModelUsed :: "string option"
  db_InputTokens :: "int option"

record extra_fields =
  xf_RequestType :: string
  xf_RoutingInfo :: routing_info
  xf_Provider :: string
  xf_OriginalModelRequested :: string
  xf_ResolvedModelUsed :: string
  xf_CacheDebug :: "cache_debug option"
  xf_PassthroughPath :: string

text \<open>The routing of a response, rebuilt from the older fields when it is not set at all.\<close>

definition effective_routing :: "extra_fields \<Rightarrow> routing_info" where
  "effective_routing xf =
     (let ri = xf_RoutingInfo xf in
      if ri_Provider ri = [] \<and> ri_Model ri = [] \<and> ri_Alias ri = None
      then \<lparr>ri_Provider = xf_Provider xf, ri_Model = xf_OriginalModelRequested xf,
            ri_Alias = (let r = xf_ResolvedModelUsed xf in
              if r \<noteq> [] \<and> r \<noteq> xf_OriginalModelRequested xf then Some \<lparr>ka_ModelID = r, ka_ModelName = None\<rparr> else None)\<rparr>
      else ri)"

definition own_cost :: "llm_usage option \<Rightarrow> float64 option" where
  "own_cost usage =
     (case usage of None \<Rightarrow> None
      | Some u \<Rightarrow> (case us_Cost u of None \<Rightarrow> None | Some c \<Rightarrow> if c > 0 then Some c else None))"

definition nothing_to_price :: "cost_input \<Rightarrow> bool" where
  "nothing_to_price i \<longleftrightarrow>
     ci_usage i = None \<and> ci_audioSeconds i = None \<and> ci_audioTokenDetails i = None \<and> ci_imageUsage i = None \<and>
     ci_videoSeconds i = None \<and> ci_audioTextInputChars i = 0 \<and> ci_ocrProcessedPages i = None \<and> ci_container i = []"

definition priced_type :: "extra_fields \<Rightarrow> routing_info \<Rightarrow> payload \<Rightarrow> string" where
  "priced_type xf ri r =
     (case r of
        PassthroughPayload usage \<Rightarrow> inferPassthroughRequestType (ri_Provider ri) (xf_PassthroughPath xf) usage
      | _ \<Rightarrow> normalizeStreamRequestType (xf_RequestType xf))"

definition calculateBaseCost :: "price_store \<Rightarrow> payload \<Rightarrow> extra_fields \<Rightarrow> lookup_scopes \<Rightarrow> float64" where
  "calculateBaseCost st r xf scopes =
     (let ri = effective_routing xf; i = extractCostInput r in
      case own_cost (ci_usage i) of
        Some c \<Rightarrow> c
      | None \<Rightarrow>
          if nothing_to_price i then 0
          else computeCostFromInput st i ri (priced_type xf ri r) scopes)"

definition computeCacheEmbeddingCost :: "price_store \<Rightarrow> cache_debug \<Rightarrow> lookup_scopes \<Rightarrow> float64" where
  "computeCacheEmbeddingCost st d scopes =
     (case (db_ProviderUsed d, db_ModelUsed d, db_InputTokens d) of
        (Some p, Some m, Some n) \<Rightarrow>
          let s = (if ls_Provider scopes = [] then scopes\<lparr>ls_Provider := p\<rparr> else scopes) in
          (case resolvePricing st \<lparr>ri_Provider = p, ri_Model = m, ri_Alias = None\<rparr> ''embedding'' s of
             None \<Rightarrow> 0
           | Some row \<Rightarrow> of_int n * tieredInputRate (mp_Rates row) n no_tier)
      | _ \<Rightarrow> 0)"

definition calculateCostWithCache ::
  "price_store \<Rightarrow> payload \<Rightarrow> extra_fields \<Rightarrow> cache_debug \<Rightarrow> lookup_scopes \<Rightarrow> float64" where
  "calculateCostWithCache st r xf d scopes =
     (if db_CacheHit d then
        (if db_HitType d = Some ''direct'' then 0
         else if db_ProviderUsed d \<noteq> None \<and> db_ModelUsed d \<noteq> None \<and> db_InputTokens d \<noteq> None
         then computeCacheEmbeddingCost st d scopes
         else 0)
      else calculateBaseCost st r xf scopes + computeCacheEmbeddingCost st d scopes)"

definition no_scopes :: lookup_scopes where
  "no_scopes = \<lparr>ls_VirtualKeyID = [], ls_SelectedKeyID = [], ls_Provider = []\<rparr>"

definition CalculateCost ::
  "price_store \<Rightarrow> (payload \<times> extra_fields) option \<Rightarrow> lookup_scopes option \<Rightarrow> float64" where
  "CalculateCost st result scopes =
     (case result of
        None \<Rightarrow> 0
      | Some (r, xf) \<Rightarrow>
          let s = (case scopes of None \<Rightarrow> no_scopes | Some s \<Rightarrow> s) in
          (case xf_CacheDebug xf of
             Some d \<Rightarrow> calculateCostWithCache st r xf d s
           | None \<Rightarrow> calculateBaseCost st r xf s))"

definition CalculateCostForUsage ::
  "price_store \<Rightarrow> llm_usage option \<Rightarrow> string \<Rightarrow> string \<Rightarrow> string \<Rightarrow> lookup_scopes option \<Rightarrow> float64" where
  "CalculateCostForUsage st usage provider model t scopes =
     (case usage of
        None \<Rightarrow> 0
      | Some u \<Rightarrow>
          (case own_cost usage of
             Some c \<Rightarrow> c
           | None \<Rightarrow> computeCostFromInput st (no_input\<lparr>ci_usage := usage\<rparr>)
               \<lparr>ri_Provider = provider, ri_Model = model, ri_Alias = None\<rparr> (normalizeStreamRequestType t)
               (case scopes of None \<Rightarrow> no_scopes | Some s \<Rightarrow> s)))"

subsection \<open>Rows survive the trip through an entry\<close>

lemma rates_kept [simp]: "row_rates e = e" "entry_rates r = r"
  by (simp_all add: row_rates_def entry_rates_def)

lemma normalizeProvider_idem: "normalizeProvider (normalizeProvider p) = normalizeProvider p"
proof -
  have fixed: "normalizeProvider ''vertex'' = ''vertex''" "normalizeProvider ''bedrock'' = ''bedrock''"
    "normalizeProvider ''cohere'' = ''cohere''" "normalizeProvider ''runway'' = ''runway''"
    "normalizeProvider ''fireworks'' = ''fireworks''" by code_simp+
  show ?thesis
    by (subst (2 3) normalizeProvider_def) (simp add: fixed, simp add: normalizeProvider_def)
qed

lemma split_first_append: "c \<notin> set a \<Longrightarrow> split_first c (a @ c # b) = Some (a, b)"
  by (induction a) auto

text \<open>
  C38. Price rows and entries round trip: an entry that becomes a row and an entry again keeps every rate
  and field (the provider name normalised, the editorial attributes dropped, as they are never taken
  from the datasheet), the provider of a loaded row is a normal form, and a row with such a provider
  that is exported under \<open>provider/model\<close> comes back as it was, up to those attributes.
\<close>

theorem price_rows_round_trip:
  "convertTablePricingToEntry (convertEntryToTablePricing key e) =
     e\<lparr>en_Provider := normalizeProvider (en_Provider e), en_AdditionalAttributes := []\<rparr> \<and>
   normalizeProvider (mp_Provider (convertEntryToTablePricing key e)) = mp_Provider (convertEntryToTablePricing key e) \<and>
   (CHR ''/'' \<notin> set p \<and> normalizeProvider (mp_Provider row) = mp_Provider row \<longrightarrow>
     convertEntryToTablePricing (p @ ''/'' @ mp_Model row) (convertTablePricingToEntry row) =
       row\<lparr>mp_AdditionalAttributes := []\<rparr>)"
  by (simp add: convertTablePricingToEntry_def convertEntryToTablePricing_def extractModelName_def split_first_append
      normalizeProvider_idem)

theorem price_rows_round_trip_witness:
  "convertEntryToTablePricing (''google'' @ ''/'' @ ''meta/llama'') (convertTablePricingToEntry
     (zero_row\<lparr>mp_Model := ''meta/llama'', mp_Provider := ''vertex'', mp_Rates := sample_rates\<rparr>)) =
   zero_row\<lparr>mp_Model := ''meta/llama'', mp_Provider := ''vertex'', mp_Rates := sample_rates\<rparr>"
proof -
  let ?row = "zero_row\<lparr>mp_Model := ''meta/llama'', mp_Provider := ''vertex'', mp_Rates := sample_rates\<rparr>"
  have "normalizeProvider (mp_Provider ?row) = mp_Provider ?row" by code_simp
  then show ?thesis
    using price_rows_round_trip [of "[]" "convertTablePricingToEntry ?row" "''google''" ?row]
    by (simp add: zero_row_def)
qed

subsection \<open>The cost of a chat call is bounded\<close>

definition prices_within :: "float64 \<Rightarrow> price_store \<Rightarrow> bool" where
  "prices_within M st \<longleftrightarrow>
     0 \<le> M \<and> (\<forall>row \<in> snd ` set (ps_table st). rates_within M (mp_Rates row)) \<and>
     override_store_ok (ps_overrides st) \<and> (\<forall>ov \<in> set (os_raw (ps_overrides st)). rates_within M (ov_Options ov))"

lemma rates_of_patch: "rates_of (patch_rates p ov) = map2 patched (rates_of p) (rates_of ov)"
  by (simp add: rates_of_def patch_rates_def)

lemma patched_list:
  "(\<And>a b. P a \<Longrightarrow> P b \<Longrightarrow> P (patched a b)) \<Longrightarrow> \<forall>r \<in> set xs. P r \<Longrightarrow> \<forall>r \<in> set ys. P r \<Longrightarrow>
     \<forall>r \<in> set (map2 patched xs ys). P r"
  by (induction xs ys rule: list_induct2') auto

lemma patch_within: "rates_within M p \<Longrightarrow> rates_within M ov \<Longrightarrow> rates_within M (patch_rates p ov)"
  unfolding rates_within_def rates_of_patch
  by (elim conjE, intro conjI patched_list) (auto simp: patched_def split: option.split)

lemma no_rates_within: "0 \<le> M \<Longrightarrow> rates_within M no_rates"
  by (simp add: rates_within_def rates_of_def no_rates_def)

lemma resolve_from:
  assumes "resolve (buildCustomPricingData ovs) model mode s = Some r"
  shows "\<exists>ov \<in> set ovs. ov_Options ov = r"
proof -
  obtain e where e: "resolve_entry (buildCustomPricingData ovs) model mode s = Some e" "r = ce_options e"
    using assms by (auto simp: resolve_def)
  obtain k where k: "k \<in> set (scopePriorityOrder s)" "scope_entry (buildCustomPricingData ovs) model mode s k = Some e"
    using first_some_SomeD [OF e(1) [unfolded resolve_entry_def]] by blast
  show ?thesis by (rule scope_entry_cases [OF k(2,1)]) (auto simp: e(2))
qed

lemma apply_within:
  assumes "prices_within M st" "rates_within M (mp_Rates row)"
  shows "rates_within M (mp_Rates (fst (applyPricingOverrides (ps_overrides st) model t row s)))"
proof (cases "snd (applyPricingOverrides (ps_overrides st) model t row s)")
  case True
  then obtain c r where c: "os_custom (ps_overrides st) = Some c" "resolve c model (normalizeRequestType t) s = Some r"
    "applyPricingOverrides (ps_overrides st) model t row s = (patchPricing row r, True)"
    by (auto simp: applyPricingOverrides_def Let_def split: option.splits if_splits)
  then have "resolve (buildCustomPricingData (os_raw (ps_overrides st))) model (normalizeRequestType t) s = Some r"
    using assms(1) by (auto simp: prices_within_def override_store_ok_def)
  from resolve_from [OF this] have "rates_within M r" using assms(1) by (auto simp: prices_within_def)
  then show ?thesis by (simp add: c(3) patchPricing_def patch_within assms(2))
next
  case False
  then show ?thesis using assms(2)
    by (auto simp: applyPricingOverrides_def Let_def split: option.splits if_splits)
qed

lemma resolved_within:
  assumes "prices_within M st" "resolvePricing st ri t scopes = Some row"
  shows "rates_within M (mp_Rates row)"
proof -
  have base: "rates_within M (mp_Rates b)" if g: "getBasePricing (ps_table st) m p t = Some b" for m p b
  proof -
    obtain k where "sm_load (ps_table st) k = Some b" using first_some_SomeD [OF g [unfolded getBasePricing_def]] by blast
    then have "(k, b) \<in> set (ps_table st)" by (rule sm_load_SomeD)
    then show ?thesis using assms(1) by (force simp: prices_within_def)
  qed
  have zero: "rates_within M (mp_Rates zero_row)"
    using assms(1) by (simp add: zero_row_def no_rates_within prices_within_def)
  from assms(2) consider
      (base) m b s k where "getBasePricing (ps_table st) m (ri_Provider ri) t = Some b"
        "row = fst (applyPricingOverrides (ps_overrides st) k t b s)"
    | (only) k s where "row = fst (applyPricingOverrides (ps_overrides st) k t zero_row s)"
    by (auto simp: resolvePricing_def Let_def split: option.splits prod.splits if_splits dest!: first_some_SomeD)
      (metis fst_conv)+
  then show ?thesis by cases (simp_all add: apply_within [OF assms(1)] base zero)
qed

text \<open>
  C39. When every rate of the price table and of the overrides lies between zero and \<open>M\<close>, the counts of
  prompt tokens, completion tokens and search queries are not negative, and the audio tokens of the prompt
  are no more than its tokens outside the cache, then the cost of a chat response that is not from
  the semantic cache is not negative, whatever row and override it resolves to and whatever tier it was
  served in; and when the counts in its details are not negative either and the provider sent no cost of
  its own, it is at most \<open>M\<close> for each prompt token, completion token and search query. Without the
  condition on audio tokens the cost can be negative: \<open>negative_cost\<close>.
\<close>

theorem chat_cost_bounds:
  assumes "prices_within M st" "xf_CacheDebug xf = None" "xf_RequestType xf \<in> {''chat_completion'', ''chat_completion_stream''}"
    "0 \<le> us_PromptTokens u" "0 \<le> us_CompletionTokens u" "0 \<le> queries u"
    "cached_counts u = (r, w, h)" "fst (audio_counts u) \<le> us_PromptTokens u - r - w"
  shows "0 \<le> CalculateCost st (Some (ChatPayload (Some u) tier speed, xf)) scopes \<and>
    (details_nonneg u \<and> own_cost (Some u) = None \<longrightarrow>
       CalculateCost st (Some (ChatPayload (Some u) tier speed, xf)) scopes
         \<le> M * of_int (us_PromptTokens u + us_CompletionTokens u + queries u))"
proof (cases "own_cost (Some u)")
  case (Some c)
  then have "0 \<le> c" by (auto simp: own_cost_def split: option.splits if_splits)
  then show ?thesis using Some assms(2) by (simp add: CalculateCost_def calculateBaseCost_def Let_def)
next
  case None
  have t: "priced_type xf ri (ChatPayload v tier speed) = ''chat_completion''" for ri v
    using assms(3) by (auto simp: priced_type_def normalizeStreamRequestType_def)
  let ?s = "case scopes of None \<Rightarrow> no_scopes | Some s \<Rightarrow> s"
  have c: "CalculateCost st (Some (ChatPayload (Some u) tier speed, xf)) scopes =
      (case resolvePricing st (effective_routing xf) ''chat_completion'' ?s of
         None \<Rightarrow> 0 | Some row \<Rightarrow> computeTextCost (mp_Rates row) (Some u) (tierFromResponse tier speed))"
    using assms(2) None
    by (simp add: CalculateCost_def calculateBaseCost_def Let_def t nothing_to_price_def computeCostFromInput_def
        compute_cost_def no_input_def split: option.split)
  have "0 \<le> M * of_int (us_PromptTokens u + us_CompletionTokens u + queries u)"
    using assms(1,4-6) by (simp add: prices_within_def)
  then show ?thesis
    using text_cost_in_range [OF resolved_within [OF assms(1)] assms(4-7)] assms(8) by (auto simp: c split: option.split)
qed

definition sample_prices :: price_store where
  "sample_prices = \<lparr>ps_table = price_table [zero_row\<lparr>mp_Model := ''gpt'', mp_Provider := ''openai'', mp_Mode := ''chat'',
       mp_Rates := sample_rates\<lparr>InputCostPerTokenFlex := Some 2\<rparr>\<rparr>],
     ps_overrides = with_overrides [key_price\<lparr>ov_Pattern := ''gpt*''\<rparr>]\<rparr>"

definition chat_fields :: extra_fields where
  "chat_fields = \<lparr>xf_RequestType = ''chat_completion_stream'',
     xf_RoutingInfo = \<lparr>ri_Provider = ''openai'', ri_Model = ''gpt'', ri_Alias = None\<rparr>, xf_Provider = [],
     xf_OriginalModelRequested = [], xf_ResolvedModelUsed = [], xf_CacheDebug = None, xf_PassthroughPath = []\<rparr>"

text \<open>The malformed usage of before, under the override of the key (rate 2 for a prompt token).\<close>

theorem chat_cost_bounds_witness:
  "CalculateCost sample_prices (Some (ChatPayload (Some malformed_usage) None None, chat_fields)) (Some key_scopes) = 42 \<and>
   CalculateCost sample_prices (Some (ChatPayload (Some malformed_usage) None None, chat_fields)) (Some key_scopes)
     \<le> 6 * of_int (10 + 3 + 1)"
proof -
  have "prices_within 6 sample_prices"
    by (simp add: prices_within_def sample_prices_def price_table_def sm_store_def rates_within_def rates_of_def
        sample_rates_def no_rates_def key_price_def team_price_def with_overrides_ok(1))
  moreover have "xf_CacheDebug chat_fields = None" "xf_RequestType chat_fields \<in> {''chat_completion'', ''chat_completion_stream''}"
    "us_PromptTokens malformed_usage = 10" "us_CompletionTokens malformed_usage = 3" "queries malformed_usage = 1"
    "cached_counts malformed_usage = (7, 3, 3)" "fst (audio_counts malformed_usage) = 0"
    "details_nonneg malformed_usage" "own_cost (Some malformed_usage) = None" by code_simp+
  ultimately have "CalculateCost sample_prices (Some (ChatPayload (Some malformed_usage) None None, chat_fields)) (Some key_scopes)
      \<le> 6 * of_int (10 + 3 + 1)"
    using chat_cost_bounds [of 6 sample_prices chat_fields malformed_usage 7 3 3 None None "Some key_scopes"] by simp
  moreover have "CalculateCost sample_prices (Some (ChatPayload (Some malformed_usage) None None, chat_fields)) (Some key_scopes) = 42"
    by code_simp
  ultimately show ?thesis by simp
qed

subsection \<open>Failed calls are billed like answered ones\<close>

text \<open>
  A failed call is billed like an answered one: for a chat call that was routed without an alias
  and served in the standard tier, the cost of the bare usage is the cost of the response, for every
  price table, override set, request type and set of identifiers.
\<close>

lemma failure_billing_agrees:
  assumes "tierFromResponse tier speed = no_tier" "xf_CacheDebug xf = None"
    "xf_RoutingInfo xf = \<lparr>ri_Provider = provider, ri_Model = model, ri_Alias = None\<rparr>" "provider \<noteq> [] \<or> model \<noteq> []"
  shows "CalculateCostForUsage st usage provider model (xf_RequestType xf) scopes =
    CalculateCost st (Some (ChatPayload usage tier speed, xf)) scopes"
proof (cases usage)
  case None
  then show ?thesis using assms(2)
    by (simp add: CalculateCostForUsage_def CalculateCost_def calculateBaseCost_def own_cost_def nothing_to_price_def no_input_def Let_def)
next
  case (Some u)
  have r: "effective_routing xf = \<lparr>ri_Provider = provider, ri_Model = model, ri_Alias = None\<rparr>"
    using assms(3,4) by (auto simp: effective_routing_def Let_def)
  have i: "no_input\<lparr>ci_usage := Some u, ci_tier := no_tier\<rparr> = no_input\<lparr>ci_usage := Some u\<rparr>" by (simp add: no_input_def)
  show ?thesis using assms(1,2)
    by (simp add: Some r i CalculateCostForUsage_def CalculateCost_def calculateBaseCost_def Let_def priced_type_def
        nothing_to_price_def split: option.split)
qed

lemma failure_billing_agrees_witness:
  "CalculateCostForUsage sample_prices (Some malformed_usage) ''openai'' ''gpt'' ''chat_completion_stream'' None = 42 \<and>
   CalculateCost sample_prices (Some (ChatPayload (Some malformed_usage) (Some ''default'') None, chat_fields)) None = 42"
proof -
  have "tierFromResponse (Some ''default'') None = no_tier" "xf_CacheDebug chat_fields = None"
    "xf_RequestType chat_fields = ''chat_completion_stream''"
    "xf_RoutingInfo chat_fields = \<lparr>ri_Provider = ''openai'', ri_Model = ''gpt'', ri_Alias = None\<rparr>"
    by (simp_all add: tierFromResponse_def no_tier_def chat_fields_def)
  moreover have "CalculateCostForUsage sample_prices (Some malformed_usage) ''openai'' ''gpt'' ''chat_completion_stream'' None = 42"
    by code_simp
  ultimately show ?thesis
    using failure_billing_agrees [of "Some ''default''" None chat_fields "''openai''" "''gpt''" sample_prices "Some malformed_usage" None]
    by simp
qed

text \<open>In the other tiers they differ: the bare usage does not say in which tier the call was served.\<close>

lemma failure_billing_ignores_tier:
  "CalculateCost sample_prices (Some (ChatPayload (Some (plain_usage 10 0 10)) (Some ''flex'') None, chat_fields)) None = 20"
  "CalculateCostForUsage sample_prices (Some (plain_usage 10 0 10)) ''openai'' ''gpt'' ''chat_completion_stream'' None = 40"
  by code_simp+

end
