(* ===== verification/ModelNames.thy ===== *)
theory ModelNames
  imports GovResolver
begin

text \<open>
  Version suffixes of model names (core/schemas/utils.go): the split of a name at a date or a
  tagged version, and the comparison of names up to the suffix. The three regular expressions are
  written as predicates.
\<close>

subsection \<open>Splitting and joining\<close>

text \<open>\<^verbatim>\<open>strings.Split(s, sep)\<close> and \<^verbatim>\<open>strings.Join(parts, sep)\<close> for a one-character separator.\<close>

fun split_on :: "char \<Rightarrow> string \<Rightarrow> string list" where
  "split_on c [] = [[]]"
| "split_on c (x # s) =
     (if x = c then [] # split_on c s
      else (case split_on c s of [] \<Rightarrow> [[x]] | p # ps \<Rightarrow> (x # p) # ps))"

fun join_with :: "char \<Rightarrow> string list \<Rightarrow> string" where
  "join_with c [] = []"
| "join_with c [p] = p"
| "join_with c (p # q # ps) = p @ c # join_with c (q # ps)"

definition digits :: "nat \<Rightarrow> string \<Rightarrow> bool" where
  "digits n s \<longleftrightarrow> length s = n \<and> list_all is_digit s"

definition anthropicDateRe :: "string \<Rightarrow> bool" where
  "anthropicDateRe s \<longleftrightarrow> digits 8 s"

definition openAIDateRe :: "string \<Rightarrow> bool" where
  "openAIDateRe s \<longleftrightarrow>
     (case split_on CHR ''-'' s of [y, m, d] \<Rightarrow> digits 4 y \<and> digits 2 m \<and> digits 2 d | _ \<Rightarrow> False)"

definition number :: "string \<Rightarrow> bool" where
  "number s \<longleftrightarrow> s \<noteq> [] \<and> list_all is_digit s"

definition taggedVersionRe :: "string \<Rightarrow> bool" where
  "taggedVersionRe s \<longleftrightarrow>
     (has_prefix s ''v'' \<and> (let ns = split_on CHR ''.'' (drop 1 s) in length ns \<le> 3 \<and> list_all number ns)) \<or>
     (has_prefix s ''rc'' \<and> number (drop 2 s)) \<or>
     s \<in> set [''alpha'', ''beta'', ''preview'', ''canary'', ''experimental'']"

definition SplitModelAndVersion :: "string \<Rightarrow> string \<times> string" where
  "SplitModelAndVersion i =
     (if i = [] then ([], [])
      else
        let parts = split_on CHR ''-'' i; n = length parts; last3 = join_with CHR ''-'' (drop (n - 3) parts) in
        if 3 \<le> n \<and> openAIDateRe last3 then (join_with CHR ''-'' (take (n - 3) parts), last3)
        else if 2 \<le> n \<and> (anthropicDateRe (last parts) \<or> taggedVersionRe (last parts))
        then (join_with CHR ''-'' (butlast parts), last parts)
        else (i, []))"

definition BaseModelName :: "string \<Rightarrow> string" where
  "BaseModelName i = fst (SplitModelAndVersion i)"

definition SameBaseModel :: "string \<Rightarrow> string \<Rightarrow> bool" where
  "SameBaseModel a b \<longleftrightarrow> a = b \<or> BaseModelName a = BaseModelName b"

subsection \<open>The split loses nothing\<close>

lemma split_on_ne [simp]: "split_on c s \<noteq> []"
  by (induction s) (auto split: list.splits)

lemma join_Cons: "ps \<noteq> [] \<Longrightarrow> join_with c (p # ps) = p @ c # join_with c ps"
  by (cases ps) simp_all

lemma join_split [simp]: "join_with c (split_on c s) = s"
proof (induction s)
  case (Cons x s)
  obtain p ps where s: "split_on c s = p # ps" using split_on_ne by (meson neq_Nil_conv)
  show ?case
  proof (cases "x = c")
    case True
    then show ?thesis using Cons by (simp add: join_Cons)
  next
    case False
    then show ?thesis using Cons s by (cases ps) simp_all
  qed
qed simp

lemma join_append:
  "xs \<noteq> [] \<Longrightarrow> ys \<noteq> [] \<Longrightarrow> join_with c (xs @ ys) = join_with c xs @ c # join_with c ys"
proof (induction xs)
  case (Cons x xs)
  then show ?case by (cases xs) (simp_all add: join_Cons)
qed simp

lemma join_take_drop:
  assumes "ps \<noteq> []" "k < length ps"
  shows "join_with c ps = (if k = 0 then join_with c (drop k ps) else join_with c (take k ps) @ c # join_with c (drop k ps))"
proof (cases "k = 0")
  case False
  then have "join_with c (take k ps @ drop k ps) = join_with c (take k ps) @ c # join_with c (drop k ps)"
    using assms by (intro join_append) simp_all
  then show ?thesis using False by simp
qed simp

text \<open>
  Splitting a model name at its version loses nothing: either no suffix is recognised and the
  base is the name, or the name is the base, a dash and the version, except for a name that is
  itself a date, whose base is empty.
\<close>

lemma version_split_joins:
  assumes "SplitModelAndVersion i = (base, version)"
  shows "if version = [] then base = i
    else i = base @ ''-'' @ version \<or> (base = [] \<and> i = version \<and> openAIDateRe version)"
proof -
  define p where "p = split_on CHR ''-'' i"
  define k where "k = length p - 3"
  have p: "p \<noteq> []" "join_with CHR ''-'' p = i" by (simp_all add: p_def)
  have eq: "SplitModelAndVersion i =
      (if i = [] then ([], [])
       else if 3 \<le> length p \<and> openAIDateRe (join_with CHR ''-'' (drop k p))
       then (join_with CHR ''-'' (take k p), join_with CHR ''-'' (drop k p))
       else if 2 \<le> length p \<and> (anthropicDateRe (last p) \<or> taggedVersionRe (last p))
       then (join_with CHR ''-'' (butlast p), last p) else (i, []))"
    unfolding SplitModelAndVersion_def Let_def p_def k_def ..
  consider (none) "base = i" "version = []"
    | (date) "3 \<le> length p" "base = join_with CHR ''-'' (take k p)" "version = join_with CHR ''-'' (drop k p)"
      "openAIDateRe version"
    | (tag) "2 \<le> length p" "base = join_with CHR ''-'' (butlast p)" "version = last p"
      "anthropicDateRe version \<or> taggedVersionRe version"
    using assms unfolding eq by (simp split: if_splits)
  then show ?thesis
  proof cases
    case none
    then show ?thesis by simp
  next
    case date
    have "version \<noteq> []" using date(4) by (rule contrapos_pn) (simp add: openAIDateRe_def)
    moreover have "i = (if k = 0 then version else base @ CHR ''-'' # version)"
      using date(1) join_take_drop [of p k "CHR ''-''"] p unfolding date(2,3) by (simp add: k_def)
    moreover have "k = 0 \<Longrightarrow> base = []" by (simp add: date(2))
    ultimately show ?thesis using date(4) by (cases "k = 0") simp_all
  next
    case tag
    have "version \<noteq> []" using tag(4) by (auto simp: anthropicDateRe_def digits_def taggedVersionRe_def has_prefix_def)
    moreover have "butlast p \<noteq> []" using tag(1) by (cases p rule: rev_cases) auto
    then have "join_with CHR ''-'' (butlast p @ [last p]) = base @ CHR ''-'' # version"
      by (subst join_append) (simp_all add: tag(2,3))
    then have "i = base @ CHR ''-'' # version" using p by simp
    ultimately show ?thesis by simp
  qed
qed

lemma version_split_joins_witness:
  "SplitModelAndVersion ''gpt-4.1-mini-2024-09-12'' = (''gpt-4.1-mini'', ''2024-09-12'') \<and>
   ''gpt-4.1-mini-2024-09-12'' = ''gpt-4.1-mini'' @ ''-'' @ ''2024-09-12''"
proof -
  have s: "SplitModelAndVersion ''gpt-4.1-mini-2024-09-12'' = (''gpt-4.1-mini'', ''2024-09-12'')" by code_simp
  from s version_split_joins [OF s] show ?thesis by simp
qed

lemma version_samples:
  "SplitModelAndVersion ''claude-sonnet-4-20250514'' = (''claude-sonnet-4'', ''20250514'')"
  "SplitModelAndVersion ''some-model-v2'' = (''some-model'', ''v2'')"
  "SplitModelAndVersion ''claude-sonnet-4.5'' = (''claude-sonnet-4.5'', [])"
  by code_simp+

end
