(* ===== verification/Datasheet.thy ===== *)
theory Datasheet
  imports PricingLookup ModelNames "HOL-Library.List_Lexorder" "HOL-Library.Char_ord"
begin

text \<open>
  The datasheet store (framework/modelcatalog/datasheet/store.go, sync.go, params.go, types.go): the
  price rows with the views derived from them, the capabilities read from the model parameters, and
  the lookups. Sorting is bytewise, as Go sorts strings. Downloads, parsing and the database are
  arguments; a Go map is visited in the order of its association list.
\<close>

record datasheet =
  ds_pricingData :: "model_pricing smap"
  ds_baseModelIndex :: "string smap"
  ds_supportedResponseTypes :: "string list smap"
  ds_supportedParams :: "string list smap"
  ds_byProvider :: "string list smap"
  ds_deprecatedByProvider :: "string list smap"

definition empty_datasheet :: datasheet where
  "empty_datasheet = \<lparr>ds_pricingData = [], ds_baseModelIndex = [], ds_supportedResponseTypes = [], ds_supportedParams = [],
     ds_byProvider = [], ds_deprecatedByProvider = []\<rparr>"

subsection \<open>The derived views\<close>

definition sorted_set :: "string list \<Rightarrow> string list" where
  "sorted_set xs = sort (remdups xs)"

definition row_provider :: "model_pricing \<Rightarrow> string" where
  "row_provider row = normalizeProvider (mp_Provider row)"

definition provider_view :: "model_pricing list \<Rightarrow> string list smap" where
  "provider_view pricing =
     map (\<lambda>p. (p, sorted_set (map mp_Model (filter (\<lambda>r. row_provider r = p) pricing))))
       (add_new [] (map row_provider pricing))"

definition rebuildDatasheetView :: "datasheet \<Rightarrow> datasheet" where
  "rebuildDatasheetView ds =
     (let pricing = map snd (ds_pricingData ds) in
      ds\<lparr>ds_baseModelIndex :=
            fold (\<lambda>r ix. if mp_BaseModel r \<noteq> [] then sm_store (mp_Model r) (mp_BaseModel r) ix else ix) pricing [],
         ds_byProvider := provider_view pricing,
         ds_deprecatedByProvider := provider_view (filter mp_IsDeprecated pricing)\<rparr>)"

definition load_rows :: "model_pricing list \<Rightarrow> datasheet \<Rightarrow> datasheet" where
  "load_rows records ds = rebuildDatasheetView (ds\<lparr>ds_pricingData := price_table records\<rparr>)"

text \<open>\<open>None\<close> is the error of the config store; without a config store nothing is loaded.\<close>

definition LoadFromDB :: "model_pricing list option option \<Rightarrow> datasheet \<Rightarrow> datasheet option" where
  "LoadFromDB db ds =
     (case db of None \<Rightarrow> Some ds | Some None \<Rightarrow> None | Some (Some records) \<Rightarrow> Some (load_rows records ds))"

definition load_payload :: "(string \<times> entry) list \<Rightarrow> datasheet \<Rightarrow> datasheet" where
  "load_payload pricingData ds = rebuildDatasheetView (ds\<lparr>ds_pricingData := applyPricingData pricingData\<rparr>)"

text \<open>
  One sync: \<open>fetched\<close> is the payload of the URL, \<open>None\<close> when every attempt failed. The
  database upsert \<open>upsert\<close> returns the rows of the table afterwards. The result is the store
  and whether the sync reported success.
\<close>

record config_store =
  cs_rows :: "model_pricing list option"
  cs_upsert :: "model_pricing list \<Rightarrow> model_pricing list option"

definition SyncFromURL :: "config_store option \<Rightarrow> (string \<times> entry) list option \<Rightarrow> datasheet \<Rightarrow> datasheet \<times> bool" where
  "SyncFromURL store fetched ds =
     (case fetched of
        None \<Rightarrow> (ds, case store of
            None \<Rightarrow> False
          | Some cs \<Rightarrow> (case cs_rows cs of None \<Rightarrow> False | Some records \<Rightarrow> records \<noteq> []))
      | Some pricingData \<Rightarrow>
          (case store of
             None \<Rightarrow> (load_payload pricingData ds, True)
           | Some cs \<Rightarrow>
               (case cs_upsert cs (dedup_rows [] (map (\<lambda>ke. convertEntryToTablePricing (fst ke) (snd ke)) pricingData)) of
                  None \<Rightarrow> (ds, False)
                | Some records \<Rightarrow> (case LoadFromDB (Some (Some records)) ds of
                    None \<Rightarrow> (ds, False) | Some ds' \<Rightarrow> (ds', True)))))"

subsection \<open>Lookups\<close>

definition ds_Get :: "datasheet \<Rightarrow> string \<Rightarrow> string \<Rightarrow> string \<Rightarrow> model_pricing option" where
  "ds_Get ds model provider t = sm_load (ds_pricingData ds) (makeKey model provider (normalizeRequestType t))"

definition pricing_modes :: "string list" where
  "pricing_modes = [''text_completion'', ''chat_completion'', ''responses'', ''embedding'', ''rerank'', ''speech'',
     ''transcription'', ''image_generation'', ''image_edit'', ''image_variation'', ''video_generation'', ''ocr'']"

definition GetPricingEntryForModel :: "datasheet \<Rightarrow> string \<Rightarrow> string \<Rightarrow> entry option" where
  "GetPricingEntryForModel ds model provider =
     map_option convertTablePricingToEntry (first_some (\<lambda>t. ds_Get ds model provider t) pricing_modes)"

text \<open>\<open>known\<close> says which prefixes are provider names.\<close>

definition ds_BaseModelName :: "(string \<Rightarrow> bool) \<Rightarrow> datasheet \<Rightarrow> string \<Rightarrow> string" where
  "ds_BaseModelName known ds model =
     (case sm_load (ds_baseModelIndex ds) model of
        Some base \<Rightarrow> base
      | None \<Rightarrow>
          let baseName = snd (ParseModelString known model []) in
          (case (if baseName \<noteq> model then sm_load (ds_baseModelIndex ds) baseName else None) of
             Some base \<Rightarrow> base
           | None \<Rightarrow> BaseModelName baseName))"

definition IsSameModel :: "(string \<Rightarrow> bool) \<Rightarrow> datasheet \<Rightarrow> string \<Rightarrow> string \<Rightarrow> bool" where
  "IsSameModel known ds model1 model2 \<longleftrightarrow> model1 = model2 \<or> ds_BaseModelName known ds model1 = ds_BaseModelName known ds model2"

definition DistinctBaseModelNames :: "datasheet \<Rightarrow> string list" where
  "DistinctBaseModelNames ds = add_new [] (map snd (ds_baseModelIndex ds))"

definition DistinctActiveBaseModelNames :: "(string \<Rightarrow> bool) \<Rightarrow> datasheet \<Rightarrow> string list" where
  "DistinctActiveBaseModelNames known ds =
     add_new [] (map (\<lambda>r. if mp_BaseModel r = [] then ds_BaseModelName known ds (mp_Model r) else mp_BaseModel r)
       (filter (\<lambda>r. \<not> mp_IsDeprecated r) (map snd (ds_pricingData ds))))"

definition DatasheetModelsForProvider :: "datasheet \<Rightarrow> string \<Rightarrow> string list" where
  "DatasheetModelsForProvider ds provider = (case sm_load (ds_byProvider ds) provider of None \<Rightarrow> [] | Some ms \<Rightarrow> ms)"

definition DeprecatedDatasheetModelsForProvider :: "datasheet \<Rightarrow> string \<Rightarrow> string list" where
  "DeprecatedDatasheetModelsForProvider ds provider =
     (case sm_load (ds_deprecatedByProvider ds) provider of None \<Rightarrow> [] | Some ms \<Rightarrow> ms)"

definition DatasheetProviders :: "datasheet \<Rightarrow> string list" where
  "DatasheetProviders ds = map fst (ds_byProvider ds)"

definition IsRequestTypeSupported :: "datasheet \<Rightarrow> string \<Rightarrow> string \<Rightarrow> bool" where
  "IsRequestTypeSupported ds model requestType =
     (case sm_load (ds_supportedResponseTypes ds) model of None \<Rightarrow> False | Some outputs \<Rightarrow> requestType \<in> set outputs)"

definition GetSupportedParameters :: "datasheet \<Rightarrow> string \<Rightarrow> string list option" where
  "GetSupportedParameters ds model = sm_load (ds_supportedParams ds) model"

definition IsTextCompletionSupported :: "datasheet \<Rightarrow> string \<Rightarrow> string \<Rightarrow> bool" where
  "IsTextCompletionSupported ds model provider \<longleftrightarrow>
     sm_load (ds_pricingData ds) (makeKey model (normalizeProvider provider) (normalizeRequestType ''text_completion'')) \<noteq> None"

subsection \<open>Capability entries\<close>

definition preferred_modes :: "string list" where
  "preferred_modes = map normalizeRequestType [''chat_completion'', ''responses'', ''text_completion'']"

text \<open>The third part of \<^verbatim>\<open>strings.SplitN(key, "|", 3)\<close>.\<close>

definition key_mode :: "string \<Rightarrow> string option" where
  "key_mode key = Option.bind (split_first CHR ''|'' key) (\<lambda>ar. map_option snd (split_first CHR ''|'' (snd ar)))"

definition selectCapabilityEntryFromKeys :: "datasheet \<Rightarrow> string list \<Rightarrow> entry option" where
  "selectCapabilityEntryFromKeys ds matchingKeys =
     (if matchingKeys = [] then None
      else
        let best = (case first_some (\<lambda>mode. case sort (filter (\<lambda>k. key_mode k = Some mode) matchingKeys) of
                          [] \<Rightarrow> None | k # _ \<Rightarrow> Some k) preferred_modes of
                      Some k \<Rightarrow> k | None \<Rightarrow> hd (sort matchingKeys))
        in map_option convertTablePricingToEntry (sm_load (ds_pricingData ds) best))"

definition capabilityEntryForExact :: "datasheet \<Rightarrow> string \<Rightarrow> string \<Rightarrow> entry option" where
  "capabilityEntryForExact ds model provider =
     (case first_some (\<lambda>mode. sm_load (ds_pricingData ds) (makeKey model provider mode)) preferred_modes of
        Some row \<Rightarrow> Some (convertTablePricingToEntry row)
      | None \<Rightarrow> selectCapabilityEntryFromKeys ds
          (filter (\<lambda>k. has_prefix k (model @ ''|'' @ provider @ ''|'')) (map fst (ds_pricingData ds))))"

definition capabilityEntryForFamily :: "(string \<Rightarrow> bool) \<Rightarrow> datasheet \<Rightarrow> string \<Rightarrow> string \<Rightarrow> entry option" where
  "capabilityEntryForFamily known ds baseModel provider =
     (if baseModel = [] then None
      else selectCapabilityEntryFromKeys ds
        (map fst (filter (\<lambda>(k, r). row_provider r = provider \<and> ds_BaseModelName known ds (mp_Model r) = baseModel)
           (ds_pricingData ds))))"

definition GetCapabilityEntry :: "(string \<Rightarrow> bool) \<Rightarrow> datasheet \<Rightarrow> string \<Rightarrow> string \<Rightarrow> entry option" where
  "GetCapabilityEntry known ds model provider =
     (case capabilityEntryForExact ds model provider of
        Some e \<Rightarrow> Some e
      | None \<Rightarrow>
          let baseModel = ds_BaseModelName known ds model in
          (case (if baseModel \<noteq> model then capabilityEntryForExact ds baseModel provider else None) of
             Some e \<Rightarrow> Some e
           | None \<Rightarrow> capabilityEntryForFamily known ds baseModel provider))"

subsection \<open>Model parameters\<close>

record model_parameters =
  mpar_Mode :: "string option"
  mpar_SupportedEndpoints :: "string list"
  mpar_ModelParameters :: "string list"
  mpar_SupportsAssistantPrefill :: "bool option"
  mpar_SupportsFunctionCalling :: "bool option"
  mpar_SupportsParallelFunctionCalling :: "bool option"
  mpar_SupportsToolChoice :: "bool option"
  mpar_SupportsReasoning :: "bool option"
  mpar_SupportsResponseSchema :: "bool option"
  mpar_SupportsReasoningWithToolCalls :: "bool option"
  mpar_SupportsServiceTier :: "bool option"
  mpar_SupportsPromptCaching :: "bool option"
  mpar_SupportsWebSearch :: "bool option"
  mpar_provider :: "string option"

definition normalizeEndpointToOutputType :: "string \<Rightarrow> string" where
  "normalizeEndpointToOutputType endpoint =
     (if str_contains endpoint ''/chat/completions'' then ''chat_completion''
      else if str_contains endpoint ''/responses'' then ''responses''
      else if str_contains endpoint ''/completions'' then ''text_completion''
      else [])"

definition normalizeModeToOutputType :: "string \<Rightarrow> string" where
  "normalizeModeToOutputType mode =
     (if mode = ''chat'' then ''chat_completion''
      else if mode = ''completion'' then ''text_completion''
      else if mode = ''responses'' then ''responses''
      else [])"

definition param_names :: "string \<Rightarrow> string list" where
  "param_names i =
     (if i = ''reasoning_effort'' \<or> i = ''reasoning_summary'' then [''reasoning'']
      else if i = ''web_search'' then [''web_search_options'', ''web_search'']
      else if i = ''stop_sequences'' then [''stop'']
      else if i \<in> {''promptTools'', ''image_detail'', ''stream''} then []
      else [i])"

definition when_true :: "bool option \<Rightarrow> string list \<Rightarrow> string list" where
  "when_true b ns = (if b = Some True then ns else [])"

definition extractSupportedParams :: "model_parameters \<Rightarrow> string list" where
  "extractSupportedParams p =
     add_new [] (concat (map param_names (mpar_ModelParameters p))
       @ when_true (mpar_SupportsAssistantPrefill p) [''assistant_prefill'']
       @ when_true (mpar_SupportsFunctionCalling p) [''tools'']
       @ when_true (mpar_SupportsParallelFunctionCalling p) [''parallel_tool_calls'']
       @ when_true (mpar_SupportsToolChoice p) [''tool_choice'']
       @ when_true (mpar_SupportsReasoning p) [''reasoning'']
       @ (if mpar_SupportsReasoningWithToolCalls p \<noteq> Some False then [''reasoning_with_tool_calls''] else [])
       @ when_true (mpar_SupportsResponseSchema p) [''response_format'', ''text'']
       @ when_true (mpar_SupportsServiceTier p) [''service_tier'']
       @ when_true (mpar_SupportsPromptCaching p) [''cachePoint'', ''cache_control'', ''prompt_cache_key'', ''prompt_cache_retention'']
       @ when_true (mpar_SupportsWebSearch p) [''web_search'', ''web_search_options''])"

definition output_types :: "datasheet \<Rightarrow> string \<Rightarrow> model_parameters \<Rightarrow> string list" where
  "output_types ds model p =
     (let listed = filter (\<lambda>t. t \<noteq> []) (map normalizeEndpointToOutputType (mpar_SupportedEndpoints p)
            @ (case mpar_Mode p of None \<Rightarrow> [] | Some m \<Rightarrow> [normalizeModeToOutputType m]));
          outputs = add_new [] listed
      in if ''text_completion'' \<notin> set outputs \<and>
            (case mpar_provider p of None \<Rightarrow> False | Some pr \<Rightarrow> IsTextCompletionSupported ds model pr)
         then outputs @ [''text_completion''] else outputs)"

text \<open>\<open>None\<close> is a row whose JSON does not parse. The number counts the rows that do.\<close>

definition applyModelParameters :: "(string \<times> model_parameters option) list \<Rightarrow> datasheet \<Rightarrow> datasheet \<times> nat" where
  "applyModelParameters raw ds =
     (let parsed = concat (map (\<lambda>(m, r). case r of None \<Rightarrow> [] | Some p \<Rightarrow> [(m, p)]) raw) in
      (ds\<lparr>ds_supportedResponseTypes := fold (\<lambda>(m, p) ix. let o1 = output_types ds m p in
             if o1 \<noteq> [] then sm_store m o1 ix else ix) parsed [],
          ds_supportedParams := fold (\<lambda>(m, p) ix. let s = extractSupportedParams p in
             if s \<noteq> [] then sm_store m s ix else ix) parsed []\<rparr>,
       length parsed))"

subsection \<open>The views follow the rows\<close>

lemma set_sorted_set [simp]: "set (sorted_set xs) = set xs"
  by (simp add: sorted_set_def)

lemma sorted_sorted_set [simp]: "sorted (sorted_set xs) \<and> distinct (sorted_set xs)"
  by (simp add: sorted_set_def)

lemma load_provider_view:
  "sm_load (provider_view pricing) p =
     (if p \<in> row_provider ` set pricing then Some (sorted_set (map mp_Model (filter (\<lambda>r. row_provider r = p) pricing))) else None)"
proof -
  have "map_of (map (\<lambda>p. (p, f p)) ps) p = (if p \<in> set ps then Some (f p) else None)" for f :: "string \<Rightarrow> string list" and ps
    by (induction ps) auto
  then show ?thesis by (simp add: provider_view_def sm_load_def)
qed

definition view_models :: "string list smap \<Rightarrow> string \<Rightarrow> string set" where
  "view_models view p = (case sm_load view p of None \<Rightarrow> {} | Some ms \<Rightarrow> set ms)"

lemma view_models_provider_view:
  "view_models (provider_view pricing) p = {mp_Model r |r. r \<in> set pricing \<and> row_provider r = p}"
  by (auto simp: view_models_def load_provider_view)

text \<open>Every load, every sync and every application of model parameters leaves the views in this state.\<close>

definition view_ok :: "datasheet \<Rightarrow> bool" where
  "view_ok ds \<longleftrightarrow> ds_byProvider ds = provider_view (map snd (ds_pricingData ds)) \<and>
     ds_deprecatedByProvider ds = provider_view (filter mp_IsDeprecated (map snd (ds_pricingData ds)))"

lemma view_ok_steps [simp]:
  "view_ok empty_datasheet" "view_ok (rebuildDatasheetView ds)" "view_ok (load_rows records ds)" "view_ok (load_payload d ds)"
  "view_ok ds \<Longrightarrow> view_ok (fst (applyModelParameters raw ds))"
  by (simp_all add: view_ok_def empty_datasheet_def provider_view_def rebuildDatasheetView_def load_rows_def
      load_payload_def applyModelParameters_def Let_def)

lemma view_ok_sync: "view_ok ds \<Longrightarrow> view_ok (fst (SyncFromURL store fetched ds))"
  by (auto simp: SyncFromURL_def LoadFromDB_def split: option.split)

lemma view_members:
  assumes "view_ok ds"
  shows "m \<in> set (DatasheetModelsForProvider ds p) \<longleftrightarrow>
      (\<exists>r \<in> set (map snd (ds_pricingData ds)). row_provider r = p \<and> mp_Model r = m)"
    "m \<in> set (DeprecatedDatasheetModelsForProvider ds p) \<longleftrightarrow>
      (\<exists>r \<in> set (map snd (ds_pricingData ds)). mp_IsDeprecated r \<and> row_provider r = p \<and> mp_Model r = m)"
    "p \<in> set (DatasheetProviders ds) \<longleftrightarrow> DatasheetModelsForProvider ds p \<noteq> []"
proof -
  show "m \<in> set (DatasheetModelsForProvider ds p) \<longleftrightarrow>
      (\<exists>r \<in> set (map snd (ds_pricingData ds)). row_provider r = p \<and> mp_Model r = m)"
    using assms by (auto simp: DatasheetModelsForProvider_def view_ok_def load_provider_view image_iff)
  show "m \<in> set (DeprecatedDatasheetModelsForProvider ds p) \<longleftrightarrow>
      (\<exists>r \<in> set (map snd (ds_pricingData ds)). mp_IsDeprecated r \<and> row_provider r = p \<and> mp_Model r = m)"
    using assms by (auto simp: DeprecatedDatasheetModelsForProvider_def view_ok_def load_provider_view image_iff)
  have "sorted_set (map mp_Model (filter (\<lambda>r. row_provider r = p) pricing)) \<noteq> []" if "p \<in> row_provider ` set pricing" for pricing
    using that by (auto simp: set_empty [symmetric] simp del: set_empty)
  moreover have "set (DatasheetProviders ds) = row_provider ` set (map snd (ds_pricingData ds))"
    using assms by (simp add: DatasheetProviders_def view_ok_def provider_view_def comp_def image_image)
  ultimately show "p \<in> set (DatasheetProviders ds) \<longleftrightarrow> DatasheetModelsForProvider ds p \<noteq> []"
    using assms by (simp add: DatasheetModelsForProvider_def view_ok_def load_provider_view split: option.split)
qed

text \<open>The operations that change the store: a sync, a reload from the database, new model parameters.\<close>

datatype ds_event =
    SyncURL "config_store option" "(string \<times> entry) list option"
  | ReloadDB "model_pricing list option option"
  | SetParams "(string \<times> model_parameters option) list"

fun ds_step :: "ds_event \<Rightarrow> datasheet \<Rightarrow> datasheet" where
  "ds_step (SyncURL store fetched) ds = fst (SyncFromURL store fetched ds)"
| "ds_step (ReloadDB db) ds = (case LoadFromDB db ds of None \<Rightarrow> ds | Some ds' \<Rightarrow> ds')"
| "ds_step (SetParams raw) ds = fst (applyModelParameters raw ds)"

lemma view_ok_step: "view_ok ds \<Longrightarrow> view_ok (ds_step e ds)"
  by (cases e) (auto simp: view_ok_sync LoadFromDB_def split: option.split)

lemma view_ok_run: "view_ok ds \<Longrightarrow> view_ok (fold ds_step es ds)"
  by (induction es arbitrary: ds) (simp_all add: view_ok_step)

text \<open>
  After any sequence of syncs, reloads and parameter updates the provider views agree with the
  price rows in memory: a provider lists exactly the models of its rows, sorted and without
  repetition, the deprecated list holds exactly the deprecated ones, and the known providers are
  those with a model.
\<close>

lemma datasheet_views_follow_rows:
  "let ds = fold ds_step es empty_datasheet; held = set (map snd (ds_pricingData ds)) in
     set (DatasheetModelsForProvider ds p) = {mp_Model r |r. r \<in> held \<and> normalizeProvider (mp_Provider r) = p} \<and>
     set (DeprecatedDatasheetModelsForProvider ds p) =
       {mp_Model r |r. r \<in> held \<and> mp_IsDeprecated r \<and> normalizeProvider (mp_Provider r) = p} \<and>
     sorted (DatasheetModelsForProvider ds p) \<and> distinct (DatasheetModelsForProvider ds p) \<and>
     (p \<in> set (DatasheetProviders ds)) = (DatasheetModelsForProvider ds p \<noteq> [])"
proof -
  define ds where "ds = fold ds_step es empty_datasheet"
  have v: "view_ok ds" by (simp add: ds_def view_ok_run)
  have "sorted (DatasheetModelsForProvider ds p) \<and> distinct (DatasheetModelsForProvider ds p)"
    using v by (simp add: DatasheetModelsForProvider_def view_ok_def load_provider_view)
  moreover have "set (DatasheetModelsForProvider ds p) =
      {mp_Model r |r. r \<in> set (map snd (ds_pricingData ds)) \<and> normalizeProvider (mp_Provider r) = p}"
    "set (DeprecatedDatasheetModelsForProvider ds p) =
      {mp_Model r |r. r \<in> set (map snd (ds_pricingData ds)) \<and> mp_IsDeprecated r \<and> normalizeProvider (mp_Provider r) = p}"
    unfolding row_provider_def [symmetric] set_eq_iff view_members(1,2) [OF v] by blast+
  ultimately show ?thesis
    unfolding ds_def [symmetric] Let_def using view_members(3) [OF v] by blast
qed

end
