(* ===== verification/ModelCatalog.thy ===== *)
theory ModelCatalog
  imports KeyConfig Datasheet LlmRequest
begin

text \<open>
  The model catalog (framework/modelcatalog: main.go, models.go, pool.go, live/store.go): the cached
  model listings of the providers, and the questions the routing asks - which models a provider
  offers and which providers serve a model - answered from the listings, the datasheet and the key
  configuration together.
\<close>

subsection \<open>Cached listings\<close>

record live_key =
  lk_Provider :: string
  lk_KeyID :: string
  lk_Unfiltered :: bool

type_synonym live_store = "(live_key \<times> string list) list"

definition live_Upsert :: "string \<Rightarrow> string \<Rightarrow> bool \<Rightarrow> string list \<Rightarrow> live_store \<Rightarrow> live_store" where
  "live_Upsert provider keyID unfiltered models s =
     AList.update \<lparr>lk_Provider = provider, lk_KeyID = keyID, lk_Unfiltered = unfiltered\<rparr> models s"

definition live_Invalidate :: "string \<Rightarrow> string \<Rightarrow> live_store \<Rightarrow> live_store" where
  "live_Invalidate provider keyID s =
     AList.delete \<lparr>lk_Provider = provider, lk_KeyID = keyID, lk_Unfiltered = True\<rparr>
       (AList.delete \<lparr>lk_Provider = provider, lk_KeyID = keyID, lk_Unfiltered = False\<rparr> s)"

definition live_InvalidateProvider :: "string \<Rightarrow> live_store \<Rightarrow> live_store" where
  "live_InvalidateProvider provider s = filter (\<lambda>e. lk_Provider (fst e) \<noteq> provider) s"

definition unionForProvider :: "live_store \<Rightarrow> string \<Rightarrow> bool \<Rightarrow> string list" where
  "unionForProvider s provider unfiltered =
     sorted_set (concat (map snd (filter (\<lambda>e. lk_Provider (fst e) = provider \<and> lk_Unfiltered (fst e) = unfiltered) s)))"

definition live_ModelsForProvider :: "live_store \<Rightarrow> string \<Rightarrow> string list" where
  "live_ModelsForProvider s provider = unionForProvider s provider False"

definition live_UnfilteredModelsForProvider :: "live_store \<Rightarrow> string \<Rightarrow> string list" where
  "live_UnfilteredModelsForProvider s provider = unionForProvider s provider True"

subsection \<open>The catalog\<close>

record catalog =
  mc_datasheet :: datasheet
  mc_live :: live_store
  mc_keyconf :: key_config

text \<open>\<open>response\<close> lists the model identifiers of a list-models response, \<open>None\<close> is a nil response.\<close>

definition extractModelIDs :: "(string \<Rightarrow> bool) \<Rightarrow> string list \<Rightarrow> string \<Rightarrow> string list" where
  "extractModelIDs known response provider =
     add_new [] (concat (map (\<lambda>i. case ParseModelString known i [] of
        (p, m) \<Rightarrow> if p \<noteq> [] \<and> p \<noteq> provider then [] else [m]) response))"

definition UpsertLiveFromResponse ::
  "(string \<Rightarrow> bool) \<Rightarrow> string \<Rightarrow> string \<Rightarrow> bool \<Rightarrow> string list option \<Rightarrow> catalog \<Rightarrow> catalog" where
  "UpsertLiveFromResponse known provider keyID unfiltered response mc =
     (case response of
        None \<Rightarrow> mc
      | Some r \<Rightarrow> mc\<lparr>mc_live := live_Upsert provider keyID unfiltered (extractModelIDs known r provider) (mc_live mc)\<rparr>)"

definition InvalidateLive :: "string \<Rightarrow> string \<Rightarrow> catalog \<Rightarrow> catalog" where
  "InvalidateLive provider keyID mc = mc\<lparr>mc_live := live_Invalidate provider keyID (mc_live mc)\<rparr>"

definition InvalidateLiveProvider :: "string \<Rightarrow> catalog \<Rightarrow> catalog" where
  "InvalidateLiveProvider provider mc = mc\<lparr>mc_live := live_InvalidateProvider provider (mc_live mc)\<rparr>"

definition SetKeyConfigForProvider :: "string \<Rightarrow> key list \<Rightarrow> catalog \<Rightarrow> catalog" where
  "SetKeyConfigForProvider provider keys mc = mc\<lparr>mc_keyconf := kc_SetProvider provider keys (mc_keyconf mc)\<rparr>"

definition ReplaceKeyConfig :: "(string \<times> key list) list \<Rightarrow> catalog \<Rightarrow> catalog" where
  "ReplaceKeyConfig snapshot mc = mc\<lparr>mc_keyconf := kc_Replace snapshot\<rparr>"

definition RemoveKeyConfigForProvider :: "string \<Rightarrow> catalog \<Rightarrow> catalog" where
  "RemoveKeyConfigForProvider provider mc = mc\<lparr>mc_keyconf := kc_RemoveProvider provider (mc_keyconf mc)\<rparr>"

definition knownProviders :: "catalog \<Rightarrow> string list" where
  "knownProviders mc =
     add_new [] (DatasheetProviders (mc_datasheet mc) @ map (\<lambda>e. lk_Provider (fst e)) (mc_live mc) @ Providers (mc_keyconf mc))"

subsection \<open>The models of a provider\<close>

definition providersWithPartialListModels :: "string set" where
  "providersWithPartialListModels = {''perplexity'', ''vertex''}"

text \<open>A nil allow list is an empty one: the store never keeps an empty list that is not nil.\<close>

definition appendAllowedDatasheetModels :: "string list \<Rightarrow> string list \<Rightarrow> WhiteList \<Rightarrow> BlackList \<Rightarrow> string list" where
  "appendAllowedDatasheetModels out models allowed blacklisted =
     (if models = [] then out
      else sort (add_new out (filter (\<lambda>m. \<not> bl_IsBlocked blacklisted m \<and> (allowed = [] \<or> wl_IsAllowed allowed m)) models)))"

definition entry_names :: "WhiteList \<Rightarrow> BlackList \<Rightarrow> key_entry \<Rightarrow> string list" where
  "entry_names allowed blacklisted e =
     (if \<not> ke_Enabled e then []
      else filter (\<lambda>a. \<not> bl_IsBlocked blacklisted a \<and> allowed \<noteq> [] \<and> wl_IsAllowed allowed a) (map fst (ke_Aliases e))
         @ filter (\<lambda>m. m \<noteq> ''*'' \<and> \<not> bl_IsBlocked blacklisted m) (ke_Allowed e))"

definition GetModelsForProvider :: "catalog \<Rightarrow> string \<Rightarrow> string list" where
  "GetModelsForProvider mc provider =
     (let blacklisted = BlacklistedFor (mc_keyconf mc) provider;
          allowed = AllowedFor (mc_keyconf mc) provider;
          liveModels = live_ModelsForProvider (mc_live mc) provider;
          datasheetModels = DatasheetModelsForProvider (mc_datasheet mc) provider;
          out = (if liveModels \<noteq> [] then
                   appendAllowedDatasheetModels liveModels
                     (if provider \<in> providersWithPartialListModels then datasheetModels
                      else DeprecatedDatasheetModelsForProvider (mc_datasheet mc) provider) allowed blacklisted
                 else if datasheetModels \<noteq> [] \<and> allowed \<noteq> []
                 then filter (\<lambda>m. \<not> bl_IsBlocked blacklisted m \<and> wl_IsAllowed allowed m) datasheetModels
                 else [])
      in add_new out (concat (map (entry_names allowed blacklisted) (EntriesFor (mc_keyconf mc) provider))))"

definition GetUnfilteredModelsForProvider :: "catalog \<Rightarrow> string \<Rightarrow> string list" where
  "GetUnfilteredModelsForProvider mc provider =
     (let liveModels = live_UnfilteredModelsForProvider (mc_live mc) provider;
          datasheetModels = DatasheetModelsForProvider (mc_datasheet mc) provider
      in if liveModels = [] then datasheetModels
         else if datasheetModels = [] then liveModels
         else sort (add_new (add_new [] liveModels) datasheetModels))"

subsection \<open>The providers of a model\<close>

definition lists_model :: "(string \<Rightarrow> bool) \<Rightarrow> catalog \<Rightarrow> string \<Rightarrow> string \<Rightarrow> bool" where
  "lists_model known mc model p \<longleftrightarrow>
     (\<exists>m \<in> set (GetModelsForProvider mc p).
        m = model \<or> ds_BaseModelName known (mc_datasheet mc) m = ds_BaseModelName known (mc_datasheet mc) model)"

text \<open>
  The gateways that list models under the name of another provider: \<open>acc\<close> holds the providers
  found and those marked as seen; groq and bedrock are added without the mark.
\<close>

definition add_gateway :: "catalog \<Rightarrow> string \<Rightarrow> string \<Rightarrow> string list \<times> string list \<Rightarrow> string list \<times> string list" where
  "add_gateway mc model g = (\<lambda>(providers, seen).
     if g \<notin> set seen \<and> (\<exists>p \<in> set providers. p @ ''/'' @ model \<in> set (GetModelsForProvider mc g))
     then (providers @ [g], seen @ [g]) else (providers, seen))"

definition add_groq :: "catalog \<Rightarrow> string \<Rightarrow> string list \<times> string list \<Rightarrow> string list \<times> string list" where
  "add_groq mc model = (\<lambda>(providers, seen).
     if ''groq'' \<notin> set seen \<and> str_contains model ''gpt-'' \<and> ''openai/'' @ model \<in> set (GetModelsForProvider mc ''groq'')
     then (providers @ [''groq''], seen) else (providers, seen))"

definition add_bedrock :: "catalog \<Rightarrow> string \<Rightarrow> string list \<times> string list \<Rightarrow> string list \<times> string list" where
  "add_bedrock mc model = (\<lambda>(providers, seen).
     if ''bedrock'' \<notin> set seen \<and> str_contains model ''claude'' \<and>
        (\<exists>m \<in> set (GetModelsForProvider mc ''bedrock''). str_contains m model)
     then (providers @ [''bedrock''], seen) else (providers, seen))"

definition configured_for :: "catalog \<Rightarrow> string \<Rightarrow> string \<Rightarrow> bool" where
  "configured_for mc model p \<longleftrightarrow>
     (let allowed = AllowedFor (mc_keyconf mc) p in
      \<not> bl_IsBlocked (BlacklistedFor (mc_keyconf mc) p) model \<and>
      ((ResolveAlias (mc_keyconf mc) p model \<noteq> None \<and> wl_IsAllowed allowed model) \<or>
       list_contains allowed model \<or>
       (wl_IsUnrestricted allowed \<and> DatasheetModelsForProvider (mc_datasheet mc) p = [] \<and>
        live_UnfilteredModelsForProvider (mc_live mc) p = [])))"

definition add_configured :: "catalog \<Rightarrow> string \<Rightarrow> string list \<times> string list \<Rightarrow> string list \<times> string list" where
  "add_configured mc model acc =
     fold (\<lambda>p (providers, seen).
        if p \<notin> set seen \<and> configured_for mc model p then (providers @ [p], seen @ [p]) else (providers, seen))
       (Providers (mc_keyconf mc)) acc"

definition GetProvidersForModel :: "(string \<Rightarrow> bool) \<Rightarrow> catalog \<Rightarrow> string \<Rightarrow> string list" where
  "GetProvidersForModel known mc model =
     (let found = filter (lists_model known mc model) (knownProviders mc) in
      fst (add_configured mc model (add_bedrock mc model (add_groq mc model
        (add_gateway mc model ''vertex'' (add_gateway mc model ''openrouter'' (found, found)))))))"

text \<open>The view of the catalog that the governance plugin uses.\<close>

definition catalog_view :: "(string \<Rightarrow> bool) \<Rightarrow> (string \<Rightarrow> bool option) \<Rightarrow> catalog \<Rightarrow> model_catalog" where
  "catalog_view known listModelsDisabled mc =
     \<lparr>cat_GetProvidersForModel = GetProvidersForModel known mc, cat_GetModelsForProvider = GetModelsForProvider mc,
      cat_IsKnownProvider = known, cat_ListModelsDisabled = listModelsDisabled\<rparr>"

subsection \<open>What a key serves is found\<close>

lemma gateways_keep:
  "p \<in> set (fst acc) \<Longrightarrow> p \<in> set (fst (add_gateway mc model g acc))"
  "p \<in> set (fst acc) \<Longrightarrow> p \<in> set (fst (add_groq mc model acc))"
  "p \<in> set (fst acc) \<Longrightarrow> p \<in> set (fst (add_bedrock mc model acc))"
  by (auto simp: add_gateway_def add_groq_def add_bedrock_def split: prod.split)

lemma configured_keep: "p \<in> set (fst acc) \<Longrightarrow> p \<in> set (fst (add_configured mc model acc))"
proof -
  have "p \<in> set (fst (fold (\<lambda>p (providers, seen). if p \<notin> set seen \<and> P p then (providers @ [p], seen @ [p]) else (providers, seen)) ps acc))"
    if "p \<in> set (fst acc)" for ps P acc
    using that
  proof (induction ps arbitrary: acc)
    case (Cons q qs)
    show ?case using Cons.prems by (cases acc) (simp add: Cons.IH)
  qed simp
  then show "p \<in> set (fst acc) \<Longrightarrow> p \<in> set (fst (add_configured mc model acc))" by (simp add: add_configured_def)
qed

lemma listed_is_found:
  assumes "p \<in> set (knownProviders mc)" "lists_model known mc model p"
  shows "p \<in> set (GetProvidersForModel known mc model)"
  using assms by (simp add: GetProvidersForModel_def Let_def configured_keep gateways_keep)

lemma configured_is_known: "sm_load (mc_keyconf mc) p = Some st \<Longrightarrow> p \<in> set (knownProviders mc)"
  by (force simp: knownProviders_def Providers_def dest: sm_load_SomeD)

text \<open>
  A model that a key serves is found: if an enabled key of a provider names a model in its allow
  list and does not deny it, the catalog offers the model for the provider, and the provider is among
  the providers of the model.
\<close>

lemma served_models_are_found:
  assumes "keys_valid keys" "sm_load (mc_keyconf mc) p = Some st" "buildState p keys = Some st"
    "k \<in> set keys" "key_enabled k" "model \<in> set (ky_Models k)" "model \<noteq> ''*''" "\<not> bl_IsBlocked (ky_BlacklistedModels k) model"
  shows "model \<in> set (GetModelsForProvider mc p) \<and> p \<in> set (GetProvidersForModel known mc model)"
proof -
  have act: "k \<in> set (active_keys keys)"
    using assms(4,5,8) by (auto simp: active_keys_def bl_IsBlocked_def)
  have nb: "\<not> bl_IsBlocked (BlacklistedFor (mc_keyconf mc) p) model"
    using aggregate_deny [OF assms(1,3) act] assms(2,8) by (auto simp: BlacklistedFor_def)
  have "EntriesFor (mc_keyconf mc) p = map entry_of_key keys"
    using assms(2,3) by (auto simp: EntriesFor_def buildState_def Let_def split: if_splits)
  moreover have "model \<in> set (entry_names a (BlacklistedFor (mc_keyconf mc) p) (entry_of_key k))" for a
    using assms(5-7) nb by (simp add: entry_names_def entry_of_key_def)
  ultimately have m: "model \<in> set (GetModelsForProvider mc p)"
    using assms(4) by (auto simp: GetModelsForProvider_def Let_def)
  then have "lists_model known mc model p" by (auto simp: lists_model_def)
  then show ?thesis using m listed_is_found configured_is_known [OF assms(2)] by blast
qed

definition w_catalog :: catalog where
  "w_catalog = \<lparr>mc_datasheet = empty_datasheet, mc_live = [], mc_keyconf = [(''openai'', w_state)]\<rparr>"

lemma served_models_are_found_witness:
  "''GPT-4o-mini'' \<in> set (GetModelsForProvider w_catalog ''openai'') \<and>
   ''openai'' \<in> set (GetProvidersForModel (\<lambda>p. p = ''openai'') w_catalog ''GPT-4o-mini'')"
proof -
  have v: "keys_valid w_keys" and b: "buildState ''openai'' w_keys = Some w_state" by code_simp+
  have l: "sm_load (mc_keyconf w_catalog) ''openai'' = Some w_state" by (simp add: sm_load_def w_catalog_def)
  have k: "hd w_keys \<in> set w_keys" "key_enabled (hd w_keys)" "''GPT-4o-mini'' \<in> set (ky_Models (hd w_keys))"
    "''GPT-4o-mini'' \<noteq> ''*''" "\<not> bl_IsBlocked (ky_BlacklistedModels (hd w_keys)) ''GPT-4o-mini''"
    by code_simp+
  show ?thesis by (rule served_models_are_found [OF v l b k])
qed

text \<open>
  Outside the cached listing nothing that is denied for the whole provider is offered, and a cached
  listing is passed on as it is.
\<close>

lemma offered_models:
  assumes "m \<in> set (GetModelsForProvider mc p)"
  shows "m \<in> set (live_ModelsForProvider (mc_live mc) p) \<or> \<not> bl_IsBlocked (BlacklistedFor (mc_keyconf mc) p) m"
  using assms by (auto simp: GetModelsForProvider_def Let_def appendAllowedDatasheetModels_def entry_names_def
      split: if_splits)

end
