(* ===== verification/ModelCatalogResolver.thy ===== *)
theory ModelCatalogResolver
  imports ModelCatalog GovPreRequest
begin

text \<open>
  The resolver plugin (plugins/modelcatalogresolver/main.go), which picks a provider from the model
  catalog when no earlier plugin did, and its composition with the governance hook that runs before
  it. Routing logs are left out.
\<close>

definition KeyIntegrationType :: string where "KeyIntegrationType = ''unifai-integration-type''"
definition KeyIsAzureUserAgent :: string where "KeyIsAzureUserAgent = ''unifai-is-azure-user-agent''"

definition integrationTypeToDefaultProvider :: "string smap" where
  "integrationTypeToDefaultProvider = [(''openai'', ''openai''), (''anthropic'', ''anthropic''), (''genai'', ''gemini''),
     (''bedrock'', ''bedrock''), (''cohere'', ''cohere'')]"

definition allowlist :: "gov_ctx option \<Rightarrow> string list option" where
  "allowlist ctx =
     (case ctx of None \<Rightarrow> None
      | Some c \<Rightarrow> (case CtxValue c KeyRoutingAllowedProviders of CStrs l \<Rightarrow> Some l | _ \<Rightarrow> None))"

definition preferred_provider :: "gov_ctx option \<Rightarrow> string option" where
  "preferred_provider ctx =
     (let integrationType = (case ctx of None \<Rightarrow> [] | Some c \<Rightarrow> GetStringFromContext c KeyIntegrationType);
          isAzureUser = (case ctx of None \<Rightarrow> False | Some c \<Rightarrow> CtxValue c KeyIsAzureUserAgent = CBool True)
      in if integrationType = [] then None
         else (case sm_load integrationTypeToDefaultProvider integrationType of
                 None \<Rightarrow> None
               | Some d \<Rightarrow> if d = [] then None
                   else Some (if integrationType = ''openai'' \<and> isAzureUser then ''azure'' else d)))"

definition ResolveProviderFromCatalog ::
  "(string \<Rightarrow> bool) \<Rightarrow> gov_ctx option \<Rightarrow> catalog option \<Rightarrow> string \<Rightarrow> string \<times> string list" where
  "ResolveProviderFromCatalog known ctx cat model =
     (case cat of
        None \<Rightarrow> ([], [])
      | Some mc \<Rightarrow>
          let providers = (if model = [] then [] else sort (GetProvidersForModel known mc model));
              filtered = (case allowlist ctx of None \<Rightarrow> providers | Some l \<Rightarrow> filter (\<lambda>p. p \<in> set l) providers)
          in if filtered = [] then ([], [])
             else ((case preferred_provider ctx of
                      Some pref \<Rightarrow> if pref \<in> set filtered then pref else hd filtered
                    | None \<Rightarrow> hd filtered), filtered))"

definition resolverPreRequestHook :: "(string \<Rightarrow> bool) \<Rightarrow> catalog \<Rightarrow> gov_ctx \<Rightarrow> llm_request \<Rightarrow> gov_ctx \<times> llm_request" where
  "resolverPreRequestHook known mc ctx req =
     (if rq_RequestType req = PassthroughRequest \<or> rq_RequestType req = PassthroughStreamRequest then (ctx, req)
      else
        let (provider, model, existingFallbacks) = GetRequestFields req in
        if provider \<noteq> [] \<or> model = [] then (ctx, req)
        else
          let (selected, candidates) = ResolveProviderFromCatalog known (Some ctx) (Some mc) model in
          if selected = [] then (ctx, req)
          else
            let req1 = SetProvider selected req;
                fallbacks = map (\<lambda>p. \<lparr>fb_Provider = p, fb_Model = model\<rparr>) (filter (\<lambda>p. p \<noteq> selected) candidates);
                req2 = (if existingFallbacks = [] \<and> 1 < length candidates \<and> fallbacks \<noteq> []
                        then SetFallbacks fallbacks req1 else req1)
            in (AppendToContextList ctx KeyRoutingEnginesUsed ''model-catalog'', req2))"

subsection \<open>The pick\<close>

lemma resolved_candidates:
  assumes "ResolveProviderFromCatalog known ctx (Some mc) model = (selected, candidates)"
  shows "set candidates \<subseteq> set (GetProvidersForModel known mc model) \<and> sorted candidates \<and>
    (\<forall>l. allowlist ctx = Some l \<longrightarrow> set candidates \<subseteq> set l) \<and>
    (if candidates = [] then selected = [] else selected \<in> set candidates)"
proof -
  let ?all = "if model = [] then [] else sort (GetProvidersForModel known mc model)"
  define l where "l = (case allowlist ctx of None \<Rightarrow> ?all | Some l \<Rightarrow> filter (\<lambda>p. p \<in> set l) ?all)"
  have r: "candidates = l" "selected = (if l = [] then [] else case preferred_provider ctx of
      Some pref \<Rightarrow> if pref \<in> set l then pref else hd l | None \<Rightarrow> hd l)"
    using assms unfolding ResolveProviderFromCatalog_def Let_def option.case l_def [symmetric]
    by (simp_all split: if_splits)
  have "set l \<subseteq> set (GetProvidersForModel known mc model) \<and> sorted l \<and> (\<forall>a. allowlist ctx = Some a \<longrightarrow> set l \<subseteq> set a)"
    by (auto simp: l_def sorted_wrt_filter split: option.splits)
  then show ?thesis using r by (auto split: option.split)
qed

lemma resolver_fields:
  assumes "inference_request req" "GetRequestFields req = ([], model, fbs)"
    "resolverPreRequestHook known mc ctx req = (ctx', req')" "GetRequestFields req' = (provider, model', fbs')" "provider \<noteq> []"
  obtains candidates where
    "ResolveProviderFromCatalog known (Some ctx) (Some mc) model = (provider, candidates)" "model' = model"
    "fbs \<noteq> [] \<Longrightarrow> fbs' = fbs"
    "fbs = [] \<Longrightarrow> fbs' = map (\<lambda>p. \<lparr>fb_Provider = p, fb_Model = model\<rparr>) (filter (\<lambda>p. p \<noteq> provider) candidates)"
proof -
  obtain sel cand where r: "ResolveProviderFromCatalog known (Some ctx) (Some mc) model = (sel, cand)" by fastforce
  have sel: "sel \<in> set cand" if "sel \<noteq> []" using resolved_candidates [OF r] that by (auto split: if_splits)
  note inf = inference_setters [OF assms(1)] inference_setters(3) [OF inference_setters(4) [OF assms(1)]]
  have np: "rq_RequestType req \<noteq> PassthroughRequest" "rq_RequestType req \<noteq> PassthroughStreamRequest" "model \<noteq> []" "sel \<noteq> []"
    using assms(2-5) r by (auto simp: resolverPreRequestHook_def split: if_splits)
  have few: "filter (\<lambda>p. p \<noteq> sel) cand = []" if "\<not> 1 < length cand"
    using sel [OF np(4)] that by (cases cand) (auto simp: Suc_le_eq)
  have "GetRequestFields req' = (sel, model, if fbs = [] \<and> 1 < length cand \<and> filter (\<lambda>p. p \<noteq> sel) cand \<noteq> []
      then map (\<lambda>p. \<lparr>fb_Provider = p, fb_Model = model\<rparr>) (filter (\<lambda>p. p \<noteq> sel) cand) else fbs)"
    using assms(2,3) r np by (auto simp: resolverPreRequestHook_def inf split: if_splits)
  then show ?thesis using that r few assms(4) by (auto split: if_splits)
qed

subsection \<open>The governance hook first\<close>

lemma rules_keep_kind: "rq_Kind (fst (snd (applyRoutingRules cel d p c req v))) = rq_Kind req"
  by (simp add: applyRoutingRules_def Let_def split: prod.split option.split)

lemma failover_keeps_kind: "rq_Kind (fst (snd (applyCircuitBreakerFailover now p c req))) = rq_Kind req"
  by (simp add: applyCircuitBreakerFailover_def Let_def split: prod.split option.split)

lemma inference_cong: "rq_Kind a = rq_Kind b \<Longrightarrow> inference_request a = inference_request b"
  by (simp add: inference_request_def)

lemma refine_no_provider: "refine p [] model = Inr model"
  by (simp add: refine_def RefineModelForProvider_def split: option.split)

lemma prune_frame:
  "CtxValue (snd (pruneMCPIncludeToolsFromContext gs aa c vk)) KeyRoutingAllowedProviders = CtxValue c KeyRoutingAllowedProviders"
  by (cases "CtxValue c MCPContextKeyIncludeTools") (simp_all add: pruneMCPIncludeToolsFromContext_def routing_keys Let_def)

lemma allowed_providers_frame:
  "CtxValue (AppendToContextList c KeyRoutingEnginesUsed v) KeyRoutingAllowedProviders = CtxValue c KeyRoutingAllowedProviders"
  "CtxValue (CtxSetValue c KeyRoutingPinnedAPIKeyID w) KeyRoutingAllowedProviders = CtxValue c KeyRoutingAllowedProviders"
  "CtxValue (CtxSetValue c MCPContextKeyIncludeTools w) KeyRoutingAllowedProviders = CtxValue c KeyRoutingAllowedProviders"
  by (simp_all add: AppendToContextList_def routing_keys Let_def)

lemma allowed_key_apart: "KeyRoutingAllowedProviders \<noteq> MCPContextKeyIncludeTools"
  by (simp add: routing_keys)

lemma stamp_tools_frame:
  "CtxValue (stamp_tools p c vk) KeyRoutingAllowedProviders = CtxValue c KeyRoutingAllowedProviders"
  unfolding stamp_tools_def Let_def
  by (simp add: case_prod_unfold allowed_key_apart prune_frame)

lemma allowlist_frame [simp]:
  "allowlist (Some (AppendToContextList c KeyRoutingEnginesUsed v)) = allowlist (Some c)"
  "allowlist (Some (CtxSetValue c KeyRoutingPinnedAPIKeyID w)) = allowlist (Some c)"
  "allowlist (Some (stamp_tools p c vk)) = allowlist (Some c)"
  "allowlist (Some (publishRoutingAllowlist c (Some vk) model)) =
     Some (map pc_Provider (filter (permits_model model) (vk_ProviderConfigs vk)))"
  unfolding allowlist_def option.case allowed_providers_frame stamp_tools_frame
  by (simp_all add: publishRoutingAllowlist_def)

text \<open>Load balancing that leaves the provider empty leaves the model and the allowlist.\<close>

lemma balance_nothing:
  assumes "inference_request req" "loadBalanceProvider now d p ctx req vk = Inr (ctx', req')"
    "GetRequestFields req' = ([], model', fbs')"
  shows "fst (snd (GetRequestFields req)) = model' \<and> allowlist (Some ctx') = allowlist (Some ctx) \<and> inference_request req'"
proof -
  obtain provider model fbs where fields: "GetRequestFields req = (provider, model, fbs)" by (metis prod_cases3)
  define w where "w = weighted_configs p (local_iface (rs_store (pp_rules p)) now) ctx vk model"
  define sel where "sel = select_config (hd_provider d) w"
  define c1 where "c1 = (case SelectProviderKey now (hd_key d) sel (pp_lb p) of
      Some i \<Rightarrow> if i \<noteq> [] then CtxSetValue ctx KeyRoutingPinnedAPIKeyID (CStr i) else ctx | None \<Rightarrow> ctx)"
  have "Inr (ctx', req') = (if model = [] \<or> provider \<noteq> [] \<or> (lc_Enabled (lb_cfg (pp_lb p)) \<and> \<not> lc_DirectionSelectionEnabled (lb_cfg (pp_lb p)))
        \<or> vk_ProviderConfigs vk = [] \<or> w = [] then Inr (ctx, req)
      else case refine p sel model of Inl c \<Rightarrow> Inl c
        | Inr m \<Rightarrow> Inr (AppendToContextList c1 KeyRoutingEnginesUsed ''governance'',
            if fbs = [] \<and> 1 < length w then SetFallbacks (lb_fallbacks now p model sel w) (SetModel m (SetProvider sel req))
            else SetModel m (SetProvider sel req)))"
    using assms(2) unfolding loadBalanceProvider_def Let_def fields prod.case w_def [symmetric] sel_def [symmetric] c1_def [symmetric]
    by (auto split: if_splits)
  then consider "ctx' = ctx" "req' = req"
    | m where "refine p sel model = Inr m" "ctx' = AppendToContextList c1 KeyRoutingEnginesUsed ''governance''"
      "req' = SetModel m (SetProvider sel req) \<or> req' = SetFallbacks (lb_fallbacks now p model sel w) (SetModel m (SetProvider sel req))"
    by (auto split: if_splits sum.splits)
  then show ?thesis
  proof cases
    case 1
    then show ?thesis using assms(1,3) by simp
  next
    case 2
    have "allowlist (Some c1) = allowlist (Some ctx)" by (simp add: c1_def split: option.split)
    moreover have k: "rq_Kind req' = rq_Kind req" using 2(3) by auto
    moreover have "GetRequestFields req' = (sel, m, snd (snd (GetRequestFields req')))"
      using 2(3) inference_setters [OF assms(1)] inference_setters(2,5) [OF inference_setters(4) [OF assms(1), of sel]]
        inference_setters(3) [OF inference_setters(5) [OF inference_setters(4) [OF assms(1), of sel]]]
      by auto
    ultimately show ?thesis using 2(1,2) assms(1,3) refine_no_provider [of p model] inference_cong [OF k] by (auto simp: fields)
  qed
qed

text \<open>
  C40. If the governance hook leaves an inference request of a usable virtual key without a provider and
  the resolver then sets one, this provider serves the model in the catalog and belongs to a config of
  the key that permits the model, and the model stays. If the request came to the resolver without
  fallbacks, a list that is explicitly empty included, so does every fallback that the resolver adds, each
  of them another provider. Fallbacks that were there already, from the caller or a routing rule,
  stay as they are and are not held against the key here. Passthrough requests are left out.
\<close>

theorem resolved_provider_within_key:
  assumes "inference_request req" "rq_RequestType req \<notin> {PassthroughRequest, PassthroughStreamRequest}"
    "GetStringFromContext ctx KeyVirtualKey \<noteq> []"
    "GetVirtualKey (rs_store (pp_rules p)) (GetStringFromContext ctx KeyVirtualKey) = Some vk" "usable_vk now (Some vk)"
    "PreRequestHook cel now d p ctx req None = (None, ctx1, req1, meta, p1)"
    "GetRequestFields req1 = ([], model, fbs1)"
    "resolverPreRequestHook known mc ctx1 req1 = (ctx2, req2)"
    "GetRequestFields req2 = (provider, model2, fbs2)" "provider \<noteq> []"
  shows "model2 = model \<and> provider \<in> set (GetProvidersForModel known mc model) \<and>
    (\<exists>pc \<in> set (vk_ProviderConfigs vk). pc_Provider pc = provider \<and> permits_model model pc) \<and>
    (if fbs1 \<noteq> [] then fbs2 = fbs1
     else \<forall>fb \<in> set fbs2. fb_Model fb = model \<and> fb_Provider fb \<noteq> provider \<and>
       fb_Provider fb \<in> set (GetProvidersForModel known mc model) \<and>
       (\<exists>pc \<in> set (vk_ProviderConfigs vk). pc_Provider pc = fb_Provider fb \<and> permits_model model pc))"
proof -
  define p' where "p' = syncCircuitBreakerPoliciesFromStore now p"
  obtain c2 q2 p2 where r: "(c2, q2, p2) = (if HasRoutingRules (rs_store (pp_rules p))
      then applyRoutingRules cel d p' (stampGovernanceCtx (gp_workspace (pp_gov p')) (Some (rs_store (pp_rules p))) ctx (Some vk)) req (Some vk)
      else (stampGovernanceCtx (gp_workspace (pp_gov p')) (Some (rs_store (pp_rules p))) ctx (Some vk), req, p'))"
    by (metis prod_cases3)
  obtain c3 q3 p3 where f: "applyCircuitBreakerFailover now p2 c2 q2 = (c3, q3, p3)" by (metis prod_cases3)
  let ?c4 = "publishRoutingAllowlist c3 (Some vk) (fst (snd (GetRequestFields q3)))"
  have vk: "(if GetStringFromContext ctx KeyVirtualKey = [] then None
      else GetVirtualKey (rs_store (pp_rules p)) (GetStringFromContext ctx KeyVirtualKey)) = Some vk"
    using assms(3,4) by simp
  have "(case loadBalanceProvider now d p3 ?c4 q3 vk of
      Inl e \<Rightarrow> (Some e, ?c4, q3, None, p3) | Inr (c5, q5) \<Rightarrow> (None, stamp_tools p3 c5 vk, q5, None, p3)) = (None, ctx1, req1, meta, p1)"
    using assms(2,3,5,6) unfolding PreRequestHook_def Let_def vk p'_def [symmetric]
    by (simp add: r [symmetric] f)
  then obtain c5 where lb: "loadBalanceProvider now d p3 ?c4 q3 vk = Inr (c5, req1)" and c1: "ctx1 = stamp_tools p3 c5 vk"
    by (auto split: sum.splits prod.splits)
  have "rq_Kind q2 = rq_Kind req"
  proof (cases "HasRoutingRules (rs_store (pp_rules p))")
    case True
    let ?c = "stampGovernanceCtx (gp_workspace (pp_gov p')) (Some (rs_store (pp_rules p))) ctx (Some vk)"
    have "applyRoutingRules cel d p' ?c req (Some vk) = (c2, q2, p2)" using r True by simp
    then show ?thesis using rules_keep_kind [of cel d p' ?c req "Some vk"] by simp
  next
    case False
    then show ?thesis using r by simp
  qed
  then have i3: "inference_request q3"
    using assms(1) failover_keeps_kind [of now p2 c2 q2] f by (simp add: inference_request_def)
  note b = balance_nothing [OF i3 lb assms(7)]
  have al: "allowlist (Some ctx1) = Some (map pc_Provider (filter (permits_model model) (vk_ProviderConfigs vk)))"
    using b by (simp add: c1)
  obtain cand where cand: "ResolveProviderFromCatalog known (Some ctx1) (Some mc) model = (provider, cand)" "model2 = model"
    "fbs1 \<noteq> [] \<Longrightarrow> fbs2 = fbs1"
    "fbs1 = [] \<Longrightarrow> fbs2 = map (\<lambda>p. \<lparr>fb_Provider = p, fb_Model = model\<rparr>) (filter (\<lambda>p. p \<noteq> provider) cand)"
    using resolver_fields [OF _ assms(7-10)] b by blast
  note rc = resolved_candidates [OF cand(1)]
  have in_key: "q \<in> set (GetProvidersForModel known mc model) \<and>
      (\<exists>pc \<in> set (vk_ProviderConfigs vk). pc_Provider pc = q \<and> permits_model model pc)" if "q \<in> set cand" for q
    using rc al that by auto
  have "provider \<in> set cand" using rc assms(10) by (auto split: if_splits)
  then show ?thesis using in_key cand by auto
qed

definition unweighted_vk :: virtual_key where
  "unweighted_vk = sample_vk\<lparr>vk_ProviderConfigs :=
     [sample_pc\<lparr>pc_Provider := ''openai'', pc_Weight := None, pc_AllowedModels := [''*'']\<rparr>,
      sample_pc\<lparr>pc_ID := 2, pc_Provider := ''azure'', pc_Weight := None, pc_AllowedModels := [''o1'']\<rparr>]\<rparr>"

definition unbalanced_plugin :: "cel_expr pre_plugin" where
  "unbalanced_plugin = balancing_plugin\<lparr>pp_rules :=
     \<lparr>rs_store = storeVirtualKey sample_store ''sk-uf-1'' unweighted_vk, rs_programs = []\<rparr>\<rparr>"

definition two_provider_catalog :: catalog where
  "two_provider_catalog = \<lparr>mc_datasheet = empty_datasheet,
     mc_live = [(\<lparr>lk_Provider = ''azure'', lk_KeyID = [], lk_Unfiltered = False\<rparr>, [''gpt'']),
       (\<lparr>lk_Provider = ''openai'', lk_KeyID = [], lk_Unfiltered = False\<rparr>, [''gpt''])], mc_keyconf = []\<rparr>"

theorem resolved_provider_within_key_witness:
  "GetProvidersForModel (\<lambda>p. p \<in> {''openai'', ''azure''}) two_provider_catalog ''gpt'' = [''azure'', ''openai''] \<and>
   (\<exists>pc \<in> set (vk_ProviderConfigs unweighted_vk). pc_Provider pc = ''openai'' \<and> permits_model ''gpt'' pc)"
proof -
  let ?known = "\<lambda>p. p \<in> {''openai'', ''azure''}"
  let ?gov = "PreRequestHook tiny_cel 1 zero_draws unbalanced_plugin vk_ctx chat_request None"
  have g: "(case ?gov of (e, c, q, m, _) \<Rightarrow> e = None \<and> m = None \<and> GetRequestFields q = ([], ''gpt'', []) \<and>
      GetRequestFields (snd (resolverPreRequestHook ?known two_provider_catalog c q)) = (''openai'', ''gpt'', []))" by code_simp
  obtain e c q m p1 where run: "?gov = (e, c, q, m, p1)" by (metis prod_cases5)
  have q: "GetRequestFields q = ([], ''gpt'', [])" and e: "?gov = (None, c, q, None, p1)"
    and res: "GetRequestFields (snd (resolverPreRequestHook ?known two_provider_catalog c q)) = (''openai'', ''gpt'', [])"
    using g run by simp_all
  have inf: "inference_request chat_request" "rq_RequestType chat_request \<notin> {PassthroughRequest, PassthroughStreamRequest}"
    "GetStringFromContext vk_ctx KeyVirtualKey \<noteq> []" "usable_vk 1 (Some unweighted_vk)" by code_simp+
  have key: "GetVirtualKey (rs_store (pp_rules unbalanced_plugin)) (GetStringFromContext vk_ctx KeyVirtualKey) = Some unweighted_vk"
    by (simp add: unbalanced_plugin_def vk_ctx_def GetVirtualKey_def storeVirtualKey_def GetStringFromContext_def Let_def)
  have "\<exists>pc \<in> set (vk_ProviderConfigs unweighted_vk). pc_Provider pc = ''openai'' \<and> permits_model ''gpt'' pc"
    using resolved_provider_within_key [OF inf(1-3) key inf(4) e q prod.collapse [symmetric] res] by simp
  moreover have "GetProvidersForModel ?known two_provider_catalog ''gpt'' = [''azure'', ''openai'']" by code_simp
  ultimately show ?thesis by blast
qed

end
