(* ===== verification/KvStore.thy ===== *)
theory KvStore
  imports GovStore GoStrings
begin

text \<open>
  The in-memory key-value store with expiry and its last-write-wins replication
  (framework/kvstore/kvstore.go), behind the interface of core/schemas/kvstore.go. A stored
  value is of the dynamic type string, byte slice, or any other one; the JSON encoder of the
  replication delegate is a parameter kept in the store, and what the delegate is told is the
  list \<open>kv_notes\<close>. Each operation is one uninterrupted call; where the code reads the
  clock twice, both instants are arguments.
\<close>

subsection \<open>State\<close>

datatype kv_error = ErrClosed | ErrEmptyKey | ErrNotFound | ErrInvalidTTL | ErrMarshal

datatype 'a kv_value = KvString string | KvBytes string | KvOther 'a

record 'a kv_entry =
  en_value :: "'a kv_value"
  en_writtenAt :: int
  en_expiresAt :: int

datatype kv_note = OnSet string string int int | OnDelete string int

record 'a kv_store =
  kv_data :: "'a kv_entry smap"
  kv_defaultTTL :: int
  kv_closed :: bool
  kv_delegate :: "('a kv_value \<Rightarrow> string option) option"
  kv_decoders :: "(string \<Rightarrow> 'a kv_value option) smap"
  kv_notes :: "kv_note list"

definition kv_New :: "int \<Rightarrow> kv_error + 'a kv_store" where
  "kv_New defaultTTL =
     (if defaultTTL < 0 then Inl ErrInvalidTTL
      else Inr \<lparr>kv_data = [], kv_defaultTTL = defaultTTL, kv_closed = False, kv_delegate = None,
                kv_decoders = [], kv_notes = []\<rparr>)"

definition SetDelegate :: "('a kv_value \<Rightarrow> string option) \<Rightarrow> 'a kv_store \<Rightarrow> 'a kv_store" where
  "SetDelegate d s = s\<lparr>kv_delegate := Some d\<rparr>"

definition RegisterDecoder ::
  "string \<Rightarrow> (string \<Rightarrow> 'a kv_value option) \<Rightarrow> 'a kv_store \<Rightarrow> 'a kv_store" where
  "RegisterDecoder keyPrefix decoder s = s\<lparr>kv_decoders := sm_store keyPrefix decoder (kv_decoders s)\<rparr>"

definition isExpired :: "'a kv_entry \<Rightarrow> int \<Rightarrow> bool" where
  "isExpired e now \<longleftrightarrow> en_expiresAt e \<noteq> 0 \<and> en_expiresAt e \<le> now"

subsection \<open>Local operations\<close>

definition validateMutable :: "'a kv_store \<Rightarrow> string \<Rightarrow> int \<Rightarrow> kv_error option" where
  "validateMutable s key ttl =
     (if key = '''' then Some ErrEmptyKey
      else if ttl < 0 then Some ErrInvalidTTL
      else if kv_closed s then Some ErrClosed
      else None)"

definition expiry :: "int \<Rightarrow> int \<Rightarrow> int" where
  "expiry now ttl = (if 0 < ttl then wrap64 (now + ttl) else 0)"

definition notify :: "kv_note \<Rightarrow> 'a kv_store \<Rightarrow> 'a kv_store" where
  "notify m s = (if kv_delegate s = None then s else s\<lparr>kv_notes := kv_notes s @ [m]\<rparr>)"

definition encode :: "'a kv_store \<Rightarrow> 'a kv_value \<Rightarrow> string option" where
  "encode s v = (case kv_delegate s of None \<Rightarrow> Some '''' | Some d \<Rightarrow> d v)"

definition put_entry :: "string \<Rightarrow> 'a kv_entry \<Rightarrow> 'a kv_store \<Rightarrow> 'a kv_store" where
  "put_entry key e s = s\<lparr>kv_data := sm_store key e (kv_data s)\<rparr>"

definition drop_entry :: "string \<Rightarrow> 'a kv_store \<Rightarrow> 'a kv_store" where
  "drop_entry key s = s\<lparr>kv_data := sm_delete key (kv_data s)\<rparr>"

definition SetWithTTL ::
  "'a kv_store \<Rightarrow> int \<Rightarrow> string \<Rightarrow> 'a kv_value \<Rightarrow> int \<Rightarrow> 'a kv_store \<times> kv_error option" where
  "SetWithTTL s now key value ttl =
     (case validateMutable s key ttl of
        Some e \<Rightarrow> (s, Some e)
      | None \<Rightarrow>
          (case encode s value of
             None \<Rightarrow> (s, Some ErrMarshal)
           | Some json \<Rightarrow>
               (notify (OnSet key json now (expiry now ttl))
                  (put_entry key \<lparr>en_value = value, en_writtenAt = now, en_expiresAt = expiry now ttl\<rparr> s),
                None)))"

definition kv_Set :: "'a kv_store \<Rightarrow> int \<Rightarrow> string \<Rightarrow> 'a kv_value \<Rightarrow> 'a kv_store \<times> kv_error option" where
  "kv_Set s now key value = SetWithTTL s now key value (kv_defaultTTL s)"

definition live_at :: "'a kv_store \<Rightarrow> string \<Rightarrow> int \<Rightarrow> bool" where
  "live_at s key now = (case sm_load (kv_data s) key of None \<Rightarrow> False | Some e \<Rightarrow> \<not> isExpired e now)"

definition SetNXWithTTL ::
  "'a kv_store \<Rightarrow> int \<Rightarrow> string \<Rightarrow> 'a kv_value \<Rightarrow> int \<Rightarrow> 'a kv_store \<times> (kv_error + bool)" where
  "SetNXWithTTL s now key value ttl =
     (case validateMutable s key ttl of
        Some e \<Rightarrow> (s, Inl e)
      | None \<Rightarrow>
          (case encode s value of
             None \<Rightarrow> (s, Inl ErrMarshal)
           | Some json \<Rightarrow>
               if live_at s key now then (s, Inr False)
               else (notify (OnSet key json now (expiry now ttl))
                  (put_entry key \<lparr>en_value = value, en_writtenAt = now, en_expiresAt = expiry now ttl\<rparr> s),
                Inr True)))"

definition kv_Get :: "'a kv_store \<Rightarrow> int \<Rightarrow> int \<Rightarrow> string \<Rightarrow> 'a kv_store \<times> (kv_error + 'a kv_value)" where
  "kv_Get s now now' key =
     (if key = '''' then (s, Inl ErrEmptyKey)
      else if kv_closed s then (s, Inl ErrClosed)
      else case sm_load (kv_data s) key of
             None \<Rightarrow> (s, Inl ErrNotFound)
           | Some e \<Rightarrow>
               if isExpired e now
               then ((if isExpired e now' then drop_entry key s else s), Inl ErrNotFound)
               else (s, Inr (en_value e)))"

definition GetAndDelete :: "'a kv_store \<Rightarrow> int \<Rightarrow> string \<Rightarrow> 'a kv_store \<times> (kv_error + 'a kv_value)" where
  "GetAndDelete s now key =
     (if key = '''' then (s, Inl ErrEmptyKey)
      else if kv_closed s then (s, Inl ErrClosed)
      else case sm_load (kv_data s) key of
             None \<Rightarrow> (s, Inl ErrNotFound)
           | Some e \<Rightarrow>
               if isExpired e now then (drop_entry key s, Inl ErrNotFound)
               else (notify (OnDelete key now) (drop_entry key s), Inr (en_value e)))"

definition kv_Delete :: "'a kv_store \<Rightarrow> int \<Rightarrow> string \<Rightarrow> 'a kv_store \<times> (kv_error + bool)" where
  "kv_Delete s deletedAt key =
     (if key = '''' then (s, Inl ErrEmptyKey)
      else if kv_closed s then (s, Inl ErrClosed)
      else if sm_load (kv_data s) key = None then (s, Inr False)
      else (notify (OnDelete key deletedAt) (drop_entry key s), Inr True))"

definition kv_Len :: "'a kv_store \<Rightarrow> int \<Rightarrow> nat" where
  "kv_Len s now = (if kv_closed s then 0 else length (filter (\<lambda>(_, e). \<not> isExpired e now) (kv_data s)))"

definition kv_Close :: "'a kv_store \<Rightarrow> 'a kv_store" where
  "kv_Close s = s\<lparr>kv_closed := True\<rparr>"

definition cleanupExpired :: "'a kv_store \<Rightarrow> int \<Rightarrow> 'a kv_store" where
  "cleanupExpired s now = s\<lparr>kv_data := filter (\<lambda>(_, e). \<not> isExpired e now) (kv_data s)\<rparr>"

subsection \<open>Replicated operations\<close>

definition better_decoder ::
  "string \<Rightarrow> string \<times> (string \<Rightarrow> 'a kv_value option) \<Rightarrow> string \<times> (string \<Rightarrow> 'a kv_value option) option \<Rightarrow>
   string \<times> (string \<Rightarrow> 'a kv_value option) option" where
  "better_decoder key pd best =
     (if has_prefix key (fst pd) \<and> length (fst best) < length (fst pd) then (fst pd, Some (snd pd)) else best)"

definition decodeValue :: "'a kv_store \<Rightarrow> string \<Rightarrow> string \<Rightarrow> 'a kv_value" where
  "decodeValue s key valueJSON =
     (case snd (fold (better_decoder key) (kv_decoders s) ('''', None)) of
        None \<Rightarrow> KvBytes valueJSON
      | Some d \<Rightarrow> (case d valueJSON of None \<Rightarrow> KvBytes valueJSON | Some v \<Rightarrow> v))"

definition newer_than :: "'a kv_store \<Rightarrow> string \<Rightarrow> int \<Rightarrow> bool" where
  "newer_than s key t = (case sm_load (kv_data s) key of None \<Rightarrow> False | Some e \<Rightarrow> t < en_writtenAt e)"

definition SetRemote ::
  "'a kv_store \<Rightarrow> string \<Rightarrow> string \<Rightarrow> int \<Rightarrow> int \<Rightarrow> 'a kv_store \<times> kv_error option" where
  "SetRemote s key valueJSON writtenAt expiresAt =
     (if key = '''' then (s, Some ErrEmptyKey)
      else if kv_closed s then (s, Some ErrClosed)
      else if newer_than s key writtenAt then (s, None)
      else (put_entry key \<lparr>en_value = decodeValue s key valueJSON, en_writtenAt = writtenAt,
                            en_expiresAt = expiresAt\<rparr> s, None))"

definition DeleteRemote :: "'a kv_store \<Rightarrow> string \<Rightarrow> int \<Rightarrow> 'a kv_store \<times> kv_error option" where
  "DeleteRemote s key deletedAt =
     (if key = '''' then (s, Some ErrEmptyKey)
      else if kv_closed s then (s, Some ErrClosed)
      else if newer_than s key deletedAt then (s, None)
      else (drop_entry key s, None))"

subsection \<open>The store as a map whose entries expire\<close>

datatype 'a kv_op =
    OpSet string "'a kv_value" int
  | OpSetNX string "'a kv_value" int
  | OpGet string
  | OpTake string
  | OpDelete string
  | OpSweep

datatype 'a kv_answer = AErr kv_error | ADone | ABool bool | AVal "'a kv_value"

definition run_op :: "'a kv_store \<Rightarrow> int \<Rightarrow> 'a kv_op \<Rightarrow> 'a kv_store \<times> 'a kv_answer" where
  "run_op s now c =
     (case c of
        OpSet k v ttl \<Rightarrow> (let (s', e) = SetWithTTL s now k v ttl
                         in (s', case e of None \<Rightarrow> ADone | Some x \<Rightarrow> AErr x))
      | OpSetNX k v ttl \<Rightarrow> (let (s', r) = SetNXWithTTL s now k v ttl in (s', case_sum AErr ABool r))
      | OpGet k \<Rightarrow> (let (s', r) = kv_Get s now now k in (s', case_sum AErr AVal r))
      | OpTake k \<Rightarrow> (let (s', r) = GetAndDelete s now k in (s', case_sum AErr AVal r))
      | OpDelete k \<Rightarrow> (let (s', r) = kv_Delete s now k in (s', case_sum AErr ABool r))
      | OpSweep \<Rightarrow> (cleanupExpired s now, ADone))"

fun run_ops :: "'a kv_store \<Rightarrow> (int \<times> 'a kv_op) list \<Rightarrow> 'a kv_store \<times> 'a kv_answer list" where
  "run_ops s [] = (s, [])"
| "run_ops s ((now, c) # cs) =
     (let (s', a) = run_op s now c; (s'', as) = run_ops s' cs in (s'', a # as))"

type_synonym 'a expiring = "string \<Rightarrow> ('a kv_value \<times> int) option"

definition gone :: "int \<Rightarrow> int \<Rightarrow> bool" where
  "gone now x \<longleftrightarrow> x \<noteq> 0 \<and> x \<le> now"

definition seen :: "'a expiring \<Rightarrow> int \<Rightarrow> string \<Rightarrow> ('a kv_value \<times> int) option" where
  "seen M now k = (case M k of None \<Rightarrow> None | Some (v, x) \<Rightarrow> if gone now x then None else Some (v, x))"

definition spec_guard ::
  "('a kv_value \<Rightarrow> bool) \<Rightarrow> bool \<Rightarrow> string \<Rightarrow> 'a kv_value option \<Rightarrow> int \<Rightarrow> kv_error option" where
  "spec_guard enc shut k v ttl =
     (if k = '''' then Some ErrEmptyKey
      else if ttl < 0 then Some ErrInvalidTTL
      else if shut then Some ErrClosed
      else case v of None \<Rightarrow> None | Some v \<Rightarrow> if enc v then None else Some ErrMarshal)"

text \<open>An operation of the abstract map and the answers it allows. Only the delete of an entry whose
  time has come leaves a choice: the store may or may not have swept the entry.\<close>

definition delete_answers :: "('a kv_value \<times> int) option \<Rightarrow> int \<Rightarrow> 'a kv_answer set" where
  "delete_answers x now =
     (case x of None \<Rightarrow> {ABool False}
      | Some (v, t) \<Rightarrow> if gone now t then {ABool False, ABool True} else {ABool True})"

definition spec_op ::
  "('a kv_value \<Rightarrow> bool) \<Rightarrow> bool \<Rightarrow> 'a expiring \<Rightarrow> int \<Rightarrow> 'a kv_op \<Rightarrow> 'a expiring \<times> 'a kv_answer set" where
  "spec_op enc shut M now c =
     (case c of
        OpSet k v ttl \<Rightarrow>
          (case spec_guard enc shut k (Some v) ttl of
             Some e \<Rightarrow> (M, {AErr e})
           | None \<Rightarrow> (M(k \<mapsto> (v, expiry now ttl)), {ADone}))
      | OpSetNX k v ttl \<Rightarrow>
          (case spec_guard enc shut k (Some v) ttl of
             Some e \<Rightarrow> (M, {AErr e})
           | None \<Rightarrow> if seen M now k \<noteq> None then (M, {ABool False})
                     else (M(k \<mapsto> (v, expiry now ttl)), {ABool True}))
      | OpGet k \<Rightarrow>
          (case spec_guard enc shut k None 0 of
             Some e \<Rightarrow> (M, {AErr e})
           | None \<Rightarrow> (M, case seen M now k of None \<Rightarrow> {AErr ErrNotFound} | Some (v, _) \<Rightarrow> {AVal v}))
      | OpTake k \<Rightarrow>
          (case spec_guard enc shut k None 0 of
             Some e \<Rightarrow> (M, {AErr e})
           | None \<Rightarrow> (M(k := None), case seen M now k of None \<Rightarrow> {AErr ErrNotFound} | Some (v, _) \<Rightarrow> {AVal v}))
      | OpDelete k \<Rightarrow>
          (case spec_guard enc shut k None 0 of
             Some e \<Rightarrow> (M, {AErr e})
           | None \<Rightarrow> (M(k := None), delete_answers (M k) now))
      | OpSweep \<Rightarrow> (M, {ADone}))"

fun spec_ops ::
  "('a kv_value \<Rightarrow> bool) \<Rightarrow> bool \<Rightarrow> 'a expiring \<Rightarrow> (int \<times> 'a kv_op) list \<Rightarrow>
   'a expiring \<times> 'a kv_answer set list" where
  "spec_ops enc shut M [] = (M, [])"
| "spec_ops enc shut M ((now, c) # cs) =
     (let (M', a) = spec_op enc shut M now c; (M'', as) = spec_ops enc shut M' cs in (M'', a # as))"

definition encodable :: "'a kv_store \<Rightarrow> 'a kv_value \<Rightarrow> bool" where
  "encodable s v \<longleftrightarrow> encode s v \<noteq> None"

definition raw :: "'a kv_store \<Rightarrow> 'a expiring" where
  "raw s k = map_option (\<lambda>e. (en_value e, en_expiresAt e)) (sm_load (kv_data s) k)"

definition kv_wf :: "'a kv_store \<Rightarrow> bool" where
  "kv_wf s \<longleftrightarrow> sm_wf (kv_data s) \<and> sm_load (kv_data s) '''' = None"

text \<open>From \<open>now\<close> on the store shows exactly what the abstract map shows, and it holds no other
  entries than the map.\<close>

definition shows_map :: "int \<Rightarrow> 'a kv_store \<Rightarrow> 'a expiring \<Rightarrow> bool" where
  "shows_map now s M \<longleftrightarrow> (\<forall>k. seen (raw s) now k = seen M now k) \<and> dom (raw s) \<subseteq> dom M"

lemma gone_mono: "gone now x \<Longrightarrow> now \<le> t \<Longrightarrow> gone t x"
  by (simp add: gone_def)

lemma seen_mono: "seen M now k = seen N now k \<Longrightarrow> now \<le> t \<Longrightarrow> seen M t k = seen N t k"
  by (auto simp: seen_def gone_mono split: option.splits if_splits)

lemma shows_map_mono: "shows_map now s M \<Longrightarrow> now \<le> t \<Longrightarrow> shows_map t s M"
  unfolding shows_map_def by (meson seen_mono)

lemma sm_load_filter_wf:
  "sm_wf m \<Longrightarrow> sm_load (filter (\<lambda>(_, e). p e) m) k = (case sm_load m k of None \<Rightarrow> None | Some e \<Rightarrow> if p e then Some e else None)"
  by (induction m) (auto simp: sm_load_def sm_wf_def map_of_eq_None_iff split: option.splits)

lemma sm_wf_filter: "sm_wf m \<Longrightarrow> sm_wf (filter p m)"
  by (simp add: sm_wf_def distinct_map_filter)

lemma isExpired_gone: "isExpired e now = gone now (en_expiresAt e)"
  by (simp add: isExpired_def gone_def)

lemma notify_fields [simp]:
  "kv_data (notify m s) = kv_data s" "kv_closed (notify m s) = kv_closed s"
  "kv_delegate (notify m s) = kv_delegate s" "kv_decoders (notify m s) = kv_decoders s"
  by (simp_all add: notify_def)

lemma kv_entry_fields [simp]:
  "kv_data (put_entry k e s) = sm_store k e (kv_data s)" "kv_closed (put_entry k e s) = kv_closed s"
  "kv_delegate (put_entry k e s) = kv_delegate s" "kv_decoders (put_entry k e s) = kv_decoders s"
  "kv_data (drop_entry k s) = sm_delete k (kv_data s)" "kv_closed (drop_entry k s) = kv_closed s"
  "kv_delegate (drop_entry k s) = kv_delegate s" "kv_decoders (drop_entry k s) = kv_decoders s"
  by (simp_all add: put_entry_def drop_entry_def)

lemma raw_update [simp]:
  "raw (notify m s) = raw s"
  "raw (put_entry k e s) = (raw s)(k \<mapsto> (en_value e, en_expiresAt e))"
  "raw (drop_entry k s) = (raw s)(k := None)"
  by (auto simp: raw_def)

lemma seen_upd [simp]:
  "seen (M(k \<mapsto> e)) now k' = (if k' = k then (if gone now (snd e) then None else Some e) else seen M now k')"
  "seen (M(k := None)) now k' = (if k' = k then None else seen M now k')"
  by (auto simp: seen_def split: prod.splits)

lemma seen_raw:
  "seen (raw s) now k =
     (case sm_load (kv_data s) k of
        None \<Rightarrow> None | Some e \<Rightarrow> if isExpired e now then None else Some (en_value e, en_expiresAt e))"
  by (simp add: seen_def raw_def isExpired_gone split: option.splits)

lemma live_at_seen: "live_at s k now \<longleftrightarrow> seen (raw s) now k \<noteq> None"
  by (simp add: live_at_def seen_raw split: option.splits)

lemma guard_validateMutable:
  "spec_guard (encodable s) (kv_closed s) k (Some v) ttl =
     (case validateMutable s k ttl of Some e \<Rightarrow> Some e
      | None \<Rightarrow> if encode s v = None then Some ErrMarshal else None)"
  by (simp add: spec_guard_def validateMutable_def encodable_def)

lemma shows_mapD: "shows_map now s M \<Longrightarrow> seen (raw s) now k = seen M now k"
  by (simp add: shows_map_def)

lemma shows_map_upd [intro]:
  "shows_map now s M \<Longrightarrow> shows_map now (put_entry k e s) (M(k \<mapsto> (en_value e, en_expiresAt e)))"
  "shows_map now s M \<Longrightarrow> shows_map now (drop_entry k s) (M(k := None))"
  "shows_map now s M \<Longrightarrow> shows_map now (notify m s) M"
  by (auto simp: shows_map_def)

lemma shows_map_drop_expired:
  assumes "shows_map now s M" "seen (raw s) now k = None"
  shows "shows_map now (drop_entry k s) M"
  using assms by (auto simp: shows_map_def)

lemma kv_wf_upd [intro]:
  "kv_wf s \<Longrightarrow> k \<noteq> '''' \<Longrightarrow> kv_wf (put_entry k e s)"
  "kv_wf s \<Longrightarrow> kv_wf (drop_entry k s)"
  "kv_wf s \<Longrightarrow> kv_wf (notify m s)"
  by (simp_all add: kv_wf_def)

lemma sweep_fields:
  "kv_closed (cleanupExpired s now) = kv_closed s" "kv_delegate (cleanupExpired s now) = kv_delegate s"
  by (simp_all add: cleanupExpired_def)

lemma seen_sweep: "kv_wf s \<Longrightarrow> seen (raw (cleanupExpired s now)) now k = seen (raw s) now k"
  by (auto simp: seen_raw cleanupExpired_def kv_wf_def sm_load_filter_wf split: option.splits)

lemma kv_wf_sweep: "kv_wf s \<Longrightarrow> kv_wf (cleanupExpired s now)"
  by (simp add: kv_wf_def cleanupExpired_def sm_load_filter_wf sm_wf_filter)

lemmas kv_ops = run_op_def SetWithTTL_def SetNXWithTTL_def kv_Get_def GetAndDelete_def kv_Delete_def
lemmas kv_splits = kv_op.splits option.splits if_splits sum.splits prod.splits

lemma run_op_frame:
  "kv_closed (fst (run_op s now c)) = kv_closed s" "kv_delegate (fst (run_op s now c)) = kv_delegate s"
  by (auto simp: kv_ops sweep_fields Let_def split: kv_splits)

lemma run_op_encodable: "encodable (fst (run_op s now c)) = encodable s"
  by (simp add: encodable_def encode_def fun_eq_iff run_op_frame)

lemma run_op_wf: "kv_wf s \<Longrightarrow> kv_wf (fst (run_op s now c))"
  by (auto simp: kv_ops validateMutable_def kv_wf_sweep Let_def split: kv_splits)

lemma mutation_answer:
  assumes "shows_map now s M"
  shows "snd (run_op s now (OpSet k v ttl)) \<in> snd (spec_op (encodable s) (kv_closed s) M now (OpSet k v ttl))"
    "snd (run_op s now (OpSetNX k v ttl)) \<in> snd (spec_op (encodable s) (kv_closed s) M now (OpSetNX k v ttl))"
  using shows_mapD [OF assms]
  by (auto simp: run_op_def SetWithTTL_def SetNXWithTTL_def spec_op_def guard_validateMutable live_at_seen
      split: option.splits)

lemma lookup_answer:
  assumes "shows_map now s M"
  shows "snd (run_op s now (OpGet k)) \<in> snd (spec_op (encodable s) (kv_closed s) M now (OpGet k))"
    "snd (run_op s now (OpTake k)) \<in> snd (spec_op (encodable s) (kv_closed s) M now (OpTake k))"
  using shows_mapD [OF assms, of k]
  by (auto simp: run_op_def kv_Get_def GetAndDelete_def spec_op_def spec_guard_def seen_raw
      split: option.splits if_splits)

lemma delete_answer:
  assumes "shows_map now s M"
  shows "snd (run_op s now (OpDelete k)) \<in> snd (spec_op (encodable s) (kv_closed s) M now (OpDelete k))"
proof -
  have "(case sm_load (kv_data s) k of None \<Rightarrow> ABool False | Some _ \<Rightarrow> ABool True) \<in> delete_answers (M k) now"
  proof (cases "sm_load (kv_data s) k")
    case None
    then have "seen M now k = None" using shows_mapD [OF assms, of k] by (simp add: seen_raw)
    with None show ?thesis by (auto simp: delete_answers_def seen_def split: option.splits if_splits)
  next
    case (Some e)
    then have "M k \<noteq> None" using assms by (force simp: shows_map_def raw_def)
    with Some show ?thesis by (auto simp: delete_answers_def)
  qed
  then show ?thesis by (auto simp: run_op_def kv_Delete_def spec_op_def spec_guard_def split: option.splits)
qed

lemma run_op_answer:
  "shows_map now s M \<Longrightarrow> snd (run_op s now c) \<in> snd (spec_op (encodable s) (kv_closed s) M now c)"
  by (cases c) (simp_all add: mutation_answer lookup_answer delete_answer, simp add: run_op_def spec_op_def)

lemma mutation_shows:
  assumes "shows_map now s M"
  shows "shows_map now (fst (run_op s now (OpSet k v ttl)))
           (fst (spec_op (encodable s) (kv_closed s) M now (OpSet k v ttl)))"
    "shows_map now (fst (run_op s now (OpSetNX k v ttl)))
           (fst (spec_op (encodable s) (kv_closed s) M now (OpSetNX k v ttl)))"
  using assms
  by (auto simp: run_op_def SetWithTTL_def SetNXWithTTL_def spec_op_def guard_validateMutable live_at_seen
      shows_map_def split: option.splits)

lemma lookup_shows:
  assumes "shows_map now s M"
  shows "shows_map now (fst (run_op s now (OpGet k))) (fst (spec_op (encodable s) (kv_closed s) M now (OpGet k)))"
    "shows_map now (fst (run_op s now (OpTake k))) (fst (spec_op (encodable s) (kv_closed s) M now (OpTake k)))"
    "shows_map now (fst (run_op s now (OpDelete k))) (fst (spec_op (encodable s) (kv_closed s) M now (OpDelete k)))"
proof -
  have e: "\<And>k. seen (raw s) now k = seen M now k" and d: "dom (raw s) \<subseteq> dom M"
    using assms by (simp_all add: shows_map_def)
  have no: "sm_load (kv_data s) k = None \<Longrightarrow> seen M now k = None \<and> dom (raw s) \<subseteq> dom M - {k}"
    using d e [of k] by (auto simp: seen_raw raw_def)
  have ex: "sm_load (kv_data s) k = Some x \<Longrightarrow> isExpired x now \<Longrightarrow> seen M now k = None" for x
    using e [of k] by (simp add: seen_raw)
  show "shows_map now (fst (run_op s now (OpGet k))) (fst (spec_op (encodable s) (kv_closed s) M now (OpGet k)))"
    and "shows_map now (fst (run_op s now (OpTake k))) (fst (spec_op (encodable s) (kv_closed s) M now (OpTake k)))"
    and "shows_map now (fst (run_op s now (OpDelete k))) (fst (spec_op (encodable s) (kv_closed s) M now (OpDelete k)))"
    using d no ex
    by (auto simp: run_op_def kv_Get_def GetAndDelete_def kv_Delete_def spec_op_def spec_guard_def shows_map_def e
        split: option.splits)
qed

lemma run_op_shows:
  assumes "kv_wf s" "shows_map now s M"
  shows "shows_map now (fst (run_op s now c)) (fst (spec_op (encodable s) (kv_closed s) M now c))"
proof (cases "c = OpSweep")
  case True
  have "dom (raw (cleanupExpired s now)) \<subseteq> dom (raw s)"
    using assms(1) by (auto simp: raw_def cleanupExpired_def kv_wf_def sm_load_filter_wf split: option.splits)
  with assms(2) have "dom (raw (cleanupExpired s now)) \<subseteq> dom M" unfolding shows_map_def by blast
  with True assms show ?thesis
    by (simp add: run_op_def spec_op_def shows_map_def seen_sweep)
next
  case False
  with assms show ?thesis by (cases c) (simp_all add: mutation_shows lookup_shows)
qed

fun clock_runs :: "int \<Rightarrow> (int \<times> 'b) list \<Rightarrow> bool" where
  "clock_runs t [] \<longleftrightarrow> True"
| "clock_runs t ((now, c) # cs) \<longleftrightarrow> t \<le> now \<and> clock_runs now cs"

lemma run_ops_answers:
  "kv_wf s \<Longrightarrow> shows_map t s M \<Longrightarrow> clock_runs t cs \<Longrightarrow>
   list_all2 (\<in>) (snd (run_ops s cs)) (snd (spec_ops (encodable s) (kv_closed s) M cs))"
proof (induction cs arbitrary: t s M)
  case (Cons x cs)
  obtain now c where [simp]: "x = (now, c)" by (cases x)
  from Cons.prems have "shows_map now s M" by (auto intro: shows_map_mono)
  with Cons.prems show ?case
    using Cons.IH [of "fst (run_op s now c)" now "fst (spec_op (encodable s) (kv_closed s) M now c)"]
    by (simp add: run_op_wf run_op_shows run_op_answer run_op_frame run_op_encodable split_beta Let_def)
qed simp

subsection \<open>Replication: the last write wins\<close>

text \<open>A set that another node announces, and its delivery.\<close>

record remote_set =
  rs_key :: string
  rs_json :: string
  rs_writtenAt :: int
  rs_expiresAt :: int

definition deliver :: "remote_set \<Rightarrow> 'a kv_store \<Rightarrow> 'a kv_store" where
  "deliver m s = fst (SetRemote s (rs_key m) (rs_json m) (rs_writtenAt m) (rs_expiresAt m))"

text \<open>What happens at a node that takes part: sets arrive, the sweeper runs, entries are looked up.\<close>

datatype node_event = Arrive remote_set | Sweep int | Look int string

fun node_step :: "node_event \<Rightarrow> 'a kv_store \<Rightarrow> 'a kv_store" where
  "node_step (Arrive m) s = deliver m s"
| "node_step (Sweep now) s = cleanupExpired s now"
| "node_step (Look now k) s = fst (kv_Get s now now k)"

fun arrivals :: "node_event list \<Rightarrow> remote_set list" where
  "arrivals [] = []"
| "arrivals (Arrive m # es) = m # arrivals es"
| "arrivals (Sweep now # es) = arrivals es"
| "arrivals (Look now k # es) = arrivals es"

fun instants :: "node_event list \<Rightarrow> int set" where
  "instants [] = {}"
| "instants (Arrive m # es) = instants es"
| "instants (Sweep now # es) = insert now (instants es)"
| "instants (Look now k # es) = insert now (instants es)"

text \<open>While these events happen no entry reaches its time.\<close>

definition unexpired :: "'a kv_store \<Rightarrow> remote_set list \<Rightarrow> int set \<Rightarrow> bool" where
  "unexpired s ms ts \<longleftrightarrow>
     (\<forall>t\<in>ts. (\<forall>(k, e)\<in>set (kv_data s). \<not> isExpired e t) \<and> (\<forall>m\<in>set ms. \<not> gone t (rs_expiresAt m)))"

definition entry_of_set :: "'a kv_store \<Rightarrow> remote_set \<Rightarrow> 'a kv_entry" where
  "entry_of_set s m = \<lparr>en_value = decodeValue s (rs_key m) (rs_json m), en_writtenAt = rs_writtenAt m,
     en_expiresAt = rs_expiresAt m\<rparr>"

lemma decodeValue_put [simp]: "decodeValue (put_entry k e s) = decodeValue s"
  by (simp add: decodeValue_def fun_eq_iff)

lemma deliver_frame [simp]:
  "decodeValue (deliver m s) = decodeValue s" "kv_closed (deliver m s) = kv_closed s"
  by (simp_all add: deliver_def SetRemote_def)

lemma entry_of_set_deliver [simp]: "entry_of_set (deliver m s) = entry_of_set s"
  by (simp add: entry_of_set_def fun_eq_iff)

text \<open>What a key holds after one more set: the newer of the entry it had and the one announced.\<close>

definition newest :: "'a kv_entry option \<Rightarrow> 'a kv_entry \<Rightarrow> 'a kv_entry option" where
  "newest old e = (case old of None \<Rightarrow> Some e
     | Some o' \<Rightarrow> if en_writtenAt e < en_writtenAt o' then Some o' else Some e)"

lemma load_deliver:
  "sm_load (kv_data (deliver m s)) k =
     (if k = rs_key m \<and> k \<noteq> '''' \<and> \<not> kv_closed s then newest (sm_load (kv_data s) k) (entry_of_set s m)
      else sm_load (kv_data s) k)"
  by (auto simp: deliver_def SetRemote_def entry_of_set_def newest_def newer_than_def split: option.splits)

lemma load_deliver_all:
  assumes "k \<noteq> ''''" "\<not> kv_closed s"
  shows "sm_load (kv_data (fold deliver ms s)) k =
    fold (\<lambda>e x. newest x e) (map (entry_of_set s) (filter (\<lambda>m. rs_key m = k) ms)) (sm_load (kv_data s) k)"
  using assms
proof (induction ms arbitrary: s)
  case (Cons m ms)
  then show ?case by (simp add: load_deliver)
qed simp

lemma load_deliver_none:
  "k = '''' \<or> kv_closed s \<Longrightarrow> sm_load (kv_data (fold deliver ms s)) k = sm_load (kv_data s) k"
proof (induction ms arbitrary: s)
  case (Cons m ms)
  then show ?case by (auto simp: load_deliver)
qed simp

definition stamps_of :: "'a kv_entry option \<Rightarrow> int set" where
  "stamps_of x = (case x of None \<Rightarrow> {} | Some e \<Rightarrow> {en_writtenAt e})"

text \<open>With stamps apart the winner is the entry with the greatest stamp, in whatever order.\<close>

definition is_newest :: "'a kv_entry option \<Rightarrow> 'a kv_entry set \<Rightarrow> 'a kv_entry option \<Rightarrow> bool" where
  "is_newest x es w \<longleftrightarrow>
     (case w of
        None \<Rightarrow> es = {} \<and> x = None
      | Some w \<Rightarrow> (w \<in> es \<or> x = Some w) \<and>
          (\<forall>e \<in> es \<union> set_option x. en_writtenAt e \<le> en_writtenAt w))"

lemma newest_fold:
  "is_newest x (set es) (fold (\<lambda>e x. newest x e) es x)"
proof (induction es arbitrary: x)
  case (Cons e es)
  show ?case
    using Cons.IH [of "newest x e"]
    by (cases x) (fastforce simp: is_newest_def newest_def split: option.splits if_splits)+
qed (simp add: is_newest_def split: option.splits)

lemma is_newest_unique:
  assumes "inj_on en_writtenAt (es \<union> set_option x)" "is_newest x es v" "is_newest x es w"
  shows "v = w"
proof (cases v)
  case None
  with assms show ?thesis by (auto simp: is_newest_def split: option.splits)
next
  case (Some a)
  with assms(2,3) obtain b where b: "w = Some b"
    by (cases w) (auto simp: is_newest_def)
  from assms(2,3) Some b have "en_writtenAt a = en_writtenAt b" "a \<in> es \<union> set_option x" "b \<in> es \<union> set_option x"
    by (auto simp: is_newest_def intro: antisym)
  with assms(1) Some b show ?thesis by (metis inj_onD)
qed

text \<open>No two sets of one key, and none and what is stored, carry the same stamp.\<close>

definition stamps_apart :: "'a kv_store \<Rightarrow> remote_set list \<Rightarrow> bool" where
  "stamps_apart s ms \<longleftrightarrow>
     (\<forall>m\<in>set ms. \<forall>n\<in>set ms. rs_key m = rs_key n \<and> rs_writtenAt m = rs_writtenAt n \<longrightarrow> m = n) \<and>
     (\<forall>m\<in>set ms. \<forall>e. sm_load (kv_data s) (rs_key m) = Some e \<longrightarrow> en_writtenAt e \<noteq> rs_writtenAt m)"

lemma cleanup_unexpired: "\<forall>(k, e)\<in>set (kv_data s). \<not> isExpired e t \<Longrightarrow> cleanupExpired s t = s"
proof -
  assume "\<forall>(k, e)\<in>set (kv_data s). \<not> isExpired e t"
  then have "filter (\<lambda>(_, e). \<not> isExpired e t) (kv_data s) = kv_data s" by (induction "kv_data s") (auto intro: filter_True)
  then show ?thesis by (simp add: cleanupExpired_def)
qed

lemma look_unexpired: "\<forall>(k, e)\<in>set (kv_data s). \<not> isExpired e t \<Longrightarrow> fst (kv_Get s t t k) = s"
  by (auto simp: kv_Get_def sm_load_def split: option.splits dest: map_of_SomeD)

lemma set_update_subset: "set (AList.update k v xs) \<subseteq> insert (k, v) (set xs)"
  by (induction xs) auto

lemma deliver_data:
  "set (kv_data (deliver m s)) \<subseteq> insert (rs_key m, entry_of_set s m) (set (kv_data s))"
  using set_update_subset [of "rs_key m" "entry_of_set s m" "kv_data s"]
  by (auto simp: deliver_def SetRemote_def entry_of_set_def sm_store_def)

lemma unexpired_deliver: "unexpired s (m # ms) ts \<Longrightarrow> unexpired (deliver m s) ms ts"
  using deliver_data [of m s]
  by (fastforce simp: unexpired_def isExpired_gone entry_of_set_def)

text \<open>Until an entry reaches its time only the arrivals matter.\<close>

lemma only_arrivals_matter:
  "unexpired s (arrivals es) (instants es) \<Longrightarrow> fold node_step es s = fold deliver (arrivals es) s"
proof (induction es arbitrary: s)
  case (Cons e es)
  show ?case
  proof (cases e)
    case (Arrive m)
    with Cons show ?thesis by (simp add: unexpired_deliver)
  next
    case (Sweep t)
    with Cons show ?thesis by (simp add: unexpired_def cleanup_unexpired)
  next
    case (Look t k)
    with Cons show ?thesis by (simp add: unexpired_def look_unexpired)
  qed
qed simp

lemma deliveries_converge:
  assumes apart: "stamps_apart s ms" and same: "set ms = set ns"
  shows "sm_load (kv_data (fold deliver ms s)) k = sm_load (kv_data (fold deliver ns s)) k"
proof (cases "k = '''' \<or> kv_closed s")
  case False
  let ?es = "\<lambda>ms. map (entry_of_set s) (filter (\<lambda>m. rs_key m = k) ms)"
  let ?x = "sm_load (kv_data s) k"
  have one: "rs_key m = k \<Longrightarrow> rs_key n = k \<Longrightarrow> m \<in> set ms \<Longrightarrow> n \<in> set ms \<Longrightarrow> rs_writtenAt m = rs_writtenAt n \<Longrightarrow> m = n"
    for m n using apart unfolding stamps_apart_def by metis
  have "inj_on en_writtenAt (set (?es ms))"
  proof (rule inj_onI)
    fix e f assume "e \<in> set (?es ms)" "f \<in> set (?es ms)" and eq: "en_writtenAt e = en_writtenAt f"
    then obtain m n where "m \<in> set ms" "rs_key m = k" "n \<in> set ms" "rs_key n = k"
      and ef: "e = entry_of_set s m" "f = entry_of_set s n" by auto
    with eq have "m = n" by (intro one) (simp_all add: entry_of_set_def)
    with ef show "e = f" by simp
  qed
  then have "inj_on en_writtenAt (set (?es ms) \<union> set_option ?x)"
    using apart unfolding stamps_apart_def by (cases ?x) (auto simp: inj_on_insert entry_of_set_def)
  moreover have "set (?es ns) = set (?es ms)" using same by simp
  ultimately have "fold (\<lambda>e x. newest x e) (?es ms) ?x = fold (\<lambda>e x. newest x e) (?es ns) ?x"
    by (metis is_newest_unique newest_fold)
  with False show ?thesis by (simp add: load_deliver_all)
qed (simp add: load_deliver_none)

subsection \<open>Properties\<close>

text \<open>
  C8. Whatever sequence of sets, conditional sets, lookups, takes, deletes and background sweeps
  is run while the clock does not go back, every answer, errors included, is one that a map whose
  entries disappear when their time comes allows. The map allows one answer, save for the delete of
  an entry whose time has come and that was not replaced since: the store answers there whether the
  entry was still stored, so by this answer alone a sweep can be observed
  (\<open>delete_sees_sweep\<close>).\<close>

theorem kv_refines_expiring_map:
  assumes "kv_wf s" "clock_runs t cs"
  shows "list_all2 (\<in>) (snd (run_ops s cs)) (snd (spec_ops (encodable s) (kv_closed s) (raw s) cs))"
  using assms by (intro run_ops_answers) (simp_all add: shows_map_def)

definition w_store :: "nat kv_store" where
  "w_store = \<lparr>kv_data = [], kv_defaultTTL = 0, kv_closed = False, kv_delegate = None, kv_decoders = [],
     kv_notes = []\<rparr>"

definition w_ops :: "(int \<times> nat kv_op) list" where
  "w_ops = [(1, OpSet ''a'' (KvString ''x'') 5), (2, OpSetNX ''a'' (KvString ''y'') 5), (3, OpGet ''a''),
     (6, OpSweep), (7, OpGet ''a''), (8, OpSetNX ''a'' (KvString ''z'') 0), (9, OpTake ''a''),
     (9, OpDelete ''a'')]"

theorem kv_refines_expiring_map_witness:
  "list_all2 (\<in>) (snd (run_ops w_store w_ops)) (snd (spec_ops (encodable w_store) False (raw w_store) w_ops)) \<and>
   snd (run_ops w_store w_ops) =
     [ADone, ABool False, AVal (KvString ''x''), ADone, AErr ErrNotFound, ABool True, AVal (KvString ''z''),
      ABool False]"
proof
  have "kv_wf w_store" "clock_runs 0 w_ops" "\<not> kv_closed w_store"
    by (simp_all add: w_store_def w_ops_def kv_wf_def)
  then show "list_all2 (\<in>) (snd (run_ops w_store w_ops))
      (snd (spec_ops (encodable w_store) False (raw w_store) w_ops))"
    using kv_refines_expiring_map [of w_store 0 w_ops] by simp
  show "snd (run_ops w_store w_ops) =
     [ADone, ABool False, AVal (KvString ''x''), ADone, AErr ErrNotFound, ABool True, AVal (KvString ''z''),
      ABool False]"
    by code_simp
qed

text \<open>The one answer that tells whether an expired entry was swept.\<close>

lemma delete_sees_sweep:
  "snd (run_ops w_store [(1, OpSet ''a'' (KvString ''x'') 5), (7, OpDelete ''a'')]) = [ADone, ABool True]"
  "snd (run_ops w_store [(1, OpSet ''a'' (KvString ''x'') 5), (7, OpSweep), (7, OpDelete ''a'')]) =
     [ADone, ADone, ABool False]"
  by code_simp+

text \<open>
  C24. Two nodes that start alike and receive the same replicated sets hold the same entries, in
  whatever order the sets arrive, however often each is repeated, and wherever sweeps and lookups
  come in between, as long as no two different sets of one key, and no set and the entry stored at
  the start, carry the same stamp, and no entry reaches its time at a sweep or lookup. Both conditions are
  needed: what \<open>sweep_lets_older_set_in\<close> shows for the second.\<close>

theorem remote_sets_converge:
  assumes "stamps_apart s (arrivals es)" "set (arrivals es) = set (arrivals fs)"
    "unexpired s (arrivals es) (instants es \<union> instants fs)"
  shows "sm_load (kv_data (fold node_step es s)) k = sm_load (kv_data (fold node_step fs s)) k"
proof -
  have "unexpired s (arrivals es) (instants es)" "unexpired s (arrivals fs) (instants fs)"
    using assms(2,3) by (auto simp: unexpired_def)
  with assms(1,2) show ?thesis
    by (simp add: only_arrivals_matter deliveries_converge)
qed

definition w_set1 :: remote_set where
  "w_set1 = \<lparr>rs_key = ''a'', rs_json = ''1'', rs_writtenAt = 10, rs_expiresAt = 0\<rparr>"

definition w_set2 :: remote_set where
  "w_set2 = \<lparr>rs_key = ''a'', rs_json = ''2'', rs_writtenAt = 20, rs_expiresAt = 50\<rparr>"

theorem remote_sets_converge_witness:
  "sm_load (kv_data (fold node_step [Arrive w_set1, Sweep 12, Arrive w_set2] w_store)) ''a'' =
     sm_load (kv_data (fold node_step [Arrive w_set2, Look 13 ''a'', Arrive w_set1, Arrive w_set2] w_store)) ''a'' \<and>
   sm_load (kv_data (fold node_step [Arrive w_set1, Sweep 12, Arrive w_set2] w_store)) ''a'' =
     Some \<lparr>en_value = KvBytes ''2'', en_writtenAt = 20, en_expiresAt = 50\<rparr>"
proof
  have "stamps_apart w_store (arrivals [Arrive w_set1, Sweep 12, Arrive w_set2])"
    "unexpired w_store (arrivals [Arrive w_set1, Sweep 12, Arrive w_set2])
       (instants [Arrive w_set1, Sweep 12, Arrive w_set2] \<union>
        instants [Arrive w_set2, Look 13 ''a'', Arrive w_set1, Arrive w_set2])"
    by (auto simp: stamps_apart_def unexpired_def gone_def w_set1_def w_set2_def w_store_def)
  then show "sm_load (kv_data (fold node_step [Arrive w_set1, Sweep 12, Arrive w_set2] w_store)) ''a'' =
     sm_load (kv_data (fold node_step [Arrive w_set2, Look 13 ''a'', Arrive w_set1, Arrive w_set2] w_store)) ''a''"
    by (intro remote_sets_converge) auto
qed code_simp

text \<open>A sweep between the arrivals erases the stamp of an entry whose time has come: an older set
  that arrives after it is stored, and refused where it arrives before.\<close>

lemma sweep_lets_older_set_in:
  "sm_load (kv_data (fold node_step [Arrive w_set2, Sweep 60, Arrive w_set1] (w_store :: nat kv_store))) ''a'' =
     Some \<lparr>en_value = KvBytes ''1'', en_writtenAt = 10, en_expiresAt = 0\<rparr>"
  "sm_load (kv_data (fold node_step [Arrive w_set1, Arrive w_set2, Sweep 60] (w_store :: nat kv_store))) ''a'' = None"
  by code_simp+

text \<open>A delete leaves no trace, so a set that is older than the delete but arrives after it stores
  the entry again: the outcome depends on the order of arrival.\<close>

lemma stale_set_undoes_delete:
  "let s = deliver w_set1 (w_store :: nat kv_store) in
   sm_load (kv_data (fst (DeleteRemote s ''a'' 15))) ''a'' = None \<and>
   sm_load (kv_data (deliver w_set1 (fst (DeleteRemote w_store ''a'' 15)))) ''a'' \<noteq> None"
  by code_simp

text \<open>A decoder registered under the empty prefix is never chosen.\<close>

lemma empty_prefix_ignored:
  "fold (better_decoder key) (('''', d) # ds) best = fold (better_decoder key) ds best"
  by (simp add: better_decoder_def)

end
