(* ===== verification/KeySelection.thy ===== *)
theory KeySelection
  imports KvStore KeyConfig LlmRequest "HOL-Library.List_Lexorder" "HOL-Library.Char_ord"
begin

text \<open>
  The choice of the provider keys that a request may use (core/unifai.go, core/utils.go and
  core/keyselectors/weightedrandom.go): the filters, the pins, the keys kept for a session in a
  key-value store, and the weighted choice. The account, the hash and the selector are
  parameters; the store is any implementation of the interface core/schemas/kvstore.go, whose
  laws are the locale \<open>session_store\<close>, interpreted here on the store of \<open>KvStore\<close>.
\<close>

subsection \<open>Keys of a provider\<close>

text \<open>The provider-specific part of a key, as far as its validation and the selection read it.\<close>

record api_key = key +
  ak_Name :: string
  ak_Value :: string
  ak_Weight :: float64
  ak_UseForBatchAPI :: "bool option"
  ak_AzureEndpoint :: "string option"
  ak_HasBedrock :: bool
  ak_HasBedrockMantle :: bool
  ak_HasVertex :: bool
  ak_VLLM :: "(string \<times> string) option"
  ak_OllamaURL :: "string option"
  ak_SGLURL :: "string option"

definition zero_key :: api_key where
  "zero_key = \<lparr>ky_ID = '''', ky_Enabled = None, ky_Models = [], ky_BlacklistedModels = [], ky_Aliases = [],
     ak_Name = '''', ak_Value = '''', ak_Weight = 0, ak_UseForBatchAPI = None, ak_AzureEndpoint = None,
     ak_HasBedrock = False, ak_HasBedrockMantle = False, ak_HasVertex = False, ak_VLLM = None,
     ak_OllamaURL = None, ak_SGLURL = None\<rparr>"

definition validateKey :: "string \<Rightarrow> api_key \<Rightarrow> string + api_key" where
  "validateKey base k =
     (if base = ''azure'' then
        (case ak_AzureEndpoint k of
           None \<Rightarrow> Inl ''azure_key_config is required''
         | Some e \<Rightarrow> if e = [] then Inl ''azure_key_config.endpoint is required'' else Inr k)
      else if base = ''bedrock'' then Inr (k\<lparr>ak_HasBedrock := True\<rparr>)
      else if base = ''bedrock_mantle'' then Inr (k\<lparr>ak_HasBedrockMantle := True\<rparr>)
      else if base = ''vertex'' then
        (if ak_HasVertex k then Inr k else Inl ''vertex_key_config is required'')
      else if base = ''vllm'' then
        (case ak_VLLM k of
           None \<Rightarrow> Inl ''vllm_key_config is required''
         | Some (u, _) \<Rightarrow> if u = [] then Inl ''vllm_key_config.url is required'' else Inr k)
      else if base = ''ollama'' then
        (case ak_OllamaURL k of
           None \<Rightarrow> Inl ''ollama_key_config is required''
         | Some u \<Rightarrow> if u = [] then Inl ''ollama_key_config.url is required'' else Inr k)
      else if base = ''sgl'' then
        (case ak_SGLURL k of
           None \<Rightarrow> Inl ''sgl_key_config is required''
         | Some u \<Rightarrow> if u = [] then Inl ''sgl_key_config.url is required'' else Inr k)
      else Inr k)"

definition CanProviderKeyValueBeEmpty :: "string \<Rightarrow> bool" where
  "CanProviderKeyValueBeEmpty p \<longleftrightarrow>
     p \<in> set [''vertex'', ''bedrock'', ''bedrock_mantle'', ''vllm'', ''azure'', ''ollama'', ''sgl'']"

definition isKeySkippingAllowed :: "string \<Rightarrow> bool" where
  "isKeySkippingAllowed p \<longleftrightarrow> p \<notin> set [''azure'', ''bedrock'', ''bedrock_mantle'', ''vertex'']"

subsection \<open>Classes of requests\<close>

definition isBatchRequestType :: "request_type \<Rightarrow> bool" where
  "isBatchRequestType t \<longleftrightarrow> t \<in> set [''batch_create'', ''batch_list'', ''batch_retrieve'', ''batch_cancel'',
     ''batch_delete'', ''batch_results'']"

definition isFileRequestType :: "request_type \<Rightarrow> bool" where
  "isFileRequestType t \<longleftrightarrow> t \<in> set [''file_upload'', ''file_list'', ''file_retrieve'', ''file_delete'',
     ''file_content'']"

definition isCachedContentRequestType :: "request_type \<Rightarrow> bool" where
  "isCachedContentRequestType t \<longleftrightarrow> t \<in> set [''cached_content_create'', ''cached_content_list'',
     ''cached_content_retrieve'', ''cached_content_update'', ''cached_content_delete'']"

definition isContainerRequestType :: "request_type \<Rightarrow> bool" where
  "isContainerRequestType t \<longleftrightarrow> t \<in> set [''container_create'', ''container_list'', ''container_retrieve'',
     ''container_delete'', ''container_file_create'', ''container_file_list'', ''container_file_retrieve'',
     ''container_file_content'', ''container_file_delete'']"

definition isModellessVideoRequestType :: "request_type \<Rightarrow> bool" where
  "isModellessVideoRequestType t \<longleftrightarrow> t \<in> set [''video_retrieve'', ''video_download'', ''video_list'',
     ''video_delete'', ''video_remix'']"

definition isPassthroughRequestType :: "request_type \<Rightarrow> bool" where
  "isPassthroughRequestType t \<longleftrightarrow> t = PassthroughRequest \<or> t = PassthroughStreamRequest"

definition isResponsesLifecycleRequestType :: "request_type \<Rightarrow> bool" where
  "isResponsesLifecycleRequestType t \<longleftrightarrow> t \<in> set [''responses_retrieve'', ''responses_delete'',
     ''responses_cancel'', ''responses_input_items'']"

definition skip_model_check :: "request_type \<Rightarrow> string \<Rightarrow> bool" where
  "skip_model_check t model \<longleftrightarrow>
     (model = [] \<and> (isFileRequestType t \<or> isBatchRequestType t \<or> isContainerRequestType t \<or>
        isCachedContentRequestType t \<or> isModellessVideoRequestType t \<or> isPassthroughRequestType t)) \<or>
     t = ListModelsRequest \<or> isResponsesLifecycleRequestType t"

subsection \<open>Filters\<close>

definition key_disabled :: "api_key \<Rightarrow> bool" where
  "key_disabled k \<longleftrightarrow> ky_Enabled k = Some False"

definition has_key_value :: "string \<Rightarrow> api_key \<Rightarrow> bool" where
  "has_key_value base k \<longleftrightarrow> str_trim (ak_Value k) \<noteq> [] \<or> CanProviderKeyValueBeEmpty base"

definition batch_enabled :: "api_key \<Rightarrow> bool" where
  "batch_enabled k \<longleftrightarrow> ak_UseForBatchAPI k = Some True"

definition model_supported :: "string \<Rightarrow> string \<Rightarrow> api_key \<Rightarrow> bool" where
  "model_supported base model k \<longleftrightarrow>
     has_key_value base k \<and> wl_IsAllowed (ky_Models k) model \<and> \<not> bl_IsBlocked (ky_BlacklistedModels k) model \<and>
     (case ak_VLLM k of
        Some (_, name) \<Rightarrow> base = ''vllm'' \<and> name \<noteq> [] \<longrightarrow> name = model
      | None \<Rightarrow> True)"

text \<open>One turn of a filter loop: the key as validated, when it is kept.\<close>

definition keep_key :: "string \<Rightarrow> (api_key \<Rightarrow> bool) \<Rightarrow> api_key \<Rightarrow> api_key option" where
  "keep_key base p k =
     (if key_disabled k then None
      else case validateKey base k of
             Inl _ \<Rightarrow> None
           | Inr k' \<Rightarrow> if p k' then Some k' else None)"

definition filter_keys :: "string \<Rightarrow> (api_key \<Rightarrow> bool) \<Rightarrow> api_key list \<Rightarrow> api_key list" where
  "filter_keys base p keys = List.map_filter (keep_key base p) keys"

definition supported_keys :: "string \<Rightarrow> request_type \<Rightarrow> string \<Rightarrow> api_key list \<Rightarrow> api_key list" where
  "supported_keys base t model keys =
     (if skip_model_check t model then filter_keys base (has_key_value base) keys
      else filter_keys base (model_supported base model) keys)"

datatype key_error =
    AccountError string
  | NoKeysForProvider string
  | NoKeysForModel string string
  | NoValidKeys string
  | NoBatchKeys string
  | NoBatchKeysForModel string string
  | NoKeySupports string
  | NoKeyWithID string
  | NoKeyWithName string
  | SelectorError string

definition filterKeysByID :: "api_key list \<Rightarrow> string \<Rightarrow> api_key list" where
  "filterKeysByID keys target = filter (\<lambda>k. ky_ID k = target) keys"

definition getAllSupportedKeys ::
  "api_key option \<Rightarrow> (string \<Rightarrow> string + api_key list) \<Rightarrow> string \<Rightarrow> string \<Rightarrow> key_error + api_key list" where
  "getAllSupportedKeys direct account provider base =
     (case direct of
        Some k \<Rightarrow> Inr [k]
      | None \<Rightarrow>
          (case account provider of
             Inl e \<Rightarrow> Inl (AccountError e)
           | Inr keys \<Rightarrow>
               if keys = [] then Inl (NoKeysForProvider provider)
               else let supported = filter_keys base (has_key_value base) keys
                    in if supported = [] then Inl (NoValidKeys provider) else Inr supported))"

text \<open>Sorting by identifier is deterministic for distinct identifiers only; \<open>sort_key\<close> is stable.\<close>

definition getKeysForBatchAndFileOps ::
  "api_key option \<Rightarrow> (string \<Rightarrow> string + api_key list) \<Rightarrow> string \<Rightarrow> string \<Rightarrow> string option \<Rightarrow> bool \<Rightarrow>
   key_error + api_key list" where
  "getKeysForBatchAndFileOps direct account provider base model isBatchOp =
     (case direct of
        Some k \<Rightarrow> Inr [k]
      | None \<Rightarrow>
          (case account provider of
             Inl e \<Rightarrow> Inl (AccountError e)
           | Inr keys \<Rightarrow>
               if keys = [] then Inl (NoKeysForProvider provider)
               else
                 let ok = \<lambda>k. (case model of
                              Some m \<Rightarrow> m = [] \<or> \<not> (bl_IsBlocked (ky_BlacklistedModels k) m \<or> \<not> wl_IsAllowed (ky_Models k) m)
                            | None \<Rightarrow> True) \<and> has_key_value base k;
                     kept = filter_keys base ok (if isBatchOp then filter batch_enabled keys else keys)
                 in if kept = []
                    then (if isBatchOp then Inl (NoBatchKeysForModel provider (opt_str model))
                          else Inl (NoKeysForModel provider (opt_str model)))
                    else Inr (sort_key ky_ID kept)))"

subsection \<open>The weighted selector\<close>

text \<open>The conversion of a float to an int drops the fraction; a selector that fails to draw panics.\<close>

definition go_trunc :: "float64 \<Rightarrow> int" where
  "go_trunc x = (if 0 \<le> x then \<lfloor>x\<rfloor> else \<lceil>x\<rceil>)"

definition weight_of :: "api_key \<Rightarrow> int" where
  "weight_of k = go_trunc (ak_Weight k * 100)"

fun pick_weighted :: "int \<Rightarrow> int \<Rightarrow> api_key list \<Rightarrow> api_key option" where
  "pick_weighted r cur [] = None"
| "pick_weighted r cur (k # ks) =
     (let cur' = cur + weight_of k in if r < cur' then Some k else pick_weighted r cur' ks)"

text \<open>\<open>draw n\<close> is the result of \<^verbatim>\<open>rand.Intn(n)\<close>; for a non-positive \<open>n\<close> that call panics, \<open>None\<close> here.\<close>

definition WeightedRandom :: "(int \<Rightarrow> int) \<Rightarrow> api_key list \<Rightarrow> api_key option" where
  "WeightedRandom draw keys =
     (let total' = sum_list (map weight_of keys)
      in if total' = 0
         then (if keys = [] then None else Some (keys ! nat (draw (int (length keys)))))
         else if total' < 0 then None
         else (case pick_weighted (draw total') 0 keys of
                 Some k \<Rightarrow> Some k
               | None \<Rightarrow> Some (hd keys)))"

lemma pick_weighted_SomeD:
  "pick_weighted r cur ks = Some k \<Longrightarrow> cur \<le> r \<Longrightarrow> k \<in> set ks \<and> 0 < weight_of k"
  by (induction r cur ks rule: pick_weighted.induct) (auto simp: Let_def split: if_splits)

lemma pick_weighted_total:
  "r < cur + sum_list (map weight_of ks) \<Longrightarrow> cur \<le> r \<Longrightarrow> pick_weighted r cur ks \<noteq> None"
  by (induction r cur ks rule: pick_weighted.induct) (auto simp: Let_def algebra_simps)

text \<open>A draw in range picks a key of the pool, and one of positive weight unless the weights sum to zero.\<close>

lemma WeightedRandom_sound:
  assumes "\<And>n. 0 < n \<Longrightarrow> 0 \<le> draw n \<and> draw n < n" "WeightedRandom draw keys = Some k"
  shows "k \<in> set keys \<and> (sum_list (map weight_of keys) \<noteq> 0 \<longrightarrow> 0 < weight_of k)"
proof -
  let ?t = "sum_list (map weight_of keys)"
  show ?thesis
  proof (cases "?t = 0")
    case True
    with assms(2) have ne: "keys \<noteq> []" and k: "k = keys ! nat (draw (int (length keys)))"
      by (auto simp: WeightedRandom_def split: if_splits)
    from assms(1) [of "int (length keys)"] ne have "nat (draw (int (length keys))) < length keys" by auto
    with True k show ?thesis by simp
  next
    case False
    with assms(2) have pos: "0 < ?t" by (auto simp: WeightedRandom_def Let_def split: if_splits)
    with assms(1) [of ?t] have "pick_weighted (draw ?t) 0 keys \<noteq> None" by (intro pick_weighted_total) auto
    with assms False pos have "pick_weighted (draw ?t) 0 keys = Some k"
      by (auto simp: WeightedRandom_def split: option.splits)
    with assms(1) [of ?t] pos show ?thesis using pick_weighted_SomeD by blast
  qed
qed

subsection \<open>Keys kept for a session\<close>

record ('s, 'a) kv_iface =
  if_Get :: "int \<Rightarrow> 's \<Rightarrow> string \<Rightarrow> 's \<times> (kv_error + 'a kv_value)"
  if_SetWithTTL :: "int \<Rightarrow> 's \<Rightarrow> string \<Rightarrow> 'a kv_value \<Rightarrow> int \<Rightarrow> 's \<times> kv_error option"
  if_SetNXWithTTL :: "int \<Rightarrow> 's \<Rightarrow> string \<Rightarrow> 'a kv_value \<Rightarrow> int \<Rightarrow> 's \<times> (kv_error + bool)"
  if_Delete :: "int \<Rightarrow> 's \<Rightarrow> string \<Rightarrow> 's \<times> (kv_error + bool)"

definition buildSessionKey :: "(string \<Rightarrow> string) \<Rightarrow> string \<Rightarrow> string \<Rightarrow> string \<Rightarrow> string" where
  "buildSessionKey hashSHA256 provider sessionID model =
     ''session:'' @ provider @ '':'' @ hashSHA256 sessionID @ '':'' @
     hashSHA256 (if model = [] then ''__modelless__'' else model)"

datatype cached = Cached api_key | Stale | NotCached

text \<open>Of the two encodings of a byte slice, JSON decoding is a parameter with the slice itself as fallback.\<close>

definition cached_id :: "(string \<Rightarrow> string option) \<Rightarrow> 'a kv_value \<Rightarrow> string" where
  "cached_id unjson v =
     (case v of
        KvString s \<Rightarrow> s
      | KvBytes b \<Rightarrow> (case unjson b of Some s \<Rightarrow> s | None \<Rightarrow> b)
      | KvOther _ \<Rightarrow> [])"

definition getCachedKeyFromStore ::
  "('s, 'a) kv_iface \<Rightarrow> (string \<Rightarrow> string option) \<Rightarrow> int \<Rightarrow> 's \<Rightarrow> string \<Rightarrow> api_key list \<Rightarrow> 's \<times> cached" where
  "getCachedKeyFromStore kv unjson now s kvKey supported =
     (case if_Get kv now s kvKey of
        (s', Inl _) \<Rightarrow> (s', NotCached)
      | (s', Inr v) \<Rightarrow>
          (let i = cached_id unjson v
           in (s', if i = [] then NotCached
                   else case find (\<lambda>k. ky_ID k = i) supported of Some k \<Rightarrow> Cached k | None \<Rightarrow> Stale)))"

definition DefaultSessionStickyTTL :: int where "DefaultSessionStickyTTL = 3600 * 10 ^ 9"

text \<open>
  \<open>others\<close> is what other requests do to the store between the lookup of the key of the session
  and the conditional set.
\<close>

definition sticky_key ::
  "('s, 'a) kv_iface \<Rightarrow> (string \<Rightarrow> string option) \<Rightarrow> (api_key list \<Rightarrow> string + api_key) \<Rightarrow> int \<Rightarrow>
   ('s \<Rightarrow> 's) \<Rightarrow> string \<Rightarrow> int \<Rightarrow> api_key list \<Rightarrow> 's \<Rightarrow> 's \<times> (key_error + api_key)" where
  "sticky_key kv unjson selector now others kvKey ttl supported s =
     (case getCachedKeyFromStore kv unjson now s kvKey supported of
        (s1, Cached k) \<Rightarrow> (fst (if_SetWithTTL kv now s1 kvKey (KvString (ky_ID k)) ttl), Inr k)
      | (s1, c) \<Rightarrow>
          (let s2 = others (if c = Stale then fst (if_Delete kv now s1 kvKey) else s1)
           in case selector supported of
                Inl e \<Rightarrow> (s2, Inl (SelectorError e))
              | Inr k \<Rightarrow>
                  (case if_SetNXWithTTL kv now s2 kvKey (KvString (ky_ID k)) ttl of
                     (s3, Inl _) \<Rightarrow> (s3, Inr k)
                   | (s3, Inr True) \<Rightarrow> (s3, Inr k)
                   | (s3, Inr False) \<Rightarrow>
                       (case getCachedKeyFromStore kv unjson now s3 kvKey supported of
                          (s4, Cached k') \<Rightarrow> (s4, Inr k')
                        | (s4, Stale) \<Rightarrow> (fst (if_Delete kv now s4 kvKey), Inr k)
                        | (s4, NotCached) \<Rightarrow> (s4, Inr k)))))"

subsection \<open>The pool of a request\<close>

definition KeyAPIKeyID :: string where "KeyAPIKeyID = ''x-uf-api-key-id''"
definition KeyAPIKeyName :: string where "KeyAPIKeyName = ''x-uf-api-key''"
definition KeySkipKeySelection :: string where "KeySkipKeySelection = ''unifai-skip-key-selection''"
definition KeySessionID :: string where "KeySessionID = ''unifai-session-id''"
definition KeySessionTTL :: string where "KeySessionTTL = ''unifai-session-ttl''"
definition KeyFallbackIndex :: string where "KeyFallbackIndex = ''unifai-fallback-index''"

lemmas selection_keys = KeyAPIKeyID_def KeyAPIKeyName_def KeySkipKeySelection_def KeySessionID_def
  KeySessionTTL_def KeyFallbackIndex_def

text \<open>
  The surroundings of a selection. The raw key of the request's header is a field of its own,
  \<open>se_direct\<close>; \<open>se_kv\<close> is absent when no store is configured.
\<close>

record ('s, 'a) selection_env =
  se_account :: "string \<Rightarrow> string + api_key list"
  se_hash :: "string \<Rightarrow> string"
  se_unjson :: "string \<Rightarrow> string option"
  se_selector :: "api_key list \<Rightarrow> string + api_key"
  se_kv :: "('s, 'a) kv_iface option"
  se_direct :: "api_key option"

definition ctx_int :: "gov_ctx \<Rightarrow> string \<Rightarrow> int" where
  "ctx_int ctx k = (case CtxValue ctx k of CInt i \<Rightarrow> i | _ \<Rightarrow> 0)"

definition session_ttl :: "gov_ctx \<Rightarrow> int" where
  "session_ttl ctx = (if ctx_int ctx KeySessionTTL \<le> 0 then DefaultSessionStickyTTL else ctx_int ctx KeySessionTTL)"

text \<open>The pin by identifier, then by name; \<open>None\<close> when there is no pin.\<close>

definition pinned_key :: "gov_ctx \<Rightarrow> api_key list \<Rightarrow> (key_error + api_key) option" where
  "pinned_key ctx supported =
     (let i = str_trim (GetStringFromContext ctx KeyAPIKeyID); n = str_trim (GetStringFromContext ctx KeyAPIKeyName)
      in if i \<noteq> []
         then Some (case find (\<lambda>k. ky_ID k = i) supported of Some k \<Rightarrow> Inr k | None \<Rightarrow> Inl (NoKeyWithID i))
         else if n \<noteq> []
         then Some (case find (\<lambda>k. ak_Name k = n) supported of Some k \<Rightarrow> Inr k | None \<Rightarrow> Inl (NoKeyWithName n))
         else None)"

definition eligible_keys ::
  "('s, 'a) selection_env \<Rightarrow> request_type \<Rightarrow> string \<Rightarrow> string \<Rightarrow> string \<Rightarrow> key_error + api_key list" where
  "eligible_keys env t provider model base =
     (case se_account env provider of
        Inl e \<Rightarrow> Inl (AccountError e)
      | Inr keys \<Rightarrow>
          if keys = [] then Inl (NoKeysForModel provider model)
          else if (isBatchRequestType t \<or> isFileRequestType t) \<and> filter batch_enabled keys = []
          then Inl (NoBatchKeys provider)
          else let supported = supported_keys base t model
                     (if isBatchRequestType t \<or> isFileRequestType t then filter batch_enabled keys else keys)
               in if supported = [] then Inl (NoKeySupports model) else Inr supported)"

definition selectKeyFromProviderForModelWithPool ::
  "('s, 'a) selection_env \<Rightarrow> int \<Rightarrow> ('s \<Rightarrow> 's) \<Rightarrow> gov_ctx \<Rightarrow> request_type \<Rightarrow> string \<Rightarrow> string \<Rightarrow> string \<Rightarrow> 's \<Rightarrow>
   's \<times> (key_error + api_key list \<times> bool)" where
  "selectKeyFromProviderForModelWithPool env now others ctx t provider model base s =
     (case se_direct env of
        Some k \<Rightarrow> (s, Inr ([k], False))
      | None \<Rightarrow>
          if GetBoolFromContext ctx KeySkipKeySelection \<and> isKeySkippingAllowed provider then (s, Inr ([], False))
          else
            (case eligible_keys env t provider model base of
               Inl e \<Rightarrow> (s, Inl e)
             | Inr supported \<Rightarrow>
                 (case pinned_key ctx supported of
                    Some (Inl e) \<Rightarrow> (s, Inl e)
                  | Some (Inr k) \<Rightarrow> (s, Inr ([k], False))
                  | None \<Rightarrow>
                      if length supported = 1 then (s, Inr (supported, False))
                      else
                        (case se_kv env of
                           None \<Rightarrow> (s, Inr (supported, True))
                         | Some kv \<Rightarrow>
                             let session = GetStringFromContext ctx KeySessionID
                             in if session = [] \<or> ctx_int ctx KeyFallbackIndex \<noteq> 0 then (s, Inr (supported, True))
                                else (case sticky_key kv (se_unjson env) (se_selector env) now others
                                        (buildSessionKey (se_hash env) provider session model)
                                        (session_ttl ctx) supported s of
                                        (s', Inl e) \<Rightarrow> (s', Inl e)
                                      | (s', Inr k) \<Rightarrow> (s', Inr ([k], False)))))))"

subsection \<open>What the selection relies on in the store\<close>

text \<open>
  \<open>shown t s k\<close> is what a lookup of \<open>k\<close> would find at \<open>t\<close>; \<open>ready\<close> are the states in which
  the operations do not fail. A ttl ends before the end of the clock.
\<close>

locale session_store =
  fixes kv :: "('s, 'a) kv_iface"
    and shown :: "int \<Rightarrow> 's \<Rightarrow> string \<Rightarrow> 'a kv_value option"
    and ready :: "'s \<Rightarrow> bool"
  assumes ready_get: "ready s \<Longrightarrow> ready (fst (if_Get kv now s k))"
    and ready_set: "ready s \<Longrightarrow> ready (fst (if_SetWithTTL kv now s k v ttl))"
    and ready_setnx: "ready s \<Longrightarrow> ready (fst (if_SetNXWithTTL kv now s k v ttl))"
    and ready_delete: "ready s \<Longrightarrow> ready (fst (if_Delete kv now s k))"
    and get_answer: "ready s \<Longrightarrow> k \<noteq> [] \<Longrightarrow>
      snd (if_Get kv now s k) = (case shown now s k of None \<Rightarrow> Inl ErrNotFound | Some v \<Rightarrow> Inr v)"
    and get_shown: "ready s \<Longrightarrow> now \<le> t \<Longrightarrow> shown t (fst (if_Get kv now s k)) k' = shown t s k'"
    and set_shown: "ready s \<Longrightarrow> k \<noteq> [] \<Longrightarrow> 0 < now \<Longrightarrow> 0 < ttl \<Longrightarrow> now + ttl \<le> int64_max \<Longrightarrow>
      shown t (fst (if_SetWithTTL kv now s k (KvString i) ttl)) k' =
        (if k' = k then if t < now + ttl then Some (KvString i) else None else shown t s k')"
    and setnx_answer: "ready s \<Longrightarrow> k \<noteq> [] \<Longrightarrow> 0 \<le> ttl \<Longrightarrow>
      snd (if_SetNXWithTTL kv now s k (KvString i) ttl) = Inr (shown now s k = None)"
    and setnx_shown: "ready s \<Longrightarrow> k \<noteq> [] \<Longrightarrow> 0 < now \<Longrightarrow> 0 < ttl \<Longrightarrow> now + ttl \<le> int64_max \<Longrightarrow>
      shown t (fst (if_SetNXWithTTL kv now s k (KvString i) ttl)) k' =
        (if k' = k \<and> shown now s k = None then if t < now + ttl then Some (KvString i) else None else shown t s k')"
    and delete_shown: "ready s \<Longrightarrow> k \<noteq> [] \<Longrightarrow>
      shown t (fst (if_Delete kv now s k)) k' = (if k' = k then None else shown t s k')"
begin

lemma cached_answer:
  assumes "ready s" "k \<noteq> []"
  shows "snd (getCachedKeyFromStore kv unjson now s k supported) =
    (case shown now s k of None \<Rightarrow> NotCached
     | Some v \<Rightarrow> if cached_id unjson v = [] then NotCached
         else case find (\<lambda>x. ky_ID x = cached_id unjson v) supported of Some x \<Rightarrow> Cached x | None \<Rightarrow> Stale)"
  using get_answer [OF assms, of now]
  by (auto simp: getCachedKeyFromStore_def Let_def split: prod.splits sum.splits option.splits)

lemma cached_state: "fst (getCachedKeyFromStore kv unjson now s k supported) = fst (if_Get kv now s k)"
  by (auto simp: getCachedKeyFromStore_def Let_def split: prod.splits sum.splits)

text \<open>A key found for the session is answered and kept for another ttl.\<close>

lemma sticky_found:
  assumes "ready s" "kvKey \<noteq> []" "shown now s kvKey = Some (KvString i)" "i \<noteq> []"
    and "find (\<lambda>x. ky_ID x = i) supported = Some k" "0 < now" "0 < ttl" "now + ttl \<le> int64_max"
  shows "snd (sticky_key kv unjson selector now others kvKey ttl supported s) = Inr k"
    "ready (fst (sticky_key kv unjson selector now others kvKey ttl supported s))"
    "shown t (fst (sticky_key kv unjson selector now others kvKey ttl supported s)) kvKey =
      (if t < now + ttl then Some (KvString i) else None)"
proof -
  obtain s1 where g: "getCachedKeyFromStore kv unjson now s kvKey supported = (s1, Cached k)"
    using cached_answer [OF assms(1,2), of unjson now supported] assms(3-5)
    by (cases "getCachedKeyFromStore kv unjson now s kvKey supported") (auto simp: cached_id_def)
  have "s1 = fst (if_Get kv now s kvKey)" using cached_state [of unjson now s kvKey supported] g by simp
  then have r: "ready s1" using assms(1) by (simp add: ready_get)
  have "ky_ID k = i" using assms(5) by (auto simp: find_Some_iff)
  with g r assms show
    "snd (sticky_key kv unjson selector now others kvKey ttl supported s) = Inr k"
    "ready (fst (sticky_key kv unjson selector now others kvKey ttl supported s))"
    "shown t (fst (sticky_key kv unjson selector now others kvKey ttl supported s)) kvKey =
      (if t < now + ttl then Some (KvString i) else None)"
    by (simp_all add: sticky_key_def ready_set set_shown)
qed

text \<open>Without one, the selector's choice is answered and kept, unless another request was faster.\<close>

lemma sticky_fresh:
  assumes "ready s" "kvKey \<noteq> []" "shown now s kvKey = None" "selector supported = Inr k"
    and others: "\<And>s. ready s \<Longrightarrow> ready (others s)" "\<And>s. ready s \<Longrightarrow> shown now s kvKey = None \<Longrightarrow> shown now (others s) kvKey = None"
    and "0 < now" "0 < ttl" "now + ttl \<le> int64_max"
  shows "snd (sticky_key kv unjson selector now others kvKey ttl supported s) = Inr k"
    "ready (fst (sticky_key kv unjson selector now others kvKey ttl supported s))"
    "shown t (fst (sticky_key kv unjson selector now others kvKey ttl supported s)) kvKey =
      (if t < now + ttl then Some (KvString (ky_ID k)) else None)"
proof -
  let ?s1 = "fst (if_Get kv now s kvKey)"
  have g: "getCachedKeyFromStore kv unjson now s kvKey supported = (?s1, NotCached)"
    using cached_answer [OF assms(1,2), of unjson now supported] assms(3) cached_state [of unjson now s kvKey supported]
    by (cases "getCachedKeyFromStore kv unjson now s kvKey supported") auto
  have r: "ready (others ?s1)" and e: "shown now (others ?s1) kvKey = None"
    using assms(1,3) others by (simp_all add: ready_get get_shown)
  have x: "if_SetNXWithTTL kv now (others ?s1) kvKey (KvString (ky_ID k)) ttl =
    (fst (if_SetNXWithTTL kv now (others ?s1) kvKey (KvString (ky_ID k)) ttl), Inr True)"
    using setnx_answer [OF r assms(2), of ttl now "ky_ID k"] e assms
    by (cases "if_SetNXWithTTL kv now (others ?s1) kvKey (KvString (ky_ID k)) ttl") auto
  have eq: "sticky_key kv unjson selector now others kvKey ttl supported s =
    (fst (if_SetNXWithTTL kv now (others ?s1) kvKey (KvString (ky_ID k)) ttl), Inr k)"
    by (subst sticky_key_def, simp add: g assms(4) Let_def, subst x, simp)
  show "snd (sticky_key kv unjson selector now others kvKey ttl supported s) = Inr k"
    "ready (fst (sticky_key kv unjson selector now others kvKey ttl supported s))"
    "shown t (fst (sticky_key kv unjson selector now others kvKey ttl supported s)) kvKey =
      (if t < now + ttl then Some (KvString (ky_ID k)) else None)"
    using r e assms by (simp_all add: eq ready_setnx setnx_shown)
qed

text \<open>A request that loses the race answers the key of the one that won it.\<close>

lemma sticky_race:
  assumes "ready s" "kvKey \<noteq> []" "shown now s kvKey = None" "selector supported = Inr k"
    and "ready (others (fst (if_Get kv now s kvKey)))" "shown now (others (fst (if_Get kv now s kvKey))) kvKey = Some (KvString i)"
    and "i \<noteq> []" "find (\<lambda>x. ky_ID x = i) supported = Some k'" "0 < now" "0 < ttl" "now + ttl \<le> int64_max"
  shows "snd (sticky_key kv unjson selector now others kvKey ttl supported s) = Inr k'"
proof -
  let ?s1 = "fst (if_Get kv now s kvKey)"
  let ?s3 = "fst (if_SetNXWithTTL kv now (others ?s1) kvKey (KvString (ky_ID k)) ttl)"
  have g: "getCachedKeyFromStore kv unjson now s kvKey supported = (?s1, NotCached)"
    using cached_answer [OF assms(1,2), of unjson now supported] assms(3) cached_state [of unjson now s kvKey supported]
    by (cases "getCachedKeyFromStore kv unjson now s kvKey supported") auto
  have x: "if_SetNXWithTTL kv now (others ?s1) kvKey (KvString (ky_ID k)) ttl = (?s3, Inr False)"
    using setnx_answer [OF assms(5,2), of ttl now "ky_ID k"] assms
    by (cases "if_SetNXWithTTL kv now (others ?s1) kvKey (KvString (ky_ID k)) ttl") auto
  have r3: "ready ?s3" and e3: "shown now ?s3 kvKey = Some (KvString i)"
    using assms by (simp_all add: ready_setnx setnx_shown)
  obtain s4 where g4: "getCachedKeyFromStore kv unjson now ?s3 kvKey supported = (s4, Cached k')"
    using cached_answer [OF r3 assms(2), of unjson now supported] e3 assms(7,8)
    by (cases "getCachedKeyFromStore kv unjson now ?s3 kvKey supported") (auto simp: cached_id_def)
  show ?thesis
    by (subst sticky_key_def, simp add: g assms(4) Let_def, subst x, simp add: g4)
qed

end

subsection \<open>The key-value store of the framework keeps the laws\<close>

definition kv_store_iface :: "('a kv_store, 'a) kv_iface" where
  "kv_store_iface = \<lparr>if_Get = (\<lambda>now s k. kv_Get s now now k),
     if_SetWithTTL = (\<lambda>now s k v ttl. SetWithTTL s now k v ttl),
     if_SetNXWithTTL = (\<lambda>now s k v ttl. SetNXWithTTL s now k v ttl),
     if_Delete = (\<lambda>now s k. kv_Delete s now k)\<rparr>"

definition kv_shown :: "int \<Rightarrow> 'a kv_store \<Rightarrow> string \<Rightarrow> 'a kv_value option" where
  "kv_shown t s k = map_option fst (seen (raw s) t k)"

definition kv_ready :: "'a kv_store \<Rightarrow> bool" where
  "kv_ready s \<longleftrightarrow> kv_wf s \<and> \<not> kv_closed s \<and> (\<forall>i. encode s (KvString i) \<noteq> None)"

lemma iface_frame:
  "kv_closed (fst (kv_Get s now now' k)) = kv_closed s" "kv_delegate (fst (kv_Get s now now' k)) = kv_delegate s"
  "kv_closed (fst (SetWithTTL s now k v ttl)) = kv_closed s" "kv_delegate (fst (SetWithTTL s now k v ttl)) = kv_delegate s"
  "kv_closed (fst (SetNXWithTTL s now k v ttl)) = kv_closed s" "kv_delegate (fst (SetNXWithTTL s now k v ttl)) = kv_delegate s"
  "kv_closed (fst (kv_Delete s now k)) = kv_closed s" "kv_delegate (fst (kv_Delete s now k)) = kv_delegate s"
  by (auto simp: kv_Get_def SetWithTTL_def SetNXWithTTL_def kv_Delete_def split: option.splits)

lemma iface_wf:
  "kv_wf s \<Longrightarrow> kv_wf (fst (kv_Get s now now' k))" "kv_wf s \<Longrightarrow> kv_wf (fst (SetWithTTL s now k v ttl))"
  "kv_wf s \<Longrightarrow> kv_wf (fst (SetNXWithTTL s now k v ttl))" "kv_wf s \<Longrightarrow> kv_wf (fst (kv_Delete s now k))"
  by (auto simp: kv_Get_def SetWithTTL_def SetNXWithTTL_def kv_Delete_def validateMutable_def split: option.splits if_splits)

lemma iface_ready:
  assumes "kv_ready s"
  shows "kv_ready (fst (kv_Get s now now' k))" "kv_ready (fst (SetWithTTL s now k v ttl))"
    "kv_ready (fst (SetNXWithTTL s now k v ttl))" "kv_ready (fst (kv_Delete s now k))"
  using assms by (simp_all add: kv_ready_def iface_wf iface_frame encode_def)

lemma expiry_open:
  "0 < now \<Longrightarrow> 0 < ttl \<Longrightarrow> now + ttl \<le> int64_max \<Longrightarrow> gone t (expiry now ttl) \<longleftrightarrow> now + ttl \<le> t"
  by (simp add: expiry_def gone_def wrap64_id in_int64_def int64_min_def)

lemma live_at_shown: "live_at s k now \<longleftrightarrow> kv_shown now s k \<noteq> None"
  by (simp add: live_at_seen kv_shown_def)

lemma ready_guard:
  assumes "kv_ready s" "k \<noteq> []" "0 \<le> ttl"
  shows "validateMutable s k ttl = None" "encode s (KvString i) \<noteq> None" "\<not> kv_closed s"
  using assms by (auto simp: kv_ready_def validateMutable_def)

interpretation kvs: session_store kv_store_iface kv_shown kv_ready
proof
  fix s :: "'a kv_store" and now t :: int and k k' i v ttl
  show "kv_ready s \<Longrightarrow> kv_ready (fst (if_Get kv_store_iface now s k))"
    "kv_ready s \<Longrightarrow> kv_ready (fst (if_SetWithTTL kv_store_iface now s k v ttl))"
    "kv_ready s \<Longrightarrow> kv_ready (fst (if_SetNXWithTTL kv_store_iface now s k v ttl))"
    "kv_ready s \<Longrightarrow> kv_ready (fst (if_Delete kv_store_iface now s k))"
    by (simp_all add: kv_store_iface_def iface_ready)
  show "kv_ready s \<Longrightarrow> k \<noteq> [] \<Longrightarrow>
      snd (if_Get kv_store_iface now s k) = (case kv_shown now s k of None \<Rightarrow> Inl ErrNotFound | Some v \<Rightarrow> Inr v)"
    by (auto simp: kv_store_iface_def kv_Get_def kv_shown_def seen_raw kv_ready_def split: option.splits)
  show "kv_ready s \<Longrightarrow> now \<le> t \<Longrightarrow> kv_shown t (fst (if_Get kv_store_iface now s k)) k' = kv_shown t s k'"
    by (auto simp: kv_store_iface_def kv_Get_def kv_shown_def seen_raw isExpired_gone gone_mono split: option.splits)
  show "kv_ready s \<Longrightarrow> k \<noteq> [] \<Longrightarrow> 0 \<le> ttl \<Longrightarrow>
      snd (if_SetNXWithTTL kv_store_iface now s k (KvString i) ttl) = Inr (kv_shown now s k = None)"
    using ready_guard(1) [of s k ttl] ready_guard(2) [of s k ttl i]
    by (auto simp: kv_store_iface_def SetNXWithTTL_def live_at_shown split: option.splits)
  show "kv_ready s \<Longrightarrow> k \<noteq> [] \<Longrightarrow> 0 < now \<Longrightarrow> 0 < ttl \<Longrightarrow> now + ttl \<le> int64_max \<Longrightarrow>
      kv_shown t (fst (if_SetWithTTL kv_store_iface now s k (KvString i) ttl)) k' =
        (if k' = k then if t < now + ttl then Some (KvString i) else None else kv_shown t s k')"
    using ready_guard(1) [of s k ttl] ready_guard(2) [of s k ttl i] expiry_open [of now ttl t]
    by (auto simp: kv_store_iface_def SetWithTTL_def kv_shown_def split: option.splits)
  show "kv_ready s \<Longrightarrow> k \<noteq> [] \<Longrightarrow> 0 < now \<Longrightarrow> 0 < ttl \<Longrightarrow> now + ttl \<le> int64_max \<Longrightarrow>
      kv_shown t (fst (if_SetNXWithTTL kv_store_iface now s k (KvString i) ttl)) k' =
        (if k' = k \<and> kv_shown now s k = None then if t < now + ttl then Some (KvString i) else None else kv_shown t s k')"
    using ready_guard(1) [of s k ttl] ready_guard(2) [of s k ttl i] expiry_open [of now ttl t] live_at_shown [of s k now]
    by (auto simp: kv_store_iface_def SetNXWithTTL_def kv_shown_def split: option.splits if_splits)
  show "kv_ready s \<Longrightarrow> k \<noteq> [] \<Longrightarrow>
      kv_shown t (fst (if_Delete kv_store_iface now s k)) k' = (if k' = k then None else kv_shown t s k')"
    by (auto simp: kv_store_iface_def kv_Delete_def kv_shown_def kv_ready_def seen_raw split: option.splits)
qed

subsection \<open>Which keys a request may use\<close>

lemma filter_keys_mem:
  "k \<in> set (filter_keys base p keys) \<longleftrightarrow>
     (\<exists>k0\<in>set keys. \<not> key_disabled k0 \<and> validateKey base k0 = Inr k \<and> p k)"
  by (induction keys)
    (auto simp: filter_keys_def keep_key_def map_filter_simps split: option.splits sum.splits if_splits)

definition serving_key :: "string \<Rightarrow> request_type \<Rightarrow> string \<Rightarrow> api_key list \<Rightarrow> api_key \<Rightarrow> bool" where
  "serving_key base t model keys k \<longleftrightarrow>
     (\<exists>k0\<in>set keys. \<not> key_disabled k0 \<and> validateKey base k0 = Inr k) \<and> has_key_value base k \<and>
     (skip_model_check t model \<or>
        wl_IsAllowed (ky_Models k) model \<and> \<not> bl_IsBlocked (ky_BlacklistedModels k) model)"

lemma supported_usable: "k \<in> set (supported_keys base t model keys) \<Longrightarrow> serving_key base t model keys k"
  by (auto simp: supported_keys_def serving_key_def filter_keys_mem model_supported_def split: if_splits)

lemma eligible_usable:
  assumes "eligible_keys env t provider model base = Inr supported" "k \<in> set supported"
  shows "\<exists>keys. se_account env provider = Inr keys \<and> serving_key base t model keys k"
  using assms supported_usable
  by (auto simp: eligible_keys_def Let_def serving_key_def dest!: supported_usable split: sum.splits if_splits)

lemma sticky_from_supported:
  assumes "snd (sticky_key kv unjson selector now others kvKey ttl supported s) = Inr k"
    and "\<And>k. selector supported = Inr k \<Longrightarrow> k \<in> set supported"
  shows "k \<in> set supported"
proof -
  have c: "getCachedKeyFromStore kv unjson now s kvKey supported = (s', Cached k) \<Longrightarrow> k \<in> set supported" for s s' k
    by (auto simp: getCachedKeyFromStore_def Let_def dest: find_SomeD split: prod.splits sum.splits if_splits option.splits)
  show ?thesis
    using assms c
    by (auto simp: sticky_key_def Let_def split: prod.splits cached.splits sum.splits bool.splits)
qed

definition session_of :: "('s, 'a) selection_env \<Rightarrow> gov_ctx \<Rightarrow> string \<Rightarrow> string \<Rightarrow> string" where
  "session_of env ctx provider model =
     buildSessionKey (se_hash env) provider (GetStringFromContext ctx KeySessionID) model"

text \<open>A request that takes the path of session stickiness over the store of the framework.\<close>

definition session_context ::
  "('a kv_store, 'a) selection_env \<Rightarrow> gov_ctx \<Rightarrow> request_type \<Rightarrow> string \<Rightarrow> string \<Rightarrow> string \<Rightarrow> api_key list \<Rightarrow> bool" where
  "session_context env ctx t provider model base supported \<longleftrightarrow>
     se_kv env = Some kv_store_iface \<and> se_direct env = None \<and>
     \<not> (GetBoolFromContext ctx KeySkipKeySelection \<and> isKeySkippingAllowed provider) \<and>
     eligible_keys env t provider model base = Inr supported \<and> pinned_key ctx supported = None \<and>
     length supported \<noteq> 1 \<and> GetStringFromContext ctx KeySessionID \<noteq> [] \<and> ctx_int ctx KeyFallbackIndex = 0 \<and>
     distinct (map ky_ID supported) \<and> [] \<notin> ky_ID ` set supported"

text \<open>
  The requests of one session: the instant of each, its draw, and what other requests did to the
  store before it.
\<close>

type_synonym ('s) session_request = "int \<times> (api_key list \<Rightarrow> string + api_key) \<times> ('s \<Rightarrow> 's)"

fun session_answers ::
  "('s, 'a) selection_env \<Rightarrow> gov_ctx \<Rightarrow> request_type \<Rightarrow> string \<Rightarrow> string \<Rightarrow> string \<Rightarrow> 's session_request list \<Rightarrow> 's \<Rightarrow>
   (key_error + api_key list \<times> bool) list" where
  "session_answers env ctx t provider model base [] s = []"
| "session_answers env ctx t provider model base ((now, sel, foreign) # rs) s =
     (case selectKeyFromProviderForModelWithPool (env\<lparr>se_selector := sel\<rparr>) now (\<lambda>s. s) ctx t provider model base (foreign s) of
        (s', a) \<Rightarrow> a # session_answers env ctx t provider model base rs s')"

fun paced :: "int \<Rightarrow> (int \<times> 'b) list \<Rightarrow> bool" where
  "paced ttl [] \<longleftrightarrow> True"
| "paced ttl ((now, x) # rs) \<longleftrightarrow> 0 < now \<and> now + ttl \<le> int64_max \<and>
     (case rs of [] \<Rightarrow> True | (now', _) # _ \<Rightarrow> now \<le> now' \<and> now' < now + ttl) \<and> paced ttl rs"

definition keeps_session :: "string \<Rightarrow> ('a kv_store \<Rightarrow> 'a kv_store) \<Rightarrow> bool" where
  "keeps_session k f \<longleftrightarrow> (\<forall>s. kv_ready s \<longrightarrow> kv_ready (f s) \<and> (\<forall>t. kv_shown t (f s) k = kv_shown t s k))"

definition fair_choice :: "api_key list \<Rightarrow> (api_key list \<Rightarrow> string + api_key) \<Rightarrow> bool" where
  "fair_choice supported sel \<longleftrightarrow> (\<exists>k\<in>set supported. sel supported = Inr k)"

lemma session_of_nonempty [simp]: "session_of env ctx provider model \<noteq> []"
  by (simp add: session_of_def buildSessionKey_def)

lemma session_ttl_pos [simp]: "0 < session_ttl ctx"
  by (simp add: session_ttl_def DefaultSessionStickyTTL_def)

lemma env_selector_upd [simp]:
  "eligible_keys (env\<lparr>se_selector := sel\<rparr>) t provider model base = eligible_keys env t provider model base"
  "session_of (env\<lparr>se_selector := sel\<rparr>) ctx provider model = session_of env ctx provider model"
  by (simp_all add: eligible_keys_def session_of_def)

lemma select_sticky:
  assumes "session_context env ctx t provider model base supported"
  shows "selectKeyFromProviderForModelWithPool (env\<lparr>se_selector := sel\<rparr>) now others ctx t provider model base s =
    (case sticky_key kv_store_iface (se_unjson env) sel now others (session_of env ctx provider model) (session_ttl ctx) supported s of
       (s', Inl e) \<Rightarrow> (s', Inl e) | (s', Inr k) \<Rightarrow> (s', Inr ([k], False)))"
  using assms
  by (auto simp: selectKeyFromProviderForModelWithPool_def session_context_def session_of_def Let_def)

lemma find_own_id:
  "distinct (map ky_ID keys) \<Longrightarrow> k \<in> set keys \<Longrightarrow> find (\<lambda>x. ky_ID x = ky_ID k) keys = Some k"
  by (induction keys) auto

lemma session_tail:
  assumes ctx: "session_context env ctx t provider model base supported" and k: "k \<in> set supported"
    and "paced (session_ttl ctx) rs" "\<forall>(now, sel, f) \<in> set rs. keeps_session (session_of env ctx provider model) f"
    and "kv_ready s" "rs \<noteq> [] \<Longrightarrow> kv_shown (fst (hd rs)) s (session_of env ctx provider model) = Some (KvString (ky_ID k))"
  shows "set (session_answers env ctx t provider model base rs s) \<subseteq> {Inr ([k], False)}"
  using assms(3-)
proof (induction rs arbitrary: s)
  case (Cons r rs)
  obtain now sel f where r: "r = (now, sel, f)" by (cases r)
  let ?key = "session_of env ctx provider model"
  let ?st = "sticky_key kv_store_iface (se_unjson env) sel now (\<lambda>s. s) ?key (session_ttl ctx) supported (f s)"
  have f: "kv_ready (f s)" "\<And>t. kv_shown t (f s) ?key = kv_shown t s ?key"
    using Cons.prems by (auto simp: r keeps_session_def)
  have d: "find (\<lambda>x. ky_ID x = ky_ID k) supported = Some k" "ky_ID k \<noteq> []"
    using ctx k by (force simp: session_context_def find_own_id)+
  have p: "0 < now" "now + session_ttl ctx \<le> int64_max" using Cons.prems by (simp_all add: r)
  have w: "kv_shown now (f s) ?key = Some (KvString (ky_ID k))" using Cons.prems f by (simp add: r)
  note st = kvs.sticky_found [OF f(1) session_of_nonempty w d(2,1) p(1) session_ttl_pos p(2)]
  have "set (session_answers env ctx t provider model base rs (fst ?st)) \<subseteq> {Inr ([k], False)}"
  proof (rule Cons.IH)
    show "rs \<noteq> [] \<Longrightarrow> kv_shown (fst (hd rs)) (fst ?st) ?key = Some (KvString (ky_ID k))"
      using Cons.prems(1) by (cases rs) (auto simp: r st(3))
  qed (use Cons.prems st(2) in \<open>simp_all add: r\<close>)
  with st(1) [of "se_unjson env" sel "\<lambda>s. s"] show ?case
    by (cases ?st) (simp add: r select_sticky [OF ctx])
qed simp

text \<open>
  C13. A session keeps its key: whatever the draws of the later requests and whatever other
  requests do to other entries of the store in between, every request of the session gets the key
  that its first request drew, as long as each follows its predecessor within the ttl.\<close>

theorem session_keeps_key:
  assumes ctx: "session_context env ctx t provider model base supported"
    and pace: "paced (session_ttl ctx) rs"
    and rs: "\<forall>(now, sel, f) \<in> set rs. fair_choice supported sel \<and> keeps_session (session_of env ctx provider model) f"
    and s: "kv_ready s" "\<And>u. kv_shown u s (session_of env ctx provider model) = None"
  shows "\<exists>k\<in>set supported. set (session_answers env ctx t provider model base rs s) \<subseteq> {Inr ([k], False)}"
proof (cases rs)
  case Nil
  have "supported \<noteq> []" using ctx
    by (auto simp: session_context_def eligible_keys_def Let_def split: sum.splits if_splits)
  with Nil show ?thesis by (cases supported) auto
next
  case (Cons r rs')
  obtain now sel f where r: "r = (now, sel, f)" by (cases r)
  let ?key = "session_of env ctx provider model"
  let ?st = "sticky_key kv_store_iface (se_unjson env) sel now (\<lambda>s. s) ?key (session_ttl ctx) supported (f s)"
  have f: "kv_ready (f s)" "kv_shown now (f s) ?key = None"
    using rs s by (auto simp: Cons r keeps_session_def)
  obtain k where k: "k \<in> set supported" "sel supported = Inr k" using rs by (auto simp: Cons r fair_choice_def)
  have p: "0 < now" "now + session_ttl ctx \<le> int64_max" using pace by (simp_all add: Cons r)
  note st = kvs.sticky_fresh [where selector = sel and supported = supported and others = "\<lambda>s. s",
      OF f(1) session_of_nonempty f(2) k(2) _ _ p(1) session_ttl_pos p(2), simplified]
  have "set (session_answers env ctx t provider model base rs' (fst ?st)) \<subseteq> {Inr ([k], False)}"
  proof (rule session_tail [OF ctx k(1)])
    show "rs' \<noteq> [] \<Longrightarrow> kv_shown (fst (hd rs')) (fst ?st) ?key = Some (KvString (ky_ID k))"
      using pace by (cases rs') (auto simp: Cons r st(3))
  qed (use pace rs st(2) in \<open>auto simp: Cons r\<close>)
  with st(1) [of "se_unjson env"] k(1) show ?thesis
    by (intro bexI [of _ k]) (cases ?st, simp_all add: Cons r select_sticky [OF ctx])
qed

text \<open>
  Two first requests of a session that run at the same time get the same key: the one that
  loses the race to the store answers the key of the winner, not its own draw.\<close>

lemma racing_requests_agree:
  assumes ctx: "session_context env ctx t provider model base supported"
    and draws: "fair_choice supported sel1" "fair_choice supported sel2"
    and time: "0 < now" "now + session_ttl ctx \<le> int64_max"
    and s: "kv_ready s" "kv_shown now s (session_of env ctx provider model) = None"
  shows "\<exists>k\<in>set supported. sel2 supported = Inr k \<and>
    snd (selectKeyFromProviderForModelWithPool (env\<lparr>se_selector := sel1\<rparr>) now
      (\<lambda>s. fst (selectKeyFromProviderForModelWithPool (env\<lparr>se_selector := sel2\<rparr>) now (\<lambda>s. s) ctx t provider model base s))
      ctx t provider model base s) = Inr ([k], False)"
proof -
  let ?key = "session_of env ctx provider model"
  let ?B = "\<lambda>s. fst (selectKeyFromProviderForModelWithPool (env\<lparr>se_selector := sel2\<rparr>) now (\<lambda>s. s) ctx t provider model base s)"
  let ?s1 = "fst (if_Get kv_store_iface now s ?key)"
  obtain k1 k2 where k: "sel1 supported = Inr k1" "k2 \<in> set supported" "sel2 supported = Inr k2"
    using draws by (auto simp: fair_choice_def)
  have s1: "kv_ready ?s1" "kv_shown now ?s1 ?key = None"
    using s by (simp_all add: kvs.ready_get kvs.get_shown)
  note st = kvs.sticky_fresh [where selector = sel2 and supported = supported and others = "\<lambda>s. s" and unjson = "se_unjson env",
      OF s1(1) session_of_nonempty s1(2) k(3) _ _ time(1) session_ttl_pos time(2), simplified]
  have B: "?B ?s1 = fst (sticky_key kv_store_iface (se_unjson env) sel2 now (\<lambda>s. s) ?key (session_ttl ctx) supported ?s1)"
    by (simp add: select_sticky [OF ctx] split: prod.splits sum.splits)
  have d: "find (\<lambda>x. ky_ID x = ky_ID k2) supported = Some k2" "ky_ID k2 \<noteq> []"
    using ctx k(2) by (force simp: session_context_def find_own_id)+
  have B': "kv_ready (?B ?s1)" "kv_shown now (?B ?s1) ?key = Some (KvString (ky_ID k2))"
    using st(2,3) by (simp_all add: B)
  have "snd (sticky_key kv_store_iface (se_unjson env) sel1 now ?B ?key (session_ttl ctx) supported s) = Inr k2"
    using s k(1) B' d time
    by (intro kvs.sticky_race [where i = "ky_ID k2" and k = k1]) simp_all
  then show ?thesis
    using k(2,3) by (intro bexI [of _ k2]) (auto simp: select_sticky [OF ctx] split: prod.splits)
qed

text \<open>
  Every key of the pool of a request is a key of the account that is enabled, valid for the
  provider and has a value, and it serves the model unless the request is one without model check;
  this holds for pinned keys and for keys remembered for a session too. A pool that rotates has at
  least two keys.\<close>

lemma pool_keys_usable:
  assumes "se_direct env = None" and sel: "\<And>ks k. se_selector env ks = Inr k \<Longrightarrow> k \<in> set ks"
    and res: "snd (selectKeyFromProviderForModelWithPool env now others ctx t provider model base s) = Inr (pool, rot)"
    and k: "k \<in> set pool"
  shows "(\<exists>keys. se_account env provider = Inr keys \<and>
    (\<exists>k0\<in>set keys. \<not> key_disabled k0 \<and> validateKey base k0 = Inr k) \<and> has_key_value base k \<and>
    (skip_model_check t model \<or> wl_IsAllowed (ky_Models k) model \<and> \<not> bl_IsBlocked (ky_BlacklistedModels k) model)) \<and>
    (rot \<longrightarrow> 2 \<le> length pool)"
proof -
  obtain supported where el: "eligible_keys env t provider model base = Inr supported"
    using res k assms(1)
    by (auto simp: selectKeyFromProviderForModelWithPool_def split: if_splits sum.splits)
  have pin: "pinned_key ctx supported = Some (Inr k') \<Longrightarrow> k' \<in> set supported" for k'
    by (auto simp: pinned_key_def Let_def dest: find_SomeD split: if_splits option.splits)
  have sticky: "sticky_key kv (se_unjson env) (se_selector env) now others kvKey ttl supported s = (s', Inr k') \<Longrightarrow>
     k' \<in> set supported" for kv kvKey ttl s s' k'
    by (rule sticky_from_supported [of kv "se_unjson env" "se_selector env" now others kvKey ttl supported s])
      (simp_all add: sel)
  have "k \<in> set supported \<and> (rot \<longrightarrow> pool = supported \<and> length supported \<noteq> 1)"
    using res k assms(1) el
    by (auto simp: selectKeyFromProviderForModelWithPool_def Let_def
        split: if_splits sum.splits option.splits prod.splits dest!: pin sticky)
  moreover have "supported \<noteq> []" using el by (auto simp: eligible_keys_def Let_def split: sum.splits if_splits)
  then have "length supported \<noteq> 1 \<Longrightarrow> 2 \<le> length supported" by (cases supported) (auto simp: Suc_le_eq)
  ultimately show ?thesis
    using eligible_usable [OF el, of k] by (auto simp: serving_key_def)
qed

text \<open>Two keys of one provider, a session, and requests that draw differently.\<close>

definition w_key1 :: api_key where
  "w_key1 = zero_key\<lparr>ky_ID := ''k1'', ky_Models := [''*''], ak_Value := ''v1''\<rparr>"

definition w_key2 :: api_key where
  "w_key2 = zero_key\<lparr>ky_ID := ''k2'', ky_Models := [''m''], ak_Value := ''v2''\<rparr>"

definition w_sel1 :: "api_key list \<Rightarrow> string + api_key" where "w_sel1 ks = Inr (hd ks)"
definition w_sel2 :: "api_key list \<Rightarrow> string + api_key" where "w_sel2 ks = Inr (last ks)"

definition w_env :: "(nat kv_store, nat) selection_env" where
  "w_env = \<lparr>se_account = (\<lambda>_. Inr [w_key1, w_key2]), se_hash = (\<lambda>s. s), se_unjson = (\<lambda>_. None),
     se_selector = w_sel1, se_kv = Some kv_store_iface, se_direct = None\<rparr>"

definition w_ctx :: gov_ctx where "w_ctx = [(KeySessionID, CStr ''s'')]"

definition w_requests :: "nat kv_store session_request list" where
  "w_requests = [(1, w_sel2, \<lambda>s. s), (5, w_sel1, \<lambda>s. fst (SetWithTTL s 4 ''other'' (KvString ''x'') 0)), (9, w_sel1, \<lambda>s. s)]"

lemma w_session: "session_context w_env w_ctx ''chat_completion'' ''openai'' ''m'' ''openai'' [w_key1, w_key2]"
proof -
  have e: "eligible_keys w_env ''chat_completion'' ''openai'' ''m'' ''openai'' = Inr [w_key1, w_key2]" by code_simp
  have c: "GetBoolFromContext w_ctx KeySkipKeySelection = False" "pinned_key w_ctx [w_key1, w_key2] = None"
    "GetStringFromContext w_ctx KeySessionID = ''s''" "ctx_int w_ctx KeyFallbackIndex = 0" by code_simp+
  show ?thesis by (simp add: session_context_def e c, simp add: w_env_def w_key1_def w_key2_def zero_key_def)
qed

lemma w_foreign:
  assumes "key \<noteq> ''other''"
  shows "keeps_session key (\<lambda>s. fst (SetWithTTL s 4 ''other'' (KvString ''x'') 0))"
  unfolding keeps_session_def
proof (intro allI impI)
  fix s :: "'a kv_store" assume "kv_ready s"
  then have "kv_ready (fst (SetWithTTL s 4 ''other'' (KvString ''x'') 0))" by (rule iface_ready(2))
  then show "kv_ready (fst (SetWithTTL s 4 ''other'' (KvString ''x'') 0)) \<and>
    (\<forall>t. kv_shown t (fst (SetWithTTL s 4 ''other'' (KvString ''x'') 0)) key = kv_shown t s key)"
    using assms by (auto simp: SetWithTTL_def kv_shown_def split: option.splits)
qed

theorem session_keeps_key_witness:
  "\<exists>k\<in>set [w_key1, w_key2]. set (session_answers w_env w_ctx ''chat_completion'' ''openai'' ''m'' ''openai'' w_requests w_store)
     \<subseteq> {Inr ([k], False)}"
proof (rule session_keeps_key [OF w_session])
  show "paced (session_ttl w_ctx) w_requests" by code_simp
  show "\<forall>(now, sel, f)\<in>set w_requests. fair_choice [w_key1, w_key2] sel \<and>
      keeps_session (session_of w_env w_ctx ''openai'' ''m'') f"
    using w_foreign [of "session_of w_env w_ctx ''openai'' ''m''"]
    by (auto simp: w_requests_def fair_choice_def w_sel1_def w_sel2_def keeps_session_def session_of_def buildSessionKey_def)
qed (simp_all add: kv_ready_def kv_wf_def w_store_def encode_def kv_shown_def seen_raw)

lemma racing_requests_agree_witness:
  "\<exists>k\<in>set [w_key1, w_key2]. w_sel2 [w_key1, w_key2] = Inr k \<and>
    snd (selectKeyFromProviderForModelWithPool (w_env\<lparr>se_selector := w_sel1\<rparr>) 1
      (\<lambda>s. fst (selectKeyFromProviderForModelWithPool (w_env\<lparr>se_selector := w_sel2\<rparr>) 1 (\<lambda>s. s)
         w_ctx ''chat_completion'' ''openai'' ''m'' ''openai'' s))
      w_ctx ''chat_completion'' ''openai'' ''m'' ''openai'' w_store) = Inr ([k], False)"
proof (rule racing_requests_agree [OF w_session])
  show "1 + session_ttl w_ctx \<le> int64_max" by code_simp
qed (simp_all add: fair_choice_def w_sel1_def w_sel2_def kv_ready_def kv_wf_def w_store_def encode_def kv_shown_def seen_raw)

definition w_sel_safe :: "api_key list \<Rightarrow> string + api_key" where
  "w_sel_safe ks = (case ks of [] \<Rightarrow> Inl ''no keys'' | k # _ \<Rightarrow> Inr k)"

lemma pool_keys_usable_witness:
  "(\<exists>keys. se_account (w_env\<lparr>se_selector := w_sel_safe\<rparr>) ''openai'' = Inr keys \<and>
    (\<exists>k0\<in>set keys. \<not> key_disabled k0 \<and> validateKey ''openai'' k0 = Inr w_key1) \<and> has_key_value ''openai'' w_key1 \<and>
    (skip_model_check ''chat_completion'' ''m'' \<or>
       wl_IsAllowed (ky_Models w_key1) ''m'' \<and> \<not> bl_IsBlocked (ky_BlacklistedModels w_key1) ''m'')) \<and>
    (True \<longrightarrow> 2 \<le> length [w_key1, w_key2])"
proof (rule pool_keys_usable)
  show "se_direct (w_env\<lparr>se_selector := w_sel_safe\<rparr>) = None" by (simp add: w_env_def)
  show "se_selector (w_env\<lparr>se_selector := w_sel_safe\<rparr>) ks = Inr k \<Longrightarrow> k \<in> set ks" for ks k
    by (auto simp: w_sel_safe_def split: list.splits)
  show "snd (selectKeyFromProviderForModelWithPool (w_env\<lparr>se_selector := w_sel_safe\<rparr>) 1 (\<lambda>s. s) []
      ''chat_completion'' ''openai'' ''m'' ''openai'' w_store) = Inr ([w_key1, w_key2], True)"
    by code_simp
qed simp

end
