(* ===== verification/CoreErrors.thy ===== *)
theory CoreErrors
  imports KeySelection
begin

text \<open>
  The errors of the gateway and their classification (core/schemas/unifai.go, core/utils.go), the
  routing record that responses and errors carry, and the backoff between attempts. Of an error
  the fields that the core reads are kept; the wrapped Go error of an \<open>error_field\<close> is its text.
\<close>

subsection \<open>Errors and the routing record\<close>

record resolved_alias =
  ra_ModelID :: string
  ra_ModelName :: "string option"

record core_routing_info =
  rg_Provider :: string
  rg_Model :: string
  rg_Key :: string
  rg_ResolvedKeyAlias :: "resolved_alias option"
  rg_IsFallback :: bool
  rg_PrimaryProvider :: "string option"
  rg_PrimaryModel :: "string option"

definition no_routing :: core_routing_info where
  "no_routing = \<lparr>rg_Provider = '''', rg_Model = '''', rg_Key = '''', rg_ResolvedKeyAlias = None,
     rg_IsFallback = False, rg_PrimaryProvider = None, rg_PrimaryModel = None\<rparr>"

text \<open>The extra fields that errors and responses share.\<close>

record extra =
  xt_RoutingInfo :: core_routing_info
  xt_RequestType :: string
  xt_Provider :: string
  xt_OriginalModelRequested :: string
  xt_ResolvedModelUsed :: string
  xt_RawRequest :: "string option"
  xt_RawResponse :: "string option"

definition no_extra :: extra where
  "no_extra = \<lparr>xt_RoutingInfo = no_routing, xt_RequestType = '''', xt_Provider = '''',
     xt_OriginalModelRequested = '''', xt_ResolvedModelUsed = '''', xt_RawRequest = None, xt_RawResponse = None\<rparr>"

record error_field =
  ef_Type :: "string option"
  ef_Code :: "string option"
  ef_Message :: string
  ef_Error :: "string option"

record core_error =
  er_Type :: "string option"
  er_IsUnifAIError :: bool
  er_StatusCode :: "int option"
  er_Error :: "error_field option"
  er_AllowFallbacks :: "bool option"
  er_ExtraFields :: extra

definition RequestCancelled :: string where "RequestCancelled = ''request_cancelled''"
definition RequestTimedOut :: string where "RequestTimedOut = ''request_timed_out''"
definition ErrProviderDoRequest :: string where
  "ErrProviderDoRequest = ''failed to execute HTTP request to provider API''"
definition ErrProviderNetworkError :: string where
  "ErrProviderNetworkError =
     ''network error occurred while connecting to provider API (DNS lookup, connection refused, etc.)''"

definition newUnifAIErrorFromMsg :: "string \<Rightarrow> core_error" where
  "newUnifAIErrorFromMsg message =
     \<lparr>er_Type = None, er_IsUnifAIError = False, er_StatusCode = None,
      er_Error = Some \<lparr>ef_Type = None, ef_Code = None, ef_Message = message, ef_Error = None\<rparr>,
      er_AllowFallbacks = None, er_ExtraFields = no_extra\<rparr>"

definition newUnifAIError :: "string \<Rightarrow> core_error" where
  "newUnifAIError err = (newUnifAIErrorFromMsg err)
     \<lparr>er_Error := Some \<lparr>ef_Type = None, ef_Code = None, ef_Message = err, ef_Error = Some err\<rparr>\<rparr>"

text \<open>The error of a context that ended: past its deadline, or cancelled.\<close>

datatype ctx_err = DeadlineExceeded | Canceled

definition show_ctx_err :: "ctx_err \<Rightarrow> string" where
  "show_ctx_err e = (case e of DeadlineExceeded \<Rightarrow> ''context deadline exceeded'' | Canceled \<Rightarrow> ''context canceled'')"

definition newUnifAICtxDoneError :: "ctx_err \<Rightarrow> string \<Rightarrow> core_error" where
  "newUnifAICtxDoneError e stage =
     (let (status, typ, prefix') =
        (case e of
           DeadlineExceeded \<Rightarrow> (504, RequestTimedOut, ''request timed out '')
         | Canceled \<Rightarrow> (499, RequestCancelled, ''request cancelled ''))
      in \<lparr>er_Type = None, er_IsUnifAIError = True, er_StatusCode = Some status,
          er_Error = Some \<lparr>ef_Type = Some typ, ef_Code = None,
            ef_Message = prefix' @ stage @ '': '' @ show_ctx_err e, ef_Error = Some (show_ctx_err e)\<rparr>,
          er_AllowFallbacks = Some False, er_ExtraFields = no_extra\<rparr>)"

definition is_cancelled :: "core_error \<Rightarrow> bool" where
  "is_cancelled e \<longleftrightarrow> (case er_Error e of Some f \<Rightarrow> ef_Type f = Some RequestCancelled | None \<Rightarrow> False)"

definition status_text :: "int \<Rightarrow> string option" where
  "status_text c =
     (if c = 401 then Some ''unauthorized'' else if c = 403 then Some ''forbidden''
      else if c = 404 then Some ''endpoint not found'' else if c = 405 then Some ''method not allowed''
      else if c = 429 then Some ''rate limit exceeded'' else if c = 500 then Some ''internal server error''
      else if c = 502 then Some ''bad gateway'' else if c = 503 then Some ''service unavailable''
      else if c = 504 then Some ''gateway timeout'' else None)"

definition GetErrorString :: "core_error option \<Rightarrow> string" where
  "GetErrorString x =
     (case x of
        None \<Rightarrow> ''''
      | Some e \<Rightarrow>
          (case er_Error e of
             Some f \<Rightarrow> if ef_Message f \<noteq> [] then ef_Message f
               else (case er_StatusCode e of
                       Some c \<Rightarrow> (case status_text c of Some t \<Rightarrow> t | None \<Rightarrow> ''HTTP '' @ show_int c @ '' error'')
                     | None \<Rightarrow> (case er_Type e of Some t \<Rightarrow> t | None \<Rightarrow> ''unknown error''))
           | None \<Rightarrow>
               (case er_StatusCode e of
                  Some c \<Rightarrow> (case status_text c of Some t \<Rightarrow> t | None \<Rightarrow> ''HTTP '' @ show_int c @ '' error'')
                | None \<Rightarrow> (case er_Type e of Some t \<Rightarrow> t | None \<Rightarrow> ''unknown error''))))"

definition PopulateExtraFields :: "string \<Rightarrow> string \<Rightarrow> string \<Rightarrow> string \<Rightarrow> extra \<Rightarrow> extra" where
  "PopulateExtraFields requestType provider originalModel resolvedModel x =
     x\<lparr>xt_RequestType := requestType, xt_Provider := provider, xt_OriginalModelRequested := originalModel,
       xt_ResolvedModelUsed := (if resolvedModel \<noteq> [] then resolvedModel else originalModel)\<rparr>"

definition syncDeprecatedFromRoutingInfo :: "core_routing_info \<Rightarrow> extra \<Rightarrow> extra" where
  "syncDeprecatedFromRoutingInfo i x =
     x\<lparr>xt_Provider := (if rg_Provider i \<noteq> [] then rg_Provider i else xt_Provider x),
       xt_OriginalModelRequested :=
         (if rg_IsFallback i \<and> opt_str (rg_PrimaryModel i) \<noteq> [] then opt_str (rg_PrimaryModel i)
          else if rg_Model i \<noteq> [] then rg_Model i else xt_OriginalModelRequested x),
       xt_ResolvedModelUsed :=
         (case rg_ResolvedKeyAlias i of
            Some a \<Rightarrow> if ra_ModelID a \<noteq> [] then ra_ModelID a
                      else if rg_Model i \<noteq> [] then rg_Model i else xt_ResolvedModelUsed x
          | None \<Rightarrow> if rg_Model i \<noteq> [] then rg_Model i else xt_ResolvedModelUsed x)\<rparr>"

definition PopulateRoutingInfo :: "core_routing_info \<Rightarrow> extra \<Rightarrow> extra" where
  "PopulateRoutingInfo i x = syncDeprecatedFromRoutingInfo i (x\<lparr>xt_RoutingInfo := i\<rparr>)"

definition SetFallbackRoutingInfo :: "string \<Rightarrow> string \<Rightarrow> extra \<Rightarrow> extra" where
  "SetFallbackRoutingInfo p m x =
     (let i = (xt_RoutingInfo x)\<lparr>rg_IsFallback := True,
              rg_PrimaryProvider := (if p \<noteq> [] then Some p else rg_PrimaryProvider (xt_RoutingInfo x)),
              rg_PrimaryModel := (if m \<noteq> [] then Some m else rg_PrimaryModel (xt_RoutingInfo x))\<rparr>
      in syncDeprecatedFromRoutingInfo i (x\<lparr>xt_RoutingInfo := i\<rparr>))"

subsection \<open>Classification\<close>

definition transientServerStatusCodes :: "int list" where
  "transientServerStatusCodes = [500, 502, 503, 504]"

definition perKeyFailureStatusCodes :: "int list" where
  "perKeyFailureStatusCodes = [401, 402, 403, 429]"

definition rateLimitPatterns :: "string list" where
  "rateLimitPatterns =
     [''rate limit'', ''rate_limit'', ''ratelimit'', ''too many requests'', ''quota exceeded'', ''quota_exceeded'',
      ''request limit'', ''throttled'', ''throttling'', ''rate exceeded'', ''limit exceeded'', ''requests per'',
      ''rpm exceeded'', ''tpm exceeded'', ''tokens per minute'', ''requests per minute'', ''requests per second'',
      ''api rate limit'', ''usage limit'', ''concurrent requests limit'', ''burst_rate'', ''rate increased'']"

definition IsRateLimitErrorMessage :: "string \<Rightarrow> bool" where
  "IsRateLimitErrorMessage m \<longleftrightarrow>
     m \<noteq> [] \<and> (\<exists>p\<in>set rateLimitPatterns. str_contains (str_lower m) p)"

definition has_status :: "core_error \<Rightarrow> int list \<Rightarrow> bool" where
  "has_status e cs \<longleftrightarrow> (case er_StatusCode e of Some c \<Rightarrow> c \<in> set cs | None \<Rightarrow> False)"

definition isPerKeyFailure :: "core_error \<Rightarrow> bool" where
  "isPerKeyFailure e \<longleftrightarrow>
     has_status e perKeyFailureStatusCodes \<or>
     (case er_Error e of
        None \<Rightarrow> False
      | Some f \<Rightarrow> IsRateLimitErrorMessage (ef_Message f) \<or> IsRateLimitErrorMessage (opt_str (ef_Type f)) \<or>
          IsRateLimitErrorMessage (opt_str (ef_Code f)))"

definition isPermanentKeyFailure :: "core_error \<Rightarrow> bool" where
  "isPermanentKeyFailure e \<longleftrightarrow> isPerKeyFailure e \<and> has_status e [401, 402, 403]"

definition is_network_error :: "core_error \<Rightarrow> bool" where
  "is_network_error e \<longleftrightarrow>
     (case er_Error e of
        None \<Rightarrow> False
      | Some f \<Rightarrow> ef_Message f = ErrProviderDoRequest \<or> ef_Message f = ErrProviderNetworkError)"

definition shouldRetry :: "core_error \<Rightarrow> bool" where
  "shouldRetry e \<longleftrightarrow> is_network_error e \<or> has_status e transientServerStatusCodes \<or> isPerKeyFailure e"

text \<open>Errors after which the loop stops at once.\<close>

definition is_terminal :: "core_error \<Rightarrow> bool" where
  "is_terminal e \<longleftrightarrow> er_IsUnifAIError e \<or> is_cancelled e"

definition fail_reason :: "core_error \<Rightarrow> string" where
  "fail_reason e =
     (if has_status e [429] then ''rate_limit_error''
      else if has_status e [401, 403] then ''authentication_error''
      else if has_status e [402] then ''billing_error''
      else case er_Error e of
             Some f \<Rightarrow> if opt_str (ef_Type f) \<noteq> [] then opt_str (ef_Type f) else ''unknown''
           | None \<Rightarrow> ''unknown'')"

lemma isPermanentKeyFailure_iff: "isPermanentKeyFailure e \<longleftrightarrow> has_status e [401, 402, 403]"
  by (auto simp: isPermanentKeyFailure_def isPerKeyFailure_def has_status_def perKeyFailureStatusCodes_def
      split: option.splits)

subsection \<open>Validation after the routing phase\<close>

definition isModelRequired :: "request_type \<Rightarrow> bool" where
  "isModelRequired t \<longleftrightarrow> t \<in> set
     [''text_completion'', ''text_completion_stream'', ''chat_completion'', ''chat_completion_stream'',
      ''responses'', ''responses_stream'', ''speech'', ''speech_stream'', ''transcription'',
      ''transcription_stream'', ''embedding'', ''image_generation'', ''image_generation_stream'', ''video_generation'']"

definition ProviderAutoResolveErrorMessage :: string where
  "ProviderAutoResolveErrorMessage =
     ''could not auto resolve a provider for the request, please specify a provider explicitly''"
definition ModelAutoResolveErrorMessage :: string where
  "ModelAutoResolveErrorMessage =
     ''could not auto resolve a model for the request, please specify a model explicitly''"

definition validateRequestAfterPreRequestHooks :: "llm_request \<Rightarrow> core_error option" where
  "validateRequestAfterPreRequestHooks req =
     (case GetRequestFields req of
        (provider, model, _) \<Rightarrow>
          if provider = [] then Some (newUnifAIErrorFromMsg ProviderAutoResolveErrorMessage)
          else if isModelRequired (rq_RequestType req) \<and> model = []
          then Some (newUnifAIErrorFromMsg ModelAutoResolveErrorMessage)
          else None)"

subsection \<open>Backoff\<close>

text \<open>
  \<^verbatim>\<open>calculateBackoff\<close>: \<open>1<<uint(attempt)\<close> is an \<^verbatim>\<open>int\<close> of 64 bits, so the product wraps;
  \<open>r\<close> is the draw of \<^verbatim>\<open>rand.Float64\<close>. A duration that is not positive does not sleep.
\<close>

definition shift1 :: "nat \<Rightarrow> int" where
  "shift1 n = (if n < 64 then wrap64 (2 ^ n) else 0)"

definition calculateBackoff :: "int \<Rightarrow> int \<Rightarrow> float64 \<Rightarrow> nat \<Rightarrow> int" where
  "calculateBackoff initial maxBackoff r attempt =
     (let backoff = min (wrap64 (initial * shift1 attempt)) maxBackoff;
          jitter = of_int backoff * (4 / 5 + 2 / 5 * r)
      in min (go_trunc jitter) maxBackoff)"

lemma wrap64_nonneg: "0 \<le> x \<Longrightarrow> x \<le> int64_max \<Longrightarrow> wrap64 x = x"
  by (rule wrap64_id) (simp add: in_int64_def int64_min_def)

lemma shift1_small: "n < 63 \<Longrightarrow> shift1 n = 2 ^ n"
proof -
  assume "n < 63"
  then have "(2::int) ^ n < 2 ^ 63" by (intro power_strict_increasing) auto
  then show ?thesis using \<open>n < 63\<close>
    by (simp add: shift1_def) (rule wrap64_nonneg, simp_all add: int64_max_def)
qed

lemma go_trunc_nonneg: "0 \<le> x \<Longrightarrow> 0 \<le> go_trunc x \<and> of_int (go_trunc x) \<le> x \<and> x < of_int (go_trunc x) + 1"
  using floor_correct [of x] by (simp add: go_trunc_def)

lemma below_min: "y < of_int g + (1 :: rat) \<Longrightarrow> y < of_int m + 1 \<Longrightarrow> y < of_int (min g m) + 1"
  by (cases "g \<le> m") (simp_all add: min_def)

text \<open>Without overflow the pause is within a fifth of the doubled pause, and never above the maximum.\<close>

lemma calculateBackoff_bounds:
  assumes "0 \<le> initial" "0 \<le> maxBackoff" "0 \<le> r" "r < 1" "attempt < 63" "initial * 2 ^ attempt \<le> int64_max"
  shows "calculateBackoff initial maxBackoff r attempt \<le> maxBackoff"
    "4 / 5 * of_int (min (initial * 2 ^ attempt) maxBackoff) < of_int (calculateBackoff initial maxBackoff r attempt) + (1 :: rat)"
    "of_int (calculateBackoff initial maxBackoff r attempt) \<le> (6 / 5 :: rat) * of_int (min (initial * 2 ^ attempt) maxBackoff)"
proof -
  let ?b = "min (initial * 2 ^ attempt) maxBackoff"
  have w: "wrap64 (initial * shift1 attempt) = initial * 2 ^ attempt"
    using assms by (simp add: shift1_small wrap64_nonneg)
  have b: "0 \<le> ?b" using assms by simp
  have lo: "4 / 5 * of_int ?b \<le> of_int ?b * (4 / 5 + 2 / 5 * r)"
    and hi: "of_int ?b * (4 / 5 + 2 / 5 * r) \<le> 6 / 5 * of_int ?b"
    using b assms(3,4) mult_nonneg_nonneg [of "of_int ?b :: rat" r] mult_left_mono [of r 1 "of_int ?b :: rat"]
    by (auto simp: algebra_simps)
  have t: "of_int (go_trunc (of_int ?b * (4 / 5 + 2 / 5 * r))) \<le> of_int ?b * (4 / 5 + 2 / 5 * r)"
    "of_int ?b * (4 / 5 + 2 / 5 * r) < of_int (go_trunc (of_int ?b * (4 / 5 + 2 / 5 * r))) + (1 :: rat)"
    using go_trunc_nonneg [of "of_int ?b * (4 / 5 + 2 / 5 * r)"] b assms(3) by simp_all
  have m: "4 / 5 * of_int ?b < of_int maxBackoff + (1 :: rat)"
  proof -
    have "(of_int ?b :: rat) \<le> of_int maxBackoff" "(0 :: rat) \<le> of_int ?b" using b by (auto simp del: of_int_min)
    then show ?thesis by linarith
  qed
  have eq: "calculateBackoff initial maxBackoff r attempt = min (go_trunc (of_int ?b * (4 / 5 + 2 / 5 * r))) maxBackoff"
    by (simp add: calculateBackoff_def w)
  show "calculateBackoff initial maxBackoff r attempt \<le> maxBackoff" by (simp add: eq)
  show "4 / 5 * of_int ?b < of_int (calculateBackoff initial maxBackoff r attempt) + (1 :: rat)"
    unfolding eq by (rule below_min) (use lo t(2) m in linarith)+
  show "of_int (calculateBackoff initial maxBackoff r attempt) \<le> (6 / 5 :: rat) * of_int ?b"
  proof -
    have "(of_int (calculateBackoff initial maxBackoff r attempt) :: rat) \<le> of_int (go_trunc (of_int ?b * (4 / 5 + 2 / 5 * r)))"
      unfolding eq by (simp del: of_int_min)
    with t(1) hi show ?thesis by linarith
  qed
qed

text \<open>
  With the defaults, 500 milliseconds and at most five seconds, the product leaves the range at the
  36th retry: the pause becomes negative and the retries follow each other at once.
\<close>

lemma backoff_overflow: "calculateBackoff 500000000 5000000000 (1 / 2) 35 < 0"
  by code_simp

end
