(* ===== verification/PluginPipeline.thy ===== *)
theory PluginPipeline
  imports CoreErrors GovPreRequest
begin

text \<open>
  The request context with its reserved keys (core/schemas/context.go) and the plugin pipeline of
  the core (core/unifai.go). A hook is a function of what it can see, the values of the context, the
  state \<open>'w\<close> that the plugins share, and its arguments; its calls on the context are returned as a
  list of operations that the pipeline performs through the methods of the context. Spans, logs and
  the clock are left out, a duration is an argument. A request is passed by reference: a hook says
  what it leaves in the request it received, and which request it hands on. A request that it hands
  on instead shares nothing with the one it received.
\<close>

subsection \<open>The request context\<close>

definition KeyStreamGated :: string where "KeyStreamGated = ''unifai-stream-gated''"

definition reservedKeys :: "string list" where
  "reservedKeys =
     [''x-uf-vk'', KeyAPIKeyName, KeyAPIKeyID, ''x-uf-direct-key'', ''request-id'', ''fallback-request-id'',
      ''unifai-selected-key-id'', ''unifai-selected-key-name'', ''unifai-number-of-retries'', KeyFallbackIndex,
      KeySkipKeySelection, KeySkipBudgetAndRateLimits, ''unifai-extra-url-path'', ''unifai-defer-trace-completion'',
      ''unifai-attempt-trail'', KeyStreamGated, ''unifai-mcp-health-check-request'']"

record uctx =
  uc_values :: gov_ctx
  uc_blocked :: bool
  uc_parent :: "string \<Rightarrow> ctx_value"

text \<open>A value that was cleared is stored as nil and hides the value of the parent.\<close>

definition uc_Value :: "uctx \<Rightarrow> string \<Rightarrow> ctx_value" where
  "uc_Value c k = (case sm_load (uc_values c) k of Some v \<Rightarrow> v | None \<Rightarrow> uc_parent c k)"

definition write_dropped :: "uctx \<Rightarrow> string \<Rightarrow> bool" where
  "write_dropped c k \<longleftrightarrow> uc_blocked c \<and> k \<in> set reservedKeys"

definition setReservedValue :: "string \<Rightarrow> ctx_value \<Rightarrow> uctx \<Rightarrow> uctx" where
  "setReservedValue k v c = c\<lparr>uc_values := sm_store k v (uc_values c)\<rparr>"

definition uc_SetValue :: "string \<Rightarrow> ctx_value \<Rightarrow> uctx \<Rightarrow> uctx" where
  "uc_SetValue k v c = (if write_dropped c k then c else setReservedValue k v c)"

definition uc_ClearValue :: "string \<Rightarrow> uctx \<Rightarrow> uctx" where
  "uc_ClearValue k c = (if write_dropped c k then c else setReservedValue k CNil c)"

definition GetAndSetValue :: "string \<Rightarrow> ctx_value \<Rightarrow> uctx \<Rightarrow> ctx_value \<times> uctx" where
  "GetAndSetValue k v c =
     (let old = (case sm_load (uc_values c) k of Some x \<Rightarrow> x | None \<Rightarrow> CNil)
      in if write_dropped c k then (old, c) else (old, setReservedValue k v c))"

definition BlockRestrictedWrites :: "uctx \<Rightarrow> uctx" where
  "BlockRestrictedWrites c = c\<lparr>uc_blocked := True\<rparr>"

definition UnblockRestrictedWrites :: "uctx \<Rightarrow> uctx" where
  "UnblockRestrictedWrites c = c\<lparr>uc_blocked := False\<rparr>"

text \<open>
  The stream gate is a reserved key that plugins engage through \<^verbatim>\<open>PauseStream\<close>, \<^verbatim>\<open>ResumeStream\<close> and
  \<^verbatim>\<open>EndStream\<close>, which write it past the block. A tracer is any value other than nil.
\<close>

definition KeyTracer :: string where "KeyTracer = ''unifai-tracer''"
definition KeyTraceID :: string where "KeyTraceID = ''unifai-trace-id''"

definition gate_reachable :: "uctx \<Rightarrow> bool" where
  "gate_reachable c \<longleftrightarrow> uc_Value c KeyTracer \<noteq> CNil \<and>
     (case uc_Value c KeyTraceID of CStr s \<Rightarrow> s \<noteq> [] | _ \<Rightarrow> False)"

definition engage_gate :: "uctx \<Rightarrow> uctx" where
  "engage_gate c = (if gate_reachable c then setReservedValue KeyStreamGated (CBool True) c else c)"

text \<open>
  What a hook can do to the context it gets: the three writes, which the scope passes on to the root
  context, the gate, and the two switches of the root, which a plugin reaches through \<^verbatim>\<open>Root\<close>. The
  switches of the scope itself guard nothing, so that a call of them is no operation here.
\<close>

datatype ctx_op =
    SetOp string ctx_value | ClearOp string | GetAndSetOp string ctx_value | GateOp
  | RootBlockOp | RootUnblockOp

definition apply_op :: "ctx_op \<Rightarrow> uctx \<Rightarrow> uctx" where
  "apply_op op c =
     (case op of
        SetOp k v \<Rightarrow> uc_SetValue k v c
      | ClearOp k \<Rightarrow> uc_ClearValue k c
      | GetAndSetOp k v \<Rightarrow> snd (GetAndSetValue k v c)
      | GateOp \<Rightarrow> engage_gate c
      | RootBlockOp \<Rightarrow> BlockRestrictedWrites c
      | RootUnblockOp \<Rightarrow> UnblockRestrictedWrites c)"

definition perform :: "ctx_op list \<Rightarrow> uctx \<Rightarrow> uctx" where
  "perform ops c = fold apply_op ops c"

definition uc_bool :: "uctx \<Rightarrow> string \<Rightarrow> bool" where
  "uc_bool c k = (uc_Value c k = CBool True)"

definition KeySkipPluginPipeline :: string where "KeySkipPluginPipeline = ''unifai-skip-plugin-pipeline''"
definition KeyStreamStartTime :: string where "KeyStreamStartTime = ''unifai-stream-start-time''"

subsection \<open>Plugins and the pipeline\<close>

record 'r core_response =
  cr_Extra :: extra
  cr_Body :: 'r

record 'r short_circuit =
  sc_Response :: "'r core_response option"
  sc_Stream :: "('r core_response option \<times> core_error option) option list option"
  sc_Error :: "core_error option"

type_synonym view = "string \<Rightarrow> ctx_value"

text \<open>What a hook before the call answers: the request \<open>Received\<close>, another one, or nil.\<close>

datatype 'q returned = Received | Replaced 'q | NilRequest

record ('w, 'q, 's) pre_answer =
  pa_Ops :: "ctx_op list"
  pa_World :: 'w
  pa_Received :: 'q
  pa_Request :: "'q returned"
  pa_Short :: "'s option"
  pa_Error :: "string option"

type_synonym ('w, 'q, 's) pre_hook = "view \<Rightarrow> 'w \<Rightarrow> 'q option \<Rightarrow> ('w, 'q, 's) pre_answer"

type_synonym ('w, 'r) post_hook =
  "view \<Rightarrow> 'w \<Rightarrow> 'r option \<Rightarrow> core_error option \<Rightarrow>
   ctx_op list \<times> 'w \<times> 'r option \<times> core_error option \<times> string option"

record ('w, 'r) llm_plugin =
  pg_Name :: string
  pg_PreRequestHook :: "view \<Rightarrow> 'w \<Rightarrow> llm_request \<Rightarrow> ctx_op list \<times> 'w \<times> llm_request \<times> string option"
  pg_PreLLMHook :: "('w, llm_request, 'r short_circuit) pre_hook"
  pg_PostLLMHook :: "('w, 'r core_response) post_hook"

text \<open>
  A plugin for tool calls. The connection hooks are an optional interface; their requests \<open>'c\<close> and
  responses \<open>'d\<close> are not those of the other calls.
\<close>

record ('w, 'q, 'm, 'c, 'd) mcp_plugin =
  mg_Name :: string
  mg_PreMCPHook :: "('w, 'q, 'm option \<times> core_error option) pre_hook"
  mg_PostMCPHook :: "('w, 'm) post_hook"
  mg_Connection :: "(('w, 'c, 'd option \<times> core_error option) pre_hook \<times> ('w, 'd) post_hook) option"

record timing =
  tm_totalDuration :: int
  tm_invocations :: nat
  tm_errors :: nat

record ('l, 'm) pipeline =
  ppl_llmPlugins :: "'l list"
  ppl_mcpPlugins :: "'m list"
  ppl_executedPreHooks :: nat
  ppl_preHookErrors :: "string list"
  ppl_postHookErrors :: "string list"
  ppl_postHookTimings :: "timing smap"
  ppl_postHookPluginOrder :: "string list"
  ppl_chunkCount :: nat

definition resetPluginPipeline :: "('l, 'm) pipeline \<Rightarrow> ('l, 'm) pipeline" where
  "resetPluginPipeline p = p\<lparr>ppl_llmPlugins := [], ppl_mcpPlugins := [], ppl_executedPreHooks := 0,
     ppl_preHookErrors := [], ppl_postHookErrors := [], ppl_chunkCount := 0, ppl_postHookTimings := [],
     ppl_postHookPluginOrder := []\<rparr>"

text \<open>A pipeline from the pool keeps what it held there, so it has to be reset when it is put back.\<close>

definition getPluginPipeline :: "'l list \<Rightarrow> 'm list \<Rightarrow> ('l, 'm) pipeline \<Rightarrow> ('l, 'm) pipeline" where
  "getPluginPipeline llm mcp pooled = pooled\<lparr>ppl_llmPlugins := llm, ppl_mcpPlugins := mcp\<rparr>"

definition new_pipeline :: "('l, 'm) pipeline" where
  "new_pipeline = \<lparr>ppl_llmPlugins = [], ppl_mcpPlugins = [], ppl_executedPreHooks = 0, ppl_preHookErrors = [],
     ppl_postHookErrors = [], ppl_postHookTimings = [], ppl_postHookPluginOrder = [], ppl_chunkCount = 0\<rparr>"

definition add_error :: "string option \<Rightarrow> string list \<Rightarrow> string list" where
  "add_error e es = (case e of None \<Rightarrow> es | Some x \<Rightarrow> es @ [x])"

subsection \<open>Hooks before the request\<close>

fun pre_request_chain ::
  "('w, 'r) llm_plugin list \<Rightarrow> string list \<Rightarrow> uctx \<Rightarrow> 'w \<Rightarrow> llm_request \<Rightarrow> string list \<times> uctx \<times> 'w \<times> llm_request" where
  "pre_request_chain [] es c w req = (es, c, w, req)"
| "pre_request_chain (p # ps) es c w req =
     (case pg_PreRequestHook p (uc_Value c) w req of
        (ops, w', req', e) \<Rightarrow> pre_request_chain ps (add_error e es) (perform ops c) w' req')"

definition commit_pin :: "uctx \<Rightarrow> uctx" where
  "commit_pin c =
     (let pin = (case uc_Value c KeyRoutingPinnedAPIKeyID of CStr s \<Rightarrow> str_trim s | _ \<Rightarrow> [])
      in if pin \<noteq> [] then uc_SetValue KeyAPIKeyID (CStr pin) c else c)"

definition RunPreRequestHooks ::
  "(('w, 'r) llm_plugin, 'm) pipeline \<Rightarrow> uctx \<Rightarrow> 'w \<Rightarrow> llm_request \<Rightarrow>
   (('w, 'r) llm_plugin, 'm) pipeline \<times> uctx \<times> 'w \<times> llm_request" where
  "RunPreRequestHooks p c w req =
     (if uc_bool c KeySkipPluginPipeline then (p, c, w, req)
      else case pre_request_chain (ppl_llmPlugins p) (ppl_preHookErrors p) (BlockRestrictedWrites c) w req of
             (es, c1, w', req') \<Rightarrow>
               (p\<lparr>ppl_preHookErrors := es\<rparr>, commit_pin (UnblockRestrictedWrites c1), w', req'))"

text \<open>
  The request on its way through the hooks: the one that the caller holds, another one, or nil. The
  contents of the caller's request go along, as later hooks may write to it.
\<close>

datatype 'q held = TheOriginal | Another 'q | Nothing

fun current :: "'q \<Rightarrow> 'q held \<Rightarrow> 'q option" where
  "current orig TheOriginal = Some orig"
| "current orig (Another q) = Some q"
| "current orig Nothing = None"

fun write_received :: "'q held \<Rightarrow> 'q \<Rightarrow> 'q \<Rightarrow> 'q" where
  "write_received TheOriginal q orig = q"
| "write_received (Another q') q orig = orig"
| "write_received Nothing q orig = orig"

fun hand_on :: "'q held \<Rightarrow> 'q \<Rightarrow> 'q returned \<Rightarrow> 'q held" where
  "hand_on h q (Replaced q') = Another q'"
| "hand_on h q NilRequest = Nothing"
| "hand_on TheOriginal q Received = TheOriginal"
| "hand_on (Another q') q Received = Another q"
| "hand_on Nothing q Received = Nothing"

record ('w, 'q, 's) pre_end =
  pe_Count :: nat
  pe_Errors :: "string list"
  pe_Ctx :: uctx
  pe_World :: 'w
  pe_Original :: 'q
  pe_Held :: "'q held"
  pe_Short :: "'s option"

text \<open>One chain serves all kinds of hooks; \<open>None\<close> is a plugin without the hook, which still counts.\<close>

fun pre_chain ::
  "('w, 'q, 's) pre_hook option list \<Rightarrow> nat \<Rightarrow> string list \<Rightarrow> uctx \<Rightarrow> 'w \<Rightarrow> 'q \<Rightarrow> 'q held \<Rightarrow> ('w, 'q, 's) pre_end" where
  "pre_chain [] n es c w orig h =
     \<lparr>pe_Count = n, pe_Errors = es, pe_Ctx = c, pe_World = w, pe_Original = orig, pe_Held = h, pe_Short = None\<rparr>"
| "pre_chain (None # ps) n es c w orig h = pre_chain ps (Suc n) es c w orig h"
| "pre_chain (Some hook # ps) n es c w orig h =
     (let a = hook (uc_Value c) w (current orig h);
          es' = add_error (pa_Error a) es;
          c' = perform (pa_Ops a) c;
          orig' = write_received h (pa_Received a) orig;
          h' = hand_on h (pa_Received a) (pa_Request a)
      in case pa_Short a of
           Some s \<Rightarrow> \<lparr>pe_Count = Suc n, pe_Errors = es', pe_Ctx = c', pe_World = pa_World a, pe_Original = orig',
                        pe_Held = h', pe_Short = Some s\<rparr>
         | None \<Rightarrow> pre_chain ps (Suc n) es' c' (pa_World a) orig' h')"

text \<open>Without a plugin the count is the one that the pipeline already holds, zero on a reset one.\<close>

definition run_pre_hooks ::
  "('w, 'q, 's) pre_hook option list \<Rightarrow> ('l, 'm) pipeline \<Rightarrow> uctx \<Rightarrow> 'w \<Rightarrow> 'q \<Rightarrow>
   ('l, 'm) pipeline \<times> ('w, 'q, 's) pre_end" where
  "run_pre_hooks hooks p c w req =
     (if uc_bool c KeySkipPluginPipeline
      then (p, \<lparr>pe_Count = 0, pe_Errors = ppl_preHookErrors p, pe_Ctx = c, pe_World = w, pe_Original = req,
                pe_Held = TheOriginal, pe_Short = None\<rparr>)
      else
        let e = pre_chain hooks 0 (ppl_preHookErrors p) (BlockRestrictedWrites c) w req TheOriginal;
            n = (if hooks = [] then ppl_executedPreHooks p else pe_Count e)
        in (p\<lparr>ppl_executedPreHooks := n, ppl_preHookErrors := pe_Errors e\<rparr>,
            e\<lparr>pe_Count := n, pe_Ctx := UnblockRestrictedWrites (pe_Ctx e)\<rparr>))"

definition RunLLMPreHooks ::
  "(('w, 'r) llm_plugin, 'm) pipeline \<Rightarrow> uctx \<Rightarrow> 'w \<Rightarrow> llm_request \<Rightarrow>
   (('w, 'r) llm_plugin, 'm) pipeline \<times> ('w, llm_request, 'r short_circuit) pre_end" where
  "RunLLMPreHooks p = run_pre_hooks (map (Some \<circ> pg_PreLLMHook) (ppl_llmPlugins p)) p"

definition RunMCPPreHooks ::
  "('l, ('w, 'q, 'm, 'c, 'd) mcp_plugin) pipeline \<Rightarrow> uctx \<Rightarrow> 'w \<Rightarrow> 'q \<Rightarrow>
   ('l, ('w, 'q, 'm, 'c, 'd) mcp_plugin) pipeline \<times> ('w, 'q, 'm option \<times> core_error option) pre_end" where
  "RunMCPPreHooks p = run_pre_hooks (map (Some \<circ> mg_PreMCPHook) (ppl_mcpPlugins p)) p"

definition RunMCPPreConnectionHooks ::
  "('l, ('w, 'q, 'm, 'c, 'd) mcp_plugin) pipeline \<Rightarrow> uctx \<Rightarrow> 'w \<Rightarrow> 'c \<Rightarrow>
   ('l, ('w, 'q, 'm, 'c, 'd) mcp_plugin) pipeline \<times> ('w, 'c, 'd option \<times> core_error option) pre_end" where
  "RunMCPPreConnectionHooks p = run_pre_hooks (map (map_option fst \<circ> mg_Connection) (ppl_mcpPlugins p)) p"

subsection \<open>Hooks after the response\<close>

definition accumulatePluginTiming :: "string \<Rightarrow> int \<Rightarrow> bool \<Rightarrow> ('l, 'm) pipeline \<Rightarrow> ('l, 'm) pipeline" where
  "accumulatePluginTiming pluginName duration hasError p =
     (let known = sm_load (ppl_postHookTimings p) pluginName;
          t = (case known of Some t \<Rightarrow> t | None \<Rightarrow> \<lparr>tm_totalDuration = 0, tm_invocations = 0, tm_errors = 0\<rparr>)
      in p\<lparr>ppl_postHookTimings := sm_store pluginName
             (t\<lparr>tm_totalDuration := tm_totalDuration t + duration, tm_invocations := tm_invocations t + 1,
                tm_errors := (if hasError then tm_errors t + 1 else tm_errors t)\<rparr>) (ppl_postHookTimings p),
           ppl_postHookPluginOrder := (if known = None then ppl_postHookPluginOrder p @ [pluginName]
                                      else ppl_postHookPluginOrder p)\<rparr>)"

text \<open>What \<^verbatim>\<open>FinalizeStreamingPostHookSpans\<close> reports: one line per plugin that ran, the average in milliseconds.\<close>

definition finalized_spans :: "('l, 'm) pipeline \<Rightarrow> (string \<times> nat \<times> float64 \<times> int \<times> nat) list" where
  "finalized_spans p =
     concat (map (\<lambda>name. case sm_load (ppl_postHookTimings p) name of
        None \<Rightarrow> []
      | Some t \<Rightarrow> if tm_invocations t = 0 then []
          else let ms = go_trunc (of_int (tm_totalDuration t) / 10 ^ 6)
               in [(name, tm_invocations t, of_int ms / of_nat (tm_invocations t), ms, tm_errors t)])
        (ppl_postHookPluginOrder p))"

text \<open>\<open>took\<close> is how long a plugin's hook ran.\<close>

fun post_chain ::
  "bool \<Rightarrow> (string \<Rightarrow> int) \<Rightarrow> (string \<times> ('w, 'r) post_hook option) list \<Rightarrow> ('l, 'm) pipeline \<Rightarrow> uctx \<Rightarrow> 'w \<Rightarrow>
   'r option \<Rightarrow> core_error option \<Rightarrow> ('l, 'm) pipeline \<times> uctx \<times> 'w \<times> 'r option \<times> core_error option" where
  "post_chain streaming took [] pl c w resp err = (pl, c, w, resp, err)"
| "post_chain streaming took ((name, None) # ps) pl c w resp err = post_chain streaming took ps pl c w resp err"
| "post_chain streaming took ((name, Some hook) # ps) pl c w resp err =
     (case hook (uc_Value c) w resp err of
        (ops, w', resp', err', e) \<Rightarrow>
          (let pl1 = (if streaming then accumulatePluginTiming name (took name) (e \<noteq> None) pl else pl)
           in post_chain streaming took ps (pl1\<lparr>ppl_postHookErrors := add_error e (ppl_postHookErrors pl1)\<rparr>)
                (perform ops c) w' resp' err'))"

definition empty_error :: "core_error \<Rightarrow> bool" where
  "empty_error e \<longleftrightarrow> er_StatusCode e = None \<and>
     (case er_Error e of Some f \<Rightarrow> ef_Type f = None \<and> ef_Message f = [] \<and> ef_Error f = None | None \<Rightarrow> False)"

text \<open>An empty error beside a response counts as a recovery.\<close>

definition settle_post :: "'r option \<Rightarrow> core_error option \<Rightarrow> 'r option \<times> core_error option" where
  "settle_post resp err =
     (case err of
        Some e \<Rightarrow> if resp \<noteq> None \<and> empty_error e then (resp, None) else (resp, Some e)
      | None \<Rightarrow> (resp, None))"

definition run_post_hooks ::
  "bool \<Rightarrow> (string \<Rightarrow> int) \<Rightarrow> (string \<times> ('w, 'r) post_hook option) list \<Rightarrow> ('l, 'm) pipeline \<Rightarrow> uctx \<Rightarrow> 'w \<Rightarrow>
   'r option \<Rightarrow> core_error option \<Rightarrow> int \<Rightarrow> ('l, 'm) pipeline \<times> uctx \<times> 'w \<times> 'r option \<times> core_error option" where
  "run_post_hooks streaming took hooks p c w resp err runFrom =
     (case post_chain streaming took (rev (take (nat runFrom) hooks)) p (BlockRestrictedWrites c) w resp err of
        (p1, c1, w1, resp1, err1) \<Rightarrow>
          (p1\<lparr>ppl_chunkCount := (if streaming then ppl_chunkCount p1 + 1 else ppl_chunkCount p1)\<rparr>,
           UnblockRestrictedWrites c1, w1, settle_post resp1 err1))"

definition response_request_type :: "'r core_response option \<Rightarrow> core_error option \<Rightarrow> string" where
  "response_request_type resp err =
     (case resp of
        Some r \<Rightarrow> xt_RequestType (cr_Extra r)
      | None \<Rightarrow> (case err of Some e \<Rightarrow> xt_RequestType (er_ExtraFields e) | None \<Rightarrow> []))"

definition RunPostLLMHooks ::
  "(string \<Rightarrow> int) \<Rightarrow> (('w, 'r) llm_plugin, 'm) pipeline \<Rightarrow> uctx \<Rightarrow> 'w \<Rightarrow>
   'r core_response option \<Rightarrow> core_error option \<Rightarrow> int \<Rightarrow>
   (('w, 'r) llm_plugin, 'm) pipeline \<times> uctx \<times> 'w \<times> 'r core_response option \<times> core_error option" where
  "RunPostLLMHooks took p c w resp err runFrom =
     (if uc_bool c KeySkipPluginPipeline then (p, c, w, resp, err)
      else run_post_hooks
             (uc_Value c KeyStreamStartTime \<noteq> CNil \<and> response_request_type resp err \<noteq> ''realtime'') took
             (map (\<lambda>g. (pg_Name g, Some (pg_PostLLMHook g))) (ppl_llmPlugins p)) p c w resp err runFrom)"

definition RunMCPPostHooks ::
  "('l, ('w, 'q, 'm, 'c, 'd) mcp_plugin) pipeline \<Rightarrow> uctx \<Rightarrow> 'w \<Rightarrow> 'm option \<Rightarrow> core_error option \<Rightarrow> int \<Rightarrow>
   ('l, ('w, 'q, 'm, 'c, 'd) mcp_plugin) pipeline \<times> uctx \<times> 'w \<times> 'm option \<times> core_error option" where
  "RunMCPPostHooks p c w resp err runFrom =
     (if uc_bool c KeySkipPluginPipeline then (p, c, w, resp, err)
      else run_post_hooks False (\<lambda>_. 0) (map (\<lambda>g. (mg_Name g, Some (mg_PostMCPHook g))) (ppl_mcpPlugins p))
             p c w resp err runFrom)"

definition RunMCPPostConnectionHooks ::
  "('l, ('w, 'q, 'm, 'c, 'd) mcp_plugin) pipeline \<Rightarrow> uctx \<Rightarrow> 'w \<Rightarrow> 'd option \<Rightarrow> core_error option \<Rightarrow> int \<Rightarrow>
   ('l, ('w, 'q, 'm, 'c, 'd) mcp_plugin) pipeline \<times> uctx \<times> 'w \<times> 'd option \<times> core_error option" where
  "RunMCPPostConnectionHooks p c w resp err runFrom =
     (if uc_bool c KeySkipPluginPipeline then (p, c, w, resp, err)
      else run_post_hooks False (\<lambda>_. 0) (map (\<lambda>g. (mg_Name g, map_option snd (mg_Connection g))) (ppl_mcpPlugins p))
             p c w resp err runFrom)"

subsection \<open>The context keeps its reserved keys\<close>

lemma reserved_write [hook_rules]:
  "uc_Value (setReservedValue k v c) k' = (if k' = k then v else uc_Value c k')"
  "uc_blocked (setReservedValue k v c) = uc_blocked c"
  by (simp_all add: uc_Value_def setReservedValue_def split: option.split)

lemma context_switch [hook_rules]:
  "uc_Value (BlockRestrictedWrites c) = uc_Value c" "uc_blocked (BlockRestrictedWrites c)"
  "uc_Value (UnblockRestrictedWrites c) = uc_Value c" "\<not> uc_blocked (UnblockRestrictedWrites c)"
  by (simp_all add: uc_Value_def BlockRestrictedWrites_def UnblockRestrictedWrites_def fun_eq_iff split: option.split)

lemmas ctx_writes = uc_SetValue_def uc_ClearValue_def GetAndSetValue_def write_dropped_def engage_gate_def

lemma apply_op_blocked: "op \<noteq> RootUnblockOp \<Longrightarrow> uc_blocked c \<Longrightarrow> uc_blocked (apply_op op c)"
  by (auto simp: apply_op_def ctx_writes Let_def hook_rules split: ctx_op.splits)

definition guarded_key :: "string \<Rightarrow> bool" where
  "guarded_key k \<longleftrightarrow> k \<in> set reservedKeys \<and> k \<noteq> KeyStreamGated"

lemma apply_op_reserved: "uc_blocked c \<Longrightarrow> guarded_key k \<Longrightarrow> uc_Value (apply_op op c) k = uc_Value c k"
  by (auto simp: apply_op_def ctx_writes guarded_key_def Let_def hook_rules split: ctx_op.splits)

text \<open>
  While restricted writes are blocked, and no operation lifts the block, no operation changes a
  reserved key but the gate.
\<close>

definition leaves_block :: "ctx_op list \<Rightarrow> bool" where
  "leaves_block ops \<longleftrightarrow> RootUnblockOp \<notin> set ops"

lemma perform_reserved:
  assumes "uc_blocked c" "leaves_block ops"
  shows "uc_blocked (perform ops c)" "guarded_key k \<Longrightarrow> uc_Value (perform ops c) k = uc_Value c k"
  using assms unfolding perform_def leaves_block_def
  by (induction ops arbitrary: c) (auto simp: apply_op_blocked apply_op_reserved)

definition pre_leaves_block :: "('w, 'q, 's) pre_hook option \<Rightarrow> bool" where
  "pre_leaves_block hook \<longleftrightarrow>
     (case hook of None \<Rightarrow> True | Some f \<Rightarrow> \<forall>v w q. leaves_block (pa_Ops (f v w q)))"

definition post_leaves_block :: "('w, 'r) post_hook option \<Rightarrow> bool" where
  "post_leaves_block hook \<longleftrightarrow>
     (case hook of None \<Rightarrow> True | Some f \<Rightarrow> \<forall>v w r e. leaves_block (fst (f v w r e)))"

definition routing_leaves_block :: "('w, 'r) llm_plugin \<Rightarrow> bool" where
  "routing_leaves_block g \<longleftrightarrow> (\<forall>v w q. leaves_block (fst (pg_PreRequestHook g v w q)))"

lemma pre_request_chain_reserved:
  assumes "guarded_key k"
  shows "uc_blocked c \<Longrightarrow> \<forall>g\<in>set ps. routing_leaves_block g \<Longrightarrow>
    pre_request_chain ps es c w req = (es', c', w', req') \<Longrightarrow> uc_Value c' k = uc_Value c k"
proof (induction ps arbitrary: es c w req)
  case (Cons g ps)
  obtain ops w1 r1 x where hook: "pg_PreRequestHook g (uc_Value c) w req = (ops, w1, r1, x)" by (metis prod_cases4)
  have "leaves_block ops" using Cons.prems(2) hook unfolding routing_leaves_block_def by (metis fst_conv list.set_intros(1))
  note step = perform_reserved [OF Cons.prems(1) this]
  show ?case using Cons.IH [OF step(1)] Cons.prems(2,3) step(2) [OF assms] by (auto simp: hook)
qed simp

lemma pre_chain_reserved:
  assumes "guarded_key k"
  shows "uc_blocked c \<Longrightarrow> \<forall>x\<in>set hooks. pre_leaves_block x \<Longrightarrow>
    uc_Value (pe_Ctx (pre_chain hooks n es c w orig h)) k = uc_Value c k"
proof (induction hooks n es c w orig h rule: pre_chain.induct)
  case (3 f ps n es c w orig h)
  let ?a = "f (uc_Value c) w (current orig h)"
  have "leaves_block (pa_Ops ?a)" using "3.prems"(2) by (simp add: pre_leaves_block_def)
  note step = perform_reserved [OF "3.prems"(1) this]
  show ?case
    using "3.IH" [OF refl refl refl refl refl _ step(1)] "3.prems"(2) step(2) [OF assms]
    by (cases "pa_Short ?a") (auto simp: Let_def)
qed simp_all

lemma post_chain_reserved:
  assumes "guarded_key k"
  shows "uc_blocked c \<Longrightarrow> \<forall>x\<in>snd ` set hooks. post_leaves_block x \<Longrightarrow>
    post_chain s took hooks pl c w resp err = (pl', c', w', resp', err') \<Longrightarrow> uc_Value c' k = uc_Value c k"
proof (induction hooks arbitrary: pl c w resp err)
  case (Cons nf ps)
  show ?case
  proof (cases nf)
    case (Pair name o')
    show ?thesis
    proof (cases o')
      case None
      with Pair Cons show ?thesis by auto
    next
      case (Some f)
      obtain ops w1 r1 e1 x where hook: "f (uc_Value c) w resp err = (ops, w1, r1, e1, x)" by (metis prod_cases5)
      have "\<forall>v w r e. leaves_block (fst (f v w r e))"
        using Cons.prems(2) Pair Some by (simp add: post_leaves_block_def)
      then have "leaves_block ops" using hook by (metis fst_conv)
      note step = perform_reserved [OF Cons.prems(1) this]
      show ?thesis
        using Cons.IH [OF step(1)] Cons.prems(2,3) step(2) [OF assms]
        by (auto simp: Pair Some hook Let_def)
    qed
  qed
qed simp

end
