(* ===== verification/TryRequest.thy ===== *)
theory TryRequest
  imports PluginPipeline
begin

text \<open>
  One attempt of a request (core/unifai.go: \<^verbatim>\<open>tryRequest\<close>): the hooks before the call, the queue of
  the provider, the answer of the worker and the hooks after it. What happens outside the calling
  goroutine is an argument: the state of the queues, the channel that a select finds ready, the
  worker. The tools that the MCP manager adds are payload, which requests leave out, so that its
  call changes nothing here. Logs, spans and the message pool are left out.
\<close>

subsection \<open>The surroundings of an attempt\<close>

text \<open>Why a producer waiting on a queue goes on, and what it receives from the worker.\<close>

datatype wakeup = Room | Closed | Ended ctx_err

datatype 'r reply = Response "'r core_response option" | Failure core_error | CtxEnded ctx_err

type_synonym queue = nat

text \<open>
  \<open>gw_ready\<close> are the ready cases of the first select of the producer, from which \<open>gw_pick\<close> chooses;
  \<open>gw_wait\<close> is the case that ends the second one. \<open>gw_closing q i\<close> is the closing flag at the
  \<open>i\<close>-th look. \<open>gw_laterCount\<close> is the number of plugins registered when the answer arrives. The
  worker sees the message, and writes to the sub-request that the message shares with the request.
\<close>

record ('w, 'r) gateway =
  gw_plugins :: "('w, 'r) llm_plugin list"
  gw_laterCount :: nat
  gw_tracer :: bool
  gw_queue :: "string \<Rightarrow> string + queue"
  gw_loaded :: "string \<Rightarrow> queue option"
  gw_closing :: "queue \<Rightarrow> nat \<Rightarrow> bool"
  gw_ready :: "queue \<Rightarrow> wakeup list"
  gw_pick :: nat
  gw_wait :: "queue \<Rightarrow> wakeup"
  gw_dropExcess :: bool
  gw_work :: "queue \<Rightarrow> uctx \<Rightarrow> 'w \<Rightarrow> llm_request \<Rightarrow> uctx \<times> 'w \<times> llm_request \<times> 'r reply"
  gw_took :: "string \<Rightarrow> int"

definition populate_error :: "string \<Rightarrow> string \<Rightarrow> string \<Rightarrow> core_error \<Rightarrow> core_error" where
  "populate_error t p m e = e\<lparr>er_ExtraFields := PopulateExtraFields t p m m (er_ExtraFields e)\<rparr>"

definition populate_response :: "string \<Rightarrow> string \<Rightarrow> string \<Rightarrow> 'r core_response \<Rightarrow> 'r core_response" where
  "populate_response t p m r = r\<lparr>cr_Extra := PopulateExtraFields t p m m (cr_Extra r)\<rparr>"

subsection \<open>The queue\<close>

definition shutting_down :: core_error where
  "shutting_down = newUnifAIErrorFromMsg ''provider is shutting down''"

definition wakeup_error :: "wakeup \<Rightarrow> core_error option" where
  "wakeup_error w =
     (case w of
        Room \<Rightarrow> None
      | Closed \<Rightarrow> Some shutting_down
      | Ended e \<Rightarrow> Some (newUnifAICtxDoneError e ''while waiting for queue space''))"

text \<open>A closing queue is exchanged for the provider's new one, when there is one.\<close>

definition reroute :: "('w, 'r) gateway \<Rightarrow> string \<Rightarrow> queue \<Rightarrow> queue option" where
  "reroute gw provider q =
     (if \<not> gw_closing gw q 0 then Some q
      else case gw_loaded gw provider of
             Some q' \<Rightarrow> if q' \<noteq> q \<and> \<not> gw_closing gw q' 0 then Some q' else None
           | None \<Rightarrow> None)"

definition send_message :: "('w, 'r) gateway \<Rightarrow> queue \<Rightarrow> core_error option" where
  "send_message gw q =
     (case gw_ready gw q of
        [] \<Rightarrow> if gw_dropExcess gw then Some (newUnifAIErrorFromMsg ''request dropped: queue is full'')
              else if gw_closing gw q 1 then Some shutting_down
              else wakeup_error (gw_wait gw q)
      | w # ws \<Rightarrow> wakeup_error ((w # ws) ! (gw_pick gw mod length (w # ws))))"

definition enqueue :: "('w, 'r) gateway \<Rightarrow> string \<Rightarrow> queue \<Rightarrow> core_error + queue" where
  "enqueue gw provider q =
     (case reroute gw provider q of
        None \<Rightarrow> Inl shutting_down
      | Some q' \<Rightarrow> (case send_message gw q' of Some e \<Rightarrow> Inl e | None \<Rightarrow> Inr q'))"

subsection \<open>After the answer\<close>

definition KeyDropRawRequestFromClient :: string where
  "KeyDropRawRequestFromClient = ''unifai-drop-raw-request-from-client''"
definition KeyDropRawResponseFromClient :: string where
  "KeyDropRawResponseFromClient = ''unifai-drop-raw-response-from-client''"

definition strip_raw :: "uctx \<Rightarrow> extra \<Rightarrow> extra" where
  "strip_raw c x =
     x\<lparr>xt_RawRequest := (if uc_bool c KeyDropRawRequestFromClient then None else xt_RawRequest x),
       xt_RawResponse := (if uc_bool c KeyDropRawResponseFromClient then None else xt_RawResponse x)\<rparr>"

definition strip_response :: "uctx \<Rightarrow> 'r core_response \<Rightarrow> 'r core_response" where
  "strip_response c r = r\<lparr>cr_Extra := strip_raw c (cr_Extra r)\<rparr>"

definition strip_error :: "uctx \<Rightarrow> core_error \<Rightarrow> core_error" where
  "strip_error c e = e\<lparr>er_ExtraFields := strip_raw c (er_ExtraFields e)\<rparr>"

record ('w, 'o) attempt_end =
  ae_Ctx :: uctx
  ae_World :: 'w
  ae_Request :: llm_request
  ae_Result :: "'o option"
  ae_Error :: "core_error option"

text \<open>The hooks after the call, and the four fields that they cannot change. An error wins.\<close>

definition finish_hooks ::
  "('w, 'r) gateway \<Rightarrow> (('w, 'r) llm_plugin, unit) pipeline \<Rightarrow> string \<times> string \<times> string \<Rightarrow> int \<Rightarrow> uctx \<Rightarrow> 'w \<Rightarrow>
   llm_request \<Rightarrow> 'r core_response option \<Rightarrow> core_error option \<Rightarrow> ('w, 'r core_response) attempt_end" where
  "finish_hooks gw p ident n c w req resp err =
     (case ident of
        (t, provider, model) \<Rightarrow>
          (case RunPostLLMHooks (gw_took gw) p c w resp err n of
             (_, c', w', resp', err') \<Rightarrow>
               (case err' of
                  Some e \<Rightarrow> \<lparr>ae_Ctx = c', ae_World = w', ae_Request = req, ae_Result = None,
                     ae_Error = Some (populate_error t provider model e)\<rparr>
                | None \<Rightarrow> \<lparr>ae_Ctx = c', ae_World = w', ae_Request = req,
                     ae_Result = map_option (populate_response t provider model) resp', ae_Error = None\<rparr>)))"

text \<open>On the way to the client the raw payloads go that were captured for the logs only.\<close>

definition strip_end :: "('w, 'r core_response) attempt_end \<Rightarrow> ('w, 'r core_response) attempt_end" where
  "strip_end a = a\<lparr>ae_Result := map_option (strip_response (ae_Ctx a)) (ae_Result a),
     ae_Error := map_option (strip_error (ae_Ctx a)) (ae_Error a)\<rparr>"

definition strip_result :: "('w, 'r core_response) attempt_end \<Rightarrow> ('w, 'r core_response) attempt_end" where
  "strip_result a = a\<lparr>ae_Result := map_option (strip_response (ae_Ctx a)) (ae_Result a)\<rparr>"

definition failed_end :: "uctx \<Rightarrow> 'w \<Rightarrow> llm_request \<Rightarrow> core_error \<Rightarrow> ('w, 'o) attempt_end" where
  "failed_end c w req e = \<lparr>ae_Ctx = c, ae_World = w, ae_Request = req, ae_Result = None, ae_Error = Some e\<rparr>"

text \<open>A message is a copy of the request, which shares the sub-request with it.\<close>

definition share_sub :: "llm_request \<Rightarrow> llm_request \<Rightarrow> llm_request" where
  "share_sub req sent = req\<lparr>rq_Provider := rq_Provider sent, rq_Model := rq_Model sent, rq_Fallbacks := rq_Fallbacks sent\<rparr>"

definition request_id :: "llm_request \<Rightarrow> llm_request \<Rightarrow> string \<times> string \<times> string" where
  "request_id typed req = (case GetRequestFields req of (p, m, _) \<Rightarrow> (rq_RequestType typed, p, m))"

subsection \<open>The attempt\<close>

text \<open>From the queue on: \<open>sent\<close> is the request that the hooks handed on, \<open>h\<close> says whose it is.\<close>

definition ask_provider ::
  "('w, 'r) gateway \<Rightarrow> (('w, 'r) llm_plugin, unit) pipeline \<Rightarrow> queue \<Rightarrow> uctx \<Rightarrow> 'w \<Rightarrow> llm_request \<Rightarrow> llm_request held \<Rightarrow>
   llm_request \<Rightarrow> ('w, 'r core_response) attempt_end" where
  "ask_provider gw p q c w orig h sent =
     (case request_id orig sent of
        (t, provider, model) \<Rightarrow>
          (case enqueue gw provider q of
             Inl e \<Rightarrow> failed_end c w orig (populate_error t provider model e)
           | Inr q' \<Rightarrow>
               (case gw_work gw q' c w sent of
                  (c', w', sent', reply) \<Rightarrow>
                    (let orig' = write_received h (share_sub orig sent') orig;
                         t' = rq_RequestType orig'
                     in case reply of
                          Response r \<Rightarrow>
                            strip_result (finish_hooks gw p (t', provider, model) (int (gw_laterCount gw)) c' w' orig' r None)
                        | Failure e \<Rightarrow>
                            strip_end (finish_hooks gw p (t', provider, model) (int (gw_laterCount gw)) c' w' orig' None (Some e))
                        | CtxEnded e \<Rightarrow>
                            (case request_id orig' orig' of
                               (t2, p2, m2) \<Rightarrow>
                                 failed_end c' w' orig'
                                   (populate_error t2 p2 m2 (newUnifAICtxDoneError e ''waiting for provider response'')))))))"

definition go_on ::
  "('w, 'r) gateway \<Rightarrow> (('w, 'r) llm_plugin, unit) pipeline \<Rightarrow> queue \<Rightarrow> string \<times> string \<times> string \<Rightarrow>
   ('w, llm_request, 'r short_circuit) pre_end \<Rightarrow> ('w, 'r core_response) attempt_end" where
  "go_on gw p q ident e =
     (case current (pe_Original e) (pe_Held e) of
        None \<Rightarrow>
          (case ident of
             (t, provider, model) \<Rightarrow>
               failed_end (pe_Ctx e) (pe_World e) (pe_Original e)
                 (populate_error t provider model
                   (newUnifAIErrorFromMsg ''unifai request after plugin hooks cannot be nil'')))
      | Some sent \<Rightarrow> ask_provider gw p q (pe_Ctx e) (pe_World e) (pe_Original e) (pe_Held e) sent)"

definition tryRequest ::
  "('w, 'r) gateway \<Rightarrow> uctx \<Rightarrow> 'w \<Rightarrow> llm_request \<Rightarrow> ('w, 'r core_response) attempt_end" where
  "tryRequest gw c w req =
     (case request_id req req of
        (t, provider, model) \<Rightarrow>
          (case gw_queue gw provider of
             Inl e \<Rightarrow> failed_end c w req (populate_error t provider model (newUnifAIError e))
           | Inr q \<Rightarrow>
               if \<not> gw_tracer gw
               then failed_end c w req (populate_error t provider model (newUnifAIErrorFromMsg ''tracer not found in context''))
               else
                 (case RunLLMPreHooks (getPluginPipeline (gw_plugins gw) [] new_pipeline)
                         (uc_SetValue KeyTracer (CBool True) c) w req of
                    (p, e) \<Rightarrow>
                      (let orig = pe_Original e; t1 = rq_RequestType orig in
                       case pe_Short e of
                         Some s \<Rightarrow>
                           (case sc_Response s of
                              Some r \<Rightarrow>
                                finish_hooks gw p (t1, provider, model) (int (pe_Count e)) (pe_Ctx e) (pe_World e) orig
                                  (Some (populate_response t1 provider model r)) None
                            | None \<Rightarrow>
                                (case sc_Error s of
                                   Some x \<Rightarrow>
                                     finish_hooks gw p (t1, provider, model) (int (pe_Count e)) (pe_Ctx e) (pe_World e) orig
                                       None (Some (populate_error t1 provider model x))
                                 | None \<Rightarrow> go_on gw p q (t1, provider, model) e))
                       | None \<Rightarrow> go_on gw p q (t1, provider, model) e))))"

subsection \<open>Hooks keep the reserved keys\<close>

lemma run_pre_hooks_reserved:
  assumes "guarded_key k" "\<forall>x\<in>set hooks. pre_leaves_block x"
  shows "uc_Value (pe_Ctx (snd (run_pre_hooks hooks p c w req))) k = uc_Value c k"
  using assms by (simp add: run_pre_hooks_def Let_def context_switch pre_chain_reserved)

lemma run_post_hooks_reserved:
  assumes "guarded_key k" "\<forall>x\<in>snd ` set hooks. post_leaves_block x"
    and "run_post_hooks s took hooks p c w resp err n = (p', c', w', resp', err')"
  shows "uc_Value c' k = uc_Value c k"
proof -
  obtain p1 c1 w1 r1 e1 where run: "post_chain s took (rev (take (nat n) hooks)) p (BlockRestrictedWrites c) w resp err =
      (p1, c1, w1, r1, e1)"
    by (metis prod_cases5)
  have "\<forall>x\<in>snd ` set (rev (take (nat n) hooks)). post_leaves_block x"
    using assms(2) by (auto dest: in_set_takeD)
  then have "uc_Value c1 k = uc_Value c k"
    using post_chain_reserved [OF assms(1) context_switch(2) _ run] by (simp add: context_switch)
  then show ?thesis using assms(3) by (auto simp: run_post_hooks_def run context_switch)
qed

lemma commit_pin_value:
  "uc_Value (commit_pin c) k = uc_Value c k \<or>
   k = KeyAPIKeyID \<and> (\<exists>s. uc_Value c KeyRoutingPinnedAPIKeyID = CStr s \<and> str_trim s \<noteq> [] \<and>
     uc_Value (commit_pin c) k = CStr (str_trim s))"
  by (auto simp: commit_pin_def Let_def uc_SetValue_def hook_rules split: ctx_value.splits)

lemma RunPreRequestHooks_reserved:
  assumes "guarded_key k" "k \<noteq> KeyAPIKeyID" "\<forall>g\<in>set (ppl_llmPlugins p). routing_leaves_block g"
  shows "uc_Value (fst (snd (RunPreRequestHooks p c w req))) k = uc_Value c k"
proof -
  obtain es c1 w1 r1 where run: "pre_request_chain (ppl_llmPlugins p) (ppl_preHookErrors p) (BlockRestrictedWrites c) w req =
      (es, c1, w1, r1)"
    by (metis prod_cases4)
  have "uc_Value c1 k = uc_Value c k"
    using pre_request_chain_reserved [OF assms(1) context_switch(2) assms(3) run] by (simp add: context_switch)
  moreover have "uc_Value (commit_pin (UnblockRestrictedWrites c1)) k = uc_Value c1 k"
    using commit_pin_value [of "UnblockRestrictedWrites c1" k] assms(2) by (simp add: context_switch)
  ultimately show ?thesis by (simp add: RunPreRequestHooks_def run)
qed

text \<open>A plugin none of whose hooks lifts the block of the root context.\<close>

definition respects_block :: "('w, 'r) llm_plugin \<Rightarrow> bool" where
  "respects_block g \<longleftrightarrow> routing_leaves_block g \<and> pre_leaves_block (Some (pg_PreLLMHook g)) \<and>
     post_leaves_block (Some (pg_PostLLMHook g))"

text \<open>
  C16. Plugins that do not lift the block on the root context change no key that is reserved to the
  core while their hooks run, through whichever method of the context they write: the hooks before and
  after the call change none but the flag of the stream gate, and after the hooks of the routing phase
  the id of the API key may differ as well, which the core then sets to the key that a rule pinned.
  Writes of a goroutine that outlives its hook are not covered. A plugin can lift the block, and then
  nothing is kept: \<open>unblocking_plugin_writes_reserved_key\<close>.
\<close>

theorem hooks_keep_reserved_keys:
  assumes "guarded_key k" "\<forall>g\<in>set (ppl_llmPlugins p). respects_block g"
  shows "uc_Value (pe_Ctx (snd (RunLLMPreHooks p c w req))) k = uc_Value c k \<and>
     uc_Value (fst (snd (RunPostLLMHooks took p c w resp err n))) k = uc_Value c k \<and>
     (k = KeyAPIKeyID \<or> uc_Value (fst (snd (RunPreRequestHooks p c w req))) k = uc_Value c k)"
proof (intro conjI)
  show "uc_Value (pe_Ctx (snd (RunLLMPreHooks p c w req))) k = uc_Value c k"
    unfolding RunLLMPreHooks_def by (rule run_pre_hooks_reserved) (use assms in \<open>auto simp: respects_block_def\<close>)
  show "uc_Value (fst (snd (RunPostLLMHooks took p c w resp err n))) k = uc_Value c k"
  proof (cases "uc_bool c KeySkipPluginPipeline")
    case True
    then show ?thesis by (simp add: RunPostLLMHooks_def)
  next
    case False
    obtain p' c' w' r' e' where run: "RunPostLLMHooks took p c w resp err n = (p', c', w', r', e')" by (metis prod_cases5)
    have "\<forall>x\<in>snd ` set (map (\<lambda>g. (pg_Name g, Some (pg_PostLLMHook g))) (ppl_llmPlugins p)). post_leaves_block x"
      using assms(2) by (auto simp: respects_block_def)
    from run_post_hooks_reserved [OF assms(1) this] run False show ?thesis by (auto simp: RunPostLLMHooks_def)
  qed
  show "k = KeyAPIKeyID \<or> uc_Value (fst (snd (RunPreRequestHooks p c w req))) k = uc_Value c k"
    using RunPreRequestHooks_reserved [OF assms(1), of p c w req] assms(2) unfolding respects_block_def by blast
qed

text \<open>A plugin that tries to name another caller: its write to the virtual key is dropped.\<close>

definition w_meddling :: "(unit, string) llm_plugin" where
  "w_meddling =
     \<lparr>pg_Name = ''meddling'',
      pg_PreRequestHook = (\<lambda>v w req. ([SetOp ''x-uf-vk'' (CStr ''other'')], w, req, None)),
      pg_PreLLMHook = (\<lambda>v w q. \<lparr>pa_Ops = [ClearOp ''x-uf-vk''], pa_World = w, pa_Received = chat_request,
        pa_Request = Received, pa_Short = None, pa_Error = None\<rparr>),
      pg_PostLLMHook = (\<lambda>v w resp err. ([GetAndSetOp ''x-uf-vk'' CNil], w, resp, err, None))\<rparr>"

definition w_owned :: uctx where
  "w_owned = \<lparr>uc_values = [(''x-uf-vk'', CStr ''mine'')], uc_blocked = False, uc_parent = (\<lambda>_. CNil)\<rparr>"

definition w_meddled :: "((unit, string) llm_plugin, unit) pipeline" where
  "w_meddled = getPluginPipeline [w_meddling] [] new_pipeline"

theorem hooks_keep_reserved_keys_witness:
  "uc_Value (pe_Ctx (snd (RunLLMPreHooks w_meddled w_owned () chat_request))) ''x-uf-vk'' = CStr ''mine'' \<and>
   uc_Value (fst (snd (RunPostLLMHooks (\<lambda>_. 0) w_meddled w_owned () None None 1))) ''x-uf-vk'' = CStr ''mine''"
proof -
  have "guarded_key ''x-uf-vk''"
    by (simp add: guarded_key_def reservedKeys_def KeyStreamGated_def)
  moreover have "uc_Value w_owned ''x-uf-vk'' = CStr ''mine''"
    by (simp add: w_owned_def uc_Value_def sm_load_def)
  moreover have "\<forall>g\<in>set (ppl_llmPlugins w_meddled). respects_block g"
    by (simp add: w_meddled_def getPluginPipeline_def w_meddling_def respects_block_def routing_leaves_block_def
        pre_leaves_block_def post_leaves_block_def leaves_block_def)
  ultimately show ?thesis
    using hooks_keep_reserved_keys [of "''x-uf-vk''" w_meddled w_owned "()" chat_request "\<lambda>_. 0" None None 1] by simp
qed

text \<open>Through the root context a hook can lift the block that is to keep it from the reserved keys.\<close>

definition w_unblocking :: "(unit, string) llm_plugin" where
  "w_unblocking = w_meddling\<lparr>pg_PreLLMHook := (\<lambda>v w q.
     (pg_PreLLMHook w_meddling v w q)\<lparr>pa_Ops := [RootUnblockOp, SetOp ''x-uf-vk'' (CStr ''other'')]\<rparr>)\<rparr>"

lemma unblocking_plugin_writes_reserved_key:
  "uc_Value (pe_Ctx (snd (RunLLMPreHooks
     (getPluginPipeline [w_unblocking] [] (new_pipeline :: ((unit, string) llm_plugin, unit) pipeline))
     w_owned () chat_request))) ''x-uf-vk'' = CStr ''other''"
  by code_simp

subsection \<open>Hooks run in brackets\<close>

text \<open>A plugin that also writes down which of its hooks ran.\<close>

datatype hook_event = PreRan string | PostRan string

definition recorded :: "('w, 'r) llm_plugin \<Rightarrow> ('w \<times> hook_event list, 'r) llm_plugin" where
  "recorded g =
     \<lparr>pg_Name = pg_Name g,
      pg_PreRequestHook = (\<lambda>v (w, es) req.
        case pg_PreRequestHook g v w req of (ops, w', req', e) \<Rightarrow> (ops, (w', es), req', e)),
      pg_PreLLMHook = (\<lambda>v (w, es) q.
        let a = pg_PreLLMHook g v w q
        in \<lparr>pa_Ops = pa_Ops a, pa_World = (pa_World a, es @ [PreRan (pg_Name g)]), pa_Received = pa_Received a,
            pa_Request = pa_Request a, pa_Short = pa_Short a, pa_Error = pa_Error a\<rparr>),
      pg_PostLLMHook = (\<lambda>v (w, es) resp err.
        case pg_PostLLMHook g v w resp err of
          (ops, w', resp', err', e) \<Rightarrow> (ops, (w', es @ [PostRan (pg_Name g)]), resp', err', e))\<rparr>"







lemma recorded_pre [simp]:
  "pa_Ops (pg_PreLLMHook (recorded g) v w q) = pa_Ops (pg_PreLLMHook g v (fst w) q)"
  "pa_Short (pg_PreLLMHook (recorded g) v w q) = pa_Short (pg_PreLLMHook g v (fst w) q)"
  "snd (pa_World (pg_PreLLMHook (recorded g) v w q)) = snd w @ [PreRan (pg_Name g)]"
  by (auto simp: recorded_def Let_def split: prod.splits)

lemma recorded_name [simp]: "pg_Name (recorded g) = pg_Name g"
  by (simp add: recorded_def)











text \<open>The errors of an attempt that got no answer after its hooks ran.\<close>

definition no_answer :: "core_error \<Rightarrow> bool" where
  "no_answer e \<longleftrightarrow>
     (let bare = e\<lparr>er_ExtraFields := no_extra\<rparr>
      in bare \<in> {newUnifAIErrorFromMsg ''unifai request after plugin hooks cannot be nil'', shutting_down,
                 newUnifAIErrorFromMsg ''request dropped: queue is full''} \<or>
         (\<exists>x stage. bare = newUnifAICtxDoneError x stage))"

lemma no_answer_populated [simp]: "no_answer (populate_error t p m e) = no_answer e"
  by (simp add: no_answer_def populate_error_def)

lemma no_answer_errors [simp]:
  "no_answer (newUnifAIErrorFromMsg ''unifai request after plugin hooks cannot be nil'')" "no_answer shutting_down"
  "no_answer (newUnifAIErrorFromMsg ''request dropped: queue is full'')" "no_answer (newUnifAICtxDoneError x stage)"
  by (auto simp: no_answer_def Let_def newUnifAIErrorFromMsg_def shutting_down_def newUnifAICtxDoneError_def
      split: ctx_err.splits)




lemma end_world [simp]:
  "ae_World (strip_end a) = ae_World a" "ae_World (strip_result a) = ae_World a"
  "ae_World (failed_end c w req e) = w" "ae_Error (failed_end c w req e) = Some e"
  "ae_Result (failed_end c w req e) = None"
  by (simp_all add: strip_end_def strip_result_def failed_end_def)






subsection \<open>Examples\<close>

definition w_passive :: "string \<Rightarrow> (unit, string) llm_plugin" where
  "w_passive name =
     \<lparr>pg_Name = name,
      pg_PreRequestHook = (\<lambda>v w req. ([], w, req, None)),
      pg_PreLLMHook = (\<lambda>v w q. \<lparr>pa_Ops = [], pa_World = w, pa_Received = (case q of Some r \<Rightarrow> r | None \<Rightarrow> chat_request),
        pa_Request = Received, pa_Short = None, pa_Error = None\<rparr>),
      pg_PostLLMHook = (\<lambda>v w resp err. ([], w, resp, err, None))\<rparr>"

definition w_gateway :: "(unit \<times> hook_event list, string) gateway" where
  "w_gateway =
     \<lparr>gw_plugins = map recorded [w_passive ''a'', w_passive ''b''], gw_laterCount = 2, gw_tracer = True,
      gw_queue = (\<lambda>_. Inr 0), gw_loaded = (\<lambda>_. Some 0), gw_closing = (\<lambda>_ _. False),
      gw_ready = (\<lambda>_. [Room]), gw_pick = 0, gw_wait = (\<lambda>_. Room), gw_dropExcess = True,
      gw_work = (\<lambda>q c w r. (c, w, r, Response (Some \<lparr>cr_Extra = no_extra, cr_Body = ''ok''\<rparr>))), gw_took = (\<lambda>_. 0)\<rparr>"

definition w_uctx :: uctx where
  "w_uctx = \<lparr>uc_values = [], uc_blocked = False, uc_parent = (\<lambda>_. CNil)\<rparr>"

lemmas attempt_run = tryRequest_def request_id_def w_gateway_def w_uctx_def RunLLMPreHooks_def run_pre_hooks_def
  getPluginPipeline_def new_pipeline_def uc_bool_def uc_Value_def uc_SetValue_def write_dropped_def setReservedValue_def
  sm_load_def sm_store_def chat_request_def GetRequestFields_def kind_lists BlockRestrictedWrites_def
  UnblockRestrictedWrites_def recorded_def w_passive_def perform_def go_on_def ask_provider_def enqueue_def reroute_def
  send_message_def wakeup_error_def finish_hooks_def RunPostLLMHooks_def run_post_hooks_def settle_post_def add_error_def
  strip_end_def strip_result_def failed_end_def KeyTracer_def KeySkipPluginPipeline_def KeyStreamStartTime_def opt_str_def



lemma answered_request_events:
  "snd (ae_World (tryRequest w_gateway w_uctx ((), []) chat_request)) =
     [PreRan ''a'', PreRan ''b'', PostRan ''b'', PostRan ''a'']"
  by (simp add: attempt_run Let_def)

text \<open>A request that a full queue drops leaves the hooks that ran without their counterpart.\<close>

lemma dropped_request_skips_post_hooks:
  "snd (ae_World (tryRequest (w_gateway\<lparr>gw_ready := \<lambda>_. []\<rparr>) w_uctx ((), []) chat_request)) = [PreRan ''a'', PreRan ''b'']"
  by (simp add: attempt_run Let_def)

text \<open>So does a plugin that was unregistered while the call ran: the last one of the pipeline pays for it.\<close>

lemma unregistered_plugin_skips_post_hook:
  "snd (ae_World (tryRequest (w_gateway\<lparr>gw_laterCount := 1\<rparr>) w_uctx ((), []) chat_request)) =
     [PreRan ''a'', PreRan ''b'', PostRan ''a'']"
  by (simp add: attempt_run Let_def)

text \<open>A short circuit that only carries a stream is ignored, and later plugins see an answer to a call they did not see.\<close>

definition w_streaming :: "(unit, string) llm_plugin" where
  "w_streaming = (w_passive ''a'')\<lparr>pg_PreLLMHook := \<lambda>v w q.
     (pg_PreLLMHook (w_passive ''a'') v w q)\<lparr>pa_Short := Some \<lparr>sc_Response = None, sc_Stream = Some [], sc_Error = None\<rparr>\<rparr>\<rparr>"

lemma stream_short_circuit_runs_extra_posts:
  "snd (ae_World (tryRequest (w_gateway\<lparr>gw_plugins := map recorded [w_streaming, w_passive ''b'']\<rparr>) w_uctx ((), []) chat_request)) =
     [PreRan ''a'', PostRan ''b'', PostRan ''a'']"
  by (simp add: attempt_run w_streaming_def Let_def)

end
