(* ===== verification/Fallbacks.thy ===== *)
theory Fallbacks
  imports TryRequest
begin

text \<open>
  The orchestration of a request (core/unifai.go: \<^verbatim>\<open>handleRequest\<close> and \<^verbatim>\<open>handleStreamRequest\<close>, which
  differ in the attempt that they make and in what they mark on its result): the phase before the
  request, the attempt on the primary provider and the attempts on its fallbacks. The list of the
  attempts made is kept beside the result, which the code does not do. Routing logs, spans and the
  release of the request to its pool are left out; the context is the caller's.
\<close>

subsection \<open>When to fall back, and to what\<close>

definition allows_fallbacks :: "core_error \<Rightarrow> bool" where
  "allows_fallbacks e \<longleftrightarrow> er_AllowFallbacks e \<noteq> Some False"

definition shouldTryFallbacks :: "llm_request \<Rightarrow> core_error option \<Rightarrow> bool" where
  "shouldTryFallbacks req primaryErr =
     (case primaryErr of
        None \<Rightarrow> False
      | Some e \<Rightarrow> \<not> is_cancelled e \<and> allows_fallbacks e \<and> snd (snd (GetRequestFields req)) \<noteq> [])"

text \<open>The kinds of requests that get a sub-request of their own, with the provider and the model of the fallback.\<close>

definition rewritten_kinds :: "request_kind list" where
  "rewritten_kinds = [TextCompletion, Chat, Responses, CountTokens, Compaction, Embedding, Rerank, OCR, Speech,
     Transcription, ImageGeneration, VideoGeneration]"

definition rewritten :: "llm_request \<Rightarrow> bool" where
  "rewritten req \<longleftrightarrow> (case rq_Kind req of Some k \<Rightarrow> k \<in> set rewritten_kinds | None \<Rightarrow> False)"

definition prepareFallbackRequest :: "(string \<Rightarrow> bool) \<Rightarrow> llm_request \<Rightarrow> fallback \<Rightarrow> llm_request option" where
  "prepareFallbackRequest configured req fb =
     (if \<not> configured (fb_Provider fb) then None
      else if rewritten req then Some (req\<lparr>rq_Provider := fb_Provider fb, rq_Model := Some (fb_Model fb)\<rparr>)
      else Some req)"

text \<open>\<open>None\<close> is the panic on an error without its \<^verbatim>\<open>Error\<close> field, which the code reads unguarded.\<close>

definition shouldContinueWithFallbacks :: "core_error \<Rightarrow> bool option" where
  "shouldContinueWithFallbacks e =
     (case er_Error e of
        None \<Rightarrow> None
      | Some f \<Rightarrow> Some (ef_Type f \<noteq> Some RequestCancelled \<and> allows_fallbacks e))"

definition KeyRequestID :: string where "KeyRequestID = ''request-id''"
definition KeyFallbackRequestID :: string where "KeyFallbackRequestID = ''fallback-request-id''"
definition KeyChangeRequestType :: string where "KeyChangeRequestType = ''unifai-change-request-type''"
definition KeyAttemptTrail :: string where "KeyAttemptTrail = ''unifai-attempt-trail''"
definition KeyStreamEndIndicator :: string where "KeyStreamEndIndicator = ''unifai-stream-end-indicator''"
definition KeyConnectionClosed :: string where "KeyConnectionClosed = ''connection_closed''"
definition KeySupportsAssistantPrefill :: string where
  "KeySupportsAssistantPrefill = ''unifai-supports-assistant-prefill''"

definition cleared_keys :: "string list" where
  "cleared_keys = [KeyAPIKeyID, KeyAPIKeyName, KeyIncludeOnlyKeys, KeyChangeRequestType, KeyAttemptTrail,
     KeyStreamEndIndicator, KeyConnectionClosed, KeySupportsAssistantPrefill]"

definition clearCtxForFallback :: "uctx \<Rightarrow> uctx" where
  "clearCtxForFallback c = fold uc_ClearValue cleared_keys c"

definition append_ctx_list :: "string \<Rightarrow> string \<Rightarrow> uctx \<Rightarrow> uctx" where
  "append_ctx_list key v c =
     (let existing = (case uc_Value c key of CStrs l \<Rightarrow> l | _ \<Rightarrow> [])
      in if v \<in> set existing then c else uc_SetValue key (CStrs (existing @ [v])) c)"

definition RoutingEngineCore :: string where "RoutingEngineCore = ''core''"

subsection \<open>The orchestration\<close>

text \<open>\<open>or_mark\<close> marks a result as that of a fallback for a primary provider and model.\<close>

record ('w, 'r, 'o) orchestra =
  or_plugins :: "('w, 'r) llm_plugin list"
  or_try :: "nat \<Rightarrow> uctx \<Rightarrow> 'w \<Rightarrow> llm_request \<Rightarrow> ('w, 'o) attempt_end"
  or_mark :: "string \<Rightarrow> string \<Rightarrow> 'o \<Rightarrow> 'o"
  or_configured :: "string \<Rightarrow> bool"
  or_newID :: "nat \<Rightarrow> string"

record 'o made =
  md_Index :: nat
  md_Ctx :: uctx
  md_Request :: llm_request
  md_Left :: llm_request
  md_Result :: "'o option"
  md_Error :: "core_error option"

record ('w, 'o) handled =
  ho_Ctx :: uctx
  ho_World :: 'w
  ho_Result :: "'o option"
  ho_Error :: "core_error option"
  ho_Panic :: bool
  ho_Made :: "'o made list"

definition answer ::
  "uctx \<Rightarrow> 'w \<Rightarrow> 'o option \<Rightarrow> core_error option \<Rightarrow> 'o made list \<Rightarrow> ('w, 'o) handled" where
  "answer c w r e ms = \<lparr>ho_Ctx = c, ho_World = w, ho_Result = r, ho_Error = e, ho_Panic = False, ho_Made = ms\<rparr>"

definition mark_error :: "string \<Rightarrow> string \<Rightarrow> core_error \<Rightarrow> core_error" where
  "mark_error p m e = e\<lparr>er_ExtraFields := SetFallbackRoutingInfo p m (er_ExtraFields e)\<rparr>"

definition mark_response :: "string \<Rightarrow> string \<Rightarrow> 'r core_response \<Rightarrow> 'r core_response" where
  "mark_response p m r = r\<lparr>cr_Extra := SetFallbackRoutingInfo p m (cr_Extra r)\<rparr>"

definition fallback_ctx :: "('w, 'r, 'o) orchestra \<Rightarrow> nat \<Rightarrow> uctx \<Rightarrow> uctx" where
  "fallback_ctx env i c =
     clearCtxForFallback (uc_SetValue KeyFallbackRequestID (CStr (or_newID env i))
       (uc_SetValue KeyFallbackIndex (CInt (int i)) c))"

text \<open>
  The \<open>i\<close>-th fallback and those after it. A request that was not rewritten shares its sub-request
  with the message of the fallback.
\<close>

fun try_fallbacks ::
  "('w, 'r, 'o) orchestra \<Rightarrow> string \<times> string \<Rightarrow> core_error \<Rightarrow> nat \<Rightarrow> fallback list \<Rightarrow> uctx \<Rightarrow> 'w \<Rightarrow> llm_request \<Rightarrow>
   'o made list \<Rightarrow> ('w, 'o) handled" where
  "try_fallbacks env primary primaryErr i [] c w req ms = answer c w None (Some primaryErr) ms"
| "try_fallbacks env primary primaryErr i (fb # fbs) c w req ms =
     (let c1 = fallback_ctx env i c
      in case prepareFallbackRequest (or_configured env) req fb of
           None \<Rightarrow> try_fallbacks env primary primaryErr (Suc i) fbs c1 w req ms
         | Some fallbackReq \<Rightarrow>
             (let a = or_try env i c1 w fallbackReq;
                  result = map_option (or_mark env (fst primary) (snd primary)) (ae_Result a);
                  err = map_option (mark_error (fst primary) (snd primary)) (ae_Error a);
                  ms' = ms @ [\<lparr>md_Index = i, md_Ctx = c1, md_Request = fallbackReq, md_Left = ae_Request a,
                    md_Result = result, md_Error = err\<rparr>];
                  req' = (if rewritten req then req else share_sub req (ae_Request a))
              in case err of
                   None \<Rightarrow> answer (ae_Ctx a) (ae_World a) result None ms'
                 | Some e \<Rightarrow>
                     (case shouldContinueWithFallbacks e of
                        None \<Rightarrow> (answer (ae_Ctx a) (ae_World a) None None ms')\<lparr>ho_Panic := True\<rparr>
                      | Some False \<Rightarrow> answer (ae_Ctx a) (ae_World a) None (Some e) ms'
                      | Some True \<Rightarrow> try_fallbacks env primary primaryErr (Suc i) fbs (ae_Ctx a) (ae_World a) req' ms')))"

definition start_ctx :: "('w, 'r, 'o) orchestra \<Rightarrow> uctx \<Rightarrow> uctx" where
  "start_ctx env c =
     (let c1 = uc_SetValue KeyFallbackIndex (CInt 0) c
      in case uc_Value c1 KeyRequestID of CStr s \<Rightarrow> c1 | _ \<Rightarrow> uc_SetValue KeyRequestID (CStr (or_newID env 0)) c1)"

definition orchestrate :: "('w, 'r, 'o) orchestra \<Rightarrow> uctx \<Rightarrow> 'w \<Rightarrow> llm_request \<Rightarrow> ('w, 'o) handled" where
  "orchestrate env c w req0 =
     (case RunPreRequestHooks (getPluginPipeline (or_plugins env) ([] :: unit list) new_pipeline) (start_ctx env c) w req0 of
        (_, c1, w1, req) \<Rightarrow>
          (case GetRequestFields req of
             (provider, model, fbs) \<Rightarrow>
               (case validateRequestAfterPreRequestHooks req of
                  Some e \<Rightarrow> answer c1 w1 None (Some (populate_error (rq_RequestType req) provider model e)) []
                | None \<Rightarrow>
                    (let a = or_try env 0 c1 w1 req;
                         ms = [\<lparr>md_Index = 0, md_Ctx = c1, md_Request = req, md_Left = ae_Request a,
                            md_Result = ae_Result a, md_Error = ae_Error a\<rparr>]
                     in if shouldTryFallbacks (ae_Request a) (ae_Error a)
                        then try_fallbacks env (provider, model) (the (ae_Error a)) 1 fbs
                               (append_ctx_list KeyRoutingEnginesUsed RoutingEngineCore (ae_Ctx a)) (ae_World a)
                               (ae_Request a) ms
                        else answer (ae_Ctx a) (ae_World a) (ae_Result a) (ae_Error a) ms))))"

definition handleRequest ::
  "(nat \<Rightarrow> ('w, 'r) gateway) \<Rightarrow> ('w, 'r) llm_plugin list \<Rightarrow> (string \<Rightarrow> bool) \<Rightarrow> (nat \<Rightarrow> string) \<Rightarrow> uctx \<Rightarrow> 'w \<Rightarrow> llm_request \<Rightarrow>
   ('w, 'r core_response) handled" where
  "handleRequest gws plugins configured newID =
     orchestrate \<lparr>or_plugins = plugins, or_try = (\<lambda>i. tryRequest (gws i)), or_mark = mark_response,
       or_configured = configured, or_newID = newID\<rparr>"

subsection \<open>Fallbacks are tried in order\<close>

text \<open>The indices of the fallbacks whose provider is configured, from \<open>i\<close> on.\<close>

fun reachable :: "(string \<Rightarrow> bool) \<Rightarrow> nat \<Rightarrow> fallback list \<Rightarrow> nat list" where
  "reachable configured i [] = []"
| "reachable configured i (fb # fbs) =
     (if configured (fb_Provider fb) then i # reachable configured (Suc i) fbs else reachable configured (Suc i) fbs)"

definition resumable :: "'o made \<Rightarrow> bool" where
  "resumable t \<longleftrightarrow> (\<exists>e. md_Error t = Some e \<and> shouldContinueWithFallbacks e = Some True)"

text \<open>
  What the attempts \<open>ts\<close> on the fallbacks decide: the first success, the first error that halts, a
  panic on an error without its field, or, when all of them failed, the error of the primary.
\<close>

definition fallback_outcome :: "nat list \<Rightarrow> core_error \<Rightarrow> 'o made list \<Rightarrow> ('w, 'o) handled \<Rightarrow> bool" where
  "fallback_outcome targets primaryErr ts h \<longleftrightarrow>
     map md_Index ts = take (length ts) targets \<and> list_all resumable (butlast ts) \<and>
     (if ts \<noteq> [] \<and> \<not> resumable (last ts)
      then (case md_Error (last ts) of
              None \<Rightarrow> ho_Result h = md_Result (last ts) \<and> ho_Error h = None \<and> \<not> ho_Panic h
            | Some e \<Rightarrow> ho_Result h = None \<and>
                (if er_Error e = None then ho_Panic h else ho_Error h = Some e \<and> \<not> ho_Panic h))
      else length ts = length targets \<and> ho_Result h = None \<and> ho_Error h = Some primaryErr \<and> \<not> ho_Panic h)"

lemma fallback_outcome_step:
  assumes "resumable t" "fallback_outcome targets e ts h"
  shows "fallback_outcome (md_Index t # targets) e (t # ts) h"
  using assms by (cases "ts = []") (auto simp: fallback_outcome_def split: option.splits)

lemma nth_later: "Suc i \<le> j \<Longrightarrow> (x # xs) ! (j - i) = xs ! (j - Suc i)"
  by (simp add: nth_Cons split: nat.split) (metis Suc_diff_le diff_Suc_Suc nat.inject)

lemma continue_None: "shouldContinueWithFallbacks e = None \<longleftrightarrow> er_Error e = None"
  by (auto simp: shouldContinueWithFallbacks_def split: option.splits)

text \<open>
  The requests of the attempts \<open>ts\<close> on fallbacks from index \<open>i\<close> on: a request that is rewritten goes
  out with the provider and the model of the fallback; one that is not goes out as the attempt before
  it left it.
\<close>

fun made_for :: "nat \<Rightarrow> fallback list \<Rightarrow> llm_request \<Rightarrow> 'o made list \<Rightarrow> bool" where
  "made_for i fbs req [] \<longleftrightarrow> True"
| "made_for i fbs req (t # ts) \<longleftrightarrow>
     i \<le> md_Index t \<and>
     md_Request t =
       (if rewritten req
        then req\<lparr>rq_Provider := fb_Provider (fbs ! (md_Index t - i)), rq_Model := Some (fb_Model (fbs ! (md_Index t - i)))\<rparr>
        else req) \<and>
     made_for i fbs (if rewritten req then req else share_sub req (md_Left t)) ts"

lemma made_for_later: "made_for (Suc i) fbs req ts \<Longrightarrow> made_for i (fb # fbs) req ts"
  by (induction ts arbitrary: req) (simp_all add: nth_later split: if_splits)

lemma prepared:
  "prepareFallbackRequest configured req fb = Some fr \<Longrightarrow>
   fr = (if rewritten req then req\<lparr>rq_Provider := fb_Provider fb, rq_Model := Some (fb_Model fb)\<rparr> else req)"
  by (auto simp: prepareFallbackRequest_def split: if_splits)

lemma try_fallbacks_outcome:
  "\<exists>ts. ho_Made (try_fallbacks env pm e i fbs c w req ms) = ms @ ts \<and>
     fallback_outcome (reachable (or_configured env) i fbs) e ts (try_fallbacks env pm e i fbs c w req ms) \<and>
     made_for i fbs req ts"
proof (induction fbs arbitrary: i c w req ms)
  case Nil
  show ?case by (simp add: answer_def fallback_outcome_def)
next
  case (Cons fb fbs)
  let ?c = "fallback_ctx env i c"
  show ?case
  proof (cases "prepareFallbackRequest (or_configured env) req fb")
    case None
    then have off: "\<not> or_configured env (fb_Provider fb)" by (auto simp: prepareFallbackRequest_def split: if_splits)
    obtain ts where ts: "ho_Made (try_fallbacks env pm e (Suc i) fbs ?c w req ms) = ms @ ts"
      "fallback_outcome (reachable (or_configured env) (Suc i) fbs) e ts (try_fallbacks env pm e (Suc i) fbs ?c w req ms)"
      "made_for (Suc i) fbs req ts"
      using Cons.IH by blast
    then show ?thesis using None off
      by (intro exI [of _ ts]) (simp add: Let_def made_for_later)
  next
    case (Some fr)
    then have on: "or_configured env (fb_Provider fb)" by (auto simp: prepareFallbackRequest_def split: if_splits)
    define a where "a = or_try env i ?c w fr"
    define t where "t = \<lparr>md_Index = i, md_Ctx = ?c, md_Request = fr, md_Left = ae_Request a,
      md_Result = map_option (or_mark env (fst pm) (snd pm)) (ae_Result a),
      md_Error = map_option (mark_error (fst pm) (snd pm)) (ae_Error a)\<rparr>"
    have t: "md_Index t = i" "md_Request t = fr" "md_Left t = ae_Request a" by (simp_all add: t_def)
    have one: "made_for i (fb # fbs) req (t # ts) \<longleftrightarrow>
        made_for i (fb # fbs) (if rewritten req then req else share_sub req (ae_Request a)) ts" for ts
      using prepared [OF Some] by (simp add: t)
    show ?thesis
    proof (cases "resumable t")
      case True
      let ?rest = "try_fallbacks env pm e (Suc i) fbs (ae_Ctx a) (ae_World a)
        (if rewritten req then req else share_sub req (ae_Request a)) (ms @ [t])"
      have step: "try_fallbacks env pm e i (fb # fbs) c w req ms = ?rest"
        using Some True by (auto simp: Let_def a_def t_def resumable_def split: option.splits)
      obtain ts where ts: "ho_Made ?rest = (ms @ [t]) @ ts"
        "fallback_outcome (reachable (or_configured env) (Suc i) fbs) e ts ?rest"
        "made_for (Suc i) fbs (if rewritten req then req else share_sub req (ae_Request a)) ts"
        using Cons.IH by blast
      show ?thesis unfolding step
      proof (intro exI [of _ "t # ts"] conjI)
        show "ho_Made ?rest = ms @ t # ts" using ts(1) by simp
        show "fallback_outcome (reachable (or_configured env) i (fb # fbs)) e (t # ts) ?rest"
          using fallback_outcome_step [OF True ts(2)] on by (simp add: t)
        show "made_for i (fb # fbs) req (t # ts)"
          unfolding one by (rule made_for_later [OF ts(3)])
      qed
    next
      case False
      define H where "H = try_fallbacks env pm e i (fb # fbs) c w req ms"
      have "ho_Made H = ms @ [t]"
        "case md_Error t of
              None \<Rightarrow> ho_Result H = md_Result t \<and> ho_Error H = None \<and> \<not> ho_Panic H
            | Some e \<Rightarrow> ho_Result H = None \<and>
                (if er_Error e = None then ho_Panic H else ho_Error H = Some e \<and> \<not> ho_Panic H)"
        using Some False unfolding H_def
        by (auto simp: Let_def a_def t_def resumable_def answer_def shouldContinueWithFallbacks_def
            split: option.splits bool.splits)
      then show ?thesis using on False Some unfolding H_def [symmetric]
        by (intro exI [of _ "[t]"]) (auto simp: fallback_outcome_def t one simp del: made_for.simps(2) split: option.splits)
    qed
  qed
qed

definition routed :: "('w, 'r, 'o) orchestra \<Rightarrow> uctx \<Rightarrow> 'w \<Rightarrow> llm_request \<Rightarrow> llm_request" where
  "routed env c w req0 =
     (case RunPreRequestHooks (getPluginPipeline (or_plugins env) ([] :: unit list) new_pipeline) (start_ctx env c) w req0 of
        (_, _, _, req) \<Rightarrow> req)"

text \<open>The contract of the orchestration, for the request that the phase before it leaves.\<close>

definition orchestrated :: "('w, 'r, 'o) orchestra \<Rightarrow> llm_request \<Rightarrow> ('w, 'o) handled \<Rightarrow> bool" where
  "orchestrated env req h \<longleftrightarrow>
     (case GetRequestFields req of
        (provider, model, fbs) \<Rightarrow>
          (case ho_Made h of
             [] \<Rightarrow> ho_Result h = None \<and> \<not> ho_Panic h \<and>
               (\<exists>e. validateRequestAfterPreRequestHooks req = Some e \<and>
                 ho_Error h = Some (populate_error (rq_RequestType req) provider model e))
           | first # rest \<Rightarrow>
               validateRequestAfterPreRequestHooks req = None \<and> md_Index first = 0 \<and> md_Request first = req \<and>
               made_for 1 fbs (md_Left first) rest \<and>
               (if shouldTryFallbacks (md_Left first) (md_Error first)
                then fallback_outcome (reachable (or_configured env) 1 fbs) (the (md_Error first)) rest h
                else rest = [] \<and> ho_Result h = md_Result first \<and> ho_Error h = md_Error first \<and> \<not> ho_Panic h)))"

text \<open>
  C2. A request that is not valid after the routing phase fails with that error and without an attempt.
  Otherwise the request is tried as it stands; when it succeeds or its error allows no fallbacks, this is
  the answer. Else the fallbacks are tried in order, those whose provider is not configured skipped,
  until one succeeds, one fails with an error that halts or that has no \<^verbatim>\<open>Error\<close> field, or none is left.
  The answer is then that success, that halting error, the panic on the missing field, or the
  error of the primary. The fallback's provider and model go into the request where its kind is one of those
  that are rewritten; a request of another kind, as an image edit, goes out as the attempt before it
  left it, so that the provider already tried is asked again.
\<close>

theorem fallbacks_in_order: "orchestrated env (routed env c w req0) (orchestrate env c w req0)"
proof -
  obtain p c1 w1 req where run: "RunPreRequestHooks (getPluginPipeline (or_plugins env) ([] :: unit list) new_pipeline)
      (start_ctx env c) w req0 = (p, c1, w1, req)"
    by (metis prod_cases4)
  obtain provider model fbs where fields: "GetRequestFields req = (provider, model, fbs)" by (metis prod_cases3)
  have routed: "routed env c w req0 = req" by (simp add: routed_def run)
  show ?thesis
  proof (cases "validateRequestAfterPreRequestHooks req")
    case (Some e)
    then show ?thesis by (simp add: orchestrated_def routed orchestrate_def run fields answer_def)
  next
    case None
    define a where "a = or_try env 0 c1 w1 req"
    define first where "first = \<lparr>md_Index = 0, md_Ctx = c1, md_Request = req, md_Left = ae_Request a,
      md_Result = ae_Result a, md_Error = ae_Error a\<rparr>"
    have f: "md_Index first = 0" "md_Request first = req" "md_Left first = ae_Request a" "md_Error first = ae_Error a"
      "md_Result first = ae_Result a"
      by (simp_all add: first_def)
    show ?thesis
    proof (cases "shouldTryFallbacks (ae_Request a) (ae_Error a)")
      case True
      define H where "H = try_fallbacks env (provider, model) (the (ae_Error a)) 1 fbs
        (append_ctx_list KeyRoutingEnginesUsed RoutingEngineCore (ae_Ctx a)) (ae_World a) (ae_Request a) [first]"
      have eq: "orchestrate env c w req0 = H"
        using None True by (simp add: orchestrate_def run fields Let_def H_def first_def a_def [symmetric])
      obtain ts where "ho_Made H = first # ts"
        "fallback_outcome (reachable (or_configured env) 1 fbs) (the (ae_Error a)) ts H"
        "made_for 1 fbs (md_Left first) ts"
        using try_fallbacks_outcome [of env "(provider, model)" "the (ae_Error a)" 1 fbs
            "append_ctx_list KeyRoutingEnginesUsed RoutingEngineCore (ae_Ctx a)" "ae_World a" "ae_Request a" "[first]"]
        unfolding H_def [symmetric] by (auto simp: f)
      then show ?thesis using None True unfolding orchestrated_def routed eq fields by (simp add: f)
    next
      case False
      then show ?thesis using None
        by (simp add: orchestrated_def routed orchestrate_def run fields answer_def f a_def Let_def)
    qed
  qed
qed

subsection \<open>What a fallback starts from\<close>

lemma fold_ClearValue:
  "\<not> uc_blocked c \<Longrightarrow> uc_Value (fold uc_ClearValue ks c) k = (if k \<in> set ks then CNil else uc_Value c k)"
  "uc_blocked (fold uc_ClearValue ks c) = uc_blocked c"
  by (induction ks arbitrary: c) (auto simp: uc_ClearValue_def write_dropped_def hook_rules)

lemma SetValue_open:
  "uc_blocked (uc_SetValue k v c) = uc_blocked c"
  "\<not> uc_blocked c \<Longrightarrow> uc_Value (uc_SetValue k v c) k' = (if k' = k then v else uc_Value c k')"
  by (auto simp: uc_SetValue_def write_dropped_def hook_rules)

lemma fallback_ctx_open: "uc_blocked (fallback_ctx env i c) = uc_blocked c"
  by (simp add: fallback_ctx_def clearCtxForFallback_def fold_ClearValue SetValue_open)

text \<open>The index of the attempt, and nothing under the keys that are cleared for it.\<close>

definition clean_start :: "'o made \<Rightarrow> bool" where
  "clean_start t \<longleftrightarrow> uc_Value (md_Ctx t) KeyFallbackIndex = CInt (int (md_Index t)) \<and>
     list_all (\<lambda>k. uc_Value (md_Ctx t) k = CNil)
       [KeyAPIKeyID, KeyAPIKeyName, KeyIncludeOnlyKeys, KeyChangeRequestType, KeyAttemptTrail, KeyStreamEndIndicator,
        KeyConnectionClosed, KeySupportsAssistantPrefill]"

lemma clean_start_iff:
  "clean_start t \<longleftrightarrow> uc_Value (md_Ctx t) KeyFallbackIndex = CInt (int (md_Index t)) \<and>
     (\<forall>k\<in>set cleared_keys. uc_Value (md_Ctx t) k = CNil)"
  by (simp only: clean_start_def list_all_iff cleared_keys_def)

lemma fallback_ctx_clean:
  assumes "\<not> uc_blocked c" "md_Ctx t = fallback_ctx env i c" "md_Index t = i"
  shows "clean_start t"
  using assms by (simp add: clean_start_iff fallback_ctx_def clearCtxForFallback_def fold_ClearValue SetValue_open)
    (simp add: cleared_keys_def KeyFallbackIndex_def KeyAPIKeyID_def KeyAPIKeyName_def KeyIncludeOnlyKeys_def
      KeyChangeRequestType_def KeyAttemptTrail_def KeyStreamEndIndicator_def KeyConnectionClosed_def
      KeySupportsAssistantPrefill_def KeyFallbackRequestID_def)

lemma try_fallbacks_clean:
  assumes "\<And>i c w r. \<not> uc_blocked c \<Longrightarrow> \<not> uc_blocked (ae_Ctx (or_try env i c w r))" "\<not> uc_blocked c"
    "\<forall>t\<in>set ms. 0 < md_Index t \<longrightarrow> clean_start t"
  shows "\<forall>t\<in>set (ho_Made (try_fallbacks env pm e i fbs c w req ms)). 0 < md_Index t \<longrightarrow> clean_start t"
  using assms(2,3)
proof (induction fbs arbitrary: i c w req ms)
  case Nil
  then show ?case by (simp add: answer_def)
next
  case (Cons fb fbs)
  have next_open: "\<not> uc_blocked (fallback_ctx env i c)" using Cons.prems by (simp add: fallback_ctx_open)
  show ?case
  proof (cases "prepareFallbackRequest (or_configured env) req fb")
    case None
    then show ?thesis using Cons.IH [OF next_open Cons.prems(2)] by simp
  next
    case (Some fr)
    define a where "a = or_try env i (fallback_ctx env i c) w fr"
    define t where "t = \<lparr>md_Index = i, md_Ctx = fallback_ctx env i c, md_Request = fr, md_Left = ae_Request a,
      md_Result = map_option (or_mark env (fst pm) (snd pm)) (ae_Result a),
      md_Error = map_option (mark_error (fst pm) (snd pm)) (ae_Error a)\<rparr>"
    define H where "H = try_fallbacks env pm e i (fb # fbs) c w req ms"
    have "ho_Made H = ms @ [t] \<or> H = try_fallbacks env pm e (Suc i) fbs (ae_Ctx a) (ae_World a)
        (if rewritten req then req else share_sub req (ae_Request a)) (ms @ [t])"
      using Some unfolding H_def by (auto simp: Let_def a_def t_def answer_def split: option.splits bool.splits)
    moreover have "\<forall>s\<in>set (ms @ [t]). 0 < md_Index s \<longrightarrow> clean_start s"
      using Cons.prems fallback_ctx_clean [OF Cons.prems(1), of t env i] by (auto simp: t_def)
    moreover have "\<not> uc_blocked (ae_Ctx a)" unfolding a_def by (rule assms(1) [OF next_open])
    ultimately show ?thesis using Cons.IH unfolding H_def by metis
  qed
qed

lemma pre_hooks_open: "\<not> uc_blocked c \<Longrightarrow> \<not> uc_blocked (pe_Ctx (snd (run_pre_hooks hooks p c w req)))"
  by (simp add: run_pre_hooks_def Let_def hook_rules)

lemma finish_hooks_open: "\<not> uc_blocked c \<Longrightarrow> \<not> uc_blocked (ae_Ctx (finish_hooks gw p ident n c w req resp err))"
  by (auto simp: finish_hooks_def RunPostLLMHooks_def run_post_hooks_def hook_rules split: prod.splits option.splits)

definition open_worker :: "('w, 'r) gateway \<Rightarrow> bool" where
  "open_worker gw \<longleftrightarrow> (\<forall>q c w r. \<not> uc_blocked c \<longrightarrow> \<not> uc_blocked (fst (gw_work gw q c w r)))"

lemma strip_ctx [simp]: "ae_Ctx (strip_end a) = ae_Ctx a" "ae_Ctx (strip_result a) = ae_Ctx a"
  "ae_Ctx (failed_end c w req e) = c"
  by (simp_all add: strip_end_def strip_result_def failed_end_def)

lemma ask_provider_open:
  assumes "open_worker gw" "\<not> uc_blocked c"
  shows "\<not> uc_blocked (ae_Ctx (ask_provider gw p q c w orig h sent))"
proof (cases "enqueue gw (fst (snd (request_id orig sent))) q")
  case (Inl e)
  then show ?thesis using assms by (auto simp: ask_provider_def split: prod.splits)
next
  case (Inr q')
  obtain c' w' sent' reply where work: "gw_work gw q' c w sent = (c', w', sent', reply)" by (metis prod_cases4)
  have "\<not> uc_blocked c'" using assms work unfolding open_worker_def by (metis fst_conv)
  then show ?thesis using Inr
    by (cases reply; cases "request_id orig sent")
       (auto simp: ask_provider_def work Let_def finish_hooks_open split: prod.splits)
qed

lemma go_on_open:
  assumes "open_worker gw" "\<not> uc_blocked (pe_Ctx e)"
  shows "\<not> uc_blocked (ae_Ctx (go_on gw p q ident e))"
  using assms by (simp add: go_on_def ask_provider_open split: option.split prod.split)

lemma tryRequest_open:
  fixes gw :: "('w, 'r) gateway"
  assumes "open_worker gw" "\<not> uc_blocked c"
  shows "\<not> uc_blocked (ae_Ctx (tryRequest gw c w req))"
proof -
  let ?p = "getPluginPipeline (gw_plugins gw) [] new_pipeline :: (('w, 'r) llm_plugin, unit) pipeline"
  obtain p e where run: "RunLLMPreHooks ?p (uc_SetValue KeyTracer (CBool True) c) w req = (p, e)" by (metis surj_pair)
  have e: "\<not> uc_blocked (pe_Ctx e)"
    using pre_hooks_open [of "uc_SetValue KeyTracer (CBool True) c"] assms(2) run
    by (metis SetValue_open(1) RunLLMPreHooks_def snd_conv)
  show ?thesis
    by (simp add: tryRequest_def run assms e go_on_open finish_hooks_open Let_def split: prod.split sum.split option.split)
qed

lemma start_open: "\<not> uc_blocked c \<Longrightarrow> \<not> uc_blocked (start_ctx env c)"
  by (auto simp: start_ctx_def Let_def SetValue_open split: ctx_value.splits)

lemma pre_request_open:
  "\<not> uc_blocked c \<Longrightarrow> RunPreRequestHooks p c w req = (p', c', w', req') \<Longrightarrow> \<not> uc_blocked c'"
  by (auto simp: RunPreRequestHooks_def commit_pin_def Let_def hook_rules SetValue_open split: if_splits prod.splits)

text \<open>
  C23. Every attempt on a fallback starts from a context that names its index and has no value for eight
  keys that the attempts before it may have set: the id and the name of a pinned key, the keys that governance
  allows, the change of request type, the trail of attempts, the end of the stream, the closed
  connection and the support of an assistant prefill. Other keys keep what they hold, the flags of the
  raw payloads among them. The writes to the context are not blocked when the request comes in, and no
  worker leaves them blocked.
\<close>

theorem fallbacks_start_clean:
  assumes "\<not> uc_blocked c" "\<And>i. open_worker (gws i)"
    and "t \<in> set (ho_Made (handleRequest gws plugins configured newID c w req))" "0 < md_Index t"
  shows "clean_start t"
proof -
  define env where "env = \<lparr>or_plugins = plugins, or_try = (\<lambda>i. tryRequest (gws i)), or_mark = mark_response,
    or_configured = configured, or_newID = newID\<rparr>"
  have open_try: "\<not> uc_blocked c \<Longrightarrow> \<not> uc_blocked (ae_Ctx (or_try env i c w r))" for i c w r
    using tryRequest_open [OF assms(2)] by (simp add: env_def)
  obtain p c1 w1 r1 where run: "RunPreRequestHooks (getPluginPipeline (or_plugins env) ([] :: unit list) new_pipeline)
      (start_ctx env c) w req = (p, c1, w1, r1)"
    by (metis prod_cases4)
  have c1: "\<not> uc_blocked c1" by (rule pre_request_open [OF start_open [OF assms(1)] run])
  obtain provider model fbs where fields: "GetRequestFields r1 = (provider, model, fbs)" by (metis prod_cases3)
  define a where "a = or_try env 0 c1 w1 r1"
  let ?first = "\<lparr>md_Index = 0, md_Ctx = c1, md_Request = r1, md_Left = ae_Request a, md_Result = ae_Result a,
    md_Error = ae_Error a\<rparr>"
  have c2: "\<not> uc_blocked (append_ctx_list KeyRoutingEnginesUsed RoutingEngineCore (ae_Ctx a))"
    using open_try [OF c1] by (simp add: append_ctx_list_def a_def SetValue_open Let_def)
  have "\<forall>t\<in>set (ho_Made (orchestrate env c w req)). 0 < md_Index t \<longrightarrow> clean_start t"
    using try_fallbacks_clean [OF open_try c2, of "[?first]" "(provider, model)" "the (ae_Error a)" 1 fbs "ae_World a"
        "ae_Request a"]
    by (simp add: orchestrate_def run fields answer_def Let_def a_def [symmetric] split: option.split)
  then show ?thesis using assms(3,4) by (simp add: handleRequest_def env_def)
qed

subsection \<open>Examples\<close>

definition w_fb_request :: llm_request where
  "w_fb_request = \<lparr>rq_RequestType = ''chat_completion'', rq_Kind = Some Chat, rq_Provider = ''p'', rq_Model = Some ''m'',
     rq_Fallbacks = [\<lparr>fb_Provider = ''x'', fb_Model = ''m1''\<rparr>, \<lparr>fb_Provider = ''q'', fb_Model = ''m2''\<rparr>]\<rparr>"

definition w_answers :: "string \<Rightarrow> string reply" where
  "w_answers provider =
     (if provider = ''q'' then Response (Some \<lparr>cr_Extra = no_extra, cr_Body = ''ok''\<rparr>)
      else Failure (newUnifAIErrorFromMsg ''down''))"

definition w_fb_gateway :: "(unit, string) gateway" where
  "w_fb_gateway =
     \<lparr>gw_plugins = [], gw_laterCount = 0, gw_tracer = True, gw_queue = (\<lambda>_. Inr 0), gw_loaded = (\<lambda>_. Some 0),
      gw_closing = (\<lambda>_ _. False), gw_ready = (\<lambda>_. [Room]), gw_pick = 0, gw_wait = (\<lambda>_. Room), gw_dropExcess = True,
      gw_work = (\<lambda>q c w r. (c, w, r, w_answers (rq_Provider r))), gw_took = (\<lambda>_. 0)\<rparr>"

definition w_handled :: "(unit, string core_response) handled" where
  "w_handled = handleRequest (\<lambda>_. w_fb_gateway) [] (\<lambda>p. p \<noteq> ''x'') (\<lambda>_. ''id'') w_uctx () w_fb_request"

lemma w_handled_made: "map md_Index (ho_Made w_handled) = [0, 2]" "map_option cr_Body (ho_Result w_handled) = Some ''ok''"
  by code_simp+

theorem fallbacks_start_clean_witness:
  "list_all clean_start (filter (\<lambda>t. 0 < md_Index t) (ho_Made w_handled))"
proof -
  have ready: "\<not> uc_blocked w_uctx" "open_worker w_fb_gateway"
    by (simp_all add: w_uctx_def open_worker_def w_fb_gateway_def)
  have "clean_start t" if "t \<in> set (ho_Made w_handled)" "0 < md_Index t" for t
    by (rule fallbacks_start_clean [OF ready that [unfolded w_handled_def]])
  then show ?thesis by (simp add: list_all_iff)
qed

text \<open>
  A request that edits an image keeps the provider and the model of the primary on every fallback, as
  its sub-request is not one of those that are rewritten.
\<close>

lemma image_edit_fallback_asks_primary:
  assumes "rq_Kind req = Some ImageEdit" "configured (fb_Provider fb)"
  shows "prepareFallbackRequest configured req fb = Some req"
  using assms by (simp add: prepareFallbackRequest_def rewritten_def rewritten_kinds_def)

end
