(* ===== verification/Retries.thy ===== *)
theory Retries
  imports CoreErrors
begin

text \<open>
  The retry loop of a provider attempt (core/unifai.go: \<^verbatim>\<open>executeRequestWithRetries\<close> and the key
  sources that \<^verbatim>\<open>requestWorker\<close> builds for it). The calls to the provider, the random draws, the
  filter of the key pool and the selector are functions of the attempt, which stands for whatever
  state they have. Spans, routing logs and the clearing of the closed flag of a dead stream are left
  out. A stream is the list of its chunks; \<open>ry_calls\<close> and \<open>ry_pauses\<close> record the calls made and the
  pause before each, which the code does not keep.
\<close>

subsection \<open>Streams and key sources\<close>

record 'r chunk =
  ch_Error :: "core_error option"
  ch_Data :: 'r

datatype 'r outcome = Plain 'r | Stream "'r chunk list option"

definition chunk_failure :: "'r chunk \<Rightarrow> core_error option" where
  "chunk_failure c =
     (case ch_Error c of
        None \<Rightarrow> None
      | Some e \<Rightarrow>
          (case er_Error e of
             None \<Rightarrow> None
           | Some f \<Rightarrow> if ef_Message f \<noteq> [] \<or> ef_Code f \<noteq> None \<or> ef_Type f \<noteq> None then Some e else None))"

definition CheckFirstStreamChunkForError :: "'r chunk list \<Rightarrow> core_error + 'r chunk list option" where
  "CheckFirstStreamChunkForError cs =
     (case cs of
        [] \<Rightarrow> Inr None
      | c # _ \<Rightarrow> (case chunk_failure c of Some e \<Rightarrow> Inl e | None \<Rightarrow> Inr (Some cs)))"

datatype provide_error = AllKeysDead string | AllKeysFiltered string | OtherKeyError string

definition errAllKeysDead :: string where
  "errAllKeysDead = ''all configured keys returned permanent per-key errors (401/402/403)''"
definition errAllKeysFiltered :: string where
  "errAllKeysFiltered = ''all eligible keys are temporarily suppressed by the key pool filter''"

datatype key_source = NoKeySource | FixedKey api_key | RotatingPool "api_key list"

record 'r retry_env =
  re_MaxRetries :: int
  re_RetryBackoffInitial :: int
  re_RetryBackoffMax :: int
  re_provider :: string
  re_source :: key_source
  re_filter :: "(nat \<Rightarrow> bool \<Rightarrow> api_key list \<Rightarrow> string + api_key list) option"
  re_selector :: "nat \<Rightarrow> api_key list \<Rightarrow> string + api_key"
  re_rand :: "nat \<Rightarrow> float64"
  re_hasTracer :: bool
  re_handler :: "nat \<Rightarrow> api_key \<Rightarrow> core_error + 'r outcome"

text \<open>The source that the worker builds from the pool of the request and its rotation flag.\<close>

definition source_of_pool :: "api_key list \<Rightarrow> bool \<Rightarrow> key_source" where
  "source_of_pool supported canRotate =
     (case supported of
        [] \<Rightarrow> NoKeySource
      | k # _ \<Rightarrow> if canRotate then RotatingPool supported else FixedKey k)"

definition pool_filter :: "'r retry_env \<Rightarrow> nat \<Rightarrow> bool \<Rightarrow> api_key list \<Rightarrow> api_key list" where
  "pool_filter env a again keys =
     (case re_filter env of
        None \<Rightarrow> keys
      | Some f \<Rightarrow> (case f a again keys of Inl _ \<Rightarrow> keys | Inr ks \<Rightarrow> ks))"

definition select_from :: "'r retry_env \<Rightarrow> nat \<Rightarrow> api_key list \<Rightarrow> provide_error + api_key" where
  "select_from env a keys = (case re_selector env a keys of Inl e \<Rightarrow> Inl (OtherKeyError e) | Inr k \<Rightarrow> Inr k)"

text \<open>One call of the key source: the used keys it leaves, and its answer.\<close>

definition keyProvider ::
  "'r retry_env \<Rightarrow> nat \<Rightarrow> string set \<Rightarrow> string set \<Rightarrow> string set \<times> (provide_error + api_key)" where
  "keyProvider env a used dead =
     (case re_source env of
        NoKeySource \<Rightarrow> (used, Inr zero_key)
      | FixedKey k \<Rightarrow> (used, if ky_ID k \<in> dead then Inl (AllKeysDead errAllKeysDead) else Inr k)
      | RotatingPool pool \<Rightarrow>
          (let available = pool_filter env a False (filter (\<lambda>k. ky_ID k \<notin> dead \<and> ky_ID k \<notin> used) pool)
           in if available \<noteq> [] then (used, select_from env a available)
              else
                let live = filter (\<lambda>k. ky_ID k \<notin> dead) pool; again = pool_filter env a True live
                in if again = []
                   then (used, Inl (if live \<noteq> [] then AllKeysFiltered (errAllKeysFiltered @ '': provider '' @ re_provider env)
                                    else AllKeysDead (errAllKeysDead @ '': provider '' @ re_provider env)))
                   else ({}, select_from env a again)))"

definition typed_error :: "int \<Rightarrow> string \<Rightarrow> string \<Rightarrow> core_error" where
  "typed_error status typ message =
     (newUnifAIErrorFromMsg message)
       \<lparr>er_StatusCode := Some status, er_Type := Some typ,
        er_Error := Some \<lparr>ef_Type = Some typ, ef_Code = None, ef_Message = message, ef_Error = None\<rparr>\<rparr>"

definition key_failure_error :: "provide_error \<Rightarrow> core_error" where
  "key_failure_error e =
     (case e of
        AllKeysFiltered m \<Rightarrow> typed_error 503 ''no_eligible_keys'' m
      | AllKeysDead m \<Rightarrow> typed_error 502 ''upstream_credentials_exhausted'' m
      | OtherKeyError m \<Rightarrow> newUnifAIErrorFromMsg m)"

subsection \<open>State of the loop\<close>

record key_attempt =
  ka_Attempt :: nat
  ka_KeyID :: string
  ka_KeyName :: string
  ka_FailReason :: "string option"
  ka_TriggeredRotation :: bool

record retry_state =
  ry_key :: api_key
  ry_used :: "string set"
  ry_dead :: "string set"
  ry_lastWasPerKeyFailure :: bool
  ry_lastWasPermanentKeyFailure :: bool
  ry_previousKeyID :: string
  ry_pending :: "nat option"
  ry_error :: "core_error option"
  ry_trail :: "key_attempt list"
  ry_selected :: "string \<times> string"
  ry_retries :: nat
  ry_calls :: "api_key list"
  ry_pauses :: "int option list"

text \<open>The context may carry a trail and a selected key of an earlier request.\<close>

definition retry_init :: "key_attempt list \<Rightarrow> string \<times> string \<Rightarrow> retry_state" where
  "retry_init trail selected = \<lparr>ry_key = zero_key, ry_used = {}, ry_dead = {}, ry_lastWasPerKeyFailure = False,
     ry_lastWasPermanentKeyFailure = False, ry_previousKeyID = '''', ry_pending = None, ry_error = None,
     ry_trail = trail, ry_selected = selected, ry_retries = 0, ry_calls = [], ry_pauses = []\<rparr>"

definition keyed :: "'r retry_env \<Rightarrow> bool" where
  "keyed env \<longleftrightarrow> re_source env \<noteq> NoKeySource"

subsection \<open>One attempt\<close>

definition begin_attempt :: "'r retry_env \<Rightarrow> nat \<Rightarrow> retry_state \<Rightarrow> retry_state" where
  "begin_attempt env a st =
     st\<lparr>ry_retries := a, ry_trail := (if keyed env \<and> a = 0 then [] else ry_trail st)\<rparr>"

definition mark_rotation :: "nat option \<Rightarrow> string \<Rightarrow> key_attempt list \<Rightarrow> key_attempt list" where
  "mark_rotation pending i trail =
     (case pending of
        None \<Rightarrow> trail
      | Some n \<Rightarrow> if n < length trail \<and> ka_KeyID (trail ! n) \<noteq> i
                  then trail[n := (trail ! n)\<lparr>ka_TriggeredRotation := True\<rparr>] else trail)"

text \<open>Key selection, on the first attempt and after a failure bound to the key.\<close>

definition choose_key :: "'r retry_env \<Rightarrow> nat \<Rightarrow> retry_state \<Rightarrow> retry_state \<times> core_error option" where
  "choose_key env a st =
     (if keyed env \<and> (a = 0 \<or> ry_lastWasPerKeyFailure st)
      then (case keyProvider env a (ry_used st) (ry_dead st) of
              (used, Inl e) \<Rightarrow> (st\<lparr>ry_used := used, ry_selected := ('''', '''')\<rparr>, Some (key_failure_error e))
            | (used, Inr k) \<Rightarrow>
                (st\<lparr>ry_used := used, ry_key := k, ry_selected := (ky_ID k, ak_Name k),
                    ry_trail := mark_rotation (ry_pending st) (ky_ID k) (ry_trail st), ry_pending := None\<rparr>, None))
      else (st, None))"

definition record_attempt :: "'r retry_env \<Rightarrow> nat \<Rightarrow> retry_state \<Rightarrow> retry_state" where
  "record_attempt env a st =
     (if keyed env
      then st\<lparr>ry_trail := ry_trail st @ [\<lparr>ka_Attempt = a, ka_KeyID = ky_ID (ry_key st),
                 ka_KeyName = ak_Name (ry_key st), ka_FailReason = None, ka_TriggeredRotation = False\<rparr>]\<rparr>
      else st)"

definition pause_before :: "'r retry_env \<Rightarrow> nat \<Rightarrow> retry_state \<Rightarrow> int option" where
  "pause_before env a st =
     (let keyChanged = keyed env \<and> ky_ID (ry_key st) \<noteq> ry_previousKeyID st
      in if a = 0 \<or> (ry_lastWasPermanentKeyFailure st \<and> keyChanged) then None
         else Some (calculateBackoff (re_RetryBackoffInitial env) (re_RetryBackoffMax env) (re_rand env (a - 1)) (a - 1)))"

definition attempt_outcome :: "'r retry_env \<Rightarrow> nat \<Rightarrow> api_key \<Rightarrow> core_error + 'r outcome" where
  "attempt_outcome env a k =
     (case re_handler env a k of
        Inl e \<Rightarrow> Inl e
      | Inr (Stream (Some cs)) \<Rightarrow>
          (case CheckFirstStreamChunkForError cs of Inl e \<Rightarrow> Inl e | Inr s \<Rightarrow> Inr (Stream s))
      | Inr r \<Rightarrow> Inr r)"

definition note_reason :: "core_error \<Rightarrow> key_attempt list \<Rightarrow> key_attempt list" where
  "note_reason e trail =
     (if trail = [] then trail else trail[length trail - 1 := (last trail)\<lparr>ka_FailReason := Some (fail_reason e)\<rparr>])"

definition after_failure :: "'r retry_env \<Rightarrow> nat \<Rightarrow> core_error \<Rightarrow> retry_state \<Rightarrow> retry_state" where
  "after_failure env a e st =
     (let perKey = isPerKeyFailure e; permanent = keyed env \<and> isPermanentKeyFailure e; i = ky_ID (ry_key st)
      in st\<lparr>ry_dead := (if permanent then insert i (ry_dead st) else ry_dead st),
            ry_used := (if perKey \<and> keyed env \<and> \<not> permanent then insert i (ry_used st) else ry_used st),
            ry_lastWasPerKeyFailure := perKey, ry_lastWasPermanentKeyFailure := permanent, ry_previousKeyID := i,
            ry_pending := (if perKey \<and> keyed env \<and> int a < re_MaxRetries env \<and> ry_trail st \<noteq> []
                           then Some (length (ry_trail st) - 1) else ry_pending st)\<rparr>)"

definition add_call :: "'r retry_env \<Rightarrow> nat \<Rightarrow> retry_state \<Rightarrow> retry_state" where
  "add_call env a st = st\<lparr>ry_calls := ry_calls st @ [ry_key st], ry_pauses := ry_pauses st @ [pause_before env a st]\<rparr>"

datatype 'r attempt_result =
    Continue retry_state
  | Break retry_state "core_error + 'r outcome"
  | Return retry_state core_error

definition run_attempt :: "'r retry_env \<Rightarrow> nat \<Rightarrow> retry_state \<Rightarrow> 'r attempt_result" where
  "run_attempt env a st =
     (case choose_key env a (begin_attempt env a st) of
        (st1, Some e) \<Rightarrow> Return st1 e
      | (st1, None) \<Rightarrow>
          let st2 = record_attempt env a st1
          in if \<not> re_hasTracer env then Return st2 (newUnifAIErrorFromMsg ''tracer not found in context'')
             else
               let st3 = add_call env a st2
               in case attempt_outcome env a (ry_key st2) of
                    Inr r \<Rightarrow> Break (st3\<lparr>ry_error := None\<rparr>) (Inr r)
                  | Inl e \<Rightarrow>
                      let st4 = st3\<lparr>ry_error := Some e\<rparr>
                      in if is_terminal e then Break st4 (Inl e)
                         else let st5 = st4\<lparr>ry_trail := note_reason e (ry_trail st4)\<rparr>
                              in if \<not> shouldRetry e then Break st5 (Inl e)
                                 else Continue (after_failure env a e st5))"

subsection \<open>The loop\<close>

text \<open>
  The results are a response, an error, or, when the loop body never ran, neither. The final
  clearing of the selected key is skipped by the early returns.
\<close>

definition clear_selected :: "'r retry_env \<Rightarrow> retry_state \<Rightarrow> retry_state" where
  "clear_selected env st = (if ry_error st \<noteq> None \<and> keyed env then st\<lparr>ry_selected := ('''', '''')\<rparr> else st)"

function retry_from :: "'r retry_env \<Rightarrow> nat \<Rightarrow> retry_state \<Rightarrow> retry_state \<times> (core_error + 'r outcome option)" where
  "retry_from env a st =
     (if int a \<le> re_MaxRetries env
      then (case run_attempt env a st of
              Continue st' \<Rightarrow> retry_from env (Suc a) st'
            | Break st' r \<Rightarrow> (clear_selected env st', map_sum (\<lambda>e. e) Some r)
            | Return st' e \<Rightarrow> (st', Inl e))
      else (clear_selected env st, case ry_error st of Some e \<Rightarrow> Inl e | None \<Rightarrow> Inr None))"
  by pat_completeness auto
termination by (relation "measure (\<lambda>(env, a, st). nat (re_MaxRetries env + 1 - int a))") auto

definition executeRequestWithRetries ::
  "'r retry_env \<Rightarrow> key_attempt list \<Rightarrow> string \<times> string \<Rightarrow> retry_state \<times> (core_error + 'r outcome option)" where
  "executeRequestWithRetries env trail selected = retry_from env 0 (retry_init trail selected)"

declare retry_from.simps [simp del]

subsection \<open>Reasoning about the loop\<close>

text \<open>Invariants by attempt: what holds before every attempt, and what the exits give.\<close>

lemma retry_from_rule:
  assumes step: "\<And>a st st'. P a st \<Longrightarrow> int a \<le> re_MaxRetries env \<Longrightarrow> run_attempt env a st = Continue st' \<Longrightarrow> P (Suc a) st'"
    and stop: "\<And>a st st' r. P a st \<Longrightarrow> int a \<le> re_MaxRetries env \<Longrightarrow> run_attempt env a st = Break st' r \<Longrightarrow>
        Q (clear_selected env st') (map_sum (\<lambda>e. e) Some r)"
    and early: "\<And>a st st' e. P a st \<Longrightarrow> int a \<le> re_MaxRetries env \<Longrightarrow> run_attempt env a st = Return st' e \<Longrightarrow> Q st' (Inl e)"
    and over: "\<And>a st. P a st \<Longrightarrow> re_MaxRetries env < int a \<Longrightarrow>
        Q (clear_selected env st) (case ry_error st of Some e \<Rightarrow> Inl e | None \<Rightarrow> Inr None)"
  shows "P a st \<Longrightarrow> case_prod Q (retry_from env a st)"
proof (induction "nat (re_MaxRetries env + 1 - int a)" arbitrary: a st)
  case 0
  then show ?case by (simp add: retry_from.simps over)
next
  case (Suc n)
  then have le: "int a \<le> re_MaxRetries env" by simp
  show ?case
  proof (cases "run_attempt env a st")
    case (Continue st')
    with Suc le show ?thesis
      using Suc.hyps(1) [of "Suc a" st'] step [OF Suc.prems le Continue] by (subst retry_from.simps) simp
  next
    case (Break st' r)
    with le show ?thesis using stop [OF Suc.prems le Break] by (subst retry_from.simps) simp
  next
    case (Return st' e)
    with le show ?thesis using early [OF Suc.prems le Return] by (subst retry_from.simps) simp
  qed
qed

definition retried :: "core_error \<Rightarrow> bool" where
  "retried e \<longleftrightarrow> \<not> is_terminal e \<and> shouldRetry e"

definition failed_with :: "'r retry_env \<Rightarrow> api_key list \<Rightarrow> nat \<Rightarrow> core_error \<Rightarrow> bool" where
  "failed_with env calls i e \<longleftrightarrow> attempt_outcome env i (calls ! i) = Inl e"

text \<open>Before attempt \<open>a\<close>: one call per earlier attempt, each failed with an error that is retried.\<close>

definition trace_inv :: "'r retry_env \<Rightarrow> nat \<Rightarrow> retry_state \<Rightarrow> bool" where
  "trace_inv env a st \<longleftrightarrow>
     length (ry_calls st) = a \<and> length (ry_pauses st) = a \<and>
     (\<forall>i<a. \<exists>e. failed_with env (ry_calls st) i e \<and> retried e) \<and>
     (if a = 0 then ry_error st = None \<and> \<not> ry_lastWasPerKeyFailure st \<and> \<not> ry_lastWasPermanentKeyFailure st
      else \<exists>e. failed_with env (ry_calls st) (a - 1) e \<and> retried e \<and> ry_error st = Some e \<and>
        ry_lastWasPerKeyFailure st = isPerKeyFailure e \<and>
        ry_lastWasPermanentKeyFailure st = (keyed env \<and> isPermanentKeyFailure e) \<and>
        ry_key st = ry_calls st ! (a - 1) \<and> ry_previousKeyID st = ky_ID (ry_calls st ! (a - 1)))"

lemma trace_init: "trace_inv env 0 (retry_init trail selected)"
  by (simp add: trace_inv_def retry_init_def)

lemma failed_with_append [simp]:
  "i < length calls \<Longrightarrow> failed_with env (calls @ [k]) i e = failed_with env calls i e"
  by (simp add: failed_with_def nth_append)

lemma failed_with_last [simp]:
  "length calls = a \<Longrightarrow> failed_with env (calls @ [k]) a e \<longleftrightarrow> attempt_outcome env a k = Inl e"
  by (simp add: failed_with_def nth_append)

text \<open>What one attempt does to the record of calls; the key that it uses.\<close>

lemma choose_key_frame:
  "choose_key env a st = (st', x) \<Longrightarrow>
     ry_calls st' = ry_calls st \<and> ry_pauses st' = ry_pauses st \<and> ry_error st' = ry_error st \<and>
     ry_dead st' = ry_dead st \<and> ry_previousKeyID st' = ry_previousKeyID st \<and>
     ry_lastWasPerKeyFailure st' = ry_lastWasPerKeyFailure st \<and>
     ry_lastWasPermanentKeyFailure st' = ry_lastWasPermanentKeyFailure st \<and> length (ry_trail st') = length (ry_trail st)"
  by (auto simp: choose_key_def mark_rotation_def split: if_splits prod.splits sum.splits option.splits)

lemma small_frames [simp]:
  "ry_calls (begin_attempt env a st) = ry_calls st" "ry_pauses (begin_attempt env a st) = ry_pauses st"
  "ry_error (begin_attempt env a st) = ry_error st" "ry_dead (begin_attempt env a st) = ry_dead st"
  "ry_used (begin_attempt env a st) = ry_used st" "ry_key (begin_attempt env a st) = ry_key st"
  "ry_previousKeyID (begin_attempt env a st) = ry_previousKeyID st" "ry_pending (begin_attempt env a st) = ry_pending st"
  "ry_lastWasPerKeyFailure (begin_attempt env a st) = ry_lastWasPerKeyFailure st"
  "ry_lastWasPermanentKeyFailure (begin_attempt env a st) = ry_lastWasPermanentKeyFailure st"
  "ry_selected (begin_attempt env a st) = ry_selected st"
  "ry_calls (record_attempt env a st) = ry_calls st" "ry_pauses (record_attempt env a st) = ry_pauses st"
  "ry_error (record_attempt env a st) = ry_error st" "ry_dead (record_attempt env a st) = ry_dead st"
  "ry_used (record_attempt env a st) = ry_used st" "ry_key (record_attempt env a st) = ry_key st"
  "ry_previousKeyID (record_attempt env a st) = ry_previousKeyID st" "ry_pending (record_attempt env a st) = ry_pending st"
  "ry_lastWasPerKeyFailure (record_attempt env a st) = ry_lastWasPerKeyFailure st"
  "ry_lastWasPermanentKeyFailure (record_attempt env a st) = ry_lastWasPermanentKeyFailure st"
  "ry_selected (record_attempt env a st) = ry_selected st"
  by (simp_all add: begin_attempt_def record_attempt_def)

lemma after_failure_frame [simp]:
  "ry_calls (after_failure env a e st) = ry_calls st" "ry_pauses (after_failure env a e st) = ry_pauses st"
  "ry_error (after_failure env a e st) = ry_error st" "ry_key (after_failure env a e st) = ry_key st"
  "ry_trail (after_failure env a e st) = ry_trail st" "ry_selected (after_failure env a e st) = ry_selected st"
  "ry_previousKeyID (after_failure env a e st) = ky_ID (ry_key st)"
  "ry_lastWasPerKeyFailure (after_failure env a e st) = isPerKeyFailure e"
  "ry_lastWasPermanentKeyFailure (after_failure env a e st) = (keyed env \<and> isPermanentKeyFailure e)"
  "ry_dead (after_failure env a e st) =
     (if keyed env \<and> isPermanentKeyFailure e then insert (ky_ID (ry_key st)) (ry_dead st) else ry_dead st)"
  by (auto simp: after_failure_def Let_def)

lemma add_call_frame [simp]:
  "ry_calls (add_call env a st) = ry_calls st @ [ry_key st]"
  "ry_pauses (add_call env a st) = ry_pauses st @ [pause_before env a st]"
  "ry_error (add_call env a st) = ry_error st" "ry_dead (add_call env a st) = ry_dead st"
  "ry_used (add_call env a st) = ry_used st" "ry_key (add_call env a st) = ry_key st"
  "ry_pending (add_call env a st) = ry_pending st" "ry_selected (add_call env a st) = ry_selected st"
  "ry_trail (add_call env a st) = ry_trail st"
  by (simp_all add: add_call_def)

lemma run_attempt_chosen:
  "choose_key env a (begin_attempt env a st) = (st1, None) \<Longrightarrow> re_hasTracer env \<Longrightarrow>
   run_attempt env a st =
     (let st3 = add_call env a (record_attempt env a st1)
      in case attempt_outcome env a (ry_key st1) of
           Inr r \<Rightarrow> Break (st3\<lparr>ry_error := None\<rparr>) (Inr r)
         | Inl e \<Rightarrow>
             if is_terminal e then Break (st3\<lparr>ry_error := Some e\<rparr>) (Inl e)
             else if \<not> shouldRetry e then Break (st3\<lparr>ry_error := Some e, ry_trail := note_reason e (ry_trail st3)\<rparr>) (Inl e)
             else Continue (after_failure env a e (st3\<lparr>ry_error := Some e, ry_trail := note_reason e (ry_trail st3)\<rparr>)))"
  by (simp add: run_attempt_def Let_def split: sum.split)

lemma run_attempt_key:
  assumes "run_attempt env a st = Continue st' \<or> run_attempt env a st = Break st' r"
  obtains st1 where "choose_key env a (begin_attempt env a st) = (st1, None)" "re_hasTracer env"
proof -
  obtain st1 x where c: "choose_key env a (begin_attempt env a st) = (st1, x)" by fastforce
  with assms have "x = None" "re_hasTracer env"
    by (auto simp: run_attempt_def Let_def split: option.splits if_splits)
  with c that show thesis by blast
qed

lemma run_attempt_tracer: "run_attempt env a st = Continue st' \<Longrightarrow> re_hasTracer env"
  by (metis run_attempt_key)

lemma run_attempt_Continue:
  assumes "run_attempt env a st = Continue st'"
  obtains st1 e where "choose_key env a (begin_attempt env a st) = (st1, None)"
    "attempt_outcome env a (ry_key st1) = Inl e" "retried e"
    "st' = after_failure env a e ((add_call env a (record_attempt env a st1))
       \<lparr>ry_error := Some e, ry_trail := note_reason e (ry_trail (record_attempt env a st1))\<rparr>)"
proof -
  obtain st1 where c: "choose_key env a (begin_attempt env a st) = (st1, None)" "re_hasTracer env"
    by (rule run_attempt_key [OF disjI1 [OF assms]])
  from assms show thesis
    by (cases "attempt_outcome env a (ry_key st1)")
      (auto simp: run_attempt_chosen [OF c] Let_def retried_def c(1) intro!: that split: if_splits)
qed

lemma run_attempt_Break:
  assumes "run_attempt env a st = Break st' r"
  obtains st1 where "choose_key env a (begin_attempt env a st) = (st1, None)"
    "attempt_outcome env a (ry_key st1) = r" "ry_calls st' = ry_calls st @ [ry_key st1]"
    "ry_pauses st' = ry_pauses st @ [pause_before env a (record_attempt env a st1)]"
    "ry_dead st' = ry_dead st" "ry_key st' = ry_key st1" "ry_selected st' = ry_selected st1"
    "case r of Inl e \<Rightarrow> \<not> retried e \<and> ry_error st' = Some e | Inr _ \<Rightarrow> ry_error st' = None"
    "ry_trail st' = (case r of Inl e \<Rightarrow> if is_terminal e then ry_trail (record_attempt env a st1)
       else note_reason e (ry_trail (record_attempt env a st1)) | Inr _ \<Rightarrow> ry_trail (record_attempt env a st1))"
proof -
  obtain st1 where c: "choose_key env a (begin_attempt env a st) = (st1, None)" "re_hasTracer env"
    by (rule run_attempt_key [OF disjI2 [OF assms]])
  note f = choose_key_frame [OF c(1)]
  show thesis
  proof (cases "attempt_outcome env a (ry_key st1)")
    case (Inl e)
    let ?st3 = "(add_call env a (record_attempt env a st1))\<lparr>ry_error := Some e\<rparr>"
    have r: "r = Inl e" and nr: "\<not> retried e"
      and st': "st' = (if is_terminal e then ?st3 else ?st3\<lparr>ry_trail := note_reason e (ry_trail ?st3)\<rparr>)"
      using assms by (simp_all add: run_attempt_chosen [OF c] Let_def Inl retried_def split: if_splits)
    show thesis
      by (rule that [OF c(1)]) (simp_all add: Inl r nr st' f)
  next
    case (Inr x)
    have r: "r = Inr x" and st': "st' = (add_call env a (record_attempt env a st1))\<lparr>ry_error := None\<rparr>"
      using assms by (simp_all add: run_attempt_chosen [OF c] Let_def Inr)
    show thesis
      by (rule that [OF c(1)]) (simp_all add: Inr r st' f)
  qed
qed

lemma run_attempt_Return:
  assumes "run_attempt env a st = Return st' e"
  obtains st1 e1 where "choose_key env a (begin_attempt env a st) = (st1, Some e1)" "st' = st1" "e = e1"
  | st1 where "choose_key env a (begin_attempt env a st) = (st1, None)" "\<not> re_hasTracer env"
    "st' = record_attempt env a st1" "e = newUnifAIErrorFromMsg ''tracer not found in context''"
  using assms
  by (auto simp: run_attempt_def Let_def split: prod.splits option.splits if_splits sum.splits)

lemma trace_step:
  assumes inv: "trace_inv env a st" and run: "run_attempt env a st = Continue st'"
  shows "trace_inv env (Suc a) st'"
proof -
  obtain st1 e where c: "choose_key env a (begin_attempt env a st) = (st1, None)"
    and o: "attempt_outcome env a (ry_key st1) = Inl e" "retried e"
    and st': "st' = after_failure env a e ((add_call env a (record_attempt env a st1))
       \<lparr>ry_error := Some e, ry_trail := note_reason e (ry_trail (record_attempt env a st1))\<rparr>)"
    using run by (rule run_attempt_Continue)
  show ?thesis
    using inv o choose_key_frame [OF c] by (auto simp: trace_inv_def st' less_Suc_eq nth_append)
qed

subsection \<open>The policy of the loop\<close>

definition retries_done :: "'r retry_env \<Rightarrow> retry_state \<Rightarrow> core_error + 'r outcome option \<Rightarrow> bool" where
  "retries_done env st r \<longleftrightarrow>
     (let calls = ry_calls st; n = length calls
      in int n \<le> max 0 (re_MaxRetries env + 1) \<and>
         (\<forall>i. Suc i < n \<longrightarrow> (\<exists>e. failed_with env calls i e \<and> retried e)) \<and>
         (case r of
            Inr (Some x) \<Rightarrow> 0 < n \<and> attempt_outcome env (n - 1) (calls ! (n - 1)) = Inr x
          | Inr None \<Rightarrow> re_MaxRetries env < 0
          | Inl e \<Rightarrow>
              (0 < n \<and> failed_with env calls (n - 1) e \<and> (retried e \<longrightarrow> int n = re_MaxRetries env + 1)) \<or>
              (keyed env \<and> (\<exists>x. e = key_failure_error x) \<and> int n \<le> re_MaxRetries env \<and>
                 (0 < n \<longrightarrow> (\<exists>e'. failed_with env calls (n - 1) e' \<and> retried e' \<and> isPerKeyFailure e'))) \<or>
              (\<not> re_hasTracer env \<and> n = 0 \<and> e = newUnifAIErrorFromMsg ''tracer not found in context'')))"

lemma clear_selected_frame [simp]:
  "ry_calls (clear_selected env st) = ry_calls st" "ry_pauses (clear_selected env st) = ry_pauses st"
  "ry_trail (clear_selected env st) = ry_trail st" "ry_error (clear_selected env st) = ry_error st"
  "ry_dead (clear_selected env st) = ry_dead st"
  by (simp_all add: clear_selected_def)

lemma choose_key_error:
  "choose_key env a st = (st', Some e) \<Longrightarrow>
     keyed env \<and> (a = 0 \<or> ry_lastWasPerKeyFailure st) \<and> (\<exists>x. e = key_failure_error x) \<and> ry_selected st' = ('''', '''')"
  by (auto simp: choose_key_def split: if_splits prod.splits sum.splits)

lemma retries_done_loop: "case_prod (retries_done env) (executeRequestWithRetries env trail selected)"
proof -
  have "case_prod (retries_done env) (retry_from env 0 (retry_init trail selected))"
  proof (rule retry_from_rule [where P = "\<lambda>a st. trace_inv env a st \<and> (\<not> re_hasTracer env \<longrightarrow> a = 0) \<and> int a \<le> max 0 (re_MaxRetries env + 1)"])
    fix a st st'
    assume inv: "trace_inv env a st \<and> (\<not> re_hasTracer env \<longrightarrow> a = 0) \<and> int a \<le> max 0 (re_MaxRetries env + 1)"
      and le: "int a \<le> re_MaxRetries env"
    {
      assume run: "run_attempt env a st = Continue st'"
      then have "re_hasTracer env" by (rule run_attempt_tracer)
      with inv le run show "trace_inv env (Suc a) st' \<and> (\<not> re_hasTracer env \<longrightarrow> Suc a = 0) \<and>
          int (Suc a) \<le> max 0 (re_MaxRetries env + 1)"
        by (auto intro: trace_step)
    next
      fix r assume "run_attempt env a st = Break st' r"
      then show "retries_done env (clear_selected env st') (map_sum (\<lambda>e. e) Some r)"
      proof (rule run_attempt_Break)
        fix st1
        assume "attempt_outcome env a (ry_key st1) = r" "ry_calls st' = ry_calls st @ [ry_key st1]"
          "case r of Inl e \<Rightarrow> \<not> retried e \<and> ry_error st' = Some e | Inr _ \<Rightarrow> ry_error st' = None"
        then show ?thesis
          using inv le by (auto simp: retries_done_def trace_inv_def Let_def nth_append failed_with_def split: sum.splits)
      qed
    next
      fix e assume "run_attempt env a st = Return st' e"
      then show "retries_done env st' (Inl e)"
      proof (cases rule: run_attempt_Return)
        case (1 st1 e1)
        note f = choose_key_frame [OF 1(1)]
        from choose_key_error [OF 1(1)] inv le f show ?thesis
          unfolding 1(2,3) retries_done_def trace_inv_def Let_def
          by (auto split: if_splits)
      next
        case (2 st1)
        with choose_key_frame [OF 2(1)] inv le show ?thesis
          by (auto simp: retries_done_def trace_inv_def Let_def)
      qed
    }
  next
    fix a st
    assume inv: "trace_inv env a st \<and> (\<not> re_hasTracer env \<longrightarrow> a = 0) \<and> int a \<le> max 0 (re_MaxRetries env + 1)"
      and gt: "re_MaxRetries env < int a"
    then have "a \<noteq> 0 \<Longrightarrow> int a = re_MaxRetries env + 1" by linarith
    with inv gt show "retries_done env (clear_selected env st) (case ry_error st of Some e \<Rightarrow> Inl e | None \<Rightarrow> Inr None)"
      by (cases "a = 0") (auto simp: retries_done_def trace_inv_def Let_def)
  qed (auto simp: trace_init)
  then show ?thesis by (simp add: executeRequestWithRetries_def)
qed

text \<open>
  C3. At most one call more than the retries is made, and every call but the last failed with an
  error that is retried. A result is the outcome of the last call. An error is that of the last call,
  and could be retried only when the attempts are used up, or it is no call's: that of a
  key selection which found no key on the first attempt or after a failure bound to the key, or that of a
  missing tracer, before any call. With a negative number of retries there is neither.\<close>

theorem retries_follow_policy:
  "case executeRequestWithRetries env trail selected of
     (st, r) \<Rightarrow>
       (let calls = ry_calls st; n = length calls
        in int n \<le> max 0 (re_MaxRetries env + 1) \<and>
           (\<forall>i. Suc i < n \<longrightarrow> (\<exists>e. failed_with env calls i e \<and> retried e)) \<and>
           (case r of
              Inr (Some x) \<Rightarrow> 0 < n \<and> attempt_outcome env (n - 1) (calls ! (n - 1)) = Inr x
            | Inr None \<Rightarrow> re_MaxRetries env < 0
            | Inl e \<Rightarrow>
                (0 < n \<and> failed_with env calls (n - 1) e \<and> (retried e \<longrightarrow> int n = re_MaxRetries env + 1)) \<or>
                (keyed env \<and> (\<exists>x. e = key_failure_error x) \<and> int n \<le> re_MaxRetries env \<and>
                   (0 < n \<longrightarrow> (\<exists>e'. failed_with env calls (n - 1) e' \<and> retried e' \<and> isPerKeyFailure e'))) \<or>
                (\<not> re_hasTracer env \<and> n = 0 \<and> e = newUnifAIErrorFromMsg ''tracer not found in context'')))"
  using retries_done_loop [of env trail selected] unfolding retries_done_def .

subsection \<open>Dead keys\<close>

text \<open>The selector, on a list that is not empty, and the filter answer with keys of the list they are given.\<close>

definition honest :: "'r retry_env \<Rightarrow> bool" where
  "honest env \<longleftrightarrow>
     (\<forall>a ks k. ks \<noteq> [] \<longrightarrow> re_selector env a ks = Inr k \<longrightarrow> k \<in> set ks) \<and>
     (\<forall>f a b ks ks'. re_filter env = Some f \<longrightarrow> f a b ks = Inr ks' \<longrightarrow> set ks' \<subseteq> set ks)"

definition died :: "'r retry_env \<Rightarrow> api_key list \<Rightarrow> nat \<Rightarrow> bool" where
  "died env calls i \<longleftrightarrow> (\<exists>e. failed_with env calls i e \<and> isPermanentKeyFailure e)"

definition dead_inv :: "'r retry_env \<Rightarrow> nat \<Rightarrow> retry_state \<Rightarrow> bool" where
  "dead_inv env a st \<longleftrightarrow>
     trace_inv env a st \<and>
     ry_dead st = (\<lambda>i. ky_ID (ry_calls st ! i)) ` {i. i < a \<and> died env (ry_calls st) i} \<and>
     (\<forall>i j. i < j \<longrightarrow> j < a \<longrightarrow> died env (ry_calls st) i \<longrightarrow> ky_ID (ry_calls st ! j) \<noteq> ky_ID (ry_calls st ! i))"

lemma pool_filter_subset: "honest env \<Longrightarrow> set (pool_filter env a b ks) \<subseteq> set ks"
  by (fastforce simp: honest_def pool_filter_def split: option.splits sum.splits)

lemma select_from_member: "honest env \<Longrightarrow> ks \<noteq> [] \<Longrightarrow> select_from env a ks = Inr k \<Longrightarrow> k \<in> set ks"
  by (auto simp: honest_def select_from_def split: sum.splits)

lemma keyProvider_alive:
  assumes "honest env" "keyed env" "keyProvider env a used dead = (u, Inr k)"
  shows "ky_ID k \<notin> dead \<and> (\<forall>pool. re_source env = RotatingPool pool \<longrightarrow> k \<in> set pool)"
  using assms(2,3) pool_filter_subset [OF assms(1)] select_from_member [OF assms(1)]
  by (fastforce simp: keyProvider_def keyed_def Let_def split: key_source.splits if_splits sum.splits)

text \<open>Every call is made with a key of the source.\<close>

definition source_keys :: "key_source \<Rightarrow> api_key set" where
  "source_keys src = (case src of NoKeySource \<Rightarrow> {zero_key} | FixedKey k \<Rightarrow> {k} | RotatingPool pool \<Rightarrow> set pool)"

lemma choose_key_source:
  assumes "honest env" "choose_key env a st = (st', None)"
    and "ry_key st \<in> source_keys (re_source env) \<or> keyed env \<and> a = 0"
  shows "ry_key st' \<in> source_keys (re_source env)"
proof -
  have k: "k \<in> source_keys (re_source env)" if "keyProvider env a used dead = (u, Inr k)" for used dead u k
    using that pool_filter_subset [OF assms(1)] select_from_member [OF assms(1)]
    by (fastforce simp: keyProvider_def source_keys_def Let_def split: key_source.splits if_splits sum.splits)
  then show ?thesis
    using assms(2,3) by (auto simp: choose_key_def split: if_splits prod.splits sum.splits)
qed

lemma calls_from_source:
  assumes hon: "honest env"
  shows "set (ry_calls (fst (executeRequestWithRetries env trail selected))) \<subseteq> source_keys (re_source env)"
proof -
  let ?S = "source_keys (re_source env)"
  define Q where "Q = (\<lambda>(st :: retry_state) (r :: core_error + 'a outcome option). set (ry_calls st) \<subseteq> ?S)"
  have "case_prod Q (retry_from env 0 (retry_init trail selected))"
  proof (rule retry_from_rule [where P = "\<lambda>a st. set (ry_calls st) \<subseteq> ?S \<and> (ry_key st \<in> ?S \<or> keyed env \<and> a = 0)"])
    fix a :: nat and st st' :: retry_state
    assume inv: "set (ry_calls st) \<subseteq> ?S \<and> (ry_key st \<in> ?S \<or> keyed env \<and> a = 0)"
    have key: "ry_key st1 \<in> ?S \<and> ry_calls st1 = ry_calls st"
      if "choose_key env a (begin_attempt env a st) = (st1, None)" for st1
      using choose_key_source [OF hon that] choose_key_frame [OF that] inv by simp
    {
      assume "run_attempt env a st = Continue st'"
      then show "set (ry_calls st') \<subseteq> ?S \<and> (ry_key st' \<in> ?S \<or> keyed env \<and> Suc a = 0)"
        by (rule run_attempt_Continue) (use inv key in \<open>auto simp: key\<close>)
    next
      fix r assume "run_attempt env a st = Break st' r"
      then show "Q (clear_selected env st') (map_sum (\<lambda>e. e) Some r)"
        by (rule run_attempt_Break) (use inv key in \<open>auto simp: Q_def\<close>)
    next
      fix e assume "run_attempt env a st = Return st' e"
      then show "Q st' (Inl e)"
        using inv by (cases rule: run_attempt_Return) (auto simp: Q_def dest!: choose_key_frame)
    }
  next
    show "set (ry_calls (retry_init trail selected)) \<subseteq> ?S \<and>
        (ry_key (retry_init trail selected) \<in> ?S \<or> keyed env \<and> 0 = (0::nat))"
      by (auto simp: retry_init_def keyed_def source_keys_def)
  qed (simp add: Q_def)
  then show ?thesis by (simp add: executeRequestWithRetries_def Q_def split_beta)
qed

lemma died_append [simp]: "i < length calls \<Longrightarrow> died env (calls @ [k]) i = died env calls i"
  by (simp add: died_def)

text \<open>The key of an attempt has not died before.\<close>

lemma chosen_alive:
  assumes "honest env" "keyed env" and inv: "dead_inv env a st"
    and c: "choose_key env a (begin_attempt env a st) = (st1, None)"
  shows "ky_ID (ry_key st1) \<notin> ry_dead st"
proof (cases "a = 0 \<or> ry_lastWasPerKeyFailure st")
  case True
  with c assms(2) obtain u k where "keyProvider env a (ry_used st) (ry_dead st) = (u, Inr k)" "ry_key st1 = k"
    by (auto simp: choose_key_def split: prod.splits sum.splits)
  then show ?thesis using keyProvider_alive [OF assms(1,2)] by blast
next
  case False
  with c have st1: "ry_key st1 = ry_key st" by (auto simp: choose_key_def split: if_splits)
  from False inv obtain e where e: "failed_with env (ry_calls st) (a - 1) e" "\<not> isPerKeyFailure e"
    "ry_key st = ry_calls st ! (a - 1)" "0 < a"
    by (auto simp: dead_inv_def trace_inv_def)
  then have nd: "\<not> died env (ry_calls st) (a - 1)"
    by (auto simp: died_def failed_with_def isPermanentKeyFailure_def)
  show ?thesis
  proof
    assume "ky_ID (ry_key st1) \<in> ry_dead st"
    with inv st1 obtain i where i: "i < a" "died env (ry_calls st) i" "ky_ID (ry_key st) = ky_ID (ry_calls st ! i)"
      by (auto simp: dead_inv_def)
    with nd have "i < a - 1" by (metis Suc_diff_1 e(4) less_antisym)
    with i e inv show False unfolding dead_inv_def by (metis diff_less zero_less_one)
  qed
qed

lemma dead_step:
  assumes "honest env" "keyed env" and inv: "dead_inv env a st" and run: "run_attempt env a st = Continue st'"
  shows "dead_inv env (Suc a) st'"
proof -
  obtain st1 e where c: "choose_key env a (begin_attempt env a st) = (st1, None)"
    and o: "attempt_outcome env a (ry_key st1) = Inl e" "retried e"
    and st': "st' = after_failure env a e ((add_call env a (record_attempt env a st1))
       \<lparr>ry_error := Some e, ry_trail := note_reason e (ry_trail (record_attempt env a st1))\<rparr>)"
    using run by (rule run_attempt_Continue)
  have alive: "ky_ID (ry_key st1) \<notin> ry_dead st" by (rule chosen_alive [OF assms(1,2) inv c])
  have len: "length (ry_calls st) = a" using inv by (simp add: dead_inv_def trace_inv_def)
  have frame: "ry_calls st' = ry_calls st @ [ry_key st1]"
    "ry_dead st' = (if isPermanentKeyFailure e then insert (ky_ID (ry_key st1)) (ry_dead st) else ry_dead st)"
    using choose_key_frame [OF c] assms(2) by (simp_all add: st')
  have new: "died env (ry_calls st') a \<longleftrightarrow> isPermanentKeyFailure e"
    using o(1) len by (simp add: frame died_def)
  have old: "died env (ry_calls st') i = died env (ry_calls st) i" if "i < a" for i
    using that len by (simp add: frame)
  have ids: "ry_calls st' ! i = (if i = a then ry_key st1 else ry_calls st ! i)" if "i \<le> a" for i
    using that len by (auto simp: frame nth_append)
  show ?thesis
    unfolding dead_inv_def
  proof (intro conjI allI impI)
    show "trace_inv env (Suc a) st'" using inv run by (auto simp: dead_inv_def intro: trace_step)
    let ?D = "{i. i < a \<and> died env (ry_calls st) i}"
    have "{i. i < Suc a \<and> died env (ry_calls st') i} = (if isPermanentKeyFailure e then insert a ?D else ?D)"
      using new old by (auto simp: less_Suc_eq)
    moreover have "(\<lambda>i. ky_ID (ry_calls st' ! i)) ` ?D = ry_dead st"
      using inv ids by (auto simp: dead_inv_def)
    ultimately show "ry_dead st' = (\<lambda>i. ky_ID (ry_calls st' ! i)) ` {i. i < Suc a \<and> died env (ry_calls st') i}"
      using ids [of a] by (simp add: frame(2))
  next
    fix i j assume ij: "i < j" "j < Suc a" "died env (ry_calls st') i"
    show "ky_ID (ry_calls st' ! j) \<noteq> ky_ID (ry_calls st' ! i)"
    proof (cases "j = a")
      case True
      with ij old have "ky_ID (ry_calls st ! i) \<in> ry_dead st" using inv by (auto simp: dead_inv_def)
      with alive ij True show ?thesis by (auto simp: ids)
    next
      case False
      with ij inv old ids show ?thesis by (auto simp: dead_inv_def)
    qed
  qed
qed

lemma dead_init: "dead_inv env 0 (retry_init trail selected)"
  by (simp add: dead_inv_def trace_init) (simp add: retry_init_def)

text \<open>
  C5. A key whose call failed with 401, 402 or 403 is not called again in the request.\<close>

theorem dead_key_not_used_again:
  assumes hon: "honest env" and key: "keyed env"
    and i: "i < j" "j < length (ry_calls (fst (executeRequestWithRetries env trail selected)))"
    and died: "failed_with env (ry_calls (fst (executeRequestWithRetries env trail selected))) i e"
      "isPermanentKeyFailure e"
  shows "ky_ID (ry_calls (fst (executeRequestWithRetries env trail selected)) ! j) \<noteq>
         ky_ID (ry_calls (fst (executeRequestWithRetries env trail selected)) ! i)"
proof -
  define Q where "Q = (\<lambda>(st :: retry_state) (r :: core_error + 'a outcome option). \<forall>i j. i < j \<longrightarrow> j < length (ry_calls st) \<longrightarrow>
    died env (ry_calls st) i \<longrightarrow> ky_ID (ry_calls st ! j) \<noteq> ky_ID (ry_calls st ! i))"
  have "case_prod Q (retry_from env 0 (retry_init trail selected))"
  proof (rule retry_from_rule [where P = "dead_inv env"])
    fix a st st' assume inv: "dead_inv env a st"
    then have len: "length (ry_calls st) = a" by (simp add: dead_inv_def trace_inv_def)
    {
      assume "run_attempt env a st = Continue st'"
      with inv show "dead_inv env (Suc a) st'" by (rule dead_step [OF hon key])
    next
      fix r assume "run_attempt env a st = Break st' r"
      then show "Q (clear_selected env st') (map_sum (\<lambda>e. e) Some r)"
      proof (rule run_attempt_Break)
        fix st1 assume c: "choose_key env a (begin_attempt env a st) = (st1, None)"
          and calls: "ry_calls st' = ry_calls st @ [ry_key st1]"
        have alive: "ky_ID (ry_key st1) \<notin> ry_dead st" by (rule chosen_alive [OF hon key inv c])
        show ?thesis
          unfolding Q_def
        proof (intro allI impI)
          fix i j assume ij: "i < j" "j < length (ry_calls (clear_selected env st'))" "died env (ry_calls (clear_selected env st')) i"
          then have d: "died env (ry_calls st) i" using len by (simp add: calls)
          show "ky_ID (ry_calls (clear_selected env st') ! j) \<noteq> ky_ID (ry_calls (clear_selected env st') ! i)"
          proof (cases "j = a")
            case True
            with ij d inv have "ky_ID (ry_calls st ! i) \<in> ry_dead st" by (auto simp: dead_inv_def)
            with alive True ij len show ?thesis by (auto simp: calls nth_append)
          next
            case False
            with ij d inv len show ?thesis by (auto simp: calls nth_append dead_inv_def)
          qed
        qed
      qed
    next
      fix e assume "run_attempt env a st = Return st' e"
      then show "Q st' (Inl e)"
        using inv len by (cases rule: run_attempt_Return) (auto simp: Q_def dead_inv_def dest!: choose_key_frame)
    }
  qed (auto simp: Q_def dead_inv_def trace_inv_def retry_init_def)
  then show ?thesis
    using i died by (auto simp: executeRequestWithRetries_def Q_def split_beta died_def)
qed

text \<open>Two keys: the first is revoked, the second works.\<close>

definition w_unauthorized :: core_error where
  "w_unauthorized = (newUnifAIErrorFromMsg ''invalid api key'')\<lparr>er_StatusCode := Some 401\<rparr>"

definition w_retry :: "string retry_env" where
  "w_retry = \<lparr>re_MaxRetries = 2, re_RetryBackoffInitial = 500000000, re_RetryBackoffMax = 5000000000,
     re_provider = ''openai'', re_source = RotatingPool [w_key1, w_key2], re_filter = None,
     re_selector = (\<lambda>_. w_sel_safe), re_rand = (\<lambda>_. 0), re_hasTracer = True,
     re_handler = (\<lambda>_ k. if ky_ID k = ''k1'' then Inl w_unauthorized else Inr (Plain ''answer''))\<rparr>"

lemma w_retry_run:
  "ry_calls (fst (executeRequestWithRetries w_retry [] ('''', ''''))) = [w_key1, w_key2]"
  "snd (executeRequestWithRetries w_retry [] ('''', '''')) = Inr (Some (Plain ''answer''))"
  by code_simp+

lemma w_retry_honest: "honest w_retry" "keyed w_retry"
  by (auto simp: honest_def keyed_def w_retry_def w_sel_safe_def split: list.splits)

theorem dead_key_not_used_again_witness: "ky_ID w_key2 \<noteq> ky_ID w_key1"
  using dead_key_not_used_again [OF w_retry_honest, of 0 1 "[]" "('''', '''')" w_unauthorized]
  by (simp add: w_retry_run failed_with_def)
    (simp add: attempt_outcome_def w_retry_def w_key1_def isPermanentKeyFailure_iff has_status_def w_unauthorized_def)

theorem retries_follow_policy_witness:
  "(\<exists>e. failed_with w_retry [w_key1, w_key2] 0 e \<and> retried e) \<and>
   attempt_outcome w_retry 1 w_key2 = Inr (Plain ''answer'')"
proof -
  have "executeRequestWithRetries w_retry [] ('''', '''') =
      (fst (executeRequestWithRetries w_retry [] ('''', '''')), Inr (Some (Plain ''answer'')))"
    by (rule prod_eqI) (simp_all add: w_retry_run)
  with retries_follow_policy [of w_retry "[]" "('''', '''')"] w_retry_run(1) show ?thesis
    by (auto simp: Let_def split: prod.splits)
qed

end
