(* ===== verification/RetryProps.thy ===== *)
theory RetryProps
  imports Retries
begin

text \<open>
  Properties of the retry loop of \<open>Retries\<close>: when a request is refused for want of keys, that a
  healthy key is found, what the attempt trail and the selected key say afterwards, and the pauses.
\<close>

subsection \<open>Running out of keys\<close>

fun pool_of :: "key_source \<Rightarrow> api_key list" where
  "pool_of NoKeySource = []"
| "pool_of (FixedKey k) = [k]"
| "pool_of (RotatingPool pool) = pool"

lemma key_failure_error_inj: "key_failure_error (AllKeysDead m) = key_failure_error x \<Longrightarrow> x = AllKeysDead m"
  by (auto simp: key_failure_error_def typed_error_def newUnifAIErrorFromMsg_def split: provide_error.splits)

lemma choose_key_exhausted:
  assumes "choose_key env a st = (st', Some (key_failure_error (AllKeysDead m)))" "k \<in> set (pool_of (re_source env))"
  shows "ky_ID k \<in> ry_dead st"
proof -
  from assms(1) obtain x where "snd (keyProvider env a (ry_used st) (ry_dead st)) = Inl x"
    "key_failure_error x = key_failure_error (AllKeysDead m)"
    by (auto simp: choose_key_def split: if_splits prod.splits sum.splits)
  then have "snd (keyProvider env a (ry_used st) (ry_dead st)) = Inl (AllKeysDead m)"
    using key_failure_error_inj by metis
  with assms(2) show ?thesis
    by (cases "re_source env")
      (auto simp: keyProvider_def Let_def select_from_def filter_empty_conv split: if_splits sum.splits)
qed

text \<open>
  C15. When the answer is the error of exhausted credentials (502), then every key that the request
  could use was called and failed with 401, 402 or 403, unless the provider itself answered so.\<close>

theorem exhausted_only_when_all_died:
  assumes hon: "honest env" and key: "keyed env"
    and res: "executeRequestWithRetries env trail selected = (st, Inl (key_failure_error (AllKeysDead m)))"
    and own: "\<not> failed_with env (ry_calls st) (length (ry_calls st) - 1) (key_failure_error (AllKeysDead m))"
    and k: "k \<in> set (pool_of (re_source env))"
  shows "\<exists>i < length (ry_calls st). ky_ID (ry_calls st ! i) = ky_ID k \<and>
    (\<exists>e. failed_with env (ry_calls st) i e \<and> has_status e [401, 402, 403])"
proof -
  let ?e = "key_failure_error (AllKeysDead m)"
  define Q where "Q = (\<lambda>(st :: retry_state) (r :: core_error + 'a outcome option).
    r = Inl ?e \<longrightarrow> \<not> failed_with env (ry_calls st) (length (ry_calls st) - 1) ?e \<longrightarrow>
    (\<exists>i < length (ry_calls st). ky_ID (ry_calls st ! i) = ky_ID k \<and> died env (ry_calls st) i))"
  have "case_prod Q (retry_from env 0 (retry_init trail selected))"
  proof (rule retry_from_rule [where P = "dead_inv env"])
    fix a st st' assume inv: "dead_inv env a st"
    then have len: "length (ry_calls st) = a" by (simp add: dead_inv_def trace_inv_def)
    {
      assume "run_attempt env a st = Continue st'"
      with inv show "dead_inv env (Suc a) st'" by (rule dead_step [OF hon key])
    next
      fix r assume "run_attempt env a st = Break st' r"
      then show "Q (clear_selected env st') (map_sum (\<lambda>e. e) Some r)"
        by (rule run_attempt_Break) (use len in \<open>cases r; auto simp: Q_def failed_with_def nth_append\<close>)
    next
      fix e assume "run_attempt env a st = Return st' e"
      then show "Q st' (Inl e)"
      proof (cases rule: run_attempt_Return)
        case (1 st1 e1)
        note f = choose_key_frame [OF 1(1)]
        show ?thesis
        proof (cases "e = ?e")
          case True
          have "ky_ID k \<in> ry_dead st"
            using choose_key_exhausted [OF 1(1) [unfolded 1(3) [symmetric] True] k] by simp
          then obtain i where "i < a" "died env (ry_calls st) i" "ky_ID k = ky_ID (ry_calls st ! i)"
            using inv by (auto simp: dead_inv_def)
          with f len show ?thesis unfolding Q_def 1(2) by auto
        qed (simp add: Q_def)
      qed (auto simp: Q_def key_failure_error_def typed_error_def newUnifAIErrorFromMsg_def)
    }
  next
    fix a st assume inv: "dead_inv env a st" and "re_MaxRetries env < int a"
    then show "Q (clear_selected env st) (case ry_error st of Some e \<Rightarrow> Inl e | None \<Rightarrow> Inr None)"
      by (auto simp: Q_def dead_inv_def trace_inv_def split: option.splits if_splits)
  qed (rule dead_init)
  with res own show ?thesis
    by (auto simp: executeRequestWithRetries_def Q_def died_def isPermanentKeyFailure_iff)
qed

theorem exhausted_only_when_all_died_witness:
  "let env = w_retry\<lparr>re_handler := \<lambda>_ _. Inl w_unauthorized\<rparr>; st = fst (executeRequestWithRetries env [] ('''', ''''))
   in \<exists>i < length (ry_calls st). ky_ID (ry_calls st ! i) = ky_ID w_key2 \<and>
     (\<exists>e. failed_with env (ry_calls st) i e \<and> has_status e [401, 402, 403])"
proof -
  let ?env = "w_retry\<lparr>re_handler := \<lambda>_ _. Inl w_unauthorized\<rparr>"
  let ?m = "errAllKeysDead @ '': provider openai''"
  obtain st r where run: "executeRequestWithRetries ?env [] ('''', '''') = (st, r)" by fastforce
  have "snd (executeRequestWithRetries ?env [] ('''', '''')) = Inl (key_failure_error (AllKeysDead ?m))"
    "ry_calls (fst (executeRequestWithRetries ?env [] ('''', ''''))) = [w_key1, w_key2]" by code_simp+
  with run have r: "r = Inl (key_failure_error (AllKeysDead ?m))" "ry_calls st = [w_key1, w_key2]" by simp_all
  have "honest ?env" "keyed ?env"
    by (auto simp: honest_def keyed_def w_retry_def w_sel_safe_def split: list.splits)
  moreover have "\<not> failed_with ?env (ry_calls st) (length (ry_calls st) - 1) (key_failure_error (AllKeysDead ?m))"
    by (simp add: r failed_with_def attempt_outcome_def w_unauthorized_def key_failure_error_def typed_error_def
        newUnifAIErrorFromMsg_def)
  moreover have "w_key2 \<in> set (pool_of (re_source ?env))" by (simp add: w_retry_def)
  ultimately show ?thesis
    using exhausted_only_when_all_died [OF _ _ run [unfolded r(1)]] run by simp
qed

subsection \<open>A healthy key is found\<close>

text \<open>Keys that always work, and keys that always fail for good with an error that is retried.\<close>

definition healthy :: "'r retry_env \<Rightarrow> api_key \<Rightarrow> bool" where
  "healthy env k \<longleftrightarrow> (\<forall>a. \<exists>x. attempt_outcome env a k = Inr x)"

definition revoked :: "'r retry_env \<Rightarrow> api_key \<Rightarrow> bool" where
  "revoked env k \<longleftrightarrow> (\<forall>a. \<exists>e. attempt_outcome env a k = Inl e \<and> retried e \<and> isPermanentKeyFailure e)"

lemma revoked_outcome:
  "revoked env k \<Longrightarrow> attempt_outcome env a k = Inl e \<Longrightarrow> retried e \<and> isPermanentKeyFailure e"
  by (auto simp: revoked_def dest: spec [of _ a])

lemma healthy_outcome: "healthy env k \<Longrightarrow> attempt_outcome env a k \<noteq> Inl e"
  by (metis Inl_Inr_False healthy_def)

lemma healthy_not_revoked: "healthy env k \<Longrightarrow> \<not> revoked env k"
  by (metis healthy_outcome revoked_def)

definition search_inv :: "'r retry_env \<Rightarrow> api_key list \<Rightarrow> nat \<Rightarrow> retry_state \<Rightarrow> bool" where
  "search_inv env pool a st \<longleftrightarrow>
     dead_inv env a st \<and> ry_used st = {} \<and> set (ry_calls st) \<subseteq> {k \<in> set pool. revoked env k} \<and>
     distinct (map ky_ID (ry_calls st)) \<and> ky_ID ` set (ry_calls st) = ry_dead st"

lemma search_choose:
  assumes pool: "re_source env = RotatingPool pool" "re_filter env = None" "g \<in> set pool" "healthy env g" "distinct (map ky_ID pool)"
    and sel: "\<And>a ks. ks \<noteq> [] \<Longrightarrow> \<exists>k\<in>set ks. re_selector env a ks = Inr k"
    and inv: "search_inv env pool a st"
  obtains st1 where "choose_key env a (begin_attempt env a st) = (st1, None)" "ry_key st1 \<in> set pool"
    "ky_ID (ry_key st1) \<notin> ry_dead st" "ry_used st1 = {}"
proof -
  let ?av = "filter (\<lambda>k. ky_ID k \<notin> ry_dead st \<and> ky_ID k \<notin> ry_used st) pool"
  have per: "a = 0 \<or> ry_lastWasPerKeyFailure st"
  proof (cases "a = 0")
    case False
    with inv obtain e where e: "failed_with env (ry_calls st) (a - 1) e" "ry_lastWasPerKeyFailure st = isPerKeyFailure e"
      and k: "ry_calls st ! (a - 1) \<in> set (ry_calls st)"
      by (auto simp: search_inv_def dead_inv_def trace_inv_def)
    from k inv have "revoked env (ry_calls st ! (a - 1))" by (auto simp: search_inv_def)
    with e revoked_outcome show ?thesis by (auto simp: failed_with_def isPermanentKeyFailure_def)
  qed simp
  have "ky_ID g \<notin> ry_dead st"
  proof
    assume "ky_ID g \<in> ry_dead st"
    then have "ky_ID g \<in> ky_ID ` set (ry_calls st)" using inv by (simp add: search_inv_def)
    then obtain k where k: "k \<in> set (ry_calls st)" "ky_ID k = ky_ID g" by auto
    with inv have "k \<in> set pool" "revoked env k" by (auto simp: search_inv_def)
    with k(2) pool(3,5) have "revoked env g" by (metis distinct_map inj_onD)
    with pool(4) healthy_not_revoked show False by blast
  qed
  then have ne: "?av \<noteq> []" using inv pool(3) by (auto simp: search_inv_def filter_empty_conv)
  then obtain k where k: "k \<in> set ?av" "re_selector env a ?av = Inr k" using sel by blast
  have kp: "keyProvider env a (ry_used st) (ry_dead st) = (ry_used st, Inr k)"
    using ne k(2) pool(1,2) by (simp add: keyProvider_def pool_filter_def select_from_def Let_def)
  have "\<exists>st1. choose_key env a (begin_attempt env a st) = (st1, None) \<and> ry_key st1 = k \<and> ry_used st1 = {}"
    using per kp pool(1) inv by (auto simp: choose_key_def keyed_def search_inv_def)
  with k(1) that show thesis by auto
qed

lemma search_step:
  assumes hon: "honest env" and pool: "re_source env = RotatingPool pool"
    and keys: "\<And>k. k \<in> set pool \<Longrightarrow> healthy env k \<or> revoked env k"
    and inv: "search_inv env pool a st"
    and c: "choose_key env a (begin_attempt env a st) = (st1, None)" "ry_key st1 \<in> set pool"
      "ky_ID (ry_key st1) \<notin> ry_dead st" "ry_used st1 = {}"
    and run: "run_attempt env a st = Continue st'"
  shows "search_inv env pool (Suc a) st'"
proof -
  have key: "keyed env" using pool by (simp add: keyed_def)
  obtain e where o: "attempt_outcome env a (ry_key st1) = Inl e"
    and st': "st' = after_failure env a e ((add_call env a (record_attempt env a st1))
      \<lparr>ry_error := Some e, ry_trail := note_reason e (ry_trail (record_attempt env a st1))\<rparr>)"
    using run c(1) by (auto elim!: run_attempt_Continue)
  have r: "revoked env (ry_key st1)" using keys [OF c(2)] healthy_outcome o by blast
  then have p: "isPermanentKeyFailure e" using revoked_outcome o by blast
  have "dead_inv env (Suc a) st'"
    by (rule dead_step [OF hon key _ run]) (use inv in \<open>simp add: search_inv_def\<close>)
  moreover have "ry_calls st' = ry_calls st @ [ry_key st1]" "ry_dead st' = insert (ky_ID (ry_key st1)) (ry_dead st)"
    using choose_key_frame [OF c(1)] p key by (simp_all add: st')
  moreover have "ry_used st' = {}" using c(4) p key by (simp add: st' after_failure_def Let_def)
  ultimately show ?thesis using inv c(2,3) r by (auto simp: search_inv_def)
qed

text \<open>
  C14. If every key of the pool either always works or always fails for good, one of them works,
  and the retries are at least as many as the keys that fail, the request succeeds, however the keys
  are drawn.\<close>

theorem healthy_key_is_found:
  assumes pool: "re_source env = RotatingPool pool" "re_filter env = None" "distinct (map ky_ID pool)" "re_hasTracer env"
    and sel: "\<And>a ks. ks \<noteq> [] \<Longrightarrow> \<exists>k\<in>set ks. re_selector env a ks = Inr k"
    and keys: "\<And>k. k \<in> set pool \<Longrightarrow> healthy env k \<or> revoked env k" "\<exists>k\<in>set pool. healthy env k"
    and enough: "int (length (filter (revoked env) pool)) \<le> re_MaxRetries env"
  shows "\<exists>x. snd (executeRequestWithRetries env trail selected) = Inr (Some x)"
proof -
  obtain g where g: "g \<in> set pool" "healthy env g" using keys(2) by blast
  have "ks \<noteq> [] \<Longrightarrow> re_selector env a ks = Inr k \<Longrightarrow> k \<in> set ks" for a ks k using sel [of ks a] by auto
  then have hon: "honest env" using pool(2) by (simp add: honest_def)
  define Q where "Q = (\<lambda>(st :: retry_state) (r :: core_error + 'a outcome option). \<exists>x. r = Inr (Some x))"
  have "case_prod Q (retry_from env 0 (retry_init trail selected))"
  proof (rule retry_from_rule [where P = "search_inv env pool"])
    fix a st st' assume inv: "search_inv env pool a st"
    obtain st1 where c: "choose_key env a (begin_attempt env a st) = (st1, None)" "ry_key st1 \<in> set pool"
      "ky_ID (ry_key st1) \<notin> ry_dead st" "ry_used st1 = {}"
      by (rule search_choose [OF pool(1,2) g pool(3) sel inv])
    {
      assume "run_attempt env a st = Continue st'"
      with keys(1) show "search_inv env pool (Suc a) st'"
        by (intro search_step [OF hon pool(1) _ inv c]) simp_all
    next
      fix r assume "run_attempt env a st = Break st' r"
      then show "Q (clear_selected env st') (map_sum (\<lambda>e. e) Some r)"
      proof (rule run_attempt_Break)
        fix st2 assume "choose_key env a (begin_attempt env a st) = (st2, None)"
          and o: "attempt_outcome env a (ry_key st2) = r"
            "case r of Inl e \<Rightarrow> \<not> retried e \<and> ry_error st' = Some e | Inr _ \<Rightarrow> ry_error st' = None"
        with c(1) have "st2 = st1" by simp
        show ?thesis
        proof (cases r)
          case (Inl e)
          with o \<open>st2 = st1\<close> have "attempt_outcome env a (ry_key st1) = Inl e" "\<not> retried e" by simp_all
          then have "\<not> healthy env (ry_key st1)" "\<not> revoked env (ry_key st1)"
            using healthy_outcome [of env "ry_key st1" a e] revoked_outcome [of env "ry_key st1" a e] by auto
          with keys(1) [OF c(2)] show ?thesis by simp
        qed (simp add: Q_def)
      qed
    next
      fix e assume "run_attempt env a st = Return st' e"
      then show "Q st' (Inl e)" by (cases rule: run_attempt_Return) (simp_all add: c(1) pool(4))
    }
  next
    fix a st assume inv: "search_inv env pool a st" and gt: "re_MaxRetries env < int a"
    have "length (ry_calls st) = card (ky_ID ` set (ry_calls st))"
      using inv by (metis distinct_card length_map search_inv_def set_map)
    also have "\<dots> \<le> card (set (filter (revoked env) pool))"
      using inv by (intro order.trans [OF card_image_le card_mono]) (auto simp: search_inv_def)
    also have "\<dots> \<le> length (filter (revoked env) pool)" by (rule card_length)
    finally have "int a \<le> re_MaxRetries env" using inv enough by (auto simp: search_inv_def dead_inv_def trace_inv_def)
    with gt show "Q (clear_selected env st) (case ry_error st of Some e \<Rightarrow> Inl e | None \<Rightarrow> Inr None)" by simp
  next
    show "search_inv env pool 0 (retry_init trail selected)"
      using dead_init [of env trail selected] by (simp add: search_inv_def) (simp add: retry_init_def)
  qed
  then show ?thesis by (simp add: executeRequestWithRetries_def Q_def split_beta)
qed

theorem healthy_key_is_found_witness:
  "\<exists>x. snd (executeRequestWithRetries w_retry [] ('''', '''')) = Inr (Some x)"
proof (rule healthy_key_is_found)
  show "re_source w_retry = RotatingPool [w_key1, w_key2]" by (simp add: w_retry_def)
  have o: "attempt_outcome w_retry a k = (if ky_ID k = ''k1'' then Inl w_unauthorized else Inr (Plain ''answer''))" for a k
    by (simp add: w_retry_def attempt_outcome_def)
  have e: "retried w_unauthorized" "isPermanentKeyFailure w_unauthorized" by code_simp+
  show "healthy w_retry k \<or> revoked w_retry k" if "k \<in> set [w_key1, w_key2]" for k
    by (auto simp: healthy_def revoked_def o e)
  show "\<exists>k\<in>set [w_key1, w_key2]. healthy w_retry k" by (auto simp: healthy_def o w_key2_def)
  have "\<not> revoked w_retry w_key2" by (auto simp: revoked_def o w_key2_def)
  then show "int (length (filter (revoked w_retry) [w_key1, w_key2])) \<le> re_MaxRetries w_retry"
    by (simp add: w_retry_def)
  show "\<exists>k\<in>set ks. re_selector w_retry a ks = Inr k" if "ks \<noteq> []" for a ks
    using that by (cases ks) (simp_all add: w_retry_def w_sel_safe_def)
qed (simp_all add: w_retry_def w_key1_def w_key2_def)

subsection \<open>The attempt trail, the selected key and the pauses\<close>

definition bound_failure :: "'r retry_env \<Rightarrow> api_key list \<Rightarrow> nat \<Rightarrow> bool" where
  "bound_failure env calls i \<longleftrightarrow> (\<exists>e. failed_with env calls i e \<and> isPerKeyFailure e)"

text \<open>The record of call \<open>i\<close> among \<open>n\<close> calls.\<close>

definition trail_entry :: "'r retry_env \<Rightarrow> api_key list \<Rightarrow> nat \<Rightarrow> nat \<Rightarrow> key_attempt" where
  "trail_entry env calls n i =
     \<lparr>ka_Attempt = i, ka_KeyID = ky_ID (calls ! i), ka_KeyName = ak_Name (calls ! i),
      ka_FailReason = (case attempt_outcome env i (calls ! i) of
         Inl e \<Rightarrow> if is_terminal e then None else Some (fail_reason e) | Inr _ \<Rightarrow> None),
      ka_TriggeredRotation = (Suc i < n \<and> bound_failure env calls i \<and> ky_ID (calls ! Suc i) \<noteq> ky_ID (calls ! i))\<rparr>"

definition trail_inv :: "'r retry_env \<Rightarrow> nat \<Rightarrow> retry_state \<Rightarrow> bool" where
  "trail_inv env a st \<longleftrightarrow>
     trace_inv env a st \<and>
     (0 < a \<longrightarrow> ry_trail st = map (trail_entry env (ry_calls st) a) [0..<a]) \<and>
     (int a \<le> re_MaxRetries env \<longrightarrow>
        ry_pending st = (if 0 < a \<and> bound_failure env (ry_calls st) (a - 1) then Some (a - 1) else None)) \<and>
     (0 < a \<longrightarrow> ry_selected st = (ky_ID (ry_key st), ak_Name (ry_key st)))"

text \<open>The trail just before the call of attempt \<open>a\<close> with key \<open>k\<close>.\<close>

lemma trail_chosen:
  assumes inv: "trail_inv env a st" and key: "keyed env" and le: "int a \<le> re_MaxRetries env"
    and c: "choose_key env a (begin_attempt env a st) = (st1, None)"
  shows "ry_trail st1 = map (trail_entry env (ry_calls st @ [ry_key st1]) (Suc a)) [0..<a] \<and>
    ry_selected st1 = (ky_ID (ry_key st1), ak_Name (ry_key st1)) \<and> ry_pending st1 = None"
proof (cases "a = 0")
  case True
  with c key inv le show ?thesis
    by (auto simp: choose_key_def begin_attempt_def trail_inv_def mark_rotation_def split: prod.splits sum.splits)
next
  case False
  have len: "length (ry_calls st) = a" using inv by (simp add: trail_inv_def trace_inv_def)
  have tr: "ry_trail (begin_attempt env a st) = map (trail_entry env (ry_calls st) a) [0..<a]"
    using inv False by (simp add: trail_inv_def begin_attempt_def)
  have entry: "trail_entry env (ry_calls st @ [k]) (Suc a) i =
      (if Suc i = a \<and> bound_failure env (ry_calls st) i \<and> ky_ID k \<noteq> ky_ID (ry_calls st ! i)
       then (trail_entry env (ry_calls st) a i)\<lparr>ka_TriggeredRotation := True\<rparr> else trail_entry env (ry_calls st) a i)"
    if "i < a" for i k
    using that len by (auto simp: trail_entry_def nth_append bound_failure_def failed_with_def)
  obtain e where e: "failed_with env (ry_calls st) (a - 1) e" "ry_lastWasPerKeyFailure st = isPerKeyFailure e"
    using inv False by (auto simp: trail_inv_def trace_inv_def)
  then have per: "ry_lastWasPerKeyFailure st = bound_failure env (ry_calls st) (a - 1)"
    by (auto simp: bound_failure_def failed_with_def)
  show ?thesis
  proof (cases "ry_lastWasPerKeyFailure st")
    case True
    with inv le False per have pend: "ry_pending st = Some (a - 1)" by (simp add: trail_inv_def)
    from c key True obtain used where st1: "st1 = (begin_attempt env a st)\<lparr>ry_used := used, ry_key := ry_key st1,
        ry_selected := (ky_ID (ry_key st1), ak_Name (ry_key st1)),
        ry_trail := mark_rotation (Some (a - 1)) (ky_ID (ry_key st1)) (ry_trail (begin_attempt env a st)), ry_pending := None\<rparr>"
      by (auto simp: choose_key_def pend split: prod.splits sum.splits)
    have id: "ka_KeyID (trail_entry env (ry_calls st) a i) = ky_ID (ry_calls st ! i)" for i
      by (simp add: trail_entry_def)
    have "mark_rotation (Some (a - 1)) (ky_ID (ry_key st1)) (map (trail_entry env (ry_calls st) a) [0..<a]) =
        map (trail_entry env (ry_calls st @ [ry_key st1]) (Suc a)) [0..<a]"
    proof (rule nth_equalityI)
      fix i assume "i < length (mark_rotation (Some (a - 1)) (ky_ID (ry_key st1)) (map (trail_entry env (ry_calls st) a) [0..<a]))"
      then have "i < a" by (simp add: mark_rotation_def split: if_splits)
      then show "mark_rotation (Some (a - 1)) (ky_ID (ry_key st1)) (map (trail_entry env (ry_calls st) a) [0..<a]) ! i =
          map (trail_entry env (ry_calls st @ [ry_key st1]) (Suc a)) [0..<a] ! i"
        using \<open>a \<noteq> 0\<close> True per by (cases "Suc i = a") (auto simp: mark_rotation_def entry id nth_list_update)
    qed (simp add: mark_rotation_def)
    then have "ry_trail st1 = map (trail_entry env (ry_calls st @ [ry_key st1]) (Suc a)) [0..<a]"
      by (subst st1) (simp add: tr)
    moreover have "ry_selected st1 = (ky_ID (ry_key st1), ak_Name (ry_key st1)) \<and> ry_pending st1 = None"
      by (subst (1 4) st1) simp
    ultimately show ?thesis by blast
  next
    case False
    with c \<open>a \<noteq> 0\<close> have st1: "st1 = begin_attempt env a st" by (simp add: choose_key_def)
    have "map (trail_entry env (ry_calls st @ [ry_key st1]) (Suc a)) [0..<a] = map (trail_entry env (ry_calls st) a) [0..<a]"
      using False per by (auto simp: entry)
    with tr inv False per le \<open>a \<noteq> 0\<close> show ?thesis by (simp add: st1 trail_inv_def)
  qed
qed

lemma note_reason_snoc [simp]:
  "note_reason e (trail @ [x]) = trail @ [x\<lparr>ka_FailReason := Some (fail_reason e)\<rparr>]"
  by (simp add: note_reason_def)

lemma trail_entry_new:
  "length calls = a \<Longrightarrow> attempt_outcome env a k = r \<Longrightarrow>
   trail_entry env (calls @ [k]) (Suc a) a =
     \<lparr>ka_Attempt = a, ka_KeyID = ky_ID k, ka_KeyName = ak_Name k,
      ka_FailReason = (case r of Inl e \<Rightarrow> if is_terminal e then None else Some (fail_reason e) | Inr _ \<Rightarrow> None),
      ka_TriggeredRotation = False\<rparr>"
  by (simp add: trail_entry_def nth_append)

lemma record_attempt_trail:
  "keyed env \<Longrightarrow> ry_trail (record_attempt env a st) =
     ry_trail st @ [\<lparr>ka_Attempt = a, ka_KeyID = ky_ID (ry_key st), ka_KeyName = ak_Name (ry_key st),
                     ka_FailReason = None, ka_TriggeredRotation = False\<rparr>]"
  by (simp add: record_attempt_def)

lemma trail_step:
  assumes inv: "trail_inv env a st" and key: "keyed env" and le: "int a \<le> re_MaxRetries env"
    and run: "run_attempt env a st = Continue st'"
  shows "trail_inv env (Suc a) st'"
proof -
  obtain st1 e where c: "choose_key env a (begin_attempt env a st) = (st1, None)"
    and o: "attempt_outcome env a (ry_key st1) = Inl e" "retried e"
    and st': "st' = after_failure env a e ((add_call env a (record_attempt env a st1))
       \<lparr>ry_error := Some e, ry_trail := note_reason e (ry_trail (record_attempt env a st1))\<rparr>)"
    using run by (rule run_attempt_Continue)
  have len: "length (ry_calls st) = a" using inv by (simp add: trail_inv_def trace_inv_def)
  note t = trail_chosen [OF inv key le c]
  have calls: "ry_calls st' = ry_calls st @ [ry_key st1]" using choose_key_frame [OF c] by (simp add: st')
  have tr: "ry_trail st' = map (trail_entry env (ry_calls st') (Suc a)) [0..<Suc a]"
    unfolding calls using t o
    by (simp add: st' record_attempt_trail [OF key] trail_entry_new [OF len o(1)] retried_def)
  have bf: "bound_failure env (ry_calls st') a = isPerKeyFailure e"
    using o(1) len by (simp add: bound_failure_def calls)
  have "trace_inv env (Suc a) st'" using inv run by (auto simp: trail_inv_def intro: trace_step)
  moreover have "int (Suc a) \<le> re_MaxRetries env \<longrightarrow> ry_pending st' = (if isPerKeyFailure e then Some a else None)"
    using t key by (auto simp: st' after_failure_def Let_def record_attempt_trail [OF key])
  moreover have "ry_selected st' = (ky_ID (ry_key st'), ak_Name (ry_key st'))" using t by (simp add: st')
  ultimately show ?thesis using tr bf by (simp add: trail_inv_def)
qed

text \<open>
  After a request with keys the attempt trail has one record per call, in order, with the key
  that was used, the reason of its failure, and the mark of a rotation exactly when the failure was
  bound to the key and the next call used another one; the selected key is that of the call that was
  answered, and none when the request failed.\<close>

lemma attempt_trail_accounts:
  assumes key: "keyed env" and tracer: "re_hasTracer env" and max: "0 \<le> re_MaxRetries env"
  shows "case executeRequestWithRetries env trail selected of
    (st, r) \<Rightarrow>
      ry_trail st = map (trail_entry env (ry_calls st) (length (ry_calls st))) [0..<length (ry_calls st)] \<and>
      ry_selected st = (case r of
         Inr _ \<Rightarrow> (ky_ID (last (ry_calls st)), ak_Name (last (ry_calls st)))
       | Inl _ \<Rightarrow> ('''', ''''))"
proof -
  define Q where "Q = (\<lambda>(st :: retry_state) (r :: core_error + 'a outcome option).
    ry_trail st = map (trail_entry env (ry_calls st) (length (ry_calls st))) [0..<length (ry_calls st)] \<and>
    ry_selected st = (case r of Inr _ \<Rightarrow> (ky_ID (last (ry_calls st)), ak_Name (last (ry_calls st))) | Inl _ \<Rightarrow> ('''', '''')))"
  have "case_prod Q (retry_from env 0 (retry_init trail selected))"
  proof (rule retry_from_rule [where P = "trail_inv env"])
    fix a st st' assume inv: "trail_inv env a st" and le: "int a \<le> re_MaxRetries env"
    then have len: "length (ry_calls st) = a" by (simp add: trail_inv_def trace_inv_def)
    {
      assume "run_attempt env a st = Continue st'"
      with inv key le show "trail_inv env (Suc a) st'" by (rule trail_step)
    next
      fix r assume "run_attempt env a st = Break st' r"
      then show "Q (clear_selected env st') (map_sum (\<lambda>e. e) Some r)"
      proof (rule run_attempt_Break)
        fix st1
        assume c: "choose_key env a (begin_attempt env a st) = (st1, None)"
          and o: "attempt_outcome env a (ry_key st1) = r" and calls: "ry_calls st' = ry_calls st @ [ry_key st1]"
          and sel: "ry_selected st' = ry_selected st1"
          and err: "case r of Inl e \<Rightarrow> \<not> retried e \<and> ry_error st' = Some e | Inr _ \<Rightarrow> ry_error st' = None"
          and tr: "ry_trail st' = (case r of Inl e \<Rightarrow> if is_terminal e then ry_trail (record_attempt env a st1)
             else note_reason e (ry_trail (record_attempt env a st1)) | Inr _ \<Rightarrow> ry_trail (record_attempt env a st1))"
        note t = trail_chosen [OF inv key le c]
        have "ry_trail st' = map (trail_entry env (ry_calls st') (Suc a)) [0..<Suc a]"
          using t by (cases r) (simp_all add: tr calls record_attempt_trail [OF key] trail_entry_new [OF len o])
        with len t sel err key show ?thesis by (cases r) (simp_all add: Q_def calls clear_selected_def)
      qed
    next
      fix e assume "run_attempt env a st = Return st' e"
      then show "Q st' (Inl e)"
      proof (cases rule: run_attempt_Return)
        case (1 st1 e1)
        then have "ry_trail st' = ry_trail (begin_attempt env a st)" "ry_selected st' = ('''', '''')"
          by (auto simp: choose_key_def split: if_splits prod.splits sum.splits)
        with choose_key_frame [OF 1(1)] inv key len show ?thesis
          by (cases "a = 0") (simp_all add: Q_def 1(2) trail_inv_def begin_attempt_def)
      qed (use tracer in simp)
    }
  next
    fix a st assume inv: "trail_inv env a st" and gt: "re_MaxRetries env < int a"
    with max have "0 < a" by simp
    with inv key show "Q (clear_selected env st) (case ry_error st of Some e \<Rightarrow> Inl e | None \<Rightarrow> Inr None)"
      by (auto simp: Q_def trail_inv_def trace_inv_def clear_selected_def)
  next
    show "trail_inv env 0 (retry_init trail selected)"
      using trace_init [of env trail selected] by (simp add: trail_inv_def) (simp add: retry_init_def)
  qed
  then show ?thesis unfolding executeRequestWithRetries_def Q_def .
qed

lemma attempt_trail_accounts_witness:
  "case executeRequestWithRetries w_retry [] ('''', '''') of
    (st, r) \<Rightarrow>
      ry_trail st = map (trail_entry w_retry (ry_calls st) (length (ry_calls st))) [0..<length (ry_calls st)] \<and>
      ry_selected st = (case r of
         Inr _ \<Rightarrow> (ky_ID (last (ry_calls st)), ak_Name (last (ry_calls st)))
       | Inl _ \<Rightarrow> ('''', ''''))"
  by (rule attempt_trail_accounts) (simp_all add: keyed_def w_retry_def)

text \<open>On the sample the trail says that the revoked key was rotated away.\<close>

lemma w_retry_trail:
  "map (\<lambda>x. (ka_KeyID x, ka_FailReason x, ka_TriggeredRotation x))
     (ry_trail (fst (executeRequestWithRetries w_retry [] ('''', '''')))) =
   [(''k1'', Some ''authentication_error'', True), (''k2'', None, False)]"
  by code_simp

lemma pause_chosen:
  assumes inv: "trace_inv env a st" and c: "choose_key env a (begin_attempt env a st) = (st1, None)"
  shows "pause_before env a (record_attempt env a st1) =
    (let calls = ry_calls st @ [ry_key st1]
     in if a = 0 \<or> (keyed env \<and> died env calls (a - 1) \<and> ky_ID (calls ! a) \<noteq> ky_ID (calls ! (a - 1))) then None
        else Some (calculateBackoff (re_RetryBackoffInitial env) (re_RetryBackoffMax env) (re_rand env (a - 1)) (a - 1)))"
proof (cases "a = 0")
  case False
  have len: "length (ry_calls st) = a" using inv by (simp add: trace_inv_def)
  obtain e where e: "failed_with env (ry_calls st) (a - 1) e"
    "ry_lastWasPermanentKeyFailure st = (keyed env \<and> isPermanentKeyFailure e)"
    "ry_previousKeyID st = ky_ID (ry_calls st ! (a - 1))"
    using inv False by (auto simp: trace_inv_def)
  then have "died env (ry_calls st) (a - 1) = isPermanentKeyFailure e" by (auto simp: died_def failed_with_def)
  with e False len choose_key_frame [OF c] show ?thesis
    by (auto simp: pause_before_def nth_append)
qed (simp add: pause_before_def)

text \<open>
  Before every call but the first the loop pauses for the backoff of the retry, except after a
  failure with 401, 402 or 403 when the next call uses another key.\<close>

lemma pauses_follow_failures:
  "case executeRequestWithRetries env trail selected of
    (st, r) \<Rightarrow>
      ry_pauses st = map (\<lambda>i.
        if i = 0 \<or> (keyed env \<and> (\<exists>e. failed_with env (ry_calls st) (i - 1) e \<and> isPermanentKeyFailure e) \<and>
            ky_ID (ry_calls st ! i) \<noteq> ky_ID (ry_calls st ! (i - 1)))
        then None
        else Some (calculateBackoff (re_RetryBackoffInitial env) (re_RetryBackoffMax env) (re_rand env (i - 1)) (i - 1)))
        [0..<length (ry_calls st)]"
proof -
  define E where "E = (\<lambda>calls i.
    if i = 0 \<or> (keyed env \<and> died env calls (i - 1) \<and> ky_ID (calls ! i) \<noteq> ky_ID (calls ! (i - 1))) then None
    else Some (calculateBackoff (re_RetryBackoffInitial env) (re_RetryBackoffMax env) (re_rand env (i - 1)) (i - 1)))"
  define Q where "Q = (\<lambda>(st :: retry_state) (r :: core_error + 'a outcome option).
    ry_pauses st = map (E (ry_calls st)) [0..<length (ry_calls st)])"
  have snoc: "map (E (calls @ [k])) [0..<length calls] = map (E calls) [0..<length calls]" for calls k
    by (rule map_cong) (auto simp: E_def nth_append died_def failed_with_def)
  have pause: "pause_before env a (record_attempt env a st1) = E (ry_calls st @ [ry_key st1]) a"
    if "trace_inv env a st" "choose_key env a (begin_attempt env a st) = (st1, None)" for a st st1
    unfolding E_def pause_chosen [OF that] Let_def ..
  have "case_prod Q (retry_from env 0 (retry_init trail selected))"
  proof (rule retry_from_rule [where P = "\<lambda>a st. trace_inv env a st \<and> ry_pauses st = map (E (ry_calls st)) [0..<a]"])
    fix a st st' assume inv: "trace_inv env a st \<and> ry_pauses st = map (E (ry_calls st)) [0..<a]"
    then have tr: "trace_inv env a st" by blast
    then have len: "length (ry_calls st) = a" by (simp add: trace_inv_def)
    {
      assume run: "run_attempt env a st = Continue st'"
      then obtain st1 where c: "choose_key env a (begin_attempt env a st) = (st1, None)"
        "ry_pauses st' = ry_pauses st @ [pause_before env a (record_attempt env a st1)]"
        "ry_calls st' = ry_calls st @ [ry_key st1]"
        by (rule run_attempt_Continue) (auto dest: choose_key_frame)
      with inv len tr snoc [of "ry_calls st"] pause trace_step [OF tr run]
      show "trace_inv env (Suc a) st' \<and> ry_pauses st' = map (E (ry_calls st')) [0..<Suc a]" by simp
    next
      fix r assume "run_attempt env a st = Break st' r"
      then show "Q (clear_selected env st') (map_sum (\<lambda>e. e) Some r)"
      proof (rule run_attempt_Break)
        fix st1 assume "choose_key env a (begin_attempt env a st) = (st1, None)"
          "ry_pauses st' = ry_pauses st @ [pause_before env a (record_attempt env a st1)]"
          "ry_calls st' = ry_calls st @ [ry_key st1]"
        with inv len tr snoc [of "ry_calls st"] pause show ?thesis by (simp add: Q_def)
      qed
    next
      fix e assume "run_attempt env a st = Return st' e"
      then show "Q st' (Inl e)"
        using inv len by (cases rule: run_attempt_Return) (auto simp: Q_def dest!: choose_key_frame)
    }
  next
    show "trace_inv env 0 (retry_init trail selected) \<and> ry_pauses (retry_init trail selected) =
        map (E (ry_calls (retry_init trail selected))) [0..<0]"
      by (simp add: trace_init) (simp add: retry_init_def)
  qed (auto simp: Q_def trace_inv_def)
  then show ?thesis unfolding executeRequestWithRetries_def Q_def E_def died_def .
qed

end
