(* ===== verification/RequestWorker.thy ===== *)
theory RequestWorker
  imports RetryProps TryRequest
begin

text \<open>
  The worker of a provider queue on one message that is not a stream (core/unifai.go:
  \<^verbatim>\<open>requestWorker\<close> and what it calls): which raw payloads are captured, stored and sent back, the plan
  of the keys, the retry loop with the alias of the key of every attempt, the fields that answers
  carry, and the billing of an answer that nobody waits for. The call of the provider, the
  random draws and what the callers do meanwhile are arguments. The alias in force is an argument
  of the call and not a value of the context, as are the key and the number of the attempt; the
  attempt trail is the one of the loop. Waiting for messages and the drain of a closing queue
  belong to the goroutine around the worker and are left out, as is the branch for streams.
\<close>

subsection \<open>Providers and their configuration\<close>

definition StandardProviders :: "string list" where
  "StandardProviders =
     [''anthropic'', ''azure'', ''bedrock'', ''bedrock_mantle'', ''cerebras'', ''cohere'', ''deepseek'',
      ''gemini'', ''groq'', ''mistral'', ''ollama'', ''opencode-go'', ''opencode-zen'', ''openai'',
      ''parasail'', ''perplexity'', ''sgl'', ''vertex'', ''openrouter'', ''elevenlabs'', ''huggingface'',
      ''nebius'', ''xai'', ''replicate'', ''vllm'', ''runway'', ''runware'', ''fireworks'', ''together'',
      ''siliconflow'', ''moonshot'', ''minimax'', ''sambanova'', ''deepinfra'', ''novita'', ''nvidia'',
      ''hyperbolic'', ''portkey'', ''dashscope'', ''zhipu'', ''baichuan'', ''stepfun'', ''upstage'',
      ''ai21'', ''sakana'', ''baseten'', ''anyscale'', ''lepton'', ''friendli'', ''modelscope'',
      ''hunyuan'', ''qianfan'', ''ark'', ''sarvam'', ''krutrim'', ''sensenova'', ''spark'', ''reka'',
      ''featherless'', ''scaleway'', ''voyage'', ''jina'', ''nscale'', ''publicai'', ''inferencenet'',
      ''kluster'', ''lingyiwanwu'', ''inceptionlabs'', ''arcee'', ''nousresearch'', ''morphllm'',
      ''nlpcloud'', ''monsterapi'', ''aionlabs'', ''totalgpt'', ''mancer'', ''dit'', ''opper'', ''relace'',
      ''openadapter'', ''nanogpt'', ''nararouter'', ''navy'', ''freemodel'', ''freeai'', ''freeinference'',
      ''fenay'', ''empower'', ''fastinfra'', ''wafer'', ''gmiserving'', ''cerebrium'', ''dashscopecn'']"

definition IsStandardProvider :: "string \<Rightarrow> bool" where
  "IsStandardProvider p \<longleftrightarrow> p \<in> set StandardProviders"

definition IsStreamRequestType :: "request_type \<Rightarrow> bool" where
  "IsStreamRequestType t \<longleftrightarrow> t \<in> set
     [''text_completion_stream'', ''chat_completion_stream'', ''responses_stream'', ''speech_stream'',
      ''transcription_stream'', ''image_generation_stream'', ''image_edit_stream'', ''passthrough_stream'',
      ''websocket_responses'', ''realtime'']"

record custom_provider =
  cu_BaseProviderType :: string
  cu_IsKeyLess :: bool

record worker_config =
  wf_Custom :: "custom_provider option"
  wf_SendBackRawRequest :: bool
  wf_SendBackRawResponse :: bool
  wf_StoreRawRequestResponse :: bool
  wf_MaxRetries :: int
  wf_RetryBackoffInitial :: int
  wf_RetryBackoffMax :: int

definition base_provider :: "string \<Rightarrow> worker_config \<Rightarrow> string" where
  "base_provider provider cfg =
     (case wf_Custom cfg of
        Some cu \<Rightarrow> if cu_BaseProviderType cu \<noteq> [] then cu_BaseProviderType cu else provider
      | None \<Rightarrow> provider)"

definition providerRequiresKey :: "custom_provider option \<Rightarrow> bool" where
  "providerRequiresKey x =
     (case x of
        Some cu \<Rightarrow> \<not> (cu_IsKeyLess cu \<and> cu_BaseProviderType cu \<noteq> ''bedrock'')
      | None \<Rightarrow> True)"

subsection \<open>Raw payloads\<close>

definition KeyIsCustomProvider :: string where "KeyIsCustomProvider = ''unifai-is-custom-provider''"
definition KeyIntegrationType :: string where "KeyIntegrationType = ''unifai-integration-type''"
definition KeyUseRawRequestBody :: string where "KeyUseRawRequestBody = ''unifai-use-raw-request-body''"
definition KeySendBackRawRequest :: string where "KeySendBackRawRequest = ''unifai-send-back-raw-request''"
definition KeySendBackRawResponse :: string where "KeySendBackRawResponse = ''unifai-send-back-raw-response''"
definition KeyStoreRawRequestResponse :: string where
  "KeyStoreRawRequestResponse = ''unifai-store-raw-request-response''"
definition KeyCaptureRawRequest :: string where "KeyCaptureRawRequest = ''unifai-capture-raw-request''"
definition KeyCaptureRawResponse :: string where "KeyCaptureRawResponse = ''unifai-capture-raw-response''"
definition KeyShouldStoreRawInLogs :: string where "KeyShouldStoreRawInLogs = ''unifai-should-store-raw-in-logs''"
definition KeyAllowPerRequestRawOverride :: string where
  "KeyAllowPerRequestRawOverride = ''unifai-allow-per-request-raw-override''"
definition KeyAllowPerRequestStorageOverride :: string where
  "KeyAllowPerRequestStorageOverride = ''unifai-allow-per-request-storage-override''"
definition KeyPassthroughOverridesPresent :: string where
  "KeyPassthroughOverridesPresent = ''passthrough_overrides_present''"

lemmas raw_keys = KeyIsCustomProvider_def KeyIntegrationType_def KeyUseRawRequestBody_def KeySendBackRawRequest_def
  KeySendBackRawResponse_def KeyStoreRawRequestResponse_def KeyCaptureRawRequest_def KeyCaptureRawResponse_def
  KeyShouldStoreRawInLogs_def KeyAllowPerRequestRawOverride_def KeyAllowPerRequestStorageOverride_def
  KeyPassthroughOverridesPresent_def KeyDropRawRequestFromClient_def KeyDropRawResponseFromClient_def

definition clearAnthropicPassthroughForNonNativeProvider :: "string \<Rightarrow> uctx \<Rightarrow> uctx" where
  "clearAnthropicPassthroughForNonNativeProvider base c =
     (if uc_Value c KeyIntegrationType \<noteq> CStr ''anthropic'' then c
      else if base \<in> set [''anthropic'', ''vertex'', ''azure'', ''bedrock_mantle''] then c
      else uc_SetValue KeyPassthroughOverridesPresent (CBool False)
             (uc_SetValue KeySendBackRawResponse (CBool False)
               (uc_SetValue KeyUseRawRequestBody (CBool False) c)))"

text \<open>The setting of the provider, or the one of the request where it may override.\<close>

definition overridden :: "bool \<Rightarrow> uctx \<Rightarrow> string \<Rightarrow> bool \<Rightarrow> bool" where
  "overridden allowed c k setting = (if allowed then (case uc_Value c k of CBool b \<Rightarrow> b | _ \<Rightarrow> setting) else setting)"

definition raw_override_allowed :: "uctx \<Rightarrow> bool" where
  "raw_override_allowed c \<longleftrightarrow> uc_bool c KeyAllowPerRequestRawOverride \<or> uc_bool c KeyPassthroughOverridesPresent"

definition effectiveSendBackReq :: "worker_config \<Rightarrow> uctx \<Rightarrow> bool" where
  "effectiveSendBackReq cfg c = overridden (raw_override_allowed c) c KeySendBackRawRequest (wf_SendBackRawRequest cfg)"

definition effectiveSendBackResp :: "worker_config \<Rightarrow> uctx \<Rightarrow> bool" where
  "effectiveSendBackResp cfg c = overridden (raw_override_allowed c) c KeySendBackRawResponse (wf_SendBackRawResponse cfg)"

definition effectiveStore :: "worker_config \<Rightarrow> uctx \<Rightarrow> bool" where
  "effectiveStore cfg c =
     overridden (uc_bool c KeyAllowPerRequestStorageOverride) c KeyStoreRawRequestResponse (wf_StoreRawRequestResponse cfg)"

definition write_raw_signals :: "worker_config \<Rightarrow> uctx \<Rightarrow> uctx" where
  "write_raw_signals cfg c =
     (let req = effectiveSendBackReq cfg c; resp = effectiveSendBackResp cfg c; st = effectiveStore cfg c
      in uc_SetValue KeyShouldStoreRawInLogs (CBool st)
           (uc_SetValue KeyDropRawResponseFromClient (CBool (st \<and> \<not> resp))
             (uc_SetValue KeyDropRawRequestFromClient (CBool (st \<and> \<not> req))
               (uc_SetValue KeyCaptureRawResponse (CBool (resp \<or> st))
                 (uc_SetValue KeyCaptureRawRequest (CBool (req \<or> st)) c)))))"

definition prepare_ctx :: "string \<Rightarrow> worker_config \<Rightarrow> uctx \<Rightarrow> uctx" where
  "prepare_ctx provider cfg c =
     (let base = base_provider provider cfg
      in clearAnthropicPassthroughForNonNativeProvider base
           (uc_SetValue KeyIsCustomProvider (CBool (\<not> IsStandardProvider base)) c))"

subsection \<open>The plan of the keys\<close>

text \<open>Identifiers in messages hold no character that Go's \<^verbatim>\<open>%q\<close> would escape.\<close>

definition double_quoted :: "string \<Rightarrow> string" where
  "double_quoted s = CHR 0x22 # s @ [CHR 0x22]"

fun key_error_text :: "string \<Rightarrow> string \<Rightarrow> key_error \<Rightarrow> string" where
  "key_error_text p m (AccountError e) = e"
| "key_error_text p m (NoKeysForProvider p') = ''no keys found for provider: '' @ p'"
| "key_error_text p m (NoKeysForModel p' m') = ''no keys found for provider: '' @ p' @ '' and model: '' @ m'"
| "key_error_text p m (NoValidKeys p') = ''no valid keys found for provider: '' @ p'"
| "key_error_text p m (NoBatchKeys p') =
     ''no config found for batch apis; enable '' @ quoted ''Use for Batch APIs'' @ '' on at least one key for provider: '' @ p'"
| "key_error_text p m (NoBatchKeysForModel p' m') =
     ''no batch-enabled keys found for provider: '' @ p' @ '' and model: '' @ m'"
| "key_error_text p m (NoKeySupports m') = ''no keys found that support model: '' @ m'"
| "key_error_text p m (NoKeyWithID i) =
     ''no supported key found with id '' @ double_quoted i @ '' for provider: '' @ p @ '' and model: '' @ m"
| "key_error_text p m (NoKeyWithName n) =
     ''no supported key found with name '' @ double_quoted n @ '' for provider: '' @ p @ '' and model: '' @ m"
| "key_error_text p m (SelectorError e) = e"

definition is_multi_batch :: "request_type \<Rightarrow> bool" where
  "is_multi_batch t \<longleftrightarrow> isBatchRequestType t \<and> t \<noteq> ''batch_create''"

definition is_multi_key :: "request_type \<Rightarrow> bool" where
  "is_multi_key t \<longleftrightarrow>
     is_multi_batch t \<or> isFileRequestType t \<and> t \<noteq> ''file_upload'' \<or>
     isContainerRequestType t \<and> t \<noteq> ''container_create'' \<and> t \<noteq> ''container_file_create'' \<or>
     isCachedContentRequestType t \<and> t \<noteq> ''cached_content_create''"

text \<open>The values of the context that the selection of keys reads, with those of the parent.\<close>

definition selection_view :: "uctx \<Rightarrow> gov_ctx" where
  "selection_view c =
     map (\<lambda>k. (k, uc_Value c k))
       [KeySkipKeySelection, KeyAPIKeyID, KeyAPIKeyName, KeySessionID, KeySessionTTL, KeyFallbackIndex]"

text \<open>Keys for the operations that take a list of them, and the source of the key of every attempt.\<close>

record key_plan =
  kp_keys :: "api_key list"
  kp_source :: key_source

record ('w, 'r, 'a) worker =
  wk_provider :: string
  wk_config :: worker_config
  wk_selection :: "('w, 'a) selection_env"
  wk_now :: int
  wk_others :: "'w \<Rightarrow> 'w"
  wk_listKeyID :: "string option"
  wk_filter :: "(nat \<Rightarrow> bool \<Rightarrow> api_key list \<Rightarrow> string + api_key list) option"
  wk_selector :: "nat \<Rightarrow> api_key list \<Rightarrow> string + api_key"
  wk_rand :: "nat \<Rightarrow> float64"
  wk_call :: "nat \<Rightarrow> uctx \<Rightarrow> (string \<times> alias_config) option \<Rightarrow> llm_request \<Rightarrow> api_key \<Rightarrow> api_key list \<Rightarrow>
    core_error + 'r core_response"
  wk_plugins :: "('w, 'r) llm_plugin list"
  wk_took :: "string \<Rightarrow> int"
  wk_gone :: "ctx_err option"
  wk_sends :: bool

definition wk_base :: "('w, 'r, 'a) worker \<Rightarrow> string" where
  "wk_base wk = base_provider (wk_provider wk) (wk_config wk)"

definition list_plan :: "('w, 'r, 'a) worker \<Rightarrow> string \<Rightarrow> core_error + key_plan" where
  "list_plan wk model =
     (case getAllSupportedKeys (se_direct (wk_selection wk)) (se_account (wk_selection wk)) (wk_provider wk) (wk_base wk) of
        Inl e \<Rightarrow> Inl (newUnifAIError (key_error_text (wk_provider wk) model e))
      | Inr keys \<Rightarrow>
          (case wk_listKeyID wk of
             None \<Rightarrow> Inr \<lparr>kp_keys = keys, kp_source = NoKeySource\<rparr>
           | Some target \<Rightarrow>
               let ks = filterKeysByID keys target
               in if ks = []
                  then Inl (newUnifAIErrorFromMsg
                    (''no key found with id '' @ double_quoted target @ '' for provider '' @ wk_provider wk))
                  else Inr \<lparr>kp_keys = ks, kp_source = NoKeySource\<rparr>))"

definition multi_plan :: "('w, 'r, 'a) worker \<Rightarrow> request_type \<Rightarrow> string \<Rightarrow> core_error + key_plan" where
  "multi_plan wk t model =
     (case getKeysForBatchAndFileOps (se_direct (wk_selection wk)) (se_account (wk_selection wk)) (wk_provider wk)
             (wk_base wk) (if model \<noteq> [] then Some model else None) (is_multi_batch t) of
        Inl e \<Rightarrow> Inl (newUnifAIError (key_error_text (wk_provider wk) model e))
      | Inr keys \<Rightarrow> Inr \<lparr>kp_keys = keys, kp_source = NoKeySource\<rparr>)"

definition pool_plan ::
  "('w, 'r, 'a) worker \<Rightarrow> uctx \<Rightarrow> request_type \<Rightarrow> string \<Rightarrow> 'w \<Rightarrow> 'w \<times> (core_error + key_plan)" where
  "pool_plan wk c t model w =
     (case selectKeyFromProviderForModelWithPool (wk_selection wk) (wk_now wk) (wk_others wk) (selection_view c) t
             (wk_provider wk) model (wk_base wk) w of
        (w', Inl e) \<Rightarrow> (w', Inl (newUnifAIError (key_error_text (wk_provider wk) model e)))
      | (w', Inr (pool, rot)) \<Rightarrow> (w', Inr \<lparr>kp_keys = [], kp_source = source_of_pool pool rot\<rparr>))"

definition plan_keys ::
  "('w, 'r, 'a) worker \<Rightarrow> uctx \<Rightarrow> request_type \<Rightarrow> string \<Rightarrow> 'w \<Rightarrow> 'w \<times> (core_error + key_plan)" where
  "plan_keys wk c t model w =
     (if \<not> providerRequiresKey (wf_Custom (wk_config wk)) then (w, Inr \<lparr>kp_keys = [], kp_source = NoKeySource\<rparr>)
      else if t = ListModelsRequest then (w, list_plan wk model)
      else if is_multi_key t then (w, multi_plan wk t model)
      else pool_plan wk c t model w)"

subsection \<open>The attempts\<close>

definition ResolveConfig :: "alias_config smap \<Rightarrow> string \<Rightarrow> alias_config option" where
  "ResolveConfig aliases model =
     (case sm_load aliases model of
        Some a \<Rightarrow> Some a
      | None \<Rightarrow> map_option snd (find (\<lambda>(n, a). equal_fold n model) aliases))"

definition attempt_alias :: "string \<Rightarrow> api_key \<Rightarrow> (string \<times> alias_config) option" where
  "attempt_alias model k = map_option (\<lambda>a. (model, a)) (ResolveConfig (ky_Aliases k) model)"

definition resolved_model :: "string \<Rightarrow> api_key \<Rightarrow> string" where
  "resolved_model model k = (case attempt_alias model k of Some (_, a) \<Rightarrow> ac_ModelID a | None \<Rightarrow> model)"

definition BuildRoutingInfo ::
  "(string \<times> alias_config) option \<Rightarrow> string \<Rightarrow> string \<Rightarrow> api_key \<Rightarrow> core_routing_info" where
  "BuildRoutingInfo alias provider model k =
     no_routing\<lparr>rg_Provider := provider, rg_Model := model, rg_Key := ak_Name k,
       rg_ResolvedKeyAlias := (case alias of
          Some (_, a) \<Rightarrow> Some \<lparr>ra_ModelID = ac_ModelID a, ra_ModelName = ac_ModelName a\<rparr>
        | None \<Rightarrow> None)\<rparr>"

definition attempt_handler ::
  "('w, 'r, 'a) worker \<Rightarrow> uctx \<Rightarrow> llm_request \<Rightarrow> string \<Rightarrow> api_key list \<Rightarrow> nat \<Rightarrow> api_key \<Rightarrow>
   core_error + 'r core_response outcome" where
  "attempt_handler wk c req model keys a k =
     (case wk_call wk a c (attempt_alias model k) (SetModel (resolved_model model k) req) k keys of
        Inl e \<Rightarrow> Inl e
      | Inr r \<Rightarrow> Inr (Plain r))"

definition worker_retries ::
  "('w, 'r, 'a) worker \<Rightarrow> uctx \<Rightarrow> llm_request \<Rightarrow> string \<Rightarrow> key_plan \<Rightarrow> 'r core_response retry_env" where
  "worker_retries wk c req model plan =
     \<lparr>re_MaxRetries = wf_MaxRetries (wk_config wk), re_RetryBackoffInitial = wf_RetryBackoffInitial (wk_config wk),
      re_RetryBackoffMax = wf_RetryBackoffMax (wk_config wk), re_provider = wk_provider wk,
      re_source = kp_source plan, re_filter = wk_filter wk, re_selector = wk_selector wk, re_rand = wk_rand wk,
      re_hasTracer = (uc_Value c KeyTracer \<noteq> CNil),
      re_handler = attempt_handler wk c req model (kp_keys plan)\<rparr>"

definition KeySelectedKeyID :: string where "KeySelectedKeyID = ''unifai-selected-key-id''"
definition KeySelectedKeyName :: string where "KeySelectedKeyName = ''unifai-selected-key-name''"
definition KeyNumberOfRetries :: string where "KeyNumberOfRetries = ''unifai-number-of-retries''"

text \<open>What the loop leaves in the context: the number of the last attempt, and the key where one was chosen.\<close>

definition note_retries :: "'r retry_env \<Rightarrow> retry_state \<Rightarrow> uctx \<Rightarrow> uctx" where
  "note_retries env st c =
     (if re_MaxRetries env < 0 then c
      else
        let c1 = uc_SetValue KeyNumberOfRetries (CInt (int (ry_retries st))) c
        in if keyed env
           then uc_SetValue KeySelectedKeyName (CStr (snd (ry_selected st)))
                  (uc_SetValue KeySelectedKeyID (CStr (fst (ry_selected st))) c1)
           else c1)"

text \<open>The model and the routing record of the last attempt, if there was one.\<close>

definition last_resolved :: "string \<Rightarrow> api_key list \<Rightarrow> string" where
  "last_resolved model calls = (if calls = [] then '''' else resolved_model model (last calls))"

definition last_routing :: "string \<Rightarrow> string \<Rightarrow> api_key list \<Rightarrow> core_routing_info" where
  "last_routing provider model calls =
     (if calls = [] then no_routing\<lparr>rg_Provider := provider, rg_Model := model\<rparr>
      else BuildRoutingInfo (attempt_alias model (last calls)) provider model (last calls))"

definition stamp_extra :: "string \<Rightarrow> string \<Rightarrow> string \<Rightarrow> api_key list \<Rightarrow> extra \<Rightarrow> extra" where
  "stamp_extra t provider model calls x =
     PopulateRoutingInfo (last_routing provider model calls)
       (PopulateExtraFields t provider model (last_resolved model calls) x)"

subsection \<open>The worker on one message\<close>

text \<open>
  \<open>wr_Sent\<close> says whether the answer goes through the select that knows of callers that left; the
  errors of the key plan are sent without it.
\<close>

record ('w, 'r) worker_end =
  wr_Ctx :: uctx
  wr_World :: 'w
  wr_Request :: llm_request
  wr_Calls :: "api_key list"
  wr_Keys :: "api_key list"
  wr_Selected :: bool
  wr_Answer :: "core_error + 'r core_response option"

definition plan_error :: "string \<Rightarrow> string \<Rightarrow> string \<Rightarrow> core_error \<Rightarrow> core_error" where
  "plan_error t provider model e =
     e\<lparr>er_ExtraFields := no_extra\<lparr>xt_Provider := provider, xt_RequestType := t,
        xt_OriginalModelRequested := model, xt_ResolvedModelUsed := model\<rparr>\<rparr>"

text \<open>No response body is held where the loop made no attempt at all.\<close>

definition plain_answer :: "'r outcome option \<Rightarrow> 'r option" where
  "plain_answer x = (case x of Some (Plain r) \<Rightarrow> Some r | _ \<Rightarrow> None)"

definition worker_run :: "('w, 'r, 'a) worker \<Rightarrow> uctx \<Rightarrow> 'w \<Rightarrow> llm_request \<Rightarrow> ('w, 'r) worker_end" where
  "worker_run wk c w req =
     (let t = rq_RequestType req;
          model = fst (snd (GetRequestFields req));
          c1 = write_raw_signals (wk_config wk) (prepare_ctx (wk_provider wk) (wk_config wk) c)
      in case plan_keys wk c1 t model w of
           (w', Inl e) \<Rightarrow>
             \<lparr>wr_Ctx = c1, wr_World = w', wr_Request = req, wr_Calls = [], wr_Keys = [], wr_Selected = False,
              wr_Answer = Inl (plan_error t (wk_provider wk) model e)\<rparr>
         | (w', Inr plan) \<Rightarrow>
             (let env = worker_retries wk c1 req model plan
              in case executeRequestWithRetries env [] ('''', '''') of
                   (st, r) \<Rightarrow>
                     (let calls = ry_calls st; stamp = stamp_extra t (wk_provider wk) model calls
                      in \<lparr>wr_Ctx = note_retries env st c1, wr_World = w',
                          wr_Request = fold (\<lambda>k. SetModel (resolved_model model k)) calls req,
                          wr_Calls = calls, wr_Keys = kp_keys plan, wr_Selected = True,
                          wr_Answer = (case r of
                             Inl e \<Rightarrow> Inl (e\<lparr>er_ExtraFields := stamp (er_ExtraFields e)\<rparr>)
                           | Inr x \<Rightarrow> Inr (map_option (\<lambda>y. y\<lparr>cr_Extra := stamp (cr_Extra y)\<rparr>) (plain_answer x)))\<rparr>)))"

definition billAbandonedTerminal ::
  "('w, 'r, 'a) worker \<Rightarrow> request_type \<Rightarrow> core_error + 'r core_response option \<Rightarrow> uctx \<Rightarrow> 'w \<Rightarrow> uctx \<times> 'w" where
  "billAbandonedTerminal wk t answer c w =
     (if IsStreamRequestType t then (c, w)
      else
        let p = getPluginPipeline (wk_plugins wk) [] (new_pipeline :: (('w, 'r) llm_plugin, unit) pipeline);
            run = (\<lambda>resp err. case RunPostLLMHooks (wk_took wk) p c w resp err (int (length (wk_plugins wk))) of
                     (_, c', w', _, _) \<Rightarrow> (c', w'))
        in case answer of
             Inl e \<Rightarrow> run None (Some e)
           | Inr (Some r) \<Rightarrow> run (Some r) None
           | Inr None \<Rightarrow> (c, w))"

text \<open>
  The channels hold one value, so a send never waits; when the caller left (\<open>wk_gone\<close>) the select
  has two ready cases, and \<open>wk_sends\<close> says which it takes. An answer that was sent then is received
  by nobody.
\<close>

definition requestWorker ::
  "('w, 'r, 'a) worker \<Rightarrow> uctx \<Rightarrow> 'w \<Rightarrow> llm_request \<Rightarrow> uctx \<times> 'w \<times> llm_request \<times> 'r reply" where
  "requestWorker wk c w req =
     (let e = worker_run wk c w req
      in case wk_gone wk of
           None \<Rightarrow>
             (wr_Ctx e, wr_World e, wr_Request e, case wr_Answer e of Inl x \<Rightarrow> Failure x | Inr r \<Rightarrow> Response r)
         | Some why \<Rightarrow>
             (case if wr_Selected e \<and> \<not> wk_sends wk
                   then billAbandonedTerminal wk (rq_RequestType req) (wr_Answer e) (wr_Ctx e) (wr_World e)
                   else (wr_Ctx e, wr_World e) of
                (c', w') \<Rightarrow> (c', w', wr_Request e, CtxEnded why)))"

subsection \<open>The keys of the calls\<close>

lemma SetValue_free:
  "k \<notin> set reservedKeys \<Longrightarrow> uc_Value (uc_SetValue k v c) k' = (if k' = k then v else uc_Value c k')"
  by (simp add: uc_SetValue_def write_dropped_def hook_rules)

lemma raw_keys_free [simp]:
  "KeyIsCustomProvider \<notin> set reservedKeys" "KeyUseRawRequestBody \<notin> set reservedKeys"
  "KeySendBackRawResponse \<notin> set reservedKeys" "KeyPassthroughOverridesPresent \<notin> set reservedKeys"
  "KeyShouldStoreRawInLogs \<notin> set reservedKeys" "KeyDropRawRequestFromClient \<notin> set reservedKeys"
  "KeyDropRawResponseFromClient \<notin> set reservedKeys" "KeyCaptureRawRequest \<notin> set reservedKeys"
  "KeyCaptureRawResponse \<notin> set reservedKeys"
  by code_simp+

text \<open>The selector of the environment, on a list that is not empty, and the sources of the loop are honest.\<close>

definition honest_worker :: "('w, 'r, 'a) worker \<Rightarrow> bool" where
  "honest_worker wk \<longleftrightarrow>
     (\<forall>ks k. se_selector (wk_selection wk) ks = Inr k \<longrightarrow> k \<in> set ks) \<and>
     (\<forall>a ks k. ks \<noteq> [] \<longrightarrow> wk_selector wk a ks = Inr k \<longrightarrow> k \<in> set ks) \<and>
     (\<forall>f a b ks ks'. wk_filter wk = Some f \<longrightarrow> f a b ks = Inr ks' \<longrightarrow> set ks' \<subseteq> set ks)"

lemma honest_retries: "honest_worker wk \<Longrightarrow> honest (worker_retries wk c req model plan)"
  by (simp add: honest_worker_def honest_def worker_retries_def)

lemma worker_calls:
  assumes "honest_worker wk" "k \<in> set (wr_Calls (worker_run wk c w req))"
  obtains w' plan where
    "plan_keys wk (write_raw_signals (wk_config wk) (prepare_ctx (wk_provider wk) (wk_config wk) c)) (rq_RequestType req)
       (fst (snd (GetRequestFields req))) w = (w', Inr plan)" "k \<in> source_keys (kp_source plan)"
proof -
  let ?c = "write_raw_signals (wk_config wk) (prepare_ctx (wk_provider wk) (wk_config wk) c)"
  let ?m = "fst (snd (GetRequestFields req))"
  obtain w' x where p: "plan_keys wk ?c (rq_RequestType req) ?m w = (w', x)" by fastforce
  with assms(2) obtain plan where x: "x = Inr plan"
    by (cases x) (simp_all add: worker_run_def Let_def)
  have "k \<in> set (ry_calls (fst (executeRequestWithRetries (worker_retries wk ?c req ?m plan) [] ('''', ''''))))"
    using assms(2) p x by (simp add: worker_run_def Let_def split: prod.splits)
  moreover have "set (ry_calls (fst (executeRequestWithRetries (worker_retries wk ?c req ?m plan) [] ('''', '''')))) \<subseteq>
      source_keys (kp_source plan)"
    using calls_from_source [OF honest_retries [OF assms(1)], of ?c req ?m plan "[]" "('''', '''')"]
    by (simp add: worker_retries_def)
  ultimately show thesis using that p x by blast
qed

lemma pool_source: "k \<in> source_keys (source_of_pool pool rot) \<Longrightarrow> k \<in> set pool \<or> pool = [] \<and> k = zero_key"
  by (cases pool) (auto simp: source_of_pool_def source_keys_def split: if_splits)

lemma empty_pool:
  assumes "snd (selectKeyFromProviderForModelWithPool env now others ctx t provider model base s) = Inr ([], rot)"
  shows "GetBoolFromContext ctx KeySkipKeySelection \<and> isKeySkippingAllowed provider"
proof -
  have "supported \<noteq> []" if "eligible_keys env t provider model base = Inr supported" for supported
    using that by (auto simp: eligible_keys_def Let_def split: sum.splits if_splits)
  then show ?thesis
    using assms by (fastforce simp: selectKeyFromProviderForModelWithPool_def Let_def
        split: if_splits sum.splits option.splits prod.splits)
qed

lemma prepared_flag:
  "uc_Value (write_raw_signals cfg (prepare_ctx p cfg c)) KeySkipKeySelection = uc_Value c KeySkipKeySelection"
proof -
  have "KeySkipKeySelection \<notin> {KeyIsCustomProvider, KeyUseRawRequestBody, KeySendBackRawResponse,
      KeyPassthroughOverridesPresent, KeyShouldStoreRawInLogs, KeyDropRawRequestFromClient, KeyDropRawResponseFromClient,
      KeyCaptureRawRequest, KeyCaptureRawResponse}"
    by code_simp
  then show ?thesis
    by (simp add: write_raw_signals_def prepare_ctx_def clearAnthropicPassthroughForNonNativeProvider_def Let_def SetValue_free)
qed

lemma view_flag: "GetBoolFromContext (selection_view c) KeySkipKeySelection \<longleftrightarrow> uc_bool c KeySkipKeySelection"
  by (simp add: GetBoolFromContext_def CtxValue_def selection_view_def sm_load_def uc_bool_def split: ctx_value.splits)

definition sound_key :: "string \<Rightarrow> api_key list \<Rightarrow> api_key \<Rightarrow> bool" where
  "sound_key base keys k \<longleftrightarrow>
     (\<exists>k0\<in>set keys. \<not> key_disabled k0 \<and> validateKey base k0 = Inr k) \<and> has_key_value base k"

text \<open>
  A request may bring a key of its own, which goes before those of the account and is not checked
  against them.
\<close>

definition own_or :: "('w, 'r, 'a) worker \<Rightarrow> (api_key list \<Rightarrow> api_key \<Rightarrow> bool) \<Rightarrow> api_key \<Rightarrow> bool" where
  "own_or wk fit k \<longleftrightarrow>
     (case se_direct (wk_selection wk) of
        Some d \<Rightarrow> k = d
      | None \<Rightarrow> (case se_account (wk_selection wk) (wk_provider wk) of Inr keys \<Rightarrow> fit keys k | Inl _ \<Rightarrow> False))"

lemma listed_keys_sound:
  assumes "plan_keys wk c t model w = (w', Inr plan)" "k \<in> set (kp_keys plan)"
  shows "own_or wk (sound_key (wk_base wk)) k"
  using assms
  by (auto simp: own_or_def plan_keys_def list_plan_def multi_plan_def pool_plan_def getAllSupportedKeys_def
      getKeysForBatchAndFileOps_def filterKeysByID_def sound_key_def filter_keys_mem Let_def
      split: if_splits sum.splits option.splits prod.splits)

lemma planned_source:
  assumes plan: "plan_keys wk c t model w = (w', Inr plan)" and hon: "honest_worker wk"
    and k: "k \<in> source_keys (kp_source plan)"
  shows "own_or wk (serving_key (wk_base wk) t model) k \<or>
    k = zero_key \<and>
      (\<not> providerRequiresKey (wf_Custom (wk_config wk)) \<or> t = ListModelsRequest \<or> is_multi_key t \<or>
       uc_bool c KeySkipKeySelection \<and> isKeySkippingAllowed (wk_provider wk))"
proof (cases "\<not> providerRequiresKey (wf_Custom (wk_config wk)) \<or> t = ListModelsRequest \<or> is_multi_key t")
  case True
  with plan have "kp_source plan = NoKeySource"
    by (auto simp: plan_keys_def list_plan_def multi_plan_def Let_def split: if_splits sum.splits option.splits)
  with k True show ?thesis by (auto simp: source_keys_def)
next
  case False
  let ?sel = "selectKeyFromProviderForModelWithPool (wk_selection wk) (wk_now wk) (wk_others wk) (selection_view c) t
    (wk_provider wk) model (wk_base wk) w"
  obtain pool rot where res: "snd ?sel = Inr (pool, rot)" "kp_source plan = source_of_pool pool rot"
    using plan False by (auto simp: plan_keys_def pool_plan_def split: prod.splits sum.splits)
  have sel: "se_selector (wk_selection wk) ks = Inr k' \<Longrightarrow> k' \<in> set ks" for ks k'
    using hon by (simp add: honest_worker_def)
  have skip: "uc_bool c KeySkipKeySelection \<and> isKeySkippingAllowed (wk_provider wk)" if "pool = []"
    using empty_pool [OF res(1) [unfolded that]] by (simp add: view_flag)
  show ?thesis
  proof (cases "se_direct (wk_selection wk)")
    case None
    have "own_or wk (serving_key (wk_base wk) t model) k" if "k \<in> set pool"
    proof -
      note usable = pool_keys_usable [OF None sel res(1) \<open>k \<in> set pool\<close>]
      obtain keys where "se_account (wk_selection wk) (wk_provider wk) = Inr keys" "serving_key (wk_base wk) t model keys k"
        using usable unfolding serving_key_def by blast
      then show ?thesis by (simp add: own_or_def None)
    qed
    then show ?thesis using pool_source [of k pool rot] skip k res(2) by auto
  next
    case (Some d)
    then have "pool = [d]" using res(1) by (simp add: selectKeyFromProviderForModelWithPool_def)
    then show ?thesis using pool_source [of k pool rot] k res(2) by (simp add: own_or_def Some)
  qed
qed

text \<open>
  C17. Every call of the worker is made with the raw key that the request itself brings, or, when it
  brings none, with a key of the account that is enabled, valid, has a value and serves the requested
  model; or it is made with the empty key, for a provider without keys, an operation on a list of
  keys, or a request that skips the selection where its provider allows that. The keys of such a list
  are the request's own, or keys of the account that are enabled, valid and have a value. This covers
  pinned keys, keys kept for a session and every retry; the selector and the filter of keys
  answer with keys of the list they are given.
\<close>

theorem calls_use_serving_keys:
  assumes hon: "honest_worker wk" and k: "k \<in> set (wr_Calls (worker_run wk c w req))"
  shows "(own_or wk (serving_key (wk_base wk) (rq_RequestType req) (fst (snd (GetRequestFields req)))) k \<or>
      k = zero_key \<and>
        (\<not> providerRequiresKey (wf_Custom (wk_config wk)) \<or> rq_RequestType req = ListModelsRequest \<or>
         is_multi_key (rq_RequestType req) \<or> uc_bool c KeySkipKeySelection \<and> isKeySkippingAllowed (wk_provider wk))) \<and>
    (\<forall>k'\<in>set (wr_Keys (worker_run wk c w req)). own_or wk (sound_key (wk_base wk)) k')"
proof -
  define c1 where "c1 = write_raw_signals (wk_config wk) (prepare_ctx (wk_provider wk) (wk_config wk) c)"
  obtain w' plan where plan: "plan_keys wk c1 (rq_RequestType req) (fst (snd (GetRequestFields req))) w = (w', Inr plan)"
    and src: "k \<in> source_keys (kp_source plan)"
    using worker_calls [OF hon k] unfolding c1_def by blast
  have "uc_bool c1 KeySkipKeySelection = uc_bool c KeySkipKeySelection"
    by (simp add: uc_bool_def c1_def prepared_flag)
  moreover have "wr_Keys (worker_run wk c w req) = kp_keys plan"
    using plan by (simp add: worker_run_def c1_def [symmetric] Let_def split: prod.splits)
  ultimately show ?thesis
    using planned_source [OF plan hon src] listed_keys_sound [OF plan] by simp
qed

subsection \<open>Raw payloads stay in\<close>

text \<open>A provider hands over the raw payloads that the flags of the context ask for, and no other.\<close>

definition raw_free :: "bool \<Rightarrow> bool \<Rightarrow> extra \<Rightarrow> bool" where
  "raw_free req resp x \<longleftrightarrow> (req \<longrightarrow> xt_RawRequest x = None) \<and> (resp \<longrightarrow> xt_RawResponse x = None)"

definition honours_capture :: "('w, 'r, 'a) worker \<Rightarrow> bool" where
  "honours_capture wk \<longleftrightarrow>
     (\<forall>a c alias req k keys.
        raw_free (uc_Value c KeyCaptureRawRequest = CBool False) (uc_Value c KeyCaptureRawResponse = CBool False)
          (case wk_call wk a c alias req k keys of Inl e \<Rightarrow> er_ExtraFields e | Inr r \<Rightarrow> cr_Extra r))"

definition answer_extra :: "core_error + 'r core_response option \<Rightarrow> extra" where
  "answer_extra x = (case x of Inl e \<Rightarrow> er_ExtraFields e | Inr (Some r) \<Rightarrow> cr_Extra r | Inr None \<Rightarrow> no_extra)"

lemma stamped_raw [simp]:
  "xt_RawRequest (stamp_extra t p m calls x) = xt_RawRequest x"
  "xt_RawResponse (stamp_extra t p m calls x) = xt_RawResponse x"
  by (simp_all add: stamp_extra_def PopulateRoutingInfo_def syncDeprecatedFromRoutingInfo_def PopulateExtraFields_def)

lemma raw_free_no_extra [simp]: "raw_free a b no_extra"
  by (simp add: raw_free_def no_extra_def)

lemma own_errors_extra [simp]:
  "er_ExtraFields (key_failure_error x) = no_extra" "er_ExtraFields (newUnifAIErrorFromMsg m) = no_extra"
  by (cases x) (simp_all add: key_failure_error_def typed_error_def newUnifAIErrorFromMsg_def)

lemma raw_flags:
  "uc_Value (write_raw_signals cfg c) KeyCaptureRawRequest = CBool (effectiveSendBackReq cfg c \<or> effectiveStore cfg c)"
  "uc_Value (write_raw_signals cfg c) KeyCaptureRawResponse = CBool (effectiveSendBackResp cfg c \<or> effectiveStore cfg c)"
  "uc_Value (write_raw_signals cfg c) KeyDropRawRequestFromClient =
     CBool (effectiveStore cfg c \<and> \<not> effectiveSendBackReq cfg c)"
  "uc_Value (write_raw_signals cfg c) KeyDropRawResponseFromClient =
     CBool (effectiveStore cfg c \<and> \<not> effectiveSendBackResp cfg c)"
  by (simp_all add: write_raw_signals_def Let_def SetValue_free) (simp_all add: raw_keys)

lemma noted_value:
  "k \<notin> {KeyNumberOfRetries, KeySelectedKeyID, KeySelectedKeyName} \<Longrightarrow> uc_Value (note_retries env st c) k = uc_Value c k"
  by (auto simp: note_retries_def Let_def uc_SetValue_def hook_rules)

lemma drop_flags_noted [simp]:
  "uc_Value (note_retries env st c) KeyDropRawRequestFromClient = uc_Value c KeyDropRawRequestFromClient"
  "uc_Value (note_retries env st c) KeyDropRawResponseFromClient = uc_Value c KeyDropRawResponseFromClient"
proof -
  have "KeyDropRawRequestFromClient \<notin> {KeyNumberOfRetries, KeySelectedKeyID, KeySelectedKeyName}"
    "KeyDropRawResponseFromClient \<notin> {KeyNumberOfRetries, KeySelectedKeyID, KeySelectedKeyName}" by code_simp+
  then show "uc_Value (note_retries env st c) KeyDropRawRequestFromClient = uc_Value c KeyDropRawRequestFromClient"
    "uc_Value (note_retries env st c) KeyDropRawResponseFromClient = uc_Value c KeyDropRawResponseFromClient"
    by (simp_all add: noted_value)
qed

text \<open>The outcome of the loop is an outcome of a call, or an error of its own.\<close>

lemma loop_answer_raw:
  assumes hon: "honours_capture wk"
    and run: "executeRequestWithRetries (worker_retries wk c req m plan) trail sel = (st, r)"
  shows "raw_free (uc_Value c KeyCaptureRawRequest = CBool False) (uc_Value c KeyCaptureRawResponse = CBool False)
    (case r of Inl e \<Rightarrow> er_ExtraFields e | Inr x \<Rightarrow> answer_extra (Inr (plain_answer x)))"
proof -
  let ?env = "worker_retries wk c req m plan"
  let ?free = "raw_free (uc_Value c KeyCaptureRawRequest = CBool False) (uc_Value c KeyCaptureRawResponse = CBool False)"
  have call: "?free (case attempt_outcome ?env a k of
      Inl e \<Rightarrow> er_ExtraFields e | Inr x \<Rightarrow> answer_extra (Inr (plain_answer (Some x))))" for a k
    using hon unfolding honours_capture_def
    by (auto simp: attempt_outcome_def worker_retries_def attempt_handler_def answer_extra_def plain_answer_def
        split: sum.splits)
  have rd: "retries_done ?env st r" using retries_done_loop [of ?env trail sel] run by simp
  show ?thesis
  proof (cases r)
    case (Inl e)
    with rd call show ?thesis
      by (auto simp: retries_done_def failed_with_def Let_def) (metis sum.simps(5))+
  next
    case (Inr x)
    show ?thesis
    proof (cases x)
      case None
      then show ?thesis by (simp add: Inr plain_answer_def answer_extra_def)
    next
      case (Some a)
      let ?n = "length (ry_calls st) - 1"
      have "attempt_outcome ?env ?n (ry_calls st ! ?n) = Inr a" using rd by (simp add: retries_done_def Let_def Inr Some)
      with call [of ?n "ry_calls st ! ?n"] show ?thesis by (simp add: Inr Some)
    qed
  qed
qed

lemma worker_answer_raw:
  fixes c :: uctx
  assumes "honours_capture wk"
  defines "c1 \<equiv> write_raw_signals (wk_config wk) (prepare_ctx (wk_provider wk) (wk_config wk) c)"
  shows "raw_free (uc_Value c1 KeyCaptureRawRequest = CBool False) (uc_Value c1 KeyCaptureRawResponse = CBool False)
    (answer_extra (wr_Answer (worker_run wk c w req)))"
    "uc_Value (wr_Ctx (worker_run wk c w req)) KeyDropRawRequestFromClient = uc_Value c1 KeyDropRawRequestFromClient"
    "uc_Value (wr_Ctx (worker_run wk c w req)) KeyDropRawResponseFromClient = uc_Value c1 KeyDropRawResponseFromClient"
proof -
  let ?m = "fst (snd (GetRequestFields req))"
  obtain w' x where p: "plan_keys wk c1 (rq_RequestType req) ?m w = (w', x)" by fastforce
  have "raw_free (uc_Value c1 KeyCaptureRawRequest = CBool False) (uc_Value c1 KeyCaptureRawResponse = CBool False)
      (answer_extra (wr_Answer (worker_run wk c w req))) \<and>
    uc_Value (wr_Ctx (worker_run wk c w req)) KeyDropRawRequestFromClient = uc_Value c1 KeyDropRawRequestFromClient \<and>
    uc_Value (wr_Ctx (worker_run wk c w req)) KeyDropRawResponseFromClient = uc_Value c1 KeyDropRawResponseFromClient"
  proof (cases x)
    case (Inl e)
    with p show ?thesis
      by (simp add: worker_run_def c1_def [symmetric] Let_def answer_extra_def plan_error_def raw_free_def no_extra_def)
  next
    case (Inr plan)
    obtain st r where run: "executeRequestWithRetries (worker_retries wk c1 req ?m plan) [] ('''', '''') = (st, r)" by fastforce
    from loop_answer_raw [OF assms(1) run] show ?thesis
      by (cases r) (simp_all add: worker_run_def c1_def [symmetric] p Inr Let_def run answer_extra_def raw_free_def
          split: option.splits)
  qed
  then show "raw_free (uc_Value c1 KeyCaptureRawRequest = CBool False) (uc_Value c1 KeyCaptureRawResponse = CBool False)
      (answer_extra (wr_Answer (worker_run wk c w req)))"
    "uc_Value (wr_Ctx (worker_run wk c w req)) KeyDropRawRequestFromClient = uc_Value c1 KeyDropRawRequestFromClient"
    "uc_Value (wr_Ctx (worker_run wk c w req)) KeyDropRawResponseFromClient = uc_Value c1 KeyDropRawResponseFromClient"
    by blast+
qed

text \<open>What is left of an answer's raw payloads when it reaches the caller.\<close>

definition raw_delivered :: "bool \<Rightarrow> bool \<Rightarrow> extra \<Rightarrow> extra \<Rightarrow> bool" where
  "raw_delivered req resp x y \<longleftrightarrow>
     xt_RawRequest y = (if req then xt_RawRequest x else None) \<and>
     xt_RawResponse y = (if resp then xt_RawResponse x else None)"

text \<open>
  C18. For a request that is not a stream: once the flags that the worker left in the context are applied to
  its answer, the raw request is there as the provider handed it over if it is to be sent back, by the
  setting of the provider or an override that is allowed, and it is gone otherwise, whether or not it is kept
  for the logs; the same holds for the raw response, and for errors as for results. The provider is
  trusted to hand over only what the flags of the context ask it to capture, and what plugins
  do to the flags after the call is not considered.
\<close>

theorem raw_payloads_stay_in:
  assumes "honours_capture wk" "requestWorker wk c w req = (c', w', req', reply)"
    and "c0 = prepare_ctx (wk_provider wk) (wk_config wk) c"
  shows "case reply of
      Response (Some r) \<Rightarrow> raw_delivered (effectiveSendBackReq (wk_config wk) c0) (effectiveSendBackResp (wk_config wk) c0)
        (cr_Extra r) (cr_Extra (strip_response c' r))
    | Failure e \<Rightarrow> raw_delivered (effectiveSendBackReq (wk_config wk) c0) (effectiveSendBackResp (wk_config wk) c0)
        (er_ExtraFields e) (er_ExtraFields (strip_error c' e))
    | _ \<Rightarrow> True"
proof -
  define a where "a = wr_Answer (worker_run wk c w req)"
  have "raw_delivered (effectiveSendBackReq (wk_config wk) c0) (effectiveSendBackResp (wk_config wk) c0)
      (answer_extra a) (strip_raw (wr_Ctx (worker_run wk c w req)) (answer_extra a))"
    using worker_answer_raw [OF assms(1), of c w req] assms(3)
    by (auto simp: raw_delivered_def raw_free_def strip_raw_def uc_bool_def raw_flags a_def)
  then show ?thesis
    using assms(2)
    by (auto simp: requestWorker_def Let_def a_def [symmetric] answer_extra_def strip_response_def strip_error_def
        split: option.splits sum.splits if_splits prod.splits)
qed

subsection \<open>Examples\<close>

text \<open>Two keys, the first revoked and both with an alias for the model; the payloads go to the logs only.\<close>

definition w_alias_key :: "string \<Rightarrow> api_key" where
  "w_alias_key i = zero_key\<lparr>ky_ID := i, ky_Models := [''*''], ak_Name := i, ak_Value := ''v'',
     ky_Aliases := [(''fast'', \<lparr>ac_ModelID = ''wire-model'', ac_ModelName = None\<rparr>)]\<rparr>"

definition w_worker :: "(unit \<times> hook_event list, string, nat) worker" where
  "w_worker =
     \<lparr>wk_provider = ''openai'',
      wk_config = \<lparr>wf_Custom = None, wf_SendBackRawRequest = False, wf_SendBackRawResponse = True,
        wf_StoreRawRequestResponse = True, wf_MaxRetries = 2, wf_RetryBackoffInitial = 500000000,
        wf_RetryBackoffMax = 5000000000\<rparr>,
      wk_selection = \<lparr>se_account = (\<lambda>_. Inr [w_alias_key ''k1'', w_alias_key ''k2'']), se_hash = (\<lambda>s. s),
        se_unjson = (\<lambda>_. None), se_selector = w_sel_safe, se_kv = None, se_direct = None\<rparr>,
      wk_now = 1, wk_others = (\<lambda>w. w), wk_listKeyID = None, wk_filter = None, wk_selector = (\<lambda>_. w_sel_safe),
      wk_rand = (\<lambda>_. 0),
      wk_call = (\<lambda>a c alias req k keys.
        if ky_ID k = ''k1'' then Inl w_unauthorized
        else Inr \<lparr>cr_Extra = no_extra
            \<lparr>xt_RawRequest := (if uc_Value c KeyCaptureRawRequest = CBool False then None else Some ''raw request''),
             xt_RawResponse := (if uc_Value c KeyCaptureRawResponse = CBool False then None else Some ''raw response'')\<rparr>,
          cr_Body = ''answer''\<rparr>),
      wk_plugins = map recorded [w_passive ''a''], wk_took = (\<lambda>_. 0), wk_gone = None, wk_sends = True\<rparr>"

definition w_traced :: uctx where
  "w_traced = \<lparr>uc_values = [(KeyTracer, CBool True)], uc_blocked = False, uc_parent = (\<lambda>_. CNil)\<rparr>"

definition w_fast :: llm_request where "w_fast = chat_request\<lparr>rq_Provider := ''openai'', rq_Model := Some ''fast''\<rparr>"

lemma w_worker_run:
  "wr_Calls (worker_run w_worker w_traced ((), []) w_fast) = [w_alias_key ''k1'', w_alias_key ''k2'']"
  "rq_Model (wr_Request (worker_run w_worker w_traced ((), []) w_fast)) = Some ''wire-model''"
  by code_simp+

lemma w_worker_trusted: "honest_worker w_worker" "honours_capture w_worker" "se_direct (wk_selection w_worker) = None"
  by (auto simp: honest_worker_def honours_capture_def w_worker_def w_sel_safe_def raw_free_def w_unauthorized_def
      newUnifAIErrorFromMsg_def no_extra_def split: list.splits)

theorem calls_use_serving_keys_witness:
  "serving_key ''openai'' ''chat_completion'' ''fast'' [w_alias_key ''k1'', w_alias_key ''k2''] (w_alias_key ''k2'')"
proof -
  have a: "se_account (wk_selection w_worker) ''openai'' = Inr [w_alias_key ''k1'', w_alias_key ''k2'']"
    by (simp add: w_worker_def)
  have f: "wk_provider w_worker = ''openai''" "wk_base w_worker = ''openai''" "rq_RequestType w_fast = ''chat_completion''"
    "fst (snd (GetRequestFields w_fast)) = ''fast''" "w_alias_key ''k2'' \<noteq> zero_key" by code_simp+
  show ?thesis
    using calls_use_serving_keys [OF w_worker_trusted(1), of "w_alias_key ''k2''" w_traced "((), [])" w_fast]
    by (simp add: w_worker_run f own_or_def w_worker_trusted(3) a)
qed

text \<open>With a raw key in the request no key of the account is asked, not even whether one is enabled.\<close>

lemma own_key_goes_first:
  "wr_Calls (worker_run (w_worker\<lparr>wk_selection := (wk_selection w_worker)\<lparr>se_direct := Some (w_alias_key ''own'')\<rparr>\<rparr>)
     w_traced ((), []) w_fast) = [w_alias_key ''own'']"
  by code_simp

theorem raw_payloads_stay_in_witness:
  "case requestWorker w_worker w_traced ((), []) w_fast of
     (c', w', req', Response (Some r)) \<Rightarrow>
       xt_RawRequest (cr_Extra r) = Some ''raw request'' \<and>
       xt_RawRequest (cr_Extra (strip_response c' r)) = None \<and>
       xt_RawResponse (cr_Extra (strip_response c' r)) = Some ''raw response''
   | _ \<Rightarrow> False"
proof -
  have e: "effectiveSendBackReq (wk_config w_worker) (prepare_ctx (wk_provider w_worker) (wk_config w_worker) w_traced) = False"
    "effectiveSendBackResp (wk_config w_worker) (prepare_ctx (wk_provider w_worker) (wk_config w_worker) w_traced) = True"
    by code_simp+
  have p: "case snd (snd (snd (requestWorker w_worker w_traced ((), []) w_fast))) of
      Response (Some r) \<Rightarrow> xt_RawRequest (cr_Extra r) = Some ''raw request'' \<and> xt_RawResponse (cr_Extra r) = Some ''raw response''
    | _ \<Rightarrow> False"
    by code_simp
  obtain c' w' req' reply where r: "requestWorker w_worker w_traced ((), []) w_fast = (c', w', req', reply)"
    by (metis prod_cases4)
  show ?thesis
    using p raw_payloads_stay_in [OF w_worker_trusted(2) r refl]
    by (auto simp: r e raw_delivered_def split: reply.splits option.splits)
qed

text \<open>
  An answer that is sent to a caller who has left is billed by nobody; only the other branch of the
  select runs the hooks after the call.
\<close>

lemma abandoned_answer_unbilled:
  "snd (fst (snd (requestWorker (w_worker\<lparr>wk_gone := Some Canceled, wk_sends := True\<rparr>) w_traced ((), []) w_fast))) = []"
  "snd (fst (snd (requestWorker (w_worker\<lparr>wk_gone := Some Canceled, wk_sends := False\<rparr>) w_traced ((), []) w_fast))) =
     [PostRan ''a'']"
  by code_simp+

text \<open>
  The model of the wire, which the worker stamps, is replaced by the requested one after the hooks,
  while the routing record of the same answer still names the alias.
\<close>

lemma resolved_model_is_lost:
  "map_option (\<lambda>r. (xt_ResolvedModelUsed (cr_Extra r), rg_ResolvedKeyAlias (xt_RoutingInfo (cr_Extra r))))
     (ae_Result (tryRequest (w_gateway\<lparr>gw_plugins := [], gw_laterCount := 0, gw_work := (\<lambda>q. requestWorker w_worker)\<rparr>)
        w_traced ((), []) w_fast)) =
   Some (''fast'', Some \<lparr>ra_ModelID = ''wire-model'', ra_ModelName = None\<rparr>)"
  by code_simp

end
