(* ===== verification/StreamAttempt.thy ===== *)
theory StreamAttempt
  imports Fallbacks RequestWorker
begin

text \<open>
  One attempt of a streaming request (core/unifai.go: \<^verbatim>\<open>tryStreamRequest\<close>) and the chunks that reach the
  client (core/providers/utils/utils.go: \<^verbatim>\<open>BuildClientStreamChunk\<close>). A stream that a plugin answers with
  is relayed through the hooks after the call; its goroutine is run to the end here. The stream that
  a worker opens is an argument, the list of the chunks that the client will see. The gate of paused
  streams and the departure of the client are the argument \<open>gs_accepts\<close>, which says whether the
  \<open>i\<close>-th chunk could be sent. Logs and spans are left out.
\<close>

subsection \<open>Chunks\<close>

text \<open>The kind of sub-response that a response holds, if it holds one that streams know.\<close>

datatype chunk_kind = TextChunk | ChatChunk | ResponsesChunk | SpeechChunk | TranscriptionChunk | ImageChunk
  | PassthroughChunk | OtherChunk | NoBody

record 'r client_chunk =
  cc_Response :: "'r core_response option"
  cc_Error :: "core_error option"

text \<open>What the client of a stream gets; \<open>Crashed\<close> is a nil dereference in the goroutine of the stream.\<close>

datatype 'r stream_answer = ChunkStream "'r client_chunk list" | Crashed

datatype 'r stream_reply = Opened "'r client_chunk list" | OpenFailed core_error | OpenEnded ctx_err

record ('w, 'r) stream_gateway = "('w, 'r) gateway" +
  gs_kind :: "'r \<Rightarrow> chunk_kind"
  gs_blank :: 'r
  gs_newTrace :: string
  gs_open :: "queue \<Rightarrow> uctx \<Rightarrow> 'w \<Rightarrow> llm_request \<Rightarrow> uctx \<times> 'w \<times> llm_request \<times> 'r stream_reply"
  gs_accepts :: "nat \<Rightarrow> bool"

text \<open>Responses of other kinds do not get through.\<close>

definition client_response :: "('r \<Rightarrow> chunk_kind) \<Rightarrow> uctx \<Rightarrow> 'r core_response \<Rightarrow> 'r core_response option" where
  "client_response kind c r =
     (case kind (cr_Body r) of
        OtherChunk \<Rightarrow> None
      | NoBody \<Rightarrow> None
      | _ \<Rightarrow> Some (strip_response c r))"

definition BuildClientStreamChunk ::
  "('r \<Rightarrow> chunk_kind) \<Rightarrow> uctx \<Rightarrow> 'r core_response option \<Rightarrow> core_error option \<Rightarrow> 'r client_chunk" where
  "BuildClientStreamChunk kind c resp err =
     \<lparr>cc_Response = Option.bind resp (client_response kind c), cc_Error = map_option (strip_error c) err\<rparr>"

text \<open>The one-chunk stream of a response; there is no check for a missing response.\<close>

definition newUnifAIMessageChan :: "('r \<Rightarrow> chunk_kind) \<Rightarrow> 'r core_response option \<Rightarrow> 'r stream_answer" where
  "newUnifAIMessageChan kind message =
     (case message of
        None \<Rightarrow> Crashed
      | Some r \<Rightarrow> ChunkStream [\<lparr>cc_Response =
          (if kind (cr_Body r) \<in> set [TextChunk, ChatChunk, ResponsesChunk, SpeechChunk, TranscriptionChunk]
           then Some r else None), cc_Error = None\<rparr>])"

subsection \<open>The stream of a plugin\<close>

text \<open>The response that a message of the plugin's stream is turned into; passthrough is not copied.\<close>

definition relayed_response :: "('w, 'r) stream_gateway \<Rightarrow> 'r core_response option \<Rightarrow> 'r core_response" where
  "relayed_response gs r =
     (case r of
        Some x \<Rightarrow>
          if gs_kind gs (cr_Body x) \<in> set [TextChunk, ChatChunk, ResponsesChunk, SpeechChunk, TranscriptionChunk, ImageChunk]
          then x else \<lparr>cr_Extra = no_extra, cr_Body = gs_blank gs\<rparr>
      | None \<Rightarrow> \<lparr>cr_Extra = no_extra, cr_Body = gs_blank gs\<rparr>)"

definition populate_chunk ::
  "('w, 'r) stream_gateway \<Rightarrow> string \<times> string \<times> string \<Rightarrow> 'r core_response \<Rightarrow> 'r core_response" where
  "populate_chunk gs ident r =
     (case ident of (t, p, m) \<Rightarrow> if gs_kind gs (cr_Body r) = NoBody then r else populate_response t p m r)"

definition populate_failure :: "string \<times> string \<times> string \<Rightarrow> core_error \<Rightarrow> core_error" where
  "populate_failure ident e = (case ident of (t, p, m) \<Rightarrow> populate_error t p m e)"

definition pipelinePostHookRunner ::
  "('w, 'r) stream_gateway \<Rightarrow> string \<times> string \<times> string \<Rightarrow> nat \<Rightarrow> (('w, 'r) llm_plugin, unit) pipeline \<Rightarrow> uctx \<Rightarrow> 'w \<Rightarrow>
   'r core_response option \<Rightarrow> core_error option \<Rightarrow>
   (('w, 'r) llm_plugin, unit) pipeline \<times> uctx \<times> 'w \<times> 'r core_response option \<times> core_error option" where
  "pipelinePostHookRunner gs ident n p c w result err =
     (case RunPostLLMHooks (gw_took gs) p c w (map_option (populate_chunk gs ident) result)
             (map_option (populate_failure ident) err) (int n) of
        (p', c', w', resp, err') \<Rightarrow>
          (case err' of
             Some e \<Rightarrow> (p', c', w', None, Some (populate_failure ident e))
           | None \<Rightarrow> (p', c', w', map_option (populate_chunk gs ident) resp, None)))"

text \<open>The relay stops at the first chunk that cannot be sent, whose hooks have run.\<close>

fun relay ::
  "('w, 'r) stream_gateway \<Rightarrow> string \<times> string \<times> string \<Rightarrow> nat \<Rightarrow> nat \<Rightarrow> (('w, 'r) llm_plugin, unit) pipeline \<Rightarrow> uctx \<Rightarrow> 'w \<Rightarrow>
   ('r core_response option \<times> core_error option) option list \<Rightarrow> uctx \<times> 'w \<times> 'r client_chunk list" where
  "relay gs ident n i p c w [] = (c, w, [])"
| "relay gs ident n i p c w (None # ms) = relay gs ident n i p c w ms"
| "relay gs ident n i p c w (Some (r, e) # ms) =
     (case pipelinePostHookRunner gs ident n p c w (Some (relayed_response gs r)) e of
        (p', c', w', resp, err) \<Rightarrow>
          if gs_accepts gs i
          then (case relay gs ident n (Suc i) p' c' w' ms of
                  (c2, w2, chunks) \<Rightarrow> (c2, w2, BuildClientStreamChunk (gs_kind gs) c' resp err # chunks))
          else (c', w', []))"

subsection \<open>The attempt\<close>

definition stream_end ::
  "('w, 'r) stream_gateway \<Rightarrow> ('w, 'r core_response) attempt_end \<Rightarrow> ('w, 'r stream_answer) attempt_end" where
  "stream_end gs a =
     \<lparr>ae_Ctx = ae_Ctx a, ae_World = ae_World a, ae_Request = ae_Request a,
      ae_Result = (if ae_Error a = None then Some (newUnifAIMessageChan (gs_kind gs) (ae_Result a)) else None),
      ae_Error = ae_Error a\<rparr>"

text \<open>After a stream that did not open; an answer of neither kind leaves the error of the worker.\<close>

definition recover_stream ::
  "('w, 'r) stream_gateway \<Rightarrow> core_error \<Rightarrow> ('w, 'r core_response) attempt_end \<Rightarrow> ('w, 'r stream_answer) attempt_end" where
  "recover_stream gs failure a =
     (if ae_Error a = None \<and> ae_Result a = None
      then failed_end (ae_Ctx a) (ae_World a) (ae_Request a) failure
      else stream_end gs a)"

definition open_stream ::
  "('w, 'r) stream_gateway \<Rightarrow> (('w, 'r) llm_plugin, unit) pipeline \<Rightarrow> queue \<Rightarrow> uctx \<Rightarrow> 'w \<Rightarrow> llm_request \<Rightarrow>
   llm_request held \<Rightarrow> llm_request \<Rightarrow> ('w, 'r stream_answer) attempt_end" where
  "open_stream gs p q c w orig h sent =
     (case request_id orig sent of
        (t, provider, model) \<Rightarrow>
          (case enqueue (gateway.truncate gs) provider q of
             Inl e \<Rightarrow> failed_end c w orig (populate_error t provider model e)
           | Inr q' \<Rightarrow>
               (case gs_open gs q' c w sent of
                  (c', w', sent', reply) \<Rightarrow>
                    (let orig' = write_received h (share_sub orig sent') orig
                     in case reply of
                          Opened chunks \<Rightarrow> \<lparr>ae_Ctx = c', ae_World = w', ae_Request = orig',
                            ae_Result = Some (ChunkStream chunks), ae_Error = None\<rparr>
                        | OpenFailed e \<Rightarrow>
                            recover_stream gs e
                              (finish_hooks (gateway.truncate gs) p (rq_RequestType orig', provider, model)
                                (int (gw_laterCount gs)) (uc_SetValue KeyStreamEndIndicator (CBool True) c') w' orig'
                                None (Some e))
                        | OpenEnded why \<Rightarrow>
                            failed_end c' w' orig' (newUnifAICtxDoneError why ''while waiting for stream response'')))))"

definition go_on_stream ::
  "('w, 'r) stream_gateway \<Rightarrow> (('w, 'r) llm_plugin, unit) pipeline \<Rightarrow> queue \<Rightarrow> string \<times> string \<times> string \<Rightarrow>
   ('w, llm_request, 'r short_circuit) pre_end \<Rightarrow> ('w, 'r stream_answer) attempt_end" where
  "go_on_stream gs p q ident e =
     (case current (pe_Original e) (pe_Held e) of
        None \<Rightarrow>
          failed_end (pe_Ctx e) (pe_World e) (pe_Original e)
            (populate_failure ident (newUnifAIErrorFromMsg ''unifai request after plugin hooks cannot be nil''))
      | Some sent \<Rightarrow> open_stream gs p q (pe_Ctx e) (pe_World e) (pe_Original e) (pe_Held e) sent)"

definition ensure_trace :: "('w, 'r) stream_gateway \<Rightarrow> uctx \<Rightarrow> uctx" where
  "ensure_trace gs c =
     (case uc_Value c KeyTraceID of
        CStr s \<Rightarrow> c
      | _ \<Rightarrow> if gs_newTrace gs \<noteq> [] then uc_SetValue KeyTraceID (CStr (gs_newTrace gs)) c else c)"

text \<open>A short circuit is looked at in the order response, stream, error.\<close>

definition short_stream ::
  "('w, 'r) stream_gateway \<Rightarrow> (('w, 'r) llm_plugin, unit) pipeline \<Rightarrow> string \<times> string \<times> string \<Rightarrow>
   ('w, llm_request, 'r short_circuit) pre_end \<Rightarrow> 'r short_circuit \<Rightarrow> ('w, 'r stream_answer) attempt_end option" where
  "short_stream gs p ident e s =
     (let finish = finish_hooks (gateway.truncate gs) p ident (int (pe_Count e)) (pe_Ctx e) (pe_World e) (pe_Original e)
      in case sc_Response s of
           Some r \<Rightarrow>
             Some (stream_end gs (finish (Some (case ident of (t, prov, model) \<Rightarrow> populate_response t prov model r)) None))
         | None \<Rightarrow>
             (case sc_Stream s of
                Some ms \<Rightarrow>
                  (case relay gs ident (pe_Count e) 0 p (pe_Ctx e) (pe_World e) ms of
                     (c', w', chunks) \<Rightarrow> Some \<lparr>ae_Ctx = c', ae_World = w', ae_Request = pe_Original e,
                       ae_Result = Some (ChunkStream chunks), ae_Error = None\<rparr>)
              | None \<Rightarrow>
                  (case sc_Error s of
                     Some x \<Rightarrow> Some (stream_end gs (finish None (Some (populate_failure ident x))))
                   | None \<Rightarrow> None)))"

definition tryStreamRequest ::
  "('w, 'r) stream_gateway \<Rightarrow> uctx \<Rightarrow> 'w \<Rightarrow> llm_request \<Rightarrow> ('w, 'r stream_answer) attempt_end" where
  "tryStreamRequest gs c w req =
     (case request_id req req of
        (t, provider, model) \<Rightarrow>
          (case gw_queue gs provider of
             Inl e \<Rightarrow> failed_end c w req (populate_error t provider model (newUnifAIError e))
           | Inr q \<Rightarrow>
               if \<not> gw_tracer gs
               then failed_end c w req (populate_error t provider model (newUnifAIErrorFromMsg ''tracer not found in context''))
               else
                 (case RunLLMPreHooks (getPluginPipeline (gw_plugins gs) [] new_pipeline)
                         (ensure_trace gs (uc_SetValue KeyTracer (CBool True) c)) w req of
                    (p, e) \<Rightarrow>
                      (let ident = (rq_RequestType (pe_Original e), provider, model)
                       in case Option.bind (pe_Short e) (short_stream gs p ident e) of
                            Some a \<Rightarrow> a
                          | None \<Rightarrow> go_on_stream gs p q ident e))))"

text \<open>The orchestration is the one of plain requests, but streams are not marked as those of a fallback.\<close>

definition handleStreamRequest ::
  "(nat \<Rightarrow> ('w, 'r) stream_gateway) \<Rightarrow> ('w, 'r) llm_plugin list \<Rightarrow> (string \<Rightarrow> bool) \<Rightarrow> (nat \<Rightarrow> string) \<Rightarrow> uctx \<Rightarrow> 'w \<Rightarrow>
   llm_request \<Rightarrow> ('w, 'r stream_answer) handled" where
  "handleStreamRequest gss plugins configured newID =
     orchestrate \<lparr>or_plugins = plugins, or_try = (\<lambda>i. tryStreamRequest (gss i)), or_mark = (\<lambda>_ _ r. r),
       or_configured = configured, or_newID = newID\<rparr>"

subsection \<open>What a relayed stream shows\<close>
















lemma populate_chunk_body [simp]: "cr_Body (populate_chunk gs ident r) = cr_Body r"
  by (simp add: populate_chunk_def populate_response_def split: prod.split)

lemma populate_failure_bare [simp]:
  "(populate_failure ident e)\<lparr>er_ExtraFields := no_extra\<rparr> = e\<lparr>er_ExtraFields := no_extra\<rparr>"
  by (simp add: populate_failure_def populate_error_def split: prod.split)




subsection \<open>Examples\<close>

definition w_kind :: "string \<Rightarrow> chunk_kind" where
  "w_kind s = (if s = ''picture'' then ImageChunk else if s = ''bytes'' then PassthroughChunk
     else if s = [] then NoBody else ChatChunk)"

definition w_says :: "string \<Rightarrow> string core_response" where
  "w_says s = \<lparr>cr_Extra = no_extra\<lparr>xt_RawRequest := Some ''raw''\<rparr>, cr_Body = s\<rparr>"

definition w_streams :: "(unit \<times> hook_event list, string) stream_gateway" where
  "w_streams = gateway.extend w_gateway
     \<lparr>gs_kind = w_kind, gs_blank = [], gs_newTrace = ''trace'',
      gs_open = (\<lambda>q c w r. (uc_SetValue KeyDropRawRequestFromClient (CBool True) c, w, r,
        OpenFailed ((newUnifAIErrorFromMsg ''down'')\<lparr>er_ExtraFields := no_extra\<lparr>xt_RawRequest := Some ''raw''\<rparr>\<rparr>))),
      gs_accepts = (\<lambda>i. i < 1)\<rparr>"

definition w_relayed :: "((unit \<times> hook_event list, string) llm_plugin, unit) pipeline" where
  "w_relayed = getPluginPipeline (map recorded [w_passive ''a'', w_passive ''b'']) [] new_pipeline"

definition w_dropping :: uctx where
  "w_dropping = w_uctx\<lparr>uc_values := [(KeyDropRawRequestFromClient, CBool True)]\<rparr>"

definition w_messages :: "(string core_response option \<times> core_error option) option list" where
  "w_messages = [None, Some (Some (w_says ''one''), None), Some (Some (w_says ''two''), None), Some (Some (w_says ''three''), None)]"

lemma w_relay_run:
  "map (map_option cr_Body \<circ> cc_Response)
     (snd (snd (relay w_streams (''chat_completion_stream'', ''openai'', ''m'') 2 0 w_relayed w_dropping ((), []) w_messages))) =
   [Some ''one'']"
  "map (\<lambda>ch. xt_RawRequest (cr_Extra (the (cc_Response ch))))
     (snd (snd (relay w_streams (''chat_completion_stream'', ''openai'', ''m'') 2 0 w_relayed w_dropping ((), []) w_messages))) =
   [None]"
  by code_simp+


text \<open>
  The error of a stream that did not open keeps the raw request that was captured for the logs only;
  the attempt of a plain request drops it.
\<close>

lemma stream_error_leaks_raw:
  "map_option (xt_RawRequest \<circ> er_ExtraFields) (ae_Error (tryStreamRequest w_streams w_uctx ((), []) chat_request)) =
     Some (Some ''raw'')"
  "map_option (xt_RawRequest \<circ> er_ExtraFields)
     (ae_Error (tryRequest
        (w_gateway\<lparr>gw_work := \<lambda>q c w r. (uc_SetValue KeyDropRawRequestFromClient (CBool True) c, w, r,
           Failure ((newUnifAIErrorFromMsg ''down'')\<lparr>er_ExtraFields := no_extra\<lparr>xt_RawRequest := Some ''raw''\<rparr>\<rparr>))\<rparr>)
        w_uctx ((), []) chat_request)) = Some None"
  by code_simp+

text \<open>A plugin whose hook before the call answers, and whose hook after it takes the answer away.\<close>

definition w_taking :: "(unit, string) llm_plugin" where
  "w_taking = (w_passive ''taking'')
     \<lparr>pg_PreLLMHook := (\<lambda>v w q. \<lparr>pa_Ops = [], pa_World = w, pa_Received = chat_request, pa_Request = Received,
        pa_Short = Some \<lparr>sc_Response = Some (w_says ''early''), sc_Stream = None, sc_Error = None\<rparr>, pa_Error = None\<rparr>),
      pg_PostLLMHook := (\<lambda>v w resp err. ([], w, None, None, None))\<rparr>"

lemma nil_answer_crashes_stream:
  "ae_Result (tryStreamRequest (w_streams\<lparr>gw_plugins := [recorded w_taking]\<rparr>) w_uctx ((), []) chat_request) = Some Crashed"
  by code_simp

text \<open>A relayed passthrough chunk, and a picture answered in one piece, arrive empty.\<close>

lemma lost_chunks:
  "map cc_Response (snd (snd (relay w_streams (''passthrough_stream'', ''openai'', ''m'') 2 0 w_relayed w_uctx ((), [])
     [Some (Some (w_says ''bytes''), None)]))) = [None]"
  "newUnifAIMessageChan w_kind (Some (w_says ''picture'')) = ChunkStream [\<lparr>cc_Response = None, cc_Error = None\<rparr>]"
  by code_simp+

end
