(* ===== verification/McpTools.thy ===== *)
theory McpTools
  imports PluginPipeline CelRefs
begin

text \<open>
  Which tools of the connected tool servers a request sees, may execute, and may have executed
  without asking the user (core/mcp/utils.go, agent.go, exec.go, codemode.go). A tool is stored under
  its prefixed name \<open>client-tool\<close>, the lists of a client hold the names without the prefix. The client
  map is the list of its entries in the order of the range over it. An allow list that is nil behaves
  as an empty one. Names and code are taken as ASCII where they meet, as the pattern that reads code
  knows no other identifiers; the translation of names to identifiers is also given on the runes of
  any name, with the tables of Unicode as an argument, and the two agree on ASCII names.
\<close>

subsection \<open>Clients\<close>

record mcp_client_config =
  mc_Name :: string
  mc_IsCodeModeClient :: bool
  mc_ToolsToExecute :: WhiteList
  mc_ToolsToAutoExecute :: WhiteList

record chat_tool =
  tl_FunctionName :: "string option"
  tl_Description :: "string option"

record mcp_client =
  cl_ExecutionConfig :: mcp_client_config
  cl_ToolMap :: "chat_tool smap"
  cl_ToolNameMapping :: "string smap"
  cl_State :: string

type_synonym client_map = "mcp_client smap"

definition MCPConnectionStateDisabled :: string where "MCPConnectionStateDisabled = ''disabled''"
definition MCPContextKeyIncludeClients :: string where "MCPContextKeyIncludeClients = ''mcp-include-clients''"

definition GetClientForTool :: "client_map \<Rightarrow> string \<Rightarrow> mcp_client option" where
  "GetClientForTool m toolName = find (\<lambda>cl. sm_load (cl_ToolMap cl) toolName \<noteq> None) (map snd m)"

definition GetClientByName :: "client_map \<Rightarrow> string \<Rightarrow> mcp_client option" where
  "GetClientByName m clientName = find (\<lambda>cl. mc_Name (cl_ExecutionConfig cl) = clientName) (map snd m)"

definition stripClientPrefix :: "string \<Rightarrow> string \<Rightarrow> string" where
  "stripClientPrefix prefixed clientName =
     (let p = clientName @ ''-'' in if has_prefix prefixed p then drop (length p) prefixed else prefixed)"

definition getOriginalToolName :: "string \<Rightarrow> string smap \<Rightarrow> string" where
  "getOriginalToolName sanitized mapping =
     (case sm_load mapping sanitized of Some original \<Rightarrow> original | None \<Rightarrow> sanitized)"

subsection \<open>Filters\<close>

text \<open>Without a list in the context every client is included.\<close>

definition shouldIncludeClient :: "string \<Rightarrow> string list option \<Rightarrow> bool" where
  "shouldIncludeClient clientName includeClients =
     (case includeClients of
        None \<Rightarrow> True
      | Some cs \<Rightarrow> if cs = [] then False else if ''*'' \<in> set cs then True else clientName \<in> set cs)"

definition shouldSkipToolForConfig :: "string \<Rightarrow> mcp_client_config option \<Rightarrow> bool" where
  "shouldSkipToolForConfig toolName config =
     (case config of
        None \<Rightarrow> True
      | Some cfg \<Rightarrow>
          if wl_IsEmpty (mc_ToolsToExecute cfg) then True
          else if wl_IsUnrestricted (mc_ToolsToExecute cfg) then False
          else \<not> list_contains (mc_ToolsToExecute cfg) (stripClientPrefix toolName (mc_Name cfg)))"

definition canAutoExecuteTool :: "string \<Rightarrow> mcp_client_config \<Rightarrow> bool" where
  "canAutoExecuteTool toolName cfg =
     (if shouldSkipToolForConfig toolName (Some cfg) then False
      else if wl_IsEmpty (mc_ToolsToAutoExecute cfg) then False
      else if wl_IsUnrestricted (mc_ToolsToAutoExecute cfg) then True
      else list_contains (mc_ToolsToAutoExecute cfg) (stripClientPrefix toolName (mc_Name cfg)))"

definition shouldSkipToolForRequest :: "view \<Rightarrow> string \<Rightarrow> string \<Rightarrow> bool" where
  "shouldSkipToolForRequest v clientName toolName =
     (case v MCPContextKeyIncludeTools of
        CStrs tools \<Rightarrow>
          if tools = [] then True
          else if clientName @ ''-*'' \<in> set tools then False
          else if toolName \<in> set tools then False
          else True
      | _ \<Rightarrow> False)"

lemma request_list_is_read:
  "v MCPContextKeyIncludeTools = CStrs l \<Longrightarrow> shouldSkipToolForRequest v n (tool_of n t) \<longleftrightarrow> \<not> list_lets l n t"
  by (auto simp: shouldSkipToolForRequest_def list_lets_def all_tools_def)

definition include_clients :: "view \<Rightarrow> string list option" where
  "include_clients v = (case v MCPContextKeyIncludeClients of CStrs cs \<Rightarrow> Some cs | _ \<Rightarrow> None)"

subsection \<open>The tools that a request sees\<close>

text \<open>A name that two clients carry stands for the last of them.\<close>

definition clientsByName :: "client_map \<Rightarrow> string \<Rightarrow> mcp_client option" where
  "clientsByName m n = map_of (rev (map (\<lambda>cl. (mc_Name (cl_ExecutionConfig cl), cl)) (map snd m))) n"

definition visible_tools :: "view \<Rightarrow> mcp_client \<Rightarrow> string \<Rightarrow> chat_tool list" where
  "visible_tools v cl clientName =
     (if cl_State cl = MCPConnectionStateDisabled then []
      else if \<not> shouldIncludeClient clientName (include_clients v) then []
      else map (\<lambda>t. the (sm_load (cl_ToolMap cl) t))
             (filter (\<lambda>t. \<not> shouldSkipToolForConfig t (Some (cl_ExecutionConfig cl)) \<and>
                           \<not> shouldSkipToolForRequest v clientName t)
               (sort (map fst (cl_ToolMap cl)))))"

definition tools_named :: "view \<Rightarrow> client_map \<Rightarrow> string \<Rightarrow> chat_tool list" where
  "tools_named v m n = (case clientsByName m n of None \<Rightarrow> [] | Some cl \<Rightarrow> visible_tools v cl n)"

fun collect_tools :: "view \<Rightarrow> client_map \<Rightarrow> string list \<Rightarrow> chat_tool list smap \<Rightarrow> chat_tool list smap" where
  "collect_tools v m [] acc = acc"
| "collect_tools v m (n # ns) acc =
     (let ts = tools_named v m n;
          known = (case sm_load acc n of None \<Rightarrow> [] | Some xs \<Rightarrow> xs)
      in collect_tools v m ns (if ts = [] then acc else sm_store n (known @ ts) acc))"

definition GetToolPerClient :: "view \<Rightarrow> client_map \<Rightarrow> chat_tool list smap" where
  "GetToolPerClient v m = collect_tools v m (sort (map (\<lambda>cl. mc_Name (cl_ExecutionConfig cl)) (map snd m))) []"

text \<open>
  The tools that are injected into a request: those of ordinary clients, each name once, and the
  tools of the code mode when a code-mode client is visible. The second result are the names for
  the list of added tools in the context.
\<close>

fun flatten_tools ::
  "client_map \<Rightarrow> (string \<times> chat_tool list) list \<Rightarrow> chat_tool list \<Rightarrow> bool \<Rightarrow> string list \<Rightarrow>
   chat_tool list \<times> bool \<times> string list" where
  "flatten_tools m [] out code taken = (out, code, taken)"
| "flatten_tools m ((n, ts) # rest) out code taken =
     (case GetClientByName m n of
        None \<Rightarrow> flatten_tools m rest out code taken
      | Some cl \<Rightarrow>
          let isCode = mc_IsCodeModeClient (cl_ExecutionConfig cl);
              fresh = fold (\<lambda>t (new, taken). case tl_FunctionName t of
                  Some f \<Rightarrow> if f \<noteq> [] \<and> f \<notin> set taken then (new @ [t], taken @ [f]) else (new, taken)
                | None \<Rightarrow> (new, taken)) ts ([], taken)
          in flatten_tools m rest (if isCode then out else out @ fst fresh) (code \<or> isCode) (snd fresh))"

definition GetAvailableTools ::
  "chat_tool list option \<Rightarrow> view \<Rightarrow> client_map \<Rightarrow> chat_tool list \<times> string list" where
  "GetAvailableTools codeModeTools v m =
     (case flatten_tools m (sort_key fst (GetToolPerClient v m)) [] False [] of
        (out, code, taken) \<Rightarrow>
          (case codeModeTools of
             None \<Rightarrow> (out, taken)
           | Some cts \<Rightarrow>
               if code then
                 (out @ fst (fold (\<lambda>t (new, s). case tl_FunctionName t of
                      Some f \<Rightarrow> if f \<noteq> [] \<and> f \<notin> set s then (new @ [t], f # s) else (new, s)
                    | None \<Rightarrow> (new, s)) cts ([], taken)), taken)
               else (out, taken)))"

subsection \<open>Names in code\<close>

definition is_letter :: "char \<Rightarrow> bool" where
  "is_letter c = (let n = (of_char c :: nat) in 65 \<le> n \<and> n \<le> 90 \<or> 97 \<le> n \<and> n \<le> 122)"

definition is_ident_start :: "char \<Rightarrow> bool" where
  "is_ident_start c \<longleftrightarrow> is_letter c \<or> c = CHR ''_'' \<or> c = CHR ''$''"

definition is_ident_char :: "char \<Rightarrow> bool" where
  "is_ident_char c \<longleftrightarrow> is_ident_start c \<or> is_digit c"

fun parse_rest :: "string \<Rightarrow> string \<Rightarrow> string" where
  "parse_rest res [] = res"
| "parse_rest res (c # cs) =
     parse_rest
       (if is_ident_char c then res @ [ascii_lower c]
        else if is_space c \<or> c = CHR ''-'' then (if res \<noteq> [] \<and> last res \<noteq> CHR ''_'' then res @ ''_'' else res)
        else res) cs"

definition trim_underscores :: "string \<Rightarrow> string" where
  "trim_underscores s = rev (dropWhile (\<lambda>c. c = CHR ''_'') (rev s))"

definition parseToolName :: "string \<Rightarrow> string" where
  "parseToolName toolName =
     (case toolName of
        [] \<Rightarrow> []
      | c # cs \<Rightarrow>
          let first = (if is_ident_start c then [ascii_lower c] else if is_digit c then [CHR ''_'', c] else ''_'');
              parsed = trim_underscores (parse_rest first cs)
          in if parsed = [] then ''tool'' else parsed)"

text \<open>
  The same on runes. Which runes are letters, digits and spaces, and how they are put in lower case, is
  the standard library's. The byte before the end is an underscore just when the last rune is one.
\<close>

record unicode =
  un_IsLetter :: "nat \<Rightarrow> bool"
  un_IsDigit :: "nat \<Rightarrow> bool"
  un_IsSpace :: "nat \<Rightarrow> bool"
  un_ToLower :: "nat \<Rightarrow> nat"

abbreviation (input) rune_of :: "char \<Rightarrow> nat" where "rune_of \<equiv> of_char"

definition rune_start :: "unicode \<Rightarrow> nat \<Rightarrow> bool" where
  "rune_start U r \<longleftrightarrow> un_IsLetter U r \<or> r = 95 \<or> r = 36"

definition rune_char :: "unicode \<Rightarrow> nat \<Rightarrow> bool" where
  "rune_char U r \<longleftrightarrow> un_IsLetter U r \<or> un_IsDigit U r \<or> r = 95 \<or> r = 36"

fun rune_rest :: "unicode \<Rightarrow> nat list \<Rightarrow> nat list \<Rightarrow> nat list" where
  "rune_rest U res [] = res"
| "rune_rest U res (r # rs) =
     rune_rest U
       (if rune_char U r then res @ [un_ToLower U r]
        else if un_IsSpace U r \<or> r = 45 then (if res \<noteq> [] \<and> last res \<noteq> 95 then res @ [95] else res)
        else res) rs"

definition trim_rune :: "nat list \<Rightarrow> nat list" where
  "trim_rune s = rev (dropWhile (\<lambda>r. r = 95) (rev s))"

definition parse_tool_runes :: "unicode \<Rightarrow> nat list \<Rightarrow> nat list" where
  "parse_tool_runes U runes =
     (case runes of
        [] \<Rightarrow> []
      | r # rs \<Rightarrow>
          let first = (if rune_start U r then [un_ToLower U r] else if un_IsDigit U r then [95, r] else [95]);
              parsed = trim_rune (rune_rest U first rs)
          in if parsed = [] then map of_char ''tool'' else parsed)"

definition underscores :: "string \<Rightarrow> string" where
  "underscores s = map (\<lambda>c. if c = CHR ''-'' then CHR ''_'' else c) s"

definition validateNormalizedToolName :: "string \<Rightarrow> bool" where
  "validateNormalizedToolName n \<longleftrightarrow> n \<noteq> [] \<and> \<not> str_contains n ''/'' \<and> \<not> str_contains n ''..''"

text \<open>
  The pattern of a tool call in code, \<^verbatim>\<open>(?:await\s+)?(ident)\s*\.\s*(ident)\s*\(\<close>. An identifier is
  matched as far as it goes: what follows a shorter match is a character of an identifier, which
  the rest of the pattern does not accept.
\<close>

fun match_ident :: "string \<Rightarrow> (string \<times> string) option" where
  "match_ident [] = None"
| "match_ident (c # cs) =
     (if is_ident_start c then Some (c # takeWhile is_ident_char cs, dropWhile is_ident_char cs) else None)"

definition skip_spaces :: "string \<Rightarrow> string" where
  "skip_spaces = dropWhile is_re_space"

definition match_char :: "char \<Rightarrow> string \<Rightarrow> string option" where
  "match_char x s = (case skip_spaces s of [] \<Rightarrow> None | c # cs \<Rightarrow> if c = x then Some cs else None)"

definition match_call :: "string \<Rightarrow> ((string \<times> string) \<times> string) option" where
  "match_call s =
     (case match_ident s of
        None \<Rightarrow> None
      | Some (server, r) \<Rightarrow>
          (case match_char (CHR ''.'') r of
             None \<Rightarrow> None
           | Some r1 \<Rightarrow>
               (case match_ident (skip_spaces r1) of
                  None \<Rightarrow> None
                | Some (tool, r2) \<Rightarrow> map_option (\<lambda>r3. ((server, tool), r3)) (match_char (CHR ''('') r2))))"

definition match_await :: "string \<Rightarrow> ((string \<times> string) \<times> string) option" where
  "match_await s =
     (if has_prefix s ''await'' \<and> skip_spaces (drop 5 s) \<noteq> drop 5 s
      then match_call (skip_spaces (drop 5 s)) else None)"

definition match_tool_call :: "string \<Rightarrow> ((string \<times> string) \<times> string) option" where
  "match_tool_call s = (case match_await s of Some x \<Rightarrow> Some x | None \<Rightarrow> match_call s)"

lemma length_skip_spaces: "length (skip_spaces s) \<le> length s"
  by (simp add: skip_spaces_def length_dropWhile_le)

lemma match_ident_length: "match_ident s = Some (i, r) \<Longrightarrow> length r < length s"
  by (cases s) (auto simp: le_imp_less_Suc length_dropWhile_le split: if_splits)

lemma match_char_length: "match_char x s = Some r \<Longrightarrow> length r < length s"
  using length_skip_spaces [of s] by (auto simp: match_char_def split: list.splits if_splits)

lemma match_call_length:
  assumes "match_call s = Some (i, r)"
  shows "length r < length s"
proof -
  from assms obtain server r0 r1 tool r2 where "match_ident s = Some (server, r0)"
    "match_char (CHR ''.'') r0 = Some r1" "match_ident (skip_spaces r1) = Some (tool, r2)"
    "match_char (CHR ''('') r2 = Some r"
    by (auto simp: match_call_def split: option.splits)
  then have "length r < length r2" "length r2 < length (skip_spaces r1)" "length r1 < length r0" "length r0 < length s"
    by (auto dest: match_ident_length match_char_length)
  then show ?thesis using length_skip_spaces [of r1] by linarith
qed

lemma match_tool_call_length:
  assumes "match_tool_call s = Some (i, r)"
  shows "length r < length s"
proof -
  have "length (skip_spaces (drop 5 s)) \<le> length s"
    using length_skip_spaces [of "drop 5 s"] by simp
  with assms show ?thesis
    by (auto simp: match_tool_call_def match_await_def split: option.splits if_splits dest!: match_call_length)
qed

function find_calls :: "string \<Rightarrow> (string \<times> string) list" where
  "find_calls [] = []"
| "find_calls (c # s) =
     (case match_tool_call (c # s) of
        Some (call, rest) \<Rightarrow> call # find_calls rest
      | None \<Rightarrow> find_calls s)"
  by pat_completeness auto
termination
  by (relation "measure length") (auto dest: match_tool_call_length)

definition extractToolCallsFromCode :: "string \<Rightarrow> (string \<times> string) list" where
  "extractToolCallsFromCode code = find_calls code"

subsection \<open>What runs without asking\<close>

definition isToolCallAllowedForCodeMode :: "string \<Rightarrow> string \<Rightarrow> string list \<Rightarrow> string list smap \<Rightarrow> bool" where
  "isToolCallAllowedForCodeMode server tool names allowed =
     (if server \<notin> set names then True
      else case sm_load allowed server of
             None \<Rightarrow> False
           | Some ts \<Rightarrow> if ''*'' \<in> set ts then True else tool \<in> set ts)"

definition code_names :: "mcp_client_config \<Rightarrow> string list" where
  "code_names cfg =
     (if wl_IsUnrestricted (mc_ToolsToAutoExecute cfg) then [''*'']
      else map (parseToolName \<circ> underscores) (mc_ToolsToAutoExecute cfg))"

definition buildAllowedAutoExecutionTools :: "view \<Rightarrow> client_map \<Rightarrow> string list \<times> string list smap" where
  "buildAllowedAutoExecutionTools v m =
     (let names = filter (\<lambda>n. GetClientByName m n \<noteq> None) (map fst (GetToolPerClient v m));
          cfg = (\<lambda>n. cl_ExecutionConfig (the (GetClientByName m n)))
      in (names,
          map (\<lambda>n. (n, code_names (cfg n)))
            (filter (\<lambda>n. mc_IsCodeModeClient (cfg n) \<and> \<not> wl_IsEmpty (mc_ToolsToAutoExecute (cfg n))) names)))"

record tool_call =
  fc_ID :: "string option"
  fc_Name :: "string option"
  fc_Arguments :: string

text \<open>
  \<open>code_of\<close> reads the text under \<^verbatim>\<open>code\<close> in the JSON arguments of a call: \<open>None\<close> when they do not
  parse or hold no such string.
\<close>

type_synonym code_reader = "string \<Rightarrow> string option"

definition code_executable :: "code_reader \<Rightarrow> view \<Rightarrow> client_map \<Rightarrow> string \<Rightarrow> bool" where
  "code_executable code_of v m arguments =
     (case code_of arguments of
        None \<Rightarrow> False
      | Some code \<Rightarrow>
          if code = [] then False
          else let calls = extractToolCallsFromCode code; (names, allowed) = buildAllowedAutoExecutionTools v m in
            if calls = [] then True
            else if allowed = [] then False
            else list_all (\<lambda>(server, tool). isToolCallAllowedForCodeMode server tool names allowed) calls)"

definition auto_executable :: "code_reader \<Rightarrow> view \<Rightarrow> client_map \<Rightarrow> tool_call \<Rightarrow> bool" where
  "auto_executable code_of v m call =
     (case fc_Name call of
        None \<Rightarrow> False
      | Some toolName \<Rightarrow>
          (case GetClientForTool m toolName of
             None \<Rightarrow>
               if toolName = ''listToolFiles'' \<or> toolName = ''readToolFile'' \<or> toolName = ''getToolDocs'' then True
               else if toolName = ''executeToolCode'' then code_executable code_of v m (fc_Arguments call)
               else False
           | Some cl \<Rightarrow> canAutoExecuteTool toolName (cl_ExecutionConfig cl)))"

subsection \<open>The checks before a tool runs\<close>

datatype exec_error = NoToolName | ToolUnknown string | ClientDisabled string string
  | ClientNotIncluded string string | ToolNotInAllowList string | FilteredByRequest string
  | ConnectionFailed string | AuthRequired string

text \<open>
  \<open>acquire\<close> opens or shares the connection to the server. The answer without a client stands for a
  tool of the code mode, which needs none.
\<close>

definition prepareToolExecution ::
  "(mcp_client \<Rightarrow> exec_error + 'c) \<Rightarrow> bool \<Rightarrow> view \<Rightarrow> client_map \<Rightarrow> string \<Rightarrow> exec_error + (mcp_client \<times> 'c) option" where
  "prepareToolExecution acquire hasCodeMode v m toolName =
     (if toolName = [] then Inl NoToolName
      else if hasCodeMode \<and> IsCodemodeTool toolName then Inr None
      else case GetClientForTool m toolName of
             None \<Rightarrow> Inl (ToolUnknown toolName)
           | Some cl \<Rightarrow>
               let clientName = mc_Name (cl_ExecutionConfig cl) in
               if cl_State cl = MCPConnectionStateDisabled then Inl (ClientDisabled toolName clientName)
               else if \<not> shouldIncludeClient clientName (include_clients v)
               then Inl (ClientNotIncluded toolName clientName)
               else if shouldSkipToolForConfig toolName (Some (cl_ExecutionConfig cl))
               then Inl (ToolNotInAllowList toolName)
               else if shouldSkipToolForRequest v clientName toolName then Inl (FilteredByRequest toolName)
               else (case acquire cl of Inl e \<Rightarrow> Inl e | Inr conn \<Rightarrow> Inr (Some (cl, conn))))"

subsection \<open>Discovery and execution agree\<close>

text \<open>The manager keeps client names distinct and stores a tool under the name of its function.\<close>

definition client_map_wf :: "client_map \<Rightarrow> bool" where
  "client_map_wf m \<longleftrightarrow>
     distinct (map (\<lambda>e. mc_Name (cl_ExecutionConfig (snd e))) m) \<and>
     (\<forall>cl \<in> snd ` set m. sm_wf (cl_ToolMap cl) \<and> (\<forall>(k, t) \<in> set (cl_ToolMap cl). tl_FunctionName t = Some k)) \<and>
     (\<forall>cl \<in> snd ` set m. \<forall>cl' \<in> snd ` set m. \<forall>t.
        sm_load (cl_ToolMap cl) t \<noteq> None \<and> sm_load (cl_ToolMap cl') t \<noteq> None \<longrightarrow> cl = cl')"

lemma collect_tools_load:
  "distinct ns \<Longrightarrow> (\<forall>n \<in> set ns. sm_load acc n = None) \<Longrightarrow>
   sm_load (collect_tools v m ns acc) n =
     (if n \<in> set ns \<and> tools_named v m n \<noteq> [] then Some (tools_named v m n) else sm_load acc n)"
proof (induction ns arbitrary: acc)
  case (Cons k ns)
  let ?acc = "if tools_named v m k = [] then acc else sm_store k (tools_named v m k) acc"
  have "\<forall>n \<in> set ns. sm_load ?acc n = None" using Cons.prems by auto
  then have "sm_load (collect_tools v m ns ?acc) n =
      (if n \<in> set ns \<and> tools_named v m n \<noteq> [] then Some (tools_named v m n) else sm_load ?acc n)"
    using Cons.prems by (intro Cons.IH) auto
  moreover have "collect_tools v m (k # ns) acc = collect_tools v m ns ?acc"
    using Cons.prems by (simp add: Let_def)
  ultimately show ?case by auto
qed simp

lemma GetToolPerClient_load:
  assumes "client_map_wf m"
  shows "sm_load (GetToolPerClient v m) n =
    (if n \<in> (\<lambda>cl. mc_Name (cl_ExecutionConfig cl)) ` snd ` set m \<and> tools_named v m n \<noteq> []
     then Some (tools_named v m n) else None)"
proof -
  let ?ns = "sort (map (\<lambda>cl. mc_Name (cl_ExecutionConfig cl)) (map snd m))"
  have "distinct ?ns" using assms by (simp add: client_map_wf_def comp_def)
  then have "sm_load (GetToolPerClient v m) n =
      (if n \<in> set ?ns \<and> tools_named v m n \<noteq> [] then Some (tools_named v m n) else sm_load [] n)"
    unfolding GetToolPerClient_def by (rule collect_tools_load) simp
  then show ?thesis by (simp add: image_image)
qed

lemma clientsByName_wf:
  assumes "client_map_wf m" "cl \<in> snd ` set m"
  shows "clientsByName m (mc_Name (cl_ExecutionConfig cl)) = Some cl"
proof -
  let ?es = "map (\<lambda>e. (mc_Name (cl_ExecutionConfig (snd e)), snd e)) m"
  have "distinct (map fst ?es)" using assms(1) by (simp add: client_map_wf_def comp_def)
  then have "distinct (map fst (rev ?es))" by (simp only: rev_map [symmetric] distinct_rev)
  moreover have "(mc_Name (cl_ExecutionConfig cl), cl) \<in> set (rev ?es)" using assms(2) by auto
  ultimately have "map_of (rev ?es) (mc_Name (cl_ExecutionConfig cl)) = Some cl"
    by (rule map_of_is_SomeI)
  then show ?thesis by (simp add: clientsByName_def comp_def)
qed

lemma clientsByName_mem: "clientsByName m n = Some cl \<Longrightarrow> cl \<in> snd ` set m \<and> mc_Name (cl_ExecutionConfig cl) = n"
  unfolding clientsByName_def by (auto dest!: map_of_SomeD)

lemma GetClientForTool_SomeD:
  "GetClientForTool m t = Some cl \<Longrightarrow> cl \<in> snd ` set m \<and> sm_load (cl_ToolMap cl) t \<noteq> None"
  unfolding GetClientForTool_def by (auto dest!: find_SomeD)

lemma GetClientForTool_wf:
  assumes "client_map_wf m" "cl \<in> snd ` set m" "sm_load (cl_ToolMap cl) t \<noteq> None"
  shows "GetClientForTool m t = Some cl"
proof -
  obtain cl' where "GetClientForTool m t = Some cl'"
    using assms(2,3) by (fastforce simp: GetClientForTool_def find_None_iff')
  with assms GetClientForTool_SomeD [of m t cl'] show ?thesis
    unfolding client_map_wf_def by metis
qed

lemma visible_tools_names:
  assumes "sm_wf (cl_ToolMap cl)" "\<forall>(k, t) \<in> set (cl_ToolMap cl). tl_FunctionName t = Some k"
  shows "Some t \<in> tl_FunctionName ` set (visible_tools v cl n) \<longleftrightarrow>
    cl_State cl \<noteq> MCPConnectionStateDisabled \<and> shouldIncludeClient n (include_clients v) \<and>
    sm_load (cl_ToolMap cl) t \<noteq> None \<and> \<not> shouldSkipToolForConfig t (Some (cl_ExecutionConfig cl)) \<and>
    \<not> shouldSkipToolForRequest v n t"
proof -
  have name: "tl_FunctionName (the (sm_load (cl_ToolMap cl) k)) = Some k" if "k \<in> fst ` set (cl_ToolMap cl)" for k
    using that assms by (fastforce simp: sm_load_mem)
  have dom: "k \<in> fst ` set (cl_ToolMap cl) \<longleftrightarrow> sm_load (cl_ToolMap cl) k \<noteq> None" for k
    by (simp add: sm_load_def map_of_eq_None_iff)
  show ?thesis
    unfolding visible_tools_def using name dom by (force simp: image_iff)
qed

text \<open>
  C20. The list of tools that a request sees and the checks at execution time agree: with a manager
  whose connections open, a tool other than those of the code mode is executed exactly when it is in
  the list of some client, so no hidden tool runs and every tool on offer does.
\<close>

theorem offered_tools_execute:
  assumes "client_map_wf m" "t \<noteq> []" "\<not> (hasCodeMode \<and> IsCodemodeTool t)" "\<And>cl. \<exists>x. acquire cl = Inr x"
  shows "(\<exists>cl x. prepareToolExecution acquire hasCodeMode v m t = Inr (Some (cl, x))) \<longleftrightarrow>
    (\<exists>n ts. sm_load (GetToolPerClient v m) n = Some ts \<and> Some t \<in> tl_FunctionName ` set ts)"
    (is "?runs \<longleftrightarrow> ?seen")
proof
  have names: "Some t \<in> tl_FunctionName ` set (visible_tools v cl n) \<longleftrightarrow>
      cl_State cl \<noteq> MCPConnectionStateDisabled \<and> shouldIncludeClient n (include_clients v) \<and>
      sm_load (cl_ToolMap cl) t \<noteq> None \<and> \<not> shouldSkipToolForConfig t (Some (cl_ExecutionConfig cl)) \<and>
      \<not> shouldSkipToolForRequest v n t" if "cl \<in> snd ` set m" for cl n
    using that assms(1) by (intro visible_tools_names) (auto simp: client_map_wf_def)
  show ?seen if ?runs
  proof -
    from that obtain cl where cl: "GetClientForTool m t = Some cl" "cl_State cl \<noteq> MCPConnectionStateDisabled"
      "shouldIncludeClient (mc_Name (cl_ExecutionConfig cl)) (include_clients v)"
      "\<not> shouldSkipToolForConfig t (Some (cl_ExecutionConfig cl))"
      "\<not> shouldSkipToolForRequest v (mc_Name (cl_ExecutionConfig cl)) t"
      using assms(2,3) by (auto simp: prepareToolExecution_def Let_def split: option.splits if_splits)
    note mem = GetClientForTool_SomeD [OF cl(1)]
    let ?n = "mc_Name (cl_ExecutionConfig cl)"
    have seen: "Some t \<in> tl_FunctionName ` set (visible_tools v cl ?n)"
      using names [of cl ?n] mem cl by simp
    moreover have "tools_named v m ?n = visible_tools v cl ?n"
      using mem clientsByName_wf [OF assms(1)] by (simp add: tools_named_def)
    moreover have "?n \<in> (\<lambda>cl. mc_Name (cl_ExecutionConfig cl)) ` snd ` set m" using mem by blast
    ultimately have "sm_load (GetToolPerClient v m) ?n = Some (visible_tools v cl ?n)"
      using GetToolPerClient_load [OF assms(1), of v ?n] by auto
    with seen show ?thesis by blast
  qed
  show ?runs if ?seen
  proof -
    from that obtain n ts where n: "sm_load (GetToolPerClient v m) n = Some ts" "Some t \<in> tl_FunctionName ` set ts"
      by blast
    then have ts: "tools_named v m n = ts"
      using GetToolPerClient_load [OF assms(1), of v n] by (simp split: if_splits)
    then obtain cl where cl: "clientsByName m n = Some cl" "ts = visible_tools v cl n"
      using n(2) by (cases "clientsByName m n") (simp_all add: tools_named_def)
    note mem = clientsByName_mem [OF cl(1)]
    then have vis: "sm_load (cl_ToolMap cl) t \<noteq> None" "cl_State cl \<noteq> MCPConnectionStateDisabled"
      "shouldIncludeClient n (include_clients v)" "\<not> shouldSkipToolForConfig t (Some (cl_ExecutionConfig cl))"
      "\<not> shouldSkipToolForRequest v n t"
      using names [of cl n] n(2) cl(2) by simp_all
    have "GetClientForTool m t = Some cl"
      using GetClientForTool_wf [OF assms(1)] mem vis(1) by blast
    moreover obtain x where "acquire cl = Inr x" using assms(4) by blast
    ultimately have "prepareToolExecution acquire hasCodeMode v m t = Inr (Some (cl, x))"
      using vis mem assms(2,3) by (auto simp: prepareToolExecution_def Let_def)
    then show ?thesis by blast
  qed
qed

subsection \<open>Names that code can use\<close>

definition is_identifier :: "string \<Rightarrow> bool" where
  "is_identifier s \<longleftrightarrow> s \<noteq> [] \<and> is_ident_start (hd s) \<and> list_all is_ident_char s"

lemma ascii_lower_letter: "is_letter c \<Longrightarrow> is_letter (ascii_lower c)"
  by (auto simp: is_letter_def ascii_lower_def Let_def of_char_of)

lemma ascii_lower_other: "\<not> is_letter c \<Longrightarrow> ascii_lower c = c"
  by (auto simp: is_letter_def ascii_lower_def Let_def)

lemma ident_lower [simp]:
  "is_ident_start c \<Longrightarrow> is_ident_start (ascii_lower c)" "is_ident_char c \<Longrightarrow> is_ident_char (ascii_lower c)"
  by (metis ascii_lower_letter ascii_lower_other is_ident_start_def is_ident_char_def)+

lemma ident_underscore [simp]: "is_ident_start (CHR ''_'')" "is_ident_char (CHR ''_'')"
  by (simp_all add: is_ident_start_def is_ident_char_def)

lemma parse_rest_identifier: "is_identifier res \<Longrightarrow> is_identifier (parse_rest res cs)"
  by (induction res cs rule: parse_rest.induct) (auto simp: is_identifier_def)

lemma trim_underscores_prefix: "\<exists>us. s = trim_underscores s @ us"
  unfolding trim_underscores_def by (metis rev_append rev_rev_ident takeWhile_dropWhile_id)

lemma parse_identifier:
  "toolName \<noteq> [] \<Longrightarrow> is_identifier (parseToolName toolName)"
proof (cases toolName)
  case (Cons c cs)
  define first where "first = (if is_ident_start c then [ascii_lower c] else if is_digit c then [CHR ''_'', c] else ''_'')"
  define parsed where "parsed = trim_underscores (parse_rest first cs)"
  have "is_identifier (parse_rest first cs)"
    by (rule parse_rest_identifier) (auto simp: first_def is_identifier_def is_ident_char_def)
  moreover obtain us where "parse_rest first cs = parsed @ us"
    unfolding parsed_def using trim_underscores_prefix by blast
  ultimately have "is_identifier parsed" if "parsed \<noteq> []"
    using that by (auto simp: is_identifier_def)
  moreover have "is_identifier ''tool''" by code_simp
  moreover have "parseToolName toolName = (if parsed = [] then ''tool'' else parsed)"
    by (simp add: parseToolName_def Cons parsed_def first_def Let_def)
  ultimately show ?thesis by simp
qed simp

text \<open>
  What the tables are known to do: on ASCII they are the usual classes, and a letter or digit in lower
  case is one still.
\<close>

definition unicode_laws :: "unicode \<Rightarrow> bool" where
  "unicode_laws U \<longleftrightarrow>
     (\<forall>c. rune_of c < 128 \<longrightarrow> un_IsLetter U (of_char c) = is_letter c \<and> un_IsDigit U (of_char c) = is_digit c \<and>
        un_IsSpace U (of_char c) = is_space c \<and> un_ToLower U (of_char c) = of_char (ascii_lower c)) \<and>
     (\<forall>r. un_IsLetter U r \<longrightarrow> un_IsLetter U (un_ToLower U r)) \<and>
     (\<forall>r. un_IsDigit U r \<longrightarrow> un_ToLower U r = r)"

lemma unicode_ascii:
  assumes "unicode_laws U" "rune_of c < 128"
  shows "un_IsLetter U (of_char c) = is_letter c" "un_IsDigit U (of_char c) = is_digit c"
    "un_IsSpace U (of_char c) = is_space c" "un_ToLower U (of_char c) = of_char (ascii_lower c)"
  using assms by (simp_all add: unicode_laws_def)

definition ascii_name :: "string \<Rightarrow> bool" where
  "ascii_name = list_all (\<lambda>c. rune_of c < 128)"

lemma rune_of_eq: "of_char c = rune_of d \<longleftrightarrow> c = d"
  by simp

lemma rune_classes:
  assumes "unicode_laws U" "rune_of c < 128"
  shows "rune_start U (of_char c) = is_ident_start c" "rune_char U (of_char c) = is_ident_char c"
  using unicode_ascii [OF assms] rune_of_eq [of c "CHR ''_''"] rune_of_eq [of c "CHR ''$''"]
  by (auto simp: rune_start_def rune_char_def is_ident_start_def is_ident_char_def)

lemma rune_rest_ascii:
  "unicode_laws U \<Longrightarrow> ascii_name cs \<Longrightarrow> rune_rest U (map of_char res) (map of_char cs) = map of_char (parse_rest res cs)"
proof (induction cs arbitrary: res)
  case (Cons c cs)
  have c: "rune_of c < 128" and cs: "ascii_name cs" using Cons.prems by (simp_all add: ascii_name_def)
  let ?next = "if is_ident_char c then res @ [ascii_lower c]
    else if is_space c \<or> c = CHR ''-'' then (if res \<noteq> [] \<and> last res \<noteq> CHR ''_'' then res @ ''_'' else res) else res"
  have last: "res \<noteq> [] \<Longrightarrow> (last (map of_char res) = (95 :: nat)) = (last res = CHR ''_'')"
    using rune_of_eq [of "last res" "CHR ''_''"] by (simp add: last_map)
  have dash: "(of_char c = (45 :: nat)) = (c = CHR ''-'')" using rune_of_eq [of c "CHR ''-''"] by simp
  have "rune_rest U (map of_char res) (map of_char (c # cs)) = rune_rest U (map of_char ?next) (map of_char cs)"
    using unicode_ascii [OF Cons.prems(1) c] rune_classes [OF Cons.prems(1) c] last dash by (cases "res = []") simp_all
  then show ?case using Cons.IH [OF Cons.prems(1) cs, of ?next] by simp
qed simp

lemma trim_rune_ascii: "trim_rune (map of_char s) = map of_char (trim_underscores s)"
proof -
  have eq: "(\<lambda>r. r = (95 :: nat)) \<circ> of_char = (\<lambda>c. c = CHR ''_'')" by (rule ext) (use rune_of_eq [of _ "CHR ''_''"] in simp)
  show ?thesis by (simp only: trim_rune_def trim_underscores_def rev_map dropWhile_map eq)
qed

text \<open>On ASCII names the two translations are the same.\<close>

lemma parse_ascii:
  assumes U: "unicode_laws U" and s: "ascii_name s"
  shows "parse_tool_runes U (map of_char s) = map of_char (parseToolName s)"
proof (cases s)
  case Nil
  then show ?thesis by (simp add: parse_tool_runes_def parseToolName_def)
next
  case (Cons c cs)
  have c: "rune_of c < 128" and cs: "ascii_name cs" using s Cons by (simp_all add: ascii_name_def)
  let ?first = "if is_ident_start c then [ascii_lower c] else if is_digit c then [CHR ''_'', c] else ''_''"
  have "(if rune_start U (of_char c) then [un_ToLower U (of_char c)] else if un_IsDigit U (of_char c) then [95, of_char c]
      else [95]) = map of_char ?first"
    using unicode_ascii [OF U c] rune_classes [OF U c] by simp
  then show ?thesis
    using rune_rest_ascii [OF U cs, of ?first]
    by (simp add: parse_tool_runes_def parseToolName_def Cons trim_rune_ascii Let_def del: map_map)
qed

text \<open>An identifier on runes, which does not end in an underscore.\<close>

definition rune_identifier :: "unicode \<Rightarrow> nat list \<Rightarrow> bool" where
  "rune_identifier U s \<longleftrightarrow> s \<noteq> [] \<and> rune_start U (hd s) \<and> list_all (rune_char U) s \<and> last s \<noteq> 95"

lemma rune_lower:
  assumes "unicode_laws U"
  shows "rune_start U r \<Longrightarrow> rune_start U (un_ToLower U r)" "rune_char U r \<Longrightarrow> rune_char U (un_ToLower U r)"
    "rune_start U r \<Longrightarrow> rune_char U r"
proof -
  have "un_ToLower U 95 = 95" "un_ToLower U 36 = 36"
    using unicode_ascii(4) [OF assms, of "CHR ''_''"] unicode_ascii(4) [OF assms, of "CHR ''$''"]
    by (simp_all add: ascii_lower_def)
  then show "rune_start U r \<Longrightarrow> rune_start U (un_ToLower U r)" "rune_char U r \<Longrightarrow> rune_char U (un_ToLower U r)"
    "rune_start U r \<Longrightarrow> rune_char U r"
    using assms by (auto simp: unicode_laws_def rune_start_def rune_char_def)
qed

lemma rune_underscore: "rune_char U 95" "rune_start U 95"
  by (simp_all add: rune_char_def rune_start_def)

lemma rune_rest_names:
  assumes "unicode_laws U"
  shows "res \<noteq> [] \<Longrightarrow> rune_start U (hd res) \<Longrightarrow> list_all (rune_char U) res \<Longrightarrow>
    rune_rest U res rs \<noteq> [] \<and> rune_start U (hd (rune_rest U res rs)) \<and> list_all (rune_char U) (rune_rest U res rs)"
proof (induction rs arbitrary: res)
  case (Cons r rs)
  let ?next = "if rune_char U r then res @ [un_ToLower U r]
    else if un_IsSpace U r \<or> r = 45 then (if res \<noteq> [] \<and> last res \<noteq> 95 then res @ [95] else res) else res"
  have "?next \<noteq> [] \<and> rune_start U (hd ?next) \<and> list_all (rune_char U) ?next"
    using Cons.prems rune_lower(2) [OF assms, of r] rune_underscore [of U] by simp
  then show ?case using Cons.IH [of ?next] by simp
qed simp

lemma trim_rune_names:
  assumes "s \<noteq> []" "rune_start U (hd s)" "list_all (rune_char U) s" "trim_rune s \<noteq> []"
  shows "rune_identifier U (trim_rune s)"
proof -
  obtain us where s: "s = trim_rune s @ us"
    unfolding trim_rune_def by (metis rev_append rev_rev_ident takeWhile_dropWhile_id)
  have "last (trim_rune s) \<noteq> 95"
    using assms(4) hd_dropWhile [of "\<lambda>r. r = 95" "rev s"] by (simp add: trim_rune_def last_rev)
  moreover have "hd (trim_rune s) = hd s" using assms(4) by (subst (2) s) simp
  moreover have "list_all (rune_char U) (trim_rune s)" using assms(3) by (subst (asm) s) simp
  ultimately show ?thesis using assms by (simp add: rune_identifier_def)
qed

text \<open>
  C26. Whatever runes make up the name that a server gives a tool, if there are any, the name under which
  code calls it is not empty, starts with a letter, an underscore or a dollar sign, is made of these
  and digits, and does not end in an underscore. Letters and digits are those of Unicode, for any
  tables that agree with ASCII below 128 and whose lower case takes letters to letters and keeps
  digits. An identifier in this sense need not be one to the pattern that reads code
  (\<open>non_ascii_call_is_not_seen\<close>).
\<close>

theorem parsed_names_are_identifiers:
  assumes "unicode_laws U" "runes \<noteq> []"
  shows "rune_identifier U (parse_tool_runes U runes)"
proof -
  obtain r rs where runes: "runes = r # rs" using assms(2) by (cases runes) auto
  define first where "first = (if rune_start U r then [un_ToLower U r] else if un_IsDigit U r then [95, r] else [95])"
  have "first \<noteq> []" "rune_start U (hd first)" "list_all (rune_char U) first"
    using rune_lower [OF assms(1), of r] rune_lower(3) [OF assms(1), of "un_ToLower U r"]
    by (auto simp: first_def rune_start_def rune_char_def)
  note names = rune_rest_names [OF assms(1) this, of rs]
  have tool: "rune_identifier U (map of_char ''tool'')"
    using rune_classes [OF assms(1), of "CHR ''t''"] rune_classes [OF assms(1), of "CHR ''o''"]
      rune_classes [OF assms(1), of "CHR ''l''"]
    by (simp add: rune_identifier_def is_ident_start_def is_ident_char_def is_letter_def)
  show ?thesis
    using trim_rune_names [of "rune_rest U first rs" U] names tool
    by (simp add: parse_tool_runes_def runes first_def [symmetric] Let_def)
qed

subsection \<open>Direct calls are found\<close>

definition spaces :: "string \<Rightarrow> bool" where
  "spaces = list_all is_re_space"

lemma ident_not_special:
  "is_ident_char c \<Longrightarrow> \<not> is_re_space c \<and> c \<noteq> CHR ''.'' \<and> c \<noteq> CHR ''(''"
  by (auto simp: is_ident_char_def is_ident_start_def is_letter_def is_digit_def is_re_space_def Let_def)

lemma space_not_special: "is_re_space c \<Longrightarrow> c \<noteq> CHR ''.'' \<and> c \<noteq> CHR ''(''"
  by (auto simp: is_re_space_def Let_def)

lemma special_chars:
  "is_identifier s \<Longrightarrow> CHR ''.'' \<notin> set s \<and> CHR ''('' \<notin> set s"
  "spaces w \<Longrightarrow> CHR ''.'' \<notin> set w \<and> CHR ''('' \<notin> set w"
  using ident_not_special space_not_special by (auto simp: is_identifier_def spaces_def list_all_iff)

lemma ident_start_char: "is_ident_start c \<Longrightarrow> is_ident_char c"
  by (simp add: is_ident_char_def)

lemma match_ident_shape: "match_ident s = Some (i, r) \<Longrightarrow> s = i @ r \<and> is_identifier i"
  by (cases s) (auto simp: is_identifier_def ident_start_char list_all_iff split: if_splits dest: set_takeWhileD)

lemma skip_spaces_shape: "\<exists>w. s = w @ skip_spaces s \<and> spaces w"
  unfolding skip_spaces_def spaces_def list_all_iff
  by (metis set_takeWhileD takeWhile_dropWhile_id)

lemma match_char_shape:
  assumes "match_char x s = Some r"
  shows "\<exists>w. s = w @ x # r \<and> spaces w"
proof -
  obtain w where "s = w @ skip_spaces s" "spaces w" using skip_spaces_shape by blast
  with assms show ?thesis by (auto simp: match_char_def split: list.splits if_splits)
qed

lemma match_call_shape:
  assumes "match_call u = Some ((a, b), r)"
  shows "\<exists>w1 w2 w3. u = a @ w1 @ ''.'' @ w2 @ b @ w3 @ ''('' @ r \<and> is_identifier a \<and> is_identifier b \<and>
    spaces w1 \<and> spaces w2 \<and> spaces w3"
proof -
  obtain r0 r1 r2 where m: "match_ident u = Some (a, r0)" "match_char (CHR ''.'') r0 = Some r1"
    "match_ident (skip_spaces r1) = Some (b, r2)" "match_char (CHR ''('') r2 = Some r"
    using assms by (auto simp: match_call_def split: option.splits)
  obtain w1 w2 w3 where "r0 = w1 @ CHR ''.'' # r1" "spaces w1" "r1 = w2 @ skip_spaces r1" "spaces w2"
    "r2 = w3 @ CHR ''('' # r" "spaces w3"
    using match_char_shape [OF m(2)] match_char_shape [OF m(4)] skip_spaces_shape [of r1] by auto
  with match_ident_shape [OF m(1)] match_ident_shape [OF m(3)] show ?thesis
    by (metis append_Cons append_Nil append_assoc)
qed

definition word_start :: "string \<Rightarrow> bool" where
  "word_start p \<longleftrightarrow> p = [] \<or> \<not> is_ident_char (last p)"

lemma match_tool_call_shape:
  assumes "match_tool_call u = Some ((a, b), r)"
  shows "\<exists>p w1 w2 w3. u = p @ a @ w1 @ ''.'' @ w2 @ b @ w3 @ ''('' @ r \<and> is_identifier a \<and> is_identifier b \<and>
    spaces w1 \<and> spaces w2 \<and> spaces w3 \<and> word_start p \<and> CHR ''.'' \<notin> set p \<and> CHR ''('' \<notin> set p"
proof (cases "match_await u")
  case None
  then have "match_call u = Some ((a, b), r)" using assms by (simp add: match_tool_call_def)
  from match_call_shape [OF this] show ?thesis
    by (elim exE, intro exI [of _ "[]"] exI) (auto simp: word_start_def)
next
  case (Some x)
  then have m: "has_prefix u ''await''" "skip_spaces (drop 5 u) \<noteq> drop 5 u"
    "match_call (skip_spaces (drop 5 u)) = Some ((a, b), r)"
    using assms by (auto simp: match_tool_call_def match_await_def split: if_splits)
  obtain w where w: "drop 5 u = w @ skip_spaces (drop 5 u)" "spaces w" using skip_spaces_shape by blast
  then have "w \<noteq> []" using m(2) by auto
  then have "is_re_space (last w)" using w(2) by (simp add: spaces_def list_all_iff)
  then have "word_start (''await'' @ w)"
    using \<open>w \<noteq> []\<close> ident_not_special by (auto simp: word_start_def)
  moreover have "take 5 u = ''await''" using m(1) by (simp add: has_prefix_def eval_nat_numeral)
  then have "u = ''await'' @ drop 5 u" by (metis append_take_drop_id)
  with w(1) have "u = (''await'' @ w) @ skip_spaces (drop 5 u)" by simp
  moreover obtain w1 w2 w3 where
    "skip_spaces (drop 5 u) = a @ w1 @ ''.'' @ w2 @ b @ w3 @ ''('' @ r" "is_identifier a" "is_identifier b"
    "spaces w1" "spaces w2" "spaces w3"
    using match_call_shape [OF m(3)] by blast
  moreover have "CHR ''.'' \<notin> set (''await'' @ w)" "CHR ''('' \<notin> set (''await'' @ w)"
    using special_chars(2) [OF w(2)] by simp_all
  ultimately have "u = (''await'' @ w) @ a @ w1 @ ''.'' @ w2 @ b @ w3 @ ''('' @ r \<and> is_identifier a \<and>
      is_identifier b \<and> spaces w1 \<and> spaces w2 \<and> spaces w3 \<and> word_start (''await'' @ w) \<and>
      CHR ''.'' \<notin> set (''await'' @ w) \<and> CHR ''('' \<notin> set (''await'' @ w)"
    by simp
  then show ?thesis by blast
qed

lemma first_occurrence:
  "x \<notin> set us \<Longrightarrow> x \<notin> set vs \<Longrightarrow> us @ x # a = vs @ x # b \<Longrightarrow> us = vs \<and> a = b"
proof (induction us arbitrary: vs)
  case Nil
  then show ?case by (cases vs) auto
next
  case (Cons u us)
  then show ?case by (cases vs) auto
qed

lemma word_start_suffix: "word_start (xs @ ys) \<Longrightarrow> word_start ys"
  by (auto simp: word_start_def)

lemma identifier_suffix: "word_start p \<Longrightarrow> is_identifier a \<Longrightarrow> takeWhile is_ident_char (rev (p @ a)) = rev a"
  by (cases p rule: rev_cases) (auto simp: word_start_def is_identifier_def list_all_iff takeWhile_append)

lemma identifier_between_spaces: "is_identifier t \<Longrightarrow> t = w @ b @ w' \<Longrightarrow> spaces w \<Longrightarrow> spaces w' \<Longrightarrow> w = [] \<and> w' = []"
  using ident_not_special by (fastforce simp: is_identifier_def spaces_def list_all_iff intro: list.set_sel)

lemma match_call_direct:
  assumes "is_identifier server" "is_identifier tool"
  shows "match_call (server @ ''.'' @ tool @ ''('' @ post) = Some ((server, tool), post)"
proof -
  have ident: "match_ident (i @ c # r) = Some (i, c # r)" if "is_identifier i" "\<not> is_ident_char c" for i c r
    using that by (cases i) (auto simp: is_identifier_def list_all_iff takeWhile_append dropWhile_append)
  have here: "match_char c (c # r) = Some r" if "\<not> is_re_space c" for c r
    using that by (simp add: match_char_def skip_spaces_def)
  have "skip_spaces (tool @ rest) = tool @ rest" for rest
    using assms(2) ident_not_special by (cases tool) (auto simp: skip_spaces_def is_identifier_def)
  moreover have "\<not> is_ident_char (CHR ''.'')" "\<not> is_ident_char (CHR ''('')"
    "\<not> is_re_space (CHR ''.'')" "\<not> is_re_space (CHR ''('')"
    using ident_not_special by (blast, blast) (simp_all add: is_re_space_def)
  ultimately show ?thesis using assms by (simp add: match_call_def ident here)
qed

lemma overlapping_match:
  assumes "match_tool_call (pre @ server @ ''.'' @ tool @ ''('' @ post) = Some ((a, b), r)"
    and "is_identifier server" "is_identifier tool" "word_start pre"
  shows "(a, b) = (server, tool) \<or>
    (\<exists>pre'. r = pre' @ server @ ''.'' @ tool @ ''('' @ post \<and> length pre' < length pre \<and> word_start pre')"
proof -
  obtain p w1 w2 w3 where u: "pre @ server @ ''.'' @ tool @ ''('' @ post = p @ a @ w1 @ ''.'' @ w2 @ b @ w3 @ ''('' @ r"
    and ab: "is_identifier a" "is_identifier b" and w: "spaces w1" "spaces w2" "spaces w3"
    and p: "word_start p" "CHR ''.'' \<notin> set p" "CHR ''('' \<notin> set p"
    using match_tool_call_shape [OF assms(1)] by blast
  note clean = special_chars(1) [OF ab(1)] special_chars(1) [OF ab(2)] special_chars(1) [OF assms(2)]
    special_chars(1) [OF assms(3)] special_chars(2) [OF w(1)] special_chars(2) [OF w(2)] special_chars(2) [OF w(3)]
  let ?l = "p @ a @ w1 @ ''.'' @ w2 @ b @ w3"
  have l: "CHR ''('' \<notin> set ?l" using clean p by auto
  show ?thesis
  proof (cases "CHR ''('' \<in> set pre")
    case True
    then obtain y z where yz: "pre = y @ CHR ''('' # z" "CHR ''('' \<notin> set y" by (metis split_list_first)
    have "y @ CHR ''('' # (z @ server @ ''.'' @ tool @ ''('' @ post) = ?l @ CHR ''('' # r" using u yz(1) by simp
    from first_occurrence [OF yz(2) l this] have "r = z @ server @ ''.'' @ tool @ ''('' @ post" by simp
    moreover have "word_start z" using assms(4) yz(1) word_start_suffix [of "y @ ''(''" z] by simp
    ultimately show ?thesis using yz(1) by auto
  next
    case False
    then have "CHR ''('' \<notin> set (pre @ server @ ''.'' @ tool)" using clean by auto
    from first_occurrence [OF this l, of post r] u
    have e: "pre @ server @ ''.'' @ tool = (p @ a @ w1) @ CHR ''.'' # (w2 @ b @ w3)" by simp
    have pa: "CHR ''.'' \<notin> set (p @ a @ w1)" and rest: "CHR ''.'' \<notin> set (w2 @ b @ w3)" using clean p by auto
    have "CHR ''.'' \<notin> set pre"
    proof
      assume "CHR ''.'' \<in> set pre"
      then obtain y z where yz: "pre = y @ CHR ''.'' # z" "CHR ''.'' \<notin> set y" by (metis split_list_first)
      then have "y @ CHR ''.'' # (z @ server @ ''.'' @ tool) = (p @ a @ w1) @ CHR ''.'' # (w2 @ b @ w3)" using e by simp
      from first_occurrence [OF yz(2) pa this] have "w2 @ b @ w3 = z @ server @ ''.'' @ tool" by simp
      then have "CHR ''.'' \<in> set (w2 @ b @ w3)" by (simp only: set_append) simp
      with rest show False by contradiction
    qed
    then have "CHR ''.'' \<notin> set (pre @ server)" using clean by auto
    moreover have "(pre @ server) @ CHR ''.'' # tool = (p @ a @ w1) @ CHR ''.'' # (w2 @ b @ w3)" using e by simp
    ultimately have parts: "pre @ server = p @ a @ w1" "tool = w2 @ b @ w3"
      using first_occurrence [OF _ pa] by blast+
    have "tool = b" using identifier_between_spaces [OF assms(3) parts(2) w(2,3)] parts(2) by simp
    moreover have "w1 = []"
    proof (rule ccontr)
      assume "w1 \<noteq> []"
      then have "last server = last w1" using parts(1) assms(2)
        by (metis append_is_Nil_conv is_identifier_def last_appendR)
      then show False
        using \<open>w1 \<noteq> []\<close> assms(2) w(1) ident_not_special
        by (metis is_identifier_def last_in_set list_all_iff spaces_def)
    qed
    then have "rev server = rev a"
      using identifier_suffix [OF assms(4,2)] identifier_suffix [OF p(1) ab(1)] parts(1) by simp
    ultimately show ?thesis by simp
  qed
qed

text \<open>A call written as \<open>server.tool(\<close> is among the calls found, wherever it stands.\<close>

lemma direct_call_is_found:
  assumes "is_identifier server" "is_identifier tool"
  shows "word_start pre \<Longrightarrow> (server, tool) \<in> set (find_calls (pre @ server @ ''.'' @ tool @ ''('' @ post))"
proof (induction "length pre" arbitrary: pre rule: less_induct)
  case less
  let ?x = "server @ ''.'' @ tool @ ''('' @ post"
  obtain c u where cu: "pre @ ?x = c # u" by (cases "pre @ ?x") auto
  show ?case
  proof (cases "match_tool_call (pre @ ?x)")
    case None
    have "match_tool_call ?x \<noteq> None"
      using match_call_direct [OF assms] by (simp add: match_tool_call_def split: option.split)
    then obtain pre' where "pre = c # pre'" using None cu by (cases pre) auto
    then show ?thesis
      using less.hyps [of pre'] less.prems None word_start_suffix [of "[c]" pre'] by simp
  next
    case (Some m)
    obtain a b r where m: "m = ((a, b), r)" by (metis surj_pair)
    have f: "find_calls (pre @ ?x) = (a, b) # find_calls r" using Some m cu by simp
    show ?thesis
      using overlapping_match [OF _ assms less.prems] Some m f less.hyps by (metis list.set_intros(1,2))
  qed
qed

subsection \<open>Code that runs without asking\<close>

lemma sm_load_tabulated: "sm_load (map (\<lambda>n. (n, f n)) ns) k = (if k \<in> set ns then Some (f k) else None)"
  by (simp add: sm_load_def map_of_map_restrict restrict_map_def)

lemma wildcard_not_parsed: "''*'' \<noteq> parseToolName n"
proof (cases n)
  case (Cons c cs)
  then have "is_identifier (parseToolName n)" by (intro parse_identifier) simp
  moreover have "\<not> is_identifier ''*''" by code_simp
  ultimately show ?thesis by metis
qed (simp add: parseToolName_def)

lemma code_executable_approves:
  assumes "code_executable code_of v m arguments" "code_of arguments = Some code"
    and "(server, tool) \<in> set (extractToolCallsFromCode code)"
    and "sm_load (GetToolPerClient v m) server \<noteq> None" "GetClientByName m server = Some cl"
  defines "cfg \<equiv> cl_ExecutionConfig cl"
  shows "mc_IsCodeModeClient cfg \<and>
    (wl_IsUnrestricted (mc_ToolsToAutoExecute cfg) \<or> tool \<in> (parseToolName \<circ> underscores) ` set (mc_ToolsToAutoExecute cfg))"
proof -
  obtain names allowed where build: "buildAllowedAutoExecutionTools v m = (names, allowed)" by fastforce
  have "server \<in> fst ` set (GetToolPerClient v m)"
    using assms(4) by (simp add: sm_load_def map_of_eq_None_iff)
  moreover have "names = filter (\<lambda>n. GetClientByName m n \<noteq> None) (map fst (GetToolPerClient v m))"
    using build by (simp add: buildAllowedAutoExecutionTools_def Let_def)
  ultimately have "server \<in> set names" using assms(5) by simp
  moreover have "isToolCallAllowedForCodeMode server tool names allowed"
    using assms(1-3) build by (auto simp: code_executable_def Let_def list_all_iff split: if_splits)
  ultimately obtain ts where ts: "sm_load allowed server = Some ts" "''*'' \<in> set ts \<or> tool \<in> set ts"
    by (auto simp: isToolCallAllowedForCodeMode_def split: option.splits if_splits)
  then have "mc_IsCodeModeClient cfg" "ts = code_names cfg"
    using build assms(5) by (auto simp: buildAllowedAutoExecutionTools_def Let_def sm_load_tabulated cfg_def split: if_splits)
  with ts(2) show ?thesis
    using wildcard_not_parsed by (auto simp: code_names_def split: if_splits)
qed

text \<open>
  C19. Code that the agent runs without asking calls tools of the connected servers only as far as
  they are approved: wherever the code spells a call \<open>server.tool(\<close> of a server whose tools the
  request sees, the server is a code-mode client and the tool is on its list for execution
  without asking.
\<close>

theorem direct_calls_are_approved:
  assumes "auto_executable code_of v m call" "fc_Name call = Some ''executeToolCode''"
    and "GetClientForTool m ''executeToolCode'' = None"
    and "code_of (fc_Arguments call) = Some (pre @ server @ ''.'' @ tool @ ''('' @ post)"
    and "is_identifier server" "is_identifier tool" "word_start pre"
    and "sm_load (GetToolPerClient v m) server \<noteq> None" "GetClientByName m server = Some cl"
  shows "mc_IsCodeModeClient (cl_ExecutionConfig cl) \<and>
    (wl_IsUnrestricted (mc_ToolsToAutoExecute (cl_ExecutionConfig cl)) \<or>
     tool \<in> (parseToolName \<circ> underscores) ` set (mc_ToolsToAutoExecute (cl_ExecutionConfig cl)))"
proof (rule code_executable_approves [where code_of = code_of and arguments = "fc_Arguments call", OF _ assms(4) _ assms(8,9)])
  show "code_executable code_of v m (fc_Arguments call)"
    using assms(1-3) by (simp add: auto_executable_def)
  show "(server, tool) \<in> set (extractToolCallsFromCode (pre @ server @ ''.'' @ tool @ ''('' @ post))"
    unfolding extractToolCallsFromCode_def by (rule direct_call_is_found [OF assms(5-7)])
qed

subsection \<open>A manager with two servers\<close>

definition plain_tool :: "string \<Rightarrow> chat_tool" where
  "plain_tool n = \<lparr>tl_FunctionName = Some n, tl_Description = None\<rparr>"

definition files_client :: mcp_client where
  "files_client = \<lparr>cl_ExecutionConfig = \<lparr>mc_Name = ''files'', mc_IsCodeModeClient = True,
       mc_ToolsToExecute = [''*''], mc_ToolsToAutoExecute = [''read'']\<rparr>,
     cl_ToolMap = [(''files-read'', plain_tool ''files-read''), (''files-delete'', plain_tool ''files-delete'')],
     cl_ToolNameMapping = [], cl_State = ''connected''\<rparr>"

definition git_client :: mcp_client where
  "git_client = \<lparr>cl_ExecutionConfig = \<lparr>mc_Name = ''git'', mc_IsCodeModeClient = False,
       mc_ToolsToExecute = [''log'', ''push''], mc_ToolsToAutoExecute = [''log'']\<rparr>,
     cl_ToolMap = [(''git-log'', plain_tool ''git-log''), (''git-push'', plain_tool ''git-push''), (''git-gc'', plain_tool ''git-gc'')],
     cl_ToolNameMapping = [], cl_State = ''connected''\<rparr>"

definition two_clients :: client_map where
  "two_clients = [(''1'', files_client), (''2'', git_client)]"

definition open_view :: view where
  "open_view = (\<lambda>_. CNil)"

definition run_code :: "string \<Rightarrow> tool_call" where
  "run_code code = \<lparr>fc_ID = Some ''c1'', fc_Name = Some ''executeToolCode'', fc_Arguments = code\<rparr>"

lemmas two_clients_defs = two_clients_def files_client_def git_client_def plain_tool_def open_view_def run_code_def

lemma two_clients_wf: "client_map_wf two_clients"
  unfolding client_map_wf_def
proof (intro conjI)
  show "distinct (map (\<lambda>e. mc_Name (cl_ExecutionConfig (snd e))) two_clients)" by code_simp
  show "\<forall>cl \<in> snd ` set two_clients. sm_wf (cl_ToolMap cl) \<and> (\<forall>(k, t) \<in> set (cl_ToolMap cl). tl_FunctionName t = Some k)"
    by code_simp
  show "\<forall>cl \<in> snd ` set two_clients. \<forall>cl' \<in> snd ` set two_clients. \<forall>t.
      sm_load (cl_ToolMap cl) t \<noteq> None \<and> sm_load (cl_ToolMap cl') t \<noteq> None \<longrightarrow> cl = cl'"
    by (auto simp: two_clients_defs sm_load_def split: if_splits)
qed

lemma offered_tools_execute_witness:
  "(\<exists>cl x. prepareToolExecution (\<lambda>_. Inr ()) True open_view two_clients ''git-log'' = Inr (Some (cl, x))) \<longleftrightarrow>
   (\<exists>n ts. sm_load (GetToolPerClient open_view two_clients) n = Some ts \<and> Some ''git-log'' \<in> tl_FunctionName ` set ts)"
  by (rule offered_tools_execute [OF two_clients_wf]) (simp_all add: IsCodemodeTool_def)

text \<open>ASCII and one letter beyond it, e with an acute accent.\<close>

definition some_unicode :: unicode where
  "some_unicode =
     \<lparr>un_IsLetter = (\<lambda>r. 65 \<le> r \<and> r \<le> 90 \<or> 97 \<le> r \<and> r \<le> 122 \<or> r = 201 \<or> r = 233),
      un_IsDigit = (\<lambda>r. 48 \<le> r \<and> r \<le> 57), un_IsSpace = (\<lambda>r. 9 \<le> r \<and> r \<le> 13 \<or> r = 32),
      un_ToLower = (\<lambda>r. if 65 \<le> r \<and> r \<le> 90 then r + 32 else if r = 201 then 233 else r)\<rparr>"

lemma some_unicode_laws: "unicode_laws some_unicode"
  by (auto simp: unicode_laws_def some_unicode_def is_letter_def is_digit_def is_space_def ascii_lower_def Let_def
      of_char_of)

theorem parsed_names_are_identifiers_witness:
  "rune_identifier some_unicode (parse_tool_runes some_unicode [201, 45, 32, 55, 33, 95]) \<and>
   parse_tool_runes some_unicode [201, 45, 32, 55, 33, 95] = [233, 95, 55]"
proof
  show "rune_identifier some_unicode (parse_tool_runes some_unicode [201, 45, 32, 55, 33, 95])"
    by (rule parsed_names_are_identifiers [OF some_unicode_laws]) simp
qed code_simp

lemma direct_calls_are_approved_witness:
  "(mc_IsCodeModeClient (cl_ExecutionConfig files_client) \<and>
    (wl_IsUnrestricted (mc_ToolsToAutoExecute (cl_ExecutionConfig files_client)) \<or>
     ''read'' \<in> (parseToolName \<circ> underscores) ` set (mc_ToolsToAutoExecute (cl_ExecutionConfig files_client))))"
  by (rule direct_calls_are_approved [where code_of = Some and v = open_view and m = two_clients and
        call = "run_code ''x = files.read(1)''" and pre = "''x = ''" and server = "''files''" and post = "''1)''"])
    code_simp+

text \<open>
  The approval looks at the text of the code only. A call through another name of the server is
  not seen, while the same call spelled out is refused.
\<close>

lemma aliased_call_is_not_seen:
  "auto_executable Some open_view two_clients (run_code ''f = files; f.delete(1)'')"
  "\<not> auto_executable Some open_view two_clients (run_code ''files.delete(1)'')"
  by code_simp+

text \<open>
  Nor is a call of a tool whose name starts with a letter beyond ASCII, here e with an acute accent in
  UTF-8: it is a name that code can use, but none that the pattern knows.
\<close>

lemma non_ascii_call_is_not_seen:
  "extractToolCallsFromCode (''files.'' @ [char_of (195 :: nat), char_of (169 :: nat)] @ ''lan(1)'') = []"
  "auto_executable Some open_view two_clients
     (run_code (''files.'' @ [char_of (195 :: nat), char_of (169 :: nat)] @ ''lan(1)''))"
  by code_simp+

text \<open>
  Without any approved tool, code that calls a method of a value of its own is held back as well,
  while code without a dot runs.
\<close>

lemma builtin_calls_need_approvals:
  "\<not> auto_executable Some open_view [(''2'', git_client)] (run_code ''x.append(1)'')"
  "auto_executable Some open_view [(''2'', git_client)] (run_code ''print(1)'')"
  "auto_executable Some open_view two_clients (run_code ''x.append(1)'')"
  by code_simp+

end
