(* ===== verification/AgentMode.thy ===== *)
theory AgentMode
  imports McpTools Fallbacks Pricing
begin

text \<open>
  The agent mode (core/mcp/agent.go, agentadaptors.go, mcp.go): tools that the model calls are
  executed without asking as far as the settings of their clients allow, the results are sent back
  to the model, and the loop goes on until the model calls no tool, a tool needs the user, or the
  depth is used up. The loop is written against an adapter, here a record of functions; the adapter
  of the chat format is modelled, that of the responses format differs in the conversions of
  core/schemas/mux.go. The world \<open>'w\<close> is whatever model calls and tools change; the manager's clients
  are read from it once per round. The goroutines of a round run in the order that
  \<open>ae_goroutines\<close> gives, each with its log identifier. Token counts do not overflow.
\<close>

subsection \<open>Usage\<close>

record prompt_tokens =
  pt_TextTokens :: int
  pt_AudioTokens :: int
  pt_ImageTokens :: int
  pt_CachedReadTokens :: int
  pt_CachedWriteTokens :: int
  pt_CachedWriteTokenDetails :: "cached_write_details option"

record completion_tokens =
  cp_TextTokens :: int
  cp_AcceptedPredictionTokens :: int
  cp_AudioTokens :: int
  cp_CitationTokens :: "int option"
  cp_NumSearchQueries :: "int option"
  cp_ReasoningTokens :: int
  cp_ImageTokens :: "int option"
  cp_RejectedPredictionTokens :: int

record usage_cost =
  co_InputTokensCost :: float64
  co_OutputTokensCost :: float64
  co_ReasoningTokensCost :: float64
  co_CitationTokensCost :: float64
  co_SearchQueriesCost :: float64
  co_RequestCost :: float64
  co_TotalCost :: float64

record agent_usage =
  au_PromptTokens :: int
  au_PromptTokensDetails :: "prompt_tokens option"
  au_CompletionTokens :: int
  au_CompletionTokensDetails :: "completion_tokens option"
  au_TotalTokens :: int
  au_Cost :: "usage_cost option"

definition no_prompt_tokens :: prompt_tokens where
  "no_prompt_tokens = \<lparr>pt_TextTokens = 0, pt_AudioTokens = 0, pt_ImageTokens = 0, pt_CachedReadTokens = 0,
     pt_CachedWriteTokens = 0, pt_CachedWriteTokenDetails = None\<rparr>"

definition no_completion_tokens :: completion_tokens where
  "no_completion_tokens = \<lparr>cp_TextTokens = 0, cp_AcceptedPredictionTokens = 0, cp_AudioTokens = 0,
     cp_CitationTokens = None, cp_NumSearchQueries = None, cp_ReasoningTokens = 0, cp_ImageTokens = None,
     cp_RejectedPredictionTokens = 0\<rparr>"

definition no_usage_cost :: usage_cost where
  "no_usage_cost = \<lparr>co_InputTokensCost = 0, co_OutputTokensCost = 0, co_ReasoningTokensCost = 0,
     co_CitationTokensCost = 0, co_SearchQueriesCost = 0, co_RequestCost = 0, co_TotalCost = 0\<rparr>"

text \<open>A part that one side has is merged with the zero value of the other.\<close>

definition merge_part :: "'a \<Rightarrow> ('a \<Rightarrow> 'a \<Rightarrow> 'a) \<Rightarrow> 'a option \<Rightarrow> 'a option \<Rightarrow> 'a option" where
  "merge_part z f base add =
     (if base = None \<and> add = None then None
      else Some (f (case base of None \<Rightarrow> z | Some b \<Rightarrow> b) (case add of None \<Rightarrow> z | Some a \<Rightarrow> a)))"

definition merge_prompt_tokens :: "prompt_tokens \<Rightarrow> prompt_tokens \<Rightarrow> prompt_tokens" where
  "merge_prompt_tokens bd ad =
     \<lparr>pt_TextTokens = pt_TextTokens bd + pt_TextTokens ad,
      pt_AudioTokens = pt_AudioTokens bd + pt_AudioTokens ad,
      pt_ImageTokens = pt_ImageTokens bd + pt_ImageTokens ad,
      pt_CachedReadTokens = pt_CachedReadTokens bd + pt_CachedReadTokens ad,
      pt_CachedWriteTokens = pt_CachedWriteTokens bd + pt_CachedWriteTokens ad,
      pt_CachedWriteTokenDetails = None\<rparr>"

definition merge_completion_tokens :: "completion_tokens \<Rightarrow> completion_tokens \<Rightarrow> completion_tokens" where
  "merge_completion_tokens bd ad =
     \<lparr>cp_TextTokens = cp_TextTokens bd + cp_TextTokens ad,
      cp_AcceptedPredictionTokens = cp_AcceptedPredictionTokens bd + cp_AcceptedPredictionTokens ad,
      cp_AudioTokens = cp_AudioTokens bd + cp_AudioTokens ad,
      cp_CitationTokens = merge_part 0 (+) (cp_CitationTokens bd) (cp_CitationTokens ad),
      cp_NumSearchQueries = merge_part 0 (+) (cp_NumSearchQueries bd) (cp_NumSearchQueries ad),
      cp_ReasoningTokens = cp_ReasoningTokens bd + cp_ReasoningTokens ad,
      cp_ImageTokens = merge_part 0 (+) (cp_ImageTokens bd) (cp_ImageTokens ad),
      cp_RejectedPredictionTokens = cp_RejectedPredictionTokens bd + cp_RejectedPredictionTokens ad\<rparr>"

definition merge_cost :: "usage_cost \<Rightarrow> usage_cost \<Rightarrow> usage_cost" where
  "merge_cost bc ac =
     \<lparr>co_InputTokensCost = co_InputTokensCost bc + co_InputTokensCost ac,
      co_OutputTokensCost = co_OutputTokensCost bc + co_OutputTokensCost ac,
      co_ReasoningTokensCost = co_ReasoningTokensCost bc + co_ReasoningTokensCost ac,
      co_CitationTokensCost = co_CitationTokensCost bc + co_CitationTokensCost ac,
      co_SearchQueriesCost = co_SearchQueriesCost bc + co_SearchQueriesCost ac,
      co_RequestCost = co_RequestCost bc + co_RequestCost ac,
      co_TotalCost = co_TotalCost bc + co_TotalCost ac\<rparr>"

definition mergeUsage :: "agent_usage option \<Rightarrow> agent_usage option \<Rightarrow> agent_usage option" where
  "mergeUsage base add =
     (case add of
        None \<Rightarrow> base
      | Some a \<Rightarrow>
          (case base of
             None \<Rightarrow> Some a
           | Some b \<Rightarrow> Some
               \<lparr>au_PromptTokens = au_PromptTokens b + au_PromptTokens a,
                au_PromptTokensDetails = merge_part no_prompt_tokens merge_prompt_tokens
                  (au_PromptTokensDetails b) (au_PromptTokensDetails a),
                au_CompletionTokens = au_CompletionTokens b + au_CompletionTokens a,
                au_CompletionTokensDetails = merge_part no_completion_tokens merge_completion_tokens
                  (au_CompletionTokensDetails b) (au_CompletionTokensDetails a),
                au_TotalTokens = au_TotalTokens b + au_TotalTokens a,
                au_Cost = merge_part no_usage_cost merge_cost (au_Cost b) (au_Cost a)\<rparr>))"

subsection \<open>Messages and responses\<close>

record msg_block =
  bk_Type :: string
  bk_Text :: "string option"

record msg_content =
  mt_Str :: "string option"
  mt_Blocks :: "msg_block list option"

text \<open>
  \<open>cm_Tool\<close> is the part of a tool's answer, with the identifier of its call; \<open>cm_ToolCalls\<close> is the
  part of an assistant.
\<close>

record chat_message =
  cm_Role :: string
  cm_Content :: "msg_content option"
  cm_Tool :: "string option option"
  cm_ToolCalls :: "tool_call list option"

record chat_choice =
  ch_FinishReason :: "string option"
  ch_Message :: "chat_message option"

record chat_response =
  rp_Model :: string
  rp_Speed :: "string option"
  rp_Choices :: "chat_choice list"
  rp_Usage :: "agent_usage option"
  rp_ExtraFields :: extra

record 'p chat_request =
  cq_Provider :: string
  cq_Model :: string
  cq_Fallbacks :: "fallback list"
  cq_Params :: "'p option"
  cq_Input :: "chat_message list"
  cq_RawRequestBody :: string

definition choice_calls :: "chat_choice \<Rightarrow> tool_call list" where
  "choice_calls ch =
     (case ch_Message ch of
        None \<Rightarrow> []
      | Some msg \<Rightarrow> (case cm_ToolCalls msg of None \<Rightarrow> [] | Some calls \<Rightarrow> calls))"

definition hasToolCallsForChatResponse :: "chat_response option \<Rightarrow> bool" where
  "hasToolCallsForChatResponse response =
     (case response of
        None \<Rightarrow> False
      | Some r \<Rightarrow> list_ex (\<lambda>ch. ch_FinishReason ch = Some ''tool_calls'' \<or> choice_calls ch \<noteq> []) (rp_Choices r))"

definition extractToolCalls :: "chat_response \<Rightarrow> tool_call list" where
  "extractToolCalls r =
     (if \<not> hasToolCallsForChatResponse (Some r) then [] else concat (map choice_calls (rp_Choices r)))"

definition createToolResultMessage :: "tool_call \<Rightarrow> string \<Rightarrow> string option \<Rightarrow> chat_message" where
  "createToolResultMessage call result err =
     (let content = (case err of
            None \<Rightarrow> result
          | Some e \<Rightarrow> ''Error executing tool '' @ (case fc_Name call of Some n \<Rightarrow> n | None \<Rightarrow> ''unknown'') @ '': '' @ e)
      in \<lparr>cm_Role = ''tool'', cm_Content = Some \<lparr>mt_Str = Some content, mt_Blocks = None\<rparr>,
          cm_Tool = Some (fc_ID call), cm_ToolCalls = None\<rparr>)"

subsection \<open>The adapter of the chat format\<close>

record ('req, 'resp, 'msg) api_adapter =
  ad_getConversationHistory :: "'req \<Rightarrow> 'msg list"
  ad_extractToolCalls :: "'resp \<Rightarrow> tool_call list"
  ad_addAssistantMessage :: "'msg list \<Rightarrow> 'resp \<Rightarrow> 'msg list"
  ad_addToolResults :: "'msg list \<Rightarrow> chat_message list \<Rightarrow> 'msg list"
  ad_createNewRequest :: "'req \<Rightarrow> 'msg list \<Rightarrow> 'req"
  ad_createResponse :: "'resp \<Rightarrow> chat_message list \<Rightarrow> tool_call list \<Rightarrow> tool_call list \<Rightarrow> 'resp"
  ad_extractUsage :: "'resp \<Rightarrow> agent_usage option"
  ad_applyUsage :: "'resp \<Rightarrow> agent_usage option \<Rightarrow> 'resp"

datatype tool_output = NoOutput | TextOutput string | BlockOutput "msg_block list"

definition result_output :: "chat_message \<Rightarrow> tool_output" where
  "result_output msg =
     (case cm_Content msg of
        None \<Rightarrow> NoOutput
      | Some c \<Rightarrow>
          (case mt_Str c of
             Some s \<Rightarrow> TextOutput s
           | None \<Rightarrow> (case mt_Blocks c of Some bs \<Rightarrow> BlockOutput bs | None \<Rightarrow> NoOutput)))"

definition call_names :: "tool_call list \<Rightarrow> string smap" where
  "call_names calls = fold (\<lambda>call ns. case (fc_ID call, fc_Name call) of
       (Some i, Some n) \<Rightarrow> sm_store i n ns | _ \<Rightarrow> ns) calls []"

definition result_name :: "string smap \<Rightarrow> chat_message \<Rightarrow> string" where
  "result_name names msg =
     (case cm_Tool msg of
        Some (Some i) \<Rightarrow> (case sm_load names i of Some n \<Rightarrow> n | None \<Rightarrow> i)
      | _ \<Rightarrow> ''unknown_tool'')"

text \<open>Two results under one name are one entry of the summary, the later one.\<close>

definition results_map :: "string smap \<Rightarrow> chat_message list \<Rightarrow> tool_output smap" where
  "results_map names results = fold (\<lambda>msg acc. sm_store (result_name names msg) (result_output msg) acc) results []"

text \<open>\<open>marshal\<close> writes the summary as JSON, \<open>show_map\<close> is the fallback for what has no JSON form.\<close>

definition createChatResponse ::
  "(tool_output smap \<Rightarrow> string option) \<Rightarrow> (tool_output smap \<Rightarrow> string) \<Rightarrow>
   chat_response \<Rightarrow> chat_message list \<Rightarrow> tool_call list \<Rightarrow> tool_call list \<Rightarrow> chat_response" where
  "createChatResponse marshal show_map original results executed manual =
     (let names = call_names executed;
          summary = results_map names results;
          text = (if results = [] then ''Now I shall call these tools next...''
                  else ''The Output from allowed tools calls is - '' @
                    (case marshal summary of Some j \<Rightarrow> j | None \<Rightarrow> show_map summary) @
                    [char_of (10 :: nat), char_of (10 :: nat)] @ ''Now I shall call these tools next...'')
      in \<lparr>rp_Model = rp_Model original, rp_Speed = None,
          rp_Choices = [\<lparr>ch_FinishReason = Some ''stop'',
            ch_Message = Some \<lparr>cm_Role = ''assistant'', cm_Content = Some \<lparr>mt_Str = Some text, mt_Blocks = None\<rparr>,
              cm_Tool = None, cm_ToolCalls = Some manual\<rparr>\<rparr>],
          rp_Usage = rp_Usage original, rp_ExtraFields = rp_ExtraFields original\<rparr>)"

definition chatAPIAdapter ::
  "(tool_output smap \<Rightarrow> string option) \<Rightarrow> (tool_output smap \<Rightarrow> string) \<Rightarrow>
   ('p chat_request, chat_response, chat_message) api_adapter" where
  "chatAPIAdapter marshal show_map =
     \<lparr>ad_getConversationHistory = cq_Input,
      ad_extractToolCalls = extractToolCalls,
      ad_addAssistantMessage = (\<lambda>hist r. hist @ List.map_filter ch_Message (rp_Choices r)),
      ad_addToolResults = (@),
      ad_createNewRequest = (\<lambda>req hist. req\<lparr>cq_Input := hist, cq_RawRequestBody := []\<rparr>),
      ad_createResponse = createChatResponse marshal show_map,
      ad_extractUsage = rp_Usage,
      ad_applyUsage = (\<lambda>r u. r\<lparr>rp_Usage := u\<rparr>)\<rparr>"

subsection \<open>The loop\<close>

definition KeyAgentOriginalRequestID :: string where
  "KeyAgentOriginalRequestID = ''unifai-mcp-agent-original-request-id''"
definition KeyMCPLogID :: string where "KeyMCPLogID = ''unifai-mcp-log-id''"

text \<open>The answer of a tool: an error, the demand of a sign-in, or a response with or without a message.\<close>

datatype tool_outcome = ToolFailed string | AuthNeeded string | ToolDone "chat_message option"

record ('w, 'req, 'resp) agent_env =
  ae_makeReq :: "uctx \<Rightarrow> 'req \<Rightarrow> 'w \<Rightarrow> (core_error + 'resp option) \<times> uctx \<times> 'w"
  ae_fetchNewRequestID :: "(uctx \<Rightarrow> 'w \<Rightarrow> string \<times> 'w) option"
  ae_executeTool :: "uctx \<Rightarrow> tool_call \<Rightarrow> 'w \<Rightarrow> tool_outcome \<times> 'w"
  ae_clients :: "'w \<Rightarrow> client_map"
  ae_goroutines :: "nat \<Rightarrow> tool_call list \<Rightarrow> (string \<times> tool_call) list"
  ae_codeOf :: code_reader

datatype 'resp agent_answer = AgentAnswer 'resp | AgentFailed core_error | AgentCrashed

record ('w, 'resp, 'msg) agent_state =
  as_Ctx :: uctx
  as_World :: 'w
  as_History :: "'msg list"
  as_Results :: "chat_message list"
  as_Calls :: "tool_call list"
  as_Usage :: "agent_usage option"
  as_Response :: 'resp

text \<open>The context of one tool call is derived from that of the loop.\<close>

definition tool_ctx :: "uctx \<Rightarrow> string \<Rightarrow> uctx" where
  "tool_ctx c logID = \<lparr>uc_values = [(KeyMCPLogID, CStr logID)], uc_blocked = False, uc_parent = uc_Value c\<rparr>"

definition tool_message :: "tool_call \<Rightarrow> tool_outcome \<Rightarrow> chat_message" where
  "tool_message call outcome =
     (case outcome of
        ToolFailed e \<Rightarrow> createToolResultMessage call [] (Some e)
      | AuthNeeded m \<Rightarrow> createToolResultMessage call [] (Some m)
      | ToolDone (Some msg) \<Rightarrow> msg
      | ToolDone None \<Rightarrow> createToolResultMessage call [] None)"

text \<open>The results in the order of their arrival, and the first demand of a sign-in.\<close>

fun run_tools ::
  "(uctx \<Rightarrow> tool_call \<Rightarrow> 'w \<Rightarrow> tool_outcome \<times> 'w) \<Rightarrow> uctx \<Rightarrow> (string \<times> tool_call) list \<Rightarrow> 'w \<Rightarrow>
   chat_message list \<times> string option \<times> 'w" where
  "run_tools exec c [] w = ([], None, w)"
| "run_tools exec c ((logID, call) # rest) w =
     (case exec (tool_ctx c logID) call w of
        (outcome, w1) \<Rightarrow>
          (case run_tools exec c rest w1 of
             (msgs, auth, w2) \<Rightarrow>
               (tool_message call outcome # msgs, (case outcome of AuthNeeded m \<Rightarrow> Some m | _ \<Rightarrow> auth), w2)))"

text \<open>The details of the sign-in, which the error carries beside its message, are left out.\<close>

definition auth_error :: "string \<Rightarrow> core_error" where
  "auth_error m = \<lparr>er_Type = None, er_IsUnifAIError = True, er_StatusCode = Some 401,
     er_Error = Some \<lparr>ef_Type = Some ''mcp_auth_required'', ef_Code = None, ef_Message = m, ef_Error = None\<rparr>,
     er_AllowFallbacks = None, er_ExtraFields = no_extra\<rparr>"

definition auto_calls :: "('w, 'req, 'resp) agent_env \<Rightarrow> uctx \<Rightarrow> 'w \<Rightarrow> tool_call \<Rightarrow> bool" where
  "auto_calls e c w = auto_executable (ae_codeOf e) (uc_Value c) (ae_clients e w)"

text \<open>The tools of a round: \<open>Inl\<close> is the demand of a sign-in, which ends the loop.\<close>

definition execute_round ::
  "('w, 'req, 'resp) agent_env \<Rightarrow> ('req, 'resp, 'msg) api_adapter \<Rightarrow> nat \<Rightarrow> tool_call list \<Rightarrow>
   ('w, 'resp, 'msg) agent_state \<Rightarrow> (string \<times> 'w) + ('w, 'resp, 'msg) agent_state" where
  "execute_round e ad depth auto s =
     (if auto = [] then Inr s
      else case run_tools (ae_executeTool e) (as_Ctx s) (ae_goroutines e depth auto) (as_World s) of
             (msgs, Some m, w) \<Rightarrow> Inl (m, w)
           | (msgs, None, w) \<Rightarrow> Inr (s\<lparr>as_World := w,
               as_Results := as_Results s @ msgs, as_Calls := as_Calls s @ auto,
               as_History := ad_addToolResults ad (ad_addAssistantMessage ad (as_History s) (as_Response s)) msgs\<rparr>))"

text \<open>The next question to the model; its answer may be nil, on which reading the usage panics.\<close>

definition ask_again ::
  "('w, 'req, 'resp) agent_env \<Rightarrow> ('req, 'resp, 'msg) api_adapter \<Rightarrow> 'req \<Rightarrow> ('w, 'resp, 'msg) agent_state \<Rightarrow>
   ('resp agent_answer \<times> uctx \<times> 'w) + ('w, 'resp, 'msg) agent_state" where
  "ask_again e ad req s =
     (let newReq = ad_createNewRequest ad req (as_History s);
          (c, w) = (case ae_fetchNewRequestID e of
              None \<Rightarrow> (as_Ctx s, as_World s)
            | Some f \<Rightarrow> (case f (as_Ctx s) (as_World s) of (newID, w1) \<Rightarrow>
                (if newID \<noteq> [] then uc_SetValue KeyRequestID (CStr newID) (as_Ctx s) else as_Ctx s, w1)))
      in case ae_makeReq e c newReq w of
           (Inl err, c2, w2) \<Rightarrow> Inl (AgentFailed err, c2, w2)
         | (Inr None, c2, w2) \<Rightarrow> Inl (AgentCrashed, c2, w2)
         | (Inr (Some r), c2, w2) \<Rightarrow> Inr (s\<lparr>as_Ctx := c2, as_World := w2, as_Response := r,
             as_Usage := mergeUsage (as_Usage s) (ad_extractUsage ad r)\<rparr>))"

definition agent_round ::
  "('w, 'req, 'resp) agent_env \<Rightarrow> ('req, 'resp, 'msg) api_adapter \<Rightarrow> 'req \<Rightarrow> nat \<Rightarrow> tool_call list \<Rightarrow>
   ('w, 'resp, 'msg) agent_state \<Rightarrow> ('resp agent_answer \<times> uctx \<times> 'w) + ('w, 'resp, 'msg) agent_state" where
  "agent_round e ad req depth calls s =
     (let auto = filter (auto_calls e (as_Ctx s) (as_World s)) calls;
          manual = filter (\<lambda>call. \<not> auto_calls e (as_Ctx s) (as_World s) call) calls
      in case execute_round e ad depth auto s of
           Inl (m, w) \<Rightarrow> Inl (AgentFailed (auth_error m), as_Ctx s, w)
         | Inr s1 \<Rightarrow>
             if manual \<noteq> [] then
               (if depth = 1 \<and> as_Results s1 = [] then Inl (AgentAnswer (as_Response s1), as_Ctx s1, as_World s1)
                else Inl (AgentAnswer (ad_createResponse ad (ad_applyUsage ad (as_Response s1) (as_Usage s1))
                       (as_Results s1) (as_Calls s1) manual), as_Ctx s1, as_World s1))
             else ask_again e ad req s1)"

text \<open>The number of rounds left counts down from the maximal depth, \<open>depth\<close> counts up.\<close>

fun agent_loop ::
  "('w, 'req, 'resp) agent_env \<Rightarrow> ('req, 'resp, 'msg) api_adapter \<Rightarrow> 'req \<Rightarrow> nat \<Rightarrow> nat \<Rightarrow>
   ('w, 'resp, 'msg) agent_state \<Rightarrow> 'resp agent_answer \<times> uctx \<times> 'w" where
  "agent_loop e ad req 0 depth s =
     (AgentAnswer (ad_applyUsage ad (as_Response s) (as_Usage s)), as_Ctx s, as_World s)"
| "agent_loop e ad req (Suc left) depth s =
     (let calls = ad_extractToolCalls ad (as_Response s) in
      if calls = [] then (AgentAnswer (ad_applyUsage ad (as_Response s) (as_Usage s)), as_Ctx s, as_World s)
      else case agent_round e ad req (Suc depth) calls s of
             Inl x \<Rightarrow> x
           | Inr s' \<Rightarrow> agent_loop e ad req left (Suc depth) s')"

definition executeAgent ::
  "('w, 'req, 'resp) agent_env \<Rightarrow> ('req, 'resp, 'msg) api_adapter \<Rightarrow> int \<Rightarrow> uctx \<Rightarrow> 'req \<Rightarrow> 'resp \<Rightarrow> 'w \<Rightarrow>
   'resp agent_answer \<times> uctx \<times> 'w" where
  "executeAgent e ad maxAgentDepth c req initial w =
     agent_loop e ad req (nat maxAgentDepth) 0
       \<lparr>as_Ctx = (case uc_Value c KeyRequestID of
            CStr rid \<Rightarrow> uc_SetValue KeyAgentOriginalRequestID (CStr rid) c | _ \<Rightarrow> c),
        as_World = w, as_History = ad_getConversationHistory ad req, as_Results = [], as_Calls = [],
        as_Usage = ad_extractUsage ad initial, as_Response = initial\<rparr>"

text \<open>The entry for chat requests; a response without tool calls passes unchanged, a nil one included.\<close>

definition CheckAndExecuteAgentForChatRequest ::
  "('w, 'p chat_request, chat_response) agent_env \<Rightarrow> ('p chat_request, chat_response, chat_message) api_adapter \<Rightarrow>
   int \<Rightarrow> uctx \<Rightarrow> 'p chat_request \<Rightarrow> chat_response option \<Rightarrow> 'w \<Rightarrow> chat_response option agent_answer \<times> uctx \<times> 'w" where
  "CheckAndExecuteAgentForChatRequest e ad maxAgentDepth c req response w =
     (case response of
        Some r \<Rightarrow>
          if hasToolCallsForChatResponse (Some r) then
            (case executeAgent e ad maxAgentDepth c req r w of
               (AgentAnswer x, c1, w1) \<Rightarrow> (AgentAnswer (Some x), c1, w1)
             | (AgentFailed err, c1, w1) \<Rightarrow> (AgentFailed err, c1, w1)
             | (AgentCrashed, c1, w1) \<Rightarrow> (AgentCrashed, c1, w1))
          else (AgentAnswer response, c, w)
      | None \<Rightarrow> (AgentAnswer None, c, w))"

text \<open>A chat request to the client: \<open>hasMCP\<close> says whether tool servers are configured.\<close>

definition ChatCompletionRequest ::
  "bool \<Rightarrow> ('w, 'p chat_request, chat_response) agent_env \<Rightarrow> ('p chat_request, chat_response, chat_message) api_adapter \<Rightarrow>
   int \<Rightarrow> uctx \<Rightarrow> 'p chat_request \<Rightarrow> 'w \<Rightarrow> chat_response option agent_answer \<times> uctx \<times> 'w" where
  "ChatCompletionRequest hasMCP e ad maxAgentDepth c req w =
     (case ae_makeReq e c req w of
        (Inl err, c1, w1) \<Rightarrow> (AgentFailed err, c1, w1)
      | (Inr r, c1, w1) \<Rightarrow>
          if hasMCP then CheckAndExecuteAgentForChatRequest e ad maxAgentDepth c1 req r w1
          else (AgentAnswer r, c1, w1))"

subsection \<open>What a round does\<close>

lemma run_tools_world:
  assumes "\<And>logID call w. (logID, call) \<in> set gs \<Longrightarrow> I w \<Longrightarrow> I (snd (exec (tool_ctx c logID) call w))"
  shows "I w \<Longrightarrow> I (snd (snd (run_tools exec c gs w)))"
  using assms
proof (induction exec c gs w rule: run_tools.induct)
  case (2 exec c logID call rest w)
  obtain outcome w1 where x: "exec (tool_ctx c logID) call w = (outcome, w1)" by fastforce
  then have "I w1" using "2.prems" by (metis list.set_intros(1) snd_conv)
  moreover have "\<And>l k v. (l, k) \<in> set rest \<Longrightarrow> I v \<Longrightarrow> I (snd (exec (tool_ctx c l) k v))"
    using "2.prems"(2) by simp
  ultimately have "I (snd (snd (run_tools exec c rest w1)))" using "2.IH" [OF x [symmetric]] by blast
  then show ?case by (auto simp: x split: prod.split)
qed simp

lemma execute_round_world:
  assumes tools: "\<And>logID call w. (logID, call) \<in> set (ae_goroutines e depth auto) \<Longrightarrow> I w \<Longrightarrow>
      I (snd (ae_executeTool e (tool_ctx (as_Ctx s) logID) call w))"
    and "I (as_World s)"
  shows "case execute_round e ad depth auto s of
      Inl (m, w) \<Rightarrow> I w
    | Inr s1 \<Rightarrow> I (as_World s1) \<and> as_Ctx s1 = as_Ctx s \<and> as_Usage s1 = as_Usage s \<and> as_Response s1 = as_Response s"
  using run_tools_world [of "ae_goroutines e depth auto" I "ae_executeTool e" "as_Ctx s", OF tools assms(2)] assms(2)
  by (auto simp: execute_round_def split: prod.splits option.splits)

text \<open>
  One round with its calls: \<open>I\<close> is kept by the tools and by the request identifiers, \<open>J\<close> holds after
  the model was asked.
\<close>

lemma agent_round_world:
  assumes tools: "\<And>logID call w. call \<in> set calls \<Longrightarrow> auto_calls e (as_Ctx s) (as_World s) call \<Longrightarrow> I w \<Longrightarrow>
      I (snd (ae_executeTool e (tool_ctx (as_Ctx s) logID) call w))"
    and gos: "\<And>d cs. set (map snd (ae_goroutines e d cs)) \<subseteq> set cs"
    and fetch: "\<And>f c w. ae_fetchNewRequestID e = Some f \<Longrightarrow> I w \<Longrightarrow> I (snd (f c w))"
    and model: "\<And>c q w. I w \<Longrightarrow> J (fst (ae_makeReq e c q w)) (snd (snd (ae_makeReq e c q w)))"
    and "I (as_World s)"
  shows "case agent_round e ad req depth calls s of
      Inl (AgentAnswer r, c, w) \<Rightarrow> I w
    | Inl (AgentFailed err, c, w) \<Rightarrow> I w \<or> J (Inl err) w
    | Inl (AgentCrashed, c, w) \<Rightarrow> J (Inr None) w
    | Inr s' \<Rightarrow> J (Inr (Some (as_Response s'))) (as_World s') \<and>
        as_Usage s' = mergeUsage (as_Usage s) (ad_extractUsage ad (as_Response s'))"
proof -
  let ?auto = "filter (auto_calls e (as_Ctx s) (as_World s)) calls"
  have "I (snd (ae_executeTool e (tool_ctx (as_Ctx s) logID) call w))"
    if "(logID, call) \<in> set (ae_goroutines e depth ?auto)" "I w" for logID call w
    using that tools gos [of depth ?auto] by force
  from execute_round_world [OF this assms(5), where ad = ad]
  have round: "case execute_round e ad depth ?auto s of
      Inl (m, w) \<Rightarrow> I w
    | Inr s1 \<Rightarrow> I (as_World s1) \<and> as_Ctx s1 = as_Ctx s \<and> as_Usage s1 = as_Usage s \<and> as_Response s1 = as_Response s" .
  have ask: "case ask_again e ad req s1 of
      Inl (AgentAnswer r, c, w) \<Rightarrow> I w
    | Inl (AgentFailed err, c, w) \<Rightarrow> J (Inl err) w
    | Inl (AgentCrashed, c, w) \<Rightarrow> J (Inr None) w
    | Inr s' \<Rightarrow> J (Inr (Some (as_Response s'))) (as_World s') \<and>
        as_Usage s' = mergeUsage (as_Usage s1) (ad_extractUsage ad (as_Response s'))" if "I (as_World s1)" for s1
  proof -
    obtain c w where cw: "(case ae_fetchNewRequestID e of
              None \<Rightarrow> (as_Ctx s1, as_World s1)
            | Some f \<Rightarrow> (case f (as_Ctx s1) (as_World s1) of (newID, w1) \<Rightarrow>
                (if newID \<noteq> [] then uc_SetValue KeyRequestID (CStr newID) (as_Ctx s1) else as_Ctx s1, w1))) = (c, w)"
      by fastforce
    have "I w"
    proof (cases "ae_fetchNewRequestID e")
      case (Some f)
      with cw have "w = snd (f (as_Ctx s1) (as_World s1))" by (simp split: prod.splits)
      with fetch [OF Some that] show ?thesis by simp
    qed (use cw that in simp)
    from model [OF this, of c "ad_createNewRequest ad req (as_History s1)"] show ?thesis
      unfolding ask_again_def Let_def cw by (auto split: prod.splits sum.splits option.splits)
  qed
  show ?thesis
  proof (cases "execute_round e ad depth ?auto s")
    case (Inl mw)
    with round show ?thesis by (cases mw) (simp add: agent_round_def Let_def)
  next
    case (Inr s1)
    with round have s1: "I (as_World s1)" "as_Usage s1 = as_Usage s" by simp_all
    show ?thesis
      using ask [OF s1(1)] s1
      by (auto simp: agent_round_def Let_def Inr split: sum.splits agent_answer.splits)
  qed
qed

fun after_round :: "('resp agent_answer \<times> uctx \<times> 'w) + ('w, 'resp, 'msg) agent_state \<Rightarrow> 'w" where
  "after_round (Inl (a, c, w)) = w"
| "after_round (Inr s) = as_World s"

lemma agent_round_keeps:
  assumes "\<And>logID call w. call \<in> set calls \<Longrightarrow> auto_calls e (as_Ctx s) (as_World s) call \<Longrightarrow> I w \<Longrightarrow>
      I (snd (ae_executeTool e (tool_ctx (as_Ctx s) logID) call w))"
    and "\<And>d cs. set (map snd (ae_goroutines e d cs)) \<subseteq> set cs"
    and "\<And>f c w. ae_fetchNewRequestID e = Some f \<Longrightarrow> I w \<Longrightarrow> I (snd (f c w))"
    and "\<And>c q w. I w \<Longrightarrow> K (snd (snd (ae_makeReq e c q w)))" "\<And>w. I w \<Longrightarrow> K w" "I (as_World s)"
  shows "K (after_round (agent_round e ad req depth calls s))"
proof -
  have facts: "case agent_round e ad req depth calls s of
      Inl (AgentAnswer r, c, w) \<Rightarrow> I w
    | Inl (AgentFailed err, c, w) \<Rightarrow> I w \<or> K w
    | Inl (AgentCrashed, c, w) \<Rightarrow> K w
    | Inr s' \<Rightarrow> K (as_World s') \<and> as_Usage s' = mergeUsage (as_Usage s) (ad_extractUsage ad (as_Response s'))"
    by (rule agent_round_world [where I = I and J = "\<lambda>_. K"]) (fact assms)+
  show ?thesis
  proof (cases "agent_round e ad req depth calls s")
    case (Inl x)
    obtain a c w where "x = (a, c, w)" by (metis prod_cases3)
    with Inl facts assms(5) show ?thesis by (cases a) auto
  next
    case (Inr s')
    with facts show ?thesis by simp
  qed
qed

lemma agent_loop_rule:
  assumes stop: "\<And>d s. P d s \<Longrightarrow> Q (AgentAnswer (ad_applyUsage ad (as_Response s) (as_Usage s)), as_Ctx s, as_World s)"
    and last: "\<And>d s x. P d s \<Longrightarrow> d < n \<Longrightarrow> agent_round e ad req (Suc d) (ad_extractToolCalls ad (as_Response s)) s = Inl x \<Longrightarrow> Q x"
    and step: "\<And>d s s'. P d s \<Longrightarrow> d < n \<Longrightarrow>
      agent_round e ad req (Suc d) (ad_extractToolCalls ad (as_Response s)) s = Inr s' \<Longrightarrow> P (Suc d) s'"
  shows "P d s \<Longrightarrow> d + left \<le> n \<Longrightarrow> Q (agent_loop e ad req left d s)"
proof (induction left arbitrary: d s)
  case 0
  then show ?case by (simp add: stop)
next
  case (Suc left)
  let ?calls = "ad_extractToolCalls ad (as_Response s)"
  show ?case
  proof (cases "?calls = []")
    case True
    then show ?thesis using Suc.prems by (simp add: stop)
  next
    case False
    show ?thesis
    proof (cases "agent_round e ad req (Suc d) ?calls s")
      case (Inl x)
      with last [OF Suc.prems(1) _ Inl] Suc.prems(2) False show ?thesis by simp
    next
      case (Inr s')
      have "P (Suc d) s'" using step [OF Suc.prems(1) _ Inr] Suc.prems(2) by simp
      then have "Q (agent_loop e ad req left (Suc d) s')" using Suc.IH Suc.prems(2) by simp
      with Inr False show ?thesis by simp
    qed
  qed
qed

lemma executeAgent_world:
  fixes e :: "('w, 'req, 'resp) agent_env" and ad :: "('req, 'resp, 'msg) api_adapter"
  assumes round: "\<And>d s. P d (as_World s) \<Longrightarrow> d < nat maxAgentDepth \<Longrightarrow>
      P (Suc d) (after_round (agent_round e ad req (Suc d) (ad_extractToolCalls ad (as_Response s)) s))"
    and final: "\<And>d w. P d w \<Longrightarrow> d \<le> nat maxAgentDepth \<Longrightarrow> R w" and "P 0 w"
  shows "R (snd (snd (executeAgent e ad maxAgentDepth c req initial w)))"
  unfolding executeAgent_def
proof (rule agent_loop_rule [where P = "\<lambda>d s. d \<le> nat maxAgentDepth \<and> P d (as_World s)"
      and Q = "\<lambda>x. R (snd (snd x))" and n = "nat maxAgentDepth"])
  fix d and s :: "('w, 'resp, 'msg) agent_state" and x
  assume "d \<le> nat maxAgentDepth \<and> P d (as_World s)" "d < nat maxAgentDepth"
    "agent_round e ad req (Suc d) (ad_extractToolCalls ad (as_Response s)) s = Inl x"
  with round [of d s] show "R (snd (snd x))"
    using final [of "Suc d"] by (cases x rule: prod_cases3) auto
next
  fix d and s s' :: "('w, 'resp, 'msg) agent_state"
  assume "d \<le> nat maxAgentDepth \<and> P d (as_World s)" "d < nat maxAgentDepth"
    "agent_round e ad req (Suc d) (ad_extractToolCalls ad (as_Response s)) s = Inr s'"
  with round [of d s] show "Suc d \<le> nat maxAgentDepth \<and> P (Suc d) (as_World s')" by simp
qed (use assms(3) final in auto)

subsection \<open>Only approved tools run\<close>

definition listed_for :: "WhiteList \<Rightarrow> mcp_client \<Rightarrow> string \<Rightarrow> bool" where
  "listed_for wl cl t \<longleftrightarrow> wl_IsAllowed wl (stripClientPrefix t (mc_Name (cl_ExecutionConfig cl)))"

text \<open>
  What the settings approve, stated without the code's order of checks: a tool that is on both
  lists of a client that has it, a read-only tool of the code mode, or code whose recognised calls
  go to approved tools.
\<close>

definition approved_code :: "code_reader \<Rightarrow> view \<Rightarrow> client_map \<Rightarrow> string \<Rightarrow> bool" where
  "approved_code code_of v m arguments \<longleftrightarrow>
     (\<exists>code. code_of arguments = Some code \<and>
       (\<forall>server tool cl. (server, tool) \<in> set (extractToolCallsFromCode code) \<longrightarrow>
         sm_load (GetToolPerClient v m) server \<noteq> None \<longrightarrow> GetClientByName m server = Some cl \<longrightarrow>
         mc_IsCodeModeClient (cl_ExecutionConfig cl) \<and>
         (wl_IsUnrestricted (mc_ToolsToAutoExecute (cl_ExecutionConfig cl)) \<or>
          tool \<in> (parseToolName \<circ> underscores) ` set (mc_ToolsToAutoExecute (cl_ExecutionConfig cl)))))"

definition approved :: "code_reader \<Rightarrow> view \<Rightarrow> client_map \<Rightarrow> tool_call \<Rightarrow> bool" where
  "approved code_of v m call \<longleftrightarrow>
     (\<exists>t. fc_Name call = Some t \<and>
       ((\<exists>cl \<in> snd ` set m. sm_load (cl_ToolMap cl) t \<noteq> None \<and>
           listed_for (mc_ToolsToExecute (cl_ExecutionConfig cl)) cl t \<and>
           listed_for (mc_ToolsToAutoExecute (cl_ExecutionConfig cl)) cl t) \<or>
        t \<in> {''listToolFiles'', ''readToolFile'', ''getToolDocs''} \<or>
        (t = ''executeToolCode'' \<and> approved_code code_of v m (fc_Arguments call))))"

lemma canAutoExecuteTool_listed:
  "canAutoExecuteTool t (cl_ExecutionConfig cl) \<Longrightarrow>
   listed_for (mc_ToolsToExecute (cl_ExecutionConfig cl)) cl t \<and>
   listed_for (mc_ToolsToAutoExecute (cl_ExecutionConfig cl)) cl t"
  by (auto simp: canAutoExecuteTool_def shouldSkipToolForConfig_def listed_for_def wl_IsAllowed_def split: if_splits)

lemma auto_executable_approved:
  assumes "auto_executable code_of v m call"
  shows "approved code_of v m call"
proof -
  obtain t where t: "fc_Name call = Some t" using assms by (auto simp: auto_executable_def split: option.splits)
  show ?thesis
  proof (cases "GetClientForTool m t")
    case (Some cl)
    with assms t have "canAutoExecuteTool t (cl_ExecutionConfig cl)" by (simp add: auto_executable_def)
    with GetClientForTool_SomeD [OF Some] canAutoExecuteTool_listed t show ?thesis
      unfolding approved_def by blast
  next
    case None
    show ?thesis
    proof (cases "t \<in> {''listToolFiles'', ''readToolFile'', ''getToolDocs''}")
      case False
      then have c: "t = ''executeToolCode''" "code_executable code_of v m (fc_Arguments call)"
        using assms t None by (auto simp: auto_executable_def split: if_splits)
      then obtain src where "code_of (fc_Arguments call) = Some src" by (auto simp: code_executable_def split: option.splits)
      then have "approved_code code_of v m (fc_Arguments call)"
        using code_executable_approves [OF c(2)] unfolding approved_code_def by blast
      with t c(1) show ?thesis by (simp add: approved_def)
    qed (use t in \<open>auto simp: approved_def\<close>)
  qed
qed

text \<open>
  C7. Whatever the model answers, the agent loop executes only tools that the settings approve for
  execution without asking: every property of the world that is kept by the calls of the model and
  by the execution of an approved tool, approved by the clients as they stand when the round begins,
  is kept by the whole loop.
\<close>

theorem agent_runs_approved_tools:
  assumes "\<And>c q w. I w \<Longrightarrow> I (snd (snd (ae_makeReq e c q w)))"
    and "\<And>f c w. ae_fetchNewRequestID e = Some f \<Longrightarrow> I w \<Longrightarrow> I (snd (f c w))"
    and "\<And>c logID call w w0. I w0 \<Longrightarrow> approved (ae_codeOf e) (uc_Value c) (ae_clients e w0) call \<Longrightarrow> I w \<Longrightarrow>
      I (snd (ae_executeTool e (tool_ctx c logID) call w))"
    and "\<And>d cs. set (map snd (ae_goroutines e d cs)) \<subseteq> set cs"
    and "I w"
  shows "I (snd (snd (executeAgent e ad maxAgentDepth c req initial w)))"
proof -
  have round: "I (after_round (agent_round e ad req d calls s))" if "I (as_World s)" for d calls s
  proof (rule agent_round_keeps [where I = I])
    show "I (snd (ae_executeTool e (tool_ctx (as_Ctx s) logID) call v))"
      if "auto_calls e (as_Ctx s) (as_World s) call" "I v" for logID call v
      using assms(3) [OF \<open>I (as_World s)\<close> auto_executable_approved] that by (simp add: auto_calls_def)
  qed (use assms(1,2,4) that in auto)
  show ?thesis
    by (rule executeAgent_world [where P = "\<lambda>_. I" and R = I]) (use round assms(5) in auto)
qed

subsection \<open>The depth bounds the calls of the model\<close>

text \<open>
  C25. One request makes at most as many further calls to the model as the maximal depth allows: any
  count that a call of the model raises by at most one and that tools and request identifiers leave
  alone grows by at most the depth, however the model and the tools answer.
\<close>

theorem agent_depth_bounds_model_calls:
  fixes calls_made :: "'w \<Rightarrow> nat"
  assumes "\<And>c q w. calls_made (snd (snd (ae_makeReq e c q w))) \<le> Suc (calls_made w)"
    and "\<And>f c w. ae_fetchNewRequestID e = Some f \<Longrightarrow> calls_made (snd (f c w)) = calls_made w"
    and "\<And>c call w. calls_made (snd (ae_executeTool e c call w)) = calls_made w"
    and "\<And>d cs. set (map snd (ae_goroutines e d cs)) \<subseteq> set cs"
  shows "calls_made (snd (snd (executeAgent e ad maxAgentDepth c req initial w))) \<le> calls_made w + nat maxAgentDepth"
proof -
  let ?P = "\<lambda>d s. calls_made (as_World s) \<le> calls_made w + d"
  have round: "calls_made (after_round (agent_round e ad req (Suc d) calls s)) \<le> calls_made w + Suc d"
    if "?P d s" for d calls s
  proof (rule agent_round_keeps [where I = "\<lambda>v. calls_made v \<le> calls_made w + d"])
    show "calls_made (snd (snd (ae_makeReq e c q v))) \<le> calls_made w + Suc d"
      if "calls_made v \<le> calls_made w + d" for c q v
      using assms(1) [of c q v] that by linarith
  qed (use assms(2-4) that in auto)
  show ?thesis
    by (rule executeAgent_world [where P = "\<lambda>d v. calls_made v \<le> calls_made w + d"]) (use round in auto)
qed

subsection \<open>The usage of the answer\<close>

definition usage_total :: "(agent_usage \<Rightarrow> int) \<Rightarrow> agent_usage option \<Rightarrow> int" where
  "usage_total f u = (case u of None \<Rightarrow> 0 | Some x \<Rightarrow> f x)"

lemma usage_total_merge:
  assumes "f \<in> {au_PromptTokens, au_CompletionTokens, au_TotalTokens}"
  shows "usage_total f (mergeUsage a b) = usage_total f a + usage_total f b"
  using assms by (auto simp: usage_total_def mergeUsage_def split: option.split)

text \<open>What the loop relies on in an adapter: usage that is written can be read again.\<close>

locale agent_api =
  fixes ad :: "('req, 'resp, 'msg) api_adapter"
  assumes extract_apply: "ad_extractUsage ad (ad_applyUsage ad r u) = u"
    and extract_create: "ad_extractUsage ad (ad_createResponse ad r results calls manual) = ad_extractUsage ad r"
begin

lemma round_answer_usage:
  assumes "agent_round e ad req depth calls s = Inl (AgentAnswer r, c, w)"
  shows "ad_extractUsage ad r = as_Usage s \<or> (depth = 1 \<and> r = as_Response s)"
proof -
  let ?auto = "filter (auto_calls e (as_Ctx s) (as_World s)) calls"
  obtain s1 where s1: "execute_round e ad depth ?auto s = Inr s1"
    using assms by (auto simp: agent_round_def Let_def split: sum.splits)
  have keep: "as_Usage s1 = as_Usage s \<and> as_Response s1 = as_Response s"
    using execute_round_world [where I = "\<lambda>_. True" and e = e and ad = ad and depth = depth and auto = ?auto and s = s] s1
    by simp
  have "ask_again e ad req s1 \<noteq> Inl (AgentAnswer r, c, w)"
    by (auto simp: ask_again_def Let_def split: prod.splits sum.splits option.splits)
  with assms s1 keep show ?thesis
    by (auto simp: agent_round_def Let_def extract_apply extract_create split: if_splits)
qed

lemma answer_usage:
  fixes spent :: "'w \<Rightarrow> int" and e :: "('w, 'req, 'resp) agent_env"
  assumes additive: "\<And>a b. usage_total f (mergeUsage a b) = usage_total f a + usage_total f b"
    and model: "\<And>c q w. spent (snd (snd (ae_makeReq e c q w))) = spent w +
      (case fst (ae_makeReq e c q w) of Inr (Some r) \<Rightarrow> usage_total f (ad_extractUsage ad r) | _ \<Rightarrow> 0)"
    and fetch: "\<And>g c w. ae_fetchNewRequestID e = Some g \<Longrightarrow> spent (snd (g c w)) = spent w"
    and tools: "\<And>c call w. spent (snd (ae_executeTool e c call w)) = spent w"
    and gos: "\<And>d cs. set (map snd (ae_goroutines e d cs)) \<subseteq> set cs"
  shows "case executeAgent e ad maxAgentDepth c req initial w of
      (AgentAnswer r, c', w') \<Rightarrow> usage_total f (ad_extractUsage ad r) = usage_total f (ad_extractUsage ad initial) + spent w' - spent w
    | _ \<Rightarrow> True"
proof -
  let ?T = "usage_total f (ad_extractUsage ad initial) - spent w"
  let ?P = "\<lambda>d s. usage_total f (as_Usage s) = ?T + spent (as_World s) \<and> (d = 0 \<longrightarrow> as_Usage s = ad_extractUsage ad (as_Response s))"
  let ?Q = "\<lambda>x. case x of (AgentAnswer r, c, v) \<Rightarrow> usage_total f (ad_extractUsage ad r) = ?T + spent v | _ \<Rightarrow> True"
  have round: "agent_round e ad req d calls s = Inl (AgentAnswer r, c, v) \<Longrightarrow> spent v = spent (as_World s)"
      "agent_round e ad req d calls s = Inr s' \<Longrightarrow>
       spent (as_World s') = spent (as_World s) + usage_total f (ad_extractUsage ad (as_Response s')) \<and>
       as_Usage s' = mergeUsage (as_Usage s) (ad_extractUsage ad (as_Response s'))"
    for d calls r c v and s s' :: "('w, 'resp, 'msg) agent_state"
  proof -
    define I where "I = (\<lambda>v. spent v = spent (as_World s))"
    define J where "J = (\<lambda>(a :: core_error + 'resp option) v. spent v = spent (as_World s) +
      (case a of Inr (Some r) \<Rightarrow> usage_total f (ad_extractUsage ad r) | _ \<Rightarrow> 0))"
    have "case agent_round e ad req d calls s of
        Inl (AgentAnswer r, c, v) \<Rightarrow> I v
      | Inl (AgentFailed err, c, v) \<Rightarrow> I v \<or> J (Inl err) v
      | Inl (AgentCrashed, c, v) \<Rightarrow> J (Inr None) v
      | Inr s' \<Rightarrow> J (Inr (Some (as_Response s'))) (as_World s') \<and>
          as_Usage s' = mergeUsage (as_Usage s) (ad_extractUsage ad (as_Response s'))"
      by (rule agent_round_world) (use model fetch tools gos in \<open>simp_all add: I_def J_def\<close>)
    then show "agent_round e ad req d calls s = Inl (AgentAnswer r, c, v) \<Longrightarrow> spent v = spent (as_World s)"
      "agent_round e ad req d calls s = Inr s' \<Longrightarrow>
       spent (as_World s') = spent (as_World s) + usage_total f (ad_extractUsage ad (as_Response s')) \<and>
       as_Usage s' = mergeUsage (as_Usage s) (ad_extractUsage ad (as_Response s'))"
      by (simp_all add: I_def J_def)
  qed
  have "?Q (executeAgent e ad maxAgentDepth c req initial w)"
    unfolding executeAgent_def
  proof (rule agent_loop_rule [where P = ?P and n = "nat maxAgentDepth"])
    fix d and s :: "('w, 'resp, 'msg) agent_state" and x
    let ?calls = "ad_extractToolCalls ad (as_Response s)"
    assume P: "?P d s" and x: "agent_round e ad req (Suc d) ?calls s = Inl x"
    show "?Q x"
    proof (cases x rule: prod_cases3)
      case (fields a c v)
      show ?thesis
      proof (cases a)
        case (AgentAnswer r)
        with fields x have "spent v = spent (as_World s)" using round(1) [of "Suc d" ?calls s] by simp
        moreover have "usage_total f (ad_extractUsage ad r) = usage_total f (as_Usage s)"
          using round_answer_usage [of e req "Suc d" ?calls s r c v] x fields AgentAnswer P by auto
        ultimately show ?thesis using P fields AgentAnswer by simp
      qed (use fields in simp_all)
    qed
  next
    fix d and s s' :: "('w, 'resp, 'msg) agent_state"
    let ?calls = "ad_extractToolCalls ad (as_Response s)"
    assume "?P d s" "agent_round e ad req (Suc d) ?calls s = Inr s'"
    then show "?P (Suc d) s'" using round(2) [of "Suc d" ?calls s s'] by (simp add: additive)
  qed (auto simp: extract_apply)
  then show ?thesis by (auto split: prod.splits agent_answer.splits)
qed

end

lemma chat_extractUsage [simp]: "ad_extractUsage (chatAPIAdapter marshal show_map) = rp_Usage"
  by (simp add: chatAPIAdapter_def)

interpretation chat_api: agent_api "chatAPIAdapter marshal show_map" for marshal show_map
  by unfold_locales (simp_all add: chatAPIAdapter_def createChatResponse_def Let_def)

text \<open>
  C21. The answer of the agent mode reports the tokens of all calls of the model together: prompt,
  completion and total tokens are those of the first response plus those of every later response,
  whether the loop ended by itself, by its depth or by a tool that needs the user.
\<close>

theorem agent_usage_is_sum:
  fixes spent :: "'w \<Rightarrow> int" and e :: "('w, 'p chat_request, chat_response) agent_env"
  assumes "f \<in> {au_PromptTokens, au_CompletionTokens, au_TotalTokens}"
    and "\<And>c q w. spent (snd (snd (ae_makeReq e c q w))) = spent w +
      (case fst (ae_makeReq e c q w) of Inr (Some r) \<Rightarrow> usage_total f (rp_Usage r) | _ \<Rightarrow> 0)"
    and "\<And>g c w. ae_fetchNewRequestID e = Some g \<Longrightarrow> spent (snd (g c w)) = spent w"
    and "\<And>c call w. spent (snd (ae_executeTool e c call w)) = spent w"
    and "\<And>d cs. set (map snd (ae_goroutines e d cs)) \<subseteq> set cs"
    and "executeAgent e (chatAPIAdapter marshal show_map) maxAgentDepth c req initial w = (AgentAnswer r, c', w')"
  shows "usage_total f (rp_Usage r) = usage_total f (rp_Usage initial) + (spent w' - spent w)"
proof -
  note rule = chat_api.answer_usage [where f = f and spent = spent and e = e and marshal = marshal and show_map = show_map
    and maxAgentDepth = maxAgentDepth and c = c and req = req and initial = initial and w = w, unfolded chat_extractUsage]
  have "case executeAgent e (chatAPIAdapter marshal show_map) maxAgentDepth c req initial w of
      (AgentAnswer r, c', w') \<Rightarrow> usage_total f (rp_Usage r) = usage_total f (rp_Usage initial) + spent w' - spent w
    | _ \<Rightarrow> True"
    by (rule rule) (use usage_total_merge [OF assms(1)] assms(2-5) in auto)
  then show ?thesis using assms(6) by simp
qed

subsection \<open>Calls that need the user\<close>

lemma run_tools_length: "length (fst (run_tools exec c gs w)) = length gs"
  by (induction exec c gs w rule: run_tools.induct) (auto split: prod.splits)

lemma handed_back_calls:
  "extractToolCalls (createChatResponse marshal show_map r results executed manual) = manual"
  by (simp add: extractToolCalls_def hasToolCallsForChatResponse_def createChatResponse_def choice_calls_def Let_def)

text \<open>
  The calls that are not executed go back to the caller: when a round ends with an answer, its
  tool calls are exactly those of the model that are not approved, in their order.
\<close>

lemma unapproved_calls_are_handed_back:
  assumes "agent_round e (chatAPIAdapter marshal show_map) req depth (extractToolCalls (as_Response s)) s = Inl (AgentAnswer r, c, w)"
    and "\<And>d cs. length (ae_goroutines e d cs) = length cs"
  shows "extractToolCalls r = filter (\<lambda>call. \<not> auto_calls e (as_Ctx s) (as_World s) call) (extractToolCalls (as_Response s))"
proof -
  let ?ad = "chatAPIAdapter marshal show_map"
  let ?calls = "extractToolCalls (as_Response s)"
  let ?auto = "filter (auto_calls e (as_Ctx s) (as_World s)) ?calls"
  let ?manual = "filter (\<lambda>call. \<not> auto_calls e (as_Ctx s) (as_World s) call) ?calls"
  obtain s1 where s1: "execute_round e ?ad depth ?auto s = Inr s1"
    using assms(1) by (auto simp: agent_round_def Let_def split: sum.splits)
  have "ask_again e ?ad req s1 \<noteq> Inl (AgentAnswer r, c, w)"
    by (auto simp: ask_again_def Let_def split: prod.splits sum.splits option.splits)
  then consider (whole) "as_Results s1 = []" "r = as_Response s1"
    | (rest) "r = createChatResponse marshal show_map ((as_Response s1)\<lparr>rp_Usage := as_Usage s1\<rparr>) (as_Results s1) (as_Calls s1) ?manual"
    using assms(1) s1 by (auto simp: agent_round_def Let_def chatAPIAdapter_def split: if_splits)
  then show ?thesis
  proof cases
    case whole
    have len: "length (fst (run_tools (ae_executeTool e) (as_Ctx s) (ae_goroutines e depth ?auto) (as_World s))) = length ?auto"
      by (simp add: run_tools_length assms(2))
    have "?auto = []"
    proof (rule ccontr)
      assume auto: "?auto \<noteq> []"
      obtain msgs auth v where run: "run_tools (ae_executeTool e) (as_Ctx s) (ae_goroutines e depth ?auto) (as_World s) = (msgs, auth, v)"
        by (metis prod_cases3)
      then have "msgs = []" using s1 whole(1) auto by (auto simp: execute_round_def split: option.splits)
      with len run auto show False by simp
    qed
    then have "as_Response s1 = as_Response s" using s1 by (simp add: execute_round_def)
    moreover have "?manual = ?calls" using \<open>?auto = []\<close> by (simp add: filter_empty_conv filter_id_conv)
    ultimately show ?thesis using whole(2) by simp
  next
    case rest
    then show ?thesis by (simp only: handed_back_calls)
  qed
qed

subsection \<open>Corners\<close>

text \<open>The answer with the calls that need the user still counts as one with tool calls.\<close>

lemma pending_answer_has_tool_calls:
  "hasToolCallsForChatResponse (Some (createChatResponse marshal show_map r results executed manual)) \<longleftrightarrow> manual \<noteq> []"
  by (simp add: hasToolCallsForChatResponse_def createChatResponse_def choice_calls_def Let_def)

text \<open>Merging drops the split of cache writes by lifetime, which decides their price.\<close>

lemma merge_drops_cache_lifetimes:
  "mergeUsage (Some b) (Some a) = Some u \<Longrightarrow> au_PromptTokensDetails u = Some d \<Longrightarrow> pt_CachedWriteTokenDetails d = None"
  by (auto simp: mergeUsage_def merge_part_def merge_prompt_tokens_def split: if_splits)

text \<open>Two calls of one tool leave one result in the summary.\<close>

lemma results_collapse:
  "result_name names a = n \<Longrightarrow> result_name names b = n \<Longrightarrow> results_map names [a, b] = [(n, result_output b)]"
  by (simp add: results_map_def sm_store_def)

text \<open>A nil response in the loop crashes it, while the same response outside the loop is passed on.\<close>

lemma nil_answer_crashes_agent:
  assumes "fst (ae_makeReq e c q w) = Inr None" "ae_fetchNewRequestID e = None"
    and "c = as_Ctx s" "q = ad_createNewRequest ad req (as_History s)" "w = as_World s"
  shows "\<exists>c' w'. ask_again e ad req s = Inl (AgentCrashed, c', w')"
  using assms by (auto simp: ask_again_def split: prod.split)

lemma speed_is_dropped: "rp_Speed (createChatResponse marshal show_map r results executed manual) = None"
  by (simp add: createChatResponse_def Let_def)

subsection \<open>A request that calls two tools\<close>

definition tokens :: "int \<Rightarrow> agent_usage" where
  "tokens n = \<lparr>au_PromptTokens = n, au_PromptTokensDetails = None, au_CompletionTokens = 1,
     au_CompletionTokensDetails = None, au_TotalTokens = n + 1, au_Cost = None\<rparr>"

definition reply :: "tool_call list \<Rightarrow> int \<Rightarrow> chat_response" where
  "reply calls n = \<lparr>rp_Model = ''m'', rp_Speed = None,
     rp_Choices = [\<lparr>ch_FinishReason = Some ''stop'', ch_Message = Some \<lparr>cm_Role = ''assistant'', cm_Content = None,
       cm_Tool = None, cm_ToolCalls = Some calls\<rparr>\<rparr>], rp_Usage = Some (tokens n), rp_ExtraFields = no_extra\<rparr>"

definition named_call :: "string \<Rightarrow> tool_call" where
  "named_call n = \<lparr>fc_ID = Some n, fc_Name = Some n, fc_Arguments = []\<rparr>"

text \<open>The world counts the calls of the model and lists the tools that ran. The model answers without tool calls.\<close>

definition quiet_env :: "(nat \<times> string list, unit chat_request, chat_response) agent_env" where
  "quiet_env = \<lparr>ae_makeReq = (\<lambda>c q (n, ran). (Inr (Some (reply [] 7)), c, (Suc n, ran))),
     ae_fetchNewRequestID = None,
     ae_executeTool = (\<lambda>c call (n, ran). (ToolDone None, (n, ran @ [case fc_Name call of Some t \<Rightarrow> t | None \<Rightarrow> []]))),
     ae_clients = (\<lambda>_. two_clients), ae_goroutines = (\<lambda>_ cs. map (\<lambda>call. (''log'', call)) cs), ae_codeOf = Some\<rparr>"

definition quiet_ctx :: uctx where
  "quiet_ctx = \<lparr>uc_values = [], uc_blocked = False, uc_parent = (\<lambda>_. CNil)\<rparr>"

definition quiet_request :: "unit chat_request" where
  "quiet_request = \<lparr>cq_Provider = ''p'', cq_Model = ''m'', cq_Fallbacks = [], cq_Params = None, cq_Input = [], cq_RawRequestBody = []\<rparr>"

definition quiet_api :: "(unit chat_request, chat_response, chat_message) api_adapter" where
  "quiet_api = chatAPIAdapter (\<lambda>_. None) (\<lambda>_. [])"

lemma quiet_env_laws:
  "snd (snd (ae_makeReq quiet_env c q w)) = (Suc (fst w), snd w)"
  "fst (ae_makeReq quiet_env c q w) = Inr (Some (reply [] 7))"
  "ae_fetchNewRequestID quiet_env = None"
  "snd (ae_executeTool quiet_env c call w) = (fst w, snd w @ [case fc_Name call of Some t \<Rightarrow> t | None \<Rightarrow> []])"
  "ae_goroutines quiet_env d cs = map (\<lambda>call. (''log'', call)) cs"
  by (auto simp: quiet_env_def split: prod.split)

lemma push_not_approved: "fc_Name call = Some ''git-push'' \<Longrightarrow> \<not> approved code_of v two_clients call"
  by (auto simp: approved_def two_clients_defs listed_for_def wl_IsAllowed_def wl_IsUnrestricted_def list_contains_def
      stripClientPrefix_def sm_load_def has_prefix_def equal_fold_def str_lower_def ascii_lower_def Let_def)

lemma agent_runs_approved_tools_witness:
  "''git-push'' \<notin> set (snd (snd (snd (executeAgent quiet_env quiet_api 5 quiet_ctx quiet_request
     (reply [named_call ''git-log'', named_call ''git-push''] 3) (0, [])))))"
proof (rule agent_runs_approved_tools [where I = "\<lambda>w. ''git-push'' \<notin> set (snd w)"])
  fix c logID call and w w0 :: "nat \<times> string list"
  assume "approved (ae_codeOf quiet_env) (uc_Value c) (ae_clients quiet_env w0) call" "''git-push'' \<notin> set (snd w)"
  moreover from this have "fc_Name call \<noteq> Some ''git-push''"
    using push_not_approved by (auto simp: quiet_env_def)
  moreover have "fc_Name call \<noteq> None" using calculation(1) by (auto simp: approved_def)
  ultimately show "''git-push'' \<notin> set (snd (snd (ae_executeTool quiet_env (tool_ctx c logID) call w)))"
    by (auto simp: quiet_env_laws)
qed (simp_all add: quiet_env_laws)

lemma agent_depth_bounds_model_calls_witness:
  "fst (snd (snd (executeAgent quiet_env quiet_api 5 quiet_ctx quiet_request (reply [named_call ''git-log''] 3) (0, [])))) \<le> fst (0 :: nat, [] :: string list) + nat 5"
  by (rule agent_depth_bounds_model_calls) (simp_all add: quiet_env_laws)

text \<open>The tool runs, the model is asked once more, and the answer carries the usage of both responses.\<close>

lemma quiet_run:
  "case executeAgent quiet_env quiet_api 5 quiet_ctx quiet_request (reply [named_call ''git-log''] 3) (0, []) of
     (a, c, w) \<Rightarrow> a = AgentAnswer (reply [] 7\<lparr>rp_Usage := mergeUsage (Some (tokens 3)) (Some (tokens 7))\<rparr>) \<and>
       w = (1, [''git-log''])"
  by code_simp

lemma agent_usage_is_sum_witness:
  "usage_total au_TotalTokens (rp_Usage (reply [] 7\<lparr>rp_Usage := mergeUsage (Some (tokens 3)) (Some (tokens 7))\<rparr>)) =
   usage_total au_TotalTokens (rp_Usage (reply [named_call ''git-log''] 3)) + (int (8 * fst (1 :: nat, [''git-log''])) - int (8 * fst (0 :: nat, [] :: string list)))"
proof -
  obtain c' where "executeAgent quiet_env (chatAPIAdapter (\<lambda>_. None) (\<lambda>_. [])) 5 quiet_ctx quiet_request (reply [named_call ''git-log''] 3) (0, []) =
      (AgentAnswer (reply [] 7\<lparr>rp_Usage := mergeUsage (Some (tokens 3)) (Some (tokens 7))\<rparr>), c', (1, [''git-log'']))"
    using quiet_run by (auto simp: quiet_api_def split: prod.splits)
  then show ?thesis
    by (rule agent_usage_is_sum [where f = au_TotalTokens and e = quiet_env and spent = "\<lambda>w. int (8 * fst w)", rotated 5])
      (auto simp: quiet_env_laws reply_def tokens_def usage_total_def)
qed

end
